(* ===== verification/Prelude.thy ===== *)
theory Prelude
  imports Main "HOL-Library.Word"
begin

text \<open>
  Shared vocabulary of the development: Python exceptions as values, the result type and
  its sequencing, Python's indexing and slicing, byte strings, and the fixed-width integer
  codecs of the struct module. Every component theory imports this one.
\<close>

unbundle bit_operations_syntax

named_theorems res_simps "equations that push results through sequencing"
named_theorems wire_simps "lengths and inverses of the wire-format codecs"
named_theorems eval_simps "equations that evaluate closed terms by simplification"

lemma replicate_numeral [eval_simps]: "replicate (numeral k) x = x # replicate (pred_numeral k) x"
  by (simp add: numeral_eq_Suc)

declare upt_rec [of _ "numeral k" for k, eval_simps]

section \<open>Exceptions and results\<close>

text \<open>
  The built-in exception classes the modelled code can raise, and \<open>PyException\<close> for the
  explicit \<open>raise Exception(text)\<close> statements of the source.
\<close>

datatype pyerr =
    AssertionError | ZeroDivisionError | ValueError | IndexError | KeyError | TypeError | AttributeError
  | StructError | OverflowError | AddressValueError | TimeoutError | CancelledError | OSError | InvalidStateError
  | PyException string

type_synonym 'a res = "pyerr + 'a"

abbreviation Ok :: "'a \<Rightarrow> 'a res" where
  "Ok \<equiv> Inr"

abbreviation Err :: "pyerr \<Rightarrow> 'a res" where
  "Err \<equiv> Inl"

definition rbind :: "'a res \<Rightarrow> ('a \<Rightarrow> 'b res) \<Rightarrow> 'b res" where
  "rbind m f = (case m of Inl e \<Rightarrow> Inl e | Inr x \<Rightarrow> f x)"

definition rassert :: "bool \<Rightarrow> unit res" where
  "rassert b = (if b then Ok () else Err AssertionError)"

text \<open>An \<open>except\<close> block: run the handler on any exception.\<close>

definition rcatch :: "'a res \<Rightarrow> (pyerr \<Rightarrow> 'a res) \<Rightarrow> 'a res" where
  "rcatch m h = (case m of Inl e \<Rightarrow> h e | Inr x \<Rightarrow> Inr x)"

definition rmap :: "('a \<Rightarrow> 'b) \<Rightarrow> 'a res \<Rightarrow> 'b res" where
  "rmap f m = (case m of Inl e \<Rightarrow> Inl e | Inr x \<Rightarrow> Inr (f x))"

definition is_ok :: "'a res \<Rightarrow> bool" where
  "is_ok m = (case m of Inl _ \<Rightarrow> False | Inr _ \<Rightarrow> True)"

definition res_opt :: "'a res \<Rightarrow> 'a option" where
  "res_opt m = (case m of Inl _ \<Rightarrow> None | Inr x \<Rightarrow> Some x)"

text \<open>A loop that applies a fallible step to each element, stopping at the first exception.\<close>

fun rmap_list :: "('a \<Rightarrow> 'b res) \<Rightarrow> 'a list \<Rightarrow> 'b list res" where
  "rmap_list f [] = Ok []"
| "rmap_list f (x # xs) = rbind (f x) (\<lambda>y. rbind (rmap_list f xs) (\<lambda>ys. Ok (y # ys)))"

fun rfold :: "('a \<Rightarrow> 's \<Rightarrow> 's res) \<Rightarrow> 'a list \<Rightarrow> 's \<Rightarrow> 's res" where
  "rfold f [] s = Ok s"
| "rfold f (x # xs) s = rbind (f x s) (\<lambda>s'. rfold f xs s')"

lemma rbind_simps [simp, res_simps]:
  "rbind (Inl e) f = Inl e"
  "rbind (Inr x) f = f x"
  by (simp_all add: rbind_def)

lemma rcatch_simps [simp, res_simps]:
  "rcatch (Inl e) h = h e"
  "rcatch (Inr x) h = Inr x"
  by (simp_all add: rcatch_def)

lemma rmap_simps [simp, res_simps]:
  "rmap f (Inl e) = Inl e"
  "rmap f (Inr x) = Inr (f x)"
  by (simp_all add: rmap_def)

lemma is_ok_simps [simp]:
  "\<not> is_ok (Inl e)"
  "is_ok (Inr x)"
  by (simp_all add: is_ok_def)

lemma res_opt_simps [simp]:
  "res_opt (Inl e) = None"
  "res_opt (Inr x) = Some x"
  by (simp_all add: res_opt_def)

lemma rbind_eq_Ok: "rbind m f = Inr y \<longleftrightarrow> (\<exists>x. m = Inr x \<and> f x = Inr y)"
  by (cases m) auto

lemma rbind_eq_Err: "rbind m f = Inl e \<longleftrightarrow> m = Inl e \<or> (\<exists>x. m = Inr x \<and> f x = Inl e)"
  by (cases m) auto

lemma rassert_simps [simp, res_simps]:
  "rassert True = Inr ()"
  "rassert False = Inl AssertionError"
  by (simp_all add: rassert_def)

lemma rassert_eq_Ok [simp]: "rassert b = Inr u \<longleftrightarrow> b"
  by (simp add: rassert_def)

lemma is_ok_iff: "is_ok m \<longleftrightarrow> (\<exists>x. m = Inr x)"
  by (cases m) auto

lemma rmap_list_Ok_length: "rmap_list f xs = Inr ys \<Longrightarrow> length ys = length xs"
  by (induction xs arbitrary: ys) (auto simp: rbind_eq_Ok)

lemma rmap_list_total:
  "(\<And>x. x \<in> set xs \<Longrightarrow> f x = Inr (g x)) \<Longrightarrow> rmap_list f xs = Inr (map g xs)"
  by (induction xs) auto

lemma rmap_list_set: "rmap_list f xs = Inr ys \<Longrightarrow> y \<in> set ys \<Longrightarrow> \<exists>x \<in> set xs. f x = Inr y"
  by (induction xs arbitrary: ys) (auto simp: rbind_eq_Ok)

section \<open>Python lists, slices and dictionaries\<close>

text \<open>\<open>xs[i]\<close>: negative indices count from the end, anything else out of range raises.\<close>

definition py_get :: "'a list \<Rightarrow> int \<Rightarrow> 'a res" where
  "py_get xs i =
     (let n = int (length xs); j = (if i < 0 then n + i else i)
      in if 0 \<le> j \<and> j < n then Ok (xs ! nat j) else Err IndexError)"

text \<open>\<open>xs[i:j]\<close> for non-negative bounds, which is how the source slices buffers.\<close>

definition slice :: "nat \<Rightarrow> nat \<Rightarrow> 'a list \<Rightarrow> 'a list" where
  "slice i j xs = take (j - i) (drop i xs)"

lemma py_get_nat: "i < length xs \<Longrightarrow> py_get xs (int i) = Inr (xs ! i)"
  by (simp add: py_get_def)

lemma length_slice [simp]: "length (slice i j xs) = min (j - i) (length xs - i)"
  by (simp add: slice_def)

lemma slice_append1: "j \<le> length xs \<Longrightarrow> slice i j (xs @ ys) = slice i j xs"
  by (cases "i \<le> length xs") (auto simp: slice_def)

lemma slice_all: "slice 0 (length xs) xs = xs"
  by (simp add: slice_def)

lemma slice_append2:
  "length xs \<le> i \<Longrightarrow> slice i j (xs @ ys) = slice (i - length xs) (j - length xs) ys"
  by (simp add: slice_def)

text \<open>
  A dict whose iteration order matters is an association list: assignment keeps the place of
  an existing key and appends a new one, as CPython's insertion-ordered dict does.
\<close>

fun dict_set :: "'k \<Rightarrow> 'v \<Rightarrow> ('k \<times> 'v) list \<Rightarrow> ('k \<times> 'v) list" where
  "dict_set k v [] = [(k, v)]"
| "dict_set k v ((k', v') # d) = (if k = k' then (k, v) # d else (k', v') # dict_set k v d)"

fun dict_del :: "'k \<Rightarrow> ('k \<times> 'v) list \<Rightarrow> ('k \<times> 'v) list" where
  "dict_del k [] = []"
| "dict_del k ((k', v') # d) = (if k = k' then d else (k', v') # dict_del k d)"

definition dict_get :: "'k \<Rightarrow> ('k \<times> 'v) list \<Rightarrow> 'v res" where
  "dict_get k d = (case map_of d k of None \<Rightarrow> Err KeyError | Some v \<Rightarrow> Ok v)"

text \<open>A dict holds each key once; every assignment and deletion keeps it so.\<close>

definition dict_ok :: "('k \<times> 'v) list \<Rightarrow> bool" where
  "dict_ok d = distinct (map fst d)"

lemma dict_set_keys: "map fst (dict_set k v d) =
    (if k \<in> set (map fst d) then map fst d else map fst d @ [k])"
  by (induction d) (auto simp del: set_map)

lemma map_of_dict_set [simp]: "map_of (dict_set k v d) = (map_of d)(k \<mapsto> v)"
  by (induction d) auto

lemma dict_ok_Nil [simp]: "dict_ok []"
  by (simp add: dict_ok_def)

lemma dict_ok_set [simp]: "dict_ok d \<Longrightarrow> dict_ok (dict_set k v d)"
  by (simp add: dict_ok_def dict_set_keys)

lemma map_fst_dict_del: "map fst (dict_del k d) = remove1 k (map fst d)"
  by (induction d) auto

lemma dict_ok_del [simp]: "dict_ok d \<Longrightarrow> dict_ok (dict_del k d)"
  by (simp add: dict_ok_def map_fst_dict_del distinct_remove1)

lemma dict_del_keys: "dict_ok d \<Longrightarrow> set (map fst (dict_del k d)) = set (map fst d) - {k}"
  unfolding map_fst_dict_del dict_ok_def by (rule set_remove1_eq)

lemma map_of_dict_del: "dict_ok d \<Longrightarrow> map_of (dict_del k d) = (map_of d)(k := None)"
proof (induction d)
  case (Cons p d)
  obtain k' v where p: "p = (k', v)" by (cases p)
  from Cons.prems have "map_of d k' = None" and "dict_ok d"
    by (auto simp: p dict_ok_def map_of_eq_None_iff)
  with Cons.IH show ?case
    by (auto simp: p fun_eq_iff)
qed simp

lemma length_dict_set:
  "length (dict_set k v d) = (if k \<in> set (map fst d) then length d else Suc (length d))"
  using dict_set_keys [of k v d] by (metis length_append_singleton length_map)

lemma dict_set_new: "k \<notin> fst ` set d \<Longrightarrow> dict_set k v d = d @ [(k, v)]"
  by (induction d) auto

section \<open>Byte strings and the struct module\<close>

type_synonym byte = "8 word"
type_synonym bytes = "byte list"

text \<open>Big-endian (\<open>!\<close>) and little-endian (\<open><\<close>) encodings of \<open>k\<close> bytes.\<close>

fun be_enc :: "nat \<Rightarrow> nat \<Rightarrow> bytes" where
  "be_enc 0 n = []"
| "be_enc (Suc k) n = be_enc k (n div 256) @ [word_of_nat (n mod 256)]"

definition be_dec :: "bytes \<Rightarrow> nat" where
  "be_dec bs = foldl (\<lambda>a b. a * 256 + unat b) 0 bs"

fun le_enc :: "nat \<Rightarrow> nat \<Rightarrow> bytes" where
  "le_enc 0 n = []"
| "le_enc (Suc k) n = word_of_nat (n mod 256) # le_enc k (n div 256)"

fun le_dec :: "bytes \<Rightarrow> nat" where
  "le_dec [] = 0"
| "le_dec (b # bs) = unat b + 256 * le_dec bs"

text \<open>The contract the packet formats rely on, whichever byte order they use.\<close>

locale int_codec =
  fixes enc :: "nat \<Rightarrow> nat \<Rightarrow> bytes"
    and dec :: "bytes \<Rightarrow> nat"
  assumes length_enc: "length (enc k n) = k"
    and dec_enc: "dec (enc k n) = n mod 256 ^ k"
    and enc_dec: "enc (length bs) (dec bs) = bs"
begin

lemma dec_enc_id: "n < 256 ^ k \<Longrightarrow> dec (enc k n) = n"
  by (simp add: dec_enc)

lemma dec_bound: "dec bs < 256 ^ length bs"
proof -
  have "dec bs = dec (enc (length bs) (dec bs))" by (simp add: enc_dec)
  also have "\<dots> = dec bs mod 256 ^ length bs" by (rule dec_enc)
  finally show ?thesis
    by (metis mod_less_divisor zero_less_numeral zero_less_power)
qed

lemma enc_inj: "n < 256 ^ k \<Longrightarrow> m < 256 ^ k \<Longrightarrow> enc k n = enc k m \<Longrightarrow> n = m"
  by (metis dec_enc_id)

lemma take_enc: "take k (enc k n @ r) = enc k n"
  by (simp add: length_enc)

lemma drop_enc: "drop k (enc k n @ r) = r"
  by (simp add: length_enc)

lemma dec_inj: "length bs = length cs \<Longrightarrow> dec bs = dec cs \<Longrightarrow> bs = cs"
  by (metis enc_dec)

end

lemma be_enc_numeral [eval_simps]:
  "be_enc (numeral k) n = be_enc (pred_numeral k) (n div 256) @ [word_of_nat (n mod 256)]"
  using be_enc.simps(2) [of "pred_numeral k" n] by (simp only: numeral_eq_Suc [of k])

lemma length_be_enc [simp, wire_simps]: "length (be_enc k n) = k"
  by (induction k arbitrary: n) auto

lemma length_le_enc [simp, wire_simps]: "length (le_enc k n) = k"
  by (induction k arbitrary: n) auto

lemma be_dec_snoc: "be_dec (bs @ [b]) = be_dec bs * 256 + unat b"
  by (simp add: be_dec_def)

lemma be_dec_Nil [simp]: "be_dec [] = 0"
  by (simp add: be_dec_def)

lemma unat_byte_mod: "unat (word_of_nat (n mod 256) :: byte) = n mod 256"
  by (simp add: unat_of_nat take_bit_eq_mod)

lemma byte_div_mod: "(n div 256 mod m) * 256 + n mod 256 = n mod (256 * m)" for n m :: nat
  by (simp add: mod_mult2_eq)

lemma be_dec_enc: "be_dec (be_enc k n) = n mod 256 ^ k"
proof (induction k arbitrary: n)
  case (Suc k)
  then show ?case
    by (simp add: be_dec_snoc unat_byte_mod byte_div_mod)
qed simp

lemma le_dec_enc: "le_dec (le_enc k n) = n mod 256 ^ k"
proof (induction k arbitrary: n)
  case (Suc k)
  then show ?case
    using byte_div_mod [of n "256 ^ k"] by (simp add: unat_byte_mod)
qed simp

lemma unat_byte_lt [simp]: "unat (b :: byte) < 256"
  using unsigned_less [of b] by simp

lemma be_enc_dec: "be_enc (length bs) (be_dec bs) = bs"
proof (induction bs rule: rev_induct)
  case (snoc b bs)
  then show ?case by (simp add: be_dec_snoc)
qed simp

lemma le_enc_dec: "le_enc (length bs) (le_dec bs) = bs"
  by (induction bs) auto

interpretation be: int_codec be_enc be_dec
  by unfold_locales (simp_all add: be_dec_enc be_enc_dec)

interpretation le: int_codec le_enc le_dec
  by unfold_locales (simp_all add: le_dec_enc le_enc_dec)

lemmas codec_simps [wire_simps] = be.dec_enc_id le.dec_enc_id be_enc_dec le_enc_dec

text \<open>\<open>struct.pack\<close> of one unsigned field raises outside the field's range.\<close>

definition pack_be :: "nat \<Rightarrow> int \<Rightarrow> bytes res" where
  "pack_be k n = (if 0 \<le> n \<and> n < 256 ^ k then Ok (be_enc k (nat n)) else Err StructError)"

definition pack_le :: "nat \<Rightarrow> int \<Rightarrow> bytes res" where
  "pack_le k n = (if 0 \<le> n \<and> n < 256 ^ k then Ok (le_enc k (nat n)) else Err StructError)"

text \<open>\<open>struct.unpack\<close> of one unsigned field raises unless the buffer has the exact size.\<close>

definition unpack_be :: "nat \<Rightarrow> bytes \<Rightarrow> int res" where
  "unpack_be k bs = (if length bs = k then Ok (int (be_dec bs)) else Err StructError)"

definition unpack_le :: "nat \<Rightarrow> bytes \<Rightarrow> int res" where
  "unpack_le k bs = (if length bs = k then Ok (int (le_dec bs)) else Err StructError)"

text \<open>\<open>bytes([n])\<close> raises ValueError outside 0..255.\<close>

definition byte_of_int :: "int \<Rightarrow> bytes res" where
  "byte_of_int n = (if 0 \<le> n \<and> n < 256 then Ok [word_of_int n] else Err ValueError)"

lemma nat_lt_power_iff: "0 \<le> n \<Longrightarrow> nat n < 256 ^ k \<longleftrightarrow> n < 256 ^ k"
  by (metis nat_less_iff of_nat_numeral of_nat_power)

lemma unpack_pack_be: "pack_be k n = Inr bs \<Longrightarrow> unpack_be k bs = Inr n"
  by (auto simp: pack_be_def unpack_be_def be.dec_enc_id nat_lt_power_iff split: if_splits)

lemma unpack_pack_le: "pack_le k n = Inr bs \<Longrightarrow> unpack_le k bs = Inr n"
  by (auto simp: pack_le_def unpack_le_def le.dec_enc_id nat_lt_power_iff split: if_splits)

lemma pack_be_length: "pack_be k n = Inr bs \<Longrightarrow> length bs = k"
  by (auto simp: pack_be_def split: if_splits)

lemma pack_le_length: "pack_le k n = Inr bs \<Longrightarrow> length bs = k"
  by (auto simp: pack_le_def split: if_splits)

section \<open>Randomness\<close>

text \<open>
  \<open>random.randrange(lo, hi)\<close> is a function of an entropy value: it raises on an empty range
  and otherwise returns some integer of the range, each of which some entropy value selects.
\<close>

definition randrange :: "nat \<Rightarrow> int \<Rightarrow> int \<Rightarrow> int res" where
  "randrange e lo hi = (if lo < hi then Ok (lo + int e mod (hi - lo)) else Err ValueError)"

lemma randrange_range: "randrange e lo hi = Inr x \<Longrightarrow> lo \<le> x \<and> x < hi"
  by (auto simp: randrange_def split: if_splits)
     (smt (verit) pos_mod_bound)

lemma randrange_all: "lo \<le> x \<Longrightarrow> x < hi \<Longrightarrow> randrange (nat (x - lo)) lo hi = Inr x"
  by (simp add: randrange_def)

end
