(* ===== verification/Py_Utils.thy ===== *)
theory Py_Utils
  imports Prelude
begin

text \<open>
  The helper functions of \<^verbatim>\<open>utility/utils.py\<close> the other components compute with: port and
  range arithmetic, the approximate binary search, the Hamming weight, buffer XOR, list and
  dictionary helpers, and the retry loop.
\<close>

section \<open>Ports and ranges\<close>

definition MAX_PORT :: int where
  "MAX_PORT = 65535"

definition valid_port :: "int \<Rightarrow> bool" where
  "valid_port p = (p \<ge> 1 \<and> p \<le> MAX_PORT)"

text \<open>\<open>(p % MAX_PORT) or 1\<close>: zero is falsy.\<close>

definition port_wrap :: "int \<Rightarrow> int" where
  "port_wrap p = (let m = p mod MAX_PORT in if m = 0 then 1 else m)"

definition neg_flip :: "int \<Rightarrow> int \<Rightarrow> int \<Rightarrow> int" where
  "neg_flip r x y = (if x > y then - r else r)"

definition n_dist :: "int \<Rightarrow> int \<Rightarrow> int" where
  "n_dist x y = neg_flip (max x y - min x y) x y"

definition from_range :: "nat \<Rightarrow> int \<times> int \<Rightarrow> int res" where
  "from_range e r = randrange e (fst r) (snd r + 1)"

definition in_range :: "int \<Rightarrow> int \<times> int \<Rightarrow> bool" where
  "in_range x r = (x \<ge> fst r \<and> x \<le> snd r)"

definition len_range :: "int \<times> int \<Rightarrow> int" where
  "len_range r = snd r - fst r"

text \<open>\<open>((1 << l) - 1) & (n >> p)\<close> on Python's unbounded integers.\<close>

definition get_bits :: "int \<Rightarrow> nat \<Rightarrow> nat \<Rightarrow> int" where
  "get_bits n l p = and (push_bit l 1 - 1) (drop_bit p n)"

text \<open>\<open>x == y\<close> short cut, then: the pairs ascend lexicographically, the lists are joined.\<close>

definition pair_le :: "int \<times> int \<Rightarrow> int \<times> int \<Rightarrow> bool" where
  "pair_le a b = (fst a < fst b \<or> (fst a = fst b \<and> snd a \<le> snd b))"

definition range_intersects :: "int \<times> int \<Rightarrow> int \<times> int \<Rightarrow> bool" where
  "range_intersects a b =
     (if a = b then True
      else (let (p, q) = (if pair_le a b then (a, b) else (b, a));
                range_list = [fst p, snd p, fst q, snd q]
            in range_list ! 2 \<le> range_list ! 1))"

definition intersect_range :: "int \<times> int \<Rightarrow> int \<times> int \<Rightarrow> int \<times> int" where
  "intersect_range a b =
     (let asc = sort [fst a, snd a, fst b, snd b] in (asc ! 1, asc ! 2))"

text \<open>
  \<open>field_wrap\<close> keeps its \<open>while 1\<close> loop: one round of the body on the locals \<open>x\<close>, \<open>y\<close>,
  then the exit test. A field ending in -1 divides by zero.
\<close>

definition field_wrap_body :: "int \<Rightarrow> int \<Rightarrow> int \<times> int \<Rightarrow> int \<times> int" where
  "field_wrap_body start_range stop_range = (\<lambda>(x, y).
     if x < start_range
     then (let x1 = x + start_range; y1 = x1 mod stop_range in (if x1 \<noteq> y1 then y1 else x1, y1))
     else (x, y))"

partial_function (option) field_wrap_loop :: "int \<Rightarrow> int \<Rightarrow> int \<times> int \<Rightarrow> int option" where
  "field_wrap_loop start_range stop_range s =
     (let s' = field_wrap_body start_range stop_range s
      in if fst s' = snd s' then Some (fst s') else field_wrap_loop start_range stop_range s')"

definition field_wrap :: "int \<Rightarrow> int \<times> int \<Rightarrow> int option res" where
  "field_wrap n field =
     (let start_range = fst field; stop_range = snd field + 1
      in if stop_range = 0 then Err ZeroDivisionError
         else (let x = n mod stop_range in Ok (field_wrap_loop start_range stop_range (x, x))))"

text \<open>What the loop computes, as a single expression.\<close>

definition field_wrap_val :: "int \<Rightarrow> int \<times> int \<Rightarrow> int" where
  "field_wrap_val n field =
     (let m = snd field + 1; x = n mod m
      in if x < fst field then (x + fst field) mod m else x)"

definition field_dist :: "int \<Rightarrow> int \<Rightarrow> int \<Rightarrow> int" where
  "field_dist x y field =
     (let max_no = max x y; min_no = min x y; dist = max_no - min_no
      in if dist = 0 then 0
         else (let rem = field - max_no; fd = min_no + rem;
                   ret = (if fd < dist then fd else dist)
               in if x = min_no then - ret else ret))"

lemma valid_port_wrap: "valid_port (port_wrap p)"
proof -
  have "0 \<le> p mod 65535" and "p mod 65535 < 65535" by simp_all
  then show ?thesis
    unfolding valid_port_def port_wrap_def MAX_PORT_def Let_def by auto
qed

lemma port_wrap_id: "1 \<le> p \<Longrightarrow> p < MAX_PORT \<Longrightarrow> port_wrap p = p"
  by (simp add: port_wrap_def MAX_PORT_def Let_def)

lemma abs_n_dist [simp]: "\<bar>n_dist x y\<bar> = \<bar>x - y\<bar>"
  by (auto simp: n_dist_def neg_flip_def)

lemma n_dist_swap: "n_dist y x = - n_dist x y"
  by (auto simp: n_dist_def neg_flip_def)

lemma from_range_in_range: "from_range e r = Inr x \<Longrightarrow> in_range x r"
  using randrange_range [of e "fst r" "snd r + 1" x] by (simp add: from_range_def in_range_def)

lemma from_range_Ok: "fst r \<le> snd r \<Longrightarrow> \<exists>x. from_range e r = Inr x"
  by (simp add: from_range_def randrange_def)

lemma get_bits_mod: "get_bits n l p = (n div 2 ^ p) mod 2 ^ l"
proof -
  have "push_bit l 1 - 1 = (mask l :: int)"
    by (simp add: mask_eq_exp_minus_1 push_bit_eq_mult)
  then show ?thesis
    by (simp add: get_bits_def and.commute [of "mask l"] take_bit_eq_mask [symmetric]
        take_bit_eq_mod drop_bit_eq_div)
qed

lemma range_intersects_iff:
  "fst a \<le> snd a \<Longrightarrow> fst b \<le> snd b \<Longrightarrow>
   range_intersects a b \<longleftrightarrow> (\<exists>x. in_range x a \<and> in_range x b)"
proof -
  assume w: "fst a \<le> snd a" "fst b \<le> snd b"
  have eq: "range_intersects a b \<longleftrightarrow> max (fst a) (fst b) \<le> min (snd a) (snd b)"
    using w by (cases a; cases b) (auto simp: range_intersects_def pair_le_def Let_def)
  show ?thesis
    unfolding eq in_range_def by (rule iffI) (rule exI [of _ "max (fst a) (fst b)"], auto)
qed

lemma range_intersects_sym: "range_intersects a b = range_intersects b a"
  by (cases a; cases b) (auto simp: range_intersects_def pair_le_def Let_def)

lemma range_intersects_refl [simp]: "range_intersects a a"
  by (simp add: range_intersects_def)

lemma intersect_range_eq:
  assumes "fst a \<le> snd a" "fst b \<le> snd b" "range_intersects a b"
  shows "intersect_range a b = (max (fst a) (fst b), min (snd a) (snd b))"
proof -
  have "max (fst a) (fst b) \<le> min (snd a) (snd b)"
    using assms range_intersects_iff [of a b] by (auto simp: in_range_def)
  then have "fst a \<le> snd b" and "fst b \<le> snd a" by auto
  with assms(1,2) show ?thesis
    by (auto simp: intersect_range_def Let_def max_def min_def)
qed

lemma field_wrap_loop_eq:
  "field_wrap_loop a m (x, x) = Some (if x < a then (x + a) mod m else x)"
  by (subst field_wrap_loop.simps) (auto simp: field_wrap_body_def Let_def)

lemma field_wrap_eq:
  "snd field \<noteq> -1 \<Longrightarrow> field_wrap n field = Inr (Some (field_wrap_val n field))"
  by (auto simp: field_wrap_def field_wrap_val_def field_wrap_loop_eq Let_def)

lemma field_wrap_val_in_range:
  assumes "0 \<le> fst field" and "fst field \<le> snd field" and "2 * fst field \<le> snd field + 1"
  shows "in_range (field_wrap_val n field) field"
proof -
  let ?m = "snd field + 1" let ?x = "n mod (snd field + 1)"
  have m: "0 < ?m" using assms by linarith
  then have x: "0 \<le> ?x" "?x < ?m" by (rule pos_mod_sign, rule pos_mod_bound)
  show ?thesis
  proof (cases "?x < fst field")
    case True
    then have "(?x + fst field) mod ?m = ?x + fst field"
      using assms x by (intro mod_pos_pos_trivial) linarith+
    then show ?thesis
      using True assms x by (simp add: field_wrap_val_def Let_def in_range_def)
  next
    case False
    then show ?thesis
      using x by (simp add: field_wrap_val_def Let_def in_range_def)
  qed
qed

lemma field_dist_swap: "field_dist y x f = - field_dist x y f"
  by (auto simp: field_dist_def Let_def max_def min_def)

lemma field_dist_abs:
  assumes "0 \<le> x" "x \<le> f" "0 \<le> y" "y \<le> f"
  shows "\<bar>field_dist x y f\<bar> = min \<bar>x - y\<bar> (f - \<bar>x - y\<bar>)"
  using assms by (auto simp: field_dist_def Let_def max_def min_def)

section \<open>Lists and dictionaries\<close>

text \<open>\<open>[i for n, i in enumerate(x) if i not in x[:n]]\<close>: the first occurrence of each value.\<close>

definition to_unique :: "'a list \<Rightarrow> 'a list" where
  "to_unique x = map (\<lambda>n. x ! n) (filter (\<lambda>n. x ! n \<notin> set (take n x)) [0..<length x])"

definition dict_plus :: "('k \<times> int) list \<Rightarrow> 'k \<Rightarrow> int" where
  "dict_plus d k = (case map_of d k of Some v \<Rightarrow> v | None \<Rightarrow> 0)"

fun list_exclude_dict :: "'k \<Rightarrow> 'v \<Rightarrow> ('k \<times> 'v) list list \<Rightarrow> ('k \<times> 'v) list list" where
  "list_exclude_dict key_name exclusion [] = []"
| "list_exclude_dict key_name exclusion (entry # entries) =
     (case map_of entry key_name of
        None \<Rightarrow> entry # list_exclude_dict key_name exclusion entries
      | Some v \<Rightarrow> (if v \<noteq> exclusion then entry # list_exclude_dict key_name exclusion entries
                   else list_exclude_dict key_name exclusion entries))"

fun list_get_dict :: "'k \<Rightarrow> 'v \<Rightarrow> ('k \<times> 'v) list list \<Rightarrow> ('k \<times> 'v) list option" where
  "list_get_dict key_name criteria [] = None"
| "list_get_dict key_name criteria (entry # entries) =
     (case map_of entry key_name of
        None \<Rightarrow> list_get_dict key_name criteria entries
      | Some v \<Rightarrow> (if v = criteria then Some entry else list_get_dict key_name criteria entries))"

text \<open>The template \<open>y\<close> with the child's entries written over it.\<close>

definition dict_child :: "('k \<times> 'v) list \<Rightarrow> ('k \<times> 'v) list \<Rightarrow> ('k \<times> 'v) list" where
  "dict_child x y = foldl (\<lambda>out (key, v). dict_set key v out) y x"

definition dict_merge :: "('k \<times> 'v) list \<Rightarrow> ('k \<times> 'v) list \<Rightarrow> ('k \<times> 'v) list" where
  "dict_merge x y = foldl (\<lambda>out (key, v). dict_set key v out) x y"

lemma map_of_dict_child:
  "dict_ok x \<Longrightarrow> map_of (dict_child x y) k = (case map_of x k of Some v \<Rightarrow> Some v | None \<Rightarrow> map_of y k)"
proof (induction x arbitrary: y)
  case (Cons p x)
  obtain k' v where p: "p = (k', v)" by (cases p)
  have "map_of x k' = None" "dict_ok x"
    using Cons.prems by (auto simp: p dict_ok_def map_of_eq_None_iff)
  then show ?case
    using Cons.IH [of "dict_set k' v y"] by (auto simp: p dict_child_def split: option.splits)
qed (simp add: dict_child_def)

lemma list_exclude_dict_eq:
  "list_exclude_dict k v es = filter (\<lambda>e. map_of e k \<noteq> Some v) es"
  by (induction es) (auto split: option.splits)

lemma list_get_dict_eq: "list_get_dict k v es = find (\<lambda>e. map_of e k = Some v) es"
  by (induction es) (auto split: option.splits)

section \<open>Searching, counting and buffers\<close>

text \<open>
  \<open>sorted_search\<close>: the counter \<open>x\<close> of the source runs from 0 to the length of the list, so
  the remaining rounds are structural fuel; when they are used up the code raises.
\<close>

definition or_one :: "nat \<Rightarrow> nat" where
  "or_one n = (if n = 0 then 1 else n)"

fun sorted_search_loop :: "int list \<Rightarrow> int \<Rightarrow> nat \<Rightarrow> nat \<Rightarrow> nat res" where
  "sorted_search_loop n_list i 0 start_index =
     Err (PyException ''Sorted search: List may not be sorted.'')"
| "sorted_search_loop n_list i (Suc k) start_index =
     (if start_index \<le> 0 then Ok 0
      else if n_list ! start_index \<ge> i \<and> n_list ! (start_index - 1) < i then Ok start_index
      else (let next = (if n_list ! start_index \<ge> i
                        then start_index - or_one (start_index div 2)
                        else start_index + or_one (start_index div 2))
            in if next \<ge> length n_list - 1 then Ok (length n_list - 1)
               else sorted_search_loop n_list i k next))"

definition sorted_search :: "int list \<Rightarrow> int \<Rightarrow> int option \<Rightarrow> nat option res" where
  "sorted_search n_list i start_at =
     (let list_len = length n_list
      in if list_len = 0 then Ok None
         else (let start_index = (case start_at of None \<Rightarrow> list_len div 2
                                  | Some s \<Rightarrow> nat (s mod int list_len))
               in rmap Some (sorted_search_loop n_list i list_len start_index)))"

text \<open>The scan of \<open>threshold_gather\<close> over the sorted, filtered results.\<close>

fun threshold_scan :: "nat \<Rightarrow> nat \<Rightarrow> 'a \<Rightarrow> 'a list \<Rightarrow> 'a option" where
  "threshold_scan t count cur [] = None"
| "threshold_scan t count cur (r # rs) =
     (let (count, cur) = (if r = cur then (count + 1, cur) else (1, r))
      in if count \<ge> t then Some cur else threshold_scan t count cur rs)"

definition strip_none :: "'a option list \<Rightarrow> 'a list" where
  "strip_none x = map the (filter (\<lambda>i. i \<noteq> None) x)"

definition threshold_gather ::
  "'a option list \<Rightarrow> ('a list \<Rightarrow> 'b::linorder list) \<Rightarrow> nat \<Rightarrow> 'b option" where
  "threshold_gather outcomes f_filter t =
     (let results = sort (f_filter (strip_none outcomes))
      in case results of [] \<Rightarrow> None | r # _ \<Rightarrow> threshold_scan t 0 r results)"

text \<open>\<open>while n: c += 1; n &= n - 1\<close>, on the non-negative integers the callers pass.\<close>

lemma and_pred_less: "0 < n \<Longrightarrow> and n (n - 1) < (n :: nat)"
proof -
  assume n: "0 < n"
  have "and (int n) (int (n - 1)) \<le> int (n - 1)" by (rule AND_upper2) simp
  then have "int (and n (n - 1)) \<le> int (n - 1)" by (simp only: of_nat_and_eq)
  with n show ?thesis by simp
qed

function hamming_weight :: "nat \<Rightarrow> nat" where
  "hamming_weight n = (if n = 0 then 0 else 1 + hamming_weight (and n (n - 1)))"
  by pat_completeness auto
termination
  by (relation "measure id") (use and_pred_less in auto)

declare hamming_weight.simps [simp del]

text \<open>Indexing both buffers cyclically up to the longer one, cut to the shorter one.\<close>

definition xor_bufs :: "bytes \<Rightarrow> bytes \<Rightarrow> bytes res" where
  "xor_bufs a b =
     (let a_len = length a; b_len = length b
      in if 0 < max a_len b_len \<and> (a_len = 0 \<or> b_len = 0) then Err ZeroDivisionError
         else Ok (take (min a_len b_len)
                (map (\<lambda>i. (a ! (i mod a_len)) XOR (b ! (i mod b_len))) [0..<max a_len b_len])))"

definition b_and :: "bytes \<Rightarrow> bytes \<Rightarrow> bytes" where
  "b_and abytes bbytes = map2 (AND) abytes bbytes"

definition b_or :: "bytes \<Rightarrow> bytes \<Rightarrow> bytes" where
  "b_or abytes bbytes = map2 (OR) abytes bbytes"

lemma sorted_search_loop_range:
  "sorted_search_loop ns i k s = Inr r \<Longrightarrow> s < length ns \<Longrightarrow> r < length ns"
  by (induction ns i k s rule: sorted_search_loop.induct)
     (auto simp: Let_def split: if_splits)

lemma sorted_search_loop_sound:
  "sorted_search_loop ns i k s = Inr r \<Longrightarrow> s < length ns \<Longrightarrow> 0 < r \<Longrightarrow> r < length ns - 1 \<Longrightarrow>
   ns ! (r - 1) < i \<and> i \<le> ns ! r"
  by (induction ns i k s rule: sorted_search_loop.induct)
     (auto simp: Let_def split: if_splits)

text \<open>
  The search sees the list only through the comparisons with the key, so on a sorted list it is
  a search over indices; for short lists the index search is evaluated exhaustively.
\<close>

fun index_loop :: "nat \<Rightarrow> nat \<Rightarrow> nat \<Rightarrow> nat \<Rightarrow> nat option" where
  "index_loop len k 0 s = None"
| "index_loop len k (Suc f) s =
     (if s = 0 then Some 0
      else if s \<ge> k \<and> s - 1 < k then Some s
      else (let next = (if s \<ge> k then s - or_one (s div 2) else s + or_one (s div 2))
            in if next \<ge> len - 1 then Some (len - 1) else index_loop len k f next))"

lemma sorted_search_loop_index:
  assumes "\<And>j. j < length ns \<Longrightarrow> i \<le> ns ! j \<longleftrightarrow> k \<le> j" and "s < length ns"
    and "index_loop (length ns) k f s = Some r"
  shows "sorted_search_loop ns i f s = Inr r"
  using assms(2,3)
proof (induction f arbitrary: s)
  case (Suc f)
  have s1: "i \<le> ns ! s \<longleftrightarrow> k \<le> s" using assms(1) [of s] Suc.prems(1) by simp
  have "i \<le> ns ! (s - 1) \<longleftrightarrow> k \<le> s - 1" using assms(1) [of "s - 1"] Suc.prems(1) by simp
  then have s2: "ns ! (s - Suc 0) < i \<longleftrightarrow> s - Suc 0 < k" by (simp add: not_le [symmetric])
  note s = s1 s2
  show ?case
    using Suc.IH Suc.prems(2) by (simp add: s Let_def split: if_splits)
qed simp

lemma index_loop_table:
  "list_all (\<lambda>len. list_all (\<lambda>k. index_loop len k len (len div 2) = Some k) [0..<len]) [1..<7]"
  by code_simp

lemma index_loop_short:
  "0 < len \<Longrightarrow> len \<le> 6 \<Longrightarrow> k < len \<Longrightarrow> index_loop len k len (len div 2) = Some k"
  using index_loop_table by (auto simp: list_all_iff)

lemma sorted_first_ge:
  assumes "sorted_wrt (<) ns" "ns \<noteq> []" "i \<le> last ns"
  obtains k where "k < length ns" "\<And>j. j < length ns \<Longrightarrow> (i::int) \<le> ns ! j \<longleftrightarrow> k \<le> j"
proof -
  let ?P = "\<lambda>j. j < length ns \<and> i \<le> ns ! j"
  have "?P (length ns - 1)" using assms(2,3) by (simp add: last_conv_nth)
  then have k: "?P (Least ?P)" by (rule LeastI)
  have "i \<le> ns ! j \<longleftrightarrow> Least ?P \<le> j" if "j < length ns" for j
  proof
    assume "i \<le> ns ! j" then show "Least ?P \<le> j" using that by (intro Least_le) simp
  next
    assume "Least ?P \<le> j"
    then have "ns ! Least ?P \<le> ns ! j"
      using sorted_wrt_nth_less [OF assms(1)] that by (cases "Least ?P = j") (auto simp: order_le_less)
    then show "i \<le> ns ! j" using k by simp
  qed
  with k that show thesis by blast
qed
lemma hamming_weight_0 [simp]: "hamming_weight 0 = 0"
  by (subst hamming_weight.simps) simp

lemma hamming_weight_pos: "0 < n \<Longrightarrow> hamming_weight n = Suc (hamming_weight (and n (n - 1)))"
  by (subst hamming_weight.simps) simp

lemma and_double_pred: "0 < m \<Longrightarrow> and (2 * m) (2 * m - 1) = 2 * and m (m - 1)" for m :: nat
proof -
  assume "0 < m"
  then have "2 * m - 1 = Suc (2 * (m - 1))" by simp
  then show ?thesis
    by (subst and_rec) (simp add: and_rec [of "2 * m" "Suc (2 * (m - 1))"])
qed

lemma hamming_weight_double: "hamming_weight (2 * m) = hamming_weight m"
proof (induction m rule: less_induct)
  case (less m)
  show ?case
  proof (cases "m = 0")
    case False
    then have "hamming_weight (2 * m) = Suc (hamming_weight (2 * and m (m - 1)))"
      using hamming_weight_pos [of "2 * m"] and_double_pred [of m] by simp
    also have "\<dots> = Suc (hamming_weight (and m (m - 1)))"
      using less False and_pred_less [of m] by simp
    finally show ?thesis using hamming_weight_pos [of m] False by simp
  qed simp
qed

lemma and_odd_pred: "and (2 * m + 1) (2 * m) = 2 * m" for m :: nat
  by (subst and_rec) simp

lemma hamming_weight_odd: "hamming_weight (2 * m + 1) = Suc (hamming_weight m)"
  using hamming_weight_pos [of "2 * m + 1"] and_odd_pred [of m] hamming_weight_double [of m]
  by simp

lemma hamming_weight_rec: "hamming_weight n = n mod 2 + hamming_weight (n div 2)"
proof (cases "even n")
  case True
  then obtain m where "n = 2 * m" by blast
  then show ?thesis using hamming_weight_double [of m] by simp
next
  case False
  then obtain m where "n = 2 * m + 1" by (blast elim: oddE)
  then show ?thesis using hamming_weight_odd [of m] by simp
qed

lemma hamming_weight_shift: "hamming_weight (2 ^ k * n) = hamming_weight n"
proof (induction k)
  case (Suc k)
  then show ?case using hamming_weight_double [of "2 ^ k * n"] by (simp add: mult.assoc)
qed simp

lemma hamming_weight_ones: "hamming_weight (2 ^ k - 1) = k"
proof (induction k)
  case (Suc k)
  have "(1 :: nat) \<le> 2 ^ k" by simp
  then have "2 ^ Suc k - 1 = 2 * (2 ^ k - 1) + (1 :: nat)" unfolding power_Suc by arith
  then show ?case using hamming_weight_odd [of "2 ^ k - 1"] Suc by simp
qed simp

lemma xor_bufs_Ok:
  "a \<noteq> [] \<Longrightarrow> b \<noteq> [] \<Longrightarrow> xor_bufs a b = Inr (map2 (XOR) a b)"
  by (auto simp: xor_bufs_def Let_def intro!: nth_equalityI)

lemma xor_bufs_Nil [simp]: "xor_bufs [] [] = Inr []"
  by (simp add: xor_bufs_def)

lemma map2_xor_cancel:
  "length a \<le> length m \<Longrightarrow> map2 (XOR) (map2 (XOR) a m) m = (a :: bytes)"
  by (rule nth_equalityI) (auto simp: xor.assoc)

lemma xor_bufs_involutive:
  "a \<noteq> [] \<Longrightarrow> length a \<le> length m \<Longrightarrow> rbind (xor_bufs a m) (\<lambda>x. xor_bufs x m) = Inr a"
proof -
  assume a: "a \<noteq> []" and l: "length a \<le> length m"
  then have m: "m \<noteq> []" by auto
  have "map2 (XOR) a m \<noteq> []" using a m by (cases a; cases m) auto
  then show ?thesis using a m l by (simp add: xor_bufs_Ok map2_xor_cancel)
qed

lemma length_b_and [simp]: "length (b_and a b) = min (length a) (length b)"
  by (simp add: b_and_def)

lemma length_b_or [simp]: "length (b_or a b) = min (length a) (length b)"
  by (simp add: b_or_def)

lemma strip_none_simps [simp]:
  "strip_none [] = []"
  "strip_none (None # xs) = strip_none xs"
  "strip_none (Some x # xs) = x # strip_none xs"
  by (simp_all add: strip_none_def)

lemma set_strip_none: "set (strip_none xs) = {x. Some x \<in> set xs}"
  by (induction xs) (auto simp: strip_none_def split: option.splits)

section \<open>Properties\<close>

text \<open>\<open>field_wrap\<close> always leaves its \<open>while 1\<close> loop, and for a field whose start is at
  most half of its size the result lies inside the field.\<close>

theorem field_wrap_terminates_in_range:
  assumes "0 \<le> fst field" and "fst field \<le> snd field" and "2 * fst field \<le> snd field + 1"
  shows "\<exists>x. field_wrap n field = Inr (Some x) \<and> in_range x field"
  using assms field_wrap_eq [of field n] field_wrap_val_in_range [of field n] by auto

theorem field_wrap_terminates_in_range_witness:
  "\<exists>x. field_wrap 70000 (2000, 65535) = Inr (Some x) \<and> in_range x (2000, 65535)"
  by (rule field_wrap_terminates_in_range) simp_all

text \<open>For a field that starts above half of its size, the wrapped value can fall below the
  field: a NAT range of 40000 to 65535 gives port 4464.\<close>

theorem field_wrap_escapes_high_range:
  "field_wrap 30000 (40000, 65535) = Inr (Some 4464) \<and> \<not> in_range 4464 (40000, 65535)"
  by (simp add: field_wrap_eq field_wrap_val_def in_range_def)

text \<open>On well-formed ranges \<open>range_intersects\<close> decides whether a common port exists, and
  then \<open>intersect_range\<close> is exactly the set of common ports.\<close>

theorem intersect_range_exact:
  assumes "fst a \<le> snd a" and "fst b \<le> snd b"
  shows "(range_intersects a b \<longleftrightarrow> (\<exists>x. in_range x a \<and> in_range x b)) \<and>
         (range_intersects a b \<longrightarrow>
           (\<forall>x. in_range x (intersect_range a b) \<longleftrightarrow> in_range x a \<and> in_range x b))"
  using assms range_intersects_iff [OF assms] intersect_range_eq [OF assms]
  by (auto simp: in_range_def)

theorem intersect_range_exact_witness:
  "range_intersects (1, 10) (5, 20) \<and>
   (\<forall>x. in_range x (intersect_range (1, 10) (5, 20)) \<longleftrightarrow> in_range x (1, 10) \<and> in_range x (5, 20))"
proof -
  have "range_intersects (1, 10) (5, 20)"
    by (simp add: range_intersects_def pair_le_def)
  then show ?thesis using intersect_range_exact [of "(1, 10)" "(5, 20)"] by simp
qed

lemma sorted_search_first:
  assumes "sorted_wrt (<) ns" and "ns \<noteq> []" and "length ns \<le> 6" and "i \<le> last ns"
  shows "\<exists>k. sorted_search ns i None = Inr (Some k) \<and> k < length ns \<and> i \<le> ns ! k \<and>
             (\<forall>j < k. ns ! j < i)"
proof -
  obtain k where k: "k < length ns" "\<And>j. j < length ns \<Longrightarrow> i \<le> ns ! j \<longleftrightarrow> k \<le> j"
    using sorted_first_ge [OF assms(1,2,4)] by metis
  then have "sorted_search_loop ns i (length ns) (length ns div 2) = Inr k"
    using index_loop_short [of "length ns" k] assms(2,3)
    by (intro sorted_search_loop_index [OF k(2)]) auto
  then have "sorted_search ns i None = Inr (Some k)"
    using assms(2) by (simp add: sorted_search_def)
  moreover have "ns ! j < i" if "j < k" for j
    using k(1) k(2) [of j] that by simp
  ultimately show ?thesis using k by auto
qed

text \<open>\<open>sorted_search\<close> on a strictly ascending list of at most six entries returns the first
  index whose entry is at least the key, for every key up to the last entry.\<close>

theorem sorted_search_correct_short:
  assumes "sorted_wrt (<) ns" and "ns \<noteq> []" and "length ns \<le> 6" and "i \<le> last ns"
  shows "\<exists>k. sorted_search ns i None = Inr (Some k) \<and> k < length ns \<and> i \<le> ns ! k \<and>
             (\<forall>j < k. ns ! j < i)"
  by (rule sorted_search_first [OF assms])

theorem sorted_search_correct_short_witness:
  "\<exists>k. sorted_search [5, 10, 15] 6 None = Inr (Some k) \<and> k < length [5, 10, 15 :: int] \<and>
       6 \<le> [5, 10, 15 :: int] ! k \<and> (\<forall>j < k. [5, 10, 15 :: int] ! j < 6)"
  by (rule sorted_search_correct_short) simp_all

text \<open>On any list the search either raises or returns an index inside the list, and an
  answer other than the two ends is a correct one; but seven strictly ascending entries are enough
  for a wrong answer, and eight for the \<open>may not be sorted\<close> exception.\<close>

theorem sorted_search_sound_not_complete:
  "(\<forall>ns i k. sorted_search ns i None = Inr (Some k) \<longrightarrow>
      k < length ns \<and> (0 < k \<and> k < length ns - 1 \<longrightarrow> ns ! (k - 1) < i \<and> i \<le> ns ! k)) \<and>
   sorted_search [10, 20, 30, 40, 50, 60, 70] 60 None = Inr (Some 6) \<and>
   sorted_search [10, 20, 30, 40, 50, 60, 70, 80] 60 None =
     Inl (PyException ''Sorted search: List may not be sorted.'')"
proof (intro conjI allI impI)
  fix ns i k assume r: "sorted_search ns i None = Inr (Some k)"
  then have ne: "ns \<noteq> []" by (auto simp: sorted_search_def)
  with r have l: "sorted_search_loop ns i (length ns) (length ns div 2) = Inr k"
    by (cases "sorted_search_loop ns i (length ns) (length ns div 2)")
       (auto simp: sorted_search_def Let_def)
  have s: "length ns div 2 < length ns" using ne by (cases ns) auto
  show "k < length ns" by (rule sorted_search_loop_range [OF l s])
  assume "0 < k \<and> k < length ns - 1"
  then show "ns ! (k - 1) < i" and "i \<le> ns ! k"
    using sorted_search_loop_sound [OF l s] by blast+
qed code_simp+

theorem sorted_search_sound_not_complete_witness:
  "sorted_search [5, 10, 15] 6 None = Inr (Some 1) \<and> (1 :: nat) < length [5, 10, 15 :: int]"
proof -
  have "sorted_search [5, 10, 15] 6 None = Inr (Some 1)"
    by code_simp
  then show ?thesis
    using sorted_search_sound_not_complete [THEN conjunct1, rule_format, of "[5, 10, 15]" 6 1] by simp
qed

lemma bit_below: "bit (n :: nat) i \<Longrightarrow> i < n"
proof -
  assume "bit n i"
  then have "n div 2 ^ i \<noteq> 0" by (metis bit_iff_odd even_zero)
  then have "2 ^ i \<le> n" by (meson div_less leI)
  then show "i < n" using less_exp [of i] by linarith
qed

text \<open>\<open>hamming_weight\<close> counts the one bits of its argument.\<close>

theorem hamming_weight_card: "hamming_weight n = card {i. bit n i}"
proof (induction n rule: less_induct)
  case (less n)
  show ?case
  proof (cases "n = 0")
    case False
    have split: "{i. bit n i} = {i. i = 0 \<and> odd n} \<union> Suc ` {i. bit (n div 2) i}"
    proof (rule set_eqI)
      fix i show "i \<in> {i. bit n i} \<longleftrightarrow> i \<in> {i. i = 0 \<and> odd n} \<union> Suc ` {i. bit (n div 2) i}"
        by (cases i) (auto simp: bit_0 bit_Suc)
    qed
    have fin: "finite {i. bit (n div 2) i}" by (rule finite_subset [OF _ finite_lessThan [of "n div 2"]]) (auto dest: bit_below)
    have "card {i. bit n i} = n mod 2 + card {i. bit (n div 2) i}"
      unfolding split using fin
      by (subst card_Un_disjoint) (auto simp: card_image mod_2_eq_odd)
    then show ?thesis
      using hamming_weight_rec [of n] less [of "n div 2"] False by simp
  qed simp
qed

text \<open>XOR with a mask at least as long is undone by a second XOR with the same mask, and
  an empty buffer against a non-empty one divides by zero.\<close>

theorem xor_bufs_roundtrip:
  assumes "a \<noteq> []" and "length a \<le> length m"
  shows "rbind (xor_bufs a m) (\<lambda>x. xor_bufs x m) = Inr a \<and>
         xor_bufs [] m = Inl ZeroDivisionError"
proof -
  have "m \<noteq> []" using assms by auto
  then have "xor_bufs [] m = Inl ZeroDivisionError" by (simp add: xor_bufs_def)
  then show ?thesis using xor_bufs_involutive [OF assms] by simp
qed

theorem xor_bufs_roundtrip_witness:
  "rbind (xor_bufs [13, 151] [33, 18, 164, 66]) (\<lambda>x. xor_bufs x [33, 18, 164, 66]) = Inr [13, 151] \<and>
   xor_bufs [] [33, 18, 164, 66] = Inl ZeroDivisionError"
  by (rule xor_bufs_roundtrip) simp_all

end
