(* ===== verification/Ip_Text.thy ===== *)
theory Ip_Text
  imports Prelude
begin

text \<open>
  The parts of Python's \<^verbatim>\<open>str\<close>, \<^verbatim>\<open>int\<close> and \<^verbatim>\<open>ipaddress\<close> that the networking code uses:
  splitting and joining, number literals, and parsing and printing of IPv4 and IPv6
  addresses with their special-purpose registries. Nothing here is code of the repository;
  the component theories build on it.
\<close>

section \<open>Splitting and joining\<close>

fun split_on :: "'a \<Rightarrow> 'a list \<Rightarrow> 'a list list" where
  "split_on c [] = [[]]"
| "split_on c (x # xs) =
     (if x = c then [] # split_on c xs
      else (case split_on c xs of [] \<Rightarrow> [[x]] | y # ys \<Rightarrow> (x # y) # ys))"

fun join_with :: "char \<Rightarrow> string list \<Rightarrow> string" where
  "join_with c [] = []"
| "join_with c [p] = p"
| "join_with c (p # q # ps) = p @ c # join_with c (q # ps)"

lemma split_on_nonempty [simp]: "split_on c s \<noteq> []"
  by (cases s) (auto split: list.splits)

lemma split_on_part: "c \<notin> set p \<Longrightarrow> split_on c p = [p]"
  by (induction p) auto

lemma split_on_append: "c \<notin> set p \<Longrightarrow> split_on c (p @ c # s) = p # split_on c s"
  by (induction p) (auto split: list.splits)

lemma split_join:
  "ps \<noteq> [] \<Longrightarrow> (\<And>p. p \<in> set ps \<Longrightarrow> c \<notin> set p) \<Longrightarrow> split_on c (join_with c ps) = ps"
  by (induction c ps rule: join_with.induct) (simp_all add: split_on_part split_on_append)

lemma set_join_with: "set (join_with c ps) \<subseteq> insert c (\<Union> (set ` set ps))"
  by (induction c ps rule: join_with.induct) auto

section \<open>Number literals\<close>

definition digit_char :: "nat \<Rightarrow> char" where
  "digit_char d = (if d < 10 then char_of (48 + d) else char_of (87 + d))"

definition digit_val :: "char \<Rightarrow> nat option" where
  "digit_val c =
     (let n = of_char c :: nat
      in if 48 \<le> n \<and> n \<le> 57 then Some (n - 48)
         else if 97 \<le> n \<and> n \<le> 102 then Some (n - 87)
         else if 65 \<le> n \<and> n \<le> 70 then Some (n - 55)
         else None)"

definition is_digit :: "nat \<Rightarrow> char \<Rightarrow> bool" where
  "is_digit b c = (case digit_val c of Some d \<Rightarrow> d < b | None \<Rightarrow> False)"

fun num_str :: "nat \<Rightarrow> nat \<Rightarrow> string" where
  "num_str b n = (if b \<le> 1 \<or> n < b then [digit_char n]
                  else num_str b (n div b) @ [digit_char (n mod b)])"

declare num_str.simps [simp del]

definition num_val :: "nat \<Rightarrow> string \<Rightarrow> nat" where
  "num_val b s = foldl (\<lambda>a c. a * b + (case digit_val c of Some d \<Rightarrow> d | None \<Rightarrow> 0)) 0 s"

abbreviation dec_str :: "nat \<Rightarrow> string" where
  "dec_str \<equiv> num_str 10"

abbreviation hex_str :: "nat \<Rightarrow> string" where
  "hex_str \<equiv> num_str 16"

definition int_str :: "int \<Rightarrow> string" where
  "int_str n = (if n < 0 then CHR ''-'' # dec_str (nat (- n)) else dec_str (nat n))"

text \<open>\<open>int(s, base)\<close>: surrounding blanks, one sign, digits with single underscores between.\<close>

definition is_blank :: "char \<Rightarrow> bool" where
  "is_blank c = (of_char c \<in> set [9, 10, 11, 12, 13, 28, 29, 30, 31, 32 :: nat])"

definition strip :: "string \<Rightarrow> string" where
  "strip s = rev (dropWhile is_blank (rev (dropWhile is_blank s)))"

fun digits_underscored :: "nat \<Rightarrow> string \<Rightarrow> bool" where
  "digits_underscored b [] = False"
| "digits_underscored b [c] = is_digit b c"
| "digits_underscored b (c # d # s) =
     (is_digit b c \<and> (if d = CHR ''_'' then digits_underscored b s else digits_underscored b (d # s)))"

definition py_int :: "nat \<Rightarrow> string \<Rightarrow> int res" where
  "py_int b s =
     (let t = strip s;
          (neg, ds) = (case t of [] \<Rightarrow> (False, [])
             | c # cs \<Rightarrow> if c = CHR ''-'' then (True, cs)
                        else if c = CHR ''+'' then (False, cs) else (False, t))
      in if digits_underscored b ds
         then (let n = int (num_val b (filter (\<lambda>c. c \<noteq> CHR ''_'') ds)) in Ok (if neg then - n else n))
         else Err ValueError)"

text \<open>\<open>str.isnumeric\<close> on ASCII text: non-empty and all digits.\<close>

definition isnumeric :: "string \<Rightarrow> bool" where
  "isnumeric s = (s \<noteq> [] \<and> list_all (is_digit 10) s)"

lemma of_char_digit: "d < 16 \<Longrightarrow> of_char (digit_char d) = (if d < 10 then 48 + d else 87 + d)"
  by (simp add: digit_char_def)

lemma digit_val_char [simp]: "d < 16 \<Longrightarrow> digit_val (digit_char d) = Some d"
  by (auto simp: digit_val_def of_char_digit Let_def)

lemma is_digit_char: "d < b \<Longrightarrow> b \<le> 16 \<Longrightarrow> is_digit b (digit_char d)"
  by (simp add: is_digit_def)

lemma num_str_nonempty [simp]: "num_str b n \<noteq> []"
  by (subst num_str.simps) simp

lemma num_str_digits: "1 < b \<Longrightarrow> b \<le> 16 \<Longrightarrow> list_all (is_digit b) (num_str b n)"
proof (induction b n rule: num_str.induct)
  case (1 b n)
  then show ?case
    by (subst num_str.simps) (auto simp: is_digit_char)
qed

lemma num_val_append: "num_val b (s @ [c]) = num_val b s * b + (case digit_val c of Some d \<Rightarrow> d | None \<Rightarrow> 0)"
  by (simp add: num_val_def)

lemma num_val_Nil [simp]: "num_val b [] = 0"
  by (simp add: num_val_def)

lemma num_val_str [simp]: "1 < b \<Longrightarrow> b \<le> 16 \<Longrightarrow> num_val b (num_str b n) = n"
proof (induction b n rule: num_str.induct)
  case (1 b n)
  show ?case
  proof (cases "n < b")
    case True
    then show ?thesis using 1 by (subst num_str.simps) (simp add: num_val_def)
  next
    case False
    have "n mod b < 16" using 1 by (meson less_le_trans mod_less_divisor order.strict_trans zero_less_one)
    then show ?thesis
      using 1 False by (subst num_str.simps) (simp add: num_val_append)
  qed
qed

lemma num_str_small: "n < b \<Longrightarrow> num_str b n = [digit_char n]"
  by (subst num_str.simps) simp

lemma num_str_step: "1 < b \<Longrightarrow> b \<le> n \<Longrightarrow> num_str b n = num_str b (n div b) @ [digit_char (n mod b)]"
  by (subst num_str.simps) simp

lemma length_num_str: "1 < b \<Longrightarrow> n < b ^ k \<Longrightarrow> 0 < k \<Longrightarrow> length (num_str b n) \<le> k"
proof (induction k arbitrary: n)
  case (Suc k)
  show ?case
  proof (cases "n < b")
    case False
    then have k: "0 < k" using Suc.prems by (cases k) auto
    have "n div b < b ^ k" using Suc.prems by (simp add: less_mult_imp_div_less mult.commute)
    then show ?thesis using Suc k False by (simp add: num_str_step)
  qed (simp add: num_str_small)
qed simp

lemma hd_num_str: "1 < b \<Longrightarrow> b \<le> 16 \<Longrightarrow> 0 < n \<Longrightarrow> hd (num_str b n) \<noteq> CHR ''0''"
proof (induction b n rule: num_str.induct)
  case (1 b n)
  show ?case
  proof (cases "n < b")
    case True
    then have "of_char (digit_char n) \<noteq> (of_char CHR ''0'' :: nat)"
      using 1 by (simp add: of_char_digit)
    then show ?thesis using True by (auto simp: num_str_small)
  next
    case False
    then show ?thesis using 1 by (simp add: num_str_step hd_append div_greater_zero_iff)
  qed
qed

lemma num_str_inj: "1 < b \<Longrightarrow> b \<le> 16 \<Longrightarrow> num_str b m = num_str b n \<Longrightarrow> m = n"
  by (metis num_val_str)

lemma is_digit_not_sep:
  "is_digit b c \<Longrightarrow> b \<le> 16 \<Longrightarrow> c \<notin> {CHR ''.'', CHR '':'', CHR ''%'', CHR ''/'', CHR ''-'', CHR '','', CHR ''_'', CHR ''+''}"
  by (auto simp: is_digit_def digit_val_def Let_def split: if_splits)

section \<open>Addresses\<close>

datatype af = IP4 | IP6

text \<open>An \<open>ipaddress\<close> object is its version and its integer value.\<close>

datatype ipa = IPv4Address int | IPv6Address int

fun ipa_int :: "ipa \<Rightarrow> int" where
  "ipa_int (IPv4Address n) = n"
| "ipa_int (IPv6Address n) = n"

fun ipa_version :: "ipa \<Rightarrow> nat" where
  "ipa_version (IPv4Address _) = 4"
| "ipa_version (IPv6Address _) = 6"

text \<open>The constructors check the range of an integer argument.\<close>

definition mk_ipv4 :: "int \<Rightarrow> ipa res" where
  "mk_ipv4 n = (if 0 \<le> n \<and> n < 2 ^ 32 then Ok (IPv4Address n) else Err AddressValueError)"

definition mk_ipv6 :: "int \<Rightarrow> ipa res" where
  "mk_ipv6 n = (if 0 \<le> n \<and> n < 2 ^ 128 then Ok (IPv6Address n) else Err AddressValueError)"

definition ip_of_int :: "int \<Rightarrow> ipa res" where
  "ip_of_int n = rcatch (mk_ipv4 n) (\<lambda>_. rcatch (mk_ipv6 n) (\<lambda>_. Err ValueError))"

fun ipa_ok :: "ipa \<Rightarrow> bool" where
  "ipa_ok (IPv4Address n) = (0 \<le> n \<and> n < 2 ^ 32)"
| "ipa_ok (IPv6Address n) = (0 \<le> n \<and> n < 2 ^ 128)"

text \<open>The octets and hextets of an address value, most significant first.\<close>

definition octets :: "nat \<Rightarrow> nat list" where
  "octets n = [n div 2 ^ 24 mod 256, n div 2 ^ 16 mod 256, n div 2 ^ 8 mod 256, n mod 256]"

fun hextets :: "nat \<Rightarrow> nat \<Rightarrow> nat list" where
  "hextets 0 n = []"
| "hextets (Suc k) n = hextets k (n div 65536) @ [n mod 65536]"

definition hextets_val :: "nat list \<Rightarrow> nat" where
  "hextets_val hs = foldl (\<lambda>a h. a * 65536 + h) 0 hs"

definition hex4 :: "nat \<Rightarrow> string" where
  "hex4 h = [digit_char (h div 4096 mod 16), digit_char (h div 256 mod 16),
             digit_char (h div 16 mod 16), digit_char (h mod 16)]"

text \<open>The longest run of zero groups (first one wins) is what the short form leaves out.\<close>

fun best_run :: "nat list \<Rightarrow> nat \<Rightarrow> nat \<times> nat \<Rightarrow> nat \<times> nat \<Rightarrow> nat \<times> nat" where
  "best_run [] i cur best = best"
| "best_run (h # hs) i (cs, cl) (bs, bl) =
     (if h = 0
      then (let cs' = (if cl = 0 then i else cs); cl' = cl + 1
            in if cl' > bl then best_run hs (i + 1) (cs', cl') (cs', cl')
               else best_run hs (i + 1) (cs', cl') (bs, bl))
      else best_run hs (i + 1) (0, 0) (bs, bl))"

definition compress_parts :: "nat list \<Rightarrow> string list" where
  "compress_parts hs =
     (let (s, l) = best_run hs 0 (0, 0) (0, 0); ps = map hex_str hs
      in if l > 1
         then (let tail = (if s + l = length hs then [[]] else drop (s + l) ps);
                   mid = take s ps @ [] # tail
               in if s = 0 then [] # mid else mid)
         else ps)"

fun ip_str :: "ipa \<Rightarrow> string" where
  "ip_str (IPv4Address n) = join_with CHR ''.'' (map dec_str (octets (nat n)))"
| "ip_str (IPv6Address n) = join_with CHR '':'' (compress_parts (hextets 8 (nat n)))"

fun ip_exploded :: "ipa \<Rightarrow> string" where
  "ip_exploded (IPv4Address n) = ip_str (IPv4Address n)"
| "ip_exploded (IPv6Address n) = join_with CHR '':'' (map hex4 (hextets 8 (nat n)))"

section \<open>Parsing\<close>

definition parse_octet :: "string \<Rightarrow> nat res" where
  "parse_octet s =
     (if s = [] \<or> \<not> list_all (is_digit 10) s \<or> length s > 3
         \<or> (s \<noteq> ''0'' \<and> hd s = CHR ''0'') \<or> num_val 10 s > 255
      then Err ValueError else Ok (num_val 10 s))"

definition parse_ipv4 :: "string \<Rightarrow> ipa res" where
  "parse_ipv4 s =
     (let parts = split_on CHR ''.'' s
      in if CHR ''/'' \<in> set s \<or> length parts \<noteq> 4 then Err AddressValueError
         else rcatch (rbind (rmap_list parse_octet parts)
                (\<lambda>os. Ok (IPv4Address (int (foldl (\<lambda>a b. a * 256 + b) 0 os)))))
              (\<lambda>_. Err AddressValueError))"

definition parse_hextet :: "string \<Rightarrow> nat res" where
  "parse_hextet s =
     (if s = [] \<or> \<not> list_all (is_digit 16) s \<or> length s > 4 then Err ValueError
      else Ok (num_val 16 s))"

text \<open>A dotted quad in the last place stands for two hextets.\<close>

definition expand_v4_suffix :: "string list \<Rightarrow> string list res" where
  "expand_v4_suffix parts =
     (if CHR ''.'' \<in> set (last parts)
      then rbind (parse_ipv4 (last parts)) (\<lambda>a.
             let n = nat (ipa_int a)
             in Ok (butlast parts @ [hex_str (n div 65536 mod 65536), hex_str (n mod 65536)]))
      else Ok parts)"

definition skip_indices :: "string list \<Rightarrow> nat list" where
  "skip_indices parts = filter (\<lambda>i. parts ! i = []) [1..<length parts - 1]"

definition parse_v6_parts :: "string list \<Rightarrow> nat res" where
  "parse_v6_parts parts =
     (let len = length parts
      in case skip_indices parts of
           [] \<Rightarrow> (if len \<noteq> 8 \<or> hd parts = [] \<or> last parts = [] then Err AddressValueError
                 else rbind (rmap_list parse_hextet parts) (\<lambda>hs. Ok (hextets_val hs)))
         | [k] \<Rightarrow>
             (let (hi, lo) = (k, len - k - 1);
                  hi' = (if hd parts = [] then hi - 1 else hi);
                  lo' = (if last parts = [] then lo - 1 else lo)
              in if hd parts = [] \<and> hi' \<noteq> 0 \<or> last parts = [] \<and> lo' \<noteq> 0 \<or> hi' + lo' \<ge> 8
                 then Err AddressValueError
                 else rbind (rmap_list parse_hextet (take hi' parts)) (\<lambda>hs.
                        rbind (rmap_list parse_hextet (drop (len - lo') parts)) (\<lambda>ls.
                          Ok (hextets_val (hs @ replicate (8 - (hi' + lo')) 0 @ ls)))))
         | _ \<Rightarrow> Err AddressValueError)"

definition parse_ipv6 :: "string \<Rightarrow> ipa res" where
  "parse_ipv6 s =
     (let parts = split_on CHR '':'' s
      in if CHR ''/'' \<in> set s \<or> length parts < 3 then Err AddressValueError
         else rcatch (rbind (expand_v4_suffix parts) (\<lambda>ps.
                if length ps > 9 then Err AddressValueError
                else rbind (parse_v6_parts ps) (\<lambda>n. Ok (IPv6Address (int n)))))
              (\<lambda>_. Err AddressValueError))"

definition ip_address :: "string \<Rightarrow> ipa res" where
  "ip_address s = rcatch (parse_ipv4 s) (\<lambda>_. rcatch (parse_ipv6 s) (\<lambda>_. Err ValueError))"

section \<open>Special-purpose ranges\<close>

definition in_net :: "nat \<Rightarrow> int \<Rightarrow> int \<times> nat \<Rightarrow> bool" where
  "in_net bits n net = (n div 2 ^ (bits - snd net) = fst net div 2 ^ (bits - snd net))"

text \<open>The private networks of the \<^verbatim>\<open>ipaddress\<close> documentation (CPython 3.8 to 3.11).\<close>

definition private_v4 :: "(int \<times> nat) list" where
  "private_v4 =
     [(0, 8), (0x0A000000, 8), (0x7F000000, 8), (0xA9FE0000, 16), (0xAC100000, 12),
      (0xC0000000, 29), (0xC00000AA, 31), (0xC0000200, 24), (0xC0A80000, 16),
      (0xC6120000, 15), (0xC6336400, 24), (0xCB007100, 24), (0xF0000000, 4), (0xFFFFFFFF, 32)]"

definition private_v6 :: "(int \<times> nat) list" where
  "private_v6 =
     [(1, 128), (0, 128), (0xFFFF00000000, 96), (0x01000000000000000000000000000000, 64),
      (0x20010000000000000000000000000000, 23), (0x20010002000000000000000000000000, 48),
      (0x20010DB8000000000000000000000000, 32), (0x20010010000000000000000000000000, 28),
      (0xFC000000000000000000000000000000, 7), (0xFE800000000000000000000000000000, 10)]"

fun ipa_is_private :: "ipa \<Rightarrow> bool" where
  "ipa_is_private (IPv4Address n) = list_ex (in_net 32 n) private_v4"
| "ipa_is_private (IPv6Address n) = list_ex (in_net 128 n) private_v6"

section \<open>Printing and parsing are inverse\<close>

lemma digits4: "a * p + x = m \<Longrightarrow> x = q * b + y \<Longrightarrow> y = r * c + d \<Longrightarrow> a * p + q * b + r * c + d = (m :: nat)"
  by simp

lemma octets_val: "0 \<le> n \<Longrightarrow> n < 2 ^ 32 \<Longrightarrow>
  int (foldl (\<lambda>a b. a * 256 + b) 0 (octets (nat n))) = n"
proof -
  assume n: "0 \<le> n" "n < 2 ^ 32"
  define m where "m = nat n"
  have m: "m < 256 * (256 * (256 * 256))" using n by (simp add: m_def)
  have d: "m div 16777216 < 256" using m by (simp add: less_mult_imp_div_less)
  have "m div 16777216 * 16777216 + 65536 * (m div 65536 mod 256) + 256 * (m div 256 mod 256) + m mod 256 = m"
    using mod_mult2_eq [of m 65536 256] mod_mult2_eq [of m 256 256]
    by (intro digits4 [OF div_mult_mod_eq]) simp_all
  moreover have "foldl (\<lambda>a b. a * 256 + b) 0 (octets m) =
      m div 16777216 * 16777216 + 65536 * (m div 65536 mod 256) + 256 * (m div 256 mod 256) + m mod 256"
    using d by (simp add: octets_def)
  ultimately have "foldl (\<lambda>a b. a * 256 + b) 0 (octets m) = m" by simp
  then show ?thesis using n by (simp add: m_def)
qed

lemma octets_lt: "x \<in> set (octets n) \<Longrightarrow> x < 256"
  by (auto simp: octets_def)

lemma parse_octet_dec_str [simp]: "n < 256 \<Longrightarrow> parse_octet (dec_str n) = Inr n"
proof -
  assume n: "n < 256"
  have "length (dec_str n) \<le> 3" using n by (intro length_num_str) auto
  moreover have "dec_str n = ''0'' \<or> hd (dec_str n) \<noteq> CHR ''0''"
  proof (cases "n = 0")
    case True
    then show ?thesis by (simp add: num_str_small digit_char_def)
  qed (use hd_num_str [of 10 n] in simp)
  ultimately show ?thesis
    using n by (auto simp: parse_octet_def num_str_digits)
qed

lemma dec_str_no_sep: "c \<in> {CHR ''.'', CHR '':'', CHR ''%'', CHR ''/'', CHR ''-'', CHR '','', CHR ''_'', CHR ''+''} \<Longrightarrow>
  1 < b \<Longrightarrow> b \<le> 16 \<Longrightarrow> c \<notin> set (num_str b n)"
  using num_str_digits [of b n] is_digit_not_sep [of b] by (auto simp: list_all_iff)

lemma digits_no_sep: "list_all (is_digit b) s \<Longrightarrow> b \<le> 16 \<Longrightarrow>
  c \<in> {CHR ''.'', CHR '':'', CHR ''%'', CHR ''/'', CHR ''-'', CHR '','', CHR ''_'', CHR ''+''} \<Longrightarrow> c \<notin> set s"
  using is_digit_not_sep [of b] by (auto simp: list_all_iff)

lemma join_no_char: "d \<noteq> c \<Longrightarrow> (\<And>p. p \<in> set ps \<Longrightarrow> d \<notin> set p) \<Longrightarrow> d \<notin> set (join_with c ps)"
  using set_join_with [of c ps] by auto

lemma rmap_list_map_total:
  "(\<And>x. x \<in> set xs \<Longrightarrow> f (g x) = Inr x) \<Longrightarrow> rmap_list f (map g xs) = Inr xs"
  by (induction xs) auto

lemma ip_str_v4_no_sep: "c \<in> {CHR '':'', CHR ''%'', CHR ''/''} \<Longrightarrow> c \<notin> set (ip_str (IPv4Address n))"
  unfolding ip_str.simps by (intro join_no_char) (auto dest: dec_str_no_sep simp: dec_str_no_sep)

lemma parse_ipv4_str: "0 \<le> n \<Longrightarrow> n < 2 ^ 32 \<Longrightarrow> parse_ipv4 (ip_str (IPv4Address n)) = Inr (IPv4Address n)"
proof -
  assume n: "0 \<le> n" "n < 2 ^ 32"
  let ?ps = "map dec_str (octets (nat n))"
  have sp: "split_on CHR ''.'' (ip_str (IPv4Address n)) = ?ps"
    unfolding ip_str.simps by (rule split_join) (auto simp: octets_def dec_str_no_sep)
  have oct: "rmap_list parse_octet ?ps = Inr (octets (nat n))"
    by (simp add: rmap_list_map_total octets_lt)
  have "length ?ps = 4" by (simp add: octets_def)
  then show ?thesis
    using ip_str_v4_no_sep [of "CHR ''/''" n] octets_val [OF n]
    unfolding parse_ipv4_def Let_def sp oct by simp
qed

lemma hextets_length [simp]: "length (hextets k n) = k"
  by (induction k arbitrary: n) auto

lemma hextets_lt: "h \<in> set (hextets k n) \<Longrightarrow> h < 65536"
  by (induction k arbitrary: n) auto

lemma hextets_val_snoc: "hextets_val (hs @ [h]) = hextets_val hs * 65536 + h"
  by (simp add: hextets_val_def)

lemma hextets_val_hextets: "hextets_val (hextets k n) = n mod 65536 ^ k"
proof (induction k arbitrary: n)
  case (Suc k)
  have "(n div 65536 mod 65536 ^ k) * 65536 + n mod 65536 = n mod (65536 * 65536 ^ k)"
    by (simp add: mod_mult2_eq)
  then show ?case using Suc by (simp add: hextets_val_snoc)
qed (simp add: hextets_val_def)

lemma hextets_val_lt: "(\<And>h. h \<in> set hs \<Longrightarrow> h < 65536) \<Longrightarrow> hextets_val hs < 65536 ^ length hs"
proof (induction hs rule: rev_induct)
  case (snoc h hs)
  then have "hextets_val hs + 1 \<le> 65536 ^ length hs" "h < 65536" by (auto simp: Suc_le_eq)
  then have "(hextets_val hs + 1) * 65536 \<le> 65536 ^ length hs * 65536" by (simp only: mult_le_mono1)
  then show ?case using \<open>h < 65536\<close> by (simp add: hextets_val_snoc)
qed (simp add: hextets_val_def)

lemma hex4_digits: "list_all (is_digit 16) (hex4 h)"
  by (simp add: hex4_def is_digit_char)

lemma hex4_no_sep: "c \<in> {CHR ''.'', CHR '':'', CHR ''%'', CHR ''/''} \<Longrightarrow> c \<notin> set (hex4 h)"
  using digits_no_sep [OF hex4_digits, of c h] by auto

lemma parse_hextet_hex4 [simp]: "h < 65536 \<Longrightarrow> parse_hextet (hex4 h) = Inr h"
proof -
  assume h: "h < 65536"
  have "h div 4096 * 4096 + 256 * (h div 256 mod 16) + 16 * (h div 16 mod 16) + h mod 16 = h"
    using mod_mult2_eq [of h 256 16] mod_mult2_eq [of h 16 16]
    by (intro digits4 [OF div_mult_mod_eq]) simp_all
  moreover have "h div 4096 < 16" using h by (simp add: less_mult_imp_div_less)
  moreover have "num_val 16 (hex4 h) = h div 4096 mod 16 * 4096 + 256 * (h div 256 mod 16) + 16 * (h div 16 mod 16) + h mod 16"
    by (simp add: num_val_def hex4_def)
  ultimately have "num_val 16 (hex4 h) = h" by simp
  then show ?thesis using hex4_digits [of h] by (simp add: parse_hextet_def) (simp add: hex4_def)
qed

lemma parse_ipv4_one_part: "CHR ''.'' \<notin> set s \<Longrightarrow> parse_ipv4 s = Inl AddressValueError"
  by (simp add: parse_ipv4_def split_on_part)

lemma exploded_no_sep: "c \<in> {CHR ''%'', CHR ''/''} \<Longrightarrow> c \<notin> set (ip_exploded a)"
proof (cases a)
  case (IPv6Address n)
  assume "c \<in> {CHR ''%'', CHR ''/''}"
  then show ?thesis
    unfolding IPv6Address ip_exploded.simps
    by (intro join_no_char) (auto simp: hex4_no_sep)
qed (use ip_str_v4_no_sep [of c] in auto)

lemma parse_ipv6_exploded:
  assumes "0 \<le> n" "n < 2 ^ 128"
  shows "ip_address (ip_exploded (IPv6Address n)) = Inr (IPv6Address n)"
proof -
  let ?hs = "hextets 8 (nat n)" and ?s = "ip_exploded (IPv6Address n)"
  have dig: "p \<in> set (map hex4 ?hs) \<Longrightarrow> list_all (is_digit 16) p \<and> p \<noteq> []" for p
    using hex4_digits by (auto simp: hex4_def)
  have ne: "?hs \<noteq> []" using hextets_length [of 8 "nat n"] by (metis length_0_conv zero_neq_numeral)
  have nodot: "CHR ''.'' \<notin> set ?s"
    unfolding ip_exploded.simps by (intro join_no_char) (auto simp: hex4_no_sep)
  have sp: "split_on CHR '':'' ?s = map hex4 ?hs"
    unfolding ip_exploded.simps using ne by (intro split_join) (auto simp: hex4_no_sep)
  have last: "CHR ''.'' \<notin> set (last (map hex4 ?hs))"
    using ne by (simp add: last_map hex4_no_sep)
  have skip: "skip_indices (map hex4 ?hs) = []"
    using dig by (auto simp: skip_indices_def filter_empty_conv hex4_def)
  have parts: "rmap_list parse_hextet (map hex4 ?hs) = Inr ?hs"
    by (rule rmap_list_map_total) (rule parse_hextet_hex4, rule hextets_lt)
  have hl: "hd (map hex4 ?hs) \<noteq> []" "last (map hex4 ?hs) \<noteq> []"
    using ne by (simp_all add: hd_map last_map hex4_def)
  have "hextets_val ?hs = nat n"
    using assms by (simp add: hextets_val_hextets nat_less_iff)
  then have "parse_v6_parts (map hex4 ?hs) = Inr (nat n)"
    using hl by (simp add: parse_v6_parts_def skip parts Let_def)
  then have "parse_ipv6 ?s = Inr (IPv6Address n)"
    using exploded_no_sep [of "CHR ''/''" "IPv6Address n"] last assms
    by (simp add: parse_ipv6_def sp expand_v4_suffix_def Let_def del: ip_exploded.simps)
  then show ?thesis
    using parse_ipv4_one_part [OF nodot] by (simp add: ip_address_def del: ip_exploded.simps)
qed

lemma ip_address_exploded: "ipa_ok a \<Longrightarrow> ip_address (ip_exploded a) = Inr a"
proof (cases a)
  case (IPv4Address n)
  assume "ipa_ok a"
  then show ?thesis using parse_ipv4_str [of n] by (simp add: IPv4Address ip_address_def del: ip_str.simps)
qed (use parse_ipv6_exploded in simp)

section \<open>What the parsers accept is in range\<close>

lemma parse_octet_lt: "parse_octet s = Inr k \<Longrightarrow> k < 256"
  by (auto simp: parse_octet_def split: if_splits)

lemma num_val_lt: "list_all (is_digit b) s \<Longrightarrow> num_val b s < b ^ length s"
proof (induction s rule: rev_induct)
  case (snoc c s)
  then have c: "is_digit b c" and IH: "num_val b s + 1 \<le> b ^ length s" by auto
  then obtain d where d: "digit_val c = Some d" "d < b" by (auto simp: is_digit_def split: option.splits)
  have "(num_val b s + 1) * b \<le> b ^ length s * b" using IH by (rule mult_le_mono1)
  then have "num_val b s * b + b \<le> b ^ length (s @ [c])" by (simp add: algebra_simps)
  then show ?case using d by (simp add: num_val_append)
qed simp

lemma parse_hextet_lt: "parse_hextet s = Inr k \<Longrightarrow> k < 65536"
proof -
  assume "parse_hextet s = Inr k"
  then have k: "list_all (is_digit 16) s" "length s \<le> 4" "k = num_val 16 s"
    by (auto simp: parse_hextet_def split: if_splits)
  then have "k < 16 ^ length s" using num_val_lt by blast
  also have "\<dots> \<le> 16 ^ 4" using k(2) by (intro power_increasing) auto
  finally show ?thesis by simp
qed

lemma rmap_list_all: "rmap_list f xs = Inr ys \<Longrightarrow> (\<And>x y. f x = Inr y \<Longrightarrow> P y) \<Longrightarrow> y \<in> set ys \<Longrightarrow> P y"
  by (induction xs arbitrary: ys) (auto simp: rbind_eq_Ok)

lemma parse_ipv4_ok: "parse_ipv4 s = Inr a \<Longrightarrow> ipa_ok a \<and> ipa_version a = 4"
proof -
  assume "parse_ipv4 s = Inr a"
  then obtain os where os: "rmap_list parse_octet (split_on CHR ''.'' s) = Inr os"
    and l: "length (split_on CHR ''.'' s) = 4"
    and a: "a = IPv4Address (int (foldl (\<lambda>a b. a * 256 + b) 0 os))"
    by (auto simp: parse_ipv4_def rcatch_def rbind_eq_Ok Let_def split: if_splits sum.splits)
  have "length os = Suc (Suc (Suc (Suc 0)))" using rmap_list_Ok_length [OF os] l by simp
  then obtain w x y z where o4: "os = [w, x, y, z]"
    unfolding length_Suc_conv by auto
  have b: "k \<in> set os \<Longrightarrow> k < 256" for k by (rule rmap_list_all [OF os parse_octet_lt])
  have "w < 256" "x < 256" "y < 256" "z < 256" by (rule b, simp add: o4)+
  then have "((w * 256 + x) * 256 + y) * 256 + z < 4294967296" by simp
  then show ?thesis by (simp add: a o4)
qed

lemma parse_v6_parts_lt: "parse_v6_parts ps = Inr n \<Longrightarrow> n < 2 ^ 128"
proof -
  assume p: "parse_v6_parts ps = Inr n"
  have "\<exists>hs. n = hextets_val hs \<and> length hs = 8 \<and> (\<forall>h \<in> set hs. h < 65536)"
  proof (cases "skip_indices ps")
    case Nil
    then obtain hs where r: "rmap_list parse_hextet ps = Inr hs" "length ps = 8" "n = hextets_val hs"
      using p by (auto simp: parse_v6_parts_def rbind_eq_Ok Let_def split: if_splits)
    then show ?thesis
      using rmap_list_Ok_length [OF r(1)] rmap_list_all [OF r(1), of "\<lambda>k. k < 65536"] parse_hextet_lt
      by (intro exI [of _ hs]) auto
  next
    case (Cons k ks)
    then have ks: "ks = []" using p by (auto simp: parse_v6_parts_def Let_def split: list.splits)
    have k: "k < length ps - 1" using Cons by (auto simp: skip_indices_def filter_eq_Cons_iff dest!: arg_cong [where f = set])
    define hi where "hi = (if hd ps = [] then k - 1 else k)"
    define lo where "lo = (if last ps = [] then length ps - k - 1 - 1 else length ps - k - 1)"
    obtain hs ls where r: "rmap_list parse_hextet (take hi ps) = Inr hs"
      "rmap_list parse_hextet (drop (length ps - lo) ps) = Inr ls" "hi + lo < 8"
      "n = hextets_val (hs @ replicate (8 - (hi + lo)) 0 @ ls)"
      using p Cons ks by (auto simp: parse_v6_parts_def hi_def lo_def rbind_eq_Ok Let_def split: if_splits)
    have "length hs = hi" "length ls = lo"
      using rmap_list_Ok_length [OF r(1)] rmap_list_Ok_length [OF r(2)] k by (auto simp: hi_def lo_def)
    moreover have "h < 65536" if "h \<in> set hs \<union> set ls" for h
      using that rmap_list_all [OF r(1), of "\<lambda>k. k < 65536"] rmap_list_all [OF r(2), of "\<lambda>k. k < 65536"] parse_hextet_lt by blast
    ultimately show ?thesis using r(3,4)
      by (intro exI [of _ "hs @ replicate (8 - (hi + lo)) 0 @ ls"]) auto
  qed
  then obtain hs where hs: "n = hextets_val hs" "length hs = 8" "\<forall>h \<in> set hs. h < 65536" by blast
  have "n < 65536 ^ 8" using hextets_val_lt [of hs] hs by simp
  then show ?thesis by simp
qed

lemma parse_ipv6_ok: "parse_ipv6 s = Inr a \<Longrightarrow> ipa_ok a \<and> ipa_version a = 6"
proof -
  assume "parse_ipv6 s = Inr a"
  then obtain ps n where "parse_v6_parts ps = Inr n" "a = IPv6Address (int n)"
    by (auto simp: parse_ipv6_def rcatch_def rbind_eq_Ok Let_def split: if_splits sum.splits)
  then show ?thesis using parse_v6_parts_lt [of ps n] by (auto simp: less_imp_of_nat_less)
qed

lemma ip_address_ok: "ip_address s = Inr a \<Longrightarrow> ipa_ok a"
  by (auto simp: ip_address_def rcatch_def dest: parse_ipv4_ok parse_ipv6_ok split: sum.splits)

section \<open>The short form of an IPv6 address\<close>

definition zero_run :: "nat list \<Rightarrow> nat \<times> nat \<Rightarrow> nat \<Rightarrow> bool" where
  "zero_run xs r n = (fst r + snd r \<le> n \<and> (\<forall>j. fst r \<le> j \<and> j < fst r + snd r \<longrightarrow> xs ! j = 0))"

lemma best_run_zero:
  "hs = drop i xs \<Longrightarrow> i \<le> length xs \<Longrightarrow> zero_run xs cur i \<Longrightarrow> (snd cur \<noteq> 0 \<longrightarrow> fst cur + snd cur = i) \<Longrightarrow>
   zero_run xs best i \<Longrightarrow> zero_run xs (best_run hs i cur best) (length xs)"
proof (induction hs i cur best rule: best_run.induct)
  case (1 i cur best)
  then show ?case by (simp add: zero_run_def)
next
  case (2 h hs i cs cl bs bl)
  from "2.prems"(1,2) have i: "i < length xs" and h: "xs ! i = h" and hs: "hs = drop (i + 1) xs"
    by (metis drop_eq_Nil list.distinct(1) not_less_iff_gr_or_eq le_neq_implies_less order_refl)
       (metis "2.prems"(1) nth_via_drop, metis "2.prems"(1) Suc_eq_plus1 drop_Suc list.sel(3) tl_drop)
  have mono: "zero_run xs (bs, bl) (i + 1)" using "2.prems"(5) by (auto simp: zero_run_def)
  define cs' where "cs' = (if cl = 0 then i else cs)"
  have cur: "zero_run xs (cs', cl + 1) (i + 1) \<and> cs' + (cl + 1) = i + 1" if "h = 0"
    using "2.prems"(3,4) h that by (auto simp: zero_run_def cs'_def less_Suc_eq)
  show ?case
  proof (cases "h = 0")
    case True
    then show ?thesis
      using "2.IH"(1) [OF True cs'_def refl _ hs] "2.IH"(2) [OF True cs'_def refl _ hs] cur mono i
      by (auto simp: Let_def cs'_def [symmetric])
  next
    case False
    then show ?thesis
      using "2.IH"(3) [OF False hs] mono i by (simp add: zero_run_def)
  qed
qed

lemma hex_str_parts: "p \<in> set (map hex_str hs) \<Longrightarrow> p \<noteq> [] \<and> list_all (is_digit 16) p"
  using num_str_digits [of 16] by auto

lemma parse_hextet_hex_str: "h < 65536 \<Longrightarrow> parse_hextet (hex_str h) = Inr h"
proof -
  assume "h < 65536"
  then have "length (hex_str h) \<le> 4" by (intro length_num_str) auto
  then show ?thesis using num_str_digits [of 16 h] by (auto simp: parse_hextet_def)
qed

lemma parse_hextets_hex_str:
  "(\<And>h. h \<in> set hs \<Longrightarrow> h < 65536) \<Longrightarrow> rmap_list parse_hextet (map hex_str hs) = Inr hs"
  by (rule rmap_list_map_total) (rule parse_hextet_hex_str)

lemma zero_run_split:
  "zero_run hs (s, l) (length hs) \<Longrightarrow> hs = take s hs @ replicate l 0 @ drop (s + l) hs"
proof (rule nth_equalityI)
  assume z: "zero_run hs (s, l) (length hs)"
  then show "length hs = length (take s hs @ replicate l 0 @ drop (s + l) hs)" by (auto simp: zero_run_def)
  fix i assume "i < length hs"
  then show "hs ! i = (take s hs @ replicate l 0 @ drop (s + l) hs) ! i"
    using z by (auto simp: zero_run_def nth_append)
qed

lemma filter_upt_single:
  assumes "a \<le> k" "k < b" "P k" "\<And>i. a \<le> i \<Longrightarrow> i < b \<Longrightarrow> P i \<Longrightarrow> i = k"
  shows "filter P [a..<b] = [k]"
proof -
  have s: "set (filter P [a..<b]) = {k}"
  proof (intro equalityI subsetI)
    fix i assume "i \<in> set (filter P [a..<b])"
    then show "i \<in> {k}" using assms(4) [of i] by simp
  qed (use assms(1-3) in simp)
  have d: "distinct (filter P [a..<b])" by simp
  have "length (filter P [a..<b]) = 1" using distinct_card [OF d] unfolding s by simp
  then obtain x where "filter P [a..<b] = [x]" by (auto simp: length_Suc_conv)
  with s show ?thesis by auto
qed

lemma skip_one:
  assumes "ls \<noteq> []" "rs \<noteq> []" "\<And>p. p \<in> set (tl ls) \<union> set (butlast rs) \<Longrightarrow> p \<noteq> []"
  shows "skip_indices (ls @ [] # rs) = [length ls]"
  unfolding skip_indices_def
proof (rule filter_upt_single)
  show "1 \<le> length ls" using assms(1) by (cases ls) auto
  show "length ls < length (ls @ [] # rs) - 1" using assms(2) by (cases rs) auto
  show "(ls @ [] # rs) ! length ls = []" by simp
  fix i assume i: "1 \<le> i" "i < length (ls @ [] # rs) - 1" "(ls @ [] # rs) ! i = []"
  show "i = length ls"
  proof (rule ccontr)
    assume "i \<noteq> length ls"
    then consider "i < length ls" | "length ls < i" by linarith
    then show False
    proof cases
      case 1
      then have "(ls @ [] # rs) ! i = tl ls ! (i - 1)" using i(1) by (cases ls) (auto simp: nth_append nth_Cons')
      moreover have "tl ls ! (i - 1) \<in> set (tl ls)" using 1 i(1) by (intro nth_mem) auto
      ultimately show False using assms(3) i(3) by auto
    next
      case 2
      define j where "j = i - length ls - 1"
      have j: "j < length (butlast rs)" "i = length ls + Suc j" using 2 i(2) by (auto simp: j_def)
      then have "(ls @ [] # rs) ! i = butlast rs ! j" by (simp add: nth_append nth_butlast)
      moreover have "butlast rs ! j \<in> set (butlast rs)" using j(1) by (rule nth_mem)
      ultimately show False using assms(3) i(3) by auto
    qed
  qed
qed

text \<open>
  With a run left out the parts are: the groups before it (one empty part when there are none), an
  empty part, and the groups after it (one empty part when there are none).
\<close>

definition or_blank :: "string list \<Rightarrow> string list" where
  "or_blank ps = (if ps = [] then [[]] else ps)"

lemma parse_v6_parts_skip:
  assumes ls: "\<And>h. h \<in> set ls \<Longrightarrow> h < 65536" and rs: "\<And>h. h \<in> set rs \<Longrightarrow> h < 65536"
    and len: "length ls + length rs < 8"
  shows "parse_v6_parts (or_blank (map hex_str ls) @ [] # or_blank (map hex_str rs)) =
    Inr (hextets_val (ls @ replicate (8 - (length ls + length rs)) 0 @ rs))"
proof -
  let ?L = "or_blank (map hex_str ls)" and ?R = "or_blank (map hex_str rs)"
  have ne: "?L \<noteq> []" "?R \<noteq> []" by (simp_all add: or_blank_def)
  have "p \<noteq> []" if "p \<in> set (tl ?L) \<union> set (butlast ?R)" for p
    using that hex_str_parts [of p ls] hex_str_parts [of p rs]
    by (auto simp: or_blank_def dest!: in_set_butlastD list.set_sel(2) [rotated] split: if_splits)
  then have sk: "skip_indices (?L @ [] # ?R) = [length ?L]" using skip_one [OF ne] by blast
  have hd: "hd (?L @ [] # ?R) = [] \<longleftrightarrow> ls = []" by (cases ls) (auto simp: or_blank_def)
  have la: "last (?L @ [] # ?R) = [] \<longleftrightarrow> rs = []"
    using hex_str_parts [of _ rs] by (auto simp: or_blank_def last_map)
  have tk: "take (length ls) (?L @ [] # ?R) = map hex_str ls" by (simp add: or_blank_def)
  have dr: "drop (length (?L @ [] # ?R) - length rs) (?L @ [] # ?R) = map hex_str rs"
    by (simp add: or_blank_def)
  have lL: "length ?L = (if ls = [] then 1 else length ls)" and lR: "length ?R = (if rs = [] then 1 else length rs)"
    by (simp_all add: or_blank_def)
  have hi: "(if ls = [] then length ?L - 1 else length ?L) = length ls"
    unfolding lL by simp
  have lo: "(if rs = [] then length (?L @ [] # ?R) - length ?L - 1 - 1
      else length (?L @ [] # ?R) - length ?L - 1) = length rs"
    using lR by (auto simp: or_blank_def)
  show ?thesis
    unfolding parse_v6_parts_def Let_def sk list.case prod.case hi lo tk dr hd la
    using parse_hextets_hex_str [of ls, OF ls] parse_hextets_hex_str [of rs, OF rs] len by simp
qed

lemma compress_cases:
  "(\<exists>s l. 1 < l \<and> zero_run hs (s, l) (length hs) \<and>
      compress_parts hs = or_blank (map hex_str (take s hs)) @ [] # or_blank (map hex_str (drop (s + l) hs))) \<or>
   compress_parts hs = map hex_str hs"
proof -
  obtain s l where sl: "best_run hs 0 (0, 0) (0, 0) = (s, l)" by (cases "best_run hs 0 (0, 0) (0, 0)")
  have z: "zero_run hs (s, l) (length hs)"
    using best_run_zero [of hs 0 hs "(0, 0)" "(0, 0)"] by (simp add: sl zero_run_def)
  show ?thesis
  proof (cases "1 < l")
    case True
    then have "hs \<noteq> []" using z by (auto simp: zero_run_def)
    then have "compress_parts hs = or_blank (map hex_str (take s hs)) @ [] # or_blank (map hex_str (drop (s + l) hs))"
      using True z by (auto simp: compress_parts_def sl or_blank_def zero_run_def take_map drop_map)
    with True z show ?thesis by blast
  next
    case False
    then show ?thesis by (simp add: compress_parts_def sl)
  qed
qed

lemma parse_v6_parts_compress:
  assumes hs: "\<And>h. h \<in> set hs \<Longrightarrow> h < 65536" and len: "length hs = 8"
  shows "parse_v6_parts (compress_parts hs) = Inr (hextets_val hs)"
  using compress_cases [of hs]
proof (elim disjE exE conjE)
  fix s l assume l: "1 < l" and z: "zero_run hs (s, l) (length hs)"
    and c: "compress_parts hs = or_blank (map hex_str (take s hs)) @ [] # or_blank (map hex_str (drop (s + l) hs))"
  have sl: "s + l \<le> 8" using z len by (simp add: zero_run_def)
  have "parse_v6_parts (compress_parts hs) =
      Inr (hextets_val (take s hs @ replicate (8 - (length (take s hs) + length (drop (s + l) hs))) 0 @ drop (s + l) hs))"
    unfolding c using hs sl l len by (intro parse_v6_parts_skip) (auto dest: in_set_takeD in_set_dropD)
  also have "8 - (length (take s hs) + length (drop (s + l) hs)) = l" using sl len by simp
  finally show ?thesis using zero_run_split [OF z] by simp
next
  assume c: "compress_parts hs = map hex_str hs"
  have "skip_indices (map hex_str hs) = []"
    by (auto simp: skip_indices_def filter_empty_conv)
  moreover have "hs \<noteq> []" using len by auto
  ultimately show ?thesis
    using parse_hextets_hex_str [OF hs] len
    by (simp add: c parse_v6_parts_def Let_def hd_map last_map)
qed

lemma compress_parts_chars:
  "p \<in> set (compress_parts hs) \<Longrightarrow> list_all (is_digit 16) p"
  using compress_cases [of hs] num_str_digits [of 16]
  by (auto simp: or_blank_def split: if_splits)

lemma compress_parts_length: "length hs = 8 \<Longrightarrow> 3 \<le> length (compress_parts hs) \<and> length (compress_parts hs) \<le> 9"
  using compress_cases [of hs]
proof (elim disjE exE conjE)
  fix s l assume "length hs = 8" "1 < l" "zero_run hs (s, l) (length hs)"
    "compress_parts hs = or_blank (map hex_str (take s hs)) @ [] # or_blank (map hex_str (drop (s + l) hs))"
  moreover have "length (or_blank ps) = max 1 (length ps)" for ps by (cases ps) (auto simp: or_blank_def)
  ultimately show ?thesis by (auto simp: zero_run_def max_def)
qed simp

lemma ip_str_v6_no_sep: "c \<in> {CHR ''.'', CHR ''%'', CHR ''/''} \<Longrightarrow> c \<notin> set (ip_str (IPv6Address n))"
  unfolding ip_str.simps by (intro join_no_char) (auto dest!: compress_parts_chars digits_no_sep [where c = c])

lemma ip_str_no_sep: "c \<in> {CHR ''%'', CHR ''/''} \<Longrightarrow> c \<notin> set (ip_str a)"
  using ip_str_v4_no_sep [of c] ip_str_v6_no_sep [of c] by (cases a) auto

lemma parse_ipv6_str:
  assumes "0 \<le> n" "n < 2 ^ 128"
  shows "parse_ipv6 (ip_str (IPv6Address n)) = Inr (IPv6Address n)"
proof -
  let ?hs = "hextets 8 (nat n)" and ?s = "ip_str (IPv6Address n)"
  let ?ps = "compress_parts ?hs"
  have len: "3 \<le> length ?ps" "length ?ps \<le> 9" using compress_parts_length [of ?hs] by simp_all
  then have ne: "?ps \<noteq> []" by auto
  have nosep: "c \<notin> set p" if "p \<in> set ?ps" "c \<in> {CHR ''.'', CHR '':'', CHR ''%'', CHR ''/''}" for p c
    using digits_no_sep [OF compress_parts_chars [OF that(1)], of c] that(2) by auto
  have sp: "split_on CHR '':'' ?s = ?ps"
    unfolding ip_str.simps using ne by (intro split_join) (auto dest: nosep)
  have last: "CHR ''.'' \<notin> set (last ?ps)" using ne by (intro nosep) auto
  have "hextets_val ?hs = nat n" using assms by (simp add: hextets_val_hextets nat_less_iff)
  then have "parse_v6_parts ?ps = Inr (nat n)"
    using parse_v6_parts_compress [of ?hs] hextets_lt [of _ 8 "nat n"] by simp
  then show ?thesis
    using ip_str_v6_no_sep [of "CHR ''/''" n] last len assms
    by (simp add: parse_ipv6_def sp expand_v4_suffix_def Let_def del: ip_str.simps)
qed

lemma ip_address_str: "ipa_ok a \<Longrightarrow> ip_address (ip_str a) = Inr a"
proof (cases a)
  case (IPv4Address n)
  assume "ipa_ok a"
  then show ?thesis using parse_ipv4_str [of n] by (simp add: IPv4Address ip_address_def del: ip_str.simps)
next
  case (IPv6Address n)
  assume "ipa_ok a"
  then show ?thesis
    using parse_ipv6_str [of n] parse_ipv4_one_part [OF ip_str_v6_no_sep [of "CHR ''.''" n]]
    by (simp add: IPv6Address ip_address_def del: ip_str.simps)
qed

section \<open>Reading numbers back\<close>

lemma digit_not_blank: "is_digit b c \<Longrightarrow> \<not> is_blank c"
  by (auto simp: is_digit_def digit_val_def is_blank_def Let_def split: if_splits)

lemma strip_digits: "list_all (is_digit b) s \<Longrightarrow> strip s = s"
proof -
  assume s: "list_all (is_digit b) s"
  have dw: "dropWhile is_blank t = t" if "list_all (is_digit b) t" for t
    using that by (cases t) (auto simp: digit_not_blank)
  then have "dropWhile is_blank (rev s) = rev s" using s by (intro dw) (simp add: list_all_iff)
  then show ?thesis using dw [OF s] by (simp add: strip_def)
qed

lemma digits_underscored_digits:
  "s \<noteq> [] \<Longrightarrow> list_all (is_digit b) s \<Longrightarrow> b \<le> 16 \<Longrightarrow> digits_underscored b s"
  by (induction b s rule: digits_underscored.induct) (auto dest: is_digit_not_sep)

lemma py_int_digits:
  assumes "s \<noteq> []" "list_all (is_digit b) s" "b \<le> 16"
  shows "py_int b s = Inr (int (num_val b s))"
proof -
  obtain c cs where s: "s = c # cs" using assms(1) by (cases s) auto
  have c: "c \<noteq> CHR ''-''" "c \<noteq> CHR ''+''" using assms(2,3) is_digit_not_sep [of b c] by (auto simp: s)
  have "filter (\<lambda>c. c \<noteq> CHR ''_'') s = s"
    using assms(2,3) is_digit_not_sep [of b] by (auto simp: filter_id_conv list_all_iff)
  then show ?thesis
    using c digits_underscored_digits [OF assms] strip_digits [OF assms(2)]
    by (simp add: py_int_def s Let_def)
qed

lemma py_int_num_str: "1 < b \<Longrightarrow> b \<le> 16 \<Longrightarrow> py_int b (num_str b n) = Inr (int n)"
  by (subst py_int_digits) (simp_all add: num_str_digits)

section \<open>Evaluating concrete addresses\<close>

lemma digit_char_table [eval_simps]:
  "digit_char 0 = CHR ''0''"
  "digit_char (Suc 0) = CHR ''1''"
  "digit_char 2 = CHR ''2''"
  "digit_char 3 = CHR ''3''"
  "digit_char 4 = CHR ''4''"
  "digit_char 5 = CHR ''5''"
  "digit_char 6 = CHR ''6''"
  "digit_char 7 = CHR ''7''"
  "digit_char 8 = CHR ''8''"
  "digit_char 9 = CHR ''9''"
  "digit_char 10 = CHR ''a''"
  "digit_char 11 = CHR ''b''"
  "digit_char 12 = CHR ''c''"
  "digit_char 13 = CHR ''d''"
  "digit_char 14 = CHR ''e''"
  "digit_char 15 = CHR ''f''"
  by code_simp+


lemma digit_val_table [eval_simps]:
  "digit_val CHR ''0'' = Some 0"
  "digit_val CHR ''1'' = Some 1"
  "digit_val CHR ''2'' = Some 2"
  "digit_val CHR ''3'' = Some 3"
  "digit_val CHR ''4'' = Some 4"
  "digit_val CHR ''5'' = Some 5"
  "digit_val CHR ''6'' = Some 6"
  "digit_val CHR ''7'' = Some 7"
  "digit_val CHR ''8'' = Some 8"
  "digit_val CHR ''9'' = Some 9"
  "digit_val CHR ''a'' = Some 10"
  "digit_val CHR ''b'' = Some 11"
  "digit_val CHR ''c'' = Some 12"
  "digit_val CHR ''d'' = Some 13"
  "digit_val CHR ''e'' = Some 14"
  "digit_val CHR ''f'' = Some 15"
  "digit_val CHR ''A'' = Some 10"
  "digit_val CHR ''B'' = Some 11"
  "digit_val CHR ''C'' = Some 12"
  "digit_val CHR ''D'' = Some 13"
  "digit_val CHR ''E'' = Some 14"
  "digit_val CHR ''F'' = Some 15"
  "digit_val CHR ''.'' = None"
  "digit_val CHR '':'' = None"
  "digit_val CHR ''/'' = None"
  "digit_val CHR ''%'' = None"
  "digit_val CHR ''-'' = None"
  "digit_val CHR ''_'' = None"
  "digit_val CHR ''+'' = None"
  "digit_val CHR ''g'' = None"
  "digit_val CHR ''h'' = None"
  "digit_val CHR ''l'' = None"
  "digit_val CHR ''o'' = None"
  "digit_val CHR ''t'' = None"
  by code_simp+


lemma is_blank_table [eval_simps]:
  "\<not> is_blank CHR ''0''"
  "\<not> is_blank CHR ''1''"
  "\<not> is_blank CHR ''2''"
  "\<not> is_blank CHR ''3''"
  "\<not> is_blank CHR ''4''"
  "\<not> is_blank CHR ''5''"
  "\<not> is_blank CHR ''6''"
  "\<not> is_blank CHR ''7''"
  "\<not> is_blank CHR ''8''"
  "\<not> is_blank CHR ''9''"
  "\<not> is_blank CHR ''a''"
  "\<not> is_blank CHR ''b''"
  "\<not> is_blank CHR ''c''"
  "\<not> is_blank CHR ''d''"
  "\<not> is_blank CHR ''e''"
  "\<not> is_blank CHR ''f''"
  "\<not> is_blank CHR ''.''"
  "\<not> is_blank CHR '':''"
  "\<not> is_blank CHR ''/''"
  "\<not> is_blank CHR ''%''"
  "\<not> is_blank CHR ''-''"
  "\<not> is_blank CHR ''+''"
  by code_simp+

lemma num_str_numeral [eval_simps]:
  "num_str (numeral b) (numeral n) =
     (if numeral b \<le> (1 :: nat) \<or> (numeral n :: nat) < numeral b then [digit_char (numeral n)]
      else num_str (numeral b) (numeral n div numeral b) @ [digit_char (numeral n mod numeral b)])"
  "0 < c \<Longrightarrow> num_str c 0 = [digit_char 0]"
  "1 < c \<Longrightarrow> num_str c (Suc 0) = [digit_char (Suc 0)]"
  by (subst num_str.simps, simp)+

lemma hextets_numeral [eval_simps]:
  "hextets (numeral k) n = hextets (pred_numeral k) (n div 65536) @ [n mod 65536]"
  by (subst numeral_eq_Suc) (rule hextets.simps(2))

declare num_val_def [eval_simps] is_digit_def [eval_simps] slice_def [eval_simps]
  ip_address_def [eval_simps] parse_ipv4_def [eval_simps] parse_octet_def [eval_simps]
  parse_ipv6_def [eval_simps] parse_v6_parts_def [eval_simps] parse_hextet_def [eval_simps]
  expand_v4_suffix_def [eval_simps] skip_indices_def [eval_simps] hextets_val_def [eval_simps]
  hex4_def [eval_simps] octets_def [eval_simps] py_int_def [eval_simps] strip_def [eval_simps]
  compress_parts_def [eval_simps]

end
