(* ===== verification/Ip_Net.thy ===== *)
theory Ip_Net
  imports Py_Utils Ip_Text
begin

text \<open>
  \<^verbatim>\<open>net/net.py\<close>: address families, the socket configuration record, MAC and netmask arithmetic,
  normal forms of textual addresses, and the send and receive retry loops.
\<close>

section \<open>Constants\<close>

definition HOST_TYPE_DOMAIN :: int where "HOST_TYPE_DOMAIN = 0"
definition HOST_TYPE_IP :: int where "HOST_TYPE_IP = 1"

text \<open>The transport of a socket; RUDP is UDP with acknowledgements.\<close>

datatype sock_proto = TCP | UDP | RUDP

definition VALID_AFS :: "af list" where
  "VALID_AFS = [IP4, IP6]"

definition NET_MAX_MSG_NO :: nat where "NET_MAX_MSG_NO = 1000"
definition NET_MAX_MSGS_SIZEOF :: nat where "NET_MAX_MSGS_SIZEOF = 2 * 1024 * 1024"

definition ZERO_NETMASK_IP4 :: string where
  "ZERO_NETMASK_IP4 = ''0.0.0.0''"

definition ZERO_NETMASK_IP6 :: string where
  "ZERO_NETMASK_IP6 = ''0000:0000:0000:0000:0000:0000:0000:0000''"

fun BLACK_HOLE_IPS :: "af \<Rightarrow> string" where
  "BLACK_HOLE_IPS IP4 = ''192.0.2.1''"
| "BLACK_HOLE_IPS IP6 = ''0100:0000:0000:0000:0000:0000:0000:0001''"

definition VALID_LOOPBACKS :: "string list" where
  "VALID_LOOPBACKS = [''127.0.0.1'', ''::1'']"

definition VALID_ANY_ADDR :: "string list" where
  "VALID_ANY_ADDR = [''0.0.0.0'', ''::'']"

fun ANY_ADDR_LOOKUP :: "af \<Rightarrow> string" where
  "ANY_ADDR_LOOKUP IP4 = ''0.0.0.0''"
| "ANY_ADDR_LOOKUP IP6 = ''::''"

fun LOCALHOST_LOOKUP :: "af \<Rightarrow> string" where
  "LOCALHOST_LOOKUP IP4 = ''127.0.0.1''"
| "LOCALHOST_LOOKUP IP6 = ''::1''"

definition PROTO_LOOKUP :: "string \<Rightarrow> sock_proto option" where
  "PROTO_LOOKUP = map_of [(''TCP'', TCP), (''UDP'', UDP), (''RUDP'', RUDP)]"

definition V4_VALID_ANY :: "string list" where
  "V4_VALID_ANY = [''*'', ''0.0.0.0'', '''']"

definition V6_VALID_ANY :: "string list" where
  "V6_VALID_ANY = [''*'', ''::'', ''::/0'', '''', ''0000:0000:0000:0000:0000:0000:0000:0000'']"

definition V6_VALID_LOCALHOST :: "string list" where
  "V6_VALID_LOCALHOST = [''localhost'', ''::1'']"

definition V4_VALID_LOCALHOST :: "string list" where
  "V4_VALID_LOCALHOST = [''localhost'', ''127.0.0.1'']"

definition VALID_LOCALHOST :: "string list" where
  "VALID_LOCALHOST = [''localhost'', ''::1'', ''127.0.0.1'']"

text \<open>The defaults of \<open>NET_CONF\<close>; \<open>linger\<close> is None when it is off.\<close>

record net_conf =
  dns_timeout :: nat
  use_ssl :: bool
  ssl_handshake :: nat
  sock_proto_no :: nat
  recv_timeout :: nat
  con_timeout :: nat
  max_qsize :: nat
  enable_msg_ids :: bool
  max_msg_ids :: nat
  reuse_addr :: bool
  broadcast :: bool
  reader_limit :: nat
  sock_only :: bool
  do_close :: bool
  linger :: "nat option"
  send_retry :: nat

definition NET_CONF :: net_conf where
  "NET_CONF =
     \<lparr>dns_timeout = 2, use_ssl = False, ssl_handshake = 4, sock_proto_no = 0, recv_timeout = 2,
      con_timeout = 2, max_qsize = 0, enable_msg_ids = False, max_msg_ids = 1000,
      reuse_addr = False, broadcast = False, reader_limit = 2 ^ 16, sock_only = False,
      do_close = True, linger = None, send_retry = 2\<rparr>"

section \<open>Address families\<close>

definition af_to_v :: "af \<Rightarrow> nat" where
  "af_to_v af = (if af = IP4 then 4 else 6)"

definition v_to_af :: "nat \<Rightarrow> af" where
  "v_to_af v = (if v = 4 then IP4 else IP6)"

definition af_to_cidr :: "af \<Rightarrow> nat" where
  "af_to_cidr af = (if af = IP4 then 32 else 128)"

definition i_to_af :: "int \<Rightarrow> af" where
  "i_to_af x = (if x = 2 then IP4 else IP6)"

definition ipa_af :: "ipa \<Rightarrow> af" where
  "ipa_af a = v_to_af (ipa_version a)"

text \<open>
  What callers hand to \<open>ipaddress.ip_address\<close> and to the address classes: text, an integer or
  an address object.
\<close>

datatype ip_arg = IpStr string | IpInt int | IpObj ipa

fun ip_f :: "ip_arg \<Rightarrow> ipa res" where
  "ip_f (IpStr s) = ip_address s"
| "ip_f (IpInt n) = ip_of_int n"
| "ip_f (IpObj a) = Ok a"

definition af_from_ip_s :: "string \<Rightarrow> af res" where
  "af_from_ip_s ip_s = rbind (ip_f (IpStr ip_s)) (\<lambda>ip_obj. Ok (v_to_af (ipa_version ip_obj)))"

section \<open>Hardware addresses\<close>

definition hex2 :: "nat \<Rightarrow> string" where
  "hex2 b = (if b < 16 then CHR ''0'' # hex_str b else hex_str b)"

datatype oui_arg = OuiNone | OuiStr string | OuiList "int list"

fun oui_truthy :: "oui_arg \<Rightarrow> bool" where
  "oui_truthy OuiNone = False"
| "oui_truthy (OuiStr s) = (s \<noteq> [])"
| "oui_truthy (OuiList l) = (l \<noteq> [])"

text \<open>
  \<open>rand_by\<close> takes its count as \<open>n\<close>; the call with \<open>num=\<close> in the \<open>oui\<close> branch is a TypeError.
  The entropy stream \<open>e\<close> gives the random bytes.
\<close>

definition rand_by :: "(nat \<Rightarrow> nat) \<Rightarrow> nat \<Rightarrow> nat list" where
  "rand_by e n = map (\<lambda>i. e i mod 256) [0..<n]"

definition generate_mac :: "(nat \<Rightarrow> nat) \<Rightarrow> bool \<Rightarrow> bool \<Rightarrow> oui_arg \<Rightarrow> char \<Rightarrow> string res" where
  "generate_mac e uaa multicast oui separator =
     (let mac = rand_by e 8
      in if oui_truthy oui
         then rbind (case oui of OuiStr s \<Rightarrow> rmap_list (py_int 10) (split_on separator s)
                               | OuiList l \<Rightarrow> Ok l | OuiNone \<Rightarrow> Ok [])
                (\<lambda>_. Err TypeError)
         else (let m0 = (if multicast then mac ! 0 OR 1 else mac ! 0 AND 254);
                   m0 = (if uaa then m0 AND 253 else m0 OR 2)
               in Ok (join_with separator (map hex2 (mac[0 := m0])))))"

definition pad12 :: "string \<Rightarrow> string" where
  "pad12 mac = replicate (12 - length mac) CHR ''0'' @ mac"

definition mac_to_b :: "string \<Rightarrow> bytes res" where
  "mac_to_b mac_str =
     (let mac = pad12 (strip (filter (\<lambda>c. c \<noteq> CHR '':'') mac_str))
      in rmap concat (rmap_list (\<lambda>i. rbind (py_int 16 (slice i (i + 2) mac)) (pack_be 1))
                        [0, 2, 4, 6, 8, 10]))"

section \<open>Netmasks\<close>

definition ip_str_to_int :: "string \<Rightarrow> int res" where
  "ip_str_to_int s =
     rbind (ip_address s) (\<lambda>ip_obj.
       if ipa_version ip_obj = 4
       then unpack_be 4 (be_enc 4 (nat (ipa_int ip_obj)))
       else rbind (ip_address (ip_exploded ip_obj)) (\<lambda>a.
              Ok (int (be_dec (be_enc 16 (nat (ipa_int a)))))))"

definition netmask_to_cidr :: "string \<Rightarrow> int res" where
  "netmask_to_cidr netmask =
     (if CHR ''/'' \<in> set netmask
      then py_int 10 (filter (\<lambda>c. c \<noteq> CHR ''/'') netmask)
      else rbind (ip_str_to_int netmask) (\<lambda>as_int.
             Ok (int (count_list (num_str 2 (nat as_int)) CHR ''1''))))"

definition cidr_to_netmask :: "int \<Rightarrow> af \<Rightarrow> string res" where
  "cidr_to_netmask cidr af =
     (let end = (if af = IP4 then 32 else 128);
          buf = replicate (nat cidr) CHR ''1'' @ replicate (nat (end - cidr)) CHR ''0'';
          n = int (num_val 2 buf)
      in if af = IP4 then rmap ip_str (mk_ipv4 n) else rmap ip_exploded (mk_ipv6 n))"

text \<open>\<open>as_bin[:cidr]\<close> for any integer \<open>cidr\<close>.\<close>

definition py_take :: "int \<Rightarrow> 'a list \<Rightarrow> 'a list" where
  "py_take i xs = take (nat (if i < 0 then int (length xs) + i else i)) xs"

definition toggle_host_bits :: "string \<Rightarrow> string \<Rightarrow> bool \<Rightarrow> string res" where
  "toggle_host_bits netmask s toggle =
     rbind (ip_address s) (\<lambda>ip_obj.
     rbind (if CHR ''/'' \<in> set netmask then py_int 10 (last (split_on CHR ''/'' netmask))
            else netmask_to_cidr netmask) (\<lambda>cidr.
     rbind (ip_str_to_int s) (\<lambda>as_int.
       let as_bin = num_str 2 (nat as_int);
           net_part = py_take cidr as_bin;
           host_part = replicate (length as_bin - length net_part) (if toggle then CHR ''1'' else CHR ''0'');
           n_result = int (num_val 2 (net_part @ host_part))
       in if ipa_version ip_obj = 4 then rmap ip_str (mk_ipv4 n_result)
          else rmap ip_exploded (mk_ipv6 n_result))))"

definition get_broadcast_ip :: "string \<Rightarrow> string \<Rightarrow> string res" where
  "get_broadcast_ip netmask gw_ip = toggle_host_bits netmask gw_ip True"

definition py_mod :: "int \<Rightarrow> int \<Rightarrow> int res" where
  "py_mod a b = (if b = 0 then Err ZeroDivisionError else Ok (a mod b))"

definition ip_from_last :: "int \<Rightarrow> string \<Rightarrow> string \<Rightarrow> string res" where
  "ip_from_last n netmask host_ip =
     rbind (rassert (n \<noteq> 0)) (\<lambda>_.
     rbind (toggle_host_bits netmask host_ip False) (\<lambda>min_ip_str.
     rbind (toggle_host_bits netmask host_ip True) (\<lambda>max_ip_str.
     rbind (ip_address host_ip) (\<lambda>ip_obj.
     rbind (ip_address min_ip_str) (\<lambda>lo.
     rbind (ip_address max_ip_str) (\<lambda>hi.
       let min_ip_n = ipa_int lo + 1; max_ip_n = ipa_int hi - 1
       in rbind (py_mod (- n) (max_ip_n + 1)) (\<lambda>ip_n.
          rbind (if ip_n \<le> min_ip_n
                 then (let d = - (min_ip_n - (if n \<noteq> 0 then n else min_ip_n))
                       in py_mod (if d = 0 then -1 else d) max_ip_n)
                 else Ok ip_n) (\<lambda>ip_n.
            if ipa_version ip_obj = 4 then rmap ip_str (mk_ipv4 ip_n)
            else rmap ip_exploded (mk_ipv6 ip_n)))))))))"

section \<open>Normal forms\<close>

definition ipv6_norm :: "ip_arg \<Rightarrow> string res" where
  "ipv6_norm ip_val =
     rbind (ip_f ip_val) (\<lambda>ip_obj.
       if ipa_version ip_obj = 6 then Ok (ip_exploded ip_obj) else Ok (ip_str ip_obj))"

fun ip_strip_if :: "ip_arg \<Rightarrow> ip_arg" where
  "ip_strip_if (IpStr ip) = IpStr (if CHR ''%'' \<in> set ip then hd (split_on CHR ''%'' ip) else ip)"
| "ip_strip_if ip = ip"

fun ip_strip_cidr :: "ip_arg \<Rightarrow> ip_arg" where
  "ip_strip_cidr (IpStr ip) = IpStr (if CHR ''/'' \<in> set ip then hd (split_on CHR ''/'' ip) else ip)"
| "ip_strip_cidr ip = ip"

definition ip_norm :: "ip_arg \<Rightarrow> string res" where
  "ip_norm ip = ipv6_norm (ip_strip_cidr (ip_strip_if ip))"

definition client_tup_norm :: "(string \<times> int) option \<Rightarrow> (string \<times> int) option res" where
  "client_tup_norm client_tup =
     (case client_tup of None \<Rightarrow> Ok None
      | Some (h, port) \<Rightarrow> rbind (ip_norm (IpStr h)) (\<lambda>ip. Ok (Some (ip, port))))"

definition ipv6_address :: "string \<Rightarrow> ipa res" where
  "ipv6_address s = parse_ipv6 s"

definition ipv6_rand_host :: "nat \<Rightarrow> string \<Rightarrow> nat \<Rightarrow> string res" where
  "ipv6_rand_host e ip_val cidr =
     rbind (randrange e 0 (2 ^ cidr)) (\<lambda>host_no.
     rbind (ipv6_address ip_val) (\<lambda>a.
     rbind (mk_ipv6 (ipa_int a + host_no)) (\<lambda>b. ip_norm (IpStr (ip_str b)))))"

definition ipv6_rand_link_local :: "nat \<Rightarrow> string res" where
  "ipv6_rand_link_local e =
     (let buf = ''111111101'' @ replicate 55 CHR ''0'' @ replicate 64 CHR ''0''
      in rbind (rassert (length buf = 128)) (\<lambda>_.
         rbind (mk_ipv6 (int (num_val 2 buf))) (\<lambda>ip_obj.
         rbind (ipv6_norm (IpStr (ip_str ip_obj))) (\<lambda>ip_val.
           ipv6_rand_host e ip_val 64))))"

section \<open>Retry loops\<close>

text \<open>
  A pipe operation may raise; its outcome at each attempt is given by the environment. The loops
  of the source differ in when they stop.
\<close>

fun try_until :: "(nat \<Rightarrow> 'a res) \<Rightarrow> nat \<Rightarrow> nat \<Rightarrow> 'a option" where
  "try_until f i 0 = None"
| "try_until f i (Suc n) = (case f i of Inr x \<Rightarrow> Some x | Inl _ \<Rightarrow> try_until f (i + 1) n)"

definition proto_recv :: "sock_proto \<Rightarrow> (nat \<Rightarrow> 'm res) \<Rightarrow> 'm option" where
  "proto_recv ty recv = try_until recv 0 (if ty = TCP then 1 else 5)"

text \<open>\<open>proto_send\<close> never leaves its loop early: it counts the sends that went through.\<close>

fun send_all :: "(nat \<Rightarrow> unit res) \<Rightarrow> nat \<Rightarrow> nat \<Rightarrow> nat" where
  "send_all send i 0 = 0"
| "send_all send i (Suc n) = (if is_ok (send i) then 1 else 0) + send_all send (i + 1) n"

definition proto_send :: "sock_proto \<Rightarrow> (nat \<Rightarrow> unit res) \<Rightarrow> nat" where
  "proto_send ty send = send_all send 0 (if ty = TCP then 1 else 5)"

definition send_recv_loop ::
  "sock_proto \<Rightarrow> (nat \<Rightarrow> unit res) \<Rightarrow> (nat \<Rightarrow> 'm res) \<Rightarrow> 'm option" where
  "send_recv_loop ty send recv =
     try_until (\<lambda>i. rbind (send i) (\<lambda>_. recv i)) 0 (if ty = TCP then 1 else 3)"

text \<open>The peek that tells a closed socket from one that is only idle.\<close>

datatype peek = PeekData bytes | PeekBlocking | PeekReset | PeekOther

fun is_socket_closed :: "peek \<Rightarrow> bool" where
  "is_socket_closed (PeekData bs) = (length bs = 0)"
| "is_socket_closed PeekBlocking = False"
| "is_socket_closed PeekReset = True"
| "is_socket_closed PeekOther = False"

definition sock_close_all :: "'s option list option \<Rightarrow> 's list" where
  "sock_close_all sock_list = (case sock_list of None \<Rightarrow> [] | Some l \<Rightarrow> strip_none l)"

section \<open>Normal forms are canonical\<close>

fun ip_arg_ok :: "ip_arg \<Rightarrow> bool" where
  "ip_arg_ok (IpObj a) = ipa_ok a"
| "ip_arg_ok _ = True"

lemma ip_of_int_ok: "ip_of_int n = Inr a \<Longrightarrow> ipa_ok a"
  by (auto simp: ip_of_int_def mk_ipv4_def mk_ipv6_def split: if_splits)

lemma ip_f_ok: "ip_arg_ok x \<Longrightarrow> ip_f x = Inr a \<Longrightarrow> ipa_ok a"
  by (cases x) (auto dest: ip_address_ok ip_of_int_ok)

lemma ipa_version_cases: "ipa_version a \<noteq> 6 \<Longrightarrow> ip_str a = ip_exploded a"
  by (cases a) auto

lemma ipv6_norm_eq: "ipv6_norm x = rmap ip_exploded (ip_f x)"
  using ipa_version_cases [of "projr (ip_f x)"] by (cases "ip_f x") (auto simp: ipv6_norm_def)

lemma strip_no_sep:
  "CHR ''%'' \<notin> set s \<Longrightarrow> CHR ''/'' \<notin> set s \<Longrightarrow> ip_strip_cidr (ip_strip_if (IpStr s)) = IpStr s"
  by simp

lemma ip_norm_exploded: "ipa_ok a \<Longrightarrow> ip_norm (IpStr (ip_exploded a)) = Inr (ip_exploded a)"
  unfolding ip_norm_def
  by (subst strip_no_sep) (simp_all add: exploded_no_sep ipv6_norm_eq ip_address_exploded)

lemma ip_norm_str: "ipa_ok a \<Longrightarrow> ip_norm (IpStr (ip_str a)) = Inr (ip_exploded a)"
  unfolding ip_norm_def
  by (subst strip_no_sep) (simp_all add: ip_str_no_sep ipv6_norm_eq ip_address_str)

lemma ip_arg_ok_strip: "ip_arg_ok x \<Longrightarrow> ip_arg_ok (ip_strip_cidr (ip_strip_if x))"
  by (cases x) auto

lemma ip_norm_Ok: "ip_arg_ok x \<Longrightarrow> ip_norm x = Inr t \<Longrightarrow>
  \<exists>a. ipa_ok a \<and> ip_f (ip_strip_cidr (ip_strip_if x)) = Inr a \<and> t = ip_exploded a"
  using ip_arg_ok_strip [of x] ip_f_ok
  by (cases "ip_f (ip_strip_cidr (ip_strip_if x))") (auto simp: ip_norm_def ipv6_norm_eq)

lemma ip_exploded_inj: "ipa_ok a \<Longrightarrow> ipa_ok b \<Longrightarrow> ip_exploded a = ip_exploded b \<Longrightarrow> a = b"
  by (metis ip_address_exploded sum.inject(2))

section \<open>Binary netmask arithmetic\<close>

lemma digit_char_01: "digit_char 0 = CHR ''0''" "digit_char (Suc 0) = CHR ''1''"
  by (simp_all add: digit_char_def char_of_def bit_0)

lemma count_ones: "count_list (num_str 2 n) CHR ''1'' = hamming_weight n"
proof (induction n rule: less_induct)
  case (less n)
  show ?case
  proof (cases "n < 2")
    case True
    then have "n = 0 \<or> n = 1" by auto
    then show ?thesis
      using hamming_weight_rec [of 1] digit_char_01 by (auto simp: num_str_small)
  next
    case False
    have one: "count_list [digit_char (n mod 2)] CHR ''1'' = n mod 2"
    proof (cases "even n")
      case False
      then have "n mod 2 = Suc 0" by presburger
      then show ?thesis by (simp add: digit_char_01)
    qed (simp add: digit_char_01)
    have "count_list (num_str 2 n) CHR ''1'' = hamming_weight (n div 2) + n mod 2"
      using less [of "n div 2"] False one num_str_step [of 2 n] by (simp del: count_list.simps)
    then show ?thesis using hamming_weight_rec [of n] by linarith
  qed
qed

lemma num_val_snoc_bit:
  "num_val 2 (s @ [CHR ''0'']) = 2 * num_val 2 s" "num_val 2 (s @ [CHR ''1'']) = 2 * num_val 2 s + 1"
  using digit_val_char [of 0] digit_val_char [of "Suc 0"] digit_char_01 by (simp_all add: num_val_append)

lemma num_val_zeros: "num_val 2 (s @ replicate k CHR ''0'') = num_val 2 s * 2 ^ k"
proof (induction k)
  case (Suc k)
  have "s @ replicate (Suc k) CHR ''0'' = (s @ replicate k CHR ''0'') @ [CHR ''0'']"
    by (simp add: replicate_append_same)
  then show ?case unfolding num_val_snoc_bit using Suc by (metis mult.assoc mult.commute num_val_snoc_bit(1) power_Suc)
qed simp

lemma num_val_ones: "num_val 2 (s @ replicate k CHR ''1'') + 1 = (num_val 2 s + 1) * 2 ^ k"
proof (induction k)
  case (Suc k)
  have "s @ replicate (Suc k) CHR ''1'' = (s @ replicate k CHR ''1'') @ [CHR ''1'']"
    by (simp add: replicate_append_same)
  then have "num_val 2 (s @ replicate (Suc k) CHR ''1'') = 2 * num_val 2 (s @ replicate k CHR ''1'') + 1"
    by (simp only: num_val_snoc_bit)
  then show ?case using Suc by simp
qed simp

lemma mask_string: "num_val 2 (replicate c CHR ''1'' @ replicate z CHR ''0'') = (2 ^ c - 1) * 2 ^ z"
  using num_val_ones [of "[]" c] by (simp add: num_val_zeros)

lemma int_be_dec_enc: "0 \<le> n \<Longrightarrow> n < 256 ^ k \<Longrightarrow> int (be_dec (be_enc k (nat n))) = n"
  using be.dec_enc_id [of "nat n" k] nat_lt_power_iff [of n k] by simp

lemma ip_str_to_int_eq: "ip_str_to_int s = rmap ipa_int (ip_address s)"
proof (cases "ip_address s")
  case (Inr a)
  then have ok: "ipa_ok a" by (rule ip_address_ok)
  show ?thesis
  proof (cases a)
    case (IPv4Address n)
    then show ?thesis
      using ok Inr int_be_dec_enc [of n 4] by (simp add: ip_str_to_int_def unpack_be_def)
  next
    case (IPv6Address n)
    then show ?thesis
      using ok Inr int_be_dec_enc [of n 16] ip_address_exploded [OF ok]
      by (simp add: ip_str_to_int_def del: ip_exploded.simps)
  qed
qed (simp add: ip_str_to_int_def)

fun mk_ipa :: "af \<Rightarrow> int \<Rightarrow> ipa" where
  "mk_ipa IP4 n = IPv4Address n"
| "mk_ipa IP6 n = IPv6Address n"

lemma cidr_to_netmask_eq:
  assumes "0 \<le> c" "c \<le> int (af_to_cidr af)"
  shows "cidr_to_netmask c af =
    Inr (ip_exploded (mk_ipa af (int ((2 ^ nat c - 1) * 2 ^ (af_to_cidr af - nat c)))))"
proof -
  let ?n = "(2 ^ nat c - 1) * 2 ^ (af_to_cidr af - nat c) :: nat"
  have le: "nat c \<le> af_to_cidr af" using assms by simp
  have "?n < 2 ^ nat c * 2 ^ (af_to_cidr af - nat c)" by simp
  also have "\<dots> = 2 ^ af_to_cidr af" using le by (simp flip: power_add)
  finally have lt: "?n < 2 ^ af_to_cidr af" .
  have v: "num_val 2 (replicate (nat c) CHR ''1'' @ replicate (nat (int (af_to_cidr af) - c)) CHR ''0'') = ?n"
    using assms by (simp add: mask_string nat_diff_distrib)
  have li: "int m < 2 ^ af_to_cidr af" if "m < 2 ^ af_to_cidr af" for m
    using that by (metis of_nat_less_iff of_nat_numeral of_nat_power)
  define m where "m = ?n"
  note v = v [folded m_def] and lim = li [OF lt, folded m_def]
  have "cidr_to_netmask c af = Inr (ip_exploded (mk_ipa af (int m)))"
  proof (cases af)
    case IP4
    then show ?thesis using v lim by (simp add: cidr_to_netmask_def af_to_cidr_def mk_ipv4_def del: ip_str.simps)
  next
    case IP6
    then show ?thesis using v lim by (simp add: cidr_to_netmask_def af_to_cidr_def mk_ipv6_def del: ip_exploded.simps)
  qed
  then show ?thesis by (simp only: m_def)
qed

lemma netmask_to_cidr_exploded:
  assumes "ipa_ok a"
  shows "netmask_to_cidr (ip_exploded a) = Inr (int (hamming_weight (nat (ipa_int a))))"
  using assms exploded_no_sep [of "CHR ''/''" a]
  by (simp add: netmask_to_cidr_def ip_str_to_int_eq ip_address_exploded count_ones)

lemma hamming_weight_mask: "hamming_weight ((2 ^ c - 1) * 2 ^ z) = c"
  by (metis hamming_weight_ones hamming_weight_shift mult.commute)

lemma mask_lt: "c \<le> m \<Longrightarrow> int ((2 ^ c - 1) * 2 ^ (m - c)) < 2 ^ m"
proof -
  assume "c \<le> m"
  have "(2 ^ c - 1) * 2 ^ (m - c) < (2 ^ c * 2 ^ (m - c) :: nat)" by simp
  also have "\<dots> = 2 ^ m" using \<open>c \<le> m\<close> by (simp flip: power_add)
  finally show ?thesis by (metis of_nat_less_iff of_nat_numeral of_nat_power)
qed

text \<open>Taking the leading bits of the printed number divides by a power of two.\<close>

lemma num_val_take_bits:
  "num_val 2 (take c (num_str 2 n)) = n div 2 ^ (length (num_str 2 n) - c)"
proof (induction n rule: less_induct)
  case (less n)
  show ?case
  proof (cases "n < 2")
    case True
    then have "n = 0 \<or> n = 1" by auto
    then show ?thesis using num_val_str [of 2 0] num_val_str [of 2 1] num_val_Nil [of 2]
      by (cases c) (auto simp: num_str_small simp del: num_val_str num_val_Nil)
  next
    case False
    let ?p = "num_str 2 (n div 2)"
    have st: "num_str 2 n = ?p @ [digit_char (n mod 2)]" using False by (simp add: num_str_step)
    show ?thesis
    proof (cases "c \<le> length ?p")
      case True
      then show ?thesis
        using less [of "n div 2"] False by (simp add: st Suc_diff_le div_mult2_eq)
    next
      case False
      then show ?thesis using num_val_str [of 2 n] by (simp add: st)
    qed
  qed
qed

lemma length_num_str_2: "2 ^ k \<le> n \<Longrightarrow> n < 2 ^ Suc k \<Longrightarrow> length (num_str 2 n) = Suc k"
proof (induction k arbitrary: n)
  case 0
  then show ?case by (simp add: num_str_small)
next
  case (Suc k)
  have "1 \<le> (2 :: nat) ^ k" by simp
  then have "2 \<le> n" using Suc.prems(1) unfolding power_Suc by linarith
  moreover have "length (num_str 2 (n div 2)) = Suc k" using Suc.prems by (intro Suc.IH) auto
  ultimately show ?case by (simp add: num_str_step)
qed


lemma num_val_toggle:
  "num_val 2 (take c (num_str 2 m) @ replicate (length (num_str 2 m) - c) (if toggle then CHR ''1'' else CHR ''0'')) =
   m div 2 ^ (length (num_str 2 m) - c) * 2 ^ (length (num_str 2 m) - c) +
     (if toggle then 2 ^ (length (num_str 2 m) - c) - 1 else 0)"
proof -
  let ?k = "length (num_str 2 m) - c" and ?p = "take c (num_str 2 m)"
  have "num_val 2 (?p @ replicate ?k CHR ''1'') + 1 = (num_val 2 ?p + 1) * 2 ^ ?k"
    by (rule num_val_ones)
  moreover have "(1 :: nat) \<le> 2 ^ ?k" by simp
  ultimately have "num_val 2 (?p @ replicate ?k CHR ''1'') = num_val 2 ?p * 2 ^ ?k + (2 ^ ?k - 1)"
    unfolding add_mult_distrib mult_1 by linarith
  then show ?thesis using num_val_zeros [of ?p ?k] num_val_take_bits [of c m] by simp
qed

lemma py_take_length: "0 \<le> c \<Longrightarrow> length (py_take c xs) = min (nat c) (length xs)"
  by (simp add: py_take_def)

lemma toggle_host_bits_eq:
  assumes a: "ipa_ok a" and c: "c \<le> 128"
  shows "toggle_host_bits (CHR ''/'' # dec_str c) (ip_str a) toggle =
    (let m = nat (ipa_int a); k = length (num_str 2 m) - c;
         r = int (m div 2 ^ k * 2 ^ k + (if toggle then 2 ^ k - 1 else 0))
     in if ipa_version a = 4 then rmap ip_str (mk_ipv4 r) else rmap ip_exploded (mk_ipv6 r))"
proof -
  have noslash: "CHR ''/'' \<notin> set (dec_str c)" by (simp add: dec_str_no_sep)
  note sp = split_on_part [OF noslash]
  have tk: "py_take (int c) xs = take c xs" for xs :: string by (simp add: py_take_def)
  have ln: "length xs - length (take c xs) = length xs - c" for xs :: string by simp
  show ?thesis
    using a num_val_toggle [of c "nat (ipa_int a)" toggle]
    by (simp add: toggle_host_bits_def ip_address_str sp py_int_num_str ip_str_to_int_eq tk ln Let_def
        del: length_take)
qed

lemma parse_ipv6_of_exploded:
  "0 \<le> n \<Longrightarrow> n < 2 ^ 128 \<Longrightarrow> ipv6_address (ip_exploded (IPv6Address n)) = Inr (IPv6Address n)"
  using ip_address_exploded [of "IPv6Address n"] parse_ipv4_ok [of "ip_exploded (IPv6Address n)"]
  by (auto simp: ipv6_address_def ip_address_def rcatch_def split: sum.splits simp del: ip_exploded.simps)

lemma link_local_prefix:
  "int (num_val 2 (''111111101'' @ replicate 55 CHR ''0'' @ replicate 64 CHR ''0'')) = 0xFE80000000000000 * 2 ^ 64"
  by (simp only: num_val_zeros append_assoc [symmetric]) (simp add: eval_simps)

lemma link_local_eq:
  "ipv6_rand_link_local e =
   Inr (ip_exploded (IPv6Address (0xFE80000000000000 * 2 ^ 64 + int e mod 2 ^ 64)))"
proof -
  let ?p = "0xFE80000000000000 * 2 ^ 64 :: int"
  have h: "0 \<le> int e mod 2 ^ 64" "int e mod 2 ^ 64 < 2 ^ 64" by simp_all
  have ok: "ipa_ok (IPv6Address (?p + int e mod 2 ^ 64))" "ipa_ok (IPv6Address ?p)" using h by simp_all
  have host: "ipv6_rand_host e (ip_exploded (IPv6Address ?p)) 64 =
      Inr (ip_exploded (IPv6Address (?p + int e mod 2 ^ 64)))"
    using ok(1) h parse_ipv6_of_exploded [of ?p] ip_norm_str [OF ok(1)]
    by (simp add: ipv6_rand_host_def randrange_def mk_ipv6_def del: ip_exploded.simps ip_str.simps)
  have "mk_ipv6 ?p = Inr (IPv6Address ?p)" by (simp add: mk_ipv6_def)
  moreover have "ipv6_norm (IpStr (ip_str (IPv6Address ?p))) = Inr (ip_exploded (IPv6Address ?p))"
    using ip_address_str [OF ok(2)] by (simp add: ipv6_norm_eq del: ip_exploded.simps ip_str.simps)
  ultimately show ?thesis
    unfolding ipv6_rand_link_local_def Let_def link_local_prefix
    using host by (simp add: rassert_def del: ip_exploded.simps ip_str.simps)
qed

section \<open>Properties\<close>

text \<open>\<open>ip_norm\<close> computes a normal form: whatever valid text, integer or address object it is
  given, normalising its result changes nothing, and two inputs have the same normal form exactly
  when they denote the same address.\<close>

theorem ip_norm_canonical:
  assumes "ip_arg_ok x" and "ip_arg_ok y" and "ip_norm x = Inr s" and "ip_norm y = Inr t"
  shows "ip_norm (IpStr s) = Inr s \<and>
         (s = t \<longleftrightarrow> ip_f (ip_strip_cidr (ip_strip_if x)) = ip_f (ip_strip_cidr (ip_strip_if y)))"
proof -
  obtain a where a: "ipa_ok a" "ip_f (ip_strip_cidr (ip_strip_if x)) = Inr a" "s = ip_exploded a"
    using ip_norm_Ok [OF assms(1,3)] by blast
  obtain b where b: "ipa_ok b" "ip_f (ip_strip_cidr (ip_strip_if y)) = Inr b" "t = ip_exploded b"
    using ip_norm_Ok [OF assms(2,4)] by blast
  show ?thesis
    using a b ip_norm_exploded [OF a(1)] ip_exploded_inj [OF a(1) b(1)] by auto
qed

theorem ip_norm_canonical_witness:
  "ip_norm (IpStr ''0000:0000:0000:0000:0000:0000:0000:0001'') =
     Inr ''0000:0000:0000:0000:0000:0000:0000:0001'' \<and>
   ip_f (ip_strip_cidr (ip_strip_if (IpStr ''::1%eth0''))) =
     ip_f (ip_strip_cidr (ip_strip_if (IpStr ''0:0:0:0:0:0:0:1/128'')))"
proof -
  have "ip_norm (IpStr ''::1%eth0'') = Inr ''0000:0000:0000:0000:0000:0000:0000:0001''"
    by (simp add: ip_norm_def ipv6_norm_eq eval_simps)
  moreover have "ip_norm (IpStr ''0:0:0:0:0:0:0:1/128'') = Inr ''0000:0000:0000:0000:0000:0000:0000:0001''"
    by (simp add: ip_norm_def ipv6_norm_eq eval_simps)
  ultimately show ?thesis
    using ip_norm_canonical [of "IpStr ''::1%eth0''" "IpStr ''0:0:0:0:0:0:0:1/128''"] by fastforce
qed

text \<open>C28: \<open>netmask_to_cidr\<close> undoes \<open>cidr_to_netmask\<close> for every prefix length of both families, and
  its count of the ones in \<open>bin(n)\<close> is the Hamming weight that \<open>IPRange\<close> computes instead.\<close>

theorem netmask_cidr_roundtrip:
  assumes "0 \<le> c" and "c \<le> int (af_to_cidr af)"
  shows "\<exists>n. cidr_to_netmask c af = Inr (ip_exploded (mk_ipa af n)) \<and> ipa_ok (mk_ipa af n) \<and>
             hamming_weight (nat n) = nat c \<and>
             netmask_to_cidr (ip_exploded (mk_ipa af n)) = Inr c"
proof -
  define m where "m = ((2 ^ nat c - 1) * 2 ^ (af_to_cidr af - nat c) :: nat)"
  have "int m < 2 ^ af_to_cidr af"
    using mask_lt [of "nat c" "af_to_cidr af"] assms unfolding m_def by linarith
  then have ok: "ipa_ok (mk_ipa af (int m))" by (cases af) (simp_all add: af_to_cidr_def)
  have hw: "hamming_weight m = nat c" unfolding m_def by (rule hamming_weight_mask)
  have i: "ipa_int (mk_ipa af (int m)) = int m" by (cases af) auto
  show ?thesis
    using cidr_to_netmask_eq [OF assms, folded m_def] netmask_to_cidr_exploded [OF ok] ok hw i assms(1)
    by (intro exI [of _ "int m"]) simp
qed

theorem netmask_cidr_roundtrip_witness:
  "\<exists>n. cidr_to_netmask 24 IP4 = Inr (ip_exploded (mk_ipa IP4 n)) \<and> ipa_ok (mk_ipa IP4 n) \<and>
       hamming_weight (nat n) = nat 24 \<and> netmask_to_cidr (ip_exploded (mk_ipa IP4 n)) = Inr 24"
  by (rule netmask_cidr_roundtrip) (simp_all add: af_to_cidr_def)

text \<open>For an IPv4 address whose top bit is set, \<open>toggle_host_bits\<close> gives the network address
  (\<open>toggle=0\<close>) or the broadcast address (\<open>toggle=1\<close>) of its subnet.\<close>

theorem toggle_host_bits_high:
  assumes "2 ^ 31 \<le> n" and "n < 2 ^ 32" and "c \<le> 32"
  shows "toggle_host_bits (CHR ''/'' # dec_str c) (ip_str (IPv4Address n)) toggle =
    Inr (ip_str (IPv4Address (n div 2 ^ (32 - c) * 2 ^ (32 - c) + (if toggle then 2 ^ (32 - c) - 1 else 0))))"
proof -
  have ok: "ipa_ok (IPv4Address n)" using assms by simp
  define m where "m = nat n"
  have n: "n = int m" using assms by (simp add: m_def)
  have L: "length (num_str 2 m) = 32"
    using length_num_str_2 [of 31 m] assms by (simp add: n)
  let ?k = "32 - c"
  let ?r = "m div 2 ^ ?k * 2 ^ ?k + (if toggle then 2 ^ ?k - 1 else 0)"
  have "m div 2 ^ ?k < 2 ^ c"
    using assms(2,3) by (simp add: n less_mult_imp_div_less flip: power_add)
  then have "(m div 2 ^ ?k + 1) * 2 ^ ?k \<le> 2 ^ c * 2 ^ ?k" by (intro mult_le_mono1) simp
  also have "(2 :: nat) ^ c * 2 ^ ?k = 2 ^ 32" using assms(3) by (simp flip: power_add)
  finally have "m div 2 ^ ?k * 2 ^ ?k + 2 ^ ?k \<le> 2 ^ 32" by simp
  moreover have "(1 :: nat) \<le> 2 ^ ?k" by simp
  ultimately have "?r < 2 ^ 32" by (cases toggle; simp only: if_True if_False; linarith)
  then have lt: "int ?r < 2 ^ 32" by (metis of_nat_less_iff of_nat_numeral of_nat_power)
  have e: "int ?r = n div 2 ^ ?k * 2 ^ ?k + (if toggle then 2 ^ ?k - 1 else 0)"
    by (simp add: n zdiv_int of_nat_diff)
  have "mk_ipv4 (int ?r) = Inr (IPv4Address (int ?r))" using lt by (simp add: mk_ipv4_def)
  then have "toggle_host_bits (CHR ''/'' # dec_str c) (ip_str (IPv4Address n)) toggle =
      Inr (ip_str (IPv4Address (int ?r)))"
    using toggle_host_bits_eq [OF ok, of c toggle] assms(3)
    unfolding Let_def ipa_int.simps m_def [symmetric] L ipa_version.simps by (simp only:) simp
  then show ?thesis unfolding e .
qed

theorem toggle_host_bits_high_witness:
  "toggle_host_bits (CHR ''/'' # dec_str 24) (ip_str (IPv4Address 0xC0A80001)) True =
    Inr (ip_str (IPv4Address (0xC0A80001 div 2 ^ (32 - 24) * 2 ^ (32 - 24) + (if True then 2 ^ (32 - 24) - 1 else 0))))"
  by (rule toggle_host_bits_high) simp_all

text \<open>For addresses below 128.0.0.0 the prefix is counted from the leading one bit, because
  \<open>bin\<close> drops leading zeros: the broadcast address of 10.0.0.1/24 comes out as 10.0.0.15, where
  192.168.0.1/24 gives 192.168.0.255.\<close>

theorem broadcast_ip_leading_zeros:
  "get_broadcast_ip ''255.255.255.0'' ''10.0.0.1'' = Inr ''10.0.0.15'' \<and>
   get_broadcast_ip ''255.255.255.0'' ''192.168.0.1'' = Inr ''192.168.0.255'' \<and>
   toggle_host_bits ''255.255.255.0'' ''1.2.3.4'' False = Inr ''1.2.3.4''"
  by (simp_all add: eval_simps get_broadcast_ip_def toggle_host_bits_def netmask_to_cidr_def
      ip_str_to_int_eq Let_def py_take_def mk_ipv4_def)

text \<open>\<open>ipv6_rand_link_local\<close> always returns an address of fe80::/64, and every address of that
  network is returned for some random draw.\<close>

theorem ipv6_rand_link_local_range:
  "(\<exists>h. 0 \<le> h \<and> h < 2 ^ 64 \<and>
      ipv6_rand_link_local e = Inr (ip_exploded (IPv6Address (0xFE80000000000000 * 2 ^ 64 + h)))) \<and>
   (\<forall>h. 0 \<le> h \<and> h < 2 ^ 64 \<longrightarrow>
      ipv6_rand_link_local (nat h) = Inr (ip_exploded (IPv6Address (0xFE80000000000000 * 2 ^ 64 + h))))"
proof (intro conjI allI impI)
  show "\<exists>h. 0 \<le> h \<and> h < 2 ^ 64 \<and>
      ipv6_rand_link_local e = Inr (ip_exploded (IPv6Address (0xFE80000000000000 * 2 ^ 64 + h)))"
    by (intro exI [of _ "int e mod 2 ^ 64"] conjI) (simp_all add: link_local_eq del: ip_exploded.simps)
next
  fix h :: int assume "0 \<le> h \<and> h < 2 ^ 64"
  then show "ipv6_rand_link_local (nat h) = Inr (ip_exploded (IPv6Address (0xFE80000000000000 * 2 ^ 64 + h)))"
    by (simp add: link_local_eq del: ip_exploded.simps)
qed

theorem ipv6_rand_link_local_range_witness:
  "ipv6_rand_link_local 1 = Inr ''fe80:0000:0000:0000:0000:0000:0000:0001''"
proof -
  have "ip_exploded (IPv6Address (0xFE80000000000000 * 2 ^ 64 + 1)) =
      ''fe80:0000:0000:0000:0000:0000:0000:0001''" by (simp add: eval_simps)
  then show ?thesis
    using ipv6_rand_link_local_range [THEN conjunct2, rule_format, of 1] by (simp del: ip_exploded.simps)
qed

end
