(* ===== verification/Ip_Range.thy ===== *)
theory Ip_Range
  imports Ip_Net
begin

text \<open>
  \<^verbatim>\<open>net/ip_range.py\<close>: the \<open>IPRange\<close> class, which stands for one address or a subnet, its
  constructor, indexing, iteration, comparison and serialised form, and the checks built on it.
\<close>

section \<open>The class\<close>

definition CIDR_WAN :: int where
  "CIDR_WAN = 1000"

record iprange =
  ipr_ip :: ip_arg
  ipr_netmask :: "ip_arg option"
  ipr_af :: af
  ipr_ipa :: ipa
  ipr_cidr :: int
  ipr_i_ip :: int
  ipr_i_host :: int
  ipr_i_nw :: int
  ipr_host_no :: int
  ipr_is_private :: bool
  ipr_is_public :: bool
  ipr_r :: "int \<times> int"

text \<open>The first lines of the constructor: the normalised mask, the family and the address.\<close>

definition ipr_norm_netmask :: "ip_arg option \<Rightarrow> ip_arg option res" where
  "ipr_norm_netmask netmask =
     (case netmask of
        Some (IpStr s) \<Rightarrow> rbind (ip_norm (IpStr s)) (\<lambda>t. Ok (Some (IpStr t)))
      | _ \<Rightarrow> Ok netmask)"

definition ipr_int_af :: "ip_arg \<Rightarrow> ip_arg option \<Rightarrow> af option res" where
  "ipr_int_af ip netmask =
     (case ip of
        IpInt n \<Rightarrow> (if n < 2 ^ 31
                     then (case netmask of
                             None \<Rightarrow> Err (PyException ''Ambiguous ip int AF.'')
                           | Some m \<Rightarrow> rbind (ip_f m) (\<lambda>a. Ok (Some (v_to_af (ipa_version a)))))
                     else Ok None)
      | _ \<Rightarrow> Ok None)"

definition ipr_parse_ip :: "ip_arg \<Rightarrow> af option \<Rightarrow> (ip_arg \<times> ipa \<times> af) res" where
  "ipr_parse_ip ip af =
     rbind (case ip of IpStr s \<Rightarrow> rmap IpStr (ip_norm (IpStr s)) | _ \<Rightarrow> Ok ip) (\<lambda>self_ip.
       case af of
         Some f \<Rightarrow> rbind (case self_ip of IpInt n \<Rightarrow> (if f = IP4 then mk_ipv4 n else mk_ipv6 n)
                                       | _ \<Rightarrow> ip_f self_ip) (\<lambda>a. Ok (self_ip, a, f))
       | None \<Rightarrow> rbind (ip_f self_ip) (\<lambda>a. Ok (self_ip, a, v_to_af (ipa_version a))))"

text \<open>\<open>cidr\<close> and \<open>netmask\<close> of the object: one is computed from the other.\<close>

definition ipr_mask :: "int option \<Rightarrow> af \<Rightarrow> ip_arg option \<Rightarrow> (int \<times> ip_arg option) res" where
  "ipr_mask cidr af self_netmask =
     rbind (case cidr of
              Some c \<Rightarrow> (if c \<noteq> 0
                         then (let c = (if c = CIDR_WAN then int (af_to_cidr af) else c)
                               in rbind (cidr_to_netmask c af) (\<lambda>m. Ok (c, Some (IpStr m))))
                         else Ok (c, self_netmask))
            | None \<Rightarrow> (case self_netmask of
                         Some m \<Rightarrow> rbind (ip_f m) (\<lambda>a. Ok (int (hamming_weight (nat (ipa_int a))), self_netmask))
                       | None \<Rightarrow> Err AttributeError))
       (\<lambda>(c, m). if c = 0
                 then Ok (c, Some (IpStr (if af = IP4 then ZERO_NETMASK_IP4 else ZERO_NETMASK_IP6)))
                 else Ok (c, m))"

text \<open>The numeric fields: host bits, network value, number of hosts, and the range.\<close>

definition ipr_fields :: "ip_arg \<Rightarrow> ipa \<Rightarrow> af \<Rightarrow> int \<Rightarrow> ip_arg option \<Rightarrow> iprange" where
  "ipr_fields self_ip a af cidr m =
     (let max_bits = int (af_to_cidr af);
          host_bit_len = max_bits - cidr;
          i_host = (if host_bit_len \<noteq> 0 then get_bits (ipa_int a) (nat host_bit_len) 0 else 0);
          i_ip = ipa_int a - i_host;
          i_nw = i_ip;
          host_no = (if host_bit_len \<noteq> 0 \<and> host_bit_len \<noteq> max_bits
                     then 2 ^ nat host_bit_len - 1 else 1);
          is_private = ipa_is_private a;
          public = (\<not> is_private \<or> i_ip = 0 \<or>
                    self_ip \<in> {IpStr (BLACK_HOLE_IPS IP4), IpStr (BLACK_HOLE_IPS IP6)})
      in \<lparr>ipr_ip = self_ip, ipr_netmask = m, ipr_af = af, ipr_ipa = a, ipr_cidr = cidr,
          ipr_i_ip = i_ip, ipr_i_host = i_host, ipr_i_nw = i_nw, ipr_host_no = host_no,
          ipr_is_private = \<not> public, ipr_is_public = public,
          ipr_r = (if cidr = max_bits then (i_nw, i_nw) else (i_nw, i_nw + host_no))\<rparr>)"

definition IPRange :: "ip_arg \<Rightarrow> ip_arg option \<Rightarrow> int option \<Rightarrow> iprange res" where
  "IPRange ip netmask cidr =
     (let cidr = (if netmask \<noteq> None \<and> cidr \<noteq> None then None else cidr)
      in rbind (rassert (netmask \<noteq> None \<or> cidr \<noteq> None)) (\<lambda>_.
         rbind (rassert (Some ip \<noteq> netmask)) (\<lambda>_.
         rbind (ipr_norm_netmask netmask) (\<lambda>self_netmask.
         rbind (ipr_int_af ip netmask) (\<lambda>af.
         rbind (ipr_parse_ip ip af) (\<lambda>(self_ip, a, af).
         rbind (ipr_mask cidr af self_netmask) (\<lambda>(c, m).
         rbind (rassert (c \<le> int (af_to_cidr af))) (\<lambda>_.
         let ipr = ipr_fields self_ip a af c m
         in rbind (rassert (ipr_host_no ipr \<noteq> 0)) (\<lambda>_. Ok ipr)))))))))"

section \<open>Indexing and iteration\<close>

text \<open>\<open>__len__\<close>: CPython's \<open>len\<close> raises when the result does not fit a signed machine word.\<close>

definition ipr_len :: "iprange \<Rightarrow> int res" where
  "ipr_len ipr = (if ipr_host_no ipr < 2 ^ 63 then Ok (ipr_host_no ipr) else Err OverflowError)"

definition ipr_ip_f :: "af \<Rightarrow> int \<Rightarrow> ipa res" where
  "ipr_ip_f af n = (if af = IP4 then mk_ipv4 n else mk_ipv6 n)"

definition get_value :: "iprange \<Rightarrow> int \<Rightarrow> ipa res" where
  "get_value ipr i =
     (if ipr_cidr ipr = int (af_to_cidr (ipr_af ipr)) then ipr_ip_f (ipr_af ipr) (ipr_i_nw ipr)
      else (let offset = (if i < 0 then i else i + 1);
                m = offset mod (ipr_host_no ipr + 1);
                i_host = (if m = 0 then 1 else m)
            in ipr_ip_f (ipr_af ipr) (ipr_i_nw ipr + i_host)))"

text \<open>\<open>slice.indices(len)\<close> and \<open>range\<close>, for a slice with optional bounds and step.\<close>

definition slice_bound :: "int \<Rightarrow> int \<Rightarrow> int \<Rightarrow> int \<Rightarrow> int" where
  "slice_bound len lower upper v =
     (let v = (if v < 0 then v + len else v) in if v < lower then lower else if v > upper then upper else v)"

definition slice_indices :: "int option \<Rightarrow> int option \<Rightarrow> int option \<Rightarrow> int \<Rightarrow> (int \<times> int \<times> int) res" where
  "slice_indices start stop step len =
     (let step = (case step of None \<Rightarrow> 1 | Some s \<Rightarrow> s);
          lower = (if step < 0 then -1 else 0);
          upper = (if step < 0 then len - 1 else len)
      in if step = 0 then Err ValueError
         else Ok (case start of None \<Rightarrow> (if step < 0 then upper else lower)
                              | Some v \<Rightarrow> slice_bound len lower upper v,
                  case stop of None \<Rightarrow> (if step < 0 then lower else upper)
                             | Some v \<Rightarrow> slice_bound len lower upper v,
                  step))"

definition py_range :: "int \<Rightarrow> int \<Rightarrow> int \<Rightarrow> int list" where
  "py_range start stop step =
     (let n = (if step > 0 then (stop - start + step - 1) div step else (start - stop - step - 1) div (- step))
      in map (\<lambda>k. start + int k * step) [0..<nat n])"

datatype ipr_key = KeyInt int | KeySlice "int option" "int option" "int option" | KeyTuple "int list"

datatype ipr_item = OneIp ipa | ManyIps "ipa list"

fun ipr_getitem :: "iprange \<Rightarrow> ipr_key \<Rightarrow> ipr_item res" where
  "ipr_getitem ipr (KeyInt i) = rmap OneIp (get_value ipr i)"
| "ipr_getitem ipr (KeySlice start stop step) =
     rbind (ipr_len ipr) (\<lambda>len.
     rbind (slice_indices start stop step len) (\<lambda>(a, b, s).
       rmap ManyIps (rmap_list (get_value ipr) (py_range a b s))))"
| "ipr_getitem ipr (KeyTuple is) = rmap ManyIps (rmap_list (get_value ipr) is)"

text \<open>\<open>IPRangeIter.__next__\<close>: None is StopIteration; the new cursor is returned.\<close>

definition ipr_iter_next :: "iprange \<Rightarrow> bool \<Rightarrow> int \<Rightarrow> (ipa \<times> int) option res" where
  "ipr_iter_next ipr reverse host_p =
     (if host_p \<ge> ipr_host_no ipr then Ok None
      else rbind (if \<not> reverse then get_value ipr host_p
                  else rbind (ipr_len ipr) (\<lambda>n. get_value ipr (n - 1 - host_p)))
             (\<lambda>a. Ok (Some (a, host_p + 1))))"

text \<open>\<open>for ip in ipr\<close> for at most \<open>fuel\<close> rounds.\<close>

fun ipr_iterate :: "iprange \<Rightarrow> bool \<Rightarrow> nat \<Rightarrow> int \<Rightarrow> ipa list res" where
  "ipr_iterate ipr reverse 0 host_p = Ok []"
| "ipr_iterate ipr reverse (Suc fuel) host_p =
     rbind (ipr_iter_next ipr reverse host_p) (\<lambda>r.
       case r of None \<Rightarrow> Ok []
       | Some (a, p) \<Rightarrow> rbind (ipr_iterate ipr reverse fuel p) (\<lambda>l. Ok (a # l)))"

section \<open>Text, arithmetic, comparison, serialisation\<close>

definition ipr_norm :: "iprange \<Rightarrow> string res" where
  "ipr_norm ipr = rbind (get_value ipr 0) (\<lambda>a. ip_norm (IpStr (ip_str a)))"

definition ipr_int :: "iprange \<Rightarrow> int" where
  "ipr_int ipr = ipr_i_nw ipr + ipr_i_host ipr"

definition ipr_bytes :: "iprange \<Rightarrow> bytes res" where
  "ipr_bytes ipr =
     (let k = (if ipr_af ipr = IP4 then 4 else 16) in
      if 0 \<le> ipr_int ipr \<and> ipr_int ipr < 256 ^ k then Ok (be_enc k (nat (ipr_int ipr))) else Err OverflowError)"

text \<open>
  What the operators accept on the right: a range, an integer, text, or an address object.
  \<open>raise NotImplemented(...)\<close> for the last two is a TypeError, as that constant is not callable.
\<close>

datatype ipr_other = OtherRange iprange | OtherInt int | OtherText string | OtherAddr ipa

fun ipr_add :: "iprange \<Rightarrow> ipr_other \<Rightarrow> ipa res" where
  "ipr_add ipr (OtherRange n) = get_value ipr (ipr_i_host n)"
| "ipr_add ipr (OtherInt n) = get_value ipr n"
| "ipr_add ipr _ = Err TypeError"

fun ipr_sub :: "iprange \<Rightarrow> ipr_other \<Rightarrow> ipa res" where
  "ipr_sub ipr (OtherRange n) = get_value ipr (- ipr_i_host n)"
| "ipr_sub ipr (OtherInt n) = get_value ipr (- n)"
| "ipr_sub ipr _ = Err TypeError"

fun convert_other :: "ipr_other \<Rightarrow> iprange res" where
  "convert_other (OtherRange x) = Ok x"
| "convert_other (OtherInt n) = rbind (ip_f (IpInt n)) (\<lambda>a. IPRange (IpObj a) None (Some CIDR_WAN))"
| "convert_other (OtherText s) = rbind (ip_f (IpStr s)) (\<lambda>a. IPRange (IpObj a) None (Some CIDR_WAN))"
| "convert_other (OtherAddr a) = IPRange (IpObj a) None (Some CIDR_WAN)"

definition ipr_eq :: "iprange \<Rightarrow> ipr_other \<Rightarrow> bool res" where
  "ipr_eq ipr other = rbind (convert_other other) (\<lambda>o'. Ok (range_intersects (ipr_r ipr) (ipr_r o')))"

definition ipr_lt :: "iprange \<Rightarrow> ipr_other \<Rightarrow> bool res" where
  "ipr_lt ipr other = rbind (convert_other other) (\<lambda>o'. Ok (snd (ipr_r ipr) < snd (ipr_r o')))"

definition ipr_contains :: "iprange \<Rightarrow> ipr_other \<Rightarrow> bool res" where
  "ipr_contains ipr item = ipr_eq ipr item"

record ipr_dict =
  d_ip :: ip_arg
  d_cidr :: int
  d_af :: af

definition to_dict :: "iprange \<Rightarrow> ipr_dict" where
  "to_dict ipr = \<lparr>d_ip = ipr_ip ipr, d_cidr = ipr_cidr ipr, d_af = ipr_af ipr\<rparr>"

definition from_dict :: "ipr_dict \<Rightarrow> iprange res" where
  "from_dict d = IPRange (d_ip d) None (Some (d_cidr d))"

definition ipr_deepcopy :: "iprange \<Rightarrow> iprange res" where
  "ipr_deepcopy ipr = IPRange (ipr_ip ipr) (ipr_netmask ipr) (Some (ipr_cidr ipr))"

definition IPR :: "ip_arg \<Rightarrow> af \<Rightarrow> iprange res" where
  "IPR ip af = IPRange ip None (Some (int (af_to_cidr af)))"

text \<open>
  \<open>ensure_ip_is_public\<close> passes \<open>af_to_cidr(af)\<close> in second position, where the constructor
  takes the netmask.
\<close>

definition ensure_ip_is_public :: "string \<Rightarrow> string res" where
  "ensure_ip_is_public s =
     rbind (ip_norm (IpStr s)) (\<lambda>ip.
       let af = (if CHR ''.'' \<in> set ip then IP4 else IP6)
       in rbind (IPRange (IpStr ip) (Some (IpInt (int (af_to_cidr af)))) (Some CIDR_WAN)) (\<lambda>ipr.
          if ipr_is_private ipr then Err (PyException ''IP must be public.'') else Ok ip))"

text \<open>
  \<open>ipr_in_interfaces\<close>: the interfaces are given by their route lists for the family of the
  needle, a route by its external and NIC address lists.
\<close>

datatype ip_mode = IP_PUBLIC | IP_PRIVATE

fun ipr_in_list :: "iprange \<Rightarrow> iprange list \<Rightarrow> bool" where
  "ipr_in_list needle [] = False"
| "ipr_in_list needle (hey # l) = (range_intersects (ipr_r hey) (ipr_r needle) \<or> ipr_in_list needle l)"

definition ipr_in_interfaces :: "iprange \<Rightarrow> (af \<Rightarrow> (iprange list \<times> iprange list) list) list \<Rightarrow> ip_mode \<Rightarrow> bool" where
  "ipr_in_interfaces needle if_list mode =
     list_ex (\<lambda>rp. list_ex (\<lambda>(ext_ips, nic_ips).
        ipr_in_list needle (if mode = IP_PUBLIC then ext_ips else nic_ips)) (rp (ipr_af needle))) if_list"

section \<open>What the constructor establishes\<close>

definition ipr_max :: "iprange \<Rightarrow> int" where
  "ipr_max r = int (af_to_cidr (ipr_af r))"

definition ipr_hosts :: "iprange \<Rightarrow> int" where
  "ipr_hosts r = 2 ^ nat (ipr_max r - ipr_cidr r)"

text \<open>The object describes the subnet of its address: the class invariant.\<close>

definition ipr_wf :: "iprange \<Rightarrow> bool" where
  "ipr_wf r \<longleftrightarrow>
     ipa_ok (ipr_ipa r) \<and> ipr_af r = ipa_af (ipr_ipa r) \<and> 0 \<le> ipr_cidr r \<and> ipr_cidr r \<le> ipr_max r \<and>
     ipr_i_ip r = ipr_i_nw r \<and> ipr_i_nw r = ipa_int (ipr_ipa r) div ipr_hosts r * ipr_hosts r \<and>
     ipr_i_host r = ipa_int (ipr_ipa r) mod ipr_hosts r \<and>
     ipr_host_no r = (if ipr_cidr r = ipr_max r \<or> ipr_cidr r = 0 then 1 else ipr_hosts r - 1) \<and>
     ipr_r r = (ipr_i_nw r, if ipr_cidr r = ipr_max r then ipr_i_nw r else ipr_i_nw r + ipr_host_no r) \<and>
     ipr_is_public r = (\<not> ipr_is_private r)"

definition cidr_arg_ok :: "int option \<Rightarrow> bool" where
  "cidr_arg_ok cidr = (case cidr of None \<Rightarrow> True | Some c \<Rightarrow> 0 \<le> c)"

lemma ipr_fields_wf:
  assumes "ipa_ok a" "af = ipa_af a" "0 \<le> c" "c \<le> int (af_to_cidr af)"
  shows "ipr_wf (ipr_fields self_ip a af c m)"
  using assms
  by (auto simp: ipr_wf_def ipr_fields_def ipr_max_def ipr_hosts_def Let_def get_bits_mod minus_mod_eq_div_mult)

lemma af_not_IP4 [simp]: "af \<noteq> IP4 \<longleftrightarrow> af = IP6"
  by (cases af) auto

lemma ipr_parse_ip_Ok:
  assumes "ip_arg_ok ip" "ipr_int_af ip nm = Inr fam" "ipr_parse_ip ip fam = Inr (self_ip, a, af)"
  shows "ipa_ok a \<and> af = ipa_af a \<and>
    (case ip of IpStr s \<Rightarrow> self_ip = IpStr (ip_exploded a) | _ \<Rightarrow> self_ip = ip)"
proof (cases ip)
  case (IpStr s)
  then have fam: "fam = None" using assms(2) by (simp add: ipr_int_af_def)
  obtain t where t: "ip_norm (IpStr s) = Inr t" "self_ip = IpStr t" "ip_f (IpStr t) = Inr a" "af = v_to_af (ipa_version a)"
    using assms(3) IpStr fam by (cases "ip_norm (IpStr s)") (auto simp: ipr_parse_ip_def rbind_eq_Ok)
  obtain b where b: "ipa_ok b" "t = ip_exploded b" using ip_norm_Ok [of "IpStr s" t] t(1) by auto
  then have "a = b" using t(3) ip_address_exploded [OF b(1)] by simp
  then show ?thesis using t b IpStr by (simp add: ipa_af_def)
next
  case (IpInt n)
  then show ?thesis using assms
    by (auto simp: ipr_parse_ip_def rbind_eq_Ok ipa_af_def v_to_af_def mk_ipv4_def mk_ipv6_def
        dest: ip_of_int_ok split: option.splits if_splits)
next
  case (IpObj b)
  then show ?thesis using assms by (auto simp: ipr_parse_ip_def ipr_int_af_def ipa_af_def)
qed

lemma ipr_mask_Ok:
  assumes "ipr_mask cidr af nm = Inr (c, m)" "cidr_arg_ok cidr"
  shows "0 \<le> c"
  using assms
  by (auto simp: ipr_mask_def rbind_eq_Ok cidr_arg_ok_def Let_def split: option.splits if_splits)

lemma IPRange_Ok:
  assumes "IPRange ip nm cidr = Inr r" "ip_arg_ok ip" "cidr_arg_ok cidr"
  obtains self_ip a af c m where
    "r = ipr_fields self_ip a af c m" "ipa_ok a" "af = ipa_af a" "0 \<le> c" "c \<le> int (af_to_cidr af)"
    "case ip of IpStr s \<Rightarrow> self_ip = IpStr (ip_exploded a) | _ \<Rightarrow> self_ip = ip"
    "ipr_mask (if nm \<noteq> None \<and> cidr \<noteq> None then None else cidr) af (projr (ipr_norm_netmask nm)) = Inr (c, m)"
proof -
  let ?cidr = "if nm \<noteq> None \<and> cidr \<noteq> None then None else cidr"
  obtain snm fam self_ip a af c m where
    e: "ipr_norm_netmask nm = Inr snm" "ipr_int_af ip nm = Inr fam" "ipr_parse_ip ip fam = Inr (self_ip, a, af)"
    "ipr_mask ?cidr af snm = Inr (c, m)" "c \<le> int (af_to_cidr af)" "r = ipr_fields self_ip a af c m"
    using assms(1) unfolding IPRange_def Let_def by (force simp: rbind_eq_Ok simp del: not_None_eq)
  moreover have "cidr_arg_ok ?cidr" using assms(3) by (simp add: cidr_arg_ok_def)
  ultimately show thesis
    using ipr_parse_ip_Ok [OF assms(2) e(2,3)] ipr_mask_Ok [OF e(4)]
    by (intro that [of self_ip a af c m]) auto
qed

lemma IPRange_wf: "IPRange ip nm cidr = Inr r \<Longrightarrow> ip_arg_ok ip \<Longrightarrow> cidr_arg_ok cidr \<Longrightarrow> ipr_wf r"
  by (erule IPRange_Ok) (auto intro: ipr_fields_wf)

lemma ipa_bound: "ipa_ok a \<Longrightarrow> 0 \<le> ipa_int a \<and> ipa_int a < 2 ^ af_to_cidr (ipa_af a)"
  by (cases a) (auto simp: ipa_af_def v_to_af_def af_to_cidr_def)

lemma ipr_ip_f_Ok: "0 \<le> n \<Longrightarrow> n < 2 ^ af_to_cidr af \<Longrightarrow> ipr_ip_f af n = Inr (mk_ipa af n)"
  by (cases af) (auto simp: ipr_ip_f_def mk_ipv4_def mk_ipv6_def af_to_cidr_def)

lemma block_top:
  "0 \<le> n \<Longrightarrow> n < 2 ^ (k + j) \<Longrightarrow>
   0 \<le> n div 2 ^ k * 2 ^ k \<and> n div 2 ^ k * 2 ^ k + 2 ^ k \<le> (2 :: int) ^ (k + j)"
proof -
  assume n: "0 \<le> n" "n < 2 ^ (k + j)"
  have p: "(0 :: int) < 2 ^ k" by simp
  have d: "0 \<le> n div 2 ^ k" using n(1) p by (simp only: pos_imp_zdiv_nonneg_iff)
  have "n div 2 ^ k * 2 ^ k \<le> n"
    using pos_mod_sign [OF p, of n] minus_mod_eq_div_mult [of n "2 ^ k"] by linarith
  moreover have "n < 2 ^ j * 2 ^ k" using n by (simp add: power_add mult.commute)
  ultimately have "n div 2 ^ k * 2 ^ k < 2 ^ j * 2 ^ k" by (rule le_less_trans)
  then have "n div 2 ^ k < 2 ^ j" by simp
  then have "(n div 2 ^ k + 1) * 2 ^ k \<le> (2 :: int) ^ j * 2 ^ k" by (intro mult_right_mono) auto
  then have "n div 2 ^ k * 2 ^ k + 2 ^ k \<le> (2 :: int) ^ (k + j)" by (simp add: power_add algebra_simps)
  with d show ?thesis by simp
qed

text \<open>Every address of the subnet fits the family.\<close>

lemma ipr_block:
  assumes "ipr_wf r"
  shows "0 \<le> ipr_i_nw r \<and> ipr_i_nw r + ipr_hosts r \<le> 2 ^ af_to_cidr (ipr_af r)"
proof -
  let ?n = "ipa_int (ipr_ipa r)" and ?k = "nat (ipr_max r - ipr_cidr r)"
  have n: "0 \<le> ?n" "?n < 2 ^ af_to_cidr (ipr_af r)"
    using ipa_bound [of "ipr_ipa r"] assms by (auto simp: ipr_wf_def)
  have "af_to_cidr (ipr_af r) = ?k + nat (ipr_cidr r)"
    using assms by (auto simp: ipr_wf_def ipr_max_def)
  then show ?thesis
    using block_top [of ?n ?k "nat (ipr_cidr r)"] n assms by (auto simp: ipr_wf_def ipr_hosts_def)
qed

lemma ipr_hosts_ge_2: "ipr_cidr r < ipr_max r \<Longrightarrow> 2 \<le> ipr_hosts r"
proof -
  assume "ipr_cidr r < ipr_max r"
  then have "(2 :: int) ^ 1 \<le> 2 ^ nat (ipr_max r - ipr_cidr r)" by (intro power_increasing) auto
  then show ?thesis by (simp add: ipr_hosts_def)
qed

lemma ipr_host_no_pos: "ipr_wf r \<Longrightarrow> 0 < ipr_host_no r \<and> (ipr_cidr r < ipr_max r \<longrightarrow> ipr_host_no r < ipr_hosts r)"
  using ipr_hosts_ge_2 [of r] by (auto simp: ipr_wf_def)

lemma get_value_wf:
  assumes wf: "ipr_wf r" and c: "ipr_cidr r < ipr_max r"
  shows "get_value r i = Inr (mk_ipa (ipr_af r) (ipr_i_nw r +
    (let m = (if i < 0 then i else i + 1) mod (ipr_host_no r + 1) in if m = 0 then 1 else m)))"
proof -
  define m where "m = (if i < 0 then i else i + 1) mod (ipr_host_no r + 1)"
  have h: "0 < ipr_host_no r" "ipr_host_no r < ipr_hosts r" using ipr_host_no_pos [OF wf] c by auto
  have p: "0 < ipr_host_no r + 1" using h by simp
  have "0 \<le> m" "m < ipr_host_no r + 1" unfolding m_def by (rule pos_mod_sign [OF p], rule pos_mod_bound [OF p])
  then have "ipr_ip_f (ipr_af r) (ipr_i_nw r + (if m = 0 then 1 else m)) =
      Inr (mk_ipa (ipr_af r) (ipr_i_nw r + (if m = 0 then 1 else m)))"
    using ipr_block [OF wf] h by (intro ipr_ip_f_Ok) auto
  moreover have "ipr_cidr r \<noteq> int (af_to_cidr (ipr_af r))" using c by (simp add: ipr_max_def)
  ultimately show ?thesis unfolding get_value_def Let_def m_def [symmetric] by simp
qed

lemma get_value_host:
  assumes wf: "ipr_wf r" and c: "ipr_cidr r < ipr_max r"
  shows "\<exists>n. get_value r i = Inr (mk_ipa (ipr_af r) n) \<and> ipr_i_nw r < n \<and> n \<le> ipr_i_nw r + ipr_host_no r"
proof -
  define m where "m = (if i < 0 then i else i + 1) mod (ipr_host_no r + 1)"
  have h: "0 < ipr_host_no r" using ipr_host_no_pos [OF wf] by simp
  then have p: "0 < ipr_host_no r + 1" by simp
  have m: "0 \<le> m" "m < ipr_host_no r + 1" unfolding m_def by (rule pos_mod_sign [OF p], rule pos_mod_bound [OF p])
  show ?thesis
    using get_value_wf [OF wf c, of i] m h unfolding m_def [symmetric] Let_def
    by (intro exI conjI) (assumption, auto)
qed

lemma get_value_single:
  assumes wf: "ipr_wf r" and c: "ipr_cidr r = ipr_max r"
  shows "get_value r i = Inr (mk_ipa (ipr_af r) (ipr_i_nw r))"
  using c ipr_block [OF wf] ipr_ip_f_Ok [of "ipr_i_nw r" "ipr_af r"]
  by (simp add: get_value_def ipr_max_def ipr_hosts_def)

lemma ipa_int_mk_ipa [simp]: "ipa_int (mk_ipa af n) = n"
  by (cases af) auto

lemma get_value_nth:
  assumes "ipr_wf r" "ipr_cidr r < ipr_max r" "0 \<le> p" "p < ipr_host_no r"
  shows "get_value r p = Inr (mk_ipa (ipr_af r) (ipr_i_nw r + (p + 1)))"
  using assms by (simp add: get_value_wf Let_def mod_pos_pos_trivial)

lemma get_value_neg:
  assumes "ipr_wf r" "ipr_cidr r < ipr_max r" "1 \<le> p" "p \<le> ipr_host_no r"
  shows "get_value r (- p) = Inr (mk_ipa (ipr_af r) (ipr_i_nw r + (ipr_host_no r + 1 - p)))"
proof -
  have "(- p) mod (ipr_host_no r + 1) = ipr_host_no r + 1 - p"
    using assms(3,4) by (subst zmod_zminus1_eq_if) (auto simp: mod_pos_pos_trivial)
  then show ?thesis using assms by (simp add: get_value_wf Let_def)
qed

text \<open>The list of hosts a range stands for, in address order.\<close>

definition host_list :: "iprange \<Rightarrow> ipa list" where
  "host_list r = (if ipr_cidr r = ipr_max r then [mk_ipa (ipr_af r) (ipr_i_nw r)]
     else map (\<lambda>k. mk_ipa (ipr_af r) (ipr_i_nw r + (int k + 1))) [0..<nat (ipr_host_no r)])"

lemma host_list_length: "ipr_wf r \<Longrightarrow> length (host_list r) = nat (ipr_host_no r)"
  by (auto simp: host_list_def ipr_wf_def)

lemma get_value_host_list:
  "ipr_wf r \<Longrightarrow> k < length (host_list r) \<Longrightarrow> get_value r (int k) = Inr (host_list r ! k)"
  using get_value_single [of r "int k"] get_value_nth [of r "int k"] host_list_length [of r]
  by (cases "ipr_cidr r = ipr_max r") (auto simp: host_list_def ipr_wf_def)

lemma ipr_iterate_forward:
  "ipr_wf r \<Longrightarrow> k \<le> length (host_list r) \<Longrightarrow> length (host_list r) < k + fuel \<Longrightarrow>
   ipr_iterate r False fuel (int k) = Inr (drop k (host_list r))"
proof (induction fuel arbitrary: k)
  case (Suc fuel)
  show ?case
  proof (cases "k = length (host_list r)")
    case True
    then show ?thesis using host_list_length [OF Suc.prems(1)] ipr_host_no_pos [OF Suc.prems(1)]
      by (simp add: ipr_iter_next_def)
  next
    case False
    then have k: "k < length (host_list r)" using Suc.prems(2) by simp
    have "int k < ipr_host_no r" using k host_list_length [OF Suc.prems(1)] by simp
    moreover have "ipr_iterate r False fuel (int (Suc k)) = Inr (drop (Suc k) (host_list r))"
      using Suc.prems k by (intro Suc.IH) auto
    ultimately show ?thesis
      using get_value_host_list [OF Suc.prems(1) k] Cons_nth_drop_Suc [OF k]
      by (simp add: ipr_iter_next_def algebra_simps)
  qed
qed simp

lemma ipr_iterate_backward:
  "ipr_wf r \<Longrightarrow> ipr_host_no r < 2 ^ 63 \<Longrightarrow> k \<le> length (host_list r) \<Longrightarrow> length (host_list r) < k + fuel \<Longrightarrow>
   ipr_iterate r True fuel (int k) = Inr (drop k (rev (host_list r)))"
proof (induction fuel arbitrary: k)
  case (Suc fuel)
  let ?n = "length (host_list r)"
  show ?case
  proof (cases "k = ?n")
    case True
    then show ?thesis using host_list_length [OF Suc.prems(1)] ipr_host_no_pos [OF Suc.prems(1)]
      by (simp add: ipr_iter_next_def)
  next
    case False
    then have k: "k < ?n" using Suc.prems(3) by simp
    have lt: "int k < ipr_host_no r" using k host_list_length [OF Suc.prems(1)] by simp
    have ix: "ipr_host_no r - 1 - int k = int (?n - 1 - k)"
      using k host_list_length [OF Suc.prems(1)] by simp
    have "get_value r (ipr_host_no r - 1 - int k) = Inr (rev (host_list r) ! k)"
      unfolding ix using get_value_host_list [OF Suc.prems(1), of "?n - 1 - k"] k by (simp add: rev_nth)
    moreover have "ipr_iterate r True fuel (int (Suc k)) = Inr (drop (Suc k) (rev (host_list r)))"
      using Suc.prems k by (intro Suc.IH) auto
    ultimately show ?thesis
      using lt Suc.prems(2) Cons_nth_drop_Suc [of k "rev (host_list r)"] k
      by (simp add: ipr_iter_next_def ipr_len_def algebra_simps)
  qed
qed simp


lemma ipr_eq_range: "ipr_eq x (OtherRange y) = Inr (range_intersects (ipr_r x) (ipr_r y))"
  by (simp add: ipr_eq_def)

lemma ipr_parse_exploded: "ipa_ok a \<Longrightarrow> ipr_parse_ip (IpStr (ip_exploded a)) None = Inr (IpStr (ip_exploded a), a, ipa_af a)"
  by (simp add: ipr_parse_ip_def ip_norm_exploded ip_address_exploded ipa_af_def)

lemma ipr_mask_cidr:
  assumes "0 \<le> c" "c \<le> int (af_to_cidr af)"
  shows "\<exists>m. ipr_mask (Some c) af None = Inr (c, m)"
  using assms cidr_to_netmask_eq [OF assms]
  by (auto simp: ipr_mask_def CIDR_WAN_def Let_def af_to_cidr_def split: if_splits)

lemma ipr_fields_netmask: "ipr_fields i a af c m \<lparr>ipr_netmask := m'\<rparr> = ipr_fields i a af c m'"
  by (simp add: ipr_fields_def Let_def)

lemma ipr_fields_sel [simp]:
  "ipr_ip (ipr_fields i a af c m) = i" "ipr_cidr (ipr_fields i a af c m) = c"
  "ipr_af (ipr_fields i a af c m) = af" "ipr_netmask (ipr_fields i a af c m) = m"
  "ipr_ipa (ipr_fields i a af c m) = a"
  by (simp_all add: ipr_fields_def Let_def)

lemma ipr_mask_same:
  assumes "ipr_mask (Some c0) af None = Inr (c, m)" "0 \<le> c" "c \<le> int (af_to_cidr af)"
  shows "ipr_mask (Some c) af None = Inr (c, m)"
  using assms
  by (auto simp: ipr_mask_def CIDR_WAN_def Let_def af_to_cidr_def rbind_eq_Ok split: if_splits intro!: exI [of _ "_ :: int"])

lemmas ipr_eval = IPRange_def ipr_norm_netmask_def ipr_int_af_def ipr_parse_ip_def ipr_mask_def
  CIDR_WAN_def ipr_fields_def cidr_to_netmask_def af_to_cidr_def v_to_af_def mk_ipv4_def mk_ipv6_def
  get_bits_mod ip_norm_def ipv6_norm_eq private_v4_def private_v6_def in_net_def rassert_def
  ipr_eq_def range_intersects_def pair_le_def Let_def

lemma subnet_example:
  "\<exists>r. IPRange (IpStr ''10.0.0.0'') None (Some 24) = Inr r \<and> ipr_host_no r = 255 \<and>
       ipr_cidr r < ipr_max r \<and> ipr_i_nw r = 0x0A000000 \<and> ipr_af r = IP4"
  by (simp add: eval_simps ipr_eval ipr_max_def)

lemma host_bits_example:
  "\<exists>r. IPRange (IpStr ''192.168.1.179'') (Some (IpStr ''255.255.255.0'')) None = Inr r \<and>
       ipr_cidr r < ipr_max r \<and> ipr_i_nw r = 0xC0A80100 \<and> ipr_af r = IP4 \<and> snd (ipr_r r) = 0xC0A801FF"
proof -
  have h: "hamming_weight 4294967040 = 24" using hamming_weight_mask [of 24 8] by simp
  show ?thesis by (simp add: eval_simps ipr_eval ipr_max_def h)
qed

section \<open>Properties\<close>



text \<open>Iterating a range yields its hosts in address order, once each, and stops; iterating in
  reverse yields the same list backwards as long as the number of hosts fits \<open>len\<close>.\<close>

theorem ipr_iterate_hosts:
  assumes "IPRange ip netmask cidr = Inr r" and "ip_arg_ok ip" and "cidr_arg_ok cidr"
    and "ipr_host_no r < int fuel" and "ipr_host_no r < 2 ^ 63"
  shows "ipr_iterate r False fuel 0 = Inr (host_list r) \<and>
         ipr_iterate r True fuel 0 = Inr (rev (host_list r)) \<and>
         distinct (host_list r) \<and> int (length (host_list r)) = ipr_host_no r"
proof -
  have wf: "ipr_wf r" by (rule IPRange_wf [OF assms(1-3)])
  have f: "length (host_list r) < 0 + fuel"
    using assms(4) host_list_length [OF wf] ipr_host_no_pos [OF wf] by linarith
  have inj: "mk_ipa af n = mk_ipa af m \<Longrightarrow> n = m" for af n m by (cases af) auto
  have "distinct (host_list r)"
    by (auto simp: host_list_def distinct_map inj_on_def dest: inj)
  moreover have "int (length (host_list r)) = ipr_host_no r"
    using host_list_length [OF wf] ipr_host_no_pos [OF wf] by simp
  ultimately show ?thesis
    using ipr_iterate_forward [OF wf _ f] ipr_iterate_backward [OF wf assms(5) _ f] by simp
qed

theorem ipr_iterate_hosts_witness:
  "\<exists>r. IPRange (IpStr ''10.0.0.0'') None (Some 24) = Inr r \<and>
       ipr_iterate r False 256 0 = Inr (host_list r) \<and> length (host_list r) = 255"
proof -
  obtain r where r: "IPRange (IpStr ''10.0.0.0'') None (Some 24) = Inr r" "ipr_host_no r = 255"
    using subnet_example by blast
  then show ?thesis using ipr_iterate_hosts [OF r(1), of 256] by (auto simp: cidr_arg_ok_def)
qed

text \<open>\<open>from_dict\<close> restores what \<open>to_dict\<close> kept: for a range built from text every field comes
  back except the netmask, which is the one the prefix length stands for.\<close>

theorem from_dict_to_dict:
  assumes "IPRange (IpStr s) netmask cidr = Inr r" and "cidr_arg_ok cidr"
  shows "(\<exists>m. from_dict (to_dict r) = Inr (r \<lparr>ipr_netmask := m\<rparr>)) \<and>
         (netmask = None \<longrightarrow> from_dict (to_dict r) = Inr r)"
proof -
  obtain a c m where r: "r = ipr_fields (IpStr (ip_exploded a)) a (ipa_af a) c m" "ipa_ok a"
    "0 \<le> c" "c \<le> int (af_to_cidr (ipa_af a))"
    "ipr_mask (if netmask \<noteq> None \<and> cidr \<noteq> None then None else cidr) (ipa_af a) (projr (ipr_norm_netmask netmask)) = Inr (c, m)"
    by (rule IPRange_Ok [OF assms(1) _ assms(2)]) auto
  obtain m' where m': "ipr_mask (Some c) (ipa_af a) None = Inr (c, m')" using ipr_mask_cidr [OF r(3,4)] by blast
  have pos: "ipr_host_no (ipr_fields (IpStr (ip_exploded a)) a (ipa_af a) c m') \<noteq> 0"
    using ipr_host_no_pos [OF ipr_fields_wf [OF r(2) refl r(3,4), of "IpStr (ip_exploded a)" m']] by simp
  have fd: "from_dict (to_dict r) = Inr (r \<lparr>ipr_netmask := m'\<rparr>)"
    unfolding r(1) ipr_fields_netmask
    using m' r(4) pos
    by (simp add: from_dict_def to_dict_def IPRange_def ipr_norm_netmask_def ipr_int_af_def
        ipr_parse_exploded [OF r(2)] Let_def)
  moreover have "r \<lparr>ipr_netmask := m'\<rparr> = r" if n: "netmask = None"
  proof -
    obtain c0 where "cidr = Some c0" using assms(1) n by (cases cidr) (auto simp: IPRange_def rbind_eq_Ok)
    then have "ipr_mask (Some c) (ipa_af a) None = Inr (c, m)"
      using r(3-5) n ipr_mask_same by (simp add: ipr_norm_netmask_def)
    then show ?thesis using m' by (simp add: r(1) ipr_fields_netmask)
  qed
  ultimately show ?thesis by auto
qed

theorem from_dict_to_dict_witness:
  "\<exists>r. IPRange (IpStr ''10.0.0.0'') None (Some 24) = Inr r \<and> from_dict (to_dict r) = Inr r"
proof -
  obtain r where r: "IPRange (IpStr ''10.0.0.0'') None (Some 24) = Inr r"
    using subnet_example by blast
  then show ?thesis using from_dict_to_dict [OF r] by (auto simp: cidr_arg_ok_def)
qed

text \<open>\<open>==\<close> on ranges is reflexive and symmetric, but it is not an equivalence relation: it says
  the ranges intersect, so two different hosts both equal their subnet, and it ignores the address
  family, so an IPv4 host equals the IPv6 host with the same integer.\<close>

theorem ipr_eq_not_transitive:
  "(\<forall>x y. ipr_eq x (OtherRange x) = Inr True \<and> ipr_eq x (OtherRange y) = ipr_eq y (OtherRange x)) \<and>
   (\<exists>net a b c. IPRange (IpStr ''10.0.0.0'') None (Some 24) = Inr net \<and>
      IPRange (IpStr ''10.0.0.5'') None (Some CIDR_WAN) = Inr a \<and>
      IPRange (IpStr ''10.0.0.6'') None (Some CIDR_WAN) = Inr b \<and>
      IPRange (IpStr ''::a00:5'') None (Some CIDR_WAN) = Inr c \<and>
      ipr_eq a (OtherRange net) = Inr True \<and> ipr_eq net (OtherRange b) = Inr True \<and>
      ipr_eq a (OtherRange b) = Inr False \<and> ipr_eq a (OtherRange c) = Inr True)"
proof (intro conjI allI)
  fix x y show "ipr_eq x (OtherRange x) = Inr True" "ipr_eq x (OtherRange y) = ipr_eq y (OtherRange x)"
    by (simp_all add: ipr_eq_range range_intersects_sym)
qed (simp add: eval_simps ipr_eval)

text \<open>\<open>ensure_ip_is_public\<close> hands the prefix length to the constructor's \<open>netmask\<close> parameter, so
  it works with a mask of one bit: below 128.0.0.0 the network value is zero and every address
  passes, the private 10/8 and loopback ones included; above, exactly the private ones are refused.\<close>

theorem ensure_ip_is_public_accepts_private:
  assumes "0 \<le> n" and "n < 2 ^ 32"
  shows "ensure_ip_is_public (ip_str (IPv4Address n)) =
     (if n < 2 ^ 31 \<or> \<not> ipa_is_private (IPv4Address n) \<or> ip_str (IPv4Address n) = BLACK_HOLE_IPS IP4
      then Inr (ip_str (IPv4Address n)) else Inl (PyException ''IP must be public.''))"
proof -
  let ?a = "IPv4Address n"
  have ok: "ipa_ok ?a" using assms by simp
  have dot: "CHR ''.'' \<in> set (ip_str ?a)" by (simp add: octets_def)
  have ne: "ip_str ?a \<noteq> BLACK_HOLE_IPS IP6" using ip_str_v4_no_sep [of "CHR '':''" n] by auto
  have mask: "ipr_mask None IP4 (Some (IpInt 32)) = Inr (1, Some (IpInt 32))"
    by (simp add: ipr_mask_def ip_of_int_def mk_ipv4_def) (use hamming_weight_shift [of 5 1] hamming_weight_ones [of 1] in simp)
  have hb: "n div 2 ^ 31 * 2 ^ 31 = 0 \<longleftrightarrow> n < 2 ^ 31"
    using assms by (auto simp: div_eq_0_iff zdiv_eq_0_iff)
  have "IPRange (IpStr (ip_str ?a)) (Some (IpInt (int (af_to_cidr IP4)))) (Some CIDR_WAN) =
      Inr (ipr_fields (IpStr (ip_str ?a)) ?a IP4 1 (Some (IpInt 32)))"
    using ip_norm_str [OF ok] ip_address_str [OF ok] mask
    by (simp add: IPRange_def ipr_norm_netmask_def ipr_int_af_def ipr_parse_ip_def af_to_cidr_def v_to_af_def
        ipr_fields_def Let_def del: ip_str.simps)
  moreover have "ipr_is_private (ipr_fields (IpStr (ip_str ?a)) ?a IP4 1 (Some (IpInt 32))) =
      (\<not> (n < 2 ^ 31 \<or> \<not> ipa_is_private ?a \<or> ip_str ?a = BLACK_HOLE_IPS IP4))"
    using ne hb by (auto simp: ipr_fields_def Let_def af_to_cidr_def get_bits_mod minus_mod_eq_div_mult
        simp del: ip_str.simps ipa_is_private.simps BLACK_HOLE_IPS.simps)
  ultimately show ?thesis
    using ip_norm_str [OF ok] dot by (simp add: ensure_ip_is_public_def Let_def del: ip_str.simps ipa_is_private.simps BLACK_HOLE_IPS.simps)
qed

theorem ensure_ip_is_public_accepts_private_witness:
  "ensure_ip_is_public ''10.0.0.1'' = Inr ''10.0.0.1'' \<and> ipa_is_private (IPv4Address 0x0A000001)"
proof -
  have "ip_str (IPv4Address 0x0A000001) = ''10.0.0.1''" by (simp add: eval_simps)
  then show ?thesis
    using ensure_ip_is_public_accepts_private [of "0x0A000001"]
    by (simp add: private_v4_def in_net_def del: ip_str.simps)
qed

end
