(* ===== verification/Bind_Rules.thy ===== *)
theory Bind_Rules
  imports Ip_Range
begin

text \<open>
  \<^verbatim>\<open>net/bind.py\<close>: the data-driven table that turns a listen address into the tuple for
  \<open>bind\<close>, the stateful \<open>Bind\<close> object with its one-shot \<open>bind\<close> closure, the socket factory and
  the search for a high port. The resolver \<open>getaddrinfo\<close> and the socket calls are parameters.
\<close>

section \<open>Rules\<close>

text \<open>An interface is identified by its name, or by its number on Windows.\<close>

datatype nic_id = NicName string | NicNo int

fun nic_id_str :: "nic_id option \<Rightarrow> string" where
  "nic_id_str None = ''None''"
| "nic_id_str (Some (NicName s)) = s"
| "nic_id_str (Some (NicNo n)) = int_str n"

definition lower_char :: "char \<Rightarrow> char" where
  "lower_char c = (let n = of_char c :: nat in if 65 \<le> n \<and> n \<le> 90 then char_of (n + 32) else c)"

definition ip6_patch_bind_ip :: "string \<Rightarrow> string \<Rightarrow> nic_id option \<Rightarrow> string res" where
  "ip6_patch_bind_ip plat bind_ip nic =
     (if map lower_char (take 2 bind_ip) \<in> {''fe'', ''fd''}
      then (if plat = ''Windows''
            then (case nic of Some (NicNo n) \<Rightarrow> Ok (bind_ip @ ''%'' @ int_str n) | _ \<Rightarrow> Err TypeError)
            else Ok (bind_ip @ ''%'' @ nic_id_str nic))
      else Ok bind_ip)"

datatype rule_type = IP_APPEND | IP_BIND_TUP
datatype rule_af = OneAf af | AfList "af list"
datatype rule_hey = HeyList "string list" | HeyPrivate
datatype bind_val = BStr string | BInt int | BNone
datatype rule_change = ChangeStr string | ChangeTup nat bind_val

text \<open>The fields \<open>BindRule\<close> gives names to.\<close>

record bind_rule =
  br_platform :: string
  br_af :: rule_af
  br_type :: rule_type
  br_hey :: rule_hey
  br_norm :: "string option"
  br_change :: rule_change

fun rule_af_match :: "af \<Rightarrow> rule_af \<Rightarrow> bool" where
  "rule_af_match af (AfList l) = (af \<in> set l)"
| "rule_af_match af (OneAf f) = (af = f)"

fun rule_hey_match :: "string \<Rightarrow> rule_hey \<Rightarrow> bool" where
  "rule_hey_match ip (HeyList l) = (ip \<in> set l)"
| "rule_hey_match ip HeyPrivate = (case ip_f (IpStr ip) of Inr a \<Rightarrow> ipa_is_private a | Inl _ \<Rightarrow> True)"

definition match_bind_rule :: "string \<Rightarrow> af \<Rightarrow> string \<Rightarrow> bind_rule \<Rightarrow> rule_type \<Rightarrow> bool" where
  "match_bind_rule ip af plat rule ty =
     (if br_type rule \<noteq> ty then False
      else if \<not> rule_af_match af (br_af rule) then False
      else if br_platform rule \<notin> {''*'', plat} then False
      else rule_hey_match ip (br_hey rule))"

definition mk_rule :: "string \<Rightarrow> rule_af \<Rightarrow> rule_type \<Rightarrow> rule_hey \<Rightarrow> string option \<Rightarrow> rule_change \<Rightarrow> bind_rule" where
  "mk_rule p f t h n c =
     \<lparr>br_platform = p, br_af = f, br_type = t, br_hey = h, br_norm = n, br_change = c\<rparr>"

definition bind_magic :: "af \<Rightarrow> bind_rule list" where
  "bind_magic af =
     [mk_rule ''*'' (AfList VALID_AFS) IP_APPEND (HeyList VALID_LOCALHOST) (Some (LOCALHOST_LOOKUP af)) (ChangeStr ''''),
      mk_rule ''*'' (OneAf IP6) IP_APPEND (HeyList V6_VALID_ANY) (Some ''::'') (ChangeStr ''''),
      mk_rule ''*'' (OneAf IP4) IP_APPEND (HeyList V4_VALID_ANY) (Some ''0.0.0.0'') (ChangeStr ''''),
      mk_rule ''Windows'' (OneAf IP6) IP_APPEND HeyPrivate (Some '''') (ChangeStr ''nic_id''),
      mk_rule ''*'' (OneAf IP6) IP_APPEND HeyPrivate (Some '''') (ChangeStr ''nic_id''),
      mk_rule ''Windows'' (OneAf IP6) IP_BIND_TUP (HeyList V6_VALID_ANY) None (ChangeTup 3 (BInt 0)),
      mk_rule ''*'' (OneAf IP6) IP_BIND_TUP (HeyList V6_VALID_LOCALHOST) None (ChangeTup 3 (BInt 0)),
      mk_rule ''Windows'' (OneAf IP6) IP_BIND_TUP HeyPrivate None (ChangeTup 3 (BStr ''nic_id''))]"

text \<open>The first loop of \<open>binder\<close> stops at the first matching rule and rewrites the address.\<close>

definition append_rule :: "string \<Rightarrow> nic_id option \<Rightarrow> bind_rule \<Rightarrow> string" where
  "append_rule ip nic rule =
     (let ip = (case br_norm rule of Some n \<Rightarrow> (if n = '''' then ip else n) | None \<Rightarrow> ip)
      in case br_change rule of
           ChangeStr c \<Rightarrow> (if c = ''nic_id'' then ip @ ''%'' @ nic_id_str nic else ip @ c)
         | ChangeTup _ _ \<Rightarrow> ip)"

definition binder_ip :: "af \<Rightarrow> string \<Rightarrow> nic_id option \<Rightarrow> string \<Rightarrow> string" where
  "binder_ip af ip nic plat =
     (case find (\<lambda>r. match_bind_rule ip af plat r IP_APPEND) (bind_magic af) of
        None \<Rightarrow> ip | Some r \<Rightarrow> append_rule ip nic r)"

type_synonym bind_tup = "bind_val list"

fun nic_val :: "nic_id option \<Rightarrow> bind_val" where
  "nic_val None = BNone"
| "nic_val (Some (NicName s)) = BStr s"
| "nic_val (Some (NicNo n)) = BInt n"

definition tup_rule :: "bind_tup \<Rightarrow> nic_id option \<Rightarrow> bind_rule \<Rightarrow> bind_tup res" where
  "tup_rule tup nic rule =
     (case br_change rule of
        ChangeTup offset v \<Rightarrow>
          (let val = (if v = BStr ''nic_id'' then nic_val nic else v)
           in if offset < length tup then Ok (tup[offset := val]) else Err IndexError)
      | ChangeStr _ \<Rightarrow> Err ValueError)"

definition py_binder ::
  "(string \<Rightarrow> int \<Rightarrow> bind_tup list res) \<Rightarrow> af \<Rightarrow> string \<Rightarrow> int \<Rightarrow> nic_id option \<Rightarrow> string \<Rightarrow> bind_tup res" where
  "py_binder getaddrinfo af ip port nic plat =
     (let ip = binder_ip af ip nic plat;
          addr_infos = (case getaddrinfo ip port of Inr l \<Rightarrow> l | Inl _ \<Rightarrow> [])
      in case addr_infos of
           [] \<Rightarrow> Err (PyException (''Can't resolve '' @ ip @ '' for bind.''))
         | bind_tup # _ \<Rightarrow>
             (case find (\<lambda>r. match_bind_rule ip af plat r IP_BIND_TUP) (bind_magic af) of
                None \<Rightarrow> Ok bind_tup | Some r \<Rightarrow> tup_rule bind_tup nic r))"

section \<open>The Bind object\<close>

record bind_obj =
  b_ips :: "string option"
  b_nic :: "nic_id option"
  b_af :: af
  b_resolved :: bool
  b_port :: int
  b_tups :: bind_tup

definition new_bind :: "nic_id option \<Rightarrow> af \<Rightarrow> int \<Rightarrow> string option \<Rightarrow> bind_obj" where
  "new_bind nic af port ips =
     \<lparr>b_ips = ips, b_nic = nic, b_af = af, b_resolved = False, b_port = port, b_tups = []\<rparr>"

text \<open>Python's \<open>a or b\<close> on ports and on optional text.\<close>

definition or_port :: "int option \<Rightarrow> int \<Rightarrow> int" where
  "or_port p d = (case p of Some v \<Rightarrow> (if v \<noteq> 0 then v else d) | None \<Rightarrow> d)"

definition or_text :: "string option \<Rightarrow> string option \<Rightarrow> string option" where
  "or_text a b = (case a of Some s \<Rightarrow> (if s \<noteq> [] then a else b) | None \<Rightarrow> b)"

text \<open>
  The closure \<open>bind\<close>: once resolved it does nothing. \<open>nic_ip\<close> is the address of the route
  (its own, or that of the interface's first route).
\<close>

definition bind_call ::
  "(string \<Rightarrow> int \<Rightarrow> bind_tup list res) \<Rightarrow> string \<Rightarrow> string res \<Rightarrow> int option \<Rightarrow> string option \<Rightarrow>
   bind_obj \<Rightarrow> bind_obj res" where
  "bind_call getaddrinfo plat nic_ip port ips b =
     (if b_resolved b then Ok b
      else (let port = or_port port (b_port b)
            in rbind (case or_text ips (b_ips b) of Some s \<Rightarrow> Ok s | None \<Rightarrow> nic_ip) (\<lambda>ips.
               rbind (py_binder getaddrinfo (b_af b) ips port (b_nic b) plat) (\<lambda>tups.
                 Ok (b\<lparr>b_tups := tups, b_port := port, b_resolved := True\<rparr>)))))"

datatype bind_flag = NIC_BIND | EXT_BIND | LOOPBACK_BIND

text \<open>
  \<open>bind_tup(port, flag)\<close>: with a port the tuple is deep-copied and assigned to, but tuples
  do not support assignment; an empty tuple has no first component.
\<close>

definition get_bind_tup :: "bind_obj \<Rightarrow> int option \<Rightarrow> bind_flag \<Rightarrow> bind_tup res" where
  "get_bind_tup b port flag =
     (if flag = LOOPBACK_BIND
      then Ok [BStr (if b_af b = IP6 then ''::1'' else ''127.0.0.1''), BInt (b_port b)]
      else if port \<noteq> None then Err TypeError
      else (case b_tups b of
              [] \<Rightarrow> Err IndexError
            | v # _ \<Rightarrow> (if v = BNone
                        then Err (PyException (''Bind ip is none. Possibly an invalid IP '' @
                               ''(private and not public or visa versa) '' @
                               ''was passed to Bind for IPv6 causing no '' @
                               ''IP for the right type to be set. '' @
                               ''Also possible there were no link locals.''))
                        else Ok (b_tups b))))"

section \<open>Sockets\<close>

text \<open>The destination as the factory sees it, and the socket options it sets, in order.\<close>

record dest_info =
  dest_resolved :: bool
  dest_port :: int
  dest_supported :: "af list"
  dest_loopback :: bool

datatype sock_opt = SO_LINGER nat | SO_REUSEADDR | SO_REUSEPORT | SO_BROADCAST | SO_BINDTODEVICE nic_id

record py_sock =
  ps_af :: af
  ps_type :: sock_proto
  ps_opts :: "sock_opt list"
  ps_bound :: bind_tup

text \<open>
  The environment: whether setting an option succeeds, whether the interface is the default one
  for the family (which may raise), and whether \<open>sock.bind\<close> succeeds.
\<close>

record sock_env =
  env_setopt :: "sock_opt \<Rightarrow> bool"
  env_is_default :: "af \<Rightarrow> bool res"
  env_bind :: "bind_tup \<Rightarrow> bool"
  env_windows :: bool

definition must_set :: "sock_env \<Rightarrow> bool \<Rightarrow> sock_opt \<Rightarrow> sock_opt list \<Rightarrow> sock_opt list res" where
  "must_set env cond opt opts =
     (if \<not> cond then Ok opts else if env_setopt env opt then Ok (opts @ [opt]) else Err OSError)"

definition may_set :: "sock_env \<Rightarrow> bool \<Rightarrow> sock_opt \<Rightarrow> sock_opt list \<Rightarrow> sock_opt list" where
  "may_set env cond opt opts = (if cond \<and> env_setopt env opt then opts @ [opt] else opts)"

definition dest_check :: "af \<Rightarrow> dest_info option \<Rightarrow> unit res" where
  "dest_check af dest =
     (case dest of None \<Rightarrow> Ok ()
      | Some d \<Rightarrow> (if \<not> dest_resolved d then Err (PyException ''net sock factory: dest addr not resolved'')
                   else if dest_port d = 0 then Err (PyException ''net: dest port is 0!'')
                   else if af \<notin> set (dest_supported d)
                   then Err (PyException ''Route af not supported by dest addr'')
                   else Ok ()))"

definition socket_factory ::
  "sock_env \<Rightarrow> bind_obj \<Rightarrow> dest_info option \<Rightarrow> sock_proto \<Rightarrow> net_conf \<Rightarrow> py_sock option res" where
  "socket_factory env route dest ty conf =
     (if \<not> b_resolved route then Err (PyException ''You didn't bind the route!'')
      else
       rbind (dest_check (b_af route) dest) (\<lambda>_.
       rbind (must_set env (linger conf \<noteq> None) (SO_LINGER (the (linger conf))) []) (\<lambda>opts.
       rbind (must_set env (reuse_addr conf) SO_REUSEADDR opts) (\<lambda>opts.
       let opts = may_set env (reuse_addr conf) SO_REUSEPORT opts in
       rbind (must_set env (broadcast conf) SO_BROADCAST opts) (\<lambda>opts.
       let opts = (case b_nic route of None \<Rightarrow> opts
             | Some nic \<Rightarrow>
                 (let is_default = (case env_is_default env (b_af route) of Inr d \<Rightarrow> d | Inl _ \<Rightarrow> True)
                  in may_set env (\<not> is_default \<and> \<not> env_windows env) (SO_BINDTODEVICE nic) opts));
           flag = (case dest of Some d \<Rightarrow> (if dest_loopback d then LOOPBACK_BIND else NIC_BIND)
                              | None \<Rightarrow> NIC_BIND)
       in rbind (get_bind_tup route None flag) (\<lambda>tup.
            Ok (if env_bind env tup
                then Some \<lparr>ps_af = b_af route, ps_type = ty, ps_opts = opts, ps_bound = tup\<rparr>
                else None)))))))"

definition high_port_conf :: net_conf where
  "high_port_conf = NET_CONF\<lparr>broadcast := False, linger := None, sock_proto_no := 0, reuse_addr := True\<rparr>"

text \<open>
  Twenty attempts; the random draws and the socket environments come from the outside, one per
  attempt. The route is shared by the attempts, so only the first one binds it.
\<close>

fun high_port_loop ::
  "(string \<Rightarrow> int \<Rightarrow> bind_tup list res) \<Rightarrow> string \<Rightarrow> string res \<Rightarrow> (nat \<Rightarrow> nat) \<Rightarrow> (nat \<Rightarrow> sock_env) \<Rightarrow>
   sock_proto \<Rightarrow> nat \<Rightarrow> nat \<Rightarrow> bind_obj \<Rightarrow> (py_sock option \<times> int \<times> bind_obj) res" where
  "high_port_loop gai plat nic_ip e env ty i 0 route = Err (PyException ''Could not bind high range port.'')"
| "high_port_loop gai plat nic_ip e env ty i (Suc k) route =
     rbind (randrange (e i) 2000 (MAX_PORT - 1000)) (\<lambda>n.
     rbind (bind_call gai plat nic_ip (Some n) None route) (\<lambda>route.
       case socket_factory (env i) route None ty high_port_conf of
         Inl _ \<Rightarrow> high_port_loop gai plat nic_ip e env ty (i + 1) k route
       | Inr s \<Rightarrow> Ok (s, n, route)))"

definition get_high_port_socket ::
  "(string \<Rightarrow> int \<Rightarrow> bind_tup list res) \<Rightarrow> string \<Rightarrow> string res \<Rightarrow> (nat \<Rightarrow> nat) \<Rightarrow> (nat \<Rightarrow> sock_env) \<Rightarrow>
   sock_proto \<Rightarrow> bind_obj \<Rightarrow> (py_sock option \<times> int \<times> bind_obj) res" where
  "get_high_port_socket gai plat nic_ip e env ty route =
     high_port_loop gai plat nic_ip e env ty 0 20 route"

section \<open>What the binder does to the address\<close>

lemma binder_ip_IP4: "binder_ip IP4 ip nic plat =
   (if ip \<in> set VALID_LOCALHOST then ''127.0.0.1'' else if ip \<in> set V4_VALID_ANY then ''0.0.0.0'' else ip)"
  by (simp add: binder_ip_def bind_magic_def mk_rule_def match_bind_rule_def VALID_AFS_def append_rule_def)

lemma binder_ip_IP6: "binder_ip IP6 ip nic plat =
   (if ip \<in> set VALID_LOCALHOST then ''::1'' else if ip \<in> set V6_VALID_ANY then ''::''
    else if rule_hey_match ip HeyPrivate then ip @ ''%'' @ nic_id_str nic else ip)"
  by (simp add: binder_ip_def bind_magic_def mk_rule_def match_bind_rule_def VALID_AFS_def append_rule_def
      del: rule_hey_match.simps(2))

lemma tup_rule_find_IP4: "find (\<lambda>r. match_bind_rule ip IP4 plat r IP_BIND_TUP) (bind_magic IP4) = None"
  by (simp add: bind_magic_def mk_rule_def match_bind_rule_def)

section \<open>The Bind object is bound once\<close>

lemma bind_call_Ok:
  "bind_call g p nip port ips b = Inr b' \<Longrightarrow>
   b_resolved b' \<and> (if b_resolved b then b' = b else b_port b' = or_port port (b_port b) \<and> b_af b' = b_af b)"
  by (auto simp: bind_call_def Let_def rbind_eq_Ok split: if_splits)

lemma bind_call_resolved: "b_resolved b \<Longrightarrow> bind_call g p nip port ips b = Inr b"
  by (simp add: bind_call_def)

lemma high_port_resolved:
  "b_resolved route \<Longrightarrow> high_port_loop g p nip e env ty i k route = Inr (s, n, route') \<Longrightarrow> route' = route"
proof (induction k arbitrary: i)
  case (Suc k)
  then show ?case
    by (cases "socket_factory (env i) route None ty high_port_conf") (auto simp: rbind_eq_Ok bind_call_resolved)
qed simp

lemma high_port_range:
  "high_port_loop g p nip e env ty i k route = Inr (s, n, route') \<Longrightarrow> 2000 \<le> n \<and> n < MAX_PORT - 1000"
proof (induction k arbitrary: i route)
  case (Suc k)
  then obtain m r where m: "randrange (e i) 2000 (MAX_PORT - 1000) = Inr m" and r: "bind_call g p nip (Some m) None route = Inr r"
    by (auto simp: rbind_eq_Ok)
  show ?case
    using Suc.prems Suc.IH [of "i + 1" r] randrange_range [OF m] m r by (auto split: sum.splits)
qed simp

lemma high_port_first:
  assumes "\<not> b_resolved route" "high_port_loop g p nip e env ty i (Suc k) route = Inr (s, n, route')"
  shows "b_port route' = 2000 + int (e i) mod (MAX_PORT - 1000 - 2000)"
proof -
  obtain m r where m: "randrange (e i) 2000 (MAX_PORT - 1000) = Inr m" and r: "bind_call g p nip (Some m) None route = Inr r"
    using assms(2) by (auto simp: rbind_eq_Ok)
  have mv: "m = 2000 + int (e i) mod (MAX_PORT - 1000 - 2000)" using m by (auto simp: randrange_def split: if_splits)
  have "m \<noteq> 0" using randrange_range [OF m] by simp
  then have "b_resolved r" "b_port r = m" using bind_call_Ok [OF r] assms(1) by (auto simp: or_port_def)
  moreover have "route' = r"
    using assms(2) m r high_port_resolved [OF \<open>b_resolved r\<close>, of g p nip e env ty "i + 1" k]
    by (auto split: sum.splits)
  ultimately show ?thesis using mv by simp
qed

section \<open>Properties\<close>

text \<open>\<open>py_binder\<close> normalises a listen address the same way on every platform: local names become
  the loopback address of the family, any-addresses become \<open>0.0.0.0\<close> or \<open>::\<close>, private IPv6
  addresses get the interface appended once, and everything else is left alone; for IPv4 the
  resolver's first answer is returned unchanged, and an unresolvable address raises.\<close>

theorem binder_normalises:
  "(case af of
      IP4 \<Rightarrow> binder_ip af ip nic plat =
        (if ip \<in> set VALID_LOCALHOST then ''127.0.0.1'' else if ip \<in> set V4_VALID_ANY then ''0.0.0.0'' else ip)
    | IP6 \<Rightarrow> binder_ip af ip nic plat =
        (if ip \<in> set VALID_LOCALHOST then ''::1'' else if ip \<in> set V6_VALID_ANY then ''::''
         else if rule_hey_match ip HeyPrivate then ip @ ''%'' @ nic_id_str nic else ip)) \<and>
   py_binder gai IP4 ip port nic plat =
     (case gai (binder_ip IP4 ip nic plat) port of
        Inr (tup # _) \<Rightarrow> Inr tup
      | _ \<Rightarrow> Inl (PyException (''Can't resolve '' @ binder_ip IP4 ip nic plat @ '' for bind.'')))"
proof (intro conjI)
  show "py_binder gai IP4 ip port nic plat =
     (case gai (binder_ip IP4 ip nic plat) port of
        Inr (tup # _) \<Rightarrow> Inr tup
      | _ \<Rightarrow> Inl (PyException (''Can't resolve '' @ binder_ip IP4 ip nic plat @ '' for bind.'')))"
    by (simp add: py_binder_def tup_rule_find_IP4 Let_def split: sum.split list.split)
qed (simp add: binder_ip_IP4 binder_ip_IP6 split: af.split)

text \<open>A route can be bound only once. \<open>get_high_port_socket\<close> reports a port of its range, but
  the socket is on the port of the first draw: later draws do not rebind the route, and a route that
  was bound before keeps its own port. So the reported port is the bound one only if the route was
  fresh and the first attempt succeeded.\<close>

theorem get_high_port_socket_port:
  assumes "get_high_port_socket g p nip e env ty route = Inr (s, n, route')"
  shows "2000 \<le> n \<and> n < MAX_PORT - 1000 \<and>
     b_port route' = (if b_resolved route then b_port route
                      else 2000 + int (e 0) mod (MAX_PORT - 1000 - 2000))"
  using assms high_port_range [of g p nip e env ty 0 20 route s n route']
    high_port_resolved [of route g p nip e env ty 0 20 s n route']
    high_port_first [of route g p nip e env ty 0 19 s n route']
  by (auto simp: get_high_port_socket_def)

definition flaky_env :: "nat \<Rightarrow> sock_env" where
  "flaky_env i = \<lparr>env_setopt = (\<lambda>_. i \<noteq> 0), env_is_default = (\<lambda>_. Ok True), env_bind = (\<lambda>_. True),
    env_windows = False\<rparr>"

definition echo_gai :: "string \<Rightarrow> int \<Rightarrow> bind_tup list res" where
  "echo_gai ip port = Ok [[BStr ip, BInt port]]"

theorem get_high_port_socket_port_witness:
  "\<exists>s n r. get_high_port_socket echo_gai ''Linux'' (Ok ''10.0.0.1'') id flaky_env TCP (new_bind None IP4 0 None) = Inr (s, n, r) \<and>
     n = 2001 \<and> b_port r = 2000"
proof -
  let ?c = "get_high_port_socket echo_gai ''Linux'' (Ok ''10.0.0.1'') id flaky_env TCP (new_bind None IP4 0 None)"
  have "\<exists>s r. high_port_loop echo_gai ''Linux'' (Ok ''10.0.0.1'') id flaky_env TCP 0 (Suc (Suc k))
      (new_bind None IP4 0 None) = Inr (s, 2001, r)" for k
    by (simp add: randrange_def MAX_PORT_def bind_call_def new_bind_def or_port_def
        or_text_def py_binder_def echo_gai_def binder_ip_IP4 tup_rule_find_IP4 socket_factory_def dest_check_def
        must_set_def may_set_def high_port_conf_def NET_CONF_def flaky_env_def get_bind_tup_def
        VALID_LOCALHOST_def V4_VALID_ANY_def Let_def)
  from this [of 18] have "\<exists>s r. ?c = Inr (s, 2001, r)"
    unfolding get_high_port_socket_def by (simp del: high_port_loop.simps)
  then obtain s r where "?c = Inr (s, 2001, r)" by blast
  then show ?thesis using get_high_port_socket_port [of echo_gai] by (fastforce simp: new_bind_def)
qed

end
