(* ===== verification/Addressing.thy ===== *)
theory Addressing
  imports Bind_Rules
begin

text \<open>
  \<^verbatim>\<open>net/address.py\<close>: destination tuples, the resolution of a host name or address text into
  per-family addresses, and the selection of a destination. The two resolvers (the DNS client and
  \<open>getaddrinfo\<close>) are parameters that return family and normalised address pairs.
\<close>

text \<open>
  \<open>Address\<close> attaches a loopback flag to the \<open>IPRange\<close> object, so a resolved address is the text
  with the range and that flag.
\<close>

record resolved_ip =
  ri_ip :: string
  ri_ipr :: iprange
  ri_is_loopback :: bool

record address =
  a_host :: string
  a_port :: int
  a_nic :: "nic_id option"
  a_v4 :: "resolved_ip option"
  a_v6 :: "resolved_ip option"
  a_resolved :: bool

definition new_address :: "string \<Rightarrow> int \<Rightarrow> nic_id option \<Rightarrow> address" where
  "new_address host port nic =
     \<lparr>a_host = host, a_port = port, a_nic = nic, a_v4 = None, a_v6 = None, a_resolved = False\<rparr>"

definition patch_ip :: "string \<Rightarrow> string \<Rightarrow> iprange \<Rightarrow> nic_id option \<Rightarrow> string res" where
  "patch_ip plat ip ipr nic =
     (if ipr_ip ipr \<in> IpStr ` set VALID_ANY_ADDR
      then Ok (if ipr_af ipr = IP4 then ''127.0.0.1'' else ''::1'')
      else if ipr_af ipr = IP6 \<and> ip \<notin> {''::'', ''::1''} \<and> ipr_is_private ipr
      then ip6_patch_bind_ip plat ip nic
      else Ok ip)"

text \<open>The \<open>try\<close> branch of \<open>res\<close>: the host is address text.\<close>

definition res_ip :: "string \<Rightarrow> nic_id option \<Rightarrow> string \<Rightarrow> address \<Rightarrow> address res" where
  "res_ip plat route_nic host a =
     rbind (IPRange (IpStr host) None (Some CIDR_WAN)) (\<lambda>ipr.
     let nic = (case a_nic a of Some n \<Rightarrow> (case route_nic of None \<Rightarrow> Some n | Some r \<Rightarrow> Some r)
                              | None \<Rightarrow> route_nic)
     in rbind (ipr_norm ipr) (\<lambda>norm.
        rbind (patch_ip plat norm ipr nic) (\<lambda>ip.
        let r = \<lparr>ri_ip = ip, ri_ipr = ipr, ri_is_loopback = (ip \<in> set VALID_LOOPBACKS)\<rparr>
        in Ok (if ipr_af ipr = IP4 then a\<lparr>a_v4 := Some r\<rparr> else a\<lparr>a_v6 := Some r\<rparr>))))"

text \<open>
  \<open>res\<close> resolves each answer by calling itself; \<open>fuel\<close> bounds that recursion. A resolver that
  fails or answers nothing is followed by the fallback resolver.
\<close>

definition domain_results ::
  "(string \<Rightarrow> (af \<times> string) list res) \<Rightarrow> (string \<Rightarrow> (af \<times> string) list res) \<Rightarrow> string \<Rightarrow> (af \<times> string) list res" where
  "domain_results dns fallback host =
     rcatch (rbind (dns host) (\<lambda>results.
               if results = [] then Err (PyException ''Using fallback DNS'') else Ok results))
       (\<lambda>_. rbind (fallback host) (\<lambda>results.
               if results = [] then Err (PyException ''could not resolve addr.'') else Ok results))"

fun address_res ::
  "string \<Rightarrow> (string \<Rightarrow> (af \<times> string) list res) \<Rightarrow> (string \<Rightarrow> (af \<times> string) list res) \<Rightarrow> nat \<Rightarrow>
   nic_id option \<Rightarrow> string option \<Rightarrow> address \<Rightarrow> address res option" where
  "address_res plat dns fallback 0 route_nic host a = None"
| "address_res plat dns fallback (Suc fuel) route_nic host a =
     (let host = (case host of Some h \<Rightarrow> (if h = [] then a_host a else h) | None \<Rightarrow> a_host a)
      in case res_ip plat route_nic host a of
           Inr a' \<Rightarrow> Some (Ok (a'\<lparr>a_resolved := True\<rparr>))
         | Inl _ \<Rightarrow>
             (case domain_results dns fallback host of
                Inl e \<Rightarrow> Some (Err e)
              | Inr results \<Rightarrow>
                  map_option (rmap (\<lambda>a. a\<lparr>a_resolved := True\<rparr>))
                    (foldl (\<lambda>acc (_, ip). case acc of
                         Some (Inr a) \<Rightarrow> address_res plat dns fallback fuel route_nic (Some ip) a
                       | _ \<Rightarrow> acc) (Some (Ok a)) results)))"

section \<open>Destination tuples\<close>

record dest_tup =
  dt_af :: af
  dt_ip :: string
  dt_port :: int
  dt_is_private :: bool
  dt_is_public :: bool
  dt_is_loopback :: bool

definition DestTup :: "af \<Rightarrow> resolved_ip option \<Rightarrow> int \<Rightarrow> dest_tup res" where
  "DestTup af r port =
     (case r of None \<Rightarrow> Err KeyError
      | Some r \<Rightarrow> Ok \<lparr>dt_af = af, dt_ip = ri_ip r, dt_port = port,
                      dt_is_private = ipr_is_private (ri_ipr r), dt_is_public = ipr_is_public (ri_ipr r),
                      dt_is_loopback = ri_is_loopback r\<rparr>)"

definition dt_tup :: "dest_tup \<Rightarrow> string \<times> int" where
  "dt_tup d = (dt_ip d, dt_port d)"

definition dt_supported :: "dest_tup \<Rightarrow> af list" where
  "dt_supported d = [dt_af d]"

definition select_ip :: "address \<Rightarrow> af \<Rightarrow> dest_tup res" where
  "select_ip a af = DestTup af (if af = IP4 then a_v4 a else a_v6 a) (a_port a)"

datatype dest_arg = ArgTup string int | ArgDest dest_tup | ArgAddr address

definition resolv_dest ::
  "string \<Rightarrow> (string \<Rightarrow> (af \<times> string) list res) \<Rightarrow> (string \<Rightarrow> (af \<times> string) list res) \<Rightarrow> nat \<Rightarrow>
   af \<Rightarrow> dest_arg \<Rightarrow> nic_id option \<Rightarrow> (string \<times> int) res option" where
  "resolv_dest plat dns fallback fuel af dest nic =
     (case dest of
        ArgDest d \<Rightarrow> Some (Ok (dt_tup d))
      | ArgAddr a \<Rightarrow> Some (rmap dt_tup (select_ip a af))
      | ArgTup host port \<Rightarrow>
          (case IPRange (IpStr host) None (Some (int (af_to_cidr af))) of
             Inr _ \<Rightarrow> Some (Ok (host, port))
           | Inl _ \<Rightarrow> map_option (\<lambda>r. rbind r (\<lambda>a. rmap dt_tup (select_ip a af)))
                        (address_res plat dns fallback fuel None None (new_address host port nic))))"

text \<open>The record of \<open>getaddrinfo\<close> answers kept by \<open>sock_res_domain\<close>, in order.\<close>

definition sock_res_domain :: "(int \<times> string) list \<Rightarrow> (af \<times> string) list res" where
  "sock_res_domain addr_infos =
     rmap concat (rmap_list (\<lambda>(fam, ip).
        rmap concat (rmap_list (\<lambda>(af, n). if n = fam then rmap (\<lambda>t. [(af, t)]) (ip_norm (IpStr ip)) else Ok [])
          [(IP4, 2), (IP6, 10)])) addr_infos)"

definition async_res_domain :: "(af \<times> string) option list \<Rightarrow> (af \<times> string) list" where
  "async_res_domain answers = strip_none answers"

lemma IPRange_wan:
  assumes "ipa_ok a"
  shows "\<exists>m. IPRange (IpStr (ip_str a)) None (Some CIDR_WAN) =
    Inr (ipr_fields (IpStr (ip_exploded a)) a (ipa_af a) (int (af_to_cidr (ipa_af a))) (Some (IpStr m)))"
proof -
  let ?af = "ipa_af a"
  obtain m where m: "cidr_to_netmask (int (af_to_cidr ?af)) ?af = Inr m"
    using cidr_to_netmask_eq [of "int (af_to_cidr ?af)" ?af] by auto
  then have "ipr_mask (Some CIDR_WAN) ?af None = Inr (int (af_to_cidr ?af), Some (IpStr m))"
    by (simp add: ipr_mask_def CIDR_WAN_def af_to_cidr_def split: if_splits)
  then show ?thesis
    using ip_norm_str [OF assms] ip_address_exploded [OF assms]
    by (intro exI [of _ m])
       (simp add: IPRange_def ipr_norm_netmask_def ipr_int_af_def ipr_parse_ip_def ipa_af_def ipr_fields_def Let_def)
qed

lemma ipr_fields_wan_norm:
  assumes "ipa_ok a"
  shows "ipr_norm (ipr_fields i a (ipa_af a) (int (af_to_cidr (ipa_af a))) m) = Inr (ip_exploded a)"
proof -
  let ?r = "ipr_fields i a (ipa_af a) (int (af_to_cidr (ipa_af a))) m"
  have wf: "ipr_wf ?r" using assms by (intro ipr_fields_wf) auto
  have "ipr_i_nw ?r = ipa_int a" by (simp add: ipr_fields_def Let_def)
  moreover have "mk_ipa (ipa_af a) (ipa_int a) = a" by (cases a) (auto simp: ipa_af_def v_to_af_def)
  ultimately have "get_value ?r 0 = Inr a" using get_value_single [OF wf, of 0] by (simp add: ipr_max_def)
  then show ?thesis using ip_norm_str [OF assms] by (simp add: ipr_norm_def)
qed

lemma exploded_v6_shape:
  "CHR '':'' \<in> set (ip_exploded (IPv6Address n)) \<and> hd (ip_exploded (IPv6Address n)) \<noteq> CHR '':''"
proof -
  have j: "\<exists>h hs. hextets (Suc k) n = h # hs" for k n
    by (cases "hextets (Suc k) n") auto
  have "length (hextets 8 (nat n)) = 8" by simp
  then obtain a b t where h: "hextets 8 (nat n) = a # b # t"
    by (cases "hextets 8 (nat n)"; cases "tl (hextets 8 (nat n))") auto
  have "hd (hex4 a) \<noteq> CHR '':''" "hex4 a \<noteq> []"
    using hex4_no_sep [of "CHR '':''" a] by (auto simp: hex4_def)
  then show ?thesis by (simp add: h)
qed

lemma ip6_patch_shape:
  "ip6_patch_bind_ip plat ip nic = Inr t \<Longrightarrow> \<exists>suffix. t = ip @ suffix"
  by (auto simp: ip6_patch_bind_ip_def split: if_splits option.splits nic_id.splits)

lemma v6_not_any: "IpStr (ip_exploded (IPv6Address n)) \<notin> IpStr ` set VALID_ANY_ADDR"
proof -
  obtain t where t: "ip_exploded (IPv6Address n) = t" by blast
  show ?thesis using exploded_v6_shape [of n] unfolding t by (auto simp: VALID_ANY_ADDR_def)
qed


lemma res_ip_v6_not_loopback:
  assumes "0 \<le> n" "n < 2 ^ 128" "res_ip plat nic (ip_str (IPv6Address n)) a = Inr a'"
  shows "\<exists>r. a_v6 a' = Some r \<and> \<not> ri_is_loopback r \<and> a_v4 a' = a_v4 a \<and> a_port a' = a_port a \<and>
    (\<exists>suffix. ri_ip r = ip_exploded (IPv6Address n) @ suffix)"
proof -
  let ?a = "IPv6Address n"
  have ok: "ipa_ok ?a" using assms by simp
  have af: "ipa_af ?a = IP6" by (simp add: ipa_af_def v_to_af_def)
  obtain m where r: "IPRange (IpStr (ip_str ?a)) None (Some CIDR_WAN) =
      Inr (ipr_fields (IpStr (ip_exploded ?a)) ?a IP6 (int (af_to_cidr IP6)) (Some (IpStr m)))"
    using IPRange_wan [OF ok] by (auto simp only: af)
  obtain ip nic' where p: "patch_ip plat (ip_exploded ?a)
      (ipr_fields (IpStr (ip_exploded ?a)) ?a IP6 (int (af_to_cidr IP6)) (Some (IpStr m))) nic' = Inr ip"
    and a': "a' = a\<lparr>a_v6 := Some \<lparr>ri_ip = ip,
      ri_ipr = ipr_fields (IpStr (ip_exploded ?a)) ?a IP6 (int (af_to_cidr IP6)) (Some (IpStr m)),
      ri_is_loopback = (ip \<in> set VALID_LOOPBACKS)\<rparr>\<rparr>"
    using assms(3) ipr_fields_wan_norm [OF ok]
    unfolding res_ip_def r af Let_def by (auto simp: rbind_eq_Ok simp del: ip_exploded.simps)
  have "\<exists>suffix. ip = ip_exploded ?a @ suffix"
    using p v6_not_any [of n] ip6_patch_shape
    by (auto simp: patch_ip_def simp del: ip_exploded.simps split: if_splits)
  moreover from this have "CHR '':'' \<in> set ip \<and> hd ip \<noteq> CHR '':''"
    using exploded_v6_shape [of n] by (cases "ip_exploded ?a") (auto simp del: ip_exploded.simps)
  then have "ip \<notin> set VALID_LOOPBACKS" by (auto simp: VALID_LOOPBACKS_def)
  ultimately show ?thesis using a' by (auto simp del: ip_exploded.simps)
qed

lemma res_ip_v4:
  assumes "0 \<le> n" "n < 2 ^ 32"
  shows "\<exists>r. res_ip plat nic (ip_str (IPv4Address n)) a = Inr (a\<lparr>a_v4 := Some r\<rparr>) \<and>
    ri_ip r = (if n = 0 then ''127.0.0.1'' else ip_str (IPv4Address n)) \<and>
    ri_is_loopback r = (n = 0 \<or> n = 0x7F000001)"
proof -
  let ?a = "IPv4Address n"
  have ok: "ipa_ok ?a" using assms by simp
  have af: "ipa_af ?a = IP4" by (simp add: ipa_af_def v_to_af_def)
  have str: "ip_str ?a = ip_exploded ?a" by simp
  have lo: "ip_str (IPv4Address 0x7F000001) = ''127.0.0.1''" "ip_str (IPv4Address 0) = ''0.0.0.0''"
    by (simp_all add: eval_simps)
  have inj: "ip_str ?a = ip_str (IPv4Address k) \<longleftrightarrow> n = k" if "ipa_ok (IPv4Address k)" for k
    using ip_address_str [OF ok] ip_address_str [OF that] by (metis ipa.inject(1) sum.inject(2))
  have l1: "ip_str ?a = ''127.0.0.1'' \<longleftrightarrow> n = 0x7F000001" and l2: "ip_str ?a = ''0.0.0.0'' \<longleftrightarrow> n = 0"
    using inj [of "0x7F000001"] inj [of 0] by (simp_all add: lo del: ip_str.simps)
  have l3: "ip_str ?a \<noteq> ''::''" "ip_str ?a \<noteq> ''::1''" using ip_str_v4_no_sep [of "CHR '':''" n] by auto
  obtain m where r: "IPRange (IpStr (ip_str ?a)) None (Some CIDR_WAN) =
      Inr (ipr_fields (IpStr (ip_str ?a)) ?a IP4 (int (af_to_cidr IP4)) (Some (IpStr m)))"
    using IPRange_wan [OF ok] by (auto simp only: af str)
  have nm: "ipr_norm (ipr_fields (IpStr (ip_str ?a)) ?a IP4 (int (af_to_cidr IP4)) (Some (IpStr m))) = Inr (ip_str ?a)"
    using ipr_fields_wan_norm [OF ok, of "IpStr (ip_str ?a)" "Some (IpStr m)"] unfolding af str .
  show ?thesis
    unfolding res_ip_def r Let_def
    using nm l1 l2 l3
    by (auto simp: patch_ip_def VALID_ANY_ADDR_def VALID_LOOPBACKS_def simp del: ip_str.simps)
qed

section \<open>Properties\<close>

text \<open>An IPv4 text resolves without any resolver, to itself, or to 127.0.0.1 when it is the
  any-address; it is marked as loopback exactly for these two, and asking the resolved address for
  the other family is a KeyError.\<close>

theorem resolve_ipv4_text:
  assumes "0 \<le> n" and "n < 2 ^ 32"
  shows "\<exists>a d. address_res plat dns fallback (Suc fuel) nic None
             (new_address (ip_str (IPv4Address n)) port if_nic) = Some (Inr a) \<and>
           select_ip a IP4 = Inr d \<and>
           dt_tup d = (if n = 0 then ''127.0.0.1'' else ip_str (IPv4Address n), port) \<and>
           dt_is_loopback d = (n = 0 \<or> n = 0x7F000001) \<and>
           select_ip a IP6 = Inl KeyError"
proof -
  let ?h = "ip_str (IPv4Address n)"
  obtain r where r: "res_ip plat nic ?h (new_address ?h port if_nic) = Inr ((new_address ?h port if_nic)\<lparr>a_v4 := Some r\<rparr>)"
    "ri_ip r = (if n = 0 then ''127.0.0.1'' else ?h)" "ri_is_loopback r = (n = 0 \<or> n = 0x7F000001)"
    using res_ip_v4 [OF assms] by metis
  have "a_host (new_address ?h port if_nic) = ?h" by (simp add: new_address_def)
  then have "address_res plat dns fallback (Suc fuel) nic None (new_address ?h port if_nic) =
      Some (Inr ((new_address ?h port if_nic)\<lparr>a_v4 := Some r, a_resolved := True\<rparr>))"
    using r(1) by (simp del: ip_str.simps)
  then show ?thesis
    using r(2,3) by (simp add: select_ip_def DestTup_def new_address_def dt_tup_def del: ip_str.simps)
qed

theorem resolve_ipv4_text_witness:
  "\<exists>a d. address_res ''Linux'' (\<lambda>_. Inr []) (\<lambda>_. Inr []) (Suc 0) None None
       (new_address (ip_str (IPv4Address 0)) 80 None) = Some (Inr a) \<and>
     select_ip a IP4 = Inr d \<and>
     dt_tup d = (if (0::int) = 0 then ''127.0.0.1'' else ip_str (IPv4Address 0), 80) \<and>
     dt_is_loopback d = ((0::int) = 0 \<or> (0::int) = 0x7F000001) \<and>
     select_ip a IP6 = Inl KeyError"
  by (rule resolve_ipv4_text) simp_all

text \<open>For IPv6 the same code compares the exploded form with the short texts \<open>::\<close> and \<open>::1\<close>,
  so no resolved IPv6 destination is ever marked as loopback, and the any-address is not rewritten:
  the destination is always the exploded text, possibly with a scope appended.\<close>

theorem resolve_ipv6_never_loopback:
  assumes "0 \<le> n" and "n < 2 ^ 128" and "res_ip plat nic (ip_str (IPv6Address n)) a = Inr a'"
  shows "\<exists>d suffix. select_ip a' IP6 = Inr d \<and> \<not> dt_is_loopback d \<and>
           dt_tup d = (ip_exploded (IPv6Address n) @ suffix, a_port a)"
  using res_ip_v6_not_loopback [OF assms]
  by (auto simp: select_ip_def DestTup_def dt_tup_def simp del: ip_exploded.simps)

theorem resolve_ipv6_never_loopback_witness:
  "\<exists>a' d. res_ip ''Linux'' None ''::1'' (new_address ''::1'' 80 None) = Inr a' \<and>
     select_ip a' IP6 = Inr d \<and> \<not> dt_is_loopback d"
proof -
  let ?a = "new_address ''::1'' 80 None"
  have s: "ip_str (IPv6Address 1) = ''::1''" by (simp add: eval_simps)
  have ok: "ipa_ok (IPv6Address 1)" and af: "ipa_af (IPv6Address 1) = IP6" by (simp_all add: ipa_af_def v_to_af_def)
  obtain m where r: "IPRange (IpStr ''::1'') None (Some CIDR_WAN) =
      Inr (ipr_fields (IpStr (ip_exploded (IPv6Address 1))) (IPv6Address 1) IP6 (int (af_to_cidr IP6)) (Some (IpStr m)))"
    using IPRange_wan [OF ok] unfolding s af by blast
  have "\<exists>a'. res_ip ''Linux'' None ''::1'' ?a = Inr a'"
    using ipr_fields_wan_norm [OF ok] unfolding res_ip_def r af Let_def
    by (auto simp: patch_ip_def ip6_patch_bind_ip_def split: option.splits)
  then obtain a' where "res_ip ''Linux'' None (ip_str (IPv6Address 1)) ?a = Inr a'" unfolding s by blast
  then show ?thesis using resolve_ipv6_never_loopback [of 1 "''Linux''" None ?a a'] unfolding s by auto
qed

end
