(* ===== verification/Nat_Info.thy ===== *)
theory Nat_Info
  imports Py_Utils
begin

text \<open>
  \<^verbatim>\<open>nic/nat/nat_utils.py\<close>: the NAT description, the delta test that classifies how a NAT
  allocates external ports, and the checks whether two NATs can be traversed together. The results
  of the STUN exchanges are inputs of the definitions.
\<close>

section \<open>Constants\<close>

definition STUN_PORT :: int where "STUN_PORT = 3478"
definition MAX_MAP_NO :: nat where "MAX_MAP_NO = 100"
definition USE_MAP_NO :: nat where "USE_MAP_NO = 2"

definition OPEN_INTERNET :: int where "OPEN_INTERNET = 1"
definition SYMMETRIC_UDP_FIREWALL :: int where "SYMMETRIC_UDP_FIREWALL = 2"
definition FULL_CONE :: int where "FULL_CONE = 3"
definition RESTRICT_NAT :: int where "RESTRICT_NAT = 4"
definition RESTRICT_PORT_NAT :: int where "RESTRICT_PORT_NAT = 5"
definition SYMMETRIC_NAT :: int where "SYMMETRIC_NAT = 6"
definition BLOCKED_NAT :: int where "BLOCKED_NAT = 7"

definition NA_DELTA :: int where "NA_DELTA = 1"
definition EQUAL_DELTA :: int where "EQUAL_DELTA = 2"
definition PRESERV_DELTA :: int where "PRESERV_DELTA = 3"
definition INDEPENDENT_DELTA :: int where "INDEPENDENT_DELTA = 4"
definition DEPENDENT_DELTA :: int where "DEPENDENT_DELTA = 5"
definition RANDOM_DELTA :: int where "RANDOM_DELTA = 6"

lemmas nat_consts = OPEN_INTERNET_def SYMMETRIC_UDP_FIREWALL_def FULL_CONE_def RESTRICT_NAT_def
  RESTRICT_PORT_NAT_def SYMMETRIC_NAT_def BLOCKED_NAT_def NA_DELTA_def EQUAL_DELTA_def
  PRESERV_DELTA_def INDEPENDENT_DELTA_def DEPENDENT_DELTA_def RANDOM_DELTA_def STUN_PORT_def

definition EASY_NATS :: "int list" where
  "EASY_NATS = [OPEN_INTERNET, FULL_CONE]"

definition DELTA_N :: "int list" where
  "DELTA_N = [EQUAL_DELTA, PRESERV_DELTA, INDEPENDENT_DELTA, DEPENDENT_DELTA]"

definition PREDICTABLE_NATS :: "int list" where
  "PREDICTABLE_NATS = [FULL_CONE, RESTRICT_NAT, RESTRICT_PORT_NAT, OPEN_INTERNET]"

definition FUSSY_NATS :: "int list" where
  "FUSSY_NATS = [RESTRICT_PORT_NAT]"

definition BLOCKING_NATS :: "int list" where
  "BLOCKING_NATS = [BLOCKED_NAT]"

definition TCP_PUNCH_LAN :: int where "TCP_PUNCH_LAN = 1"
definition TCP_PUNCH_REMOTE :: int where "TCP_PUNCH_REMOTE = 2"
definition TCP_PUNCH_SELF :: int where "TCP_PUNCH_SELF = 3"

lemmas punch_consts = TCP_PUNCH_LAN_def TCP_PUNCH_REMOTE_def TCP_PUNCH_SELF_def

section \<open>The NAT description\<close>

record delta =
  delta_type :: int
  delta_value :: int

record nat_desc =
  nat_type :: int
  nat_delta :: delta
  nat_range :: "int \<times> int"
  is_open :: bool
  can_predict :: bool
  is_hard :: bool
  is_concurrent :: bool

definition f_is_open :: "int \<Rightarrow> delta \<Rightarrow> bool" where
  "f_is_open n d = (n \<in> {OPEN_INTERNET, SYMMETRIC_UDP_FIREWALL})"

definition f_can_predict :: "int \<Rightarrow> delta \<Rightarrow> bool" where
  "f_can_predict n d = (n \<in> set PREDICTABLE_NATS)"

definition f_is_hard :: "int \<Rightarrow> delta \<Rightarrow> bool" where
  "f_is_hard n d =
     (let not_easy = n \<notin> set EASY_NATS
      in not_easy \<and> delta_type d \<notin> {PRESERV_DELTA, EQUAL_DELTA})"

definition delta_info :: "int \<Rightarrow> int \<Rightarrow> delta" where
  "delta_info ty v = \<lparr>delta_type = ty, delta_value = v\<rparr>"

definition nat_info :: "int option \<Rightarrow> delta option \<Rightarrow> (int \<times> int) option \<Rightarrow> nat_desc" where
  "nat_info ty d r =
     (let d = (case d of Some d \<Rightarrow> d | None \<Rightarrow> delta_info RANDOM_DELTA 0);
          r = (case r of Some r \<Rightarrow> r | None \<Rightarrow> (1, MAX_PORT));
          ty = (case ty of Some t \<Rightarrow> (if t = 0 then RESTRICT_PORT_NAT else t) | None \<Rightarrow> RESTRICT_PORT_NAT);
          bad_delta = delta_type d \<in> {INDEPENDENT_DELTA, DEPENDENT_DELTA}
      in \<lparr>nat_type = ty, nat_delta = d, nat_range = r, is_open = f_is_open ty d,
          can_predict = f_can_predict ty d, is_hard = f_is_hard ty d,
          is_concurrent = (ty \<in> set EASY_NATS \<or> \<not> bad_delta)\<rparr>)"

definition valid_mappings_len :: "'a list \<Rightarrow> bool" where
  "valid_mappings_len mappings = (length mappings \<noteq> 0 \<and> \<not> length mappings > MAX_MAP_NO)"

section \<open>The delta test\<close>

text \<open>
  One STUN result: None when the exchange failed, otherwise the local port and the mapped port
  (None when the reply had none).
\<close>

type_synonym map_result = "(int \<times> int option) option"

record delta_counts =
  delta_no :: "(int \<times> nat) list"
  dist_no :: "(int \<times> nat) list"
  preserv_dist :: "(int \<times> nat) list"
  local_dist :: "(int \<times> nat) list"

definition no_counts :: delta_counts where
  "no_counts = \<lparr>delta_no = [], dist_no = [], preserv_dist = [], local_dist = []\<rparr>"

definition count_up :: "int \<Rightarrow> (int \<times> nat) list \<Rightarrow> (int \<times> nat) list" where
  "count_up k d = dict_set k ((case map_of d k of Some n \<Rightarrow> n | None \<Rightarrow> 0) + 1) d"

text \<open>
  The body of the loop of \<open>get_delta_value\<close> for the result at one index and the one before it
  (None at index 0). A failed previous result makes the subscription raise, which the \<open>except\<close>
  of the body swallows together with the rest of that round.
\<close>

definition delta_round :: "map_result option \<Rightarrow> map_result \<Rightarrow> delta_counts \<Rightarrow> delta_counts" where
  "delta_round prev cur c =
     (case cur of
        None \<Rightarrow> c
      | Some (_, None) \<Rightarrow> c
      | Some (loc, Some mapped) \<Rightarrow>
          (case prev of
             Some None \<Rightarrow> c
           | _ \<Rightarrow>
             (let prev_result = (case prev of Some (Some (pl, Some pm)) \<Rightarrow> Some (pl, pm) | _ \<Rightarrow> None);
                  c = (if loc = mapped then c\<lparr>delta_no := count_up EQUAL_DELTA (delta_no c)\<rparr> else c)
              in case prev_result of
                   None \<Rightarrow> c
                 | Some (prev_local, prev_mapped) \<Rightarrow>
                     if prev_local = 0 \<or> prev_mapped = 0 then c
                     else (let ld = \<bar>field_dist loc prev_local MAX_PORT\<bar>;
                               md = \<bar>field_dist mapped prev_mapped MAX_PORT\<bar>
                           in if md = ld
                              then (if mapped \<noteq> loc
                                    then c\<lparr>preserv_dist := dict_set md 1 (preserv_dist c),
                                           delta_no := count_up PRESERV_DELTA (delta_no c)\<rparr>
                                    else c)
                              else if ld \<noteq> 1 then c\<lparr>dist_no := count_up md (dist_no c)\<rparr>
                              else c\<lparr>local_dist := count_up md (local_dist c)\<rparr>))))"

fun get_delta_value :: "map_result option \<Rightarrow> map_result list \<Rightarrow> delta_counts \<Rightarrow> delta_counts" where
  "get_delta_value prev [] c = c"
| "get_delta_value prev (r # rs) c = get_delta_value (Some r) rs (delta_round prev r c)"

definition first_over :: "nat \<Rightarrow> (int \<times> nat) list \<Rightarrow> int option" where
  "first_over t d = map_option fst (find (\<lambda>(k, n). n \<ge> t) d)"

text \<open>
  \<open>delta_test\<close> on the two batches of results (random source ports, then consecutive ones). The
  sequential mode drops failed results of the first batch, the concurrent mode keeps them.
\<close>

definition delta_test :: "map_result list \<Rightarrow> map_result list \<Rightarrow> nat \<Rightarrow> bool \<Rightarrow> delta" where
  "delta_test results1 results2 threshold concurrency =
     (let results1 = (if concurrency then results1 else filter (\<lambda>r. r \<noteq> None) results1);
          c = get_delta_value None results1 no_counts;
          test_names = (if length (preserv_dist c) \<le> 1 then [EQUAL_DELTA] else [EQUAL_DELTA, PRESERV_DELTA])
      in case find (\<lambda>n. case map_of (delta_no c) n of None \<Rightarrow> False | Some k \<Rightarrow> k \<ge> threshold) test_names of
           Some n \<Rightarrow> delta_info n 0
         | None \<Rightarrow>
             (case first_over threshold (dist_no c) of
                Some d \<Rightarrow> delta_info INDEPENDENT_DELTA d
              | None \<Rightarrow>
                  (let c = get_delta_value None results2 no_counts
                   in case first_over threshold (local_dist c) of
                        Some d \<Rightarrow> delta_info DEPENDENT_DELTA d
                      | None \<Rightarrow> delta_info RANDOM_DELTA 0)))"

text \<open>
  \<open>get_start_port\<close>: draws a start port until it lies outside every recorded range; the draws
  come from an entropy stream.
\<close>

definition start_conflict :: "int \<Rightarrow> (int \<times> int) list \<Rightarrow> int \<Rightarrow> bool" where
  "start_conflict test_no range_info p =
     list_ex (\<lambda>(other_dist, other_start). p \<ge> other_start \<and> p \<le> other_start + test_no * other_dist) range_info"

partial_function (option) get_start_port ::
  "(nat \<Rightarrow> nat) \<Rightarrow> int \<Rightarrow> int \<Rightarrow> (int \<times> int) list \<Rightarrow> nat \<Rightarrow> int res option" where
  "get_start_port e test_no port_dist range_info i =
     (case randrange (e i) 4000 (MAX_PORT - test_no * port_dist) of
        Inl err \<Rightarrow> Some (Inl err)
      | Inr p \<Rightarrow> (if start_conflict test_no range_info p
                  then get_start_port e test_no port_dist range_info (i + 1)
                  else Some (Inr p)))"

text \<open>The source ports of a batch: consecutive from the start port, or random ones.\<close>

definition test_ports :: "(nat \<Rightarrow> nat) \<Rightarrow> nat \<Rightarrow> int \<Rightarrow> int \<Rightarrow> int list res" where
  "test_ports e test_no start_port port_dist =
     rmap_list (\<lambda>i. if start_port \<noteq> 0 then Ok (start_port + int i * port_dist)
                    else randrange (e i) 4000 MAX_PORT) [0..<test_no]"

section \<open>Compatibility of two NATs\<close>

text \<open>
  \<open>nats_intersect\<close> writes 2000 into the first element of the list it is about to return. When
  that list is our NAT's own range the write changes the NAT as well, so the NAT is threaded
  through; the write stays even when the exception follows.
\<close>

definition nats_intersect :: "nat_desc \<Rightarrow> nat_desc \<Rightarrow> int \<Rightarrow> (int \<times> int) res \<times> nat_desc" where
  "nats_intersect our_nat their_nat test_no =
     (let r = intersect_range (nat_range our_nat) (nat_range their_nat);
          fresh = range_intersects (nat_range our_nat) (nat_range their_nat) \<and> snd r - fst r \<ge> test_no;
          use_range = (if fresh then r else nat_range our_nat)
      in if fst use_range \<le> 1024
         then (let use_range = (2000, snd use_range);
                   our_nat = (if fresh then our_nat else our_nat\<lparr>nat_range := use_range\<rparr>)
               in (if fst use_range \<ge> snd use_range
                   then Err (PyException ''Can't find intersecting port range.'') else Ok use_range, our_nat))
         else (Ok use_range, our_nat))"

text \<open>One round of the loop of \<open>nats_can_predict\<close> for a pair of NATs.\<close>

definition strict_round :: "nat_desc \<Rightarrow> nat_desc \<Rightarrow> int \<Rightarrow> int res" where
  "strict_round strict unrestrict use_stun_port =
     (let (strict, unrestrict) =
            (if nat_type unrestrict = RESTRICT_PORT_NAT then (unrestrict, strict) else (strict, unrestrict));
          strict_rand_delta = delta_type (nat_delta strict) = RANDOM_DELTA
      in if strict_rand_delta \<and> is_hard unrestrict
         then Err (PyException ''Unable to satisfy mapping for strict port type.'')
         else if strict_rand_delta \<and> \<not> in_range STUN_PORT (nat_range unrestrict)
         then Err (PyException ''Can't support reply port 3478 for strict NAT.'')
         else Ok (if strict_rand_delta then 1 else use_stun_port))"

definition nats_can_predict :: "nat_desc \<Rightarrow> nat_desc \<Rightarrow> int res" where
  "nats_can_predict our_nat their_nat =
     (let our_strict = nat_type our_nat = RESTRICT_PORT_NAT;
          other_strict = nat_type their_nat = RESTRICT_PORT_NAT;
          our_rand_delta = delta_type (nat_delta our_nat) = RANDOM_DELTA;
          their_rand_delta = delta_type (nat_delta their_nat) = RANDOM_DELTA
      in if our_strict \<and> other_strict \<and> (our_rand_delta \<or> their_rand_delta)
         then Err (PyException ''Two strict port nats need non-rand deltas.'')
         else if our_strict \<or> other_strict
         then rbind (strict_round our_nat their_nat 0) (strict_round their_nat our_nat)
         else Ok 0)"

section \<open>Counting\<close>

lemma map_of_count_up [simp]:
  "map_of (count_up k d) j = (if j = k then Some ((case map_of d k of Some n \<Rightarrow> n | None \<Rightarrow> 0) + 1) else map_of d j)"
  by (simp add: count_up_def)

lemma count_up_pow:
  "map_of ((count_up k ^^ n) []) j = (if j = k \<and> 0 < n then Some n else None)"
proof (induction n)
  case (Suc n)
  show ?case using Suc.IH by (cases "n = 0"; cases "j = k") simp_all
qed simp

lemma count_up_pow_single: "0 < n \<Longrightarrow> (count_up k ^^ n) [] = [(k, n)]"
proof (induction n)
  case (Suc n)
  then show ?case by (cases n) (auto simp: count_up_def)
qed simp

text \<open>What a NAT that keeps the port, and one that counts up by \<open>d\<close>, answer for the local ports.\<close>

definition equal_nat_results :: "int list \<Rightarrow> map_result list" where
  "equal_nat_results ls = map (\<lambda>l. Some (l, Some l)) ls"

fun counting_nat_results :: "int \<Rightarrow> int \<Rightarrow> int list \<Rightarrow> map_result list" where
  "counting_nat_results m d [] = []"
| "counting_nat_results m d (l # ls) = Some (l, Some m) # counting_nat_results (m + d) d ls"

lemma get_delta_value_equal:
  "(prev = None \<or> (\<exists>p. prev = Some (Some (p, Some p)))) \<Longrightarrow>
   get_delta_value prev (equal_nat_results ls) c =
     c\<lparr>delta_no := (count_up EQUAL_DELTA ^^ length ls) (delta_no c)\<rparr>"
proof (induction ls arbitrary: prev c)
  case (Cons l ls)
  have "delta_round prev (Some (l, Some l)) c = c\<lparr>delta_no := count_up EQUAL_DELTA (delta_no c)\<rparr>"
    using Cons.prems by (auto simp: delta_round_def Let_def)
  then show ?case
    using Cons.IH [of "Some (Some (l, Some l))"]
    by (simp add: equal_nat_results_def funpow_swap1)
qed (simp add: equal_nat_results_def)

text \<open>
  The side conditions of the counting NAT: no mapped port equals its local port, and no two
  successive local ports are at distance 1 or \<open>d\<close> of each other.
\<close>

fun counting_ok :: "int \<Rightarrow> int \<Rightarrow> int list \<Rightarrow> bool" where
  "counting_ok m d [] = True"
| "counting_ok m d [l] = (1 \<le> m \<and> m \<le> MAX_PORT \<and> l \<noteq> m)"
| "counting_ok m d (l # l' # ls) =
     (1 \<le> m \<and> m \<le> MAX_PORT \<and> l \<noteq> m \<and> l \<noteq> 0 \<and>
      \<bar>field_dist l' l MAX_PORT\<bar> \<noteq> 1 \<and> \<bar>field_dist l' l MAX_PORT\<bar> \<noteq> d \<and> counting_ok (m + d) d (l' # ls))"

lemma counting_dist:
  "0 < d \<Longrightarrow> 2 * d \<le> MAX_PORT \<Longrightarrow> 0 \<le> m \<Longrightarrow> m + d \<le> MAX_PORT \<Longrightarrow> \<bar>field_dist (m + d) m MAX_PORT\<bar> = d"
  by (subst field_dist_abs) auto

lemma counting_ok_bounds: "counting_ok m d (l # ls) \<Longrightarrow> 1 \<le> m \<and> m \<le> MAX_PORT \<and> l \<noteq> m"
  by (cases ls) auto

lemma get_delta_value_counting:
  "counting_ok m d (l # ls) \<Longrightarrow> 0 < d \<Longrightarrow> 2 * d \<le> MAX_PORT \<Longrightarrow>
   get_delta_value (Some (Some (l, Some m))) (counting_nat_results (m + d) d ls) c =
     c\<lparr>dist_no := (count_up d ^^ length ls) (dist_no c)\<rparr>"
proof (induction ls arbitrary: l m c)
  case (Cons l' ls)
  then have ok: "counting_ok (m + d) d (l' # ls)" by simp
  have "delta_round (Some (Some (l, Some m))) (Some (l', Some (m + d))) c =
      c\<lparr>dist_no := count_up d (dist_no c)\<rparr>"
    using Cons.prems counting_ok_bounds [OF ok] counting_dist [of d m]
    by (auto simp: delta_round_def Let_def)
  then show ?case
    using Cons.IH [OF ok Cons.prems(2,3)] by (simp add: funpow_swap1)
qed simp

lemma get_delta_value_counting_start:
  assumes "counting_ok m d (l # ls)" "0 < d" "2 * d \<le> MAX_PORT"
  shows "get_delta_value None (counting_nat_results m d (l # ls)) no_counts =
     no_counts\<lparr>dist_no := (count_up d ^^ length ls) []\<rparr>"
proof -
  have "delta_round None (Some (l, Some m)) no_counts = no_counts"
    using counting_ok_bounds [OF assms(1)] by (simp add: delta_round_def Let_def)
  then show ?thesis
    using get_delta_value_counting [OF assms, of no_counts] by (simp add: no_counts_def)
qed

lemma counting_all_some: "None \<notin> set (counting_nat_results m d ls)"
  by (induction ls arbitrary: m) auto

lemma filter_all_some: "None \<notin> set rs \<Longrightarrow> filter (\<lambda>r. r \<noteq> None) rs = rs"
  by (rule filter_True) (intro ballI notI, simp)

lemma range_intersects_max:
  "fst a \<le> snd a \<Longrightarrow> fst b \<le> snd b \<Longrightarrow> range_intersects a b \<longleftrightarrow> max (fst a) (fst b) \<le> min (snd a) (snd b)"
  by (cases a; cases b) (auto simp: range_intersects_def pair_le_def Let_def)

definition needs_stun_port :: "nat_desc \<Rightarrow> nat_desc \<Rightarrow> bool" where
  "needs_stun_port s u =
     (nat_type s = RESTRICT_PORT_NAT \<and> nat_type u \<noteq> RESTRICT_PORT_NAT \<and>
      delta_type (nat_delta s) = RANDOM_DELTA \<and> \<not> is_hard u \<and> in_range STUN_PORT (nat_range u))"

section \<open>Properties\<close>

text \<open>The delta test recognises a NAT that keeps the source port (EQUAL) and one that increases
  the external port by a fixed step whatever the source port (INDEPENDENT, with that step), as soon
  as the number of comparable results reaches the threshold.\<close>

theorem delta_test_recognises:
  assumes "0 < threshold" and "threshold \<le> length ls"
    and "counting_ok m d (l # ls)" and "0 < d" and "2 * d \<le> MAX_PORT"
  shows "delta_test (equal_nat_results ls) rs threshold conc = delta_info EQUAL_DELTA 0 \<and>
         delta_test (counting_nat_results m d (l # ls)) rs threshold conc = delta_info INDEPENDENT_DELTA d"
proof
  have n: "0 < length ls" using assms(1,2) by linarith
  have "None \<notin> set (equal_nat_results ls)" by (auto simp: equal_nat_results_def)
  note f = filter_all_some [OF this]
  show "delta_test (equal_nat_results ls) rs threshold conc = delta_info EQUAL_DELTA 0"
    unfolding delta_test_def Let_def f if_cancel
    using get_delta_value_equal [of None ls no_counts] assms(2) n
    by (simp add: no_counts_def count_up_pow)
next
  have n: "0 < length ls" using assms(1,2) by linarith
  show "delta_test (counting_nat_results m d (l # ls)) rs threshold conc = delta_info INDEPENDENT_DELTA d"
    unfolding delta_test_def Let_def filter_all_some [OF counting_all_some] if_cancel
    using get_delta_value_counting_start [OF assms(3-5)] assms(2) n
    by (simp add: no_counts_def count_up_pow_single first_over_def)
qed

theorem delta_test_recognises_witness:
  "delta_test (equal_nat_results [9000, 5000, 7000, 20000, 8000]) [] 5 True = delta_info EQUAL_DELTA 0 \<and>
   delta_test (counting_nat_results 30000 2 (6000 # [9000, 5000, 7000, 20000, 8000])) [] 5 True =
     delta_info INDEPENDENT_DELTA 2"
  by (rule delta_test_recognises) (simp_all add: MAX_PORT_def field_dist_def Let_def)

text \<open>Both peers come to the same verdict: \<open>nats_can_predict\<close> is symmetric. It asks for the STUN
  port exactly when one side alone is port restricted with random delta, and then only if the other
  side is not hard and can use that port; two port-restricted NATs need predictable deltas.\<close>

theorem nats_can_predict_symmetric:
  "nats_can_predict a b = nats_can_predict b a \<and>
   (nats_can_predict a b = Inr 1 \<longleftrightarrow> needs_stun_port a b \<or> needs_stun_port b a)"
proof
  show "nats_can_predict a b = nats_can_predict b a"
    by (auto simp: nats_can_predict_def strict_round_def Let_def)
  show "nats_can_predict a b = Inr 1 \<longleftrightarrow> needs_stun_port a b \<or> needs_stun_port b a"
    by (cases "nat_type a = RESTRICT_PORT_NAT"; cases "nat_type b = RESTRICT_PORT_NAT")
       (simp_all add: nats_can_predict_def strict_round_def needs_stun_port_def Let_def)
qed

text \<open>When \<open>nats_intersect\<close> returns a range, it avoids the low ports, lies in our NAT's range and
  is not empty; the only change it makes to our NAT is to raise the start of its range, and a second
  call gives the same range.\<close>

theorem nats_intersect_sound:
  assumes "nats_intersect our their t = (Inr r, our')"
    and "fst (nat_range our) < snd (nat_range our)" and "fst (nat_range their) \<le> snd (nat_range their)" and "0 < t"
  shows "1024 < fst r \<and> fst r < snd r \<and>
         (\<forall>x. in_range x r \<longrightarrow> in_range x (nat_range our)) \<and>
         our' = our\<lparr>nat_range := nat_range our'\<rparr> \<and>
         nat_range our' \<in> {nat_range our, (2000, snd (nat_range our))} \<and>
         nats_intersect our' their t = (Inr r, our')"
proof -
  let ?a = "nat_range our" and ?b = "nat_range their"
  have le: "fst ?a \<le> snd ?a" using assms(2) by simp
  note ix = intersect_range_eq [OF le assms(3)] and ri = range_intersects_max [OF le assms(3)]
  show ?thesis
  proof (cases "range_intersects ?a ?b \<and> t \<le> min (snd ?a) (snd ?b) - max (fst ?a) (fst ?b)")
    case True
    define m where "m = intersect_range ?a ?b"
    have m: "fst m = max (fst ?a) (fst ?b)" "snd m = min (snd ?a) (snd ?b)" using ix True by (auto simp: m_def)
    have o: "our' = our" "r = (if fst m \<le> 1024 then (2000, snd m) else m)" "fst r < snd r"
      using assms(1,4) True m by (auto simp: nats_intersect_def m_def [symmetric] Let_def split: if_splits)
    then show ?thesis
      using assms(1) m by (auto simp: in_range_def split: if_splits)
  next
    case False
    then have f: "\<not> (range_intersects ?a ?b \<and> snd (intersect_range ?a ?b) - fst (intersect_range ?a ?b) \<ge> t)"
      using ix by auto
    show ?thesis
    proof (cases "fst ?a \<le> 1024")
      case True
      let ?a' = "(2000, snd ?a)"
      have r: "r = ?a'" "our' = our\<lparr>nat_range := ?a'\<rparr>" "2000 < snd ?a"
        using assms(1) f True by (auto simp: nats_intersect_def Let_def split: if_splits)
      have le': "fst ?a' \<le> snd ?a'" using r(3) by simp
      have "\<not> (range_intersects ?a' ?b \<and> snd (intersect_range ?a' ?b) - fst (intersect_range ?a' ?b) \<ge> t)"
        using False True range_intersects_max [OF le' assms(3)] intersect_range_eq [OF le' assms(3)] ri
        by (auto simp: min_def max_def split: if_splits)
      then have "nats_intersect our' their t = (Inr r, our')"
        by (auto simp: nats_intersect_def Let_def r)
      then show ?thesis using r True by (auto simp: in_range_def)
    next
      case nl: False
      have "r = ?a" "our' = our" using assms(1) f nl by (auto simp: nats_intersect_def Let_def split: if_splits)
      then show ?thesis using assms(1,2) nl by auto
    qed
  qed
qed

theorem nats_intersect_sound_witness:
  "\<exists>our'. nats_intersect (nat_info None None (Some (1, 65535))) (nat_info None None (Some (70000, 80000))) 2 = (Inr (2000, 65535), our') \<and>
     nat_range our' = (2000, 65535) \<and>
     nats_intersect our' (nat_info None None (Some (70000, 80000))) 2 = (Inr (2000, 65535), our')"
proof -
  let ?a = "nat_info None None (Some (1, 65535))" and ?b = "nat_info None None (Some (70000, 80000))"
  have "nats_intersect ?a ?b 2 = (Inr (2000, 65535), ?a\<lparr>nat_range := (2000, 65535)\<rparr>)"
    by (simp add: nats_intersect_def nat_info_def Let_def range_intersects_def pair_le_def)
  then show ?thesis
    using nats_intersect_sound [of ?a ?b 2 "(2000, 65535)" "?a\<lparr>nat_range := (2000, 65535)\<rparr>"]
    by (simp add: nat_info_def Let_def)
qed

end
