(* ===== verification/Nat_Predict.thy ===== *)
theory Nat_Predict
  imports Nat_Info
begin

text \<open>
  \<^verbatim>\<open>nic/nat/nat_predict.py\<close>: port mappings and their prediction. Mappings obtained by STUN are
  inputs; random draws are entropy values; sockets are opaque references.
\<close>

section \<open>Mappings\<close>

record 's nat_mapping =
  m_local :: int
  m_reply :: int
  m_remote :: int
  m_sock :: "'s option"

definition NATMapping :: "int \<Rightarrow> int \<Rightarrow> int \<Rightarrow> 's option \<Rightarrow> 's nat_mapping" where
  "NATMapping l r m s = \<lparr>m_local = l, m_reply = r, m_remote = m, m_sock = s\<rparr>"

text \<open>\<open>to_dict\<close> and \<open>from_dict\<close>: the four named fields, in this order.\<close>

definition mapping_to_dict :: "'s nat_mapping \<Rightarrow> int \<times> int \<times> int \<times> 's option" where
  "mapping_to_dict m = (m_local m, m_reply m, m_remote m, m_sock m)"

definition mapping_from_dict :: "int \<times> int \<times> int \<times> 's option \<Rightarrow> 's nat_mapping" where
  "mapping_from_dict d = (case d of (l, r, m, s) \<Rightarrow> NATMapping l r m s)"

definition toJSON :: "'s nat_mapping \<Rightarrow> int list" where
  "toJSON m = [m_local m, m_reply m, m_remote m]"

definition mappings_objs_to_dicts :: "'s nat_mapping list \<Rightarrow> (int \<times> int \<times> int \<times> 's option) list" where
  "mappings_objs_to_dicts ms = map mapping_to_dict ms"

definition mappings_dicts_to_objs :: "(int \<times> int \<times> int \<times> 's option) list \<Rightarrow> 's nat_mapping list" where
  "mappings_dicts_to_objs ds = map mapping_from_dict ds"

text \<open>
  \<open>get_high_port_mapping\<close>: five attempts, each of which binds a high port and asks STUN for
  (local, mapped, sock), or raises.
\<close>

fun high_port_mapping :: "(nat \<Rightarrow> (int \<times> int \<times> 's option) res) \<Rightarrow> nat \<Rightarrow> nat \<Rightarrow> 's nat_mapping res" where
  "high_port_mapping attempt i 0 = Err (PyException ''high port sock fail.'')"
| "high_port_mapping attempt i (Suc k) =
     (case attempt i of
        Inr (loc, mapped, s) \<Rightarrow> Ok (NATMapping loc 0 mapped s)
      | Inl _ \<Rightarrow> high_port_mapping attempt (i + 1) k)"

definition get_high_port_mapping :: "(nat \<Rightarrow> (int \<times> int \<times> 's option) res) \<Rightarrow> 's nat_mapping res" where
  "get_high_port_mapping attempt = high_port_mapping attempt 0 5"

section \<open>Templates and initial choices\<close>

fun get_mapping_templates :: "(nat \<Rightarrow> nat) \<Rightarrow> bool \<Rightarrow> int \<times> int \<Rightarrow> nat \<Rightarrow> 's nat_mapping list res" where
  "get_mapping_templates e use_stun_port use_range 0 = Ok []"
| "get_mapping_templates e use_stun_port use_range (Suc k) =
     (if use_stun_port then Ok [NATMapping 0 0 STUN_PORT None]
      else rbind (from_range (e k) use_range) (\<lambda>p.
           rbind (get_mapping_templates e use_stun_port use_range k) (\<lambda>ms.
             Ok (NATMapping 0 0 p None # ms))))"

text \<open>The source NAT is returned with the write \<open>nats_intersect\<close> may have made to its range.\<close>

definition init_predictions ::
  "(nat \<Rightarrow> nat) \<Rightarrow> int \<Rightarrow> nat_desc \<Rightarrow> nat_desc \<Rightarrow> 's nat_mapping list option \<Rightarrow> nat \<Rightarrow>
   ((int \<times> int) \<times> nat_desc \<times> nat_desc \<times> 's nat_mapping list) res" where
  "init_predictions e mode src_nat dest_nat recv_mappings test_no =
     (let test_no = (case recv_mappings of Some ms \<Rightarrow> length ms | None \<Rightarrow> test_no);
          open_nat = nat_info (Some OPEN_INTERNET) (Some (delta_info NA_DELTA 0)) None;
          (src_nat, dest_nat) = (if mode \<in> {TCP_PUNCH_LAN, TCP_PUNCH_SELF} then (open_nat, open_nat)
                                 else (src_nat, dest_nat))
      in rbind (nats_can_predict src_nat dest_nat) (\<lambda>use_stun_port.
         let (r, src_nat) = nats_intersect src_nat dest_nat (int test_no)
         in rbind r (\<lambda>use_range.
            let test_no = (if use_stun_port \<noteq> 0 then 1 else test_no)
            in rbind (case recv_mappings of Some ms \<Rightarrow> Ok ms
                      | None \<Rightarrow> get_mapping_templates e (use_stun_port \<noteq> 0) use_range test_no) (\<lambda>ms.
               Ok (use_range, src_nat, dest_nat, ms)))))"

definition preload_mappings :: "(nat \<Rightarrow> 's nat_mapping option res) \<Rightarrow> nat \<Rightarrow> 's nat_mapping list res" where
  "preload_mappings task no = rmap strip_none (rmap_list task [0..<no])"

section \<open>Predicting one mapping\<close>

text \<open>\<open>field_wrap\<close> as the callers see it: a value, when the loop ends.\<close>

definition wrap_res :: "int \<Rightarrow> int \<times> int \<Rightarrow> int res" where
  "wrap_res n field = rbind (field_wrap n field) (\<lambda>r. case r of Some x \<Rightarrow> Ok x | None \<Rightarrow> Err TimeoutError)"

text \<open>Both assignments to \<open>last_mapped\<close> in the source are to the local name and have no effect.\<close>

definition get_single_mapping ::
  "nat \<Rightarrow> int \<Rightarrow> 's nat_mapping \<Rightarrow> 's nat_mapping \<Rightarrow> int \<times> int \<Rightarrow> nat_desc \<Rightarrow> 's nat_mapping \<Rightarrow> int \<Rightarrow> 's nat_mapping res" where
  "get_single_mapping e mode recv_map last_mapped use_range our_nat preloaded step =
     (let last_local = m_local last_mapped; last_remote = m_remote last_mapped;
          remote_port = m_remote recv_map; reply_port = m_reply recv_map;
          bind_port = (if reply_port \<noteq> 0 then reply_port else remote_port);
          our_reply = (if nat_type our_nat = RESTRICT_PORT_NAT then bind_port else 0);
          dt = delta_type (nat_delta our_nat); dv = delta_value (nat_delta our_nat)
      in rbind (rassert (bind_port \<noteq> 0)) (\<lambda>_. rbind (rassert (remote_port \<noteq> 0)) (\<lambda>_.
         if mode = TCP_PUNCH_SELF
         then rbind (wrap_res (remote_port + step) (2001, MAX_PORT)) (\<lambda>remote. Ok (NATMapping remote 0 remote None))
         else if is_open our_nat then Ok (NATMapping bind_port 0 bind_port None)
         else if dt = EQUAL_DELTA
         then rbind (if in_range bind_port (nat_range our_nat) then Ok bind_port else from_range e use_range)
                (\<lambda>bind_port. Ok (NATMapping bind_port 0 bind_port None))
         else if dt = PRESERV_DELTA
         then rbind (if in_range bind_port (nat_range our_nat) then Ok bind_port else from_range e use_range)
                (\<lambda>bind_port.
                   let dist = \<bar>n_dist last_remote bind_port\<bar>;
                       next_local = port_wrap (last_local + dist)
                   in Ok (NATMapping next_local our_reply bind_port None))
         else if dt = INDEPENDENT_DELTA
         then rbind (from_range e (2000, MAX_PORT)) (\<lambda>next_local.
              rbind (wrap_res (last_remote + dv) use_range) (\<lambda>next_remote.
                Ok (NATMapping next_local our_reply next_remote None)))
         else if dt = DEPENDENT_DELTA
         then rbind (wrap_res (last_remote + dv) use_range) (\<lambda>next_remote.
                Ok (NATMapping (port_wrap (last_local + 1)) our_reply next_remote None))
         else if nat_type our_nat \<in> set PREDICTABLE_NATS
         then Ok (NATMapping (m_local preloaded)
                    (if nat_type our_nat = RESTRICT_PORT_NAT then 3478 else 0) (m_remote preloaded) None)
         else Err (PyException ''Can't predict this NAT type.''))))"

section \<open>Predicting a list of mappings\<close>

text \<open>The loop of \<open>nat_prediction\<close>: the reference mapping is always the last preloaded one.\<close>

definition predict_loop ::
  "(nat \<Rightarrow> nat) \<Rightarrow> int \<Rightarrow> int \<times> int \<Rightarrow> nat_desc \<Rightarrow> 's nat_mapping list \<Rightarrow> 's nat_mapping list \<Rightarrow> 's nat_mapping list res" where
  "predict_loop e mode use_range src_nat preloaded recv_mappings =
     rmap_list (\<lambda>(i, recv_map).
        get_single_mapping (e i) mode recv_map (last preloaded) use_range src_nat
          (if i < length preloaded then preloaded ! i else hd preloaded) 1000)
       (enumerate 0 recv_mappings)"

text \<open>The third result is the caller's NAT object after the call.\<close>

definition nat_prediction ::
  "(nat \<Rightarrow> nat) \<Rightarrow> (nat \<Rightarrow> 's nat_mapping option res) \<Rightarrow> int \<Rightarrow> nat_desc \<Rightarrow> nat_desc \<Rightarrow> 's nat_mapping list option \<Rightarrow>
   nat \<Rightarrow> ('s nat_mapping list \<times> 's nat_mapping list \<times> nat_desc) res" where
  "nat_prediction e stuns mode src_nat dest_nat recv_mappings test_no =
     rbind (init_predictions e mode src_nat dest_nat recv_mappings test_no)
       (\<lambda>(use_range, our_nat, their_nat, recv_mappings).
     rbind (preload_mappings stuns (length recv_mappings)) (\<lambda>preloaded.
     rbind (rassert (preloaded \<noteq> [])) (\<lambda>_.
     rbind (predict_loop e mode use_range our_nat preloaded recv_mappings) (\<lambda>results.
       Ok (results, preloaded, if mode \<in> {TCP_PUNCH_LAN, TCP_PUNCH_SELF} then src_nat else our_nat)))))"

definition self_punch_patch :: "int \<Rightarrow> 's nat_mapping list \<Rightarrow> int \<Rightarrow> 's nat_mapping list" where
  "self_punch_patch mode mappings step =
     (if mode \<noteq> TCP_PUNCH_SELF then mappings
      else map (\<lambda>m. let l = port_wrap (m_local m + step) in m\<lparr>m_local := l, m_remote := l\<rparr>) mappings)"

text \<open>One index of \<open>update_for_reply_ports\<close>; the loop stops at once when punching ourselves.\<close>

definition reply_port_step ::
  "(nat \<Rightarrow> nat) \<Rightarrow> int \<Rightarrow> int \<times> int \<Rightarrow> nat_desc \<Rightarrow> 's nat_mapping list \<Rightarrow> 's nat_mapping list \<Rightarrow> nat \<Rightarrow>
   's nat_mapping list \<Rightarrow> 's nat_mapping list res" where
  "reply_port_step e mode use_range src_nat preloaded recv_mappings i send =
     (if m_reply (recv_mappings ! i) = 0 then Ok send
      else if delta_type (nat_delta src_nat) \<in> {INDEPENDENT_DELTA, DEPENDENT_DELTA, RANDOM_DELTA} then Ok send
      else rbind (py_get preloaded (-1)) (\<lambda>last_m.
           rbind (py_get preloaded (int i)) (\<lambda>pre.
           rbind (get_single_mapping (e i) mode (recv_mappings ! i) last_m use_range src_nat pre 1000) (\<lambda>mapping.
             Ok (send[i := (send ! i)\<lparr>m_local := m_local mapping, m_remote := m_reply (recv_mappings ! i)\<rparr>])))))"

definition update_for_reply_ports ::
  "(nat \<Rightarrow> nat) \<Rightarrow> int \<Rightarrow> nat_desc \<Rightarrow> nat_desc \<Rightarrow> 's nat_mapping list \<Rightarrow> 's nat_mapping list \<Rightarrow> 's nat_mapping list \<Rightarrow>
   's nat_mapping list res" where
  "update_for_reply_ports e mode src_nat dest_nat preloaded send recv =
     (let test_no = min (length send) (length recv);
          (r, src_nat) = nats_intersect src_nat dest_nat (int test_no)
      in rbind r (\<lambda>use_range.
         if mode = TCP_PUNCH_SELF then Ok send
         else rfold (reply_port_step e mode use_range src_nat preloaded recv) [0..<test_no] send))"

section \<open>What the choices keep\<close>

lemma wrap_res_val: "wrap_res n field = Inr x \<Longrightarrow> x = field_wrap_val n field"
  using field_wrap_eq [of field n]
  by (cases "snd field = -1") (auto simp: wrap_res_def rbind_eq_Ok field_wrap_def split: option.splits)

lemma nats_intersect_same_kind:
  "nat_delta (snd (nats_intersect our their t)) = nat_delta our \<and>
   nat_type (snd (nats_intersect our their t)) = nat_type our \<and>
   is_open (snd (nats_intersect our their t)) = is_open our"
  by (simp add: nats_intersect_def Let_def)

lemma init_predictions_remote:
  assumes "init_predictions e TCP_PUNCH_REMOTE src dest recv n = Inr (use_range, src', dest', ms)"
  shows "nat_delta src' = nat_delta src \<and> nat_type src' = nat_type src \<and> is_open src' = is_open src"
proof -
  let ?t = "int (case recv of None \<Rightarrow> n | Some ms \<Rightarrow> length ms)"
  have "src' = snd (nats_intersect src dest ?t)"
    using assms by (cases "nats_intersect src dest ?t") (auto simp: init_predictions_def punch_consts Let_def rbind_eq_Ok)
  then show ?thesis by (simp add: nats_intersect_same_kind)
qed

lemma single_dependent:
  assumes "get_single_mapping e TCP_PUNCH_REMOTE rm last_m use_range our pre step = Inr m"
    and "\<not> is_open our" and "delta_type (nat_delta our) = DEPENDENT_DELTA"
  shows "m_local m = port_wrap (m_local last_m + 1) \<and>
         m_remote m = field_wrap_val (m_remote last_m + delta_value (nat_delta our)) use_range"
  using assms
  by (auto simp: get_single_mapping_def punch_consts nat_consts NATMapping_def rbind_eq_Ok Let_def dest: wrap_res_val)

lemma single_independent:
  assumes "get_single_mapping e TCP_PUNCH_REMOTE rm last_m use_range our pre step = Inr m"
    and "\<not> is_open our" and "delta_type (nat_delta our) = INDEPENDENT_DELTA"
  shows "m_remote m = field_wrap_val (m_remote last_m + delta_value (nat_delta our)) use_range"
  using assms
  by (auto simp: get_single_mapping_def punch_consts nat_consts NATMapping_def rbind_eq_Ok Let_def dest: wrap_res_val)

lemma predict_loop_elem:
  "predict_loop e mode r src pre ms = Inr rs \<Longrightarrow> m \<in> set rs \<Longrightarrow>
   \<exists>i recv_map p. get_single_mapping (e i) mode recv_map (last pre) r src p 1000 = Inr m"
  unfolding predict_loop_def by (drule rmap_list_set) auto

text \<open>A NAT that keeps the distance of local ports, anchored at one known mapping.\<close>

definition preserving_nat :: "int \<Rightarrow> int \<Rightarrow> int \<Rightarrow> int" where
  "preserving_nat last_local last_remote l = last_remote + (l - last_local)"

section \<open>Properties\<close>

text \<open>For a NAT that preserves the distance of local ports, the prediction is right exactly when
  the wanted port is not below the last mapped one: the code adds the absolute distance to the local
  port, so a wanted port below is missed by twice the distance.\<close>

theorem preserv_prediction_exact:
  assumes "\<not> is_open our" and "delta_type (nat_delta our) = PRESERV_DELTA"
    and "m_remote rm \<noteq> 0" and "m_reply rm = 0" and "in_range (m_remote rm) (nat_range our)"
    and "0 < m_local last_m" and "m_local last_m + \<bar>m_remote last_m - m_remote rm\<bar> < MAX_PORT"
  shows "\<exists>m. get_single_mapping e TCP_PUNCH_REMOTE rm last_m r our pre step = Inr m \<and>
     m_remote m = m_remote rm \<and> valid_port (m_local m) \<and>
     (preserving_nat (m_local last_m) (m_remote last_m) (m_local m) = m_remote m \<longleftrightarrow>
        m_remote last_m \<le> m_remote rm)"
proof -
  let ?l = "m_local last_m + \<bar>m_remote last_m - m_remote rm\<bar>"
  have l: "port_wrap ?l = ?l" using assms(6,7) by (intro port_wrap_id) auto
  have "get_single_mapping e TCP_PUNCH_REMOTE rm last_m r our pre step =
      Inr (NATMapping ?l (if nat_type our = RESTRICT_PORT_NAT then m_remote rm else 0) (m_remote rm) None)"
    using assms(1-5) l
    by (simp add: get_single_mapping_def punch_consts nat_consts Let_def)
  then show ?thesis
    using assms(6,7) by (auto simp: NATMapping_def preserving_nat_def valid_port_def MAX_PORT_def abs_if)
qed

theorem preserv_prediction_exact_witness:
  "\<exists>m. get_single_mapping 0 TCP_PUNCH_REMOTE (NATMapping 0 0 20000 (None :: nat option)) (NATMapping 5000 0 30000 None)
         (1, 65535) (nat_info (Some RESTRICT_NAT) (Some (delta_info PRESERV_DELTA 0)) None) (NATMapping 1 0 1 None) 1000 = Inr m \<and>
       m_remote m = 20000 \<and> preserving_nat 5000 30000 (m_local m) \<noteq> 20000"
  using preserv_prediction_exact
    [of "nat_info (Some RESTRICT_NAT) (Some (delta_info PRESERV_DELTA 0)) None"
        "NATMapping 0 0 20000 (None :: nat option)" "NATMapping 5000 0 30000 None" 0 "(1, 65535)" "NATMapping 1 0 1 None" 1000]
  by (auto simp: nat_info_def delta_info_def nat_consts f_is_open_def NATMapping_def in_range_def MAX_PORT_def Let_def)

text \<open>All predictions of one call are computed from the same last mapping, because the update of
  \<open>last_mapped\<close> is to a local name: for a NAT with a dependent delta all predicted mappings coincide,
  and for an independent delta all predicted external ports do, although such a NAT hands out a new
  external port to every connection.\<close>

theorem predictions_do_not_advance:
  assumes "nat_prediction e stuns TCP_PUNCH_REMOTE src dest recv n = Inr (rs, pre, src')"
    and "\<not> is_open src" and "x \<in> set rs" and "y \<in> set rs"
  shows "(delta_type (nat_delta src) = DEPENDENT_DELTA \<longrightarrow> m_local x = m_local y \<and> m_remote x = m_remote y) \<and>
         (delta_type (nat_delta src) = INDEPENDENT_DELTA \<longrightarrow> m_remote x = m_remote y)"
proof -
  obtain r s d ms where i: "init_predictions e TCP_PUNCH_REMOTE src dest recv n = Inr (r, s, d, ms)"
    and l: "predict_loop e TCP_PUNCH_REMOTE r s pre ms = Inr rs"
    using assms(1) by (auto simp: nat_prediction_def rbind_eq_Ok)
  obtain ei ri pi where x: "get_single_mapping ei TCP_PUNCH_REMOTE ri (last pre) r s pi 1000 = Inr x"
    using predict_loop_elem [OF l assms(3)] by blast
  obtain ej rj pj where y: "get_single_mapping ej TCP_PUNCH_REMOTE rj (last pre) r s pj 1000 = Inr y"
    using predict_loop_elem [OF l assms(4)] by blast
  show ?thesis
    using init_predictions_remote [OF i] assms(2) single_dependent [OF x] single_dependent [OF y]
      single_independent [OF x] single_independent [OF y]
    by auto
qed

theorem predictions_do_not_advance_witness:
  "\<exists>x y p s. nat_prediction id (\<lambda>_. Inr (Some (NATMapping 5000 0 30000 (None :: nat option)))) TCP_PUNCH_REMOTE
       (nat_info (Some SYMMETRIC_NAT) (Some (delta_info DEPENDENT_DELTA 2)) (Some (2000, 65535)))
       (nat_info (Some FULL_CONE) (Some (delta_info EQUAL_DELTA 0)) (Some (2000, 65535))) None 2 = Inr ([x, y], p, s) \<and>
     m_local x = 5001 \<and> m_remote x = 30002 \<and> m_local y = m_local x \<and> m_remote y = m_remote x"
proof -
  let ?st = "\<lambda>_ :: nat. Inr (Some (NATMapping 5000 0 30000 (None :: nat option)))"
  let ?src = "nat_info (Some SYMMETRIC_NAT) (Some (delta_info DEPENDENT_DELTA 2)) (Some (2000, 65535))"
  let ?dst = "nat_info (Some FULL_CONE) (Some (delta_info EQUAL_DELTA 0)) (Some (2000, 65535))"
  have "wrap_res 30002 (2000, 65535) = Inr 30002"
    by (simp add: wrap_res_def field_wrap_eq field_wrap_val_def)
  then have "\<exists>x y p s. nat_prediction id ?st TCP_PUNCH_REMOTE ?src ?dst None 2 = Inr ([x, y], p, s) \<and>
      m_local x = 5001 \<and> m_remote x = 30002"
    by (simp add: nat_prediction_def init_predictions_def nats_can_predict_def nats_intersect_def intersect_range_def
        nat_info_def delta_info_def nat_consts punch_consts f_is_open_def f_is_hard_def EASY_NATS_def
        NATMapping_def from_range_def randrange_def preload_mappings_def predict_loop_def get_single_mapping_def
        port_wrap_def MAX_PORT_def numeral_2_eq_2 upt_rec enumerate_eq_zip Let_def)
  then obtain x y p s where n: "nat_prediction id ?st TCP_PUNCH_REMOTE ?src ?dst None 2 = Inr ([x, y], p, s)"
    "m_local x = 5001" "m_remote x = 30002" by blast
  show ?thesis
    using predictions_do_not_advance [OF n(1), of x y] n
    by (simp add: nat_info_def delta_info_def nat_consts f_is_open_def Let_def)
qed

end
