(* ===== verification/Stun_Msg.thy ===== *)
theory Stun_Msg
  imports Ip_Range
begin

text \<open>
  \<^verbatim>\<open>protocol/stun/stun_defs.py\<close> and \<^verbatim>\<open>stun_utils.py\<close>: the STUN message format, its address
  attributes with their XOR masks, the attribute cursor, and the interpretation and validation of
  replies. The transaction id is an argument where the source draws it at random.
\<close>

section \<open>Constants\<close>

definition STUN_MAGIC_COOKIE :: bytes where
  "STUN_MAGIC_COOKIE = [0x21, 0x12, 0xA4, 0x42]"

definition STUN_MAGIC_XOR :: bytes where
  "STUN_MAGIC_XOR = [0, 0, 0x21, 0x12] @ STUN_MAGIC_COOKIE"

datatype stun_mode = RFC3489 | RFC5389 | RFC8489

text \<open>Message types, message codes and attribute codes used by the modelled code.\<close>

definition Binding :: bytes where "Binding = [0, 1]"
definition Allocate :: bytes where "Allocate = [0, 3]"
definition Refresh :: bytes where "Refresh = [0, 4]"
definition CreatePermission :: bytes where "CreatePermission = [0, 8]"

definition Request :: bytes where "Request = [0, 0]"
definition SuccessResp :: bytes where "SuccessResp = [1, 0]"
definition ErrorResp :: bytes where "ErrorResp = [1, 0x10]"

definition MappedAddress :: bytes where "MappedAddress = [0, 1]"
definition ChangeRequest :: bytes where "ChangeRequest = [0, 3]"
definition ChangedAddress :: bytes where "ChangedAddress = [0, 5]"
definition Username :: bytes where "Username = [0, 6]"
definition MessageIntegrity :: bytes where "MessageIntegrity = [0, 8]"
definition ErrorCode :: bytes where "ErrorCode = [0, 9]"
definition Lifetime :: bytes where "Lifetime = [0, 0x0D]"
definition XorPeerAddress :: bytes where "XorPeerAddress = [0, 0x12]"
definition DataAttr :: bytes where "DataAttr = [0, 0x13]"
definition Realm :: bytes where "Realm = [0, 0x14]"
definition Nonce :: bytes where "Nonce = [0, 0x15]"
definition XorRelayedAddress :: bytes where "XorRelayedAddress = [0, 0x16]"
definition RequestedTransport :: bytes where "RequestedTransport = [0, 0x19]"
definition XorMappedAddress :: bytes where "XorMappedAddress = [0, 0x20]"
definition XorMappedAddressX :: bytes where "XorMappedAddressX = [0x80, 0x20]"

lemmas stun_codes = Binding_def Allocate_def Refresh_def CreatePermission_def Request_def SuccessResp_def
  ErrorResp_def MappedAddress_def ChangeRequest_def ChangedAddress_def Username_def MessageIntegrity_def
  ErrorCode_def Lifetime_def XorPeerAddress_def DataAttr_def Realm_def Nonce_def XorRelayedAddress_def
  RequestedTransport_def XorMappedAddress_def XorMappedAddressX_def

section \<open>Address attributes\<close>

text \<open>
  \<open>socket.inet_pton\<close> and \<open>socket.inet_ntop\<close>. A decoded tuple keeps the address itself; the source
  keeps the text \<open>inet_ntop\<close> prints for it.
\<close>

definition inet_pton :: "af \<Rightarrow> string \<Rightarrow> bytes res" where
  "inet_pton af s =
     (case (if af = IP4 then parse_ipv4 s else parse_ipv6 s) of
        Inr a \<Rightarrow> Ok (be_enc (if af = IP4 then 4 else 16) (nat (ipa_int a)))
      | Inl _ \<Rightarrow> Err OSError)"

definition inet_ntop :: "af \<Rightarrow> bytes \<Rightarrow> ipa res" where
  "inet_ntop af bs =
     (if length bs = (if af = IP4 then 4 else 16) then Ok (mk_ipa af (int (be_dec bs))) else Err ValueError)"

record stun_addr =
  sa_ip :: string
  sa_port :: int
  sa_af :: af
  sa_txid :: bytes
  sa_cookie :: bytes

definition STUNAddrTup :: "string \<Rightarrow> int \<Rightarrow> af \<Rightarrow> bytes \<Rightarrow> bytes \<Rightarrow> stun_addr" where
  "STUNAddrTup ip port af txid cookie =
     \<lparr>sa_ip = ip, sa_port = port, sa_af = af, sa_txid = txid, sa_cookie = cookie\<rparr>"

definition get_family_buf :: "stun_addr \<Rightarrow> bytes" where
  "get_family_buf t = (if sa_af t = IP4 then [0, 1] else [0, 2])"

definition get_addr_bufs :: "af \<Rightarrow> bytes \<Rightarrow> bytes \<times> bytes" where
  "get_addr_bufs af attr_data =
     (let port_buf = slice 2 4 attr_data;
          ip_buf = (if af = IP4 then slice 4 8 attr_data else slice 4 20 attr_data)
      in (ip_buf, port_buf))"

definition addr_bufs_to_tup :: "af \<Rightarrow> bytes \<Rightarrow> bytes \<Rightarrow> (ipa \<times> int) res" where
  "addr_bufs_to_tup af ip_buf port_buf =
     rbind (inet_ntop af ip_buf) (\<lambda>ip. Ok (ip, int (be_dec port_buf)))"

text \<open>\<open>decode\<close> returns the tuple it stores and the buffers it returns.\<close>

definition stun_addr_decode :: "stun_addr \<Rightarrow> bytes \<Rightarrow> bytes \<Rightarrow> ((ipa \<times> int) \<times> bytes \<times> bytes \<times> bytes) res" where
  "stun_addr_decode t code data =
     rbind (if code = XorMappedAddressX
            then (let (ip_buf, port_buf) = get_addr_bufs (sa_af t) data;
                      mask = sa_cookie t @ sa_txid t
                  in rbind (xor_bufs port_buf mask) (\<lambda>port_buf.
                     rbind (xor_bufs ip_buf mask) (\<lambda>ip_buf. Ok (ip_buf, port_buf, data))))
            else if code \<in> {XorMappedAddress, XorPeerAddress, XorRelayedAddress}
            then rbind (if sa_txid t = [] then Ok data
                        else xor_bufs data ([0, 0, 0x21, 0x12] @ sa_cookie t @ sa_txid t)) (\<lambda>data.
                   let (ip_buf, port_buf) = get_addr_bufs (sa_af t) data in Ok (ip_buf, port_buf, data))
            else (let (ip_buf, port_buf) = get_addr_bufs (sa_af t) data in Ok (ip_buf, port_buf, data)))
       (\<lambda>(ip_buf, port_buf, data).
     rbind (addr_bufs_to_tup (sa_af t) ip_buf port_buf) (\<lambda>tup. Ok (tup, ip_buf, port_buf, data)))"

text \<open>
  \<open>encode\<close> masks by running \<open>decode\<close> on the plain buffer. The test that should pick the
  separately masked fields compares \<open>dec_port\<close> with itself, so that branch is never taken.
\<close>

definition stun_addr_encode :: "stun_addr \<Rightarrow> bytes \<Rightarrow> bytes res" where
  "stun_addr_encode t code =
     (let family = get_family_buf t in
      rbind (inet_pton (if family = [0, 1] then IP4 else IP6) (sa_ip t)) (\<lambda>ip_b.
      rbind (pack_be 2 (sa_port t)) (\<lambda>port_b.
      let buf = family @ port_b @ ip_b in
      rbind (stun_addr_decode t code buf) (\<lambda>(_, dec_ip, dec_port, dec_buf).
        Ok (if dec_buf \<noteq> buf then dec_buf
            else if dec_port \<noteq> dec_port then family @ dec_port @ dec_ip
            else buf)))))"

definition stun_addr_unpack :: "stun_addr \<Rightarrow> bytes \<Rightarrow> bytes \<Rightarrow> (ipa \<times> int) res" where
  "stun_addr_unpack t code data = rmap fst (stun_addr_decode t code data)"

section \<open>Messages\<close>

text \<open>
  The message object, with the attributes the reply code adds to it (None while they are unset).
\<close>

record stun_msg =
  sm_code :: bytes
  sm_type :: bytes
  sm_len :: nat
  sm_txn_id :: bytes
  sm_msg :: bytes
  sm_cursor :: nat
  sm_mode :: stun_mode
  sm_cookie :: bytes
  sm_rtup :: "(ipa \<times> int) option"
  sm_ctup :: "(ipa \<times> int) option"

definition STUNMsg :: "bytes \<Rightarrow> bytes \<Rightarrow> bytes \<Rightarrow> stun_mode \<Rightarrow> stun_msg" where
  "STUNMsg txid msg_type msg_code mode =
     \<lparr>sm_code = msg_code, sm_type = msg_type, sm_len = 0, sm_txn_id = txid, sm_msg = [], sm_cursor = 0,
      sm_mode = mode,
      sm_cookie = (if mode = RFC3489 then [0x31, 0x32, 0x33, 0x34] else STUN_MAGIC_COOKIE),
      sm_rtup = None, sm_ctup = None\<rparr>"

definition reset_attr :: "stun_msg \<Rightarrow> stun_msg" where
  "reset_attr m = m\<lparr>sm_len := 0, sm_msg := []\<rparr>"

text \<open>The serialised form of one attribute: code, length, data, zero padding to a multiple of 4.\<close>

definition attr_pad :: "nat \<Rightarrow> nat" where
  "attr_pad n = (if n mod 4 \<noteq> 0 then 4 - n mod 4 else 0)"

definition attr_buf :: "bytes \<Rightarrow> bytes \<Rightarrow> bytes res" where
  "attr_buf attr data =
     rbind (pack_be 2 (int (length data))) (\<lambda>len_b. Ok (attr @ len_b @ data @ replicate (attr_pad (length data)) 0))"

definition write_attr :: "bytes \<Rightarrow> bytes \<Rightarrow> stun_msg \<Rightarrow> stun_msg res" where
  "write_attr attr data m =
     rbind (attr_buf attr data) (\<lambda>buf. Ok (m\<lparr>sm_len := sm_len m + length buf, sm_msg := sm_msg m @ buf\<rparr>))"

definition write_attr_addr :: "bytes \<Rightarrow> stun_addr \<Rightarrow> stun_msg \<Rightarrow> stun_msg res" where
  "write_attr_addr attr t m = rbind (stun_addr_encode t XorMappedAddress) (\<lambda>data. write_attr attr data m)"

definition write_credential :: "bytes \<Rightarrow> bytes \<Rightarrow> bytes \<Rightarrow> stun_msg \<Rightarrow> stun_msg res" where
  "write_credential username realm nonce m =
     rbind (write_attr Username username m) (\<lambda>m.
     rbind (write_attr Realm realm m) (write_attr Nonce nonce))"

definition stun_pack :: "stun_msg \<Rightarrow> bytes res" where
  "stun_pack m =
     (let msg_type = (if sm_mode m \<noteq> RFC3489 then b_and (b_or (sm_type m) (sm_code m)) [0x3F, 0xFF] else sm_type m)
      in rbind (pack_be 2 (int (sm_len m))) (\<lambda>len_b.
           Ok (msg_type @ len_b @ sm_cookie m @ sm_txn_id m @ sm_msg m)))"

text \<open>The HMAC is a parameter; it signs the message with the length field 24 bytes longer.\<close>

definition write_hmac :: "(bytes \<Rightarrow> bytes \<Rightarrow> bytes) \<Rightarrow> bytes \<Rightarrow> stun_msg \<Rightarrow> stun_msg res" where
  "write_hmac hmac key m =
     rbind (stun_pack (m\<lparr>sm_len := sm_len m + 24\<rparr>)) (\<lambda>msg_hmac.
       write_attr MessageIntegrity (hmac key msg_hmac) m)"

text \<open>\<open>attr_cursor >= msg_len - 1\<close>, on Python's integers.\<close>

definition stun_eof :: "stun_msg \<Rightarrow> bool" where
  "stun_eof m = (int (sm_cursor m) \<ge> int (sm_len m) - 1)"

text \<open>
  \<open>read_attr\<close> returns code, length and data (None where the source has None) and moves the cursor;
  the cursor has already moved when the length check raises.
\<close>

type_synonym attr_read = "bytes option \<times> nat option \<times> bytes option"

definition read_attr :: "stun_msg \<Rightarrow> attr_read res \<times> stun_msg" where
  "read_attr m =
     (let msg = sm_msg m; msg_len = length msg; cur = sm_cursor m
      in if msg_len \<noteq> 0 \<and> cur + 3 < msg_len
         then (let m_attr = slice cur (cur + 2) msg;
                   m_len = be_dec (slice (cur + 2) (cur + 4) msg);
                   cur = cur + 4
               in if m_len = 0 then (Ok (Some m_attr, Some m_len, None), m\<lparr>sm_cursor := cur\<rparr>)
                  else if cur + m_len \<le> msg_len
                  then (Ok (Some m_attr, Some m_len, Some (slice cur (cur + m_len) msg)),
                        m\<lparr>sm_cursor := cur + m_len + attr_pad m_len\<rparr>)
                  else (Err (PyException ''TURN attribute len invalid.''), m\<lparr>sm_cursor := cur\<rparr>))
         else (Ok (None, None, None), m))"

text \<open>\<open>decode\<close> returns the bytes after the message, or None when there is no message body.\<close>

definition stun_decode :: "bytes \<Rightarrow> stun_msg \<Rightarrow> (bytes option \<times> stun_msg) res" where
  "stun_decode msg m =
     (let m = m\<lparr>sm_cursor := 0\<rparr>
      in if length msg \<ge> 20
         then (let n = be_dec (slice 2 4 msg);
                   m = m\<lparr>sm_type := slice 0 2 msg, sm_len := n, sm_cookie := slice 4 8 msg, sm_txn_id := slice 8 20 msg\<rparr>
               in if n = 0 then Ok (None, m)
                  else if 20 + n \<le> length msg
                  then Ok (Some (drop (20 + n) msg), m\<lparr>sm_msg := slice 20 (20 + n) msg\<rparr>)
                  else Err (PyException ''Invalid length for STUN msg.''))
         else Ok (None, m))"

definition stun_unpack :: "bytes \<Rightarrow> stun_mode \<Rightarrow> bytes \<Rightarrow> (stun_msg \<times> bytes option) res" where
  "stun_unpack txid mode msg =
     rbind (stun_decode msg (STUNMsg txid Binding Request mode)) (\<lambda>(buf, inst). Ok (inst, buf))"

section \<open>Replies\<close>

definition attr_tup :: "af \<Rightarrow> bytes \<Rightarrow> bytes \<Rightarrow> bytes option \<Rightarrow> bytes \<Rightarrow> (ipa \<times> int) res" where
  "attr_tup af txid cookie data code =
     (case data of None \<Rightarrow> Err TypeError | Some d \<Rightarrow> stun_addr_unpack (STUNAddrTup [] 0 af txid cookie) code d)"

definition stun_proc_attrs :: "af \<Rightarrow> bytes \<Rightarrow> bytes option \<Rightarrow> stun_msg \<Rightarrow> stun_msg res" where
  "stun_proc_attrs af attr_code attr_data m =
     rbind (if sm_rtup m = None
            then rbind (if attr_code \<in> {XorMappedAddressX, XorMappedAddress}
                        then rbind (attr_tup af (sm_txn_id m) (sm_cookie m) attr_data attr_code) (\<lambda>t. Ok (m\<lparr>sm_rtup := Some t\<rparr>))
                        else Ok m) (\<lambda>m.
                   if attr_code = MappedAddress
                   then rbind (attr_tup af [] STUN_MAGIC_XOR attr_data attr_code) (\<lambda>t. Ok (m\<lparr>sm_rtup := Some t\<rparr>))
                   else Ok m)
            else Ok m) (\<lambda>m.
       if sm_ctup m = None \<and> attr_code = ChangedAddress
       then rbind (attr_tup af [] STUN_MAGIC_XOR attr_data attr_code) (\<lambda>t. Ok (m\<lparr>sm_ctup := Some t\<rparr>))
       else Ok m)"

lemma read_attr_cursor:
  "read_attr m = (Inr (Some c, l, d), m') \<Longrightarrow> sm_cursor m + 4 \<le> sm_cursor m' \<and> sm_cursor m + 4 \<le> length (sm_msg m) \<and> sm_msg m' = sm_msg m"
  by (auto simp: read_attr_def Let_def split: if_splits)

lemma read_attr_fields:
  "read_attr m = (r, m') \<Longrightarrow> sm_msg m' = sm_msg m \<and> sm_len m' = sm_len m \<and> sm_txn_id m' = sm_txn_id m \<and>
    sm_cookie m' = sm_cookie m \<and> sm_rtup m' = sm_rtup m \<and> sm_ctup m' = sm_ctup m"
  by (auto simp: read_attr_def Let_def split: if_splits)

lemma stun_proc_attrs_fields:
  "stun_proc_attrs af c d m = Inr m' \<Longrightarrow> sm_msg m' = sm_msg m \<and> sm_cursor m' = sm_cursor m \<and> sm_len m' = sm_len m"
  by (cases "attr_tup af (sm_txn_id m) (sm_cookie m) d c"; cases "attr_tup af [] STUN_MAGIC_XOR d c")
     (auto simp: stun_proc_attrs_def stun_codes split: if_splits)

text \<open>
  The attribute loop of \<open>stun_proto\<close>: when fewer than four bytes are left \<open>read_attr\<close> returns no
  code, and \<open>bytes(None)\<close> raises.
\<close>

function stun_attr_loop :: "af \<Rightarrow> stun_msg \<Rightarrow> stun_msg res" where
  "stun_attr_loop af m =
     (if stun_eof m then Ok m
      else (case read_attr m of
              (Inl e, _) \<Rightarrow> Err e
            | (Inr (None, _, _), _) \<Rightarrow> Err TypeError
            | (Inr (Some code, _, data), m') \<Rightarrow>
                (case stun_proc_attrs af code data m' of
                   Inl e \<Rightarrow> Err e
                 | Inr m'' \<Rightarrow> stun_attr_loop af m'')))"
  by pat_completeness auto
termination
proof (relation "measure (\<lambda>(af, m). length (sm_msg m) - sm_cursor m)", goal_cases)
  case (2 af m r m' o1 p code q l data m'')
  then have "read_attr m = (Inr (Some q, l, data), m')" by simp
  from read_attr_cursor [OF this] stun_proc_attrs_fields [OF 2(7)] show ?case by auto
qed simp

declare stun_attr_loop.simps [simp del]

definition stun_proto :: "bytes \<Rightarrow> bytes \<Rightarrow> af \<Rightarrow> (stun_msg \<times> bytes option) res" where
  "stun_proto txid buf af =
     rbind (stun_unpack txid RFC3489 buf) (\<lambda>(msg, rest).
     rbind (stun_attr_loop af msg) (\<lambda>msg. Ok (msg, rest)))"

text \<open>The request of \<open>get_stun_reply\<close>, and the reply for the bytes received (None: no reply).\<close>

definition stun_request :: "bytes \<Rightarrow> stun_mode \<Rightarrow> (bytes \<times> bytes) list \<Rightarrow> bytes res" where
  "stun_request txid mode attrs =
     rbind (rfold (\<lambda>(c, d) m. write_attr c d m) attrs (STUNMsg txid Binding Request mode)) stun_pack"

text \<open>A reply with the address it was expected from and the local end of its pipe.\<close>

record stun_reply =
  rp_msg :: stun_msg
  rp_af :: af
  rp_stup :: "ipa \<times> int"
  rp_ltup :: "ipa \<times> int"

definition get_stun_reply ::
  "bytes \<Rightarrow> stun_mode \<Rightarrow> (bytes \<times> bytes) list \<Rightarrow> (bytes \<Rightarrow> bytes option) \<Rightarrow> bytes \<Rightarrow> af \<Rightarrow> ipa \<times> int \<Rightarrow> ipa \<times> int \<Rightarrow> stun_reply res" where
  "get_stun_reply txid mode attrs exchange rand_id af reply_addr ltup =
     rbind (stun_request txid mode attrs) (\<lambda>send_buf.
       case exchange send_buf of
         None \<Rightarrow> Err (PyException ''STUN recv loop got no reply.'')
       | Some recv_buf \<Rightarrow>
           rbind (stun_proto rand_id recv_buf af) (\<lambda>(reply, _).
             Ok \<lparr>rp_msg = reply, rp_af = af, rp_stup = reply_addr, rp_ltup = ltup\<rparr>))"

record ret_dic =
  ret_c :: "ipa \<times> int"
  ret_r :: "ipa \<times> int"
  ret_s :: "ipa \<times> int"
  ret_l :: "ipa \<times> int"

definition stun_reply_to_ret_dic :: "stun_reply option \<Rightarrow> ret_dic option" where
  "stun_reply_to_ret_dic reply =
     (case reply of None \<Rightarrow> None
      | Some r \<Rightarrow>
          (case (sm_ctup (rp_msg r), sm_rtup (rp_msg r)) of
             (Some c, Some q) \<Rightarrow> Some \<lparr>ret_c = c, ret_r = q, ret_s = rp_stup r, ret_l = rp_ltup r\<rparr>
           | _ \<Rightarrow> None))"

text \<open>Each address a reply relies on must be public and have a valid port.\<close>

definition tup_public :: "af \<Rightarrow> ipa \<times> int \<Rightarrow> bool res" where
  "tup_public af tup =
     rbind (IPRange (IpStr (ip_str (fst tup))) None (Some (int (af_to_cidr af)))) (\<lambda>ipr.
       Ok (\<not> ipr_is_private ipr \<and> valid_port (snd tup)))"

fun tups_public :: "af \<Rightarrow> (ipa \<times> int) list \<Rightarrow> bool res" where
  "tups_public af [] = Ok True"
| "tups_public af (t # ts) = rbind (tup_public af t) (\<lambda>b. if b then tups_public af ts else Ok False)"

definition validate_stun_reply :: "stun_reply option \<Rightarrow> stun_mode \<Rightarrow> stun_reply option res" where
  "validate_stun_reply reply mode =
     (case reply of None \<Rightarrow> Ok None
      | Some r \<Rightarrow>
          (case (sm_rtup (rp_msg r), sm_ctup (rp_msg r)) of
             (None, _) \<Rightarrow> Ok None
           | (Some q, c) \<Rightarrow>
               if mode = RFC3489 \<and> c = None then Ok None
               else rbind (tups_public (rp_af r) ([rp_stup r, q] @ (if mode = RFC3489 then [the c] else [])))
                      (\<lambda>b. Ok (if b then Some r else None))))"

section \<open>Address attributes: encoding and decoding\<close>

text \<open>The unmasked address attribute and the mask of the whole-buffer codes.\<close>

definition addr_plain :: "af \<Rightarrow> ipa \<Rightarrow> int \<Rightarrow> bytes" where
  "addr_plain af a port =
     (if af = IP4 then [0, 1] else [0, 2]) @ be_enc 2 (nat port) @ be_enc (if af = IP4 then 4 else 16) (nat (ipa_int a))"

definition addr_mask :: "bytes \<Rightarrow> bytes \<Rightarrow> bytes" where
  "addr_mask cookie txid = [0, 0, 0x21, 0x12] @ cookie @ txid"

definition addr_fits :: "af \<Rightarrow> ipa \<Rightarrow> int \<Rightarrow> bool" where
  "addr_fits af a port = (ipa_ok a \<and> ipa_version a = (if af = IP4 then 4 else 6) \<and> 0 \<le> port \<and> port < 65536)"

definition xor_codes :: "bytes set" where
  "xor_codes = {XorMappedAddress, XorPeerAddress, XorRelayedAddress}"

lemma XorX_not_xor [simp]: "XorMappedAddressX \<notin> xor_codes"
  by (simp add: xor_codes_def stun_codes)

lemma inet_pton_str:
  "ipa_ok a \<Longrightarrow> ipa_version a = (if af = IP4 then 4 else 6) \<Longrightarrow>
   inet_pton af (ip_str a) = Inr (be_enc (if af = IP4 then 4 else 16) (nat (ipa_int a)))"
  by (cases a) (auto simp: inet_pton_def parse_ipv4_str parse_ipv6_str simp del: ip_str.simps)

lemma inet_ntop_enc:
  "ipa_ok a \<Longrightarrow> ipa_version a = (if af = IP4 then 4 else 6) \<Longrightarrow>
   inet_ntop af (be_enc (if af = IP4 then 4 else 16) (nat (ipa_int a))) = Inr a"
  by (cases a; cases af) (auto simp: inet_ntop_def be.dec_enc_id nat_less_iff)

lemma get_addr_bufs_plain:
  "get_addr_bufs af (addr_plain af a port) =
     (be_enc (if af = IP4 then 4 else 16) (nat (ipa_int a)), be_enc 2 (nat port))"
  by (simp add: get_addr_bufs_def addr_plain_def slice_def)

lemma addr_bufs_to_tup_enc:
  "addr_fits af a port \<Longrightarrow>
   addr_bufs_to_tup af (be_enc (if af = IP4 then 4 else 16) (nat (ipa_int a))) (be_enc 2 (nat port)) = Inr (a, port)"
  unfolding addr_bufs_to_tup_def addr_fits_def
  by (auto simp: inet_ntop_enc be.dec_enc_id nat_less_iff simp del: be_enc.simps split del: if_split)

lemma length_addr_plain: "length (addr_plain af a port) = (if af = IP4 then 8 else 20)"
  by (simp add: addr_plain_def)

text \<open>What \<open>decode\<close> does for the codes other than the separately masked one.\<close>

lemma decode_masked:
  assumes "code \<in> xor_codes" and "txid \<noteq> []" and "xor_bufs data (addr_mask cookie txid) = Inr d"
    and "get_addr_bufs af d = (ib, pb)" and "addr_bufs_to_tup af ib pb = Inr tup"
  shows "stun_addr_decode (STUNAddrTup ip port af txid cookie) code data = Inr (tup, ib, pb, d)"
proof -
  have "code \<noteq> XorMappedAddressX" using assms(1) by auto
  with assms show ?thesis
    by (simp add: stun_addr_decode_def STUNAddrTup_def addr_mask_def xor_codes_def)
qed

lemma decode_unmasked:
  assumes "code \<noteq> XorMappedAddressX" and "code \<notin> xor_codes \<or> txid = []"
    and "get_addr_bufs af data = (ib, pb)" and "addr_bufs_to_tup af ib pb = Inr tup"
  shows "stun_addr_decode (STUNAddrTup ip port af txid cookie) code data = Inr (tup, ib, pb, data)"
  using assms by (auto simp: stun_addr_decode_def STUNAddrTup_def xor_codes_def)

lemma encode_start:
  assumes "addr_fits af a port"
  shows "stun_addr_encode (STUNAddrTup (ip_str a) port af txid cookie) code =
     rbind (stun_addr_decode (STUNAddrTup (ip_str a) port af txid cookie) code (addr_plain af a port))
       (\<lambda>(_, dec_ip, dec_port, dec_buf). Ok (if dec_buf \<noteq> addr_plain af a port then dec_buf else addr_plain af a port))"
  using assms inet_pton_str [of a af]
  by (cases af)
     (auto simp add: stun_addr_encode_def STUNAddrTup_def get_family_buf_def addr_fits_def pack_be_def addr_plain_def Let_def
        simp del: ip_str.simps be_enc.simps cong: if_cong)

lemma get_addr_bufs_lengths:
  "length d = (if af = IP4 then 8 else 20) \<Longrightarrow> get_addr_bufs af d = (ib, pb) \<Longrightarrow>
   length ib = (if af = IP4 then 4 else 16) \<and> length pb = 2"
  by (auto simp: get_addr_bufs_def split: if_splits)

lemma addr_bufs_to_tup_total:
  "length ib = (if af = IP4 then 4 else 16) \<Longrightarrow> \<exists>tup. addr_bufs_to_tup af ib pb = Inr tup"
  by (auto simp: addr_bufs_to_tup_def inet_ntop_def)

lemma encode_masked:
  assumes "addr_fits af a port" and "code \<in> xor_codes" and "length txid = 12" and "length cookie = 4"
  shows "stun_addr_encode (STUNAddrTup (ip_str a) port af txid cookie) code =
     Inr (map2 (XOR) (addr_plain af a port) (addr_mask cookie txid))"
proof -
  let ?d = "map2 (XOR) (addr_plain af a port) (addr_mask cookie txid)"
  have ne: "addr_plain af a port \<noteq> []" "addr_mask cookie txid \<noteq> []"
    by (simp_all add: addr_mask_def addr_plain_def)
  have x: "xor_bufs (addr_plain af a port) (addr_mask cookie txid) = Inr ?d" using ne by (rule xor_bufs_Ok)
  obtain ib pb where g: "get_addr_bufs af ?d = (ib, pb)" by fastforce
  have "length ?d = (if af = IP4 then 8 else 20)"
    using assms by (simp add: length_addr_plain addr_mask_def)
  then obtain tup where "addr_bufs_to_tup af ib pb = Inr tup"
    using get_addr_bufs_lengths [OF _ g] addr_bufs_to_tup_total by metis
  moreover have "txid \<noteq> []" using assms(3) by auto
  ultimately show ?thesis using decode_masked [OF assms(2) _ x g] encode_start [OF assms(1)] by simp
qed

lemma unpack_masked:
  assumes "addr_fits af a port" and "code \<in> xor_codes" and "length txid = 12" and "length cookie = 4"
  shows "stun_addr_unpack (STUNAddrTup ip p af txid cookie) code
           (map2 (XOR) (addr_plain af a port) (addr_mask cookie txid)) = Inr (a, port)"
proof -
  let ?d = "map2 (XOR) (addr_plain af a port) (addr_mask cookie txid)"
  have l: "length (addr_plain af a port) \<le> length (addr_mask cookie txid)"
    using assms by (simp add: length_addr_plain addr_mask_def)
  have ne: "addr_mask cookie txid \<noteq> []" by (simp add: addr_mask_def)
  have "length ?d > 0" using assms by (simp add: length_addr_plain addr_mask_def)
  then have "xor_bufs ?d (addr_mask cookie txid) = Inr (addr_plain af a port)"
    using ne l by (subst xor_bufs_Ok) (auto simp: map2_xor_cancel)
  moreover have "txid \<noteq> []" using assms(3) by auto
  ultimately show ?thesis
    using decode_masked [OF assms(2) _ _ get_addr_bufs_plain addr_bufs_to_tup_enc [OF assms(1)]]
    by (simp add: stun_addr_unpack_def)
qed

lemma encode_unmasked:
  assumes "addr_fits af a port" and "code \<notin> xor_codes" and "code \<noteq> XorMappedAddressX"
  shows "stun_addr_encode (STUNAddrTup (ip_str a) port af txid cookie) code = Inr (addr_plain af a port) \<and>
         stun_addr_unpack (STUNAddrTup ip p af txid cookie) code (addr_plain af a port) = Inr (a, port)"
  using decode_unmasked [OF assms(3) _ get_addr_bufs_plain addr_bufs_to_tup_enc [OF assms(1)]] assms
  by (simp add: encode_start stun_addr_unpack_def)

lemma encode_X:
  assumes "addr_fits af a port" and "length txid = 12" and "length cookie = 4"
  shows "stun_addr_encode (STUNAddrTup (ip_str a) port af txid cookie) XorMappedAddressX = Inr (addr_plain af a port)"
proof -
  let ?ip = "be_enc (if af = IP4 then 4 else 16) (nat (ipa_int a))" and ?m = "cookie @ txid"
  have ne: "?ip \<noteq> []" "be_enc 2 (nat port) \<noteq> []" "?m \<noteq> []"
    using assms length_be_enc [of 2 "nat port"] length_be_enc [of "if af = IP4 then 4 else 16" "nat (ipa_int a)"]
    by (auto simp del: be_enc.simps length_be_enc split: if_splits)
  have "length (map2 (XOR) ?ip ?m) = (if af = IP4 then 4 else 16)" using assms by simp
  then obtain tup where "addr_bufs_to_tup af (map2 (XOR) ?ip ?m) (map2 (XOR) (be_enc 2 (nat port)) ?m) = Inr tup"
    using addr_bufs_to_tup_total by blast
  then show ?thesis
    unfolding encode_start [OF assms(1)]
    using xor_bufs_Ok [OF ne(1) ne(3)] xor_bufs_Ok [OF ne(2) ne(3)]
    by (simp add: stun_addr_decode_def STUNAddrTup_def get_addr_bufs_plain Let_def del: be_enc.simps split del: if_split cong: if_cong)
qed

text \<open>An address attribute written for any code but the separately masked 0x8020 is read back
  as the same address and port, for both families and any cookie and transaction id of the
  protocol's sizes; for 0x8020 the writer emits the unmasked buffer although the reader unmasks.\<close>

theorem stun_addr_roundtrip:
  assumes "addr_fits af a port" and "length txid = 12" and "length cookie = 4"
  shows "(code \<noteq> XorMappedAddressX \<longrightarrow>
            (\<exists>buf. stun_addr_encode (STUNAddrTup (ip_str a) port af txid cookie) code = Ok buf \<and>
                   length buf = (if af = IP4 then 8 else 20) \<and>
                   stun_addr_unpack (STUNAddrTup ip p af txid cookie) code buf = Ok (a, port))) \<and>
         stun_addr_encode (STUNAddrTup (ip_str a) port af txid cookie) XorMappedAddressX =
           stun_addr_encode (STUNAddrTup (ip_str a) port af txid cookie) MappedAddress"
proof -
  have "stun_addr_encode (STUNAddrTup (ip_str a) port af txid cookie) MappedAddress = Ok (addr_plain af a port)"
    using encode_unmasked [OF assms(1), of MappedAddress] by (simp add: xor_codes_def stun_codes)
  moreover have "\<exists>buf. stun_addr_encode (STUNAddrTup (ip_str a) port af txid cookie) code = Ok buf \<and>
                   length buf = (if af = IP4 then 8 else 20) \<and>
                   stun_addr_unpack (STUNAddrTup ip p af txid cookie) code buf = Ok (a, port)"
    if "code \<noteq> XorMappedAddressX"
  proof (cases "code \<in> xor_codes")
    case True
    then show ?thesis using encode_masked unpack_masked assms by (auto simp: length_addr_plain addr_mask_def)
  next
    case False
    then show ?thesis using encode_unmasked [OF assms(1) _ that] by (simp add: length_addr_plain)
  qed
  ultimately show ?thesis using encode_X [OF assms] by simp
qed

theorem stun_addr_roundtrip_witness:
  "(\<exists>buf. stun_addr_encode (STUNAddrTup (ip_str (IPv4Address 3232235777)) 5000 IP4 (replicate 12 7) STUN_MAGIC_COOKIE)
            XorMappedAddress = Ok buf \<and> length buf = 8 \<and>
          stun_addr_unpack (STUNAddrTup [] 0 IP4 (replicate 12 7) STUN_MAGIC_COOKIE) XorMappedAddress buf
            = Ok (IPv4Address 3232235777, 5000)) \<and>
   stun_addr_encode (STUNAddrTup (ip_str (IPv4Address 3232235777)) 5000 IP4 (replicate 12 7) STUN_MAGIC_COOKIE)
     XorMappedAddressX =
   stun_addr_encode (STUNAddrTup (ip_str (IPv4Address 3232235777)) 5000 IP4 (replicate 12 7) STUN_MAGIC_COOKIE)
     MappedAddress"
  using stun_addr_roundtrip [of IP4 "IPv4Address 3232235777" 5000 "replicate 12 7" STUN_MAGIC_COOKIE XorMappedAddress "[]" 0]
  by (simp add: addr_fits_def STUN_MAGIC_COOKIE_def stun_codes del: ip_str.simps replicate_numeral)

section \<open>Messages: writing, packing and reading back\<close>

text \<open>An attribute that can be written, its serialised form, and the attributes a reader sees.\<close>

definition attr_ok :: "bytes \<times> bytes \<Rightarrow> bool" where
  "attr_ok a = (length (fst a) = 2 \<and> snd a \<noteq> [] \<and> length (snd a) < 65536)"

definition attr_ser :: "bytes \<times> bytes \<Rightarrow> bytes" where
  "attr_ser a = fst a @ be_enc 2 (length (snd a)) @ snd a @ replicate (attr_pad (length (snd a))) 0"

definition attrs_ser :: "(bytes \<times> bytes) list \<Rightarrow> bytes" where
  "attrs_ser attrs = concat (map attr_ser attrs)"

inductive reads_attrs :: "stun_msg \<Rightarrow> (bytes \<times> bytes) list \<Rightarrow> stun_msg \<Rightarrow> bool" where
  fin: "stun_eof m \<Longrightarrow> reads_attrs m [] m"
| more: "\<not> stun_eof m \<Longrightarrow> read_attr m = (Ok (Some c, Some (length d), Some d), m1) \<Longrightarrow>
         reads_attrs m1 attrs m' \<Longrightarrow> reads_attrs m ((c, d) # attrs) m'"

text \<open>The cursor stands before a well-formed attribute list that ends the message.\<close>

definition at_attrs :: "stun_msg \<Rightarrow> (bytes \<times> bytes) list \<Rightarrow> bool" where
  "at_attrs m attrs = (sm_cursor m \<le> length (sm_msg m) \<and> drop (sm_cursor m) (sm_msg m) = attrs_ser attrs \<and>
     sm_len m = length (sm_msg m) \<and> list_all attr_ok attrs)"

lemma length_attr_ser: "attr_ok a \<Longrightarrow> length (attr_ser a) = 4 + length (snd a) + attr_pad (length (snd a))"
  by (simp add: attr_ser_def attr_ok_def)

lemma attr_ser_long: "attr_ok a \<Longrightarrow> 4 < length (attr_ser a)"
  by (cases "snd a") (auto simp: length_attr_ser attr_ok_def)

lemma attrs_ser_simps [simp]:
  "attrs_ser [] = []" "attrs_ser (a # as) = attr_ser a @ attrs_ser as" "attrs_ser (as @ bs) = attrs_ser as @ attrs_ser bs"
  by (simp_all add: attrs_ser_def)

lemma slice_drop: "slice i j xs = take (j - i) (drop i xs)"
  by (simp add: slice_def)

lemma attr_buf_ok: "attr_ok a \<Longrightarrow> attr_buf (fst a) (snd a) = Inr (attr_ser a)"
  by (simp add: attr_buf_def attr_ok_def pack_be_def attr_ser_def del: be_enc.simps)

lemma write_attr_ok:
  "attr_ok a \<Longrightarrow> write_attr (fst a) (snd a) m =
     Inr (m\<lparr>sm_len := sm_len m + length (attr_ser a), sm_msg := sm_msg m @ attr_ser a\<rparr>)"
  by (simp add: write_attr_def attr_buf_ok)

lemma write_attrs_ok:
  "list_all attr_ok attrs \<Longrightarrow> rfold (\<lambda>(c, d) m. write_attr c d m) attrs m =
     Inr (m\<lparr>sm_len := sm_len m + length (attrs_ser attrs), sm_msg := sm_msg m @ attrs_ser attrs\<rparr>)"
proof (induction attrs arbitrary: m)
  case (Cons a attrs)
  then show ?case using write_attr_ok [of a m] by (cases a) simp
qed simp

lemma read_attr_at:
  assumes "at_attrs m (a # attrs)"
  defines "m1 \<equiv> m\<lparr>sm_cursor := sm_cursor m + length (attr_ser a)\<rparr>"
  shows "read_attr m = (Ok (Some (fst a), Some (length (snd a)), Some (snd a)), m1) \<and> at_attrs m1 attrs \<and> \<not> stun_eof m"
proof -
  let ?cur = "sm_cursor m" and ?msg = "sm_msg m" and ?n = "length (snd a)"
  have a: "attr_ok a" and d: "drop ?cur ?msg = attr_ser a @ attrs_ser attrs"
    and c: "?cur \<le> length ?msg" and l: "sm_len m = length ?msg" and as: "list_all attr_ok attrs"
    using assms(1) by (auto simp: at_attrs_def)
  have n: "?n < 65536" "?n \<noteq> 0" "length (fst a) = 2" using a by (auto simp: attr_ok_def)
  have len: "length ?msg = ?cur + length (attr_ser a) + length (attrs_ser attrs)"
    using arg_cong [OF d, of length] c by simp
  have big: "4 + ?n \<le> length (attr_ser a)" using a by (simp add: length_attr_ser)
  have s1: "slice ?cur (?cur + 2) ?msg = fst a" using n by (simp add: slice_drop d attr_ser_def del: be_enc.simps)
  have "slice (?cur + 2) (?cur + 4) ?msg = take 2 (drop 2 (drop ?cur ?msg))" by (simp add: slice_drop add.commute)
  also have "\<dots> = be_enc 2 ?n" using n by (simp add: d attr_ser_def del: be_enc.simps)
  finally have s2: "be_dec (slice (?cur + 2) (?cur + 4) ?msg) = ?n" using n by (simp add: be.dec_enc_id del: be_enc.simps)
  have "slice (?cur + 4) (?cur + 4 + ?n) ?msg = take ?n (drop 4 (drop ?cur ?msg))" by (simp add: slice_drop add.commute)
  also have "\<dots> = snd a" using n by (simp add: d attr_ser_def del: be_enc.simps)
  finally have s3: "slice (?cur + 4) (?cur + 4 + ?n) ?msg = snd a" .
  have "?msg \<noteq> []" using len big by auto
  then have "read_attr m = (Ok (Some (fst a), Some ?n, Some (snd a)), m1)"
    using n big len s1 s2 s3 length_attr_ser [OF a] by (simp add: read_attr_def m1_def Let_def)
  moreover have "at_attrs m1 attrs"
    using len l as d by (simp add: at_attrs_def m1_def) (metis add.commute append_eq_conv_conj drop_drop)
  moreover have "\<not> stun_eof m" using len l big by (simp add: stun_eof_def)
  ultimately show ?thesis by simp
qed

lemma at_attrs_eof: "at_attrs m [] \<Longrightarrow> stun_eof m"
  by (auto simp: at_attrs_def stun_eof_def)

lemma reads_attrs_at: "at_attrs m attrs \<Longrightarrow> \<exists>m'. reads_attrs m attrs m' \<and> stun_eof m'"
proof (induction attrs arbitrary: m)
  case Nil
  then show ?case using at_attrs_eof reads_attrs.fin by blast
next
  case (Cons a attrs)
  from read_attr_at [OF Cons.prems] Cons.IH show ?case
    by (cases a) (force intro: reads_attrs.more)
qed

text \<open>The attribute loop is the fold of the handler over the attributes.\<close>

definition attr_step :: "af \<Rightarrow> bytes \<times> bytes \<Rightarrow> stun_msg \<Rightarrow> stun_msg res" where
  "attr_step af a m = stun_proc_attrs af (fst a) (Some (snd a)) (m\<lparr>sm_cursor := sm_cursor m + length (attr_ser a)\<rparr>)"

lemma at_attrs_fields:
  "at_attrs m attrs \<Longrightarrow> sm_msg m' = sm_msg m \<Longrightarrow> sm_cursor m' = sm_cursor m \<Longrightarrow> sm_len m' = sm_len m \<Longrightarrow> at_attrs m' attrs"
  by (simp add: at_attrs_def)

lemma stun_attr_loop_fold: "at_attrs m attrs \<Longrightarrow> stun_attr_loop af m = rfold (attr_step af) attrs m"
proof (induction attrs arbitrary: m)
  case Nil
  then show ?case using at_attrs_eof by (simp add: stun_attr_loop.simps)
next
  case (Cons a attrs)
  let ?m1 = "m\<lparr>sm_cursor := sm_cursor m + length (attr_ser a)\<rparr>"
  note r = read_attr_at [OF Cons.prems]
  show ?case
  proof (cases "attr_step af a m")
    case (Inl e)
    then show ?thesis using r by (simp add: stun_attr_loop.simps [of af m] attr_step_def)
  next
    case (Inr m2)
    then have p: "stun_proc_attrs af (fst a) (Some (snd a)) ?m1 = Inr m2" by (simp add: attr_step_def)
    have "at_attrs m2 attrs" using r stun_proc_attrs_fields [OF p] at_attrs_fields by metis
    then show ?thesis using r p Inr Cons.IH by (simp add: stun_attr_loop.simps [of af m])
  qed
qed

lemma unpack_packed:
  assumes "list_all attr_ok attrs" and "attrs \<noteq> []" and "length (attrs_ser attrs) < 65536"
    and "length txid = 12" and "length cookie = 4" and "length ty = 2"
  shows "\<exists>m. stun_unpack t0 mode0 (ty @ be_enc 2 (length (attrs_ser attrs)) @ cookie @ txid @ attrs_ser attrs @ rest)
              = Ok (m, Some rest) \<and> at_attrs m attrs \<and> sm_txn_id m = txid \<and> sm_cookie m = cookie \<and> sm_type m = ty \<and>
            sm_rtup m = None \<and> sm_ctup m = None"
proof -
  let ?n = "length (attrs_ser attrs)"
  let ?buf = "ty @ be_enc 2 ?n @ cookie @ txid @ attrs_ser attrs @ rest"
  have "0 < ?n" using assms(1,2) by (cases attrs) (auto dest: attr_ser_long)
  moreover have "slice 0 2 ?buf = ty" "slice 4 8 ?buf = cookie" "slice 8 20 ?buf = txid"
    "slice 20 (20 + ?n) ?buf = attrs_ser attrs" "drop (20 + ?n) ?buf = rest"
    using assms by (simp_all add: slice_def del: be_enc.simps)
  moreover have "be_dec (slice 2 4 ?buf) = ?n"
    using assms by (simp add: slice_def be.dec_enc_id del: be_enc.simps)
  moreover have "length ?buf = 20 + ?n + length rest" using assms by simp
  ultimately show ?thesis using assms(1)
    by (simp add: stun_unpack_def stun_decode_def STUNMsg_def Let_def at_attrs_def del: be_enc.simps)
qed

definition wire_type :: "stun_mode \<Rightarrow> bytes" where
  "wire_type mode = (if mode = RFC3489 then Binding else b_and (b_or Binding Request) [0x3F, 0xFF])"

lemma length_wire_type [simp]: "length (wire_type mode) = 2"
  by (simp add: wire_type_def Binding_def Request_def)

lemma stun_request_ok:
  "list_all attr_ok attrs \<Longrightarrow> length (attrs_ser attrs) < 65536 \<Longrightarrow>
   stun_request txid mode attrs =
     Ok (wire_type mode @ be_enc 2 (length (attrs_ser attrs)) @ sm_cookie (STUNMsg txid Binding Request mode) @ txid @ attrs_ser attrs)"
  by (simp add: stun_request_def write_attrs_ok stun_pack_def STUNMsg_def pack_be_def wire_type_def del: be_enc.simps)

text \<open>C25: A request written from any non-empty list of non-empty attributes of less than 64 KiB is packed without
  error, and unpacking it (with anything behind it) returns the transaction id, the cookie of the
  mode, the bytes behind it, and exactly the attributes written, in order, up to the end of the message.\<close>

theorem stun_msg_roundtrip:
  assumes "list_all attr_ok attrs" and "attrs \<noteq> []" and "length (attrs_ser attrs) < 65536" and "length txid = 12"
  shows "\<exists>buf m m'. stun_request txid mode attrs = Ok buf \<and>
           stun_unpack t0 mode0 (buf @ rest) = Ok (m, Some rest) \<and> sm_txn_id m = txid \<and>
           sm_cookie m = (if mode = RFC3489 then [0x31, 0x32, 0x33, 0x34] else STUN_MAGIC_COOKIE) \<and>
           reads_attrs m attrs m' \<and> stun_eof m'"
proof -
  let ?c = "sm_cookie (STUNMsg txid Binding Request mode)"
  have c: "?c = (if mode = RFC3489 then [0x31, 0x32, 0x33, 0x34] else STUN_MAGIC_COOKIE)"
    by (simp add: STUNMsg_def)
  then have l: "length ?c = 4" by (simp add: STUN_MAGIC_COOKIE_def)
  obtain m where m: "stun_unpack t0 mode0 (wire_type mode @ be_enc 2 (length (attrs_ser attrs)) @ ?c @ txid @ attrs_ser attrs @ rest)
       = Ok (m, Some rest)" "at_attrs m attrs" "sm_txn_id m = txid" "sm_cookie m = ?c"
    using unpack_packed [OF assms(1-4) l length_wire_type] by blast
  obtain m' where "reads_attrs m attrs m'" "stun_eof m'" using reads_attrs_at [OF m(2)] by blast
  then show ?thesis using m c stun_request_ok [OF assms(1,3), of txid mode] by auto
qed

theorem stun_msg_roundtrip_witness:
  "\<exists>buf m m'. stun_request (replicate 12 9) RFC5389 [(ChangeRequest, [0, 0, 0, 6]), (Username, [65, 66, 67])] = Ok buf \<and>
     stun_unpack [] RFC3489 (buf @ [1, 2]) = Ok (m, Some [1, 2]) \<and> sm_txn_id m = replicate 12 9 \<and>
     sm_cookie m = (if RFC5389 = RFC3489 then [0x31, 0x32, 0x33, 0x34] else STUN_MAGIC_COOKIE) \<and>
     reads_attrs m [(ChangeRequest, [0, 0, 0, 6]), (Username, [65, 66, 67])] m' \<and> stun_eof m'"
  by (rule stun_msg_roundtrip) (simp_all add: attr_ok_def stun_codes attr_ser_def attr_pad_def)

section \<open>The address a reply tells\<close>

lemma attr_step_other:
  "fst a \<notin> {XorMappedAddressX, XorMappedAddress, MappedAddress, ChangedAddress} \<Longrightarrow>
   attr_step af a m = Ok (m\<lparr>sm_cursor := sm_cursor m + length (attr_ser a)\<rparr>)"
  by (simp add: attr_step_def stun_proc_attrs_def)

lemma attr_step_later:
  "sm_rtup m \<noteq> None \<Longrightarrow> fst a \<noteq> ChangedAddress \<Longrightarrow>
   attr_step af a m = Ok (m\<lparr>sm_cursor := sm_cursor m + length (attr_ser a)\<rparr>)"
  by (cases "sm_rtup m") (simp_all add: attr_step_def stun_proc_attrs_def)

lemma attr_step_mapped:
  assumes "sm_rtup m = None"
    and "stun_addr_unpack (STUNAddrTup [] 0 af (sm_txn_id m) (sm_cookie m)) XorMappedAddress d = Ok tup"
  shows "attr_step af (XorMappedAddress, d) m =
     Ok (m\<lparr>sm_cursor := sm_cursor m + length (attr_ser (XorMappedAddress, d)), sm_rtup := Some tup\<rparr>)"
  using assms by (simp add: attr_step_def stun_proc_attrs_def attr_tup_def stun_codes)

lemma rfold_append: "rfold f (xs @ ys) s = rbind (rfold f xs s) (rfold f ys)"
  by (induction xs arbitrary: s) (auto simp: rbind_def split: sum.splits)

lemma fold_others:
  "list_all (\<lambda>a. fst a \<notin> {XorMappedAddressX, XorMappedAddress, MappedAddress, ChangedAddress}) attrs \<Longrightarrow>
   rfold (attr_step af) attrs m = Ok (m\<lparr>sm_cursor := sm_cursor m + length (attrs_ser attrs)\<rparr>)"
  by (induction attrs arbitrary: m) (simp_all add: attr_step_other add.assoc)

lemma fold_later:
  "sm_rtup m \<noteq> None \<Longrightarrow> list_all (\<lambda>a. fst a \<noteq> ChangedAddress) attrs \<Longrightarrow>
   rfold (attr_step af) attrs m = Ok (m\<lparr>sm_cursor := sm_cursor m + length (attrs_ser attrs)\<rparr>)"
  by (induction attrs arbitrary: m) (auto simp add: attr_step_later add.assoc)

text \<open>A server's reply: a header and attributes, one of them our masked address.\<close>

definition reply_buf :: "bytes \<Rightarrow> bytes \<Rightarrow> bytes \<Rightarrow> (bytes \<times> bytes) list \<Rightarrow> bytes" where
  "reply_buf ty cookie txid attrs = ty @ be_enc 2 (length (attrs_ser attrs)) @ cookie @ txid @ attrs_ser attrs"

text \<open>From a server's reply that carries our address masked under the reply's own cookie and
  transaction id, after attributes that are no address and before any but a changed address,
  \<open>stun_proto\<close> terminates and learns exactly that address, whatever the mode of the request.\<close>

theorem stun_proto_learns_address:
  assumes "addr_fits af a port" and "length txid = 12" and "length cookie = 4" and "length ty = 2"
    and "list_all attr_ok before" and "list_all attr_ok after"
    and "list_all (\<lambda>a. fst a \<notin> {XorMappedAddressX, XorMappedAddress, MappedAddress, ChangedAddress}) before"
    and "list_all (\<lambda>a. fst a \<noteq> ChangedAddress) after"
    and "stun_addr_encode (STUNAddrTup (ip_str a) port af txid cookie) XorMappedAddress = Ok d"
    and "length (attrs_ser (before @ (XorMappedAddress, d) # after)) < 65536"
  shows "\<exists>m. stun_proto t0 (reply_buf ty cookie txid (before @ (XorMappedAddress, d) # after)) af = Ok (m, Some []) \<and>
             sm_rtup m = Some (a, port) \<and> sm_ctup m = None"
proof -
  let ?attrs = "before @ (XorMappedAddress, d) # after"
  have d: "d = map2 (XOR) (addr_plain af a port) (addr_mask cookie txid)"
    using encode_masked [OF assms(1) _ assms(2,3), of XorMappedAddress] assms(9) by (simp add: xor_codes_def)
  have u: "stun_addr_unpack (STUNAddrTup [] 0 af txid cookie) XorMappedAddress d = Ok (a, port)"
    unfolding d by (rule unpack_masked) (use assms in \<open>simp_all add: xor_codes_def\<close>)
  have "length d = (if af = IP4 then 8 else 20)" using assms by (simp add: d length_addr_plain addr_mask_def)
  then have "attr_ok (XorMappedAddress, d)" by (auto simp: attr_ok_def stun_codes split: if_splits)
  then have ok: "list_all attr_ok ?attrs" using assms by simp
  obtain m where m: "stun_unpack t0 RFC3489 (reply_buf ty cookie txid ?attrs) = Ok (m, Some [])" "at_attrs m ?attrs"
      "sm_txn_id m = txid" "sm_cookie m = cookie" "sm_rtup m = None" "sm_ctup m = None"
    using unpack_packed [OF ok _ assms(10,2,3,4), of t0 RFC3489 "[]"] by (auto simp: reply_buf_def)
  obtain c1 where c1: "rfold (attr_step af) before m = Ok (m\<lparr>sm_cursor := c1\<rparr>)"
    using fold_others [OF assms(7)] by blast
  let ?m2 = "m\<lparr>sm_cursor := c1 + length (attr_ser (XorMappedAddress, d)), sm_rtup := Some (a, port)\<rparr>"
  obtain c2 where c2: "rfold (attr_step af) after ?m2 = Ok (?m2\<lparr>sm_cursor := c2\<rparr>)"
    using fold_later [OF _ assms(8), of ?m2] by auto
  have s: "attr_step af (XorMappedAddress, d) (m\<lparr>sm_cursor := c1\<rparr>) = Ok ?m2"
    using attr_step_mapped [of "m\<lparr>sm_cursor := c1\<rparr>" af d "(a, port)"] m u by simp
  have "rfold (attr_step af) ?attrs m = Ok (?m2\<lparr>sm_cursor := c2\<rparr>)"
    using c1 s c2 by (simp add: rfold_append)
  then show ?thesis using stun_attr_loop_fold [OF m(2)] m by (simp add: stun_proto_def)
qed

theorem stun_proto_learns_address_witness:
  "\<exists>m. stun_proto [] (reply_buf [1, 1] STUN_MAGIC_COOKIE (replicate 12 7) [(Username, [65]),
          (XorMappedAddress, [0, 1, 0x32, 0x9A, 0xE1, 0xBA, 0xA5, 0x43]), (MappedAddress, [0])]) IP4 = Ok (m, Some []) \<and>
     sm_rtup m = Some (IPv4Address 3232235777, 5000) \<and> sm_ctup m = None"
proof -
  have "stun_addr_encode (STUNAddrTup (ip_str (IPv4Address 3232235777)) 5000 IP4 (replicate 12 7) STUN_MAGIC_COOKIE)
          XorMappedAddress = Ok [0, 1, 0x32, 0x9A, 0xE1, 0xBA, 0xA5, 0x43]"
    by (subst encode_masked)
       (simp_all add: addr_fits_def xor_codes_def STUN_MAGIC_COOKIE_def addr_plain_def addr_mask_def eval_simps)
  then show ?thesis
    using stun_proto_learns_address [of IP4 "IPv4Address 3232235777" 5000 "replicate 12 7" STUN_MAGIC_COOKIE "[1, 1]"
        "[(Username, [65])]" "[(MappedAddress, [0])]" "[0, 1, 0x32, 0x9A, 0xE1, 0xBA, 0xA5, 0x43]" "[]"]
    by (simp add: addr_fits_def STUN_MAGIC_COOKIE_def attr_ok_def attr_ser_def attr_pad_def stun_codes del: ip_str.simps)
qed

section \<open>The client\<close>

text \<open>
  The client of \<^verbatim>\<open>stun_client.py\<close>: its server and mode. The pipe it opens is the exchange function, the
  local end of the pipe an argument. Feature checks come before any traffic.
\<close>

record stun_client =
  stc_af :: af
  stc_dest :: "ipa \<times> int"
  stc_mode :: stun_mode

type_synonym exchange = "ipa \<times> int \<Rightarrow> bytes \<Rightarrow> bytes option"

definition client_get_stun_reply :: "stun_client \<Rightarrow> bytes \<Rightarrow> exchange \<Rightarrow> bytes \<Rightarrow> ipa \<times> int \<Rightarrow> (bytes \<times> bytes) list \<Rightarrow> stun_reply res" where
  "client_get_stun_reply c txid ex rnd ltup attrs =
     get_stun_reply txid (stc_mode c) attrs (ex (stc_dest c)) rnd (stc_af c) (stc_dest c) ltup"

definition get_change_port_reply :: "stun_client \<Rightarrow> bytes \<Rightarrow> exchange \<Rightarrow> bytes \<Rightarrow> ipa \<times> int \<Rightarrow> ipa \<times> int \<Rightarrow> stun_reply res" where
  "get_change_port_reply c txid ex rnd ltup ctup =
     (if stc_mode c \<noteq> RFC3489 then Err (PyException ''STUN change port only supported in RFC3489 mode.'')
      else (let reply_addr = (fst (stc_dest c), snd ctup)
            in get_stun_reply txid (stc_mode c) [(ChangeRequest, [0, 0, 0, 2])] (ex reply_addr) rnd (stc_af c) reply_addr ltup))"

definition get_change_tup_reply :: "stun_client \<Rightarrow> bytes \<Rightarrow> exchange \<Rightarrow> bytes \<Rightarrow> ipa \<times> int \<Rightarrow> ipa \<times> int \<Rightarrow> stun_reply res" where
  "get_change_tup_reply c txid ex rnd ltup ctup =
     (if stc_mode c \<noteq> RFC3489 then Err (PyException ''STUN change port only supported in RFC3489 mode.'')
      else get_stun_reply txid (stc_mode c) [(ChangeRequest, [0, 0, 0, 6])] (ex ctup) rnd (stc_af c) ctup ltup)"

definition get_wan_ip :: "stun_client \<Rightarrow> bytes \<Rightarrow> exchange \<Rightarrow> bytes \<Rightarrow> ipa \<times> int \<Rightarrow> string option res" where
  "get_wan_ip c txid ex rnd ltup =
     rbind (client_get_stun_reply c txid ex rnd ltup []) (\<lambda>reply.
       case sm_rtup (rp_msg reply) of None \<Rightarrow> Ok None
       | Some (ip, _) \<Rightarrow> rmap Some (ip_norm (IpStr (ip_str ip))))"

definition get_mapping :: "stun_client \<Rightarrow> bytes \<Rightarrow> exchange \<Rightarrow> bytes \<Rightarrow> ipa \<times> int \<Rightarrow> (int \<times> int) option res" where
  "get_mapping c txid ex rnd ltup =
     rbind (client_get_stun_reply c txid ex rnd ltup []) (\<lambda>reply.
       Ok (case sm_rtup (rp_msg reply) of None \<Rightarrow> None
           | Some (_, port) \<Rightarrow> Some (snd ltup, port)))"

text \<open>
  \<open>get_n_stun_clients\<close>: one worker tries up to \<open>limit\<close> fresh clients, swallowing exceptions, and
  keeps the first whose mapping is not None; the outcomes of its attempts are the list.
\<close>

fun stun_worker :: "nat \<Rightarrow> ('c \<times> 'm option res) list \<Rightarrow> 'c option" where
  "stun_worker 0 _ = None"
| "stun_worker (Suc n) [] = None"
| "stun_worker (Suc n) ((c, out) # xs) =
     (case out of Inr (Some _) \<Rightarrow> Some c | _ \<Rightarrow> stun_worker n xs)"

definition get_n_stun_clients :: "nat \<Rightarrow> ('c \<times> 'm option res) list list \<Rightarrow> 'c list" where
  "get_n_stun_clients limit workers = strip_none (map (stun_worker limit) workers)"

lemma stun_worker_sound:
  "stun_worker n xs = Some c \<Longrightarrow> \<exists>m. (c, Inr (Some m)) \<in> set (take n xs)"
  by (induction n xs rule: stun_worker.induct) (auto split: sum.splits option.splits)

lemma stun_worker_None:
  "stun_worker n xs = None \<Longrightarrow> (c, Inr (Some m)) \<notin> set (take n xs)"
  by (induction n xs rule: stun_worker.induct) (auto split: sum.splits option.splits)

end
