(* ===== verification/Async_Tasks.thy ===== *)
theory Async_Tasks
  imports Prelude
begin

text \<open>
  The task helpers the protocol clients rely on: retrying with a status future (\<open>async_retry\<close> of
  \<^verbatim>\<open>utility/utils.py\<close>), the bookkeeping of handler tasks, and the agreement over concurrent results of
  \<^verbatim>\<open>utility/pattern_factory.py\<close>. What the awaited coroutines do is the environment of the definitions.
\<close>

section \<open>Retrying\<close>

text \<open>
  One pass of the loop ends in one of these ways: the coroutine itself times out, its status future
  times out, it raises another exception, or a status arrives (\<open>Status True\<close> is STATUS_RETRY).
\<close>

datatype attempt = NoFuture | NoStatus | Raised pyerr | Status bool

text \<open>
  The loop counts passes in \<open>i\<close> and requested retransmissions in \<open>r\<close>. Its \<open>finally\<close> block breaks out
  of the loop when either reaches \<open>count\<close>, whatever the pass was about to return or raise. The last
  component counts the messages sent.
\<close>

partial_function (option) async_retry_loop ::
  "(nat \<Rightarrow> attempt) \<Rightarrow> int \<Rightarrow> int \<Rightarrow> int \<Rightarrow> nat \<Rightarrow> nat \<Rightarrow> (unit res \<times> nat) option" where
  "async_retry_loop env count i r k sent =
     (let first = (if i = 0 then Suc sent else sent);
          (out, i, r, sent) = (case env k of
             NoFuture \<Rightarrow> (None, i, r, sent)
           | NoStatus \<Rightarrow> (None, i, r, first)
           | Raised e \<Rightarrow> (Some (Err e), i, r, sent)
           | Status retry \<Rightarrow> if retry then (None, i - 1, r + 1, Suc first) else (Some (Ok ()), i, r, first));
          i = i + 1
      in if count = i \<or> count = r then Some (Err TimeoutError, sent)
         else (case out of Some result \<Rightarrow> Some (result, sent)
               | None \<Rightarrow> async_retry_loop env count i r (Suc k) sent))"

definition async_retry :: "(nat \<Rightarrow> attempt) \<Rightarrow> int \<Rightarrow> (unit res \<times> nat) option" where
  "async_retry env count = async_retry_loop env count 0 0 0 0"

text \<open>Each pass that does not end the loop raises exactly one of the two counters.\<close>

lemma async_retry_loop_returns:
  "i < count \<Longrightarrow> r < count \<Longrightarrow> \<exists>out. async_retry_loop env count i r k sent = Some out"
proof (induction "nat (2 * count - i - r)" arbitrary: i r k sent rule: less_induct)
  case less
  have ih: "\<exists>out. async_retry_loop env count i' r' (Suc k) sent' = Some out"
    if "i' + r' = i + r + 1" "i' < count" "r' < count" for i' r' sent'
    using less.prems that by (intro less.hyps) auto
  have "count \<noteq> i + 1 \<Longrightarrow> i + 1 < count" "count \<noteq> r + 1 \<Longrightarrow> r + 1 < count" using less.prems by auto
  then show ?case
    using ih [of "i + 1" r] ih [of i "r + 1"] less.prems
    by (subst async_retry_loop.simps, cases "env k") (auto simp: Let_def)
qed

lemma async_retry_loop_waits:
  "(\<And>j. j < n \<Longrightarrow> env (k + j) = NoStatus) \<Longrightarrow> i + int n < count \<Longrightarrow> 0 < i \<Longrightarrow> 0 < count \<Longrightarrow>
   async_retry_loop env count i 0 k sent = async_retry_loop env count (i + int n) 0 (k + n) sent"
proof (induction n arbitrary: i k)
  case (Suc n)
  have e: "env k = NoStatus" using Suc.prems(1) [of 0] by simp
  have "async_retry_loop env count i 0 k sent = async_retry_loop env count (i + 1) 0 (Suc k) sent"
    using Suc.prems by (subst async_retry_loop.simps) (simp add: e)
  also have "\<dots> = async_retry_loop env count (i + 1 + int n) 0 (Suc k + n) sent"
    using Suc.prems(1) [of "Suc _"] Suc.prems by (intro Suc.IH) auto
  finally show ?case by (simp add: algebra_simps)
qed simp

text \<open>C30: \<open>async_retry\<close> always ends for a positive count; when the peer answers in pass \<open>k\<close> after
  silence, the call succeeds if that was not the last allowed pass, and a success in the last allowed
  pass is reported as a timeout; one message was sent in either case.\<close>

theorem async_retry_outcome:
  assumes "0 < count"
  shows "(\<exists>out. async_retry env count = Some out) \<and>
         ((\<forall>j < k. env j = NoStatus) \<and> env k = Status False \<and> int k < count \<longrightarrow>
            async_retry env count = Some (if int k + 1 < count then Ok () else Err TimeoutError, 1))"
proof (intro conjI impI)
  show "\<exists>out. async_retry env count = Some out"
    unfolding async_retry_def using assms by (intro async_retry_loop_returns) auto
next
  assume a: "(\<forall>j < k. env j = NoStatus) \<and> env k = Status False \<and> int k < count"
  show "async_retry env count = Some (if int k + 1 < count then Ok () else Err TimeoutError, 1)"
  proof (cases k)
    case 0
    then show ?thesis using a assms by (simp add: async_retry_def async_retry_loop.simps)
  next
    case (Suc n)
    have "async_retry env count = async_retry_loop env count 1 0 1 1"
      using a Suc by (simp add: async_retry_def async_retry_loop.simps [of env count 0])
    also have "\<dots> = async_retry_loop env count (1 + int n) 0 (1 + n) 1"
      using a Suc by (intro async_retry_loop_waits) auto
    also have "\<dots> = Some (if int k + 1 < count then Ok () else Err TimeoutError, 1)"
      using a Suc by (subst async_retry_loop.simps) simp
    finally show ?thesis .
  qed
qed

theorem async_retry_outcome_witness:
  "(\<exists>out. async_retry ((\<lambda>_. NoStatus)(4 := Status False)) 5 = Some out) \<and>
   async_retry ((\<lambda>_. NoStatus)(4 := Status False)) 5 = Some (Err TimeoutError, 1)"
  using async_retry_outcome [of 5 "(\<lambda>_. NoStatus)(4 := Status False)" 4] by simp

section \<open>Handler tasks\<close>

text \<open>A task is its number and whether it is done.\<close>

definition rm_done_tasks :: "('t \<times> bool) list \<Rightarrow> ('t \<times> bool) list" where
  "rm_done_tasks hey = filter (\<lambda>t. \<not> snd t) hey"

text \<open>
  The completion callback tests membership in \<open>pipe.tasks\<close> but removes from \<open>pipe.handler_tasks\<close>:
  \<open>remove\<close> of a missing element raises, and a finished handler stays in \<open>handler_tasks\<close>. An int result
  is only logged, a task result is saved in \<open>pipe.tasks\<close>.
\<close>

definition list_remove :: "'t \<Rightarrow> 't list \<Rightarrow> 't list res" where
  "list_remove x xs = (if x \<in> set xs then Ok (remove1 x xs) else Err ValueError)"

datatype 't handler_result = ResNone | ResInt int | ResTask 't

definition handler_done :: "'t \<Rightarrow> 't handler_result \<Rightarrow> 't list \<times> 't list \<Rightarrow> ('t list \<times> 't list) res" where
  "handler_done task result st =
     (let (tasks, handler_tasks) = st
      in rbind (if task \<in> set tasks then list_remove task handler_tasks else Ok handler_tasks) (\<lambda>handler_tasks.
         Ok (case result of ResTask t \<Rightarrow> tasks @ [t] | _ \<Rightarrow> tasks, handler_tasks)))"

lemma handler_done_keeps_handler:
  "task \<notin> set tasks \<Longrightarrow> \<exists>tasks'. handler_done task result (tasks, hs) = Ok (tasks', hs)"
  by (simp add: handler_done_def)

section \<open>Agreement over concurrent results\<close>

text \<open>
  The results come in completion order; the list ends because all tasks completed or because the
  timeout struck. Only the timeout looks for the most frequent result.
\<close>

datatype completion_end = AllDone | Expired

fun best_result :: "('v \<times> nat) list \<Rightarrow> ('v \<times> nat) option \<Rightarrow> 'v option" where
  "best_result [] best = map_option fst best"
| "best_result ((v, n) # rs) None = best_result rs (Some (v, n))"
| "best_result ((v, n) # rs) (Some (w, m)) = best_result rs (Some (if n > m then (v, n) else (w, m)))"

definition bump :: "'v \<Rightarrow> ('v \<times> nat) list \<Rightarrow> nat \<times> ('v \<times> nat) list" where
  "bump v results = (let n = Suc (case map_of results v of None \<Rightarrow> 0 | Some n \<Rightarrow> n) in (n, dict_set v n results))"

fun first_agree :: "nat \<Rightarrow> completion_end \<Rightarrow> ('v \<times> nat) list \<Rightarrow> 'v list \<Rightarrow> 'v option" where
  "first_agree min_agree fin results [] = (case fin of AllDone \<Rightarrow> None | Expired \<Rightarrow> best_result results None)"
| "first_agree min_agree fin results (v # vs) =
     (let (n, results) = bump v results
      in if n \<ge> min_agree then Some v else first_agree min_agree fin results vs)"

definition concurrent_first_agree_or_best :: "nat \<Rightarrow> completion_end \<Rightarrow> 'v list \<Rightarrow> 'v option" where
  "concurrent_first_agree_or_best min_agree fin vs = first_agree min_agree fin [] vs"

lemma first_agree_counts:
  "(\<And>v. (case map_of results v of None \<Rightarrow> 0 | Some n \<Rightarrow> n) = count_list seen v) \<Longrightarrow>
   first_agree k AllDone results vs = Some w \<Longrightarrow> k \<le> count_list (seen @ vs) w"
proof (induction vs arbitrary: results seen)
  case (Cons v vs)
  define n where "n = Suc (count_list seen v)"
  have b: "bump v results = (n, dict_set v n results)"
    using Cons.prems(1) [of v] by (simp add: bump_def n_def Let_def)
  show ?case
  proof (cases "k \<le> n")
    case True
    then show ?thesis using Cons.prems(2) b by (auto simp: n_def)
  next
    case False
    have "k \<le> count_list ((seen @ [v]) @ vs) w"
    proof (rule Cons.IH)
      show "(case map_of (dict_set v n results) x of None \<Rightarrow> 0 | Some n \<Rightarrow> n) = count_list (seen @ [v]) x" for x
        using Cons.prems(1) [of x] by (auto simp: n_def)
      show "first_agree k AllDone (dict_set v n results) vs = Some w" using Cons.prems(2) b False by simp
    qed
    then show ?thesis by simp
  qed
qed simp

lemma first_agree_sound:
  "concurrent_first_agree_or_best k AllDone vs = Some w \<Longrightarrow> k \<le> count_list vs w"
  unfolding concurrent_first_agree_or_best_def using first_agree_counts [of "[]" "[]" k vs w] by simp

text \<open>Without agreement and without a timeout there is no best result either.\<close>

lemma first_agree_no_best: "concurrent_first_agree_or_best 2 AllDone [1 :: nat, 2, 3] = None"
  by (simp add: concurrent_first_agree_or_best_def bump_def Let_def)

end
