(* ===== verification/Ack_Udp.thy ===== *)
theory Ack_Udp
  imports Py_Utils
begin

text \<open>
  \<^verbatim>\<open>protocol/ack_udp.py\<close>: the acknowledgement header over UDP, the table of sequence numbers that wait
  for an acknowledgement, the retransmission loop and the duplicate filter.
\<close>

section \<open>The header\<close>

definition UDP_MAX_DICT_LEN :: nat where
  "UDP_MAX_DICT_LEN = 1000"

definition is_ack :: "bytes \<Rightarrow> nat option" where
  "is_ack data = (if length data \<ge> 9 \<and> data ! 8 = 1 then Some (be_dec (slice 0 8 data)) else None)"

text \<open>Sequence number, acknowledgement to send and payload, None where the source has None.\<close>

definition is_ackable :: "bytes \<Rightarrow> nat option \<times> bytes option \<times> bytes option" where
  "is_ackable data =
     (if length data \<ge> 9
      then (let seq = be_dec (slice 0 8 data); ack = (if data ! 8 = 0 then Some (be_enc 8 seq @ [1]) else None)
            in (Some seq, ack, Some (drop 9 data)))
      else (None, None, None))"

section \<open>Received messages\<close>

text \<open>
  The table maps the sequence numbers of sent messages to whether their event is set. The handlers
  are optional, as the pipe may have none.
\<close>

type_synonym seq_table = "(nat \<times> bool) list"

record ack_result =
  ar_code :: nat
  ar_payload :: "bytes option"
  ar_send :: "bytes option"

abbreviation ack_res :: "nat \<Rightarrow> bytes option \<Rightarrow> bytes option \<Rightarrow> ack_result" where
  "ack_res c p s \<equiv> \<lparr>ar_code = c, ar_payload = p, ar_send = s\<rparr>"

definition set_event :: "nat \<Rightarrow> seq_table \<Rightarrow> seq_table" where
  "set_event n seq = (if n \<in> fst ` set seq then dict_set n True seq else seq)"

definition handle_ack ::
  "(bytes \<Rightarrow> nat option) option \<Rightarrow> (bytes \<Rightarrow> nat option \<times> bytes option \<times> bytes option) option \<Rightarrow>
   bytes \<Rightarrow> seq_table \<Rightarrow> ack_result \<times> seq_table" where
  "handle_ack f_is_ack f_is_ackable data seq =
     (case Option.bind f_is_ack (\<lambda>f. f data) of
        Some ack_seq \<Rightarrow> (ack_res 0 None None, set_event ack_seq seq)
      | None \<Rightarrow>
          (let (recv_seq, ack, payload) = (case f_is_ackable of None \<Rightarrow> (None, None, None) | Some f \<Rightarrow> f data)
           in if f_is_ackable \<noteq> None \<and> payload = None then (ack_res 0 None None, seq)
              else (let ours = (case recv_seq of Some n \<Rightarrow> ack \<noteq> None \<and> n \<in> fst ` set seq | None \<Rightarrow> False);
                        seq = (if ours then set_event (the recv_seq) seq else seq);
                        ack = (if ours then None else ack);
                        seq = (if length seq > UDP_MAX_DICT_LEN then [] else seq)
                    in if ack \<noteq> None then (ack_res 2 payload ack, seq) else (ack_res 1 payload None, seq))))"

abbreviation rudp_handle :: "bytes \<Rightarrow> seq_table \<Rightarrow> ack_result \<times> seq_table" where
  "rudp_handle \<equiv> handle_ack (Some is_ack) (Some is_ackable)"

section \<open>Sending\<close>

definition ack_frame :: "nat \<Rightarrow> bytes \<Rightarrow> bytes" where
  "ack_frame seq data = be_enc 8 seq @ [0] @ data"

text \<open>
  \<open>ack_send\<close> draws a sequence number, enters it and starts the worker. After each send but the last the
  worker waits on the event it looks up in the table: the acknowledgement came, three seconds passed
  (with the time elapsed since the start), or the table was emptied in between and the lookup raises.
\<close>

definition ack_send_start :: "nat \<Rightarrow> seq_table \<Rightarrow> (nat \<times> seq_table) res" where
  "ack_send_start e seq = rmap (\<lambda>n. (nat n, dict_set (nat n) False seq)) (randrange e 1 (2 ^ (8 * 8)))"

datatype ack_wait = Acked | Waited nat | Gone

function ack_worker :: "nat \<Rightarrow> nat \<Rightarrow> (nat \<Rightarrow> ack_wait) \<Rightarrow> nat \<Rightarrow> nat \<times> unit res" where
  "ack_worker tries sock_timeout wait send_transmits =
     (let send_transmits = Suc send_transmits
      in if send_transmits \<ge> tries then (send_transmits, Ok ())
         else (case wait send_transmits of
                 Acked \<Rightarrow> (send_transmits, Ok ())
               | Gone \<Rightarrow> (send_transmits, Err KeyError)
               | Waited elapsed \<Rightarrow>
                   if sock_timeout \<noteq> 0 \<and> elapsed \<ge> sock_timeout then (send_transmits, Ok ())
                   else ack_worker tries sock_timeout wait send_transmits))"
  by pat_completeness auto
termination
  by (relation "measure (\<lambda>(tries, _, _, n). tries - n)") auto

declare ack_worker.simps [simp del]

text \<open>The clean-up when the worker's loop ends without an exception.\<close>

definition ack_cleanup :: "nat \<Rightarrow> seq_table \<Rightarrow> seq_table" where
  "ack_cleanup n seq = (if n \<in> fst ` set seq then dict_del n seq else seq)"

section \<open>Duplicates\<close>

text \<open>
  \<open>hash\<close> is a parameter (Python randomises it per process); the address text and the data are hashed
  as one string of bytes.
\<close>

definition str_bytes :: "string \<Rightarrow> bytes" where
  "str_bytes s = map of_char s"

definition is_unique_msg :: "(bytes \<Rightarrow> int) \<Rightarrow> nat \<Rightarrow> string \<Rightarrow> bytes \<Rightarrow> (int \<times> int) list \<Rightarrow> bool \<times> (int \<times> int) list" where
  "is_unique_msg hash max_msg_ids ip data msg_ids =
     (let msg_ids = (if length msg_ids > max_msg_ids then [] else msg_ids);
          msg_id = hash (str_bytes ip @ data)
      in if msg_id \<in> fst ` set msg_ids then (False, msg_ids) else (True, dict_set msg_id 1 msg_ids))"

section \<open>Lemmas\<close>

lemma frame_header:
  "n < 2 ^ 64 \<Longrightarrow> be_dec (slice 0 8 (be_enc 8 n @ b # data)) = n"
  by (simp add: slice_def be.dec_enc_id)

lemma frame_flag: "(be_enc 8 n @ b # data) ! 8 = b"
  by (simp add: nth_append)

lemma is_ack_frame: "n < 2 ^ 64 \<Longrightarrow> is_ack (be_enc 8 n @ b # data) = (if b = 1 then Some n else None)"
  using frame_flag [of n b data] by (simp add: is_ack_def frame_header)

lemma is_ackable_frame:
  "n < 2 ^ 64 \<Longrightarrow> is_ackable (be_enc 8 n @ b # data) = (Some n, if b = 0 then Some (be_enc 8 n @ [1]) else None, Some data)"
  using frame_header [of n b data] frame_flag [of n b data] by (simp add: is_ackable_def Let_def)

lemma set_event_set: "n \<in> fst ` set seq \<Longrightarrow> map_of (set_event n seq) n = Some True"
  by (simp add: set_event_def)

lemma set_event_keys [simp]: "map fst (set_event n seq) = map fst seq"
  by (simp add: set_event_def dict_set_keys image_image flip: set_map)

text \<open>A receiver's reply to a fresh frame and what the sender makes of it.\<close>

lemma receive_frame:
  assumes "n < 2 ^ 64" and "n \<notin> fst ` set seq"
  shows "rudp_handle (ack_frame n data) seq =
     (ack_res 2 (Some data) (Some (be_enc 8 n @ [1])), if length seq > UDP_MAX_DICT_LEN then [] else seq)"
  using assms by (simp add: handle_ack_def ack_frame_def is_ack_frame is_ackable_frame Let_def)

lemma receive_ack:
  assumes "n < 2 ^ 64"
  shows "rudp_handle (be_enc 8 n @ 1 # rest) seq = (ack_res 0 None None, set_event n seq)"
  using assms by (simp add: handle_ack_def is_ack_frame)

lemma receive_own_frame:
  assumes "n < 2 ^ 64" and "n \<in> fst ` set seq"
  shows "ar_send (fst (rudp_handle (ack_frame n data) seq)) = None \<and>
         ar_payload (fst (rudp_handle (ack_frame n data) seq)) = Some data"
  using assms by (simp add: handle_ack_def ack_frame_def is_ack_frame is_ackable_frame Let_def)

lemma ack_send_start_Ok:
  "\<exists>n. ack_send_start e seq = Ok (n, dict_set n False seq) \<and> 0 < n \<and> n < 2 ^ 64"
proof -
  obtain x where x: "randrange e 1 (2 ^ (8 * 8)) = Ok x" by (simp add: randrange_def)
  have "1 \<le> x \<and> x < 2 ^ (8 * 8)" by (rule randrange_range [OF x])
  then have "0 < nat x \<and> nat x < 2 ^ 64" by (simp add: nat_less_iff)
  then show ?thesis using x by (auto simp: ack_send_start_def)
qed

text \<open>C31: The acknowledgement protocol closes: for every drawn sequence number and payload, a receiver
  that did not send it itself delivers exactly the payload and answers with an acknowledgement, the
  answer sets the sender's event, an acknowledgement is neither delivered nor answered, and a frame
  that comes back to its own sender is never answered.\<close>

theorem ack_exchange:
  assumes "ack_send_start e seq = Ok (n, seq1)" and "n \<notin> fst ` set other"
  shows "\<exists>ack. fst (rudp_handle (ack_frame n data) other) = ack_res 2 (Some data) (Some ack) \<and>
           map_of (snd (rudp_handle ack seq1)) n = Some True \<and>
           (\<forall>t. fst (rudp_handle ack t) = ack_res 0 None None) \<and>
           ar_send (fst (rudp_handle (ack_frame n data) seq1)) = None"
proof -
  obtain m where "ack_send_start e seq = Ok (m, dict_set m False seq)" "0 < m" "m < 2 ^ 64"
    using ack_send_start_Ok by blast
  with assms(1) have n: "n < 2 ^ 64" "seq1 = dict_set n False seq" by auto
  have "map_of seq1 n = Some False" by (simp add: n)
  then have k: "n \<in> fst ` set seq1" by (metis image_eqI fst_conv map_of_SomeD)
  show ?thesis
    using n k receive_frame [OF n(1) assms(2)] receive_ack [OF n(1), of "[]"] receive_own_frame [OF n(1) k] set_event_set [OF k]
    by (intro exI [of _ "be_enc 8 n @ [1]"]) simp
qed

theorem ack_exchange_witness:
  "\<exists>ack. fst (rudp_handle (ack_frame 8 [104, 105]) []) = ack_res 2 (Some [104, 105]) (Some ack) \<and>
     map_of (snd (rudp_handle ack [(8, False)])) 8 = Some True \<and>
     (\<forall>t. fst (rudp_handle ack t) = ack_res 0 None None) \<and>
     ar_send (fst (rudp_handle (ack_frame 8 [104, 105]) [(8, False)])) = None"
  by (rule ack_exchange [of 7 "[]"]) (simp_all add: ack_send_start_def randrange_def)

lemma ack_worker_bound: "n < tries \<Longrightarrow> fst (ack_worker tries tmo wait n) \<le> tries"
proof (induction tries tmo wait n rule: ack_worker.induct)
  case (1 tries tmo wait n)
  then show ?case
    by (subst ack_worker.simps) (auto simp: Let_def split: ack_wait.split)
qed

text \<open>The retransmission worker sends at least once and at most \<open>tries\<close> times for every behaviour of
  the network; it stops at the first wait in which the acknowledgement arrives, and with silence and
  no timeout it sends exactly \<open>tries\<close> times. When the table is emptied meanwhile it dies on the lookup.\<close>

theorem ack_worker_transmits:
  assumes "0 < tries"
  shows "1 \<le> fst (ack_worker tries tmo wait 0) \<and> fst (ack_worker tries tmo wait 0) \<le> tries \<and>
         (1 < tries \<and> wait 1 = Acked \<longrightarrow> ack_worker tries tmo wait 0 = (1, Ok ())) \<and>
         (1 < tries \<and> wait 1 = Gone \<longrightarrow> ack_worker tries tmo wait 0 = (1, Err KeyError)) \<and>
         ((\<forall>k. \<exists>t. wait k = Waited t) \<and> tmo = 0 \<longrightarrow> ack_worker tries tmo wait 0 = (tries, Ok ()))"
proof -
  have ge: "Suc n \<le> fst (ack_worker tries tmo wait n)" for n
  proof (induction tries tmo wait n rule: ack_worker.induct)
    case (1 tries tmo wait n)
    then show ?case
      by (subst ack_worker.simps) (force simp: Let_def split: ack_wait.split)
  qed
  have all: "ack_worker tries tmo wait n = (tries, Ok ())"
    if "\<forall>k. \<exists>t. wait k = Waited t" "tmo = 0" "n < tries" for n
    using that
  proof (induction tries tmo wait n rule: ack_worker.induct)
    case (1 tries tmo wait n)
    obtain t where "wait (Suc n) = Waited t" using 1(2) by blast
    then show ?case using 1 by (subst ack_worker.simps) (auto simp: Let_def)
  qed
  show ?thesis
    using assms ge [of 0] ack_worker_bound [OF assms, of tmo wait] all [of 0]
    by (simp add: ack_worker.simps [of tries tmo wait 0])
qed

theorem ack_worker_transmits_witness:
  "1 \<le> fst (ack_worker 3 0 (\<lambda>_. Waited 3) 0) \<and> fst (ack_worker 3 0 (\<lambda>_. Waited 3) 0) \<le> 3 \<and>
   ack_worker 3 0 (\<lambda>_. Waited 3) 0 = (3, Ok ())"
  using ack_worker_transmits [of 3 0 "\<lambda>_. Waited 3"] by simp

lemma is_unique_once:
  "length ids \<le> mx \<Longrightarrow> Suc (length ids) \<le> mx \<Longrightarrow> is_unique_msg h mx ip data ids = (True, ids') \<Longrightarrow>
   fst (is_unique_msg h mx ip data ids') = False"
  by (auto simp: is_unique_msg_def Let_def dict_set_new split: if_splits)

text \<open>The filter identifies the sender's address followed by data with a longer address and less data.\<close>

lemma is_unique_msg_confuses:
  "is_unique_msg h mx (ip @ [c]) data ids = is_unique_msg h mx ip (of_char c # data) ids"
  by (simp add: is_unique_msg_def str_bytes_def)

end
