(* ===== verification/Pipe.thy ===== *)
theory Pipe
  imports Ip_Net Ack_Udp
begin

text \<open>
  \<^verbatim>\<open>net/pipe/pipe_client.py\<close> and \<^verbatim>\<open>pipe_events.py\<close>: subscriptions with their bounded queues, the
  dispatch of received messages, sending over the handles, and the table through which a TCP server
  hands out accepted clients. Callbacks are values recorded in the order they are run; Python's
  \<open>hash\<close> and the regular-expression search are parameters.
\<close>

section \<open>Queues\<close>

text \<open>
  The contract of a bounded queue that forgets its oldest item when it is full (capacity 0 is unbounded).
\<close>

locale bounded_queue =
  fixes put :: "'a \<Rightarrow> 'q \<Rightarrow> 'q"
    and get :: "'q \<Rightarrow> ('a \<times> 'q) option"
    and items :: "'q \<Rightarrow> 'a list"
    and cap :: "'q \<Rightarrow> nat"
  assumes items_put: "items (put x q) =
      (if cap q \<noteq> 0 \<and> cap q \<le> length (items q) then tl (items q) else items q) @ [x]"
    and cap_put: "cap (put x q) = cap q"
    and get_None: "get q = None \<longleftrightarrow> items q = []"
    and get_Some: "get q = Some (x, q') \<Longrightarrow> items q = x # items q' \<and> cap q' = cap q"
begin

definition last_of :: "nat \<Rightarrow> 'a list \<Rightarrow> 'a list" where
  "last_of n xs = (if n = 0 then xs else drop (length xs - n) xs)"

definition within :: "'q \<Rightarrow> bool" where
  "within q = (cap q = 0 \<or> length (items q) \<le> cap q)"

lemma within_put: "within q \<Longrightarrow> within (put x q)"
  by (cases "items q") (auto simp: within_def items_put cap_put)

lemma within_get: "within q \<Longrightarrow> get q = Some (x, q') \<Longrightarrow> within q'"
  by (auto simp: within_def dest!: get_Some)

lemma items_put_last: "within q \<Longrightarrow> items (put x q) = last_of (cap q) (items q @ [x])"
  by (cases "items q") (auto simp: within_def items_put last_of_def drop_Suc)

lemma last_of_snoc: "last_of n (last_of n xs @ ys) = last_of n (xs @ ys)"
  by (cases "length xs \<le> n") (auto simp: last_of_def add.commute)

lemma cap_puts: "cap (fold put xs q) = cap q"
  by (induction xs arbitrary: q) (simp_all add: cap_put)

lemma within_puts: "within q \<Longrightarrow> within (fold put xs q)"
  by (induction xs arbitrary: q) (simp_all add: within_put)

lemma items_puts: "within q \<Longrightarrow> items (fold put xs q) = last_of (cap q) (items q @ xs)"
proof (induction xs arbitrary: q)
  case Nil
  then show ?case by (auto simp: within_def last_of_def)
next
  case (Cons x xs)
  then have "items (fold put (x # xs) q) = last_of (cap q) (items (put x q) @ xs)"
    by (simp add: within_put cap_put)
  also have "\<dots> = last_of (cap q) (items q @ x # xs)"
    using Cons.prems by (simp add: items_put_last last_of_snoc)
  finally show ?case .
qed

text \<open>Reading until the queue is empty returns its items in order.\<close>

lemma get_first: "items q = x # r \<Longrightarrow> \<exists>q'. get q = Some (x, q') \<and> items q' = r"
  using get_None [of q] get_Some [of q] by (cases "get q") auto

end

text \<open>\<open>asyncio.Queue\<close>, and the insertion of \<open>do_add\<close>.\<close>

record 'a pqueue =
  q_items :: "'a list"
  q_max :: nat

definition q_full :: "'a pqueue \<Rightarrow> bool" where
  "q_full q = (0 < q_max q \<and> q_max q \<le> length (q_items q))"

definition q_get :: "'a pqueue \<Rightarrow> ('a \<times> 'a pqueue) option" where
  "q_get q = (case q_items q of [] \<Rightarrow> None | x # r \<Rightarrow> Some (x, q\<lparr>q_items := r\<rparr>))"

definition do_add :: "'a \<Rightarrow> 'a pqueue \<Rightarrow> 'a pqueue" where
  "do_add x q =
     (let q = (if q_full q then (case q_get q of Some (_, q') \<Rightarrow> q' | None \<Rightarrow> q) else q)
      in q\<lparr>q_items := q_items q @ [x]\<rparr>)"

interpretation pq: bounded_queue do_add q_get q_items q_max
  by unfold_locales (auto simp: do_add_def q_get_def q_full_def Let_def split: list.splits)

section \<open>Subscriptions\<close>

text \<open>
  A subscription is a message pattern (None and the empty pattern match everything) and an address
  pattern (None: any sender, port 0: any port of the address).
\<close>

type_synonym tup = "string \<times> int"
type_synonym sub = "bytes option \<times> tup option"
type_synonym msg = "tup \<times> bytes"

record 'h sub_entry =
  se_sub :: sub
  se_q :: "msg pqueue"
  se_handler :: "'h option"

type_synonym 'h subs = "(int \<times> 'h sub_entry) list"

definition SUB_ALL :: sub where
  "SUB_ALL = (None, None)"

definition tup_to_sub :: "tup \<Rightarrow> sub res" where
  "tup_to_sub dest_tup = rbind (client_tup_norm (Some dest_tup)) (\<lambda>t. Ok (Some [], t))"

type_synonym hashes = "(bytes option \<Rightarrow> int) \<times> (string \<Rightarrow> int)"

definition hash_sub :: "hashes \<Rightarrow> sub \<Rightarrow> int" where
  "hash_sub hash sub =
     fst hash (fst sub) + (case snd sub of None \<Rightarrow> 0 | Some (ip, port) \<Rightarrow> snd hash (ip @ '':'' @ int_str port))"

definition norm_sub :: "sub \<Rightarrow> sub res" where
  "norm_sub sub = rbind (client_tup_norm (snd sub)) (\<lambda>t. Ok (fst sub, t))"

definition subscribe :: "hashes \<Rightarrow> nat \<Rightarrow> sub \<Rightarrow> 'h option \<Rightarrow> 'h subs \<Rightarrow> (int \<times> 'h subs) res" where
  "subscribe hash qsize sub handler subs =
     rbind (norm_sub sub) (\<lambda>sub.
       let offset = hash_sub hash sub
       in Ok (offset,
            if offset \<in> fst ` set subs then subs
            else dict_set offset \<lparr>se_sub = sub, se_q = \<lparr>q_items = [], q_max = qsize\<rparr>, se_handler = handler\<rparr> subs))"

text \<open>\<open>unsubscribe\<close> hashes the subscription as it is given.\<close>

definition unsubscribe :: "hashes \<Rightarrow> sub \<Rightarrow> 'h subs \<Rightarrow> 'h subs" where
  "unsubscribe hash sub subs =
     (let offset = hash_sub hash sub in if offset \<in> fst ` set subs then dict_del offset subs else subs)"

definition addr_matches :: "tup option \<Rightarrow> tup \<Rightarrow> bool" where
  "addr_matches m t =
     (case m of None \<Rightarrow> True
      | Some m \<Rightarrow> if snd m \<noteq> 0 then m = t else fst m = fst t)"

definition pat_matches :: "(bytes \<Rightarrow> bytes \<Rightarrow> bool) \<Rightarrow> bytes option \<Rightarrow> bytes \<Rightarrow> bool" where
  "pat_matches rx p data = (case p of None \<Rightarrow> True | Some b \<Rightarrow> b = [] \<or> rx b data)"

definition sub_matches :: "(bytes \<Rightarrow> bytes \<Rightarrow> bool) \<Rightarrow> sub \<Rightarrow> msg \<Rightarrow> bool" where
  "sub_matches rx sub m = (addr_matches (snd sub) (fst m) \<and> pat_matches rx (fst sub) (snd m))"

text \<open>One pass of the loop of \<open>add_msg\<close>: run the handler or queue the message.\<close>

definition add_entry :: "(bytes \<Rightarrow> bytes \<Rightarrow> bool) \<Rightarrow> msg \<Rightarrow> 'h sub_entry \<Rightarrow> 'h sub_entry \<times> ('h \<times> msg) list" where
  "add_entry rx m e =
     (if \<not> sub_matches rx (se_sub e) m then (e, [])
      else case se_handler e of
             Some h \<Rightarrow> (e, [(h, m)])
           | None \<Rightarrow> (e\<lparr>se_q := do_add m (se_q e)\<rparr>, []))"

definition add_msg :: "(bytes \<Rightarrow> bytes \<Rightarrow> bool) \<Rightarrow> bytes \<Rightarrow> tup \<Rightarrow> 'h subs \<Rightarrow> ('h subs \<times> ('h \<times> msg) list) res" where
  "add_msg rx data client_tup subs =
     (if subs = [] then Ok (subs, [])
      else rbind (client_tup_norm (Some client_tup)) (\<lambda>t.
             let out = map (\<lambda>(k, e). (k, add_entry rx (the t, data) e)) subs
             in Ok (map (\<lambda>(k, e, _). (k, e)) out, concat (map (\<lambda>(_, _, calls). calls) out))))"

text \<open>
  \<open>recv\<close> on the state when the wait ends: None when the subscription is missing or its queue is still
  empty at the timeout. A normalisation error is raised before the exception block.
\<close>

definition recv :: "hashes \<Rightarrow> sub \<Rightarrow> 'h subs \<Rightarrow> (msg option \<times> 'h subs) res" where
  "recv hash sub subs =
     rbind (norm_sub sub) (\<lambda>sub.
       let offset = hash_sub hash sub
       in Ok (case map_of subs offset of
                None \<Rightarrow> (None, subs)
              | Some e \<Rightarrow>
                  (case q_get (se_q e) of
                     None \<Rightarrow> (None, subs)
                   | Some (m, q) \<Rightarrow> (Some m, dict_set offset (e\<lparr>se_q := q\<rparr>) subs))))"

section \<open>Sending\<close>

datatype handle_kind = StreamWriter | Datagram | StreamTransport | OtherHandle

datatype pipe_handle = HandleOne handle_kind | HandleMap "(tup \<times> handle_kind) list"

definition set_handle :: "handle_kind \<Rightarrow> tup option \<Rightarrow> pipe_handle \<Rightarrow> pipe_handle res" where
  "set_handle hnd client_tup cur =
     (case client_tup of
        None \<Rightarrow> Ok (HandleOne hnd)
      | Some t \<Rightarrow> rbind (client_tup_norm (Some t)) (\<lambda>t.
          case cur of HandleMap d \<Rightarrow> Ok (HandleMap (dict_set (the t) hnd d)) | HandleOne _ \<Rightarrow> Err TypeError))"

text \<open>
  Whether writing to the handle raises is \<open>write_ok\<close>; a missing handle and a failed write are caught
  and give 0. The destination only reaches the network for a datagram handle.
\<close>

definition pipe_send :: "(handle_kind \<Rightarrow> bool) \<Rightarrow> pipe_handle \<Rightarrow> tup option \<Rightarrow> (nat \<times> handle_kind option) res" where
  "pipe_send write_ok hdl dest_tup =
     rbind (client_tup_norm dest_tup) (\<lambda>dest.
       let hnd = (case hdl of HandleOne k \<Rightarrow> Some k
                 | HandleMap d \<Rightarrow> (case dest of None \<Rightarrow> None | Some t \<Rightarrow> map_of d t))
       in Ok (case hnd of None \<Rightarrow> (0, None)
              | Some OtherHandle \<Rightarrow> (0, None)
              | Some k \<Rightarrow> if write_ok k then (1, Some k) else (0, None)))"

section \<open>Pipes\<close>

text \<open>What a pipe does when data arrives, in order.\<close>

datatype ('h, 'p) pipe_out = SendAck bytes tup | Forward 'p bytes | RunCb 'h tup bytes

record ('h, 'p) pipe =
  pi_subs :: "'h subs"
  pi_seq :: seq_table
  pi_acks :: bool
  pi_conf :: net_conf
  pi_msg_ids :: "(int \<times> int) list"
  pi_pipes :: "'p list"
  pi_msg_cbs :: "'h list"
  pi_up_cbs :: "'h list"
  pi_end_cbs :: "'h list"
  pi_running :: bool

type_synonym msg_hash = "bytes \<Rightarrow> int"
type_synonym regex = "bytes \<Rightarrow> bytes \<Rightarrow> bool"

definition route_msg :: "regex \<Rightarrow> bytes \<Rightarrow> tup \<Rightarrow> ('h, 'p) pipe \<Rightarrow> (('h, 'p) pipe \<times> ('h, 'p) pipe_out list) res" where
  "route_msg rx data client_tup p =
     (if data = [] then Ok (p, [])
      else rbind (add_msg rx data client_tup (pi_subs p)) (\<lambda>(subs, calls).
             Ok (p\<lparr>pi_subs := subs\<rparr>,
                 map (\<lambda>q. Forward q data) (pi_pipes p) @ map (\<lambda>h. RunCb h client_tup data) (pi_msg_cbs p) @
                 map (\<lambda>(h, t, d). RunCb h t d) calls)))"

text \<open>
  The end of \<open>handle_data\<close>: drop duplicates when message ids are enabled, then route.
\<close>

definition deliver :: "regex \<Rightarrow> msg_hash \<Rightarrow> bytes \<Rightarrow> tup \<Rightarrow> ('h, 'p) pipe \<Rightarrow> (('h, 'p) pipe \<times> ('h, 'p) pipe_out list) res" where
  "deliver rx mh data client_tup p =
     (if enable_msg_ids (pi_conf p)
      then (let (new, ids) = is_unique_msg mh (max_msg_ids (pi_conf p)) (fst client_tup) data (pi_msg_ids p);
                p = p\<lparr>pi_msg_ids := ids\<rparr>
            in if new then route_msg rx data client_tup p else Ok (p, []))
      else route_msg rx data client_tup p)"

definition handle_data :: "regex \<Rightarrow> msg_hash \<Rightarrow> bytes \<Rightarrow> tup \<Rightarrow> ('h, 'p) pipe \<Rightarrow> (('h, 'p) pipe \<times> ('h, 'p) pipe_out list) res" where
  "handle_data rx mh data client_tup p =
     rbind (client_tup_norm (Some client_tup)) (\<lambda>t. let client_tup = the t in
       if pi_acks p
       then (let (r, seq) = rudp_handle data (pi_seq p);
                 p = p\<lparr>pi_seq := seq\<rparr>;
                 acks = (case ar_send r of None \<Rightarrow> [] | Some a \<Rightarrow> [SendAck a client_tup])
             in if ar_code r = 0 then Ok (p, acks)
                else (case ar_payload r of
                        None \<Rightarrow> Ok (p, acks)
                      | Some payload \<Rightarrow>
                          rbind (deliver rx mh payload client_tup p) (\<lambda>(p, outs). Ok (p, acks @ outs))))
       else deliver rx mh data client_tup p)"

definition add_msg_cb :: "'h \<Rightarrow> ('h, 'p) pipe \<Rightarrow> ('h, 'p) pipe" where
  "add_msg_cb cb p = p\<lparr>pi_msg_cbs := pi_msg_cbs p @ [cb]\<rparr>"

definition del_msg_cb :: "'h \<Rightarrow> ('h, 'p) pipe \<Rightarrow> ('h, 'p) pipe" where
  "del_msg_cb cb p = p\<lparr>pi_msg_cbs := remove1 cb (pi_msg_cbs p)\<rparr>"

definition add_pipe :: "'p \<Rightarrow> ('h, 'p) pipe \<Rightarrow> ('h, 'p) pipe" where
  "add_pipe q p = p\<lparr>pi_pipes := pi_pipes p @ [q]\<rparr>"

definition del_pipe :: "'p \<Rightarrow> ('h, 'p) pipe \<Rightarrow> ('h, 'p) pipe" where
  "del_pipe q p = p\<lparr>pi_pipes := remove1 q (pi_pipes p)\<rparr>"

text \<open>
  \<open>add_end_cb\<close> on a closed pipe passes the callback itself where \<open>run_handlers\<close> iterates a list.
\<close>

definition add_end_cb :: "'h \<Rightarrow> ('h, 'p) pipe \<Rightarrow> ('h, 'p) pipe res" where
  "add_end_cb cb p = (if pi_running p then Ok (p\<lparr>pi_end_cbs := pi_end_cbs p @ [cb]\<rparr>) else Err TypeError)"

section \<open>Accepting TCP clients\<close>

text \<open>
  The table of futures: a slot holds None while its future is pending and the client once it is
  done. A lost connection deletes its slot.
\<close>

record 'c accepts =
  ac_futures :: "(nat \<times> 'c option) list"
  ac_insert :: nat
  ac_get :: nat

definition new_accepts :: "'c accepts" where
  "new_accepts = \<lparr>ac_futures = [(0, None)], ac_insert = 0, ac_get = 0\<rparr>"

definition py_maxsize :: nat where
  "py_maxsize = 2 ^ 63 - 1"

definition add_tcp_client :: "'c \<Rightarrow> 'c accepts \<Rightarrow> nat \<times> 'c accepts" where
  "add_tcp_client client t =
     (let entry = ac_insert t; nxt = (ac_insert t + 1) mod py_maxsize
      in (entry, t\<lparr>ac_insert := nxt, ac_futures := dict_set entry (Some client) (dict_set nxt None (ac_futures t))\<rparr>))"

definition tcp_connection_lost :: "nat \<Rightarrow> 'c accepts \<Rightarrow> 'c accepts res" where
  "tcp_connection_lost entry t =
     rbind (dict_get entry (ac_futures t)) (\<lambda>f.
       Ok (if f \<noteq> None then t\<lparr>ac_futures := dict_del entry (ac_futures t)\<rparr> else t))"

text \<open>
  \<open>make_awaitable\<close> of a server returns in its first pass (no slot of the table is ever None itself):
  the slot to await, its client if it is there already, and the moved pointer.
\<close>

definition make_awaitable :: "'c accepts \<Rightarrow> (nat \<times> 'c option \<times> 'c accepts) res" where
  "make_awaitable t =
     (let bound = ac_insert t + 1; cur = ac_get t mod bound
      in rbind (dict_get cur (ac_futures t)) (\<lambda>f.
           Ok (cur, f, if f \<noteq> None then t\<lparr>ac_get := (cur + 1) mod bound\<rparr> else t)))"

section \<open>Delivery to queues\<close>

text \<open>An address tuple in normal form, as \<open>handle_data\<close> passes it on.\<close>

definition norm_tup :: "tup \<Rightarrow> bool" where
  "norm_tup t = (client_tup_norm (Some t) = Ok (Some t))"

definition add_entry_of :: "regex \<Rightarrow> msg \<Rightarrow> 'h sub_entry \<Rightarrow> 'h sub_entry" where
  "add_entry_of rx m e = fst (add_entry rx m e)"

definition add_msgs :: "regex \<Rightarrow> msg list \<Rightarrow> 'h subs \<Rightarrow> 'h subs res" where
  "add_msgs rx ms subs = rfold (\<lambda>(t, d) s. rmap fst (add_msg rx d t s)) ms subs"

lemma add_msg_norm:
  "norm_tup t \<Longrightarrow> \<exists>calls. add_msg rx d t subs = Ok (map (\<lambda>(k, e). (k, add_entry_of rx (t, d) e)) subs, calls)"
  by (auto simp: add_msg_def norm_tup_def add_entry_of_def comp_def case_prod_unfold)

lemma map_of_map_snd: "map_of (map (\<lambda>(k, e). (k, f e)) d) k = map_option f (map_of d k)"
  by (induction d) auto

lemma add_msgs_norm:
  "list_all (\<lambda>m. norm_tup (fst m)) ms \<Longrightarrow>
   add_msgs rx ms subs = Ok (map (\<lambda>(k, e). (k, fold (add_entry_of rx) ms e)) subs)"
proof (induction ms arbitrary: subs)
  case Nil
  then show ?case by (simp add: add_msgs_def)
next
  case (Cons m ms)
  obtain t d where m: "m = (t, d)" by (cases m)
  obtain calls where "add_msg rx d t subs = Ok (map (\<lambda>(k, e). (k, add_entry_of rx (t, d) e)) subs, calls)"
    using add_msg_norm [of t rx d subs] Cons.prems m by auto
  then show ?case
    using Cons by (simp add: m add_msgs_def comp_def case_prod_unfold)
qed

lemma fold_add_entry:
  "se_handler e = None \<Longrightarrow> fold (add_entry_of rx) ms e = e\<lparr>se_q := fold do_add (filter (sub_matches rx (se_sub e)) ms) (se_q e)\<rparr>"
  by (induction ms arbitrary: e) (simp_all add: add_entry_of_def add_entry_def)

lemma subscribe_fresh:
  "subscribe hash qsize sub handler subs = Ok (k, subs1) \<Longrightarrow> k \<notin> fst ` set subs \<Longrightarrow>
   \<exists>s. norm_sub sub = Ok s \<and> k = hash_sub hash s \<and>
     map_of subs1 k = Some \<lparr>se_sub = s, se_q = \<lparr>q_items = [], q_max = qsize\<rparr>, se_handler = handler\<rparr>"
  by (auto simp: subscribe_def rbind_eq_Ok Let_def)

text \<open>C23: After a fresh subscription, whatever other subscriptions there are and whatever messages arrive,
  its queue holds exactly the matching messages in order of arrival, the last \<open>qsize\<close> of them when the
  queue is bounded, and \<open>recv\<close> on the same subscription returns and removes the oldest of these.\<close>

theorem subscription_delivers:
  assumes "subscribe hash qsize sub None subs = Ok (k, subs1)" and "k \<notin> fst ` set subs"
    and "list_all (\<lambda>m. norm_tup (fst m)) ms"
    and "matching = filter (\<lambda>m. \<forall>s. norm_sub sub = Ok s \<longrightarrow> sub_matches rx s m) ms"
    and "kept = (if qsize = 0 then matching else drop (length matching - qsize) matching)"
  shows "\<exists>subs2 e. add_msgs rx ms subs1 = Ok subs2 \<and> map_of subs2 k = Some e \<and> q_items (se_q e) = kept \<and>
           rmap fst (recv hash sub subs2) = Ok (case kept of [] \<Rightarrow> None | m # _ \<Rightarrow> Some m)"
proof -
  obtain s where s: "norm_sub sub = Ok s" "k = hash_sub hash s"
      "map_of subs1 k = Some \<lparr>se_sub = s, se_q = \<lparr>q_items = [], q_max = qsize\<rparr>, se_handler = None\<rparr>"
    using subscribe_fresh [OF assms(1,2)] by blast
  let ?q = "fold do_add matching \<lparr>q_items = [], q_max = qsize\<rparr>"
  let ?e = "\<lparr>se_sub = s, se_q = ?q, se_handler = None\<rparr>"
  let ?subs2 = "map (\<lambda>(k, e). (k, fold (add_entry_of rx) ms e)) subs1"
  have m: "matching = filter (sub_matches rx s) ms" using assms(4) s by simp
  have e: "map_of ?subs2 k = Some ?e" by (simp add: map_of_map_snd s(3) fold_add_entry m)
  have q: "q_items ?q = kept"
    using pq.items_puts [of "\<lparr>q_items = [], q_max = qsize\<rparr>" matching] assms(5)
    by (simp add: pq.within_def pq.last_of_def)
  have "rmap fst (recv hash sub ?subs2) = Ok (case kept of [] \<Rightarrow> None | m # _ \<Rightarrow> Some m)"
    using s e q by (simp add: recv_def q_get_def Let_def split: list.split)
  then show ?thesis using add_msgs_norm [OF assms(3), of rx subs1] e q by auto
qed

definition demo_hashes :: hashes where
  "demo_hashes = (\<lambda>p. case p of None \<Rightarrow> 1 | Some b \<Rightarrow> int (length b), \<lambda>s. int (length s))"

lemma norm_local: "norm_tup (''127.0.0.1'', p)"
proof -
  have "ip_norm (IpStr ''127.0.0.1'') = Ok ''127.0.0.1''"
    using ip_norm_str [of "IPv4Address 2130706433"] by (simp add: eval_simps octets_def)
  then show ?thesis by (simp add: norm_tup_def client_tup_norm_def)
qed

theorem subscription_delivers_witness:
  "\<exists>subs2 e. add_msgs (\<lambda>_ _. True) [((''127.0.0.1'', 80), [1]), ((''127.0.0.1'', 81), [2]), ((''127.0.0.1'', 80), [3])]
       [(1, \<lparr>se_sub = SUB_ALL, se_q = \<lparr>q_items = [], q_max = 2\<rparr>, se_handler = (None :: nat option)\<rparr>)] = Ok subs2 \<and>
     map_of subs2 1 = Some e \<and> q_items (se_q e) = [((''127.0.0.1'', 81), [2]), ((''127.0.0.1'', 80), [3])] \<and>
     rmap fst (recv demo_hashes SUB_ALL subs2) = Ok (Some ((''127.0.0.1'', 81), [2]))"
proof -
  have "subscribe demo_hashes 2 SUB_ALL None [] =
      Ok (1, [(1, \<lparr>se_sub = SUB_ALL, se_q = \<lparr>q_items = [], q_max = 2\<rparr>, se_handler = (None :: nat option)\<rparr>)])"
    by (simp add: subscribe_def norm_sub_def SUB_ALL_def client_tup_norm_def hash_sub_def demo_hashes_def)
  from subscription_delivers [OF this, of "[((''127.0.0.1'', 80), [1]), ((''127.0.0.1'', 81), [2]), ((''127.0.0.1'', 80), [3])]" _ "\<lambda>_ _. True"]
  show ?thesis
    by (simp add: norm_local norm_sub_def SUB_ALL_def client_tup_norm_def sub_matches_def addr_matches_def pat_matches_def)
qed

text \<open>
  Because \<open>unsubscribe\<close> does not normalise, a subscription to an IPv6 address in compressed form
  stays in the table.
\<close>

lemma unsubscribe_other_key:
  "hash_sub hash sub \<notin> fst ` set subs \<Longrightarrow> unsubscribe hash sub subs = subs"
  by (simp add: unsubscribe_def)

section \<open>Reliable datagrams between two pipes\<close>

text \<open>C29: A frame sent with \<open>ack_send\<close> that reaches a pipe with acknowledgements on is answered to its
  sender and its payload is queued once for every subscription it matches; when the answer comes back,
  the sender's pipe marks the frame as acknowledged and delivers nothing. An empty payload is
  acknowledged but never delivered.\<close>

theorem rudp_pipes:
  assumes "norm_tup from" and "norm_tup to" and "pi_acks r" and "pi_acks s"
    and "\<not> enable_msg_ids (pi_conf r)" and "n < 2 ^ 64" and "n \<notin> fst ` set (pi_seq r)" and "n \<in> fst ` set (pi_seq s)"
  shows "\<exists>r' outs s'. handle_data rx mh (ack_frame n data) from r = Ok (r', SendAck (be_enc 8 n @ [1]) from # outs) \<and>
           pi_subs r' = (if data = [] then pi_subs r
                         else map (\<lambda>(k, e). (k, add_entry_of rx (from, data) e)) (pi_subs r)) \<and>
           (data = [] \<longrightarrow> outs = []) \<and>
           handle_data rx mh (be_enc 8 n @ [1]) to s = Ok (s', []) \<and>
           map_of (pi_seq s') n = Some True \<and> pi_subs s' = pi_subs s"
proof -
  obtain calls where c: "add_msg rx data from (pi_subs r) =
      Ok (map (\<lambda>(k, e). (k, add_entry_of rx (from, data) e)) (pi_subs r), calls)"
    using add_msg_norm [OF assms(1)] by blast
  have 1: "\<exists>r' outs. handle_data rx mh (ack_frame n data) from r = Ok (r', SendAck (be_enc 8 n @ [1]) from # outs) \<and>
      pi_subs r' = (if data = [] then pi_subs r else map (\<lambda>(k, e). (k, add_entry_of rx (from, data) e)) (pi_subs r)) \<and>
      (data = [] \<longrightarrow> outs = [])"
    using assms receive_frame [OF assms(6,7), of data] c
    by (simp add: handle_data_def norm_tup_def deliver_def route_msg_def)
  have 2: "handle_data rx mh (be_enc 8 n @ [1]) to s = Ok (s\<lparr>pi_seq := set_event n (pi_seq s)\<rparr>, [])"
    using assms receive_ack [OF assms(6), of "[]" "pi_seq s"] by (simp add: handle_data_def norm_tup_def)
  from 1 2 set_event_set [OF assms(8)] show ?thesis by auto
qed

definition demo_pipe :: "seq_table \<Rightarrow> (nat, nat) pipe" where
  "demo_pipe seq = \<lparr>pi_subs = [(1, \<lparr>se_sub = SUB_ALL, se_q = \<lparr>q_items = [], q_max = 0\<rparr>, se_handler = None\<rparr>)],
     pi_seq = seq, pi_acks = True, pi_conf = NET_CONF, pi_msg_ids = [], pi_pipes = [], pi_msg_cbs = [],
     pi_up_cbs = [], pi_end_cbs = [], pi_running = True\<rparr>"

theorem rudp_pipes_witness:
  "\<exists>r' outs s'. handle_data (\<lambda>_ _. True) (\<lambda>_. 0) (ack_frame 5 [7]) (''127.0.0.1'', 80) (demo_pipe []) =
        Ok (r', SendAck (be_enc 8 5 @ [1]) (''127.0.0.1'', 80) # outs) \<and>
     pi_subs r' = [(1, \<lparr>se_sub = SUB_ALL, se_q = \<lparr>q_items = [((''127.0.0.1'', 80), [7])], q_max = 0\<rparr>, se_handler = None\<rparr>)] \<and>
     handle_data (\<lambda>_ _. True) (\<lambda>_. 0) (be_enc 8 5 @ [1]) (''127.0.0.1'', 90) (demo_pipe [(5, False)]) = Ok (s', []) \<and>
     map_of (pi_seq s') 5 = Some True \<and> pi_subs s' = pi_subs (demo_pipe [(5, False)])"
  using rudp_pipes [OF norm_local norm_local, of "demo_pipe []" "demo_pipe [(5, False)]" 5 "\<lambda>_ _. True" "\<lambda>_. 0" "[7]" 80 90]
  by (simp add: demo_pipe_def NET_CONF_def add_entry_of_def add_entry_def sub_matches_def addr_matches_def
      pat_matches_def SUB_ALL_def do_add_def q_full_def)

section \<open>Handing out accepted clients\<close>

definition accepts_of :: "'c list \<Rightarrow> nat \<Rightarrow> 'c accepts \<Rightarrow> bool" where
  "accepts_of cs g t = (ac_insert t = length cs \<and> ac_get t = g \<and> dict_ok (ac_futures t) \<and>
     (\<forall>i. map_of (ac_futures t) i =
        (if i < length cs then Some (Some (cs ! i)) else if i = length cs then Some None else None)))"

lemma accepts_new: "accepts_of [] 0 new_accepts"
  by (auto simp: accepts_of_def new_accepts_def dict_ok_def)

lemma accepts_add:
  assumes "accepts_of cs g t" and "Suc (length cs) < py_maxsize"
  shows "accepts_of (cs @ [c]) g (snd (add_tcp_client c t)) \<and> fst (add_tcp_client c t) = length cs"
  using assms by (auto simp: accepts_of_def add_tcp_client_def Let_def nth_append)

lemma accepts_await:
  assumes "accepts_of cs g t" and "g < length cs"
  shows "\<exists>t'. make_awaitable t = Ok (g, Some (cs ! g), t') \<and> accepts_of cs (Suc g) t'"
  using assms by (auto simp: accepts_of_def make_awaitable_def Let_def dict_get_def)

lemma accepts_pending:
  assumes "accepts_of cs (length cs) t"
  shows "make_awaitable t = Ok (length cs, None, t)"
  using assms by (auto simp: accepts_of_def make_awaitable_def Let_def dict_get_def)

fun await_all :: "nat \<Rightarrow> 'c accepts \<Rightarrow> ('c option list \<times> 'c accepts) res" where
  "await_all 0 t = Ok ([], t)"
| "await_all (Suc n) t = rbind (make_awaitable t) (\<lambda>(_, c, t). rbind (await_all n t) (\<lambda>(cs, t). Ok (c # cs, t)))"

lemma await_all_in_order:
  "accepts_of cs g t \<Longrightarrow> g + n \<le> length cs \<Longrightarrow>
   \<exists>t'. await_all n t = Ok (map Some (take n (drop g cs)), t') \<and> accepts_of cs (g + n) t'"
proof (induction n arbitrary: g t)
  case (Suc n)
  obtain t1 where t1: "make_awaitable t = Ok (g, Some (cs ! g), t1)" "accepts_of cs (Suc g) t1"
    using accepts_await [OF Suc.prems(1)] Suc.prems(2) by auto
  obtain t2 where "await_all n t1 = Ok (map Some (take n (drop (Suc g) cs)), t2)" "accepts_of cs (Suc g + n) t2"
    using Suc.IH [OF t1(2)] Suc.prems(2) by auto
  moreover have "drop g cs = cs ! g # drop (Suc g) cs" using Suc.prems(2) by (simp add: Cons_nth_drop_Suc)
  ultimately show ?case using t1(1) by simp
qed simp

text \<open>A TCP server hands out clients that connected before they are awaited in order of arrival,
  each once. When the caller waits first, the pointer stays: the client that then arrives ends the
  wait and is handed out a second time by the next await. A lost connection deletes its slot, and an
  await that comes to this slot raises KeyError instead of skipping it.\<close>

theorem accept_order:
  assumes "accepts_of cs (length cs) t" and "Suc (length cs) < py_maxsize"
  shows "(\<forall>t0. accepts_of cs 0 t0 \<longrightarrow> (\<exists>t'. await_all (length cs) t0 = Ok (map Some cs, t'))) \<and>
         make_awaitable t = Ok (length cs, None, t) \<and>
         rmap (\<lambda>(i, c, _). (i, c)) (make_awaitable (snd (add_tcp_client c t))) = Ok (length cs, Some c) \<and>
         (\<exists>t'. tcp_connection_lost (length cs) (snd (add_tcp_client c t)) = Ok t' \<and> make_awaitable t' = Err KeyError)"
proof (intro conjI allI impI)
  fix t0 :: "'a accepts"
  assume "accepts_of cs 0 t0"
  then show "\<exists>t'. await_all (length cs) t0 = Ok (map Some cs, t')"
    using await_all_in_order [of cs 0 t0 "length cs"] by auto
next
  show "make_awaitable t = Ok (length cs, None, t)" using assms(1) by (rule accepts_pending)
next
  let ?t1 = "snd (add_tcp_client c t)"
  have t1: "accepts_of (cs @ [c]) (length cs) ?t1" using accepts_add [OF assms] by blast
  from accepts_await [OF t1] show "rmap (\<lambda>(i, c, _). (i, c)) (make_awaitable ?t1) = Ok (length cs, Some c)" by auto
  let ?t2 = "?t1\<lparr>ac_futures := dict_del (length cs) (ac_futures ?t1)\<rparr>"
  have "tcp_connection_lost (length cs) ?t1 = Ok ?t2"
    using t1 by (simp add: tcp_connection_lost_def accepts_of_def dict_get_def nth_append)
  moreover have "make_awaitable ?t2 = Err KeyError"
    using t1 by (simp add: make_awaitable_def accepts_of_def dict_get_def map_of_dict_del)
  ultimately show "\<exists>t'. tcp_connection_lost (length cs) ?t1 = Ok t' \<and> make_awaitable t' = Err KeyError" by blast
qed

theorem accept_order_witness:
  "make_awaitable (new_accepts :: nat accepts) = Ok (0, None, new_accepts) \<and>
   rmap (\<lambda>(i, c, _). (i, c)) (make_awaitable (snd (add_tcp_client 7 new_accepts))) = Ok (0, Some (7 :: nat)) \<and>
   (\<exists>t'. tcp_connection_lost 0 (snd (add_tcp_client (7 :: nat) new_accepts)) = Ok t' \<and> make_awaitable t' = Err KeyError)"
  using accept_order [of "[]" "new_accepts :: nat accepts" 7] accepts_new by (simp add: py_maxsize_def)

end
