(* ===== verification/Turn_Process.thy ===== *)
theory Turn_Process
  imports Stun_Msg Pipe
begin

text \<open>
  \<^verbatim>\<open>traversal/turn/turn_defs.py\<close> and \<^verbatim>\<open>turn_process.py\<close>: server descriptions, the protocol states, the
  client's state, and the handling of one received TURN message from its bytes to the changes of the
  client's state. Loops that need not end are \<open>partial_function (option)\<close>: None is a hung event loop.
\<close>

section \<open>Definitions\<close>

definition TURN_REFRESH_EXPIRY :: nat where "TURN_REFRESH_EXPIRY = 600"
definition TURN_PROTOCOL_UDP :: bytes where "TURN_PROTOCOL_UDP = [0x11, 0, 0, 0]"

datatype turn_state =
    TURN_NOT_STARTED | TURN_TRY_ALLOCATE | TURN_ALLOCATE_FAILED | TURN_TRY_REQ_TRANSPORT
  | TURN_REQ_TRANSPORT_FAILED | TURN_TRY_REFRESH | TURN_REFRESH_DONE | TURN_REFRESH_FAIL | TURN_ERROR_STOPPED

text \<open>A server description; \<open>turn_vars_to_server\<close> makes one without address families.\<close>

record turn_server =
  ts_host :: string
  ts_port :: int
  ts_user :: string
  ts_pass :: string
  ts_realm :: string
  ts_afs :: "af list option"

definition turn_vars_to_server :: "string \<Rightarrow> int \<Rightarrow> string \<Rightarrow> string \<Rightarrow> string \<Rightarrow> turn_server" where
  "turn_vars_to_server h p u w r =
     \<lparr>ts_host = h, ts_port = p, ts_user = u, ts_pass = w, ts_realm = r, ts_afs = None\<rparr>"

definition same_server :: "turn_server \<Rightarrow> turn_server \<Rightarrow> bool" where
  "same_server a b = (ts_host a = ts_host b \<and> ts_port a = ts_port b \<and> ts_user a = ts_user b \<and>
     ts_pass a = ts_pass b \<and> ts_realm a = ts_realm b)"

fun find_turn_server :: "turn_server \<Rightarrow> turn_server list \<Rightarrow> af option \<Rightarrow> bool res" where
  "find_turn_server s [] af = Ok False"
| "find_turn_server s (needle # rest) af =
     (if \<not> same_server needle s then find_turn_server s rest af
      else (case af of
              None \<Rightarrow> Ok True
            | Some f \<Rightarrow> (case ts_afs needle of
                          None \<Rightarrow> Err KeyError
                        | Some afs \<Rightarrow> if f \<in> set afs then Ok True else find_turn_server s rest af)))"

section \<open>The client's state\<close>

datatype 'a fut = Pending | Done 'a

definition set_result :: "'a \<Rightarrow> 'a fut \<Rightarrow> 'a fut res" where
  "set_result x f = (case f of Pending \<Rightarrow> Ok (Done x) | Done _ \<Rightarrow> Err InvalidStateError)"

datatype turn_status = STATUS_SUCCESS | STATUS_RETRY

datatype turn_task = SignedAllocate | AllocationRefresher | PermissionRefresher tup | AckSend bytes tup

text \<open>
  The fields of \<open>TURNClient\<close>; its pipe is the one it shadows. A future for an address holds None
  after the clean-up has set it to \<open>(0, 0)\<close>.
\<close>

record ('h, 'p) turn_client =
  tc_state :: turn_state
  tc_dest :: tup
  tc_user :: bytes
  tc_pw :: bytes
  tc_realm :: "bytes option"
  tc_key :: "bytes option"
  tc_nonce :: "bytes option"
  tc_requires_auth :: bool
  tc_lifetime :: nat
  tc_mapped :: "(ipa \<times> int) option"
  tc_relay :: "(ipa \<times> int) option"
  tc_peers :: "(tup \<times> tup) list"
  tc_msgs :: "(bytes \<times> (turn_status fut \<times> stun_msg)) list"
  tc_tasks :: "turn_task list"
  tc_blank :: bool
  tc_auth_event :: bool
  tc_relay_event :: bool
  tc_client_fut :: "(ipa \<times> int) option fut"
  tc_relay_fut :: "(ipa \<times> int) option fut"
  tc_stopped :: bool
  tc_pipe :: "('h, 'p) pipe"

section \<open>Parsing\<close>

definition turn_parse_msg :: "bytes \<Rightarrow> bytes \<Rightarrow> (stun_msg \<times> bytes \<times> bytes) option" where
  "turn_parse_msg rnd buf =
     res_opt (rbind (stun_unpack rnd RFC5389 buf) (\<lambda>(m, _).
       Ok (m, b_and (sm_type m) [0, 0x0F], b_and (sm_type m) [1, 0x10])))"

text \<open>The data attribute and the sender; the cursor is reset at the end.\<close>

partial_function (option) turn_data_loop ::
  "af \<Rightarrow> stun_msg \<Rightarrow> bytes option \<Rightarrow> (ipa \<times> int) option \<Rightarrow> ((bytes option \<times> (ipa \<times> int) option) res \<times> stun_msg) option" where
  "turn_data_loop af m data peer =
     (if stun_eof m then Some (Ok (data, peer), m\<lparr>sm_cursor := 0\<rparr>)
      else (let (r, m1) = read_attr m
            in case r of
                 Inl e \<Rightarrow> Some (Err e, m1)
               | Inr (code, _, d) \<Rightarrow>
                   (let data = (if code = Some DataAttr then d else data)
                    in if code = Some XorPeerAddress
                       then (case attr_tup af (sm_txn_id m) (sm_cookie m) d XorPeerAddress of
                               Inl e \<Rightarrow> Some (Err e, m1)
                             | Inr t \<Rightarrow> turn_data_loop af m1 data (Some t))
                       else turn_data_loop af m1 data peer)))"

definition turn_get_data_attr :: "af \<Rightarrow> stun_msg \<Rightarrow> ((bytes option \<times> (ipa \<times> int) option) res \<times> stun_msg) option" where
  "turn_get_data_attr af m = turn_data_loop af m None None"

section \<open>Attributes\<close>

definition is_auth_ready :: "('h, 'p) turn_client \<Rightarrow> bool" where
  "is_auth_ready c = (tc_key c \<noteq> None \<and> tc_realm c \<noteq> None \<and> tc_nonce c \<noteq> None)"

text \<open>The three digit code of an error attribute, and its text.\<close>

definition error_attr :: "bytes option \<Rightarrow> (nat \<times> bytes) res" where
  "error_attr d =
     (let bs = (case d of None \<Rightarrow> [] | Some b \<Rightarrow> b); h = take 4 bs
      in if length h < 4 then Err IndexError
         else Ok (unat (h ! 2 AND 7) * 100 + unat (h ! 3), drop 4 bs))"

definition proc_relay :: "af \<Rightarrow> bytes option \<Rightarrow> stun_msg \<Rightarrow> ('h, 'p) turn_client \<Rightarrow> unit res \<times> ('h, 'p) turn_client" where
  "proc_relay af d m c =
     (if tc_relay c \<noteq> None then (Ok (), c)
      else (case attr_tup af (sm_txn_id m) (sm_cookie m) d XorRelayedAddress of
              Inl e \<Rightarrow> (Err e, c)
            | Inr t \<Rightarrow>
                (let c = c\<lparr>tc_relay := Some t\<rparr>
                 in case set_result (Some t) (tc_relay_fut c) of
                      Inl e \<Rightarrow> (Err e, c)
                    | Inr f \<Rightarrow> (Ok (), c\<lparr>tc_relay_fut := f, tc_relay_event := True\<rparr>))))"

text \<open>
  The state changes a handler makes before it raises stay. The password hash is a parameter.
\<close>

definition turn_proc_attrs ::
  "(bytes \<Rightarrow> bytes) \<Rightarrow> af \<Rightarrow> bytes option \<Rightarrow> bytes option \<Rightarrow> stun_msg \<Rightarrow> ('h, 'p) turn_client \<Rightarrow>
   (nat \<times> bytes) res \<times> ('h, 'p) turn_client" where
  "turn_proc_attrs md5 af code d m c =
     (let (r, c) = (if code = Some XorRelayedAddress then proc_relay af d m c else (Ok (), c))
      in case r of
           Inl e \<Rightarrow> (Err e, c)
         | Inr _ \<Rightarrow>
             if code = Some Realm
             then (let c = c\<lparr>tc_realm := d\<rparr>
                   in case d of
                        None \<Rightarrow> (Err TypeError, c)
                      | Some realm \<Rightarrow>
                          (Ok (0, []), c\<lparr>tc_key := Some (md5 (tc_user c @ [58] @ realm @ [58] @ tc_pw c))\<rparr>))
             else if code = Some Nonce then (Ok (0, []), c\<lparr>tc_nonce := d\<rparr>)
             else if code = Some Lifetime
             then (case d of
                     None \<Rightarrow> (Err TypeError, c)
                   | Some b \<Rightarrow> (case unpack_be 4 b of
                                  Inl e \<Rightarrow> (Err e, c)
                                | Inr n \<Rightarrow> (Ok (0, []), c\<lparr>tc_lifetime := nat n\<rparr>)))
             else if code = Some ErrorCode then (error_attr d, c)
             else (Ok (0, []), c))"

definition stun_proc_attrs_opt :: "af \<Rightarrow> bytes option \<Rightarrow> bytes option \<Rightarrow> stun_msg \<Rightarrow> stun_msg res" where
  "stun_proc_attrs_opt af code d m = (case code of None \<Rightarrow> Ok m | Some k \<Rightarrow> stun_proc_attrs af k d m)"

text \<open>The first mapped address a reply tells is kept and completes the future for it.\<close>

definition note_mapped :: "stun_msg \<Rightarrow> ('h, 'p) turn_client \<Rightarrow> unit res \<times> ('h, 'p) turn_client" where
  "note_mapped m c =
     (if sm_rtup m = None \<or> tc_mapped c \<noteq> None then (Ok (), c)
      else (let c = c\<lparr>tc_mapped := sm_rtup m\<rparr>
            in case set_result (sm_rtup m) (tc_client_fut c) of
                 Inl e \<Rightarrow> (Err e, c)
               | Inr f \<Rightarrow> (Ok (), c\<lparr>tc_client_fut := f\<rparr>)))"

definition proc_one_attr ::
  "(bytes \<Rightarrow> bytes) \<Rightarrow> af \<Rightarrow> attr_read \<Rightarrow> stun_msg \<Rightarrow> ('h, 'p) turn_client \<Rightarrow> stun_msg res \<times> ('h, 'p) turn_client" where
  "proc_one_attr md5 af a m c =
     (let (code, _, d) = a; (r, c) = turn_proc_attrs md5 af code d m c
      in case r of
           Inl e \<Rightarrow> (Err e, c)
         | Inr _ \<Rightarrow>
             (case stun_proc_attrs_opt af code d m of
                Inl e \<Rightarrow> (Err e, c)
              | Inr m \<Rightarrow> (let (r, c) = note_mapped m c in (rmap (\<lambda>_. m) r, c))))"

partial_function (option) turn_attr_loop ::
  "(bytes \<Rightarrow> bytes) \<Rightarrow> af \<Rightarrow> stun_msg \<Rightarrow> ('h, 'p) turn_client \<Rightarrow> (unit res \<times> ('h, 'p) turn_client) option" where
  "turn_attr_loop md5 af m c =
     (if stun_eof m then Some (Ok (), c)
      else (let (a, m1) = read_attr m
            in case a of
                 Inl e \<Rightarrow> Some (Err e, c)
               | Inr a \<Rightarrow>
                   (let (r, c) = proc_one_attr md5 af a m1 c
                    in case r of Inl e \<Rightarrow> Some (Err e, c) | Inr m2 \<Rightarrow> turn_attr_loop md5 af m2 c)))"

text \<open>\<open>process_attributes\<close> returns the error code it started with: the result of \<open>turn_proc_attrs\<close> is dropped.\<close>

definition process_attributes ::
  "(bytes \<Rightarrow> bytes) \<Rightarrow> af \<Rightarrow> stun_msg \<Rightarrow> ('h, 'p) turn_client \<Rightarrow> ((nat \<times> bytes) res \<times> ('h, 'p) turn_client) option" where
  "process_attributes md5 af m c =
     (case turn_attr_loop md5 af m c of
        None \<Rightarrow> None
      | Some (Inl e, c) \<Rightarrow> Some (Err e, c)
      | Some (Inr _, c) \<Rightarrow> Some (Ok (0, []), if is_auth_ready c then c\<lparr>tc_auth_event := True\<rparr> else c))"

section \<open>Replies\<close>

definition msg_status :: "turn_status \<Rightarrow> bytes \<Rightarrow> ('h, 'p) turn_client \<Rightarrow> ('h, 'p) turn_client res" where
  "msg_status s txid c =
     rbind (dict_get txid (tc_msgs c)) (\<lambda>(f, m).
     rbind (set_result s f) (\<lambda>f. Ok (c\<lparr>tc_msgs := dict_set txid (f, m) (tc_msgs c)\<rparr>)))"

datatype ('h, 'p) turn_out = RelayAck bytes tup | PipeOut "('h, 'p) pipe_out"

text \<open>
  One pass of the loop of \<open>process_replies\<close> over received bytes: None when it never ends, otherwise
  whether the loop goes on or dies of an exception, the client and what it sent and delivered.
\<close>

type_synonym ('h, 'p) turn_pass = "(unit res \<times> ('h, 'p) turn_client \<times> ('h, 'p) turn_out list) option"

definition turn_set_state :: "turn_state \<Rightarrow> ('h, 'p) turn_client \<Rightarrow> ('h, 'p) turn_client" where
  "turn_set_state s c = c\<lparr>tc_state := s\<rparr>"

definition turn_method_reply :: "bytes \<Rightarrow> bytes \<Rightarrow> bytes \<Rightarrow> ('h, 'p) turn_client \<Rightarrow> ('h, 'p) turn_client res" where
  "turn_method_reply txid mtd status c =
     (if mtd = Allocate
      then rbind (msg_status STATUS_SUCCESS txid c) (\<lambda>c.
             Ok (let c = (if status = SuccessResp \<and> tc_state c \<noteq> TURN_TRY_ALLOCATE then c\<lparr>tc_auth_event := True\<rparr> else c)
                 in if status = ErrorResp \<and> tc_state c \<noteq> TURN_TRY_ALLOCATE
                    then (turn_set_state TURN_TRY_ALLOCATE c)\<lparr>tc_tasks := tc_tasks c @ [SignedAllocate]\<rparr>
                    else c))
      else if mtd = CreatePermission
      then (if status = SuccessResp then msg_status STATUS_SUCCESS txid c else Ok c)
      else if mtd = Refresh then msg_status STATUS_SUCCESS txid c
      else Ok c)"

definition turn_reply ::
  "(bytes \<Rightarrow> bytes) \<Rightarrow> af \<Rightarrow> stun_msg \<Rightarrow> bytes \<Rightarrow> bytes \<Rightarrow> ('h, 'p) turn_client \<Rightarrow> (unit res \<times> ('h, 'p) turn_client) option" where
  "turn_reply md5 af m mtd status c =
     (let txid = sm_txn_id m
      in if txid \<notin> fst ` set (tc_msgs c) then Some (Ok (), c)
         else (case process_attributes md5 af m c of
                 None \<Rightarrow> None
               | Some (Inl e, c) \<Rightarrow> Some (Ok (), c)
               | Some (Inr (error_code, _), c) \<Rightarrow>
                   (case (if status = ErrorResp \<and> error_code = 438 then msg_status STATUS_RETRY txid c
                          else turn_method_reply txid mtd status c) of
                      Inl e \<Rightarrow> Some (Err e, c)
                    | Inr c \<Rightarrow> Some (Ok (), c))))"

text \<open>Data relayed from a peer: only from accepted peers, acknowledged to their relay address.\<close>

definition turn_peer_data ::
  "regex \<Rightarrow> msg_hash \<Rightarrow> bytes \<Rightarrow> ipa \<times> int \<Rightarrow> ('h, 'p) turn_client \<Rightarrow> unit res \<times> ('h, 'p) turn_client \<times> ('h, 'p) turn_out list" where
  "turn_peer_data rx mh data peer c =
     (case client_tup_norm (Some (ip_str (fst peer), snd peer)) of
        Inl e \<Rightarrow> (Err e, c, [])
      | Inr t \<Rightarrow>
          (let peer_tup = the t
           in case map_of (tc_peers c) peer_tup of
                None \<Rightarrow> (Ok (), c, [])
              | Some relay \<Rightarrow>
                  (let (r, seq) = rudp_handle data (pi_seq (tc_pipe c));
                       c = c\<lparr>tc_pipe := (tc_pipe c)\<lparr>pi_seq := seq\<rparr>\<rparr>;
                       acks = (case ar_send r of None \<Rightarrow> [] | Some a \<Rightarrow> [RelayAck a relay]);
                       payload = (case ar_payload r of Some p \<Rightarrow> Some p | None \<Rightarrow> if tc_blank c then Some data else None)
                   in case payload of
                        None \<Rightarrow> (Ok (), c, acks)
                      | Some p \<Rightarrow>
                          (case handle_data rx mh p peer_tup (tc_pipe c) of
                             Inl e \<Rightarrow> (Err e, c, acks)
                           | Inr (pipe, outs) \<Rightarrow> (Ok (), c\<lparr>tc_pipe := pipe\<rparr>, acks @ map PipeOut outs)))))"

definition turn_process ::
  "(bytes \<Rightarrow> bytes) \<Rightarrow> regex \<Rightarrow> msg_hash \<Rightarrow> bytes \<Rightarrow> af \<Rightarrow> bytes \<Rightarrow> ('h, 'p) turn_client \<Rightarrow> ('h, 'p) turn_pass" where
  "turn_process md5 rx mh rnd af out c =
     (case turn_parse_msg rnd out of
        None \<Rightarrow> Some (Ok (), c, [])
      | Some (m, mtd, status) \<Rightarrow>
          (case turn_get_data_attr af m of
             None \<Rightarrow> None
           | Some (Inl e, _) \<Rightarrow> Some (Err e, c, [])
           | Some (Inr (Some data, Some peer), _) \<Rightarrow> Some (turn_peer_data rx mh data peer c)
           | Some (Inr _, m) \<Rightarrow> map_option (\<lambda>(r, c). (r, c, [])) (turn_reply md5 af m mtd status c)))"

text \<open>
  The loop over the messages of the pipe (None: a timeout). It ends when the state is stopped, and
  sets the stopped event; an exception ends the task without setting it.
\<close>

fun process_replies ::
  "(bytes \<Rightarrow> bytes) \<Rightarrow> regex \<Rightarrow> msg_hash \<Rightarrow> bytes \<Rightarrow> af \<Rightarrow> bytes option list \<Rightarrow> ('h, 'p) turn_client \<Rightarrow> ('h, 'p) turn_pass" where
  "process_replies md5 rx mh rnd af [] c =
     Some (Ok (), if tc_state c = TURN_ERROR_STOPPED then c\<lparr>tc_stopped := True\<rparr> else c, [])"
| "process_replies md5 rx mh rnd af (out # rest) c =
     (if tc_state c = TURN_ERROR_STOPPED then Some (Ok (), c\<lparr>tc_stopped := True\<rparr>, [])
      else (case out of
              None \<Rightarrow> process_replies md5 rx mh rnd af rest c
            | Some buf \<Rightarrow>
                (case turn_process md5 rx mh rnd af buf c of
                   None \<Rightarrow> None
                 | Some (Inl e, c, outs) \<Rightarrow> Some (Err e, c, outs)
                 | Some (Inr _, c, outs) \<Rightarrow>
                     map_option (\<lambda>(r, c, outs'). (r, c, outs @ outs')) (process_replies md5 rx mh rnd af rest c))))"

section \<open>What the attributes of a reply may change\<close>

text \<open>
  The parts of the client that processing attributes leaves alone, and the agreement of the learned
  addresses with their futures.
\<close>

definition same_session :: "('h, 'p) turn_client \<Rightarrow> ('h, 'p) turn_client \<Rightarrow> bool" where
  "same_session c c' = (tc_state c' = tc_state c \<and> tc_msgs c' = tc_msgs c \<and> tc_peers c' = tc_peers c \<and>
     tc_tasks c' = tc_tasks c \<and> tc_pipe c' = tc_pipe c \<and> tc_stopped c' = tc_stopped c \<and>
     (tc_relay c \<noteq> None \<longrightarrow> tc_relay c' = tc_relay c) \<and> (tc_mapped c \<noteq> None \<longrightarrow> tc_mapped c' = tc_mapped c))"

definition fut_of :: "'a option \<Rightarrow> 'a option fut \<Rightarrow> bool" where
  "fut_of x f = (case f of Pending \<Rightarrow> x = None | Done None \<Rightarrow> True | Done (Some y) \<Rightarrow> x = Some y)"

definition addr_inv :: "('h, 'p) turn_client \<Rightarrow> bool" where
  "addr_inv c = (fut_of (tc_relay c) (tc_relay_fut c) \<and> fut_of (tc_mapped c) (tc_client_fut c))"

lemma same_session_refl [simp]: "same_session c c"
  by (simp add: same_session_def)

lemma same_session_trans: "same_session a b \<Longrightarrow> same_session b c \<Longrightarrow> same_session a c"
  by (auto simp: same_session_def)

lemma proc_relay_session:
  "proc_relay af d m c = (r, c') \<Longrightarrow> same_session c c' \<and> (addr_inv c \<longrightarrow> addr_inv c')"
  by (auto simp: proc_relay_def same_session_def addr_inv_def fut_of_def set_result_def Let_def
      split: if_splits sum.splits fut.splits option.splits)

text \<open>The attributes other than the relay address, one by one.\<close>

lemma turn_proc_attrs_other:
  assumes "code \<noteq> Some XorRelayedAddress" and "turn_proc_attrs md5 af code d m c = (r, c')"
  shows "\<exists>realm key nonce life. c' = c\<lparr>tc_realm := realm, tc_key := key, tc_nonce := nonce, tc_lifetime := life\<rparr>"
proof -
  let ?Q = "\<lambda>c'. \<exists>realm key nonce life. c' = c\<lparr>tc_realm := realm, tc_key := key, tc_nonce := nonce, tc_lifetime := life\<rparr>"
  consider (realm) "code = Some Realm" | (nonce) "code = Some Nonce" | (life) "code = Some Lifetime"
    | (other) "code \<noteq> Some Realm" "code \<noteq> Some Nonce" "code \<noteq> Some Lifetime" by blast
  then show ?thesis
  proof cases
    case realm
    have "c\<lparr>tc_realm := x, tc_key := y\<rparr> = c\<lparr>tc_realm := x, tc_key := y, tc_nonce := tc_nonce c, tc_lifetime := tc_lifetime c\<rparr>"
      "c\<lparr>tc_realm := x\<rparr> = c\<lparr>tc_realm := x, tc_key := tc_key c, tc_nonce := tc_nonce c, tc_lifetime := tc_lifetime c\<rparr>" for x y
      by simp_all
    then have "?Q (c\<lparr>tc_realm := x, tc_key := y\<rparr>)" "?Q (c\<lparr>tc_realm := x\<rparr>)" for x y by blast+
    then show ?thesis using realm assms by (cases d) (auto simp: turn_proc_attrs_def stun_codes Let_def)
  next
    case nonce
    have "c\<lparr>tc_nonce := x\<rparr> = c\<lparr>tc_realm := tc_realm c, tc_key := tc_key c, tc_nonce := x, tc_lifetime := tc_lifetime c\<rparr>" for x
      by simp
    then have "?Q (c\<lparr>tc_nonce := x\<rparr>)" for x by blast
    then show ?thesis using nonce assms by (auto simp: turn_proc_attrs_def stun_codes)
  next
    case life
    have "c\<lparr>tc_lifetime := x\<rparr> = c\<lparr>tc_realm := tc_realm c, tc_key := tc_key c, tc_nonce := tc_nonce c, tc_lifetime := x\<rparr>"
      "c = c\<lparr>tc_realm := tc_realm c, tc_key := tc_key c, tc_nonce := tc_nonce c, tc_lifetime := tc_lifetime c\<rparr>" for x
      by simp_all
    then have "?Q (c\<lparr>tc_lifetime := x\<rparr>)" "?Q c" for x by blast+
    then show ?thesis using life assms
      by (auto simp: turn_proc_attrs_def stun_codes split: option.splits sum.splits)
  next
    case other
    have "c = c\<lparr>tc_realm := tc_realm c, tc_key := tc_key c, tc_nonce := tc_nonce c, tc_lifetime := tc_lifetime c\<rparr>" by simp
    moreover have "c' = c" using other assms by (auto simp: turn_proc_attrs_def split: if_splits)
    ultimately show ?thesis by blast
  qed
qed

lemma turn_proc_attrs_relay:
  "turn_proc_attrs md5 af (Some XorRelayedAddress) d m c =
     (let (r, c) = proc_relay af d m c in (rmap (\<lambda>_. (0, [])) r, c))"
  by (cases "proc_relay af d m c"; cases "fst (proc_relay af d m c)") (auto simp: turn_proc_attrs_def stun_codes)

lemma turn_proc_attrs_session:
  assumes "turn_proc_attrs md5 af code d m c = (r, c')"
  shows "same_session c c' \<and> (addr_inv c \<longrightarrow> addr_inv c')"
proof (cases "code = Some XorRelayedAddress")
  case True
  obtain r1 c1 where p: "proc_relay af d m c = (r1, c1)" by fastforce
  from proc_relay_session [OF p] assms p show ?thesis by (simp add: True turn_proc_attrs_relay)
next
  case False
  from turn_proc_attrs_other [OF False assms] show ?thesis by (auto simp: same_session_def addr_inv_def)
qed

lemma note_mapped_session:
  "note_mapped m c = (r, c') \<Longrightarrow> same_session c c' \<and> (addr_inv c \<longrightarrow> addr_inv c')"
  by (auto simp: note_mapped_def same_session_def addr_inv_def fut_of_def set_result_def Let_def
      split: if_splits sum.splits fut.splits option.splits)

lemma proc_one_attr_session:
  assumes "proc_one_attr md5 af a m c = (r, c')"
  shows "same_session c c' \<and> (addr_inv c \<longrightarrow> addr_inv c')"
proof -
  obtain code l d where a: "a = (code, l, d)" by (cases a)
  obtain r1 c1 where p: "turn_proc_attrs md5 af code d m c = (r1, c1)" by fastforce
  note s1 = turn_proc_attrs_session [OF p]
  show ?thesis
  proof (cases r1)
    case (Inl e)
    then show ?thesis using assms s1 p by (simp add: proc_one_attr_def a)
  next
    case (Inr x)
    show ?thesis
    proof (cases "stun_proc_attrs_opt af code d m")
      case (Inl e)
      then show ?thesis using assms s1 p Inr by (simp add: proc_one_attr_def a)
    next
      case (Inr m2)
      obtain r2 c2 where n: "note_mapped m2 c1 = (r2, c2)" by fastforce
      then have "c' = c2" using assms p Inr \<open>r1 = Inr x\<close> by (simp add: proc_one_attr_def a)
      then show ?thesis using s1 note_mapped_session [OF n] same_session_trans by blast
    qed
  qed
qed

lemma turn_attr_loop_session:
  assumes "turn_attr_loop md5 af m c = Some y"
  shows "same_session c (snd y) \<and> (addr_inv c \<longrightarrow> addr_inv (snd y))"
proof (rule turn_attr_loop.raw_induct
    [where P = "\<lambda>_ _ _ c y. same_session c (snd y) \<and> (addr_inv c \<longrightarrow> addr_inv (snd y))", OF _ assms], goal_cases)
  case (1 loop md5 af m c y)
  show ?case
  proof (cases "stun_eof m")
    case True
    then show ?thesis using 1(2) by auto
  next
    case False
    obtain a m1 where ra: "read_attr m = (a, m1)" by fastforce
    show ?thesis
    proof (cases a)
      case (Inl e)
      then show ?thesis using 1(2) False ra by auto
    next
      case (Inr b)
      obtain r1 c1 where p: "proc_one_attr md5 af b m1 c = (r1, c1)" by fastforce
      note s1 = proc_one_attr_session [OF p]
      show ?thesis
      proof (cases r1)
        case (Inl e)
        then show ?thesis using 1(2) False ra Inr p s1 by auto
      next
        case (Inr m2)
        then have "loop md5 af m2 c1 = Some y" using 1(2) False ra \<open>a = Inr b\<close> p by simp
        from 1(1) [OF this] s1 show ?thesis using same_session_trans by blast
      qed
    qed
  qed
qed

lemma process_attributes_session:
  assumes "process_attributes md5 af m c = Some (r, c')"
  shows "same_session c c' \<and> (addr_inv c \<longrightarrow> addr_inv c') \<and> (\<forall>e. r = Ok e \<longrightarrow> e = (0, []))"
proof -
  obtain r1 c1 where p: "turn_attr_loop md5 af m c = Some (r1, c1)"
    using assms by (auto simp: process_attributes_def split: option.splits)
  from turn_attr_loop_session [OF p] assms p show ?thesis
    by (cases r1) (auto simp: process_attributes_def same_session_def addr_inv_def split: if_splits)
qed

section \<open>Messages that hang the client\<close>

text \<open>
  The cursor is stuck where at most three bytes are left: there is no further attribute, but the
  message is not at its end either.
\<close>

definition stuck :: "stun_msg \<Rightarrow> bool" where
  "stuck m = (\<not> stun_eof m \<and> length (sm_msg m) \<le> sm_cursor m + 3)"

lemma read_attr_stuck: "length (sm_msg m) \<le> sm_cursor m + 3 \<Longrightarrow> read_attr m = (Ok (None, None, None), m)"
  by (auto simp: read_attr_def Let_def)

lemma turn_data_loop_not_stuck:
  assumes "turn_data_loop af m d p = Some y"
  shows "\<not> stuck m"
proof (rule turn_data_loop.raw_induct [where P = "\<lambda>_ m _ _ _. \<not> stuck m", OF _ assms], goal_cases)
  case (1 loop af m d p y)
  show ?case
  proof
    assume s: "stuck m"
    then have "loop af m d p = Some y"
      using 1(2) read_attr_stuck [of m] by (simp add: stuck_def)
    from 1(1) [OF this] s show False by simp
  qed
qed

lemma turn_data_loop_stuck: "stuck m \<Longrightarrow> turn_data_loop af m d p = None"
  using turn_data_loop_not_stuck by (cases "turn_data_loop af m d p") auto

lemma hang_datagram:
  assumes "length ty = 2" and "length cookie = 4" and "length txid = 12" and "n = 2 \<or> n = 3" and "length body = n"
  shows "\<exists>m. stun_unpack rnd RFC5389 (ty @ be_enc 2 n @ cookie @ txid @ body) = Ok (m, Some []) \<and> stuck m"
proof -
  let ?buf = "ty @ be_enc 2 n @ cookie @ txid @ body"
  have "be_dec (slice 2 4 ?buf) = n"
    using assms by (auto simp: slice_def be.dec_enc_id)
  moreover have "slice 20 (20 + n) ?buf = body" "drop (20 + n) ?buf = []" "length ?buf = 20 + n"
    using assms by (simp_all add: slice_def)
  ultimately show ?thesis
    using assms by (auto simp: stun_unpack_def stun_decode_def STUNMsg_def Let_def stuck_def stun_eof_def)
qed

text \<open>A client for the examples.\<close>

definition demo_client :: "(tup \<times> tup) list \<Rightarrow> (bytes \<times> (turn_status fut \<times> stun_msg)) list \<Rightarrow> (nat, nat) turn_client" where
  "demo_client peers msgs =
     \<lparr>tc_state = TURN_TRY_ALLOCATE, tc_dest = (''1.2.3.4'', 3478), tc_user = [], tc_pw = [], tc_realm = None, tc_key = None,
      tc_nonce = None, tc_requires_auth = True, tc_lifetime = 600, tc_mapped = None, tc_relay = None,
      tc_peers = peers, tc_msgs = msgs, tc_tasks = [], tc_blank = False, tc_auth_event = False,
      tc_relay_event = False, tc_client_fut = Pending, tc_relay_fut = Pending, tc_stopped = False,
      tc_pipe = (demo_pipe [])\<lparr>pi_acks := False\<rparr>\<rparr>"

text \<open>C39: A datagram of 22 or 23 bytes whose header announces a body of two or three bytes makes the
  reply loop, and with it the whole event loop, spin forever, in every state of the client and
  whoever sent it: it is parsed before its transaction id is looked at.\<close>

theorem turn_short_body_hangs:
  assumes "length ty = 2" and "length cookie = 4" and "length txid = 12" and "length body = 2 \<or> length body = 3"
  shows "turn_process md5 rx mh rnd af (ty @ be_enc 2 (length body) @ cookie @ txid @ body) c = None"
proof -
  obtain m where m: "stun_unpack rnd RFC5389 (ty @ be_enc 2 (length body) @ cookie @ txid @ body) = Ok (m, Some [])" "stuck m"
    using hang_datagram [OF assms(1-3) assms(4) refl] by blast
  then show ?thesis
    by (simp add: turn_process_def turn_parse_msg_def turn_get_data_attr_def turn_data_loop_stuck)
qed

theorem turn_short_body_hangs_witness:
  "turn_process (\<lambda>b. b) (\<lambda>_ _. True) (\<lambda>_. 0) [] IP4 ([0, 1] @ be_enc 2 (length [0 :: byte, 0]) @ STUN_MAGIC_COOKIE @ replicate 12 7 @ [0, 0])
     (demo_client [] []) = None"
  by (rule turn_short_body_hangs) (simp_all add: STUN_MAGIC_COOKIE_def)

section \<open>Relayed data\<close>

lemma turn_data_loop_at:
  "at_attrs m (a # attrs) \<Longrightarrow> fst a \<noteq> XorPeerAddress \<Longrightarrow>
   turn_data_loop af m d p = turn_data_loop af (m\<lparr>sm_cursor := sm_cursor m + length (attr_ser a)\<rparr>)
     (if fst a = DataAttr then Some (snd a) else d) p"
  using read_attr_at [of m a attrs] by (subst turn_data_loop.simps) (simp add: Let_def)

lemma turn_data_loop_peer:
  "at_attrs m ((XorPeerAddress, x) # attrs) \<Longrightarrow>
   stun_addr_unpack (STUNAddrTup [] 0 af (sm_txn_id m) (sm_cookie m)) XorPeerAddress x = Ok t \<Longrightarrow>
   turn_data_loop af m d p = turn_data_loop af (m\<lparr>sm_cursor := sm_cursor m + length (attr_ser (XorPeerAddress, x))\<rparr>) d (Some t)"
  using read_attr_at [of m "(XorPeerAddress, x)" attrs]
  by (subst turn_data_loop.simps) (simp add: Let_def attr_tup_def stun_codes)

lemma turn_data_loop_end: "at_attrs m [] \<Longrightarrow> turn_data_loop af m d p = Some (Ok (d, p), m\<lparr>sm_cursor := 0\<rparr>)"
  using at_attrs_eof by (subst turn_data_loop.simps) simp

text \<open>The data indication with which a relay passes on a peer's datagram.\<close>

definition data_indication :: "bytes \<Rightarrow> bytes \<Rightarrow> af \<Rightarrow> ipa \<Rightarrow> int \<Rightarrow> bytes \<Rightarrow> bytes" where
  "data_indication cookie txid af a port data =
     reply_buf [0, 0x17] cookie txid
       [(XorPeerAddress, map2 (XOR) (addr_plain af a port) (addr_mask cookie txid)), (DataAttr, data)]"

lemma turn_parse_indication:
  assumes "addr_fits af a port" and "length txid = 12" and "length cookie = 4" and "data \<noteq> []" and "length data < 65000"
  shows "\<exists>m m' mtd st. turn_parse_msg rnd (data_indication cookie txid af a port data) = Some (m, mtd, st) \<and>
     turn_get_data_attr af m = Some (Ok (Some data, Some (a, port)), m')"
proof -
  let ?x = "map2 (XOR) (addr_plain af a port) (addr_mask cookie txid)"
  let ?attrs = "[(XorPeerAddress, ?x), (DataAttr, data)]"
  have lx: "length ?x = (if af = IP4 then 8 else 20)" using assms by (simp add: length_addr_plain addr_mask_def)
  have ok: "list_all attr_ok ?attrs"
    using assms lx by (cases af) (auto simp: attr_ok_def stun_codes)
  have pad: "attr_pad n \<le> 3" for n by (simp add: attr_pad_def) presburger
  have "length (attrs_ser ?attrs) < 65536"
    using ok lx assms(5) pad [of "length ?x"] pad [of "length data"] by (simp add: length_attr_ser split: if_splits)
  from unpack_packed [OF ok _ this assms(2,3), of "[0, 0x17]" rnd RFC5389 "[]"]
  obtain m where m: "stun_unpack rnd RFC5389 (data_indication cookie txid af a port data) = Ok (m, Some [])"
      "at_attrs m ?attrs" "sm_txn_id m = txid" "sm_cookie m = cookie"
    by (auto simp: data_indication_def reply_buf_def)
  have u: "stun_addr_unpack (STUNAddrTup [] 0 af (sm_txn_id m) (sm_cookie m)) XorPeerAddress ?x = Ok (a, port)"
    unfolding m using assms by (intro unpack_masked) (simp_all add: xor_codes_def)
  let ?m1 = "m\<lparr>sm_cursor := sm_cursor m + length (attr_ser (XorPeerAddress, ?x))\<rparr>"
  let ?m2 = "?m1\<lparr>sm_cursor := sm_cursor ?m1 + length (attr_ser (DataAttr, data))\<rparr>"
  have a1: "at_attrs ?m1 [(DataAttr, data)]" using read_attr_at [OF m(2)] by simp
  have a2: "at_attrs ?m2 []" using read_attr_at [OF a1] by simp
  have "turn_get_data_attr af m = turn_data_loop af ?m1 None (Some (a, port))"
    unfolding turn_get_data_attr_def by (rule turn_data_loop_peer [OF m(2) u])
  also have "\<dots> = turn_data_loop af ?m2 (Some data) (Some (a, port))"
    using turn_data_loop_at [OF a1, of af None "Some (a, port)"] by (simp add: stun_codes)
  also have "\<dots> = Some (Ok (Some data, Some (a, port)), ?m2\<lparr>sm_cursor := 0\<rparr>)"
    by (rule turn_data_loop_end [OF a2])
  finally show ?thesis using m(1) by (auto simp: turn_parse_msg_def)
qed

lemma norm_tup_exploded: "ipa_ok a \<Longrightarrow> norm_tup (ip_exploded a, port)"
  by (simp add: norm_tup_def client_tup_norm_def ip_norm_exploded del: ip_exploded.simps)

lemma norm_text: "ipa_ok a \<Longrightarrow> client_tup_norm (Some (ip_str a, port)) = Ok (Some (ip_exploded a, port))"
  by (simp add: client_tup_norm_def ip_norm_str del: ip_str.simps ip_exploded.simps)

lemma turn_process_indication:
  assumes "addr_fits af a port" and "length txid = 12" and "length cookie = 4" and "data \<noteq> []" and "length data < 65000"
  shows "turn_process md5 rx mh rnd af (data_indication cookie txid af a port data) c =
           Some (turn_peer_data rx mh data (a, port) c)"
  using turn_parse_indication [OF assms, of rnd] by (auto simp: turn_process_def)

lemma peer_data_unknown:
  "ipa_ok a \<Longrightarrow> (ip_exploded a, port) \<notin> fst ` set (tc_peers c) \<Longrightarrow> turn_peer_data rx mh data (a, port) c = (Ok (), c, [])"
  by (simp add: turn_peer_data_def norm_text map_of_eq_None_iff [symmetric] del: ip_str.simps ip_exploded.simps)

lemma peer_data_frame:
  assumes "ipa_ok a" and "map_of (tc_peers c) (ip_exploded a, port) = Some relay"
    and "n < 2 ^ 64" and "n \<notin> fst ` set (pi_seq (tc_pipe c))" and "payload \<noteq> []"
    and "\<not> pi_acks (tc_pipe c)" and "\<not> enable_msg_ids (pi_conf (tc_pipe c))"
  shows "\<exists>c' outs. turn_peer_data rx mh (ack_frame n payload) (a, port) c =
           (Ok (), c', RelayAck (be_enc 8 n @ [1]) relay # map PipeOut outs) \<and>
         pi_subs (tc_pipe c') = map (\<lambda>(k, e). (k, add_entry_of rx ((ip_exploded a, port), payload) e)) (pi_subs (tc_pipe c))"
proof -
  let ?t = "(ip_exploded a, port)"
  obtain calls where "add_msg rx payload ?t (pi_subs (tc_pipe c)) =
      Ok (map (\<lambda>(k, e). (k, add_entry_of rx (?t, payload) e)) (pi_subs (tc_pipe c)), calls)"
    using add_msg_norm [OF norm_tup_exploded [OF assms(1)]] by blast
  then have "\<exists>outs. handle_data rx mh payload ?t p = Ok (p\<lparr>pi_subs :=
        map (\<lambda>(k, e). (k, add_entry_of rx (?t, payload) e)) (pi_subs (tc_pipe c))\<rparr>, outs)"
    if "pi_subs p = pi_subs (tc_pipe c)" "\<not> pi_acks p" "\<not> enable_msg_ids (pi_conf p)" for p :: "('a, 'b) pipe"
    using that assms(5) norm_tup_exploded [OF assms(1), of port]
    by (simp add: handle_data_def norm_tup_def deliver_def route_msg_def Let_def del: ip_exploded.simps)
  note h = this
  let ?p = "(tc_pipe c)\<lparr>pi_seq := if length (pi_seq (tc_pipe c)) > UDP_MAX_DICT_LEN then [] else pi_seq (tc_pipe c)\<rparr>"
  obtain outs where "handle_data rx mh payload ?t ?p =
      Ok (?p\<lparr>pi_subs := map (\<lambda>(k, e). (k, add_entry_of rx (?t, payload) e)) (pi_subs (tc_pipe c))\<rparr>, outs)"
    using h [of ?p] assms(6,7) by auto
  then show ?thesis
    using assms(2) receive_frame [OF assms(3,4), of payload]
    by (simp add: turn_peer_data_def norm_text [OF assms(1)] Let_def del: ip_str.simps ip_exploded.simps
        split del: if_split) blast
qed

text \<open>C19: A data indication from the relay is decoded from its bytes to the peer's address and data. Data of
  a peer that was not accepted changes nothing and causes no output; an acknowledged frame of an
  accepted peer is answered to that peer's relay address, and its payload reaches exactly the matching
  subscriptions under the peer's normalised address.\<close>

theorem turn_relays_accepted_peers:
  assumes "addr_fits af a port" and "length txid = 12" and "length cookie = 4"
    and "n < 2 ^ 64" and "payload \<noteq> []" and "length payload < 64000"
    and "n \<notin> fst ` set (pi_seq (tc_pipe c))" and "\<not> pi_acks (tc_pipe c)" and "\<not> enable_msg_ids (pi_conf (tc_pipe c))"
  shows "case map_of (tc_peers c) (ip_exploded a, port) of
     None \<Rightarrow> turn_process md5 rx mh rnd af (data_indication cookie txid af a port (ack_frame n payload)) c = Some (Ok (), c, [])
   | Some relay \<Rightarrow> (\<exists>c' outs.
       turn_process md5 rx mh rnd af (data_indication cookie txid af a port (ack_frame n payload)) c =
         Some (Ok (), c', RelayAck (be_enc 8 n @ [1]) relay # map PipeOut outs) \<and>
       pi_subs (tc_pipe c') = map (\<lambda>(k, e). (k, add_entry_of rx ((ip_exploded a, port), payload) e)) (pi_subs (tc_pipe c)))"
proof -
  have ok: "ipa_ok a" using assms(1) by (simp add: addr_fits_def)
  have "ack_frame n payload \<noteq> []" "length (ack_frame n payload) < 65000"
    using assms(6) by (simp_all add: ack_frame_def)
  from turn_process_indication [OF assms(1-3) this]
  have ind: "turn_process md5 rx mh rnd af (data_indication cookie txid af a port (ack_frame n payload)) c =
      Some (turn_peer_data rx mh (ack_frame n payload) (a, port) c)" .
  show ?thesis
  proof (cases "map_of (tc_peers c) (ip_exploded a, port)")
    case None
    then have "(ip_exploded a, port) \<notin> fst ` set (tc_peers c)" by (simp add: map_of_eq_None_iff del: ip_exploded.simps)
    then show ?thesis using None by (simp add: ind peer_data_unknown [OF ok] del: ip_exploded.simps)
  next
    case (Some relay)
    from peer_data_frame [OF ok Some assms(4,7,5,8,9)] Some show ?thesis
      by (fastforce simp: ind simp del: ip_exploded.simps)
  qed
qed

theorem turn_relays_accepted_peers_witness:
  "\<exists>c' outs.
     turn_process (\<lambda>b. b) (\<lambda>_ _. True) (\<lambda>_. 0) [] IP4
       (data_indication STUN_MAGIC_COOKIE (replicate 12 7) IP4 (IPv4Address 2130706433) 80 (ack_frame 5 [7]))
       (demo_client [((ip_exploded (IPv4Address 2130706433), 80), (''1.2.3.4'', 4000))] []) =
       Some (Ok (), c', RelayAck (be_enc 8 5 @ [1]) (''1.2.3.4'', 4000) # map PipeOut outs) \<and>
     pi_subs (tc_pipe c') = map (\<lambda>(k, e). (k, add_entry_of (\<lambda>_ _. True) ((ip_exploded (IPv4Address 2130706433), 80), [7]) e))
       (pi_subs (demo_pipe []))"
  using turn_relays_accepted_peers [of IP4 "IPv4Address 2130706433" 80 "replicate 12 7" STUN_MAGIC_COOKIE 5 "[7]"
      "demo_client [((ip_exploded (IPv4Address 2130706433), 80), (''1.2.3.4'', 4000))] []" "\<lambda>b. b" "\<lambda>_ _. True" "\<lambda>_. 0" "[]"]
  by (simp add: addr_fits_def STUN_MAGIC_COOKIE_def demo_client_def demo_pipe_def NET_CONF_def del: ip_exploded.simps)

section \<open>Replies to our own messages\<close>

lemma turn_data_loop_none:
  "at_attrs m attrs \<Longrightarrow> list_all (\<lambda>a. fst a \<noteq> XorPeerAddress) attrs \<Longrightarrow>
   \<exists>d' m'. turn_data_loop af m d p = Some (Ok (d', p), m') \<and> m' = m\<lparr>sm_cursor := 0\<rparr>"
proof (induction attrs arbitrary: m d)
  case Nil
  then show ?case using turn_data_loop_end by simp
next
  case (Cons a attrs)
  let ?m1 = "m\<lparr>sm_cursor := sm_cursor m + length (attr_ser a)\<rparr>"
  have at: "at_attrs ?m1 attrs" using read_attr_at [OF Cons.prems(1)] by simp
  have "turn_data_loop af m d p = turn_data_loop af ?m1 (if fst a = DataAttr then Some (snd a) else d) p"
    using Cons.prems by (intro turn_data_loop_at) auto
  with Cons.IH [OF at, of "if fst a = DataAttr then Some (snd a) else d"] Cons.prems(2) show ?case by auto
qed

text \<open>What \<open>turn_process\<close> does with a reply that carries no peer address.\<close>

lemma turn_process_reply:
  assumes "list_all attr_ok attrs" and "attrs \<noteq> []" and "length (attrs_ser attrs) < 65536"
    and "length txid = 12" and "length cookie = 4" and "length ty = 2"
    and "list_all (\<lambda>a. fst a \<noteq> XorPeerAddress) attrs"
  shows "\<exists>m. (\<forall>c :: ('h, 'p) turn_client. turn_process md5 rx mh rnd af (reply_buf ty cookie txid attrs) c =
       map_option (\<lambda>(r, c). (r, c, [])) (turn_reply md5 af m (b_and ty [0, 0x0F]) (b_and ty [1, 0x10]) c)) \<and>
     at_attrs m attrs \<and> sm_txn_id m = txid \<and> sm_cookie m = cookie \<and> sm_rtup m = None"
proof -
  obtain m where m: "stun_unpack rnd RFC5389 (reply_buf ty cookie txid attrs) = Ok (m, Some [])" "at_attrs m attrs"
      "sm_txn_id m = txid" "sm_cookie m = cookie" "sm_type m = ty" "sm_rtup m = None"
    using unpack_packed [OF assms(1-6), of rnd RFC5389 "[]"] by (auto simp: reply_buf_def)
  obtain d' where d: "turn_get_data_attr af m = Some (Ok (d', None), m\<lparr>sm_cursor := 0\<rparr>)"
    using turn_data_loop_none [OF m(2) assms(7), of af None None] by (auto simp: turn_get_data_attr_def)
  have c0: "sm_cursor m = 0" using m(1) by (auto simp: stun_unpack_def stun_decode_def Let_def rbind_eq_Ok split: if_splits)
  then have m0: "m\<lparr>sm_cursor := 0\<rparr> = m" by simp
  have p: "turn_parse_msg rnd (reply_buf ty cookie txid attrs) = Some (m, b_and ty [0, 0x0F], b_and ty [1, 0x10])"
    using m by (simp add: turn_parse_msg_def)
  have "turn_process md5 rx mh rnd af (reply_buf ty cookie txid attrs) c =
       map_option (\<lambda>(r, c). (r, c, [])) (turn_reply md5 af m (b_and ty [0, 0x0F]) (b_and ty [1, 0x10]) c)"
    for c :: "('h, 'p) turn_client"
    using p d m0 by (cases d') (simp_all add: turn_process_def)
  then show ?thesis using m by blast
qed

lemma turn_attr_loop_at:
  "at_attrs m (a # attrs) \<Longrightarrow>
   turn_attr_loop md5 af m c =
     (let (r, c) = proc_one_attr md5 af (Some (fst a), Some (length (snd a)), Some (snd a))
                     (m\<lparr>sm_cursor := sm_cursor m + length (attr_ser a)\<rparr>) c
      in case r of Inl e \<Rightarrow> Some (Err e, c) | Inr m2 \<Rightarrow> turn_attr_loop md5 af m2 c)"
  using read_attr_at [of m a attrs] by (subst turn_attr_loop.simps) simp

lemma turn_attr_loop_end: "at_attrs m [] \<Longrightarrow> turn_attr_loop md5 af m c = Some (Ok (), c)"
  using at_attrs_eof by (subst turn_attr_loop.simps) simp

lemma stun_proc_attrs_other:
  "code \<notin> {XorMappedAddressX, XorMappedAddress, MappedAddress, ChangedAddress} \<Longrightarrow> stun_proc_attrs af code d m = Ok m"
  by (simp add: stun_proc_attrs_def)

lemma proc_one_attr_other:
  assumes "code \<notin> {XorMappedAddressX, XorMappedAddress, MappedAddress, ChangedAddress}" and "sm_rtup m = None"
    and "turn_proc_attrs md5 af (Some code) (Some d) m c = (Ok e, c')"
  shows "proc_one_attr md5 af (Some code, l, Some d) m c = (Ok m, c')"
  using assms by (simp add: proc_one_attr_def stun_proc_attrs_opt_def stun_proc_attrs_other note_mapped_def)

definition attr_next :: "bytes \<times> bytes \<Rightarrow> stun_msg \<Rightarrow> stun_msg" where
  "attr_next a m = m\<lparr>sm_cursor := sm_cursor m + length (attr_ser a)\<rparr>"

lemma turn_attr_loop_other:
  assumes "at_attrs m (a # attrs)" and "sm_rtup m = None"
    and "fst a \<notin> {XorMappedAddressX, XorMappedAddress, MappedAddress, ChangedAddress}"
    and "turn_proc_attrs md5 af (Some (fst a)) (Some (snd a)) (attr_next a m) c = (Ok e, c')"
  shows "turn_attr_loop md5 af m c = turn_attr_loop md5 af (attr_next a m) c' \<and> at_attrs (attr_next a m) attrs \<and>
    sm_rtup (attr_next a m) = None"
proof -
  have "proc_one_attr md5 af (Some (fst a), Some (length (snd a)), Some (snd a)) (attr_next a m) c = (Ok (attr_next a m), c')"
    by (rule proc_one_attr_other [OF assms(3) _ assms(4)]) (simp add: attr_next_def assms(2))
  then show ?thesis
    using read_attr_at [OF assms(1)] assms(2) by (simp add: turn_attr_loop_at [OF assms(1)] attr_next_def)
qed

text \<open>The attributes of the server's challenge to an unauthenticated request.\<close>

definition challenge :: "bytes \<Rightarrow> bytes \<Rightarrow> bytes \<Rightarrow> bytes \<Rightarrow> bytes \<Rightarrow> bytes" where
  "challenge cookie txid err realm nonce =
     reply_buf [1, 0x13] cookie txid [(ErrorCode, err), (Realm, realm), (Nonce, nonce)]"

definition challenged :: "(bytes \<Rightarrow> bytes) \<Rightarrow> bytes \<Rightarrow> bytes \<Rightarrow> ('h, 'p) turn_client \<Rightarrow> ('h, 'p) turn_client" where
  "challenged md5 realm nonce c = c\<lparr>tc_realm := Some realm,
     tc_key := Some (md5 (tc_user c @ [58] @ realm @ [58] @ tc_pw c)), tc_nonce := Some nonce, tc_auth_event := True\<rparr>"

lemma challenge_attributes:
  assumes "at_attrs m [(ErrorCode, err), (Realm, realm), (Nonce, nonce)]" and "sm_rtup m = None" and "4 \<le> length err"
  shows "process_attributes md5 af m c = Some (Ok (0, []), challenged md5 realm nonce c)"
proof -
  let ?m1 = "attr_next (ErrorCode, err) m" and ?m2 = "attr_next (Realm, realm) (attr_next (ErrorCode, err) m)"
  let ?c2 = "c\<lparr>tc_realm := Some realm, tc_key := Some (md5 (tc_user c @ [58] @ realm @ [58] @ tc_pw c))\<rparr>"
  have "\<exists>e. turn_proc_attrs md5 af (Some ErrorCode) (Some err) ?m1 c = (Ok e, c)"
    using assms(3) by (simp add: turn_proc_attrs_def stun_codes error_attr_def Let_def)
  then obtain e where e: "turn_proc_attrs md5 af (Some ErrorCode) (Some err) ?m1 c = (Ok e, c)" by blast
  have s1: "turn_attr_loop md5 af m c = turn_attr_loop md5 af ?m1 c" "at_attrs ?m1 [(Realm, realm), (Nonce, nonce)]" "sm_rtup ?m1 = None"
    using turn_attr_loop_other [OF assms(1,2), of md5 af c e c] e by (simp_all add: stun_codes)
  have s2: "turn_attr_loop md5 af ?m1 c = turn_attr_loop md5 af ?m2 ?c2" "at_attrs ?m2 [(Nonce, nonce)]" "sm_rtup ?m2 = None"
    using turn_attr_loop_other [OF s1(2,3), of md5 af c "(0, [])" ?c2] by (simp_all add: turn_proc_attrs_def stun_codes Let_def)
  let ?m3 = "attr_next (Nonce, nonce) ?m2" and ?c3 = "?c2\<lparr>tc_nonce := Some nonce\<rparr>"
  have s3: "turn_attr_loop md5 af ?m2 ?c2 = turn_attr_loop md5 af ?m3 ?c3" "at_attrs ?m3 []"
    using turn_attr_loop_other [OF s2(2,3), of md5 af ?c2 "(0, [])" ?c3] by (simp_all add: turn_proc_attrs_def stun_codes Let_def)
  show ?thesis
    using s1(1) s2(1) s3(1) by (simp add: process_attributes_def is_auth_ready_def challenged_def turn_attr_loop_end [OF s3(2)])
qed

lemma challenge_read:
  assumes "length txid = 12" and "length cookie = 4" and "4 \<le> length err" and "realm \<noteq> []" and "nonce \<noteq> []"
    and "length err < 1000" and "length realm < 1000" and "length nonce < 1000"
  shows "\<exists>m. sm_txn_id m = txid \<and> (\<forall>c :: ('h, 'p) turn_client.
    process_attributes md5 af m c = Some (Ok (0, []), challenged md5 realm nonce c) \<and>
    turn_process md5 rx mh rnd af (challenge cookie txid err realm nonce) c =
      map_option (\<lambda>(r, c). (r, c, [])) (turn_reply md5 af m Allocate ErrorResp c))"
proof -
  let ?attrs = "[(ErrorCode, err), (Realm, realm), (Nonce, nonce)]"
  have ok: "list_all attr_ok ?attrs" using assms by (auto simp: attr_ok_def stun_codes)
  have pad: "attr_pad n \<le> 3" for n by (simp add: attr_pad_def) presburger
  have "length (attrs_ser ?attrs) < 65536"
    using ok assms(6-8) pad [of "length err"] pad [of "length realm"] pad [of "length nonce"] by (simp add: length_attr_ser)
  then obtain m where m: "at_attrs m ?attrs" "sm_txn_id m = txid" "sm_rtup m = None" and
    p: "\<forall>c :: ('h, 'p) turn_client. turn_process md5 rx mh rnd af (challenge cookie txid err realm nonce) c =
       map_option (\<lambda>(r, c). (r, c, [])) (turn_reply md5 af m (b_and [1, 0x13] [0, 0x0F]) (b_and [1, 0x13] [1, 0x10]) c)"
    using turn_process_reply [OF ok _ _ assms(1,2), of "[1, 0x13]" md5 rx mh rnd af]
    by (auto simp: challenge_def stun_codes)
  have b: "b_and [1, 0x13] [0, 0x0F] = Allocate" "b_and [1, 0x13] [1, 0x10] = ErrorResp"
    by (simp_all add: b_and_def stun_codes)
  show ?thesis using p challenge_attributes [OF m(1,3) assms(3)] m(2) by (simp add: b) blast
qed

text \<open>Any state but the one it leads to lets a challenge start a signed allocation, a stopped client's included.\<close>

lemma challenge_taken:
  fixes c :: "('h, 'p) turn_client"
  assumes "length txid = 12" and "length cookie = 4" and "4 \<le> length err" and "realm \<noteq> []" and "nonce \<noteq> []"
    and "length err < 1000" and "length realm < 1000" and "length nonce < 1000"
    and "tc_state c \<noteq> TURN_TRY_ALLOCATE" and "map_of (tc_msgs c) txid = Some (Pending, request)"
  shows "turn_process md5 rx mh rnd af (challenge cookie txid err realm nonce) c =
    Some (Ok (), (challenged md5 realm nonce c)\<lparr>tc_msgs := dict_set txid (Done STATUS_SUCCESS, request) (tc_msgs c),
            tc_state := TURN_TRY_ALLOCATE, tc_tasks := tc_tasks c @ [SignedAllocate]\<rparr>, [])"
proof -
  obtain m where m: "sm_txn_id m = txid" "process_attributes md5 af m c = Some (Ok (0, []), challenged md5 realm nonce c)"
    "turn_process md5 rx mh rnd af (challenge cookie txid err realm nonce) c =
      map_option (\<lambda>(r, c). (r, c, [])) (turn_reply md5 af m Allocate ErrorResp c)"
    using challenge_read [OF assms(1-8), of md5 af rx mh rnd] by blast
  have "txid \<in> fst ` set (tc_msgs c)" using assms(10) by (metis domI dom_map_of_conv_image_fst)
  then show ?thesis
    using assms(9,10) m
    by (simp add: turn_reply_def turn_method_reply_def msg_status_def dict_get_def set_result_def turn_set_state_def
        challenged_def stun_codes Let_def)
qed

text \<open>C18: The server's challenge to an outstanding first allocation gives the client its realm, key and nonce,
  wakes the start, completes the request and starts exactly one signed allocation; it does so for
  every error code, 438 (stale nonce) included, whose retransmission branch is never taken. The same
  datagram a second time raises InvalidStateError out of the reply loop, which then ends without
  setting the stopped event.\<close>

theorem turn_challenge:
  fixes c :: "('h, 'p) turn_client"
  assumes "length txid = 12" and "length cookie = 4" and "4 \<le> length err" and "realm \<noteq> []" and "nonce \<noteq> []"
    and "length err < 1000" and "length realm < 1000" and "length nonce < 1000"
    and "tc_state c = TURN_NOT_STARTED" and "map_of (tc_msgs c) txid = Some (Pending, request)"
    and "c' = (challenged md5 realm nonce c)\<lparr>tc_msgs := dict_set txid (Done STATUS_SUCCESS, request) (tc_msgs c),
                tc_state := TURN_TRY_ALLOCATE, tc_tasks := tc_tasks c @ [SignedAllocate]\<rparr>"
  shows "turn_process md5 rx mh rnd af (challenge cookie txid err realm nonce) c = Some (Ok (), c', []) \<and>
         turn_process md5 rx mh rnd af (challenge cookie txid err realm nonce) c' = Some (Err InvalidStateError, challenged md5 realm nonce c', []) \<and>
         (\<forall>rest. process_replies md5 rx mh rnd af (Some (challenge cookie txid err realm nonce) # rest) c' =
            Some (Err InvalidStateError, challenged md5 realm nonce c', []))"
proof -
  have st: "tc_state c \<noteq> TURN_TRY_ALLOCATE" using assms(9) by simp
  obtain m where m: "sm_txn_id m = txid" "process_attributes md5 af m c' = Some (Ok (0, []), challenged md5 realm nonce c')"
    "turn_process md5 rx mh rnd af (challenge cookie txid err realm nonce) c' =
      map_option (\<lambda>(r, c). (r, c, [])) (turn_reply md5 af m Allocate ErrorResp c')"
    using challenge_read [OF assms(1-8), of md5 af rx mh rnd] by blast
  have d: "map_of (tc_msgs c') txid = Some (Done STATUS_SUCCESS, request)" by (simp add: assms(11))
  then have "txid \<in> fst ` set (tc_msgs c')" by (metis domI dom_map_of_conv_image_fst)
  then have "turn_reply md5 af m Allocate ErrorResp c' = Some (Err InvalidStateError, challenged md5 realm nonce c')"
    using d m(1,2)
    by (simp add: turn_reply_def turn_method_reply_def msg_status_def dict_get_def set_result_def challenged_def
        stun_codes Let_def)
  moreover have "tc_state c' \<noteq> TURN_ERROR_STOPPED" by (simp add: assms(11))
  ultimately show ?thesis using challenge_taken [OF assms(1-8) st assms(10)] m(3) by (simp add: assms(11))
qed

definition demo_request :: stun_msg where
  "demo_request = STUNMsg (replicate 12 7) Allocate Request RFC5389"

theorem turn_challenge_witness:
  "turn_process (\<lambda>b. b) (\<lambda>_ _. True) (\<lambda>_. 0) [] IP4 (challenge STUN_MAGIC_COOKIE (replicate 12 7) [0, 0, 4, 38] [65] [66])
     ((demo_client [] [(replicate 12 7, (Pending, demo_request))])\<lparr>tc_state := TURN_NOT_STARTED\<rparr>) =
   Some (Ok (), (challenged (\<lambda>b. b) [65] [66] (demo_client [] []))\<lparr>tc_msgs := [(replicate 12 7, (Done STATUS_SUCCESS, demo_request))],
       tc_state := TURN_TRY_ALLOCATE, tc_tasks := [SignedAllocate]\<rparr>, [])"
  using turn_challenge [of "replicate 12 7" STUN_MAGIC_COOKIE "[0, 0, 4, 38]" "[65]" "[66]"
      "(demo_client [] [(replicate 12 7, (Pending, demo_request))])\<lparr>tc_state := TURN_NOT_STARTED\<rparr>" demo_request _ "\<lambda>b. b"
      "\<lambda>_ _. True" "\<lambda>_. 0" "[]" IP4]
  by (simp add: STUN_MAGIC_COOKIE_def demo_client_def challenged_def del: replicate_numeral)

end
