(* ===== verification/Turn_Client.thy ===== *)
theory Turn_Client
  imports Turn_Process Async_Tasks
begin

text \<open>
  \<^verbatim>\<open>traversal/turn/turn_client.py\<close>: the operations of the client (building, signing and recording
  messages, accepting peers, sending, closing), and the reachable states of a session, in which the
  user's calls and the received datagrams interleave in any order. Transaction ids, which the source
  draws at random, are arguments.
\<close>

section \<open>Construction and lookups\<close>

definition new_turn_client :: "tup \<Rightarrow> bytes \<Rightarrow> bytes \<Rightarrow> bytes option \<Rightarrow> ('h, 'p) pipe \<Rightarrow> ('h, 'p) turn_client" where
  "new_turn_client dest user pw realm pipe =
     \<lparr>tc_state = TURN_NOT_STARTED, tc_dest = dest, tc_user = user, tc_pw = pw, tc_realm = realm,
      tc_key = None, tc_nonce = None, tc_requires_auth = True, tc_lifetime = TURN_REFRESH_EXPIRY,
      tc_mapped = None, tc_relay = None, tc_peers = [], tc_msgs = [], tc_tasks = [], tc_blank = False,
      tc_auth_event = False, tc_relay_event = False, tc_client_fut = Pending, tc_relay_fut = Pending,
      tc_stopped = False, tc_pipe = pipe\<rparr>"

definition get_relay_tup :: "tup \<Rightarrow> ('h, 'p) turn_client \<Rightarrow> tup option" where
  "get_relay_tup peer_tup c = map_of (tc_peers c) peer_tup"

definition get_first_peer_tup :: "('h, 'p) turn_client \<Rightarrow> tup option" where
  "get_first_peer_tup c = (case tc_peers c of [] \<Rightarrow> None | (_, relay) # _ \<Rightarrow> Some relay)"

definition toggle_blank_rudp_headers :: "bool \<Rightarrow> ('h, 'p) turn_client \<Rightarrow> ('h, 'p) turn_client" where
  "toggle_blank_rudp_headers v c = c\<lparr>tc_blank := v\<rparr>"

definition get_turn_server :: "string \<Rightarrow> string \<Rightarrow> string \<Rightarrow> af \<Rightarrow> ('h, 'p) turn_client \<Rightarrow> turn_server" where
  "get_turn_server user pw realm af c =
     \<lparr>ts_host = fst (tc_dest c), ts_port = snd (tc_dest c), ts_user = user, ts_pass = pw, ts_realm = realm,
      ts_afs = Some [af]\<rparr>"

section \<open>Messages\<close>

definition allocate_msg :: "bytes \<Rightarrow> stun_msg res" where
  "allocate_msg txid = write_attr RequestedTransport TURN_PROTOCOL_UDP (STUNMsg txid Allocate Request RFC5389)"

definition white_list_msg :: "bytes \<Rightarrow> tup \<Rightarrow> stun_msg res" where
  "white_list_msg txid src_tup =
     (let reply = STUNMsg txid CreatePermission Request RFC5389
      in rbind (af_from_ip_s (fst src_tup)) (\<lambda>af.
           write_attr_addr XorPeerAddress (STUNAddrTup (fst src_tup) (snd src_tup) af (sm_txn_id reply) (sm_cookie reply)) reply))"

definition refresh_msg :: "bytes \<Rightarrow> stun_msg res" where
  "refresh_msg txid =
     rbind (pack_be 4 (int TURN_REFRESH_EXPIRY)) (\<lambda>b. write_attr Lifetime b (STUNMsg txid Refresh Request RFC5389))"

text \<open>
  \<open>send_turn_msg\<close>: the message is packed and unpacked into a fresh object, signed when there is a key,
  and packed again. Signing before a nonce or realm is known raises.
\<close>

definition turn_sign :: "(bytes \<Rightarrow> bytes \<Rightarrow> bytes) \<Rightarrow> bytes \<Rightarrow> ('h, 'p) turn_client \<Rightarrow> stun_msg \<Rightarrow> stun_msg res" where
  "turn_sign hmac key c m =
     (case (tc_realm c, tc_nonce c) of
        (Some realm, Some nonce) \<Rightarrow> rbind (write_credential (tc_user c) realm nonce m) (write_hmac hmac key)
      | _ \<Rightarrow> Err TypeError)"

definition send_turn_msg ::
  "(bytes \<Rightarrow> bytes \<Rightarrow> bytes) \<Rightarrow> bytes \<Rightarrow> stun_msg \<Rightarrow> bool \<Rightarrow> ('h, 'p) turn_client \<Rightarrow> bytes res" where
  "send_turn_msg hmac rnd msg do_sign c =
     rbind (stun_pack msg) (\<lambda>b.
     rbind (stun_unpack rnd RFC5389 b) (\<lambda>(buf, _).
     rbind (case tc_key c of
              Some key \<Rightarrow> if tc_requires_auth c \<and> do_sign \<and> key \<noteq> [] then turn_sign hmac key c buf else Ok buf
            | None \<Rightarrow> Ok buf) stun_pack))"

text \<open>\<open>record_msg\<close>, and the closure that replaces the future so that it can be set again.\<close>

definition record_msg :: "stun_msg \<Rightarrow> ('h, 'p) turn_client \<Rightarrow> ('h, 'p) turn_client" where
  "record_msg msg c = c\<lparr>tc_msgs := dict_set (sm_txn_id msg) (Pending, msg) (tc_msgs c)\<rparr>"

definition new_future :: "bytes \<Rightarrow> ('h, 'p) turn_client \<Rightarrow> ('h, 'p) turn_client res" where
  "new_future txid c =
     rbind (dict_get txid (tc_msgs c)) (\<lambda>(_, m). Ok (c\<lparr>tc_msgs := dict_set txid (Pending, m) (tc_msgs c)\<rparr>))"

definition allocate_relay ::
  "(bytes \<Rightarrow> bytes \<Rightarrow> bytes) \<Rightarrow> bytes \<Rightarrow> bytes \<Rightarrow> bool \<Rightarrow> ('h, 'p) turn_client \<Rightarrow> bytes res \<times> ('h, 'p) turn_client" where
  "allocate_relay hmac rnd txid do_sign c =
     (case allocate_msg txid of
        Inl e \<Rightarrow> (Err e, c)
      | Inr msg \<Rightarrow> (let c = record_msg msg c in (send_turn_msg hmac rnd msg do_sign c, c)))"

definition refresh_allocation :: "bytes \<Rightarrow> ('h, 'p) turn_client \<Rightarrow> ('h, 'p) turn_client res" where
  "refresh_allocation txid c = rbind (refresh_msg txid) (\<lambda>msg. Ok (record_msg msg c))"

section \<open>Peers\<close>

text \<open>
  \<open>accept_peer\<close>: a new peer is subscribed to, entered and white listed by the handler that
  \<open>async_retry\<close> runs (\<open>answered\<close> tells whether a reply came in time); an already accepted one is left
  alone, its old relay address included. The stream of a pipe has the default configuration.
\<close>

definition accept_handler :: "bytes \<Rightarrow> tup \<Rightarrow> tup \<Rightarrow> ('h, 'p) turn_client \<Rightarrow> ('h, 'p) turn_client res" where
  "accept_handler txid peer_tup peer_relay_tup c =
     rbind (white_list_msg txid peer_tup) (\<lambda>msg.
       Ok (record_msg msg (c\<lparr>tc_peers := dict_set peer_tup peer_relay_tup (tc_peers c)\<rparr>)))"

definition accept_peer ::
  "hashes \<Rightarrow> bytes \<Rightarrow> bool \<Rightarrow> tup \<Rightarrow> tup \<Rightarrow> ('h, 'p) turn_client \<Rightarrow> bool res \<times> ('h, 'p) turn_client" where
  "accept_peer hash txid answered peer_tup peer_relay_tup c =
     (case client_tup_norm (Some peer_tup) of
        Inl e \<Rightarrow> (Err e, c)
      | Inr t \<Rightarrow>
          (let peer_tup = the t
           in if peer_tup \<in> fst ` set (tc_peers c) then (Ok True, c)
              else (case rbind (tup_to_sub peer_tup) (\<lambda>sub. subscribe hash (max_qsize NET_CONF) sub None (pi_subs (tc_pipe c))) of
                      Inl e \<Rightarrow> (Err e, c)
                    | Inr (_, subs) \<Rightarrow>
                        (let c = c\<lparr>tc_pipe := (tc_pipe c)\<lparr>pi_subs := subs\<rparr>\<rparr>
                         in case accept_handler txid peer_tup peer_relay_tup c of
                              Inl _ \<Rightarrow> (Err TypeError, c)
                            | Inr c \<Rightarrow>
                                if answered then (Ok False, c\<lparr>tc_tasks := tc_tasks c @ [PermissionRefresher peer_tup]\<rparr>)
                                else (Err TimeoutError, c)))))"

section \<open>Sending and receiving\<close>

definition tup_text :: "ipa \<times> int \<Rightarrow> tup" where
  "tup_text t = (ip_str (fst t), snd t)"

text \<open>\<open>send\<close> resolves the destination and starts \<open>ack_send\<close> to it.\<close>

definition turn_send_dest :: "tup option \<Rightarrow> ('h, 'p) turn_client \<Rightarrow> tup res" where
  "turn_send_dest dest_tup c =
     (let dest = (case dest_tup of None \<Rightarrow> get_first_peer_tup c | Some t \<Rightarrow> Some t)
      in if (case tc_relay_fut c of Pending \<Rightarrow> False | Done None \<Rightarrow> False
             | Done (Some r) \<Rightarrow> dest = Some (tup_text r))
         then Err (PyException ''Coturn doesn't support self-send.'')
         else (case dest of
                 None \<Rightarrow> Err AssertionError
               | Some t \<Rightarrow> Ok (case map_of (tc_peers c) t of Some relay \<Rightarrow> relay | None \<Rightarrow> t)))"

definition turn_send :: "bytes \<Rightarrow> tup option \<Rightarrow> ('h, 'p) turn_client \<Rightarrow> ('h, 'p) turn_client res" where
  "turn_send data dest_tup c =
     rbind (turn_send_dest dest_tup c) (\<lambda>t. Ok (c\<lparr>tc_tasks := tc_tasks c @ [AckSend data t]\<rparr>))"

text \<open>\<open>recv\<close> reads from the first accepted peer when no subscription is named.\<close>

definition turn_recv :: "hashes \<Rightarrow> sub option \<Rightarrow> ('h, 'p) turn_client \<Rightarrow> (msg option \<times> ('h, 'p) turn_client) res" where
  "turn_recv hash sub c =
     (case (case sub of Some s \<Rightarrow> if s = SUB_ALL then None else Some s | None \<Rightarrow> None) of
        Some s \<Rightarrow> rmap (\<lambda>(m, subs). (m, c\<lparr>tc_pipe := (tc_pipe c)\<lparr>pi_subs := subs\<rparr>\<rparr>)) (recv hash s (pi_subs (tc_pipe c)))
      | None \<Rightarrow>
          (case tc_peers c of
             [] \<Rightarrow> Err AssertionError
           | (peer, _) # _ \<Rightarrow>
               rmap (\<lambda>(m, subs). (m, c\<lparr>tc_pipe := (tc_pipe c)\<lparr>pi_subs := subs\<rparr>\<rparr>))
                 (recv hash (Some [], Some peer) (pi_subs (tc_pipe c)))))"

section \<open>Closing\<close>

definition finish_fut :: "'a option fut \<Rightarrow> 'a option fut" where
  "finish_fut f = (case f of Pending \<Rightarrow> Done None | Done x \<Rightarrow> Done x)"

definition do_cleanup :: "('h, 'p) turn_client \<Rightarrow> ('h, 'p) turn_client" where
  "do_cleanup c = c\<lparr>tc_state := TURN_ERROR_STOPPED, tc_client_fut := finish_fut (tc_client_fut c),
     tc_relay_fut := finish_fut (tc_relay_fut c), tc_auth_event := True, tc_relay_event := True\<rparr>"

text \<open>\<open>close\<close> up to its wait for the stopped event; \<open>reconnect\<close> calls the constructor with keywords it does not have.\<close>

definition turn_close :: "('h, 'p) turn_client \<Rightarrow> ('h, 'p) turn_client" where
  "turn_close c = (if tc_stopped c then c else do_cleanup c)"

definition turn_reconnect :: "('h, 'p) turn_client \<Rightarrow> unit res \<times> ('h, 'p) turn_client" where
  "turn_reconnect c = (Err TypeError, turn_close c)"

section \<open>Sessions\<close>

text \<open>
  What the user and the tasks do to a client. The reply loop runs beside it: it looks at the state, then waits for a
  datagram, then handles it, and what the user does in between does not stop it. An exception ends the loop; a datagram
  on which it hangs gives no further step.
\<close>

record turn_env =
  te_md5 :: "bytes \<Rightarrow> bytes"
  te_rx :: regex
  te_mh :: msg_hash
  te_hash :: hashes
  te_af :: af

datatype reply_loop = Checking | Awaiting | Ended

record ('h, 'p) turn_session =
  se_loop :: reply_loop
  se_closes :: nat
  se_client :: "('h, 'p) turn_client"

inductive turn_op :: "turn_env \<Rightarrow> ('h, 'p) turn_client \<Rightarrow> ('h, 'p) turn_client \<Rightarrow> bool" for env where
  allocate: "snd (allocate_relay hmac rnd txid do_sign c) = c' \<Longrightarrow> turn_op env c c'"
| refresh: "refresh_allocation txid c = Ok c' \<Longrightarrow> turn_op env c c'"
| renew: "new_future txid c = Ok c' \<Longrightarrow> turn_op env c c'"
| accept: "snd (accept_peer (te_hash env) txid answered peer relay c) = c' \<Longrightarrow> turn_op env c c'"
| accept_again: "accept_handler txid peer relay c = Ok c' \<Longrightarrow> peer \<in> fst ` set (tc_peers c) \<Longrightarrow> turn_op env c c'"
| send: "turn_send data dest c = Ok c' \<Longrightarrow> turn_op env c c'"
| receive: "turn_recv (te_hash env) sub c = Ok (m, c') \<Longrightarrow> turn_op env c c'"
| blank: "turn_op env c (toggle_blank_rudp_headers v c)"

inductive turn_step :: "turn_env \<Rightarrow> ('h, 'p) turn_session \<Rightarrow> ('h, 'p) turn_session \<Rightarrow> bool" for env where
  user: "turn_op env (se_client s) c' \<Longrightarrow> turn_step env s (s\<lparr>se_client := c'\<rparr>)"
| close: "turn_step env s (s\<lparr>se_closes := Suc (se_closes s), se_client := turn_close (se_client s)\<rparr>)"
| await: "se_loop s = Checking \<Longrightarrow> tc_state (se_client s) \<noteq> TURN_ERROR_STOPPED \<Longrightarrow> turn_step env s (s\<lparr>se_loop := Awaiting\<rparr>)"
| quiet: "se_loop s = Awaiting \<Longrightarrow> turn_step env s (s\<lparr>se_loop := Checking\<rparr>)"
| reply: "se_loop s = Awaiting \<Longrightarrow>
          turn_process (te_md5 env) (te_rx env) (te_mh env) rnd (te_af env) out (se_client s) = Some (r, c', outs) \<Longrightarrow>
          turn_step env s (s\<lparr>se_loop := (if is_ok r then Checking else Ended), se_client := c'\<rparr>)"
| stop: "se_loop s = Checking \<Longrightarrow> tc_state (se_client s) = TURN_ERROR_STOPPED \<Longrightarrow>
         turn_step env s (s\<lparr>se_loop := Ended, se_client := (se_client s)\<lparr>tc_stopped := True\<rparr>\<rparr>)"

inductive turn_reachable :: "turn_env \<Rightarrow> ('h, 'p) turn_session \<Rightarrow> bool" for env where
  init: "turn_reachable env \<lparr>se_loop = Checking, se_closes = 0, se_client = new_turn_client dest user pw realm pipe\<rparr>"
| step: "turn_reachable env s \<Longrightarrow> turn_step env s s' \<Longrightarrow> turn_reachable env s'"

section \<open>The invariant of a session\<close>

text \<open>
  A signed allocation needs a state other than the one it leads to, and only closing leads out of that: one more can be
  started than the client was closed.
\<close>

definition state_inv :: "nat \<Rightarrow> ('h, 'p) turn_client \<Rightarrow> bool" where
  "state_inv n c = (tc_state c \<in> {TURN_NOT_STARTED, TURN_TRY_ALLOCATE, TURN_ERROR_STOPPED} \<and>
     count_list (tc_tasks c) SignedAllocate \<le> (if tc_state c = TURN_TRY_ALLOCATE then Suc n else n))"

definition msgs_inv :: "('h, 'p) turn_client \<Rightarrow> bool" where
  "msgs_inv c = (dict_ok (tc_msgs c) \<and> (\<forall>k f m. map_of (tc_msgs c) k = Some (f, m) \<longrightarrow> f \<noteq> Done STATUS_RETRY))"

definition turn_inv :: "nat \<Rightarrow> ('h, 'p) turn_client \<Rightarrow> bool" where
  "turn_inv n c = (state_inv n c \<and> msgs_inv c \<and> addr_inv c \<and> dict_ok (tc_peers c))"

text \<open>What every operation keeps: the invariant, and a relay or mapped address once it is known.\<close>

definition keeps :: "('h, 'p) turn_client \<Rightarrow> ('h, 'p) turn_client \<Rightarrow> bool" where
  "keeps c c' = ((\<forall>n. turn_inv n c \<longrightarrow> turn_inv n c') \<and> (tc_relay c \<noteq> None \<longrightarrow> tc_relay c' = tc_relay c) \<and>
     (tc_mapped c \<noteq> None \<longrightarrow> tc_mapped c' = tc_mapped c))"

named_theorems keeps_intros "operations that keep the session invariant"

lemma keeps_refl [keeps_intros]: "keeps c c"
  by (simp add: keeps_def)

lemma keeps_trans: "keeps a b \<Longrightarrow> keeps b c \<Longrightarrow> keeps a c"
  by (auto simp: keeps_def)

lemma keeps_same_session: "same_session c c' \<and> (addr_inv c \<longrightarrow> addr_inv c') \<Longrightarrow> keeps c c'"
  by (simp add: keeps_def same_session_def turn_inv_def state_inv_def msgs_inv_def)

lemma keeps_pipe [keeps_intros]: "keeps c (c\<lparr>tc_pipe := p\<rparr>)"
  by (simp add: keeps_def turn_inv_def state_inv_def msgs_inv_def addr_inv_def)

lemma keeps_task [keeps_intros]: "t \<noteq> SignedAllocate \<Longrightarrow> keeps c (c\<lparr>tc_tasks := tc_tasks c @ [t]\<rparr>)"
  by (simp add: keeps_def turn_inv_def state_inv_def msgs_inv_def addr_inv_def)

lemma keeps_peer [keeps_intros]: "keeps c (c\<lparr>tc_peers := dict_set p r (tc_peers c)\<rparr>)"
  by (simp add: keeps_def turn_inv_def state_inv_def msgs_inv_def addr_inv_def)

lemma keeps_msg: "f \<noteq> Done STATUS_RETRY \<Longrightarrow> keeps c (c\<lparr>tc_msgs := dict_set k (f, m) (tc_msgs c)\<rparr>)"
  by (auto simp: keeps_def turn_inv_def state_inv_def msgs_inv_def addr_inv_def)

lemma keeps_auth [keeps_intros]: "keeps c (c\<lparr>tc_auth_event := True\<rparr>)"
  by (simp add: keeps_def turn_inv_def state_inv_def msgs_inv_def addr_inv_def)

lemma keeps_signed_allocate:
  "tc_state c \<noteq> TURN_TRY_ALLOCATE \<Longrightarrow>
   keeps c ((turn_set_state TURN_TRY_ALLOCATE c)\<lparr>tc_tasks := tc_tasks c @ [SignedAllocate]\<rparr>)"
  by (auto simp: keeps_def turn_inv_def state_inv_def msgs_inv_def addr_inv_def turn_set_state_def)

lemma keeps_record [keeps_intros]: "keeps c (record_msg msg c)"
  unfolding record_msg_def by (rule keeps_msg) simp

lemma keeps_new_future: "new_future txid c = Ok c' \<Longrightarrow> keeps c c'"
  by (auto simp: new_future_def rbind_eq_Ok intro!: keeps_msg)

lemma set_result_Ok: "set_result s f = Ok g \<longleftrightarrow> f = Pending \<and> g = Done s"
  by (cases f) (auto simp: set_result_def)

lemma keeps_success: "msg_status STATUS_SUCCESS txid c = Ok c' \<Longrightarrow> keeps c c' \<and> tc_state c' = tc_state c"
  by (auto simp: msg_status_def rbind_eq_Ok set_result_Ok intro!: keeps_msg)

lemma keeps_method_reply:
  assumes "turn_method_reply txid mtd status c = Ok c'"
  shows "keeps c c'"
proof (cases "mtd = Allocate")
  case True
  obtain c1 where c1: "msg_status STATUS_SUCCESS txid c = Ok c1"
    using assms True by (auto simp: turn_method_reply_def rbind_eq_Ok)
  have k: "keeps c c1" "tc_state c1 = tc_state c" using keeps_success [OF c1] by auto
  have "keeps c1 c'"
    using assms True c1 k(2)
    by (auto simp: turn_method_reply_def stun_codes Let_def intro!: keeps_intros keeps_signed_allocate split: if_splits)
  with k(1) show ?thesis by (rule keeps_trans)
next
  case False
  then show ?thesis
    using assms keeps_success [of txid c c'] keeps_refl [of c]
    by (auto simp: turn_method_reply_def split: if_splits)
qed

lemma keeps_turn_reply:
  assumes "turn_reply md5 af m mtd status c = Some (r, c')"
  shows "keeps c c'"
proof (cases "sm_txn_id m \<in> fst ` set (tc_msgs c)")
  case False
  then show ?thesis using assms keeps_refl by (auto simp: turn_reply_def)
next
  case True
  obtain r1 c1 where p: "process_attributes md5 af m c = Some (r1, c1)"
    using assms True by (auto simp: turn_reply_def split: option.splits)
  note s = process_attributes_session [OF p]
  have k: "keeps c c1" using s keeps_same_session by blast
  show ?thesis
  proof (cases r1)
    case (Inl e)
    then show ?thesis using assms True p k by (simp add: turn_reply_def)
  next
    case (Inr x)
    then have x: "x = (0, [])" using s by simp
    show ?thesis
    proof (cases "turn_method_reply (sm_txn_id m) mtd status c1")
      case (Inl e)
      then show ?thesis using assms True p k Inr x by (simp add: turn_reply_def)
    next
      case (Inr c2)
      then have "c' = c2" using assms True p \<open>r1 = Inr x\<close> x by (simp add: turn_reply_def)
      then show ?thesis using keeps_method_reply [OF Inr] k keeps_trans by metis
    qed
  qed
qed

lemma keeps_peer_data: "turn_peer_data rx mh data peer c = (r, c', outs) \<Longrightarrow> keeps c c'"
  by (auto simp: turn_peer_data_def Let_def intro: keeps_intros split: sum.splits option.splits prod.splits if_splits)

lemma keeps_turn_process:
  assumes "turn_process md5 rx mh rnd af out c = Some (r, c', outs)"
  shows "keeps c c'"
proof (cases "turn_parse_msg rnd out")
  case None
  then show ?thesis using assms keeps_refl by (auto simp: turn_process_def)
next
  case (Some q)
  obtain m mtd status where q: "q = (m, mtd, status)" by (cases q)
  obtain d m' where d: "turn_get_data_attr af m = Some (d, m')"
    using assms Some q by (cases "turn_get_data_attr af m") (auto simp: turn_process_def)
  have reply: "keeps c c'" if "map_option (\<lambda>(r, c). (r, c, [])) (turn_reply md5 af m' mtd status c) = Some (r, c', outs)"
    using that keeps_turn_reply by auto
  show ?thesis
  proof (cases d)
    case (Inl e)
    then show ?thesis using assms Some q d keeps_refl by (simp add: turn_process_def)
  next
    case (Inr x)
    obtain data peer where x: "x = (data, peer)" by (cases x)
    show ?thesis
      using assms Some q d Inr x reply keeps_peer_data [of rx mh "the data" "the peer" c r c' outs]
      by (cases data; cases peer) (auto simp: turn_process_def)
  qed
qed

lemma keeps_accept_handler: "accept_handler txid peer relay c = Ok c' \<Longrightarrow> keeps c c'"
  by (auto simp: accept_handler_def rbind_eq_Ok intro: keeps_trans keeps_intros)

lemma keeps_accept_peer: "keeps c (snd (accept_peer hash txid answered peer relay c))"
proof -
  have h: "keeps c x" if "accept_handler txid p relay (c\<lparr>tc_pipe := q\<rparr>) = Ok x" for p q x
    by (rule keeps_trans [OF keeps_pipe keeps_accept_handler [OF that]])
  moreover have "keeps c (x\<lparr>tc_tasks := tc_tasks x @ [PermissionRefresher t]\<rparr>)"
    if "accept_handler txid p relay (c\<lparr>tc_pipe := q\<rparr>) = Ok x" for p q x t
    by (rule keeps_trans [OF h [OF that] keeps_task]) simp
  ultimately show ?thesis
    by (auto simp: accept_peer_def Let_def intro: keeps_intros split: sum.split)
qed

text \<open>Closing takes the client out of the state in which no further signed allocation is started.\<close>

lemma close_inv:
  assumes "turn_inv n c"
  shows "turn_inv (Suc n) (turn_close c)" and "tc_relay (turn_close c) = tc_relay c" and "tc_mapped (turn_close c) = tc_mapped c"
  using assms
  by (auto simp: turn_close_def do_cleanup_def turn_inv_def state_inv_def msgs_inv_def addr_inv_def fut_of_def finish_fut_def
      split: fut.splits option.splits if_splits)

lemma keeps_stop: "keeps c (c\<lparr>tc_stopped := True\<rparr>)" "keeps c (toggle_blank_rudp_headers v c)"
  by (simp_all add: keeps_def turn_inv_def state_inv_def msgs_inv_def addr_inv_def toggle_blank_rudp_headers_def)

lemma keeps_op: "turn_op env c c' \<Longrightarrow> keeps c c'"
proof (induction rule: turn_op.induct)
  case (allocate hmac rnd txid do_sign c c')
  then show ?case by (auto simp: allocate_relay_def Let_def intro: keeps_intros split: sum.splits)
next
  case (refresh txid c c')
  then show ?case by (auto simp: refresh_allocation_def rbind_eq_Ok intro: keeps_intros)
next
  case (send data dest c c')
  then show ?case by (auto simp: turn_send_def rbind_eq_Ok intro: keeps_intros)
next
  case (receive sub c m c')
  then show ?case by (auto simp: turn_recv_def rmap_def intro: keeps_intros split: option.splits list.splits sum.splits)
qed (use keeps_new_future keeps_accept_peer keeps_accept_handler keeps_stop in blast)+

definition session_inv :: "('h, 'p) turn_session \<Rightarrow> bool" where
  "session_inv s = turn_inv (se_closes s) (se_client s)"

definition session_keeps :: "('h, 'p) turn_session \<Rightarrow> ('h, 'p) turn_session \<Rightarrow> bool" where
  "session_keeps s s' =
     (session_inv s' \<and> (tc_relay (se_client s) \<noteq> None \<longrightarrow> tc_relay (se_client s') = tc_relay (se_client s)) \<and>
      (tc_mapped (se_client s) \<noteq> None \<longrightarrow> tc_mapped (se_client s') = tc_mapped (se_client s)))"

lemma session_keeps_client:
  "keeps (se_client s) (se_client s') \<Longrightarrow> se_closes s' = se_closes s \<Longrightarrow> session_inv s \<Longrightarrow> session_keeps s s'"
  by (simp add: keeps_def session_keeps_def session_inv_def)

lemma step_keeps: "turn_step env s s' \<Longrightarrow> session_inv s \<Longrightarrow> session_keeps s s'"
proof (induction rule: turn_step.induct)
  case (user s c')
  show ?case by (rule session_keeps_client) (use user keeps_op in auto)
next
  case (close s)
  then show ?case using close_inv [of "se_closes s" "se_client s"] by (simp add: session_keeps_def session_inv_def)
next
  case (reply s rnd out r c' outs)
  show ?case by (rule session_keeps_client) (use reply keeps_turn_process in auto)
next
  case (stop s)
  show ?case by (rule session_keeps_client) (use stop keeps_stop in auto)
qed (rule session_keeps_client; simp add: keeps_refl)+

lemma turn_inv_init: "turn_inv 0 (new_turn_client dest user pw realm pipe)"
  by (simp add: turn_inv_def state_inv_def msgs_inv_def addr_inv_def fut_of_def new_turn_client_def)

lemma turn_reachable_inv: "turn_reachable env s \<Longrightarrow> session_inv s"
proof (induction rule: turn_reachable.induct)
  case (step s s')
  then show ?case using step_keeps by (auto simp: session_keeps_def)
qed (simp add: session_inv_def turn_inv_init)

text \<open>C4: In every state a session can reach, whatever the user, the tasks and the reply loop do and in whatever order,
  closing while the loop waits for a datagram included, the protocol is in one of three of its nine states, at most one
  more signed allocation was started than the client was closed, no request was ever asked to be retransmitted, and the
  futures for the relay and the mapped address agree with the addresses; once known, these never change again.\<close>

theorem turn_session_invariant:
  assumes "turn_reachable env s" and "turn_step env s s'" and "c = se_client s" and "c' = se_client s'"
  shows "tc_state c' \<in> {TURN_NOT_STARTED, TURN_TRY_ALLOCATE, TURN_ERROR_STOPPED} \<and>
         count_list (tc_tasks c') SignedAllocate \<le> Suc (se_closes s') \<and>
         (\<forall>k f m. map_of (tc_msgs c') k = Some (f, m) \<longrightarrow> f \<noteq> Done STATUS_RETRY) \<and>
         (\<forall>t. tc_relay_fut c' = Done (Some t) \<longrightarrow> tc_relay c' = Some t) \<and>
         (\<forall>t. tc_client_fut c' = Done (Some t) \<longrightarrow> tc_mapped c' = Some t) \<and>
         (tc_relay c \<noteq> None \<longrightarrow> tc_relay c' = tc_relay c) \<and> (tc_mapped c \<noteq> None \<longrightarrow> tc_mapped c' = tc_mapped c)"
proof -
  have k: "session_keeps s s'" by (rule step_keeps [OF assms(2) turn_reachable_inv [OF assms(1)]])
  then have "turn_inv (se_closes s') c'" by (simp add: session_keeps_def session_inv_def assms(4))
  then have "state_inv (se_closes s') c'" "msgs_inv c'" "addr_inv c'" by (simp_all add: turn_inv_def)
  then show ?thesis using k
    by (auto simp: state_inv_def msgs_inv_def addr_inv_def fut_of_def session_keeps_def assms(3,4) split: if_splits)
qed

definition demo_env :: turn_env where
  "demo_env = \<lparr>te_md5 = (\<lambda>b. b), te_rx = (\<lambda>_ _. True), te_mh = (\<lambda>_. 0), te_hash = demo_hashes, te_af = IP4\<rparr>"

text \<open>
  A session that is closed while its loop waits: the first allocation is refused, the signed one is asked for, the user
  closes, and the refusal of the signed one arrives and starts another.
\<close>

definition demo_new :: "(nat, nat) turn_client" where
  "demo_new = new_turn_client (''1.2.3.4'', 3478) [1] [2] None (demo_pipe [])"

definition demo_refusal :: "byte \<Rightarrow> bytes" where
  "demo_refusal x = challenge STUN_MAGIC_COOKIE (replicate 12 x) [0, 0, 4, 1] [65] [66]"

definition demo_asked :: "byte \<Rightarrow> (nat, nat) turn_client \<Rightarrow> (nat, nat) turn_client" where
  "demo_asked x c = snd (allocate_relay (\<lambda>k b. replicate 20 0) [] (replicate 12 x) True c)"

lemma allocate_msg_Ok: "\<exists>m. allocate_msg (replicate 12 x) = Ok m \<and> sm_txn_id m = replicate 12 x"
  using write_attr_ok [of "(RequestedTransport, TURN_PROTOCOL_UDP)" "STUNMsg (replicate 12 x) Allocate Request RFC5389"]
  by (auto simp: allocate_msg_def attr_ok_def RequestedTransport_def TURN_PROTOCOL_UDP_def STUNMsg_def Let_def simp del: replicate_numeral)

lemma demo_asked:
  "\<exists>m. map_of (tc_msgs (demo_asked x c)) (replicate 12 x) = Some (Pending, m) \<and> tc_state (demo_asked x c) = tc_state c \<and>
     tc_tasks (demo_asked x c) = tc_tasks c \<and> tc_stopped (demo_asked x c) = tc_stopped c"
proof -
  obtain m where "allocate_msg (replicate 12 x) = Ok m" "sm_txn_id m = replicate 12 x" using allocate_msg_Ok by blast
  then show ?thesis by (simp add: demo_asked_def allocate_relay_def Let_def record_msg_def map_of_dict_set del: replicate_numeral)
qed

lemma demo_refused:
  assumes "tc_state c \<noteq> TURN_TRY_ALLOCATE" and "map_of (tc_msgs c) (replicate 12 x) = Some (Pending, m)"
  shows "\<exists>c'. turn_process (te_md5 demo_env) (te_rx demo_env) (te_mh demo_env) [] (te_af demo_env) (demo_refusal x) c = Some (Ok (), c', []) \<and>
    tc_state c' = TURN_TRY_ALLOCATE \<and> tc_tasks c' = tc_tasks c @ [SignedAllocate] \<and> tc_stopped c' = tc_stopped c"
  unfolding demo_refusal_def
  using challenge_taken [where txid = "replicate 12 x" and cookie = STUN_MAGIC_COOKIE and err = "[0, 0, 4, 1]" and realm = "[65]" and nonce = "[66]",
      OF _ _ _ _ _ _ _ _ assms]
  by (simp add: STUN_MAGIC_COOKIE_def challenged_def del: replicate_numeral)

theorem turn_session_invariant_witness:
  "\<exists>s :: (nat, nat) turn_session. se_closes s = 1 \<and> tc_state (se_client s) = TURN_TRY_ALLOCATE \<and> turn_reachable demo_env s \<and>
     count_list (tc_tasks (se_client s)) SignedAllocate = 2 \<and> count_list (tc_tasks (se_client s)) SignedAllocate \<le> Suc (se_closes s)"
proof -
  let ?S = "\<lambda>l n c. \<lparr>se_loop = l, se_closes = n, se_client = c\<rparr> :: (nat, nat) turn_session"
  let ?a = "demo_asked 7 demo_new"
  have a: "tc_state ?a = TURN_NOT_STARTED" "tc_tasks ?a = []" "tc_stopped ?a = False"
    using demo_asked [of 7 demo_new] by (auto simp: demo_new_def new_turn_client_def)
  obtain b where b: "turn_process (te_md5 demo_env) (te_rx demo_env) (te_mh demo_env) [] (te_af demo_env) (demo_refusal 7) ?a = Some (Ok (), b, [])"
      "tc_state b = TURN_TRY_ALLOCATE" "tc_tasks b = [SignedAllocate]" "tc_stopped b = False"
    using demo_refused [of ?a 7] demo_asked [of 7 demo_new] a by auto
  let ?d = "demo_asked 8 b" and ?e = "turn_close (demo_asked 8 b)"
  have e: "tc_state ?e = TURN_ERROR_STOPPED" "tc_tasks ?e = [SignedAllocate]" "tc_msgs ?e = tc_msgs ?d"
    using demo_asked [of 8 b] b by (auto simp: turn_close_def do_cleanup_def)
  obtain f where f: "turn_process (te_md5 demo_env) (te_rx demo_env) (te_mh demo_env) [] (te_af demo_env) (demo_refusal 8) ?e = Some (Ok (), f, [])"
      "tc_state f = TURN_TRY_ALLOCATE" "tc_tasks f = [SignedAllocate, SignedAllocate]"
    using demo_refused [of ?e 8] demo_asked [of 8 b] e by auto
  have "turn_reachable demo_env (?S Checking 0 demo_new)" unfolding demo_new_def by (rule turn_reachable.init)
  moreover have "turn_op demo_env demo_new ?a" by (rule turn_op.allocate) (simp add: demo_asked_def)
  ultimately have "turn_reachable demo_env (?S Checking 0 ?a)" using turn_step.user [of demo_env "?S Checking 0 demo_new"] turn_reachable.step by fastforce
  then have "turn_reachable demo_env (?S Awaiting 0 ?a)" using turn_step.await [of "?S Checking 0 ?a"] a turn_reachable.step by fastforce
  then have "turn_reachable demo_env (?S Checking 0 b)"
    using turn_step.reply [of "?S Awaiting 0 ?a" demo_env "[]" "demo_refusal 7"] b turn_reachable.step by fastforce
  then have "turn_reachable demo_env (?S Awaiting 0 b)" using turn_step.await [of "?S Checking 0 b"] b turn_reachable.step by fastforce
  moreover have "turn_op demo_env b ?d" by (rule turn_op.allocate) (simp add: demo_asked_def)
  ultimately have "turn_reachable demo_env (?S Awaiting 0 ?d)" using turn_step.user [of demo_env "?S Awaiting 0 b"] turn_reachable.step by fastforce
  then have w: "turn_reachable demo_env (?S Awaiting 1 ?e)" using turn_step.close [of demo_env "?S Awaiting 0 ?d"] turn_reachable.step by fastforce
  have st: "turn_step demo_env (?S Awaiting 1 ?e) (?S Checking 1 f)"
    using turn_step.reply [of "?S Awaiting 1 ?e" demo_env "[]" "demo_refusal 8"] f by simp
  from turn_session_invariant [OF w st refl refl] have "count_list (tc_tasks f) SignedAllocate \<le> Suc 1" by simp
  then show ?thesis using turn_reachable.step [OF w st] f by (intro exI [of _ "?S Checking 1 f"]) simp
qed

section \<open>Signed requests on the wire\<close>

text \<open>The message format with its length field, and the signed message the protocol prescribes: the digest
  covers everything before it, under a length field that already counts it.\<close>

definition wire_msg :: "bytes \<Rightarrow> nat \<Rightarrow> bytes \<Rightarrow> (bytes \<times> bytes) list \<Rightarrow> bytes" where
  "wire_msg ty n txid attrs = ty @ be_enc 2 n @ STUN_MAGIC_COOKIE @ txid @ attrs_ser attrs"

definition signed_msg :: "(bytes \<Rightarrow> bytes \<Rightarrow> bytes) \<Rightarrow> bytes \<Rightarrow> bytes \<Rightarrow> bytes \<Rightarrow> (bytes \<times> bytes) list \<Rightarrow> bytes" where
  "signed_msg hmac key ty txid attrs =
     (let n = length (attrs_ser attrs) + 24
      in wire_msg ty n txid (attrs @ [(MessageIntegrity, hmac key (wire_msg ty n txid attrs))]))"

text \<open>A message object in the middle of being written.\<close>

definition writing :: "bytes \<Rightarrow> bytes \<Rightarrow> (bytes \<times> bytes) list \<Rightarrow> stun_msg \<Rightarrow> bool" where
  "writing ty txid attrs m = (b_and (b_or (sm_type m) (sm_code m)) [0x3F, 0xFF] = ty \<and> sm_mode m = RFC5389 \<and>
     sm_cookie m = STUN_MAGIC_COOKIE \<and> sm_txn_id m = txid \<and> sm_msg m = attrs_ser attrs \<and> sm_len m = length (attrs_ser attrs))"

lemma writing_write:
  "writing ty txid attrs m \<Longrightarrow> attr_ok (c, d) \<Longrightarrow> \<exists>m'. write_attr c d m = Ok m' \<and> writing ty txid (attrs @ [(c, d)]) m'"
  using write_attr_ok [of "(c, d)" m] by (simp add: writing_def)

lemma writing_pack:
  "writing ty txid attrs m \<Longrightarrow> length (attrs_ser attrs) < 65536 \<Longrightarrow> stun_pack m = Ok (wire_msg ty (length (attrs_ser attrs)) txid attrs)"
  by (simp add: writing_def stun_pack_def pack_be_def wire_msg_def)

lemma writing_pack_longer:
  "writing ty txid attrs m \<Longrightarrow> length (attrs_ser attrs) + k < 65536 \<Longrightarrow>
   stun_pack (m\<lparr>sm_len := sm_len m + k\<rparr>) = Ok (wire_msg ty (length (attrs_ser attrs) + k) txid attrs)"
  by (simp add: writing_def stun_pack_def pack_be_def wire_msg_def nat_int_add)

lemma writing_unpack:
  assumes "list_all attr_ok attrs" and "attrs \<noteq> []" and "length (attrs_ser attrs) < 65536" and "length txid = 12"
    and "length ty = 2" and "b_and (b_or ty Request) [0x3F, 0xFF] = ty"
  shows "\<exists>m. stun_unpack rnd RFC5389 (wire_msg ty (length (attrs_ser attrs)) txid attrs) = Ok (m, Some []) \<and> writing ty txid attrs m"
proof -
  have "length STUN_MAGIC_COOKIE = 4" by (simp add: STUN_MAGIC_COOKIE_def)
  from unpack_packed [OF assms(1-4) this assms(5), of rnd RFC5389 "[]"]
  obtain m where m: "stun_unpack rnd RFC5389 (wire_msg ty (length (attrs_ser attrs)) txid attrs) = Ok (m, Some [])"
      "at_attrs m attrs" "sm_txn_id m = txid" "sm_cookie m = STUN_MAGIC_COOKIE" "sm_type m = ty"
    by (auto simp: wire_msg_def)
  moreover have "sm_cursor m = 0" "sm_mode m = RFC5389" "sm_code m = Request"
    using m(1) by (auto simp: stun_unpack_def stun_decode_def STUNMsg_def Let_def rbind_eq_Ok split: if_splits)
  ultimately show ?thesis using assms(6) by (auto simp: writing_def at_attrs_def)
qed

lemma sign_writing:
  assumes "writing ty txid attrs m" and "list_all attr_ok [(Username, tc_user c), (Realm, realm), (Nonce, nonce)]"
    and "tc_realm c = Some realm" and "tc_nonce c = Some nonce" and "\<And>k b. length (hmac k b) = 20"
    and "attrs' = attrs @ [(Username, tc_user c), (Realm, realm), (Nonce, nonce)]"
    and "length (attrs_ser attrs') + 24 < 65536"
  shows "rbind (turn_sign hmac key c m) stun_pack = Ok (signed_msg hmac key ty txid attrs')"
proof -
  obtain m1 where m1: "write_attr Username (tc_user c) m = Ok m1" "writing ty txid (attrs @ [(Username, tc_user c)]) m1"
    using writing_write [OF assms(1), of Username "tc_user c"] assms(2) by auto
  obtain m2 where m2: "write_attr Realm realm m1 = Ok m2"
      "writing ty txid ((attrs @ [(Username, tc_user c)]) @ [(Realm, realm)]) m2"
    using writing_write [OF m1(2), of Realm realm] assms(2) by auto
  obtain m3 where m3: "write_attr Nonce nonce m2 = Ok m3" "writing ty txid attrs' m3"
    using writing_write [OF m2(2), of Nonce nonce] assms(2,6) by auto
  let ?h = "hmac key (wire_msg ty (length (attrs_ser attrs') + 24) txid attrs')"
  have p: "stun_pack (m3\<lparr>sm_len := sm_len m3 + 24\<rparr>) = Ok (wire_msg ty (length (attrs_ser attrs') + 24) txid attrs')"
    by (rule writing_pack_longer [OF m3(2) assms(7)])
  have h: "attr_ok (MessageIntegrity, ?h)" using assms(5) [of key] by (auto simp: attr_ok_def stun_codes simp flip: length_greater_0_conv)
  obtain m4 where m4: "write_attr MessageIntegrity ?h m3 = Ok m4" "writing ty txid (attrs' @ [(MessageIntegrity, ?h)]) m4"
    using writing_write [OF m3(2) h] by blast
  have l: "length (attrs_ser (attrs' @ [(MessageIntegrity, ?h)])) = length (attrs_ser attrs') + 24"
    using h assms(5) [of key] by (simp add: length_attr_ser attr_pad_def)
  have "turn_sign hmac key c m = Ok m4"
    using m1 m2 m3 m4 p assms(3,4) by (simp add: turn_sign_def write_credential_def write_hmac_def)
  then show ?thesis using writing_pack [OF m4(2)] l assms(7) by (simp add: signed_msg_def Let_def)
qed

definition allocate_attrs :: "(bytes \<times> bytes) list" where
  "allocate_attrs = [(RequestedTransport, TURN_PROTOCOL_UDP)]"

lemma allocate_msg_writing: "\<exists>m. allocate_msg txid = Ok m \<and> writing Allocate txid allocate_attrs m \<and> sm_txn_id m = txid"
proof -
  have "writing Allocate txid [] (STUNMsg txid Allocate Request RFC5389)"
    by (simp add: writing_def STUNMsg_def stun_codes b_and_def b_or_def)
  from writing_write [OF this, of RequestedTransport TURN_PROTOCOL_UDP] show ?thesis
    by (auto simp: allocate_msg_def allocate_attrs_def attr_ok_def stun_codes TURN_PROTOCOL_UDP_def writing_def)
qed

text \<open>C27: An allocation request recorded by the client goes out as exactly the prescribed message: unsigned before a
  key is known, and after the challenge with the credentials and a digest over the message under its final length.\<close>

theorem allocate_relay_wire:
  assumes "length txid = 12" and "\<And>k b. length (hmac k b) = 20" and "tc_requires_auth c"
    and "list_all attr_ok [(Username, tc_user c), (Realm, realm), (Nonce, nonce)]"
    and "length (tc_user c) < 1000" and "length realm < 1000" and "length nonce < 1000"
    and "tc_realm c = Some realm" and "tc_nonce c = Some nonce" and "key \<noteq> []"
  shows "fst (allocate_relay hmac rnd txid do_sign (c\<lparr>tc_key := None\<rparr>)) =
           Ok (wire_msg Allocate (length (attrs_ser allocate_attrs)) txid allocate_attrs) \<and>
         fst (allocate_relay hmac rnd txid True (c\<lparr>tc_key := Some key\<rparr>)) =
           Ok (signed_msg hmac key Allocate txid (allocate_attrs @ [(Username, tc_user c), (Realm, realm), (Nonce, nonce)])) \<and>
         map_of (tc_msgs (snd (allocate_relay hmac rnd txid do_sign c))) txid \<noteq> None"
proof -
  obtain m where m: "allocate_msg txid = Ok m" "writing Allocate txid allocate_attrs m" "sm_txn_id m = txid"
    using allocate_msg_writing by blast
  have ok: "list_all attr_ok allocate_attrs"
    by (simp add: allocate_attrs_def attr_ok_def stun_codes TURN_PROTOCOL_UDP_def)
  have l: "length (attrs_ser allocate_attrs) = 8"
    using ok by (simp add: allocate_attrs_def length_attr_ser attr_pad_def TURN_PROTOCOL_UDP_def)
  have ty: "length Allocate = 2" "b_and (b_or Allocate Request) [0x3F, 0xFF] = Allocate"
    by (simp_all add: stun_codes b_and_def b_or_def)
  obtain m' where m': "stun_unpack rnd RFC5389 (wire_msg Allocate (length (attrs_ser allocate_attrs)) txid allocate_attrs) = Ok (m', Some [])"
      "writing Allocate txid allocate_attrs m'"
    using writing_unpack [OF ok _ _ assms(1) ty] l by (auto simp: allocate_attrs_def)
  have p: "stun_pack m = Ok (wire_msg Allocate (length (attrs_ser allocate_attrs)) txid allocate_attrs)"
      "stun_pack m' = Ok (wire_msg Allocate (length (attrs_ser allocate_attrs)) txid allocate_attrs)"
    using writing_pack [OF m(2)] writing_pack [OF m'(2)] l by simp_all
  let ?attrs = "allocate_attrs @ [(Username, tc_user c), (Realm, realm), (Nonce, nonce)]"
  have pad: "attr_pad n \<le> 3" for n by (simp add: attr_pad_def) presburger
  have "length (attrs_ser ?attrs) + 24 < 65536"
    using l assms(4-7) pad [of "length (tc_user c)"] pad [of "length realm"] pad [of "length nonce"] by (simp add: length_attr_ser)
  then have "rbind (turn_sign hmac key (record_msg m (c\<lparr>tc_key := Some key\<rparr>)) m') stun_pack = Ok (signed_msg hmac key Allocate txid ?attrs)"
    using sign_writing [OF m'(2), of "record_msg m (c\<lparr>tc_key := Some key\<rparr>)" realm nonce hmac ?attrs key] assms
    by (simp add: record_msg_def)
  then show ?thesis
    using m p m'(1) assms(3,10) by (simp add: allocate_relay_def send_turn_msg_def record_msg_def Let_def)
qed

theorem allocate_relay_wire_witness:
  "fst (allocate_relay (\<lambda>_ _. replicate 20 0) [] (replicate 12 7) True
      ((demo_client [] [])\<lparr>tc_user := [65], tc_realm := Some [66], tc_nonce := Some [67], tc_key := Some [1]\<rparr>)) =
   Ok (signed_msg (\<lambda>_ _. replicate 20 0) [1] Allocate (replicate 12 7) (allocate_attrs @ [(Username, [65]), (Realm, [66]), (Nonce, [67])]))"
  using allocate_relay_wire [of "replicate 12 7" "\<lambda>_ _. replicate 20 0"
      "(demo_client [] [])\<lparr>tc_user := [65], tc_realm := Some [66], tc_nonce := Some [67]\<rparr>" "[66]" "[67]" "[1]" "[]"]
  by (simp add: demo_client_def attr_ok_def stun_codes del: replicate_numeral)

end
