(* ===== verification/Route_Pool.thy ===== *)
theory Route_Pool
  imports Addressing
begin

text \<open>
  \<^verbatim>\<open>nic/route/route_defs.py\<close>, \<^verbatim>\<open>route_utils.py\<close> and \<^verbatim>\<open>route_table.py\<close>: a route joins the addresses of an
  interface to an external address or range, a pool of routes is read as if every external host had
  its own index, and the route table decides which interfaces reach the internet.
\<close>

section \<open>Routes\<close>

record route =
  rt_af :: af
  rt_nic_ips :: "iprange list"
  rt_ext_ips :: "iprange list"
  rt_link_locals :: "iprange list"
  rt_interface :: "nat option"
  rt_route_offset :: "nat option"
  rt_host_offset :: "int option"

definition Route :: "af \<Rightarrow> iprange list \<Rightarrow> iprange list \<Rightarrow> nat option \<Rightarrow> bool \<Rightarrow> route res" where
  "Route af nic_ips ext_ips interface ext_check =
     rbind (rassert (ext_ips \<noteq> [] \<and> nic_ips \<noteq> [])) (\<lambda>_.
     rbind (rassert (ipr_i_ip (hd ext_ips) \<noteq> 0 \<and> ipr_af (hd ext_ips) = af)) (\<lambda>_.
     rbind (rassert (list_all (\<lambda>i. ipr_af i = af) nic_ips)) (\<lambda>_.
     rbind (rassert (ext_check \<longrightarrow> ipr_is_public (hd ext_ips))) (\<lambda>_.
       Ok \<lparr>rt_af = af, rt_nic_ips = nic_ips, rt_ext_ips = ext_ips, rt_link_locals = [], rt_interface = interface,
           rt_route_offset = None, rt_host_offset = None\<rparr>))))"

definition route_set_offsets :: "nat \<Rightarrow> int option \<Rightarrow> route \<Rightarrow> route" where
  "route_set_offsets r h rt = rt\<lparr>rt_route_offset := Some r, rt_host_offset := h\<rparr>"

definition set_link_locals :: "iprange list \<Rightarrow> route \<Rightarrow> route" where
  "set_link_locals l rt = rt\<lparr>rt_link_locals := l\<rparr>"

definition first_of :: "'a list \<Rightarrow> 'a res" where
  "first_of xs = py_get xs 0"

definition route_nic :: "route \<Rightarrow> string res" where
  "route_nic rt = rbind (first_of (rt_nic_ips rt)) ipr_norm"

definition route_ext_ip :: "route \<Rightarrow> string res" where
  "route_ext_ip rt = rbind (first_of (rt_ext_ips rt)) ipr_norm"

definition route_link_local :: "route \<Rightarrow> string res" where
  "route_link_local rt = rbind (first_of (rt_link_locals rt)) ipr_norm"

definition has_nic_ip :: "iprange \<Rightarrow> route \<Rightarrow> bool" where
  "has_nic_ip ipr rt = list_ex (\<lambda>nic. range_intersects (ipr_r nic) (ipr_r ipr)) (rt_nic_ips rt)"

definition route_len :: "route \<Rightarrow> int res" where
  "route_len rt = (case rt_ext_ips rt of [] \<Rightarrow> Ok 0 | x # _ \<Rightarrow> ipr_len x)"

text \<open>What a route is compared with; text, integers and address objects become one-host ranges.\<close>

datatype route_other = OtherRoute route | OtherIpr ipr_other

fun route_convert :: "route_other \<Rightarrow> iprange option res" where
  "route_convert (OtherRoute r) = Ok (case rt_ext_ips r of [] \<Rightarrow> None | x # _ \<Rightarrow> Some x)"
| "route_convert (OtherIpr (OtherRange x)) = Ok (Some x)"
| "route_convert (OtherIpr (OtherText s)) =
     rbind (ip_f (IpStr s)) (\<lambda>_. rmap Some (IPRange (IpStr s) None (Some CIDR_WAN)))"
| "route_convert (OtherIpr (OtherInt n)) =
     rbind (ip_f (IpInt n)) (\<lambda>_. rmap Some (IPRange (IpInt n) None (Some CIDR_WAN)))"
| "route_convert (OtherIpr (OtherAddr a)) = rmap Some (IPRange (IpObj a) None (Some CIDR_WAN))"

text \<open>\<open>bad_len\<close>: an empty side makes every comparison False.\<close>

definition route_compare :: "(iprange \<Rightarrow> ipr_other \<Rightarrow> bool res) \<Rightarrow> route \<Rightarrow> route_other \<Rightarrow> bool res" where
  "route_compare cmp rt other =
     rbind (route_convert other) (\<lambda>o'.
     rbind (route_len rt) (\<lambda>n.
       if n = 0 then Ok False
       else (case (rt_ext_ips rt, o') of
               (x # _, Some y) \<Rightarrow> rbind (ipr_len y) (\<lambda>m. if m = 0 then Ok False else cmp x (OtherRange y))
             | _ \<Rightarrow> Ok False)))"

definition route_eq :: "route \<Rightarrow> route_other \<Rightarrow> bool res" where
  "route_eq = route_compare ipr_eq"

definition route_lt :: "route \<Rightarrow> route_other \<Rightarrow> bool res" where
  "route_lt = route_compare ipr_lt"

text \<open>Serialised routes; \<open>from_dict\<close> builds them with the check that the external address is public.\<close>

record route_dict =
  rd_af :: af
  rd_nic_ips :: "ipr_dict list"
  rd_ext_ips :: "ipr_dict list"
  rd_link_local_ips :: "ipr_dict list"

definition route_to_dict :: "route \<Rightarrow> route_dict" where
  "route_to_dict rt =
     \<lparr>rd_af = rt_af rt, rd_nic_ips = map to_dict (rt_nic_ips rt), rd_ext_ips = map to_dict (rt_ext_ips rt),
      rd_link_local_ips = map to_dict (rt_link_locals rt)\<rparr>"

definition route_from_dict :: "route_dict \<Rightarrow> route res" where
  "route_from_dict d =
     rbind (rmap_list from_dict (rd_nic_ips d)) (\<lambda>nic_ips.
     rbind (rmap_list from_dict (rd_ext_ips d)) (\<lambda>ext_ips.
     rbind (Route (rd_af d) nic_ips ext_ips None True) (\<lambda>rt.
     rbind (rmap_list from_dict (rd_link_local_ips d)) (\<lambda>link_locals.
       Ok (set_link_locals link_locals rt)))))"

definition route_deepcopy :: "route \<Rightarrow> route res" where
  "route_deepcopy rt =
     rbind (rmap_list ipr_deepcopy (rt_nic_ips rt)) (\<lambda>nic_ips.
     rbind (rmap_list ipr_deepcopy (rt_ext_ips rt)) (\<lambda>ext_ips.
     rbind (Route (rt_af rt) nic_ips ext_ips (rt_interface rt) True) (\<lambda>r.
     rbind (rmap_list ipr_deepcopy (rt_link_locals rt)) (\<lambda>ll.
       Ok (r\<lparr>rt_route_offset := rt_route_offset rt, rt_host_offset := rt_host_offset rt, rt_link_locals := ll\<rparr>)))))"

section \<open>Pools\<close>

text \<open>The cumulative numbers of external hosts, and how many \<open>pop\<close> has taken.\<close>

record pool =
  rp_routes :: "route list"
  rp_len_list :: "int list"
  rp_wan_hosts :: int
  rp_pop :: int

fun rp_lengths :: "int \<Rightarrow> route list \<Rightarrow> int list res" where
  "rp_lengths wan_hosts [] = Ok []"
| "rp_lengths wan_hosts (rt # rts) =
     rbind (route_len rt) (\<lambda>n. rbind (rp_lengths (wan_hosts + n) rts) (\<lambda>l. Ok ((wan_hosts + n) # l)))"

definition RoutePool :: "route list \<Rightarrow> pool res" where
  "RoutePool routes =
     rbind (rp_lengths 0 routes) (\<lambda>l.
       Ok \<lparr>rp_routes = map (\<lambda>(i, rt). route_set_offsets i None rt) (enumerate 0 routes), rp_len_list = l,
           rp_wan_hosts = (if l = [] then 0 else last l), rp_pop = 0\<rparr>)"

text \<open>\<open>len\<close> of a pool has to fit a signed machine word, as for a range.\<close>

definition rp_size :: "pool \<Rightarrow> int res" where
  "rp_size rp = (if rp_wan_hosts rp < 2 ^ 63 then Ok (rp_wan_hosts rp) else Err OverflowError)"

definition rp_to_dict :: "pool \<Rightarrow> route_dict list" where
  "rp_to_dict rp = map route_to_dict (rp_routes rp)"

definition rp_from_dict :: "route_dict list \<Rightarrow> pool res" where
  "rp_from_dict ds = rbind (rmap_list route_from_dict ds) RoutePool"

fun rp_locate :: "route list \<Rightarrow> route_other \<Rightarrow> route option res" where
  "rp_locate [] other = Ok None"
| "rp_locate (rt # rts) other = rbind (route_eq rt other) (\<lambda>b. if b then Ok (Some rt) else rp_locate rts other)"

definition get_route_info :: "pool \<Rightarrow> nat \<Rightarrow> int \<Rightarrow> route res" where
  "get_route_info rp route_offset abs_host_offset =
     rbind (rassert (int route_offset \<le> int (length (rp_routes rp)) - 1)) (\<lambda>_.
     let rt = rp_routes rp ! route_offset;
         prev_len = (if route_offset \<noteq> 0 then rp_len_list rp ! (route_offset - 1) else 0);
         rel = abs_host_offset - prev_len
     in rbind (rassert (rel \<le> rp_len_list rp ! route_offset - 1)) (\<lambda>_.
        rbind (first_of (rt_ext_ips rt)) (\<lambda>wan_ipr.
        rbind (first_of (rt_nic_ips rt)) (\<lambda>nic_ipr.
        rbind (rassert (rel + 1 \<le> rp_wan_hosts rp)) (\<lambda>_.
        rbind (ipr_len wan_ipr) (\<lambda>n.
        rbind (rassert (n \<noteq> 0)) (\<lambda>_.
        rbind (ipr_len nic_ipr) (\<lambda>n.
        rbind (rassert (n \<noteq> 0)) (\<lambda>_.
        rbind (get_value wan_ipr (rel mod rp_wan_hosts rp)) (\<lambda>a.
        rbind (IPRange (IpStr (ip_str a)) None (Some CIDR_WAN)) (\<lambda>wan_ip.
        rbind (rmap_list ipr_deepcopy (rt_nic_ips rt)) (\<lambda>nic_ips.
        rbind (Route (rt_af rt) nic_ips [wan_ip] (rt_interface rt) True) (\<lambda>new_route.
          Ok (route_set_offsets route_offset (Some abs_host_offset) new_route))))))))))))))"

text \<open>Indexing with an integer; None when the pool is empty, where the source returns an empty list.\<close>

definition rp_get :: "pool \<Rightarrow> int \<Rightarrow> route option res" where
  "rp_get rp key =
     (if rp_wan_hosts rp = 0 then Ok None
      else (let key = (if key < 0 then key mod rp_wan_hosts rp else key)
            in rbind (sorted_search (rp_len_list rp) (key + 1) None) (\<lambda>off.
                 case off of None \<Rightarrow> Ok None | Some off \<Rightarrow> rmap Some (get_route_info rp off key))))"

definition rp_get_slice :: "pool \<Rightarrow> int option \<Rightarrow> int option \<Rightarrow> int option \<Rightarrow> route option list res" where
  "rp_get_slice rp start stop step =
     (if rp_wan_hosts rp = 0 then Ok []
      else rbind (rp_size rp) (\<lambda>n.
           rbind (slice_indices start stop step n) (\<lambda>(a, b, s). rmap_list (rp_get rp) (py_range a b s))))"

definition rp_pop_route :: "pool \<Rightarrow> (route option \<times> pool) res" where
  "rp_pop_route rp =
     (if rp_pop rp \<ge> rp_wan_hosts rp then Err (PyException ''No more routes.'')
      else rbind (rp_get rp (rp_pop rp)) (\<lambda>r. Ok (r, rp\<lparr>rp_pop := rp_pop rp + 1\<rparr>)))"

text \<open>
  \<open>RoutePoolIter\<close>: the host pointer, the route offset, and the next route (None: StopIteration). A
  reversed iteration computes a host offset from the end with \<open>len\<close>, which it does not use.
\<close>

record rp_iter =
  it_reverse :: bool
  it_host_p :: int
  it_route_offset :: int

definition RoutePoolIter :: "pool \<Rightarrow> bool \<Rightarrow> rp_iter" where
  "RoutePoolIter rp reverse =
     \<lparr>it_reverse = reverse, it_host_p = 0,
      it_route_offset = (if reverse then int (length (rp_routes rp)) - 1 else 0)\<rparr>"

definition rp_iter_next :: "pool \<Rightarrow> rp_iter \<Rightarrow> (route \<times> rp_iter) option res" where
  "rp_iter_next rp it =
     (if it_host_p it \<ge> rp_wan_hosts rp then Ok None
      else rbind (if it_reverse it then rmap (\<lambda>n. n - 1 - it_host_p it) (rp_size rp) else Ok (it_host_p it)) (\<lambda>host_offset.
           rbind (get_route_info rp (nat (it_route_offset it)) (it_host_p it)) (\<lambda>rt.
           let host_p = it_host_p it + 1;
               passed = (host_p \<ge> rp_len_list rp ! nat (it_route_offset it));
               off = (if \<not> it_reverse it
                      then (if passed \<and> it_route_offset it < int (length (rp_routes rp)) - 1
                            then it_route_offset it + 1 else it_route_offset it)
                      else (if passed \<and> it_route_offset it \<noteq> 0 then it_route_offset it - 1 else it_route_offset it))
           in Ok (Some (rt, it\<lparr>it_host_p := host_p, it_route_offset := off\<rparr>)))))"

fun rp_iterate :: "pool \<Rightarrow> nat \<Rightarrow> rp_iter \<Rightarrow> route list res" where
  "rp_iterate rp 0 it = Ok []"
| "rp_iterate rp (Suc fuel) it =
     rbind (rp_iter_next rp it) (\<lambda>r. case r of None \<Rightarrow> Ok []
       | Some (rt, it) \<Rightarrow> rbind (rp_iterate rp fuel it) (\<lambda>l. Ok (rt # l)))"

text \<open>Alternatives to a route, and \<open>~route\<close>, over the routes of its pool in order.\<close>

fun route_alt :: "route \<Rightarrow> nat \<Rightarrow> (route \<Rightarrow> bool) \<Rightarrow> route list \<Rightarrow> nat \<Rightarrow> route list res" where
  "route_alt self limit excluded [] n = Ok []"
| "route_alt self limit excluded (rt # rts) n =
     rbind (route_eq rt (OtherRoute self)) (\<lambda>same.
       if same \<or> excluded rt then route_alt self limit excluded rts n
       else if n + 1 \<ge> limit then Ok [rt]
       else rbind (route_alt self limit excluded rts (n + 1)) (\<lambda>l. Ok (rt # l)))"

fun route_invert :: "route \<Rightarrow> route list \<Rightarrow> route option res" where
  "route_invert self [] = Ok None"
| "route_invert self (rt # rts) =
     rbind (route_eq rt (OtherRoute self)) (\<lambda>same. if same then route_invert self rts else Ok (Some rt))"

section \<open>Building the routes of an interface\<close>

text \<open>\<open>rp_from_fixed\<close>: address and optional netmask of each NIC and external address.\<close>

definition fixed_ipr :: "string \<times> string option \<Rightarrow> iprange res" where
  "fixed_ipr info = IPRange (IpStr (fst info)) (map_option IpStr (snd info)) (Some CIDR_WAN)"

definition rp_from_fixed ::
  "((string \<times> string option) list \<times> (string \<times> string option) list) list \<Rightarrow> nat option \<Rightarrow> af \<Rightarrow> pool res" where
  "rp_from_fixed fixed interface af =
     rbind (rmap_list (\<lambda>(nics, exts).
              rbind (rmap_list fixed_ipr nics) (\<lambda>nic_iprs.
              rbind (rmap_list fixed_ipr exts) (\<lambda>ext_iprs. Route af nic_iprs ext_iprs interface True))) fixed) RoutePool"

definition sort_routes :: "route list \<Rightarrow> route list" where
  "sort_routes routes = sort_key (\<lambda>rt. ipr_int (hd (rt_ext_ips rt))) routes"

definition get_route_by_src :: "string \<Rightarrow> (string \<times> route) list \<Rightarrow> route option" where
  "get_route_by_src src_ip results = map_option snd (find (\<lambda>(x, _). x = src_ip) results)"

definition exclude_routes_by_src :: "string list \<Rightarrow> (string \<times> route) list \<Rightarrow> route list" where
  "exclude_routes_by_src src_ips results = map snd (filter (\<lambda>(src, _). src \<notin> set src_ips) results)"

text \<open>
  The route of one source address: the address STUN saw decides whether it is public on this host.
\<close>

definition wan_route :: "af \<Rightarrow> nat option \<Rightarrow> string \<Rightarrow> string option \<Rightarrow> (string \<times> route) option res" where
  "wan_route af interface src_ip wan_ip =
     (case wan_ip of None \<Rightarrow> Ok None
      | Some wan \<Rightarrow>
          rbind (IPRange (IpStr wan) None (Some (int (af_to_cidr af)))) (\<lambda>ext_ipr.
          rbind (IPRange (IpStr src_ip) None (Some (int (af_to_cidr af)))) (\<lambda>nic_ipr.
            let private = (ipr_is_private nic_ipr \<or> src_ip \<noteq> wan);
                nic_ipr = nic_ipr\<lparr>ipr_is_private := private, ipr_is_public := \<not> private\<rparr>
            in rmap (\<lambda>r. Some (src_ip, r)) (Route af [nic_ipr] [ext_ipr] interface True))))"

text \<open>
  \<open>get_routes_with_res\<close>: the interface's addresses split into link locals, private and public ones;
  the STUN look-ups are a function of the source address (an exception is None there); then the
  choice of the routes.
\<close>

record nic_split =
  ns_link_locals :: "iprange list"
  ns_priv :: "iprange list"
  ns_srcs :: "string list"

fun split_nics :: "iprange list \<Rightarrow> nic_split res" where
  "split_nics [] = Ok \<lparr>ns_link_locals = [], ns_priv = [], ns_srcs = []\<rparr>"
| "split_nics (ipr # iprs) =
     rbind (get_value ipr 0) (\<lambda>a.
     rbind (rassert (ipa_int a \<noteq> 0)) (\<lambda>_.
     rbind (ip_norm (IpObj a)) (\<lambda>s.
     rbind (split_nics iprs) (\<lambda>sp.
       if take 2 s \<in> {''fe'', ''fd''} then Ok (sp\<lparr>ns_link_locals := ipr # ns_link_locals sp\<rparr>)
       else if ipr_is_private ipr then Ok (sp\<lparr>ns_priv := ipr # ns_priv sp\<rparr>)
       else rbind (ip_norm (IpStr (ip_str a))) (\<lambda>src. Ok (sp\<lparr>ns_srcs := src # ns_srcs sp\<rparr>))))))"

definition choose_routes ::
  "af \<Rightarrow> nat option \<Rightarrow> iprange list \<Rightarrow> iprange list \<Rightarrow> route option \<Rightarrow> route option \<Rightarrow> route list \<Rightarrow> route list res" where
  "choose_routes af interface priv_iprs link_locals default_route priv_route routes =
     (let priv_ext = (case default_route of Some d \<Rightarrow> Some (rt_ext_ips d)
                      | None \<Rightarrow> map_option rt_ext_ips priv_route)
      in rbind (case priv_ext of
                  Some ext \<Rightarrow> if priv_iprs = [] then Ok routes
                              else rmap (\<lambda>r. routes @ [r]) (Route af priv_iprs ext interface True)
                | None \<Rightarrow> Ok routes) (\<lambda>routes.
           let routes = (if routes = [] then (case default_route of None \<Rightarrow> [] | Some d \<Rightarrow> [d]) else sort_routes routes)
           in Ok (map (set_link_locals link_locals) routes)))"

definition get_routes_with_res ::
  "af \<Rightarrow> nat option \<Rightarrow> iprange list \<Rightarrow> string option \<Rightarrow> (string \<Rightarrow> string option) \<Rightarrow> (route list \<times> iprange list) res" where
  "get_routes_with_res af interface nic_iprs default_nic stun_wan =
     rbind (split_nics nic_iprs) (\<lambda>sp.
     rbind (case ns_priv sp of [] \<Rightarrow> Ok ''''
            | p # _ \<Rightarrow> ip_norm (IpStr (ip_str (ipr_ipa p)))) (\<lambda>priv_src.
     let srcs = ns_srcs sp @ (case default_nic of None \<Rightarrow> [] | Some d \<Rightarrow> [d]) @ (if ns_priv sp = [] then [] else [priv_src]);
         results = strip_none (map (\<lambda>s. case wan_route af interface s (stun_wan s) of Inr r \<Rightarrow> r | Inl _ \<Rightarrow> None) srcs)
     in rbind (case default_nic of None \<Rightarrow> Ok None
               | Some d \<Rightarrow> rbind (IPRange (IpStr d) None (Some (int (af_to_cidr af)))) (\<lambda>ipr.
                   Ok (if list_ex (\<lambda>n. range_intersects (ipr_r n) (ipr_r ipr)) nic_iprs
                       then get_route_by_src d results else None))) (\<lambda>default_route.
        rbind (choose_routes af interface (ns_priv sp) (ns_link_locals sp) default_route
                 (get_route_by_src priv_src results)
                 (exclude_routes_by_src [priv_src, case default_nic of None \<Rightarrow> '''' | Some d \<Rightarrow> d] results)) (\<lambda>routes.
          Ok (routes, ns_link_locals sp)))))"

text \<open>\<open>interfaces_to_rp\<close> for one family: the routes of all interfaces that have a pool for it.\<close>

definition interfaces_to_rp :: "pool option list \<Rightarrow> pool res" where
  "interfaces_to_rp rps =
     rbind (rmap_list (\<lambda>rp. rmap_list route_deepcopy (rp_routes rp)) (strip_none rps)) (\<lambda>ls. RoutePool (concat ls))"

text \<open>The external address of a bind: its own when it is public, otherwise that of the route whose NIC has it.\<close>

fun ext_of_nic :: "iprange \<Rightarrow> route list \<Rightarrow> iprange option" where
  "ext_of_nic nic [] = None"
| "ext_of_nic nic (rt # rts) = (if has_nic_ip nic rt then Some (hd (rt_ext_ips rt)) else ext_of_nic nic rts)"

text \<open>\<open>bind_to_route\<close> from the address of the resolved bind, before the new route is bound to the same port.\<close>

definition bind_to_route :: "af \<Rightarrow> nat option \<Rightarrow> string \<Rightarrow> route list \<Rightarrow> route res" where
  "bind_to_route af interface bind_ip routes =
     rbind (IPRange (IpStr bind_ip) None (Some CIDR_WAN)) (\<lambda>nic_ipr.
     rbind (if ipr_is_public nic_ipr then Ok nic_ipr
            else (case ext_of_nic nic_ipr routes of None \<Rightarrow> Ok nic_ipr | Some e \<Rightarrow> ipr_deepcopy e)) (\<lambda>ext_ipr.
       Route af [nic_ipr] [ext_ipr] interface False))"

section \<open>Route tables\<close>

text \<open>One entry of the parsed tables, with the columns the decisions read.\<close>

record rt_entry =
  re_dest :: string
  re_if :: string
  re_flags :: string
  re_gen_mask :: string
  re_next_hop :: string

definition find_rt_entry :: "string \<Rightarrow> string \<Rightarrow> rt_entry list \<Rightarrow> rt_entry option" where
  "find_rt_entry dest if_name table = find (\<lambda>e. re_dest e = dest \<and> re_if e = if_name) table"

definition darwin_internet_table :: "string \<Rightarrow> rt_entry list \<Rightarrow> bool" where
  "darwin_internet_table if_name table =
     (case find_rt_entry ''default'' if_name table of
        None \<Rightarrow> False
      | Some e \<Rightarrow> CHR ''U'' \<in> set (re_flags e) \<and> CHR ''G'' \<in> set (re_flags e))"

text \<open>The IPv6 scan: an address of ours (prefix 128 on no gateway) that is not private. A bad prefix raises.\<close>

fun linux_v6_scan :: "string \<Rightarrow> rt_entry list \<Rightarrow> bool res" where
  "linux_v6_scan if_name [] = Ok False"
| "linux_v6_scan if_name (e # es) =
     (if re_if e \<noteq> if_name then linux_v6_scan if_name es
      else rbind (py_int 10 (last (split_on CHR ''/'' (re_dest e)))) (\<lambda>cidr.
        if cidr \<noteq> 128 \<or> re_next_hop e \<noteq> ''[::]'' then linux_v6_scan if_name es
        else (case ip_norm (IpStr (re_dest e)) of
                Inl _ \<Rightarrow> linux_v6_scan if_name es
              | Inr s \<Rightarrow> rbind (ip_f (IpStr s)) (\<lambda>a.
                  if ipa_is_private a then linux_v6_scan if_name es else Ok True))))"

definition linux_internet_table :: "string \<Rightarrow> af \<Rightarrow> rt_entry list \<Rightarrow> bool res" where
  "linux_internet_table if_name af table =
     (if af = IP6 then linux_v6_scan if_name table
      else Ok (case find_rt_entry ''default'' if_name table of None \<Rightarrow> False | Some e \<Rightarrow> re_gen_mask e = ''0.0.0.0''))"

definition windows_internet_table :: "string \<Rightarrow> af \<Rightarrow> rt_entry list \<Rightarrow> bool" where
  "windows_internet_table if_index af table =
     (find_rt_entry (if af = IP4 then ''0.0.0.0/0'' else ''::/0'') if_index table \<noteq> None)"

definition is_internet_if :: "(af \<Rightarrow> rt_entry list \<Rightarrow> bool res) \<Rightarrow> (af \<Rightarrow> rt_entry list) \<Rightarrow> bool res" where
  "is_internet_if decide tables =
     rbind (decide IP4 (tables IP4)) (\<lambda>b. if b then Ok True else decide IP6 (tables IP6))"

section \<open>Copies of ranges\<close>

text \<open>A range built from text with its prefix length: what \<open>to_dict\<close> and \<open>deepcopy\<close> have to keep.\<close>

definition mask_val :: "af \<Rightarrow> int \<Rightarrow> nat" where
  "mask_val af c = (2 ^ nat c - 1) * 2 ^ (af_to_cidr af - nat c)"

definition mask_text :: "af \<Rightarrow> int \<Rightarrow> ip_arg" where
  "mask_text af c = IpStr (ip_exploded (mk_ipa af (int (mask_val af c))))"

definition ipr_text :: "iprange \<Rightarrow> bool" where
  "ipr_text r \<longleftrightarrow> (\<exists>a c. ipa_ok a \<and> 0 < c \<and> c \<le> int (af_to_cidr (ipa_af a)) \<and>
     r = ipr_fields (IpStr (ip_exploded a)) a (ipa_af a) c (Some (mask_text (ipa_af a) c)))"

lemma ipr_text_wf: "ipr_text r \<Longrightarrow> ipr_wf r"
  by (auto simp: ipr_text_def intro: ipr_fields_wf)

lemma ipr_mask_text:
  assumes "0 < c" "c \<le> int (af_to_cidr af)"
  shows "ipr_mask (Some c) af None = Inr (c, Some (mask_text af c))"
  using assms cidr_to_netmask_eq [of c af, folded mask_val_def]
  by (auto simp: ipr_mask_def CIDR_WAN_def Let_def af_to_cidr_def mask_text_def split: if_splits)

lemma IPRange_exploded:
  assumes "ipa_ok a" "0 < c" "c \<le> int (af_to_cidr (ipa_af a))"
  shows "IPRange (IpStr (ip_exploded a)) None (Some c) =
    Inr (ipr_fields (IpStr (ip_exploded a)) a (ipa_af a) c (Some (mask_text (ipa_af a) c)))"
proof -
  have "ipr_host_no (ipr_fields (IpStr (ip_exploded a)) a (ipa_af a) c (Some (mask_text (ipa_af a) c))) \<noteq> 0"
    using ipr_host_no_pos [OF ipr_fields_wf [OF assms(1) refl _ assms(3), of "IpStr (ip_exploded a)" "Some (mask_text (ipa_af a) c)"]]
      assms(2) by simp
  then show ?thesis
    using ipr_mask_text [OF assms(2,3)] assms(3)
    by (simp add: IPRange_def ipr_norm_netmask_def ipr_int_af_def ipr_parse_exploded [OF assms(1)] Let_def)
qed

lemma from_dict_text: "ipr_text r \<Longrightarrow> from_dict (to_dict r) = Inr r"
  by (auto simp: ipr_text_def from_dict_def to_dict_def IPRange_exploded)

lemma IPRange_text:
  assumes "ipa_ok a" "0 < c" "c \<le> int (af_to_cidr (ipa_af a))"
  shows "\<exists>r. IPRange (IpStr (ip_exploded a)) None (Some c) = Inr r \<and> ipr_text r \<and> ipr_ipa r = a \<and> ipr_cidr r = c"
  using IPRange_exploded [OF assms] assms by (auto simp: ipr_text_def)

lemma deepcopy_text:
  assumes "ipr_text r" "Some (ipr_ip r) \<noteq> ipr_netmask r"
  shows "ipr_deepcopy r = Inr r"
proof -
  obtain a c where r: "ipa_ok a" "0 < c" "c \<le> int (af_to_cidr (ipa_af a))"
    "r = ipr_fields (IpStr (ip_exploded a)) a (ipa_af a) c (Some (mask_text (ipa_af a) c))"
    using assms(1) by (auto simp: ipr_text_def)
  let ?n = "mask_val (ipa_af a) c"
  let ?m = "mk_ipa (ipa_af a) (int ?n)"
  have "int ?n < 2 ^ af_to_cidr (ipa_af a)"
    using mask_lt [of "nat c" "af_to_cidr (ipa_af a)"] r(2,3) unfolding mask_val_def by linarith
  then have m: "ipa_ok ?m" by (cases "ipa_af a") (simp_all add: af_to_cidr_def)
  have "ip_norm (IpStr (ip_exploded ?m)) = Inr (ip_exploded ?m)" using ip_norm_exploded [OF m] .
  moreover have "hamming_weight ?n = nat c" unfolding mask_val_def by (rule hamming_weight_mask)
  ultimately have "ipr_norm_netmask (Some (mask_text (ipa_af a) c)) = Inr (Some (mask_text (ipa_af a) c))"
    "ipr_mask None (ipa_af a) (Some (mask_text (ipa_af a) c)) = Inr (c, Some (mask_text (ipa_af a) c))"
    using ip_address_exploded [OF m] r(2) by (auto simp: ipr_norm_netmask_def mask_text_def ipr_mask_def)
  moreover have "ipr_host_no r \<noteq> 0" using ipr_host_no_pos [OF ipr_text_wf [OF assms(1)]] by simp
  ultimately show ?thesis
    using r assms(2)
    by (simp add: ipr_deepcopy_def IPRange_def ipr_int_af_def ipr_parse_exploded [OF r(1)] Let_def)
qed

section \<open>The hosts of a pool\<close>

text \<open>
  The external host a route of a single address stands for, the hosts of a route, and the routes the
  theorems are about: ranges built from text, every external host public.
\<close>

definition route_host :: "route \<Rightarrow> ipa" where
  "route_host rt = ipr_ipa (hd (rt_ext_ips rt))"

definition route_hosts :: "route \<Rightarrow> ipa list" where
  "route_hosts rt = host_list (hd (rt_ext_ips rt))"

definition nic_ok :: "af \<Rightarrow> iprange \<Rightarrow> bool" where
  "nic_ok af n \<longleftrightarrow> ipr_text n \<and> Some (ipr_ip n) \<noteq> ipr_netmask n \<and> ipr_af n = af \<and> ipr_host_no n < 2 ^ 63"

definition ext_ok :: "af \<Rightarrow> iprange \<Rightarrow> bool" where
  "ext_ok af x \<longleftrightarrow> ipr_wf x \<and> ipr_af x = af \<and> ipr_host_no x < 2 ^ 63 \<and>
     list_all (\<lambda>a. ipa_int a \<noteq> 0 \<and> \<not> ipa_is_private a) (host_list x)"

definition rt_ok :: "route \<Rightarrow> bool" where
  "rt_ok rt \<longleftrightarrow> rt_nic_ips rt \<noteq> [] \<and> list_all (nic_ok (rt_af rt)) (rt_nic_ips rt) \<and>
     rt_ext_ips rt \<noteq> [] \<and> ext_ok (rt_af rt) (hd (rt_ext_ips rt))"

definition pool_hosts :: "route list \<Rightarrow> ipa list" where
  "pool_hosts rts = concat (map route_hosts rts)"

definition hosts_before :: "route list \<Rightarrow> nat \<Rightarrow> nat" where
  "hosts_before rts i = length (pool_hosts (take i rts))"

lemma route_set_offsets_sel [simp]:
  "rt_af (route_set_offsets r h rt) = rt_af rt" "rt_nic_ips (route_set_offsets r h rt) = rt_nic_ips rt"
  "rt_ext_ips (route_set_offsets r h rt) = rt_ext_ips rt" "rt_interface (route_set_offsets r h rt) = rt_interface rt"
  "rt_route_offset (route_set_offsets r h rt) = Some r" "rt_host_offset (route_set_offsets r h rt) = h"
  "rt_ok (route_set_offsets r h rt) = rt_ok rt" "route_hosts (route_set_offsets r h rt) = route_hosts rt"
  by (simp_all add: route_set_offsets_def rt_ok_def route_hosts_def)

lemma rt_ok_hosts:
  assumes "rt_ok rt"
  shows "int (length (route_hosts rt)) = ipr_host_no (hd (rt_ext_ips rt))" "0 < length (route_hosts rt)"
    "route_len rt = Inr (int (length (route_hosts rt)))"
proof -
  have wf: "ipr_wf (hd (rt_ext_ips rt))" "ipr_host_no (hd (rt_ext_ips rt)) < 2 ^ 63" "rt_ext_ips rt \<noteq> []"
    using assms by (auto simp: rt_ok_def ext_ok_def)
  note p = ipr_host_no_pos [OF wf(1)] host_list_length [OF wf(1)]
  show l: "int (length (route_hosts rt)) = ipr_host_no (hd (rt_ext_ips rt))" and "0 < length (route_hosts rt)"
    using p by (auto simp: route_hosts_def)
  show "route_len rt = Inr (int (length (route_hosts rt)))"
    unfolding l using wf(2,3) by (cases "rt_ext_ips rt") (auto simp: route_len_def ipr_len_def)
qed

lemma get_value_mem:
  assumes "ipr_wf r"
  shows "\<exists>a \<in> set (host_list r). get_value r i = Inr a"
proof (cases "ipr_cidr r < ipr_max r")
  case True
  obtain n where n: "get_value r i = Inr (mk_ipa (ipr_af r) n)" "ipr_i_nw r < n" "n \<le> ipr_i_nw r + ipr_host_no r"
    using get_value_host [OF assms True] by blast
  have "mk_ipa (ipr_af r) n = host_list r ! nat (n - ipr_i_nw r - 1)" "nat (n - ipr_i_nw r - 1) < length (host_list r)"
    using True n(2,3) by (simp_all add: host_list_def)
  then show ?thesis using n(1) by (metis nth_mem)
next
  case False
  then have "ipr_cidr r = ipr_max r" using assms by (simp add: ipr_wf_def)
  then show ?thesis using get_value_single [OF assms] by (simp add: host_list_def)
qed

lemma hosts_before_0 [simp]: "hosts_before rts 0 = 0"
  by (simp add: hosts_before_def pool_hosts_def)

lemma hosts_before_Suc:
  "i < length rts \<Longrightarrow> hosts_before rts (Suc i) = hosts_before rts i + length (route_hosts (rts ! i))"
  by (simp add: hosts_before_def pool_hosts_def take_Suc_conv_app_nth)

lemma hosts_before_all: "hosts_before rts (length rts) = length (pool_hosts rts)"
  by (simp add: hosts_before_def)

lemma hosts_before_mono: "i \<le> j \<Longrightarrow> j \<le> length rts \<Longrightarrow> hosts_before rts i \<le> hosts_before rts j"
  by (induction j rule: dec_induct) (simp_all add: hosts_before_Suc)

lemma pool_hosts_nth:
  assumes "i < length rts" "hosts_before rts i \<le> k" "k < hosts_before rts (Suc i)"
  shows "pool_hosts rts ! k = route_hosts (rts ! i) ! (k - hosts_before rts i)"
proof -
  have "pool_hosts rts = pool_hosts (take i rts) @ route_hosts (rts ! i) @ pool_hosts (drop (Suc i) rts)"
    by (subst id_take_nth_drop [OF assms(1)]) (simp add: pool_hosts_def)
  moreover have "k - hosts_before rts i < length (route_hosts (rts ! i))"
    using assms by (simp add: hosts_before_Suc)
  ultimately show ?thesis using assms(2) by (simp add: hosts_before_def nth_append)
qed

lemma rp_lengths_eq:
  "list_all rt_ok rts \<Longrightarrow> rp_lengths w rts = Inr (map (\<lambda>i. w + int (hosts_before rts (Suc i))) [0..<length rts])"
proof (induction rts arbitrary: w)
  case (Cons rt rts)
  have *: "hosts_before (rt # rts) (Suc i) = length (route_hosts rt) + hosts_before rts i" for i
    by (simp add: hosts_before_def pool_hosts_def)
  have "map (\<lambda>i. w + int (hosts_before (rt # rts) (Suc i))) [0..<length (rt # rts)] =
      (w + int (length (route_hosts rt))) #
      map (\<lambda>i. (w + int (length (route_hosts rt))) + int (hosts_before rts (Suc i))) [0..<length rts]"
    by (rule nth_equalityI) (auto simp: * nth_Cons' add.assoc simp del: upt_Suc)
  then show ?case using Cons by (simp add: rt_ok_hosts)
qed simp

text \<open>What the constructor builds from such routes.\<close>

lemma RoutePool_eq:
  assumes "list_all rt_ok rts"
  shows "\<exists>rp. RoutePool rts = Inr rp \<and> length (rp_routes rp) = length rts \<and>
    (\<forall>i < length rts. rp_routes rp ! i = route_set_offsets i None (rts ! i) \<and>
       rp_len_list rp ! i = int (hosts_before rts (Suc i))) \<and> length (rp_len_list rp) = length rts \<and>
    rp_wan_hosts rp = int (length (pool_hosts rts)) \<and> rp_pop rp = 0"
proof -
  have "last (map (\<lambda>i. int (hosts_before rts (Suc i))) [0..<length rts]) = int (length (pool_hosts rts))" if "rts \<noteq> []"
    using that by (simp add: last_conv_nth hosts_before_all)
  moreover have "map (\<lambda>(i, rt). route_set_offsets i None rt) (enumerate 0 rts) ! i = route_set_offsets i None (rts ! i)"
    if "i < length rts" for i using that by (simp add: nth_enumerate_eq)
  ultimately show ?thesis
    using rp_lengths_eq [OF assms, of 0]
    by (cases "rts = []") (auto simp: RoutePool_def pool_hosts_def)
qed

lemma ipr_host_no_wan: "ipr_host_no (ipr_fields i a af (int (af_to_cidr af)) m) = 1"
  by (simp add: ipr_fields_def Let_def)

lemma host_list_ok:
  assumes "ipr_wf r" "a \<in> set (host_list r)"
  shows "ipa_ok a \<and> ipa_af a = ipr_af r"
proof -
  have mk: "ipa_ok (mk_ipa af n) \<and> ipa_af (mk_ipa af n) = af" if "0 \<le> n" "n < 2 ^ af_to_cidr af" for af n
    using that by (cases af) (auto simp: ipa_af_def v_to_af_def af_to_cidr_def)
  note b = ipr_block [OF assms(1)] and h = ipr_host_no_pos [OF assms(1)]
  show ?thesis
  proof (cases "ipr_cidr r = ipr_max r")
    case True
    then show ?thesis using assms(2) b by (auto simp: host_list_def ipr_hosts_def intro!: mk)
  next
    case False
    then have "ipr_host_no r < ipr_hosts r" using h assms(1) by (auto simp: ipr_wf_def)
    then show ?thesis using assms(2) b False by (auto simp: host_list_def intro!: mk)
  qed
qed

lemma Route_of_host:
  assumes "rt_ok rt" "a \<in> set (route_hosts rt)"
  shows "\<exists>w. IPRange (IpStr (ip_str a)) None (Some CIDR_WAN) = Inr w \<and> ipr_ipa w = a \<and>
    Route (rt_af rt) (rt_nic_ips rt) [w] i True =
      Inr \<lparr>rt_af = rt_af rt, rt_nic_ips = rt_nic_ips rt, rt_ext_ips = [w], rt_link_locals = [], rt_interface = i,
           rt_route_offset = None, rt_host_offset = None\<rparr>"
proof -
  let ?x = "hd (rt_ext_ips rt)"
  have x: "ipr_wf ?x" "ipr_af ?x = rt_af rt" "ipa_int a \<noteq> 0" "\<not> ipa_is_private a"
    and nics: "rt_nic_ips rt \<noteq> []" "list_all (\<lambda>n. ipr_af n = rt_af rt) (rt_nic_ips rt)"
    using assms by (auto simp: rt_ok_def ext_ok_def route_hosts_def nic_ok_def list_all_iff)
  have a: "ipa_ok a" "ipa_af a = rt_af rt"
    using host_list_ok [OF x(1)] assms(2) x(2) by (auto simp: route_hosts_def)
  obtain m where m: "IPRange (IpStr (ip_str a)) None (Some CIDR_WAN) =
      Inr (ipr_fields (IpStr (ip_exploded a)) a (ipa_af a) (int (af_to_cidr (ipa_af a))) (Some (IpStr m)))"
    using IPRange_wan [OF a(1)] by blast
  show ?thesis
    using m a(2) x(3,4) nics
    by (intro exI [of _ "ipr_fields (IpStr (ip_exploded a)) a (ipa_af a) (int (af_to_cidr (ipa_af a))) (Some (IpStr m))"])
       (simp add: Route_def ipr_fields_def Let_def)
qed


lemma rmap_list_id: "list_all (\<lambda>x. f x = Inr x) xs \<Longrightarrow> rmap_list f xs = Inr xs"
  by (induction xs) auto

lemma nics_deepcopy: "list_all (nic_ok af) nics \<Longrightarrow> rmap_list ipr_deepcopy nics = Inr nics"
  by (rule rmap_list_id) (auto simp: list_all_iff nic_ok_def intro: deepcopy_text)

text \<open>What \<open>RoutePool_eq\<close> says of a pool, as one predicate.\<close>

definition pool_of :: "route list \<Rightarrow> pool \<Rightarrow> bool" where
  "pool_of rts rp \<longleftrightarrow> list_all rt_ok rts \<and> length (rp_routes rp) = length rts \<and>
    (\<forall>i < length rts. rp_routes rp ! i = route_set_offsets i None (rts ! i) \<and>
       rp_len_list rp ! i = int (hosts_before rts (Suc i))) \<and> length (rp_len_list rp) = length rts \<and>
    rp_wan_hosts rp = int (length (pool_hosts rts)) \<and> rp_pop rp = 0"

lemma RoutePool_pool_of: "list_all rt_ok rts \<Longrightarrow> \<exists>rp. RoutePool rts = Inr rp \<and> pool_of rts rp"
  using RoutePool_eq [of rts] by (auto simp: pool_of_def)

text \<open>The route handed out for a host: its address, the NICs of its route, and both offsets.\<close>

definition host_route :: "route list \<Rightarrow> nat \<Rightarrow> int \<Rightarrow> ipa \<Rightarrow> route \<Rightarrow> bool" where
  "host_route rts off pos a r \<longleftrightarrow> route_host r = a \<and> rt_nic_ips r = rt_nic_ips (rts ! off) \<and>
     rt_af r = rt_af (rts ! off) \<and> rt_route_offset r = Some off \<and> rt_host_offset r = Some pos"

lemma get_route_info_value:
  assumes rp: "pool_of rts rp" and off: "off < length rts" and pos: "0 \<le> pos" "pos < int (hosts_before rts (Suc off))"
    and v: "get_value (hd (rt_ext_ips (rts ! off))) ((pos - int (hosts_before rts off)) mod rp_wan_hosts rp) = Inr a"
      "a \<in> set (route_hosts (rts ! off))"
  shows "\<exists>r. get_route_info rp off pos = Inr r \<and> host_route rts off pos a r"
proof -
  let ?rt = "rts ! off"
  have ok: "rt_ok ?rt" using rp off by (simp add: pool_of_def list_all_length)
  have prev: "(if off \<noteq> 0 then rp_len_list rp ! (off - 1) else 0) = int (hosts_before rts off)"
    using rp off by (cases off) (auto simp: pool_of_def)
  have "hosts_before rts (Suc off) \<le> length (pool_hosts rts)"
    using hosts_before_mono [of "Suc off" "length rts" rts] off by (simp add: hosts_before_all)
  then have as: "pos - int (hosts_before rts off) \<le> rp_len_list rp ! off - 1"
    "pos - int (hosts_before rts off) + 1 \<le> rp_wan_hosts rp"
    using rp off pos by (auto simp: pool_of_def)
  obtain n ns x xs where n: "rt_nic_ips ?rt = n # ns" "rt_ext_ips ?rt = x # xs"
    using ok by (auto simp: rt_ok_def neq_Nil_conv)
  have len: "ipr_len x = Inr (ipr_host_no x)" "ipr_host_no x \<noteq> 0" "ipr_len n = Inr (ipr_host_no n)" "ipr_host_no n \<noteq> 0"
    using ok n ipr_host_no_pos [of x] ipr_host_no_pos [OF ipr_text_wf, of n]
    by (auto simp: rt_ok_def ext_ok_def nic_ok_def ipr_len_def)
  obtain w where w: "IPRange (IpStr (ip_str a)) None (Some CIDR_WAN) = Inr w" "ipr_ipa w = a"
    "Route (rt_af ?rt) (rt_nic_ips ?rt) [w] (rt_interface ?rt) True =
      Inr \<lparr>rt_af = rt_af ?rt, rt_nic_ips = rt_nic_ips ?rt, rt_ext_ips = [w], rt_link_locals = [],
           rt_interface = rt_interface ?rt, rt_route_offset = None, rt_host_offset = None\<rparr>"
    using Route_of_host [OF ok v(2), of "rt_interface ?rt"] by blast
  have rt: "rp_routes rp ! off = route_set_offsets off None ?rt" "int off \<le> int (length (rp_routes rp)) - 1"
    using rp off by (auto simp: pool_of_def)
  have nics: "rmap_list ipr_deepcopy (n # ns) = Inr (n # ns)"
    using nics_deepcopy [of "rt_af ?rt" "n # ns"] ok n(1) by (simp only: rt_ok_def)
  show ?thesis
    unfolding get_route_info_def Let_def prev rt(1)
    using rt(2) as len v(1) w nics n by (simp add: first_of_def py_get_def host_route_def route_host_def)
qed

text \<open>A position inside the pool gives the host the concatenation of the host lists has there.\<close>

lemma get_route_info_nth:
  assumes rp: "pool_of rts rp" and off: "off < length rts"
    and k: "hosts_before rts off \<le> k" "k < hosts_before rts (Suc off)"
  shows "\<exists>r. get_route_info rp off (int k) = Inr r \<and> host_route rts off (int k) (pool_hosts rts ! k) r"
proof (rule get_route_info_value [OF rp off])
  let ?x = "hd (rt_ext_ips (rts ! off))" and ?j = "k - hosts_before rts off"
  have wf: "ipr_wf ?x" using rp off by (auto simp: pool_of_def list_all_length rt_ok_def ext_ok_def)
  have "hosts_before rts (Suc off) \<le> length (pool_hosts rts)"
    using hosts_before_mono [of "Suc off" "length rts" rts] off by (simp add: hosts_before_all)
  then have "(int k - int (hosts_before rts off)) mod rp_wan_hosts rp = int ?j"
    using rp k by (simp add: pool_of_def of_nat_diff)
  moreover have j: "?j < length (host_list ?x)" using k off by (simp add: hosts_before_Suc route_hosts_def)
  moreover have "host_list ?x ! ?j = pool_hosts rts ! k" using pool_hosts_nth [OF off k] by (simp add: route_hosts_def)
  ultimately show "get_value ?x ((int k - int (hosts_before rts off)) mod rp_wan_hosts rp) = Inr (pool_hosts rts ! k)"
    "pool_hosts rts ! k \<in> set (route_hosts (rts ! off))"
    using get_value_host_list [OF wf j] nth_mem [OF j] by (auto simp: route_hosts_def)
qed (use k in auto)

lemma hosts_before_less: "pool_of rts rp \<Longrightarrow> i < length rts \<Longrightarrow> hosts_before rts i < hosts_before rts (Suc i)"
  using rt_ok_hosts(2) [of "rts ! i"] by (simp add: hosts_before_Suc pool_of_def list_all_length)

lemma hosts_before_sorted: "pool_of rts rp \<Longrightarrow> i < j \<Longrightarrow> j \<le> length rts \<Longrightarrow> hosts_before rts i < hosts_before rts j"
  using hosts_before_less [of rts rp i] hosts_before_mono [of "Suc i" j rts] by simp

text \<open>The forward iteration, from any consistent position.\<close>

lemma rp_iterate_forward:
  assumes rp: "pool_of rts rp"
  shows "\<lbrakk>k = length (pool_hosts rts) \<or> off < length rts \<and> hosts_before rts off \<le> k \<and> k < hosts_before rts (Suc off);
    length (pool_hosts rts) < k + fuel\<rbrakk> \<Longrightarrow>
   \<exists>rs. rp_iterate rp fuel \<lparr>it_reverse = False, it_host_p = int k, it_route_offset = int off\<rparr> = Inr rs \<and>
        map route_host rs = drop k (pool_hosts rts) \<and> (\<forall>j < length rs. rt_host_offset (rs ! j) = Some (int (k + j)))"
proof (induction fuel arbitrary: k off)
  case 0
  then show ?case
    using hosts_before_mono [of "Suc off" "length rts" rts] by (auto simp: hosts_before_all)
next
  case (Suc fuel)
  have w: "rp_wan_hosts rp = int (length (pool_hosts rts))" "length (rp_routes rp) = length rts"
    using rp by (auto simp: pool_of_def)
  show ?case
  proof (cases "k = length (pool_hosts rts)")
    case True
    then show ?thesis using w by (simp add: rp_iter_next_def)
  next
    case False
    then have off: "off < length rts" "hosts_before rts off \<le> k" "k < hosts_before rts (Suc off)"
      using Suc.prems(1) by auto
    have kl: "k < length (pool_hosts rts)"
      using off hosts_before_mono [of "Suc off" "length rts" rts] by (simp add: hosts_before_all)
    obtain r where r: "get_route_info rp off (int k) = Inr r" "host_route rts off (int k) (pool_hosts rts ! k) r"
      using get_route_info_nth [OF rp off] by blast
    have len: "rp_len_list rp ! off = int (hosts_before rts (Suc off))" using rp off(1) by (simp add: pool_of_def)
    define off' where "off' = (if hosts_before rts (Suc off) \<le> Suc k \<and> Suc off < length rts then Suc off else off)"
    have nxt: "rp_iter_next rp \<lparr>it_reverse = False, it_host_p = int k, it_route_offset = int off\<rparr> =
        Inr (Some (r, \<lparr>it_reverse = False, it_host_p = int (Suc k), it_route_offset = int off'\<rparr>))"
      using r kl w len off(1) by (simp add: rp_iter_next_def off'_def Let_def)
    note pos = hosts_before_less [OF rp]
    have "Suc k = length (pool_hosts rts) \<or>
        off' < length rts \<and> hosts_before rts off' \<le> Suc k \<and> Suc k < hosts_before rts (Suc off')"
    proof (cases "hosts_before rts (Suc off) \<le> Suc k")
      case True
      then have sk: "Suc k = hosts_before rts (Suc off)" using off(3) by simp
      show ?thesis
      proof (cases "Suc off < length rts")
        case True
        then show ?thesis using sk pos [of "Suc off"] by (simp add: off'_def)
      next
        case False
        then have "Suc off = length rts" using off(1) by simp
        then show ?thesis using sk hosts_before_all [of rts] by simp
      qed
    next
      case False
      then show ?thesis using off by (simp add: off'_def)
    qed
    then obtain rs where rs: "rp_iterate rp fuel \<lparr>it_reverse = False, it_host_p = int (Suc k), it_route_offset = int off'\<rparr> = Inr rs"
      "map route_host rs = drop (Suc k) (pool_hosts rts)"
      "\<forall>j < length rs. rt_host_offset (rs ! j) = Some (int (Suc k + j))"
      using Suc.IH [of "Suc k" off'] Suc.prems(2) by auto
    have "\<forall>j < length (r # rs). rt_host_offset ((r # rs) ! j) = Some (int (k + j))"
      using rs(3) r(2) by (auto simp: host_route_def nth_Cons split: nat.splits)
    then show ?thesis
      using nxt rs r(2) Cons_nth_drop_Suc [OF kl]
      by (intro exI [of _ "r # rs"]) (simp add: host_route_def)
  qed
qed

text \<open>The reversed iteration stays at the last route.\<close>

lemma rp_iterate_reversed:
  assumes rp: "pool_of rts rp" and ne: "rts \<noteq> []" and size: "length (pool_hosts rts) < 2 ^ 63"
  shows "k \<le> length (pool_hosts rts) \<Longrightarrow> length (pool_hosts rts) < k + fuel \<Longrightarrow>
   \<exists>rs. rp_iterate rp fuel \<lparr>it_reverse = True, it_host_p = int k, it_route_offset = int (length rts) - 1\<rparr> = Inr rs \<and>
        length rs = length (pool_hosts rts) - k \<and> (\<forall>r \<in> set rs. route_host r \<in> set (route_hosts (last rts)))"
proof (induction fuel arbitrary: k)
  case (Suc fuel)
  let ?off = "length rts - 1"
  have off: "?off < length rts" "Suc ?off = length rts" "int (length rts) - 1 = int ?off" using ne by (auto simp: Suc_le_eq)
  have w: "rp_wan_hosts rp = int (length (pool_hosts rts))" "length (rp_routes rp) = length rts"
    "rp_len_list rp ! ?off = int (length (pool_hosts rts))"
    using rp off hosts_before_all [of rts] by (auto simp: pool_of_def)
  show ?case
  proof (cases "k = length (pool_hosts rts)")
    case True
    then show ?thesis using w by (simp add: rp_iter_next_def)
  next
    case False
    then have kl: "k < length (pool_hosts rts)" using Suc.prems(1) by simp
    let ?x = "hd (rt_ext_ips (rts ! ?off))"
    have wf: "ipr_wf ?x" using rp off by (auto simp: pool_of_def list_all_length rt_ok_def ext_ok_def)
    obtain a where a: "a \<in> set (route_hosts (rts ! ?off))"
      "get_value ?x ((int k - int (hosts_before rts ?off)) mod rp_wan_hosts rp) = Inr a"
      using get_value_mem [OF wf] by (auto simp: route_hosts_def)
    have "int k < int (hosts_before rts (Suc ?off))" using kl off(2) hosts_before_all [of rts] by simp
    then obtain r where r: "get_route_info rp ?off (int k) = Inr r" "host_route rts ?off (int k) a r"
      using get_route_info_value [OF rp off(1) _ _ a(2,1)] by auto
    obtain o' where nxt: "rp_iter_next rp \<lparr>it_reverse = True, it_host_p = int k, it_route_offset = int (length rts) - 1\<rparr> =
        Inr (Some (r, \<lparr>it_reverse = True, it_host_p = int (Suc k), it_route_offset = o'\<rparr>))"
      "Suc k < length (pool_hosts rts) \<Longrightarrow> o' = int (length rts) - 1"
      unfolding off(3) using r(1) w kl size by (simp add: rp_iter_next_def rp_size_def Let_def)
    have last: "rts ! ?off = last rts" using ne by (simp add: last_conv_nth)
    show ?thesis
    proof (cases "Suc k = length (pool_hosts rts)")
      case True
      obtain f where f: "fuel = Suc f" using Suc.prems(2) True by (cases fuel) auto
      have "rp_iterate rp (Suc fuel) \<lparr>it_reverse = True, it_host_p = int k, it_route_offset = int (length rts) - 1\<rparr> = Inr [r]"
        using nxt(1) w(1) True f by (simp add: rp_iter_next_def)
      then show ?thesis using True a(1) r(2) last by (auto simp: host_route_def)
    next
      case False
      obtain rs where rs: "rp_iterate rp fuel \<lparr>it_reverse = True, it_host_p = int (Suc k), it_route_offset = int (length rts) - 1\<rparr> = Inr rs"
        "length rs = length (pool_hosts rts) - Suc k" "\<forall>r \<in> set rs. route_host r \<in> set (route_hosts (last rts))"
        using Suc.IH [of "Suc k"] Suc.prems(2) kl by auto
      have "rp_iterate rp (Suc fuel) \<lparr>it_reverse = True, it_host_p = int k, it_route_offset = int (length rts) - 1\<rparr> = Inr (r # rs)"
        using nxt kl False rs(1) by simp
      then show ?thesis using kl a(1) r(2) last rs(2,3) by (intro exI [of _ "r # rs"]) (auto simp: host_route_def)
    qed
  qed
qed simp

text \<open>Indexing, through the search in the cumulative lengths.\<close>

lemma rp_get_nth:
  assumes rp: "pool_of rts rp" and few: "length rts \<le> 6" and k: "k < length (pool_hosts rts)"
  shows "\<exists>off r. rp_get rp (int k) = Inr (Some r) \<and> host_route rts off (int k) (pool_hosts rts ! k) r"
proof -
  let ?ns = "rp_len_list rp"
  have len: "length ?ns = length rts" "\<And>i. i < length rts \<Longrightarrow> ?ns ! i = int (hosts_before rts (Suc i))"
    and w: "rp_wan_hosts rp = int (length (pool_hosts rts))" using rp by (auto simp: pool_of_def)
  have ne: "rts \<noteq> []" using k by (auto simp: pool_hosts_def)
  have "sorted_wrt (<) ?ns"
    using len hosts_before_sorted [OF rp] by (auto simp: sorted_wrt_iff_nth_less)
  moreover have "last ?ns = ?ns ! (length rts - 1)" using ne len(1) by (subst last_conv_nth) auto
  then have "int k + 1 \<le> last ?ns"
    using ne len(2) [of "length rts - 1"] k hosts_before_all [of rts] by simp
  ultimately obtain j where j: "sorted_search ?ns (int k + 1) None = Inr (Some j)" "j < length ?ns"
    "int k + 1 \<le> ?ns ! j" "\<forall>i < j. ?ns ! i < int k + 1"
    using sorted_search_first [of ?ns "int k + 1"] ne len(1) few by (metis length_0_conv)
  have "hosts_before rts j \<le> k"
    using j(2,4) len by (cases j) auto
  moreover have "k < hosts_before rts (Suc j)" using j(2,3) len by simp
  ultimately obtain r where "get_route_info rp j (int k) = Inr r" "host_route rts j (int k) (pool_hosts rts ! k) r"
    using get_route_info_nth [OF rp, of j k] j(2) len(1) by auto
  then show ?thesis using j(1) w k by (auto simp: rp_get_def)
qed

text \<open>Serialisation keeps the addresses; the interface and the offsets are not part of it.\<close>

definition rt_serial :: "route \<Rightarrow> bool" where
  "rt_serial rt \<longleftrightarrow> rt_nic_ips rt \<noteq> [] \<and> rt_ext_ips rt \<noteq> [] \<and>
     list_all (\<lambda>n. ipr_text n \<and> ipr_af n = rt_af rt) (rt_nic_ips rt) \<and>
     list_all ipr_text (rt_ext_ips rt) \<and> list_all ipr_text (rt_link_locals rt) \<and>
     ipr_af (hd (rt_ext_ips rt)) = rt_af rt \<and> ipr_i_ip (hd (rt_ext_ips rt)) \<noteq> 0"

definition rt_bare :: "route \<Rightarrow> route" where
  "rt_bare rt = rt\<lparr>rt_interface := None, rt_route_offset := None, rt_host_offset := None\<rparr>"

lemma from_dict_list: "list_all ipr_text xs \<Longrightarrow> rmap_list from_dict (map to_dict xs) = Inr xs"
  by (induction xs) (auto simp: from_dict_text)

lemma route_from_dict_eq:
  assumes "rt_serial rt"
  shows "route_from_dict (route_to_dict rt) =
    (if ipr_is_public (hd (rt_ext_ips rt)) then Inr (rt_bare rt) else Inl AssertionError)"
proof -
  have "list_all ipr_text (rt_nic_ips rt)" "list_all (\<lambda>i. ipr_af i = rt_af rt) (rt_nic_ips rt)"
    using assms by (auto simp: rt_serial_def list_all_iff)
  then show ?thesis
    using assms
    by (simp add: route_from_dict_def route_to_dict_def rt_serial_def from_dict_list Route_def rt_bare_def
        set_link_locals_def)
qed

lemma rp_from_dict_eq:
  assumes "list_all (\<lambda>rt. rt_serial rt \<and> ipr_is_public (hd (rt_ext_ips rt))) rts"
  shows "rp_from_dict (map route_to_dict rts) = RoutePool (map rt_bare rts)"
proof -
  have "rmap_list route_from_dict (map route_to_dict rts) = Inr (map rt_bare rts)"
    using assms by (induction rts) (auto simp: route_from_dict_eq)
  then show ?thesis by (simp add: rp_from_dict_def)
qed

lemma route_to_dict_offsets [simp]: "route_to_dict (route_set_offsets i h rt) = route_to_dict rt"
  by (simp add: route_to_dict_def route_set_offsets_def)

lemma rp_to_dict_RoutePool: "RoutePool rts = Inr rp \<Longrightarrow> rp_to_dict rp = map route_to_dict rts"
  by (auto simp: RoutePool_def rbind_eq_Ok rp_to_dict_def nth_enumerate_eq intro!: nth_equalityI)

lemma route_hosts_bare [simp]: "route_hosts (rt_bare rt) = route_hosts rt"
  by (simp add: route_hosts_def rt_bare_def)

lemma pool_hosts_bare [simp]: "pool_hosts (map rt_bare rts) = pool_hosts rts"
  by (simp add: pool_hosts_def comp_def)

lemma rt_ok_bare [simp]: "rt_ok (rt_bare rt) = rt_ok rt"
  by (simp add: rt_ok_def rt_bare_def)

text \<open>Two routes for the examples: one external host and a block of two, on private addresses.\<close>

definition ex_ipr :: "int \<Rightarrow> int \<Rightarrow> iprange" where
  "ex_ipr n c = ipr_fields (IpStr (ip_exploded (IPv4Address n))) (IPv4Address n) IP4 c (Some (mask_text IP4 c))"

definition ex_route :: "int \<Rightarrow> int \<Rightarrow> route" where
  "ex_route n c = \<lparr>rt_af = IP4, rt_nic_ips = [ex_ipr 0xC0A80001 32], rt_ext_ips = [ex_ipr n c], rt_link_locals = [],
     rt_interface = Some 0, rt_route_offset = None, rt_host_offset = None\<rparr>"

lemma ex_ipr_text: "0 \<le> n \<Longrightarrow> n < 2 ^ 32 \<Longrightarrow> 0 < c \<Longrightarrow> c \<le> 32 \<Longrightarrow> ipr_text (ex_ipr n c)"
  unfolding ipr_text_def
  by (intro exI [of _ "IPv4Address n"] exI [of _ c]) (simp add: ex_ipr_def ipa_af_def v_to_af_def af_to_cidr_def)

lemma ex_route_ok:
  assumes "0 < n" "n < 2 ^ 32" "ext_ok IP4 (ex_ipr n c)"
  shows "rt_ok (ex_route n c)"
proof -
  have "nic_ok IP4 (ex_ipr 0xC0A80001 32)"
    using ex_ipr_text [of "0xC0A80001" 32]
    by (simp add: nic_ok_def) (simp add: ex_ipr_def mask_text_def mask_val_def ipr_fields_def Let_def af_to_cidr_def eval_simps)
  then show ?thesis using assms by (simp add: rt_ok_def ex_route_def)
qed

lemma ex_routes:
  "rt_ok (ex_route 0x08080808 32)" "rt_ok (ex_route 0x01010100 30)"
  "route_hosts (ex_route 0x08080808 32) = [IPv4Address 0x08080808]"
  "route_hosts (ex_route 0x01010100 30) = [IPv4Address 0x01010101, IPv4Address 0x01010102, IPv4Address 0x01010103]"
proof -
  have "ext_ok IP4 (ex_ipr 0x08080808 32)" "ext_ok IP4 (ex_ipr 0x01010100 30)"
    using ipr_text_wf [OF ex_ipr_text [of "0x08080808" 32]] ipr_text_wf [OF ex_ipr_text [of "0x01010100" 30]]
    by (simp_all add: ext_ok_def, simp_all add: ex_ipr_def host_list_def ipr_max_def ipr_fields_def Let_def
        af_to_cidr_def get_bits_mod private_v4_def in_net_def eval_simps)
  then show "rt_ok (ex_route 0x08080808 32)" "rt_ok (ex_route 0x01010100 30)"
    by (simp_all add: ex_route_ok)
  show "route_hosts (ex_route 0x08080808 32) = [IPv4Address 0x08080808]"
    "route_hosts (ex_route 0x01010100 30) = [IPv4Address 0x01010101, IPv4Address 0x01010102, IPv4Address 0x01010103]"
    by (simp_all add: route_hosts_def ex_route_def ex_ipr_def host_list_def ipr_max_def ipr_fields_def Let_def
        af_to_cidr_def get_bits_mod upt_rec)
qed

section \<open>Properties\<close>

text \<open>C24: a pool reads as the hosts of the first external range of each of its routes, one route after the other in
  the order given: iterating it yields exactly this list and then stops, and with at most six routes indexing from
  either end agrees. An address that several routes have comes as often as they have it, although the constructor
  means to avoid duplicate routes.\<close>

theorem route_pool_hosts:
  assumes "list_all rt_ok rts" and "n = length (pool_hosts rts)"
  shows "\<exists>rp rs. RoutePool rts = Inr rp \<and> rp_size rp = (if int n < 2 ^ 63 then Inr (int n) else Inl OverflowError) \<and>
    rp_iterate rp (Suc n) (RoutePoolIter rp False) = Inr rs \<and> map route_host rs = pool_hosts rts \<and>
    (length rts \<le> 6 \<longrightarrow> (\<forall>k < n. \<exists>r. rp_get rp (int k) = Inr (Some r) \<and>
       rp_get rp (int k - int n) = Inr (Some r) \<and> route_host r = pool_hosts rts ! k))"
proof -
  obtain rp where rp: "RoutePool rts = Inr rp" "pool_of rts rp" using RoutePool_pool_of [OF assms(1)] by blast
  have w: "rp_wan_hosts rp = int n" using rp(2) assms(2) by (simp add: pool_of_def)
  have "n = 0 \<or> 0 < length rts \<and> hosts_before rts 0 \<le> 0 \<and> 0 < hosts_before rts (Suc 0)"
    using hosts_before_less [OF rp(2), of 0] assms(2) by (cases rts) (auto simp: pool_hosts_def)
  then obtain rs where rs: "rp_iterate rp (Suc n) (RoutePoolIter rp False) = Inr rs" "map route_host rs = pool_hosts rts"
    using rp_iterate_forward [OF rp(2), of 0 0 "Suc n"] assms(2) by (auto simp: RoutePoolIter_def)
  have "\<exists>r. rp_get rp (int k) = Inr (Some r) \<and> rp_get rp (int k - int n) = Inr (Some r) \<and> route_host r = pool_hosts rts ! k"
    if "length rts \<le> 6" "k < n" for k
  proof -
    have "(int k - int n) mod int n = int k" using that(2) by (simp add: mod_diff_right_eq [symmetric])
    then have "rp_get rp (int k - int n) = rp_get rp (int k)" using that(2) w by (simp add: rp_get_def)
    then show ?thesis using rp_get_nth [OF rp(2) that(1), of k] that(2) assms(2) by (auto simp: host_route_def)
  qed
  then show ?thesis using rp(1) rs w by (auto simp: rp_size_def)
qed

theorem route_pool_hosts_witness:
  "\<exists>rp rs. RoutePool [ex_route 0x08080808 32, ex_route 0x01010100 30, ex_route 0x08080808 32] = Inr rp \<and>
     rp_iterate rp 6 (RoutePoolIter rp False) = Inr rs \<and>
     map route_host rs = [IPv4Address 0x08080808, IPv4Address 0x01010101, IPv4Address 0x01010102, IPv4Address 0x01010103,
       IPv4Address 0x08080808]"
  using route_pool_hosts [of "[ex_route 0x08080808 32, ex_route 0x01010100 30, ex_route 0x08080808 32]" 5] ex_routes
  by (auto simp: pool_hosts_def numeral_eq_Suc)

text \<open>\<open>reversed\<close> on a pool yields as many routes as the pool has hosts, but all of them are hosts of
  the last route, so no other route is ever reached.\<close>

theorem reversed_pool_last_route:
  assumes "list_all rt_ok rts" and "rts \<noteq> []" and "length (pool_hosts rts) < 2 ^ 63"
  shows "\<exists>rp rs. RoutePool rts = Inr rp \<and>
    rp_iterate rp (Suc (length (pool_hosts rts))) (RoutePoolIter rp True) = Inr rs \<and>
    length rs = length (pool_hosts rts) \<and> (\<forall>r \<in> set rs. route_host r \<in> set (route_hosts (last rts)))"
proof -
  obtain rp where rp: "RoutePool rts = Inr rp" "pool_of rts rp" using RoutePool_pool_of [OF assms(1)] by blast
  then have "RoutePoolIter rp True = \<lparr>it_reverse = True, it_host_p = int 0, it_route_offset = int (length rts) - 1\<rparr>"
    by (simp add: RoutePoolIter_def pool_of_def)
  then show ?thesis
    using rp(1) rp_iterate_reversed [OF rp(2) assms(2,3), of 0 "Suc (length (pool_hosts rts))"] by auto
qed

theorem reversed_pool_last_route_witness:
  "\<exists>rp rs. RoutePool [ex_route 0x01010100 30, ex_route 0x08080808 32] = Inr rp \<and>
     rp_iterate rp 5 (RoutePoolIter rp True) = Inr rs \<and> map route_host rs = replicate 4 (IPv4Address 0x08080808)"
proof -
  have h: "length (pool_hosts [ex_route 0x01010100 30, ex_route 0x08080808 32]) = 4"
    using ex_routes by (simp add: pool_hosts_def)
  obtain rp rs where r: "RoutePool [ex_route 0x01010100 30, ex_route 0x08080808 32] = Inr rp"
    "rp_iterate rp (Suc 4) (RoutePoolIter rp True) = Inr rs" "length rs = 4"
    "\<forall>r \<in> set rs. route_host r = IPv4Address 0x08080808"
    using reversed_pool_last_route [of "[ex_route 0x01010100 30, ex_route 0x08080808 32]"] ex_routes
    unfolding h by auto
  have "map route_host rs = replicate 4 (IPv4Address 0x08080808)"
    using r(3,4) by (intro nth_equalityI) auto
  then show ?thesis using r(1,2) by (auto simp: numeral_eq_Suc)
qed

text \<open>A pool is restored from its dictionaries with every address, and its hosts in the same order;
  a single route comes back without its interface and offsets, and is refused when its external
  address is private.\<close>

theorem route_pool_dict_roundtrip:
  assumes "list_all (\<lambda>rt. rt_serial rt \<and> rt_ok rt \<and> ipr_is_public (hd (rt_ext_ips rt))) rts"
    and "RoutePool rts = Inr rp" and "rt_serial rt"
  shows "(\<exists>rp'. rp_from_dict (rp_to_dict rp) = Inr rp' \<and> rp_to_dict rp' = rp_to_dict rp \<and>
       rp_len_list rp' = rp_len_list rp \<and> rp_wan_hosts rp' = rp_wan_hosts rp) \<and>
    route_from_dict (route_to_dict rt) =
      (if ipr_is_public (hd (rt_ext_ips rt)) then Inr (rt_bare rt) else Inl AssertionError)"
proof -
  have ok: "list_all rt_ok rts" using assms(1) by (simp add: list_all_iff)
  then obtain rp' where rp': "RoutePool (map rt_bare rts) = Inr rp'" "pool_of (map rt_bare rts) rp'"
    using RoutePool_pool_of [of "map rt_bare rts"] by (auto simp: list_all_iff)
  have rp: "pool_of rts rp" using RoutePool_pool_of [OF ok] assms(2) by auto
  have "rp_len_list rp' = rp_len_list rp"
    using rp rp'(2) by (intro nth_equalityI) (auto simp: pool_of_def hosts_before_def simp: take_map)
  moreover have "route_to_dict (rt_bare rt) = route_to_dict rt" for rt by (simp add: route_to_dict_def rt_bare_def)
  then have "rp_to_dict rp' = rp_to_dict rp"
    using rp_to_dict_RoutePool [OF rp'(1)] rp_to_dict_RoutePool [OF assms(2)] by simp
  moreover have "rp_from_dict (rp_to_dict rp) = Inr rp'"
    using rp_from_dict_eq [of rts] assms(1) rp'(1) rp_to_dict_RoutePool [OF assms(2)] by (simp add: list_all_iff)
  ultimately show ?thesis
    using rp rp'(2) route_from_dict_eq [OF assms(3)] by (auto simp: pool_of_def)
qed

theorem route_pool_dict_roundtrip_witness:
  "\<exists>rp rp'. RoutePool [ex_route 0x08080808 32] = Inr rp \<and> rp_from_dict (rp_to_dict rp) = Inr rp' \<and>
     rp_wan_hosts rp' = rp_wan_hosts rp \<and>
     route_from_dict (route_to_dict (ex_route 0x0A000001 32)) = Inl AssertionError"
proof -
  obtain rp where rp: "RoutePool [ex_route 0x08080808 32] = Inr rp"
    using RoutePool_pool_of [of "[ex_route 0x08080808 32]"] ex_routes by auto
  have s: "rt_serial (ex_route n 32)" if "0 < n" "n < 2 ^ 32" for n
    using that ex_ipr_text [of n 32] ex_ipr_text [of "0xC0A80001" 32]
    by (simp add: rt_serial_def ex_route_def) (simp add: ex_ipr_def ipr_fields_def Let_def af_to_cidr_def)
  have "ipr_is_public (hd (rt_ext_ips (ex_route 0x08080808 32)))" "\<not> ipr_is_public (hd (rt_ext_ips (ex_route 0x0A000001 32)))"
    by (simp_all add: ex_route_def ex_ipr_def ipr_fields_def Let_def af_to_cidr_def private_v4_def in_net_def
        eval_simps)
  then show ?thesis
    using route_pool_dict_roundtrip [OF _ rp s [of "0x0A000001"]] ex_routes rp s [of "0x08080808"] by auto
qed

end
