(* ===== verification/Peer_Addr.thy ===== *)
theory Peer_Addr
  imports Route_Pool Nat_Info Stun_Msg
begin

text \<open>
  \<^verbatim>\<open>node/p2p_addr.py\<close>: the address of a node, as the text \<open>make_peer_addr\<close> writes and
  \<open>parse_peer_addr\<close> reads, and in the packed binary form. Texts are ASCII.
\<close>

section \<open>Addresses\<close>

definition mqtt_server_no :: int where
  "mqtt_server_no = 15"

definition SIGNAL_PIPE_NO :: nat where
  "SIGNAL_PIPE_NO = 3"

text \<open>What an address says of one interface for one family, and a parsed address.\<close>

record if_info =
  ii_netiface_index :: int
  ii_if_index :: int
  ii_ext :: iprange
  ii_nic :: iprange
  ii_nat :: nat_desc
  ii_port :: int

record peer_addr =
  pa_infos :: "af \<Rightarrow> (int \<times> if_info) list"
  pa_node_id :: string
  pa_signal :: "int list"
  pa_machine_id :: string
  pa_bytes :: string

text \<open>The interfaces of a node, as far as its address needs them.\<close>

record iface =
  if_netiface_index :: int
  if_rp :: "af \<Rightarrow> pool"
  if_nat :: nat_desc

definition iface_route :: "iface \<Rightarrow> af \<Rightarrow> route res" where
  "iface_route i af =
     (case rp_routes (if_rp i af) of
        [] \<Rightarrow> Err (PyException ''No route found.'')
      | r # _ \<Rightarrow> route_deepcopy r)"

section \<open>Making the text\<close>

definition or_bytes :: "string option \<Rightarrow> string \<Rightarrow> string" where
  "or_bytes o' s = (case o' of None \<Rightarrow> s | Some t \<Rightarrow> if t = [] then s else t)"

definition or_int :: "int option \<Rightarrow> int \<Rightarrow> int" where
  "or_int o' n = (case o' of None \<Rightarrow> n | Some m \<Rightarrow> if m = 0 then n else m)"

text \<open>The address of the interface itself: for IPv6 the first link local if there is one.\<close>

definition info_int_ip :: "af \<Rightarrow> string option \<Rightarrow> route \<Rightarrow> string res" where
  "info_int_ip af ip r =
     (if af = IP4 then (case ip of Some (c # s) \<Rightarrow> Ok (c # s) | _ \<Rightarrow> route_nic r)
      else rbind (route_ext_ip r) (\<lambda>ext.
           rbind (if rt_link_locals r = [] then Ok ext else route_link_local r) (\<lambda>s.
             Ok (case ip of None \<Rightarrow> s | Some t \<Rightarrow> t))))"

definition info_text :: "iface \<Rightarrow> int \<Rightarrow> string \<Rightarrow> string \<Rightarrow> int \<Rightarrow> nat_desc \<Rightarrow> string" where
  "info_text i if_index ext nic port nd =
     CHR ''['' # join_with CHR '',''
       [int_str (if_netiface_index i), int_str if_index, ext, nic, int_str port,
        int_str (nat_type nd), int_str (delta_type (nat_delta nd)), int_str (delta_value (nat_delta nd))] @ '']''"

definition make_info ::
  "af \<Rightarrow> int \<Rightarrow> string option \<Rightarrow> nat_desc option \<Rightarrow> int option \<Rightarrow> nat \<Rightarrow> iface \<Rightarrow> string option res" where
  "make_info af port ip nd if_index n i =
     (if rp_routes (if_rp i af) = [] then Ok None
      else rbind (iface_route i af) (\<lambda>r.
           rbind (info_int_ip af ip r) (\<lambda>int_ip.
           rbind (case ip of Some (c # s) \<Rightarrow> Ok (c # s) | _ \<Rightarrow> route_ext_ip r) (\<lambda>ext.
             Ok (Some (info_text i (or_int if_index (int n)) ext int_ip port
                        (case nd of None \<Rightarrow> if_nat i | Some d \<Rightarrow> d)))))))"

definition make_af_buf ::
  "af \<Rightarrow> iface list \<Rightarrow> int \<Rightarrow> string option \<Rightarrow> nat_desc option \<Rightarrow> int option \<Rightarrow> string res" where
  "make_af_buf af ifs port ip nd if_index =
     rbind (rmap_list (\<lambda>(n, i). make_info af port ip nd if_index n i) (enumerate 0 ifs)) (\<lambda>infos.
       Ok (let infos = strip_none infos in if infos = [] then ''0'' else join_with CHR ''|'' infos))"

definition signal_buf :: "int list \<Rightarrow> string" where
  "signal_buf signal_offsets =
     (if signal_offsets = [] then ''None'' else join_with CHR '','' (map int_str signal_offsets))"

definition make_peer_addr ::
  "string \<Rightarrow> string \<Rightarrow> iface list \<Rightarrow> int list \<Rightarrow> int \<Rightarrow> string option \<Rightarrow> nat_desc option \<Rightarrow> int option \<Rightarrow> string res" where
  "make_peer_addr node_id machine_id ifs signal_offsets port ip nd if_index =
     rbind (rassert (ifs \<noteq> [] \<and> port \<noteq> 0)) (\<lambda>_.
     rbind (make_af_buf IP4 ifs port ip nd if_index) (\<lambda>v4.
     rbind (make_af_buf IP6 ifs port ip nd if_index) (\<lambda>v6.
       Ok (join_with CHR ''-'' [signal_buf signal_offsets, v4, v6, node_id, machine_id]))))"

section \<open>Reading the text\<close>

definition validate_info :: "if_info \<Rightarrow> bool" where
  "validate_info info \<longleftrightarrow>
     in_range (ii_port info) (1, MAX_PORT) \<and>
     in_range (nat_type (ii_nat info)) (OPEN_INTERNET, BLOCKED_NAT) \<and>
     in_range (delta_type (nat_delta (ii_nat info))) (NA_DELTA, RANDOM_DELTA) \<and>
     in_range (let d = delta_value (nat_delta (ii_nat info)) in if d < 0 then - d else d) (0, MAX_PORT)"

definition validate_peer_addr :: "peer_addr \<Rightarrow> peer_addr option" where
  "validate_peer_addr addr =
     (if list_all (\<lambda>x. in_range x (0, mqtt_server_no - 1)) (pa_signal addr) \<and>
         \<not> length (pa_signal addr) > SIGNAL_PIPE_NO + 3 \<and>
         list_all (\<lambda>af. list_all (validate_info \<circ> snd) (pa_infos addr af)) VALID_AFS
      then Some addr else None)"

text \<open>One bracketed group; None where the source skips it.\<close>

definition parse_info :: "string \<Rightarrow> if_info option" where
  "parse_info info =
     (if length info < 2 then None
      else (case split_on CHR '','' (butlast (tl info)) of
              [nid, ix, ext, nic, port, nty, dty, dval] \<Rightarrow>
                (if list_all isnumeric [nid, ix, port, nty, dty, dval]
                 then (case (IPRange (IpStr ext) None (Some CIDR_WAN), IPRange (IpStr nic) None (Some CIDR_WAN)) of
                         (Inr e, Inr n) \<Rightarrow>
                           (let num = \<lambda>s. int (num_val 10 s);
                                d = delta_info (num dty) (num dval)
                            in Some \<lparr>ii_netiface_index = num nid, ii_if_index = num ix, ii_ext = e, ii_nic = n,
                                  ii_nat = nat_info (Some (num nty)) (Some d) None, ii_port = num port\<rparr>)
                       | _ \<Rightarrow> None)
                 else None)
            | _ \<Rightarrow> None))"

definition parse_af_part :: "string \<Rightarrow> (int \<times> if_info) list" where
  "parse_af_part part =
     fold (\<lambda>s d. case parse_info s of None \<Rightarrow> d | Some info \<Rightarrow> dict_set (ii_if_index info) info d)
       (split_on CHR ''|'' part) []"

definition parse_signal :: "string \<Rightarrow> int list res" where
  "parse_signal sig_part =
     (if sig_part = ''None'' then Ok []
      else rbind (rmap_list (py_int 10) (split_on CHR '','' sig_part)) (\<lambda>ns.
             Ok (filter (\<lambda>n. in_range n (0, mqtt_server_no - 1)) ns)))"

text \<open>The sanity check at the end has no effect: its verdict is dropped.\<close>

definition parse_peer_addr :: "string \<Rightarrow> peer_addr option res" where
  "parse_peer_addr addr =
     (case split_on CHR ''-'' addr of
        [sig_part, v4, v6, node_id, machine_id] \<Rightarrow>
          rbind (parse_signal sig_part) (\<lambda>signal.
            let out = \<lparr>pa_infos = (\<lambda>af. parse_af_part (if af = IP4 then v4 else v6)), pa_node_id = node_id,
                       pa_signal = signal, pa_machine_id = machine_id, pa_bytes = addr\<rparr>;
                _ = validate_peer_addr out
            in Ok (Some out))
      | _ \<Rightarrow> Ok None)"

text \<open>
  The two readers of a parsed address run over the keys of its dictionaries, which are integers, and
  subscript them.
\<close>

fun over_keys :: "(int \<times> if_info) list \<Rightarrow> unit res" where
  "over_keys [] = Ok ()"
| "over_keys (_ # _) = Err TypeError"

definition peer_addr_extract_exts :: "peer_addr \<Rightarrow> iprange list res" where
  "peer_addr_extract_exts addr =
     rbind (over_keys (pa_infos addr IP4)) (\<lambda>_. rbind (over_keys (pa_infos addr IP6)) (\<lambda>_. Ok []))"

definition is_p2p_addr_us :: "string \<Rightarrow> iface list \<Rightarrow> bool res" where
  "is_p2p_addr_us addr_bytes if_list =
     rbind (parse_peer_addr addr_bytes) (\<lambda>addr. case addr of None \<Rightarrow> Err TypeError
       | Some addr \<Rightarrow> rbind (over_keys (pa_infos addr IP4)) (\<lambda>_. rbind (over_keys (pa_infos addr IP6)) (\<lambda>_. Ok False)))"

section \<open>The binary form\<close>

text \<open>
  Native \<open>struct\<close> formats of a little-endian machine; \<open>af_no\<close> gives the platform's family numbers.
  A NAT is packed as its type and delta type, two bytes of padding and the signed 32-bit delta value.
\<close>

definition pack_i32 :: "int \<Rightarrow> bytes res" where
  "pack_i32 n = (if - (2 ^ 31) \<le> n \<and> n < 2 ^ 31 then pack_le 4 (n mod 2 ^ 32) else Err StructError)"

definition pack_nat :: "nat_desc \<Rightarrow> bytes res" where
  "pack_nat nd =
     rbind (pack_le 1 (nat_type nd)) (\<lambda>a. rbind (pack_le 1 (delta_type (nat_delta nd))) (\<lambda>b.
     rbind (pack_i32 (delta_value (nat_delta nd))) (\<lambda>c. Ok (a @ b @ [0, 0] @ c))))"

definition ip_bytes_of :: "af \<Rightarrow> string option \<Rightarrow> string res \<Rightarrow> bytes res" where
  "ip_bytes_of af ip own =
     rbind (case ip of Some (c # s) \<Rightarrow> Ok (c # s) | _ \<Rightarrow> own) (\<lambda>s.
     rbind (IPRange (IpStr s) None (Some (int (af_to_cidr af)))) (\<lambda>r.
     rbind (ipr_bytes r) (\<lambda>bs.
     rbind (rassert (length bs = (if af = IP4 then 4 else 16))) (\<lambda>_. Ok bs))))"

definition pack_segment ::
  "(af \<Rightarrow> nat) \<Rightarrow> string option \<Rightarrow> nat_desc option \<Rightarrow> iface \<Rightarrow> af \<Rightarrow> bytes res" where
  "pack_segment af_no ip nd i af =
     rbind (byte_of_int (int (af_no af))) (\<lambda>afb.
       if rp_routes (if_rp i af) = [] then Ok (afb @ [0])
       else rbind (iface_route i af) (\<lambda>r.
            rbind (pack_nat (case nd of None \<Rightarrow> if_nat i | Some d \<Rightarrow> d)) (\<lambda>nat_packed.
            rbind (ip_bytes_of af ip (route_nic r)) (\<lambda>nic_ip.
            rbind (ip_bytes_of af ip (route_ext_ip r)) (\<lambda>ext_ip.
              Ok (afb @ [1] @ nat_packed @ nic_ip @ ext_ip))))))"

definition pack_iface ::
  "(af \<Rightarrow> nat) \<Rightarrow> string option \<Rightarrow> nat_desc option \<Rightarrow> int option \<Rightarrow> nat \<Rightarrow> iface \<Rightarrow> bytes res" where
  "pack_iface af_no ip nd if_index n i =
     rbind (byte_of_int (or_int if_index (int n))) (\<lambda>ix.
     rbind (pack_segment af_no ip nd i IP4) (\<lambda>v4.
     rbind (pack_segment af_no ip nd i IP6) (\<lambda>v6. Ok (ix @ v4 @ v6))))"

definition pack_peer_addr ::
  "(af \<Rightarrow> nat) \<Rightarrow> bytes \<Rightarrow> iface list \<Rightarrow> int list \<Rightarrow> int \<Rightarrow> string option \<Rightarrow> nat_desc option \<Rightarrow> int option \<Rightarrow> bytes res" where
  "pack_peer_addr af_no node_id ifs signal_offsets port ip nd if_index =
     rbind (pack_le 2 port) (\<lambda>p.
     rbind (pack_le 1 (int (length signal_offsets))) (\<lambda>s.
     rbind (pack_le 1 (int (length ifs))) (\<lambda>n.
     rbind (rmap_list (pack_le 1) signal_offsets) (\<lambda>offs.
     rbind (rmap_list (\<lambda>(n, i). pack_iface af_no ip nd if_index n i) (enumerate 0 ifs)) (\<lambda>segs.
       Ok (take 8 node_id @ p @ s @ n @ concat offs @ concat segs))))))"

text \<open>Reading: a field at the cursor and what is left. A short buffer raises as \<open>struct.unpack\<close> or a subscript does.\<close>

definition rd_le :: "nat \<Rightarrow> bytes \<Rightarrow> (int \<times> bytes) res" where
  "rd_le k bs = rmap (\<lambda>n. (n, drop k bs)) (unpack_le k (take k bs))"

definition rd_byte :: "bytes \<Rightarrow> (byte \<times> bytes) res" where
  "rd_byte bs = (case bs of [] \<Rightarrow> Err IndexError | b # bs \<Rightarrow> Ok (b, bs))"

definition rd_nat :: "bytes \<Rightarrow> (nat_desc \<times> bytes) res" where
  "rd_nat bs =
     (if length bs < 8 then Err StructError
     else (let ty = unat (bs ! 0); dty = unat (bs ! 1); v = int (le_dec (slice 4 8 bs));
               v = (if v \<ge> 2 ^ 31 then v - 2 ^ 32 else v)
           in Ok (nat_info (Some (int ty)) (Some (delta_info (int dty) v)) None, drop 8 bs)))"

record bin_info =
  bi_if_index :: int
  bi_ext :: iprange
  bi_nic :: iprange
  bi_nat :: nat_desc
  bi_port :: int

definition rd_range :: "af \<Rightarrow> bytes \<Rightarrow> iprange res" where
  "rd_range af bs = rbind (inet_ntop af bs) (\<lambda>a. IPRange (IpStr (ip_str a)) None (Some CIDR_WAN))"

text \<open>
  One segment; a family number that is neither IPv4 nor IPv6 uses the size of the previous address
  (which may be unbound) and is then refused by \<open>inet_ntop\<close>.
\<close>

definition rd_segment ::
  "(af \<Rightarrow> nat) \<Rightarrow> int \<Rightarrow> int \<Rightarrow> bool \<Rightarrow> bytes \<Rightarrow> ((af \<times> bin_info) option \<times> bool \<times> bytes) res" where
  "rd_segment af_no port if_index sized bs =
     rbind (rd_byte bs) (\<lambda>(fam, bs).
     rbind (rd_byte bs) (\<lambda>(filled, bs).
       if filled = 0 then Ok (None, sized, bs)
       else rbind (rd_nat bs) (\<lambda>(nd, bs).
              case find (\<lambda>af. af_no af = unat fam) [IP4, IP6] of
                None \<Rightarrow> Err (if sized then OSError else PyException ''UnboundLocalError'')
              | Some af \<Rightarrow>
                  let k = (if af = IP4 then 4 else 16)
                  in rbind (rd_range af (take k (drop k bs))) (\<lambda>ext.
                     rbind (rd_range af (take k bs)) (\<lambda>nic.
                       Ok (Some (af, \<lparr>bi_if_index = if_index, bi_ext = ext, bi_nic = nic, bi_nat = nd, bi_port = port\<rparr>),
                           True, drop (2 * k) bs))))))"

fun rd_ifaces ::
  "(af \<Rightarrow> nat) \<Rightarrow> int \<Rightarrow> nat \<Rightarrow> bool \<Rightarrow> bytes \<Rightarrow> (af \<times> bin_info) list res" where
  "rd_ifaces af_no port 0 sized bs = Ok []"
| "rd_ifaces af_no port (Suc n) sized bs =
     rbind (rd_byte bs) (\<lambda>(ix, bs).
     rbind (rd_segment af_no port (uint ix) sized bs) (\<lambda>(a, sized, bs).
     rbind (rd_segment af_no port (uint ix) sized bs) (\<lambda>(b, sized, bs).
     rbind (rd_ifaces af_no port n sized bs) (\<lambda>l. Ok (strip_none [a, b] @ l)))))"

record bin_addr =
  ba_node_id :: bytes
  ba_signal :: "int list"
  ba_infos :: "(af \<times> bin_info) list"

definition unpack_fields :: "(af \<Rightarrow> nat) \<Rightarrow> bytes \<Rightarrow> bin_addr res" where
  "unpack_fields af_no addr =
     (let bs = drop 8 addr
      in rbind (rd_le 2 bs) (\<lambda>(port, bs).
         rbind (rd_le 1 bs) (\<lambda>(signal_no, bs).
         rbind (rd_le 1 bs) (\<lambda>(if_no, bs).
         rbind (if length bs < nat signal_no then Err StructError else Ok ()) (\<lambda>_.
         rbind (rd_ifaces af_no port (nat if_no) False (drop (nat signal_no) bs)) (\<lambda>infos.
           Ok \<lparr>ba_node_id = take 8 addr, ba_signal = map uint (take (nat signal_no) bs), ba_infos = infos\<rparr>))))))"

text \<open>Validation subscripts the lists of interfaces with their own elements.\<close>

definition unpack_peer_addr :: "(af \<Rightarrow> nat) \<Rightarrow> bytes \<Rightarrow> bin_addr option res" where
  "unpack_peer_addr af_no addr =
     rbind (unpack_fields af_no addr) (\<lambda>out.
       if \<not> list_all (\<lambda>x. in_range x (0, mqtt_server_no - 1)) (ba_signal out) \<or>
          length (ba_signal out) > SIGNAL_PIPE_NO + 3 then Ok None
       else if ba_infos out \<noteq> [] then Err TypeError else Ok (Some out))"

section \<open>Separators\<close>

lemma length_split_on: "length (split_on c s) = Suc (count_list s c)"
  by (induction s) (auto split: list.splits)

lemma count_join_with:
  "ps \<noteq> [] \<Longrightarrow> count_list (join_with c ps) c = length ps - 1 + sum_list (map (\<lambda>p. count_list p c) ps)"
  by (induction c ps rule: join_with.induct) auto

definition pa_seps :: "char set" where
  "pa_seps = {CHR ''-'', CHR '','', CHR ''|''}"

definition plain :: "string \<Rightarrow> bool" where
  "plain s \<longleftrightarrow> set s \<inter> pa_seps = {}"

lemma is_digit_no_bar: "is_digit b c \<Longrightarrow> b \<le> 16 \<Longrightarrow> c \<noteq> CHR ''|''"
  by (auto simp: is_digit_def digit_val_def Let_def split: if_splits)

lemma digits_plain: "list_all (is_digit b) s \<Longrightarrow> b \<le> 16 \<Longrightarrow> plain s"
  using is_digit_not_sep [of b "CHR ''-''"] is_digit_not_sep [of b "CHR '',''"] is_digit_no_bar [of b "CHR ''|''"]
  by (auto simp: plain_def pa_seps_def list_all_iff)

lemma plain_join: "c \<notin> pa_seps \<Longrightarrow> (\<And>p. p \<in> set ps \<Longrightarrow> plain p) \<Longrightarrow> plain (join_with c ps)"
  using set_join_with [of c ps] by (fastforce simp: plain_def)

lemma plain_exploded: "plain (ip_exploded a)"
proof (cases a)
  case (IPv4Address n)
  have "plain (join_with CHR ''.'' (map dec_str (octets (nat n))))"
    by (rule plain_join) (auto simp: pa_seps_def intro: digits_plain [OF num_str_digits])
  then show ?thesis by (simp add: IPv4Address)
next
  case (IPv6Address n)
  have "plain (join_with CHR '':'' (map hex4 (hextets 8 (nat n))))"
    by (rule plain_join) (auto simp: pa_seps_def intro: digits_plain [OF hex4_digits])
  then show ?thesis by (simp add: IPv6Address)
qed

lemma plain_int_str: "0 \<le> n \<Longrightarrow> plain (int_str n)"
  by (auto simp: int_str_def intro!: digits_plain [of 10] num_str_digits)

lemma int_str_numeric: "0 \<le> n \<Longrightarrow> isnumeric (int_str n) \<and> int (num_val 10 (int_str n)) = n"
  by (simp add: int_str_def isnumeric_def num_str_digits)

lemma ipr_norm_exploded: "ipr_norm r = Inr s \<Longrightarrow> \<exists>a. ipa_ok a \<and> s = ip_exploded a"
  using ip_norm_Ok [of "IpStr _" s] by (auto simp: ipr_norm_def rbind_eq_Ok)

lemma IPRange_wan_exploded:
  assumes "ipa_ok a"
  shows "\<exists>r. IPRange (IpStr (ip_exploded a)) None (Some CIDR_WAN) = Inr r \<and> ipr_text r \<and> ipr_ipa r = a"
proof -
  have "IPRange (IpStr (ip_exploded a)) None (Some CIDR_WAN) =
      IPRange (IpStr (ip_exploded a)) None (Some (int (af_to_cidr (ipa_af a))))"
    by (simp add: IPRange_def ipr_norm_netmask_def ipr_int_af_def ipr_parse_exploded [OF assms])
      (simp add: ipr_mask_def CIDR_WAN_def Let_def af_to_cidr_def split: if_splits)
  moreover have "0 < af_to_cidr (ipa_af a)" by (simp add: af_to_cidr_def split: af.splits)
  ultimately show ?thesis using IPRange_text [OF assms, of "int (af_to_cidr (ipa_af a))"] by auto
qed

section \<open>What an address says\<close>

text \<open>
  The information an interface has to give, built directly from its route and its NAT, and the
  interfaces whose numbers the text can carry.
\<close>

definition nat_of :: "nat_desc \<Rightarrow> nat_desc" where
  "nat_of nd = nat_info (Some (nat_type nd)) (Some (delta_info (delta_type (nat_delta nd)) (delta_value (nat_delta nd)))) None"

definition own_info :: "af \<Rightarrow> int \<Rightarrow> nat \<Rightarrow> iface \<Rightarrow> if_info option res" where
  "own_info af port n i =
     (if rp_routes (if_rp i af) = [] then Ok None
      else rbind (iface_route i af) (\<lambda>r.
           rbind (info_int_ip af None r) (\<lambda>nic.
           rbind (route_ext_ip r) (\<lambda>ext.
           rbind (IPRange (IpStr ext) None (Some CIDR_WAN)) (\<lambda>e.
           rbind (IPRange (IpStr nic) None (Some CIDR_WAN)) (\<lambda>m.
             Ok (Some \<lparr>ii_netiface_index = if_netiface_index i, ii_if_index = int n, ii_ext = e, ii_nic = m,
                       ii_nat = nat_of (if_nat i), ii_port = port\<rparr>)))))))"

definition iface_plain :: "iface \<Rightarrow> bool" where
  "iface_plain i \<longleftrightarrow> 0 \<le> if_netiface_index i \<and> 0 \<le> nat_type (if_nat i) \<and>
     0 \<le> delta_type (nat_delta (if_nat i)) \<and> 0 \<le> delta_value (nat_delta (if_nat i))"

lemma route_text_exploded:
  "route_nic r = Inr s \<Longrightarrow> \<exists>a. ipa_ok a \<and> s = ip_exploded a"
  "route_ext_ip r = Inr s \<Longrightarrow> \<exists>a. ipa_ok a \<and> s = ip_exploded a"
  "route_link_local r = Inr s \<Longrightarrow> \<exists>a. ipa_ok a \<and> s = ip_exploded a"
  by (auto simp: route_nic_def route_ext_ip_def route_link_local_def rbind_eq_Ok intro: ipr_norm_exploded)

lemma info_int_ip_exploded: "info_int_ip af None r = Inr s \<Longrightarrow> \<exists>a. ipa_ok a \<and> s = ip_exploded a"
  by (auto simp: info_int_ip_def rbind_eq_Ok intro: route_text_exploded split: if_splits)

lemma info_text_plain:
  assumes "iface_plain i" "0 \<le> n" "0 \<le> port" "plain ext" "plain nic"
  shows "CHR ''-'' \<notin> set (info_text i n ext nic port (if_nat i))"
    "CHR ''|'' \<notin> set (info_text i n ext nic port (if_nat i))"
proof -
  let ?ps = "[int_str (if_netiface_index i), int_str n, ext, nic, int_str port, int_str (nat_type (if_nat i)),
      int_str (delta_type (nat_delta (if_nat i))), int_str (delta_value (nat_delta (if_nat i)))]"
  have "plain p" if "p \<in> set ?ps" for p using that assms by (auto simp: iface_plain_def intro: plain_int_str)
  then have "c \<notin> set (join_with CHR '','' ?ps)" if "c \<in> {CHR ''-'', CHR ''|''}" for c
    using that by (intro join_no_char) (auto simp: plain_def pa_seps_def)
  then show "CHR ''-'' \<notin> set (info_text i n ext nic port (if_nat i))"
    "CHR ''|'' \<notin> set (info_text i n ext nic port (if_nat i))"
    unfolding info_text_def by (simp_all del: join_with.simps)
qed

lemma parse_info_text:
  assumes i: "iface_plain i" "0 \<le> n" "0 \<le> port" and e: "ipa_ok a" "ipa_ok b"
    and r: "IPRange (IpStr (ip_exploded a)) None (Some CIDR_WAN) = Inr ext"
      "IPRange (IpStr (ip_exploded b)) None (Some CIDR_WAN) = Inr nic"
  shows "parse_info (info_text i n (ip_exploded a) (ip_exploded b) port (if_nat i)) =
    Some \<lparr>ii_netiface_index = if_netiface_index i, ii_if_index = n, ii_ext = ext, ii_nic = nic,
          ii_nat = nat_of (if_nat i), ii_port = port\<rparr>"
proof -
  let ?ps = "[int_str (if_netiface_index i), int_str n, ip_exploded a, ip_exploded b, int_str port,
      int_str (nat_type (if_nat i)), int_str (delta_type (nat_delta (if_nat i))), int_str (delta_value (nat_delta (if_nat i)))]"
  have "plain p" if "p \<in> set ?ps" for p using that i by (auto simp: iface_plain_def intro: plain_int_str plain_exploded)
  then have "split_on CHR '','' (join_with CHR '','' ?ps) = ?ps"
    by (intro split_join) (auto simp: plain_def pa_seps_def)
  moreover have "length (info_text i n (ip_exploded a) (ip_exploded b) port (if_nat i)) \<ge> 2"
    by (simp add: info_text_def del: join_with.simps)
  ultimately show ?thesis
    using r i int_str_numeric
    by (simp add: parse_info_def info_text_def iface_plain_def nat_of_def del: join_with.simps ip_exploded.simps)
qed

lemma make_info_own:
  assumes "make_info af port None None None n i = Inr t" "rp_routes (if_rp i af) \<noteq> [] \<Longrightarrow> iface_plain i" "0 \<le> port"
  shows "\<exists>info. own_info af port n i = Inr info \<and> (info = None \<longleftrightarrow> t = None) \<and>
    (\<forall>s. t = Some s \<longrightarrow> parse_info s = info \<and> CHR ''-'' \<notin> set s \<and> CHR ''|'' \<notin> set s) \<and>
    (\<forall>x. info = Some x \<longrightarrow> ii_if_index x = int n)"
proof (cases "rp_routes (if_rp i af) = []")
  case True
  then show ?thesis using assms(1) by (simp add: make_info_def own_info_def)
next
  case False
  then obtain r nic ext where r: "iface_route i af = Inr r" "info_int_ip af None r = Inr nic" "route_ext_ip r = Inr ext"
    "t = Some (info_text i (int n) ext nic port (if_nat i))"
    using assms(1) by (auto simp: make_info_def rbind_eq_Ok or_int_def)
  obtain a b where ab: "ipa_ok a" "nic = ip_exploded a" "ipa_ok b" "ext = ip_exploded b"
    using info_int_ip_exploded [OF r(2)] route_text_exploded(2) [OF r(3)] by auto
  obtain x y where xy: "IPRange (IpStr ext) None (Some CIDR_WAN) = Inr x" "IPRange (IpStr nic) None (Some CIDR_WAN) = Inr y"
    using IPRange_wan_exploded ab by metis
  show ?thesis
    using False r xy parse_info_text [OF assms(2) [OF False] _ assms(3) ab(3,1), of "int n" x y]
      info_text_plain [OF assms(2) [OF False] _ assms(3), of "int n" ext nic] plain_exploded ab
    by (simp add: own_info_def del: ip_exploded.simps)
qed

text \<open>A list of interfaces: the texts and the information correspond, in order.\<close>

lemma make_infos_own:
  assumes "rmap_list (\<lambda>(n, i). make_info af port None None None n i) (enumerate k ifs) = Inr ts"
    "\<forall>i \<in> set ifs. rp_routes (if_rp i af) \<noteq> [] \<longrightarrow> iface_plain i" "0 \<le> port"
  shows "\<exists>infos. rmap_list (\<lambda>(n, i). own_info af port n i) (enumerate k ifs) = Inr infos \<and>
    map parse_info (strip_none ts) = map Some (strip_none infos) \<and>
    (\<forall>s \<in> set (strip_none ts). CHR ''-'' \<notin> set s \<and> CHR ''|'' \<notin> set s) \<and>
    (\<forall>x \<in> set (strip_none infos). int k \<le> ii_if_index x) \<and> distinct (map ii_if_index (strip_none infos))"
  using assms(1,2)
proof (induction ifs arbitrary: k ts)
  case (Cons i ifs)
  obtain t ts' where t: "make_info af port None None None k i = Inr t" "ts = t # ts'"
    "rmap_list (\<lambda>(n, i). make_info af port None None None n i) (enumerate (Suc k) ifs) = Inr ts'"
    using Cons.prems(1) by (auto simp: rbind_eq_Ok)
  obtain infos where infos: "rmap_list (\<lambda>(n, i). own_info af port n i) (enumerate (Suc k) ifs) = Inr infos"
    "map parse_info (strip_none ts') = map Some (strip_none infos)"
    "\<forall>s \<in> set (strip_none ts'). CHR ''-'' \<notin> set s \<and> CHR ''|'' \<notin> set s"
    "\<forall>x \<in> set (strip_none infos). int (Suc k) \<le> ii_if_index x" "distinct (map ii_if_index (strip_none infos))"
    using Cons.IH [OF t(3)] Cons.prems(2) by auto
  obtain info where i: "own_info af port k i = Inr info" "info = None \<longleftrightarrow> t = None"
    "\<forall>s. t = Some s \<longrightarrow> parse_info s = info \<and> CHR ''-'' \<notin> set s \<and> CHR ''|'' \<notin> set s"
    "\<forall>x. info = Some x \<longrightarrow> ii_if_index x = int k"
    using make_info_own [OF t(1) _ assms(3)] Cons.prems(2) by auto
  show ?case
  proof (cases info)
    case None
    then show ?thesis using i infos t(2) by fastforce
  next
    case (Some x)
    then obtain s where s: "t = Some s" using i(2) by (cases t) auto
    have "int k < ii_if_index y" if "y \<in> set (strip_none infos)" for y using infos(4) that by fastforce
    then show ?thesis using i infos t(2) Some s by fastforce
  qed
qed simp

definition keyed :: "if_info list \<Rightarrow> (int \<times> if_info) list" where
  "keyed infos = map (\<lambda>x. (ii_if_index x, x)) infos"

lemma fold_parse_keyed:
  "map parse_info ss = map Some xs \<Longrightarrow> distinct (map fst d @ map ii_if_index xs) \<Longrightarrow>
   fold (\<lambda>s d. case parse_info s of None \<Rightarrow> d | Some info \<Rightarrow> dict_set (ii_if_index info) info d) ss d = d @ keyed xs"
proof (induction ss arbitrary: xs d)
  case (Cons s ss)
  then obtain x xs' where x: "xs = x # xs'" "parse_info s = Some x" "map parse_info ss = map Some xs'" by (cases xs) auto
  then have "ii_if_index x \<notin> fst ` set d" using Cons.prems(2) by auto
  then have "dict_set (ii_if_index x) x d = d @ [(ii_if_index x, x)]" by (rule dict_set_new)
  then show ?case using x Cons.prems(2) Cons.IH [OF x(3), of "d @ [(ii_if_index x, x)]"] by (simp add: keyed_def)
qed (simp add: keyed_def)

lemma make_af_buf_parse:
  assumes "make_af_buf af ifs port None None None = Inr buf" "\<forall>i \<in> set ifs. rp_routes (if_rp i af) \<noteq> [] \<longrightarrow> iface_plain i" "0 \<le> port"
  shows "\<exists>infos. rmap_list (\<lambda>(n, i). own_info af port n i) (enumerate 0 ifs) = Inr infos \<and>
    parse_af_part buf = keyed (strip_none infos) \<and> CHR ''-'' \<notin> set buf"
proof -
  obtain ts where ts: "rmap_list (\<lambda>(n, i). make_info af port None None None n i) (enumerate 0 ifs) = Inr ts"
    "buf = (if strip_none ts = [] then ''0'' else join_with CHR ''|'' (strip_none ts))"
    using assms(1) by (auto simp: make_af_buf_def rbind_eq_Ok Let_def)
  obtain infos where infos: "rmap_list (\<lambda>(n, i). own_info af port n i) (enumerate 0 ifs) = Inr infos"
    "map parse_info (strip_none ts) = map Some (strip_none infos)"
    "\<forall>s \<in> set (strip_none ts). CHR ''-'' \<notin> set s \<and> CHR ''|'' \<notin> set s" "distinct (map ii_if_index (strip_none infos))"
    using make_infos_own [OF ts(1) assms(2,3)] by blast
  show ?thesis
  proof (cases "strip_none ts = []")
    case True
    then show ?thesis using infos(1,2) ts(2)
      by (intro exI [of _ infos]) (simp add: parse_af_part_def split_on_part parse_info_def keyed_def)
  next
    case False
    then have "split_on CHR ''|'' buf = strip_none ts" using ts(2) infos(3) by (simp add: split_join)
    then have "parse_af_part buf = keyed (strip_none infos)"
      using fold_parse_keyed [OF infos(2), of "[]"] infos(4) by (simp add: parse_af_part_def)
    moreover have "CHR ''-'' \<notin> set (join_with CHR ''|'' (strip_none ts))"
      using infos(3) by (intro join_no_char) auto
    then have "CHR ''-'' \<notin> set buf" using ts(2) False by simp
    ultimately show ?thesis using infos(1) by blast
  qed
qed

lemma parse_signal_buf:
  assumes "list_all (\<lambda>n. 0 \<le> n) offs"
  shows "parse_signal (signal_buf offs) = Inr (filter (\<lambda>n. in_range n (0, mqtt_server_no - 1)) offs) \<and>
    CHR ''-'' \<notin> set (signal_buf offs)"
proof (cases "offs = []")
  case True
  then show ?thesis by (simp add: signal_buf_def parse_signal_def)
next
  case False
  have pl: "plain (int_str n)" if "n \<in> set offs" for n using that assms by (auto simp: list_all_iff intro: plain_int_str)
  then have sp: "split_on CHR '','' (join_with CHR '','' (map int_str offs)) = map int_str offs"
    using False by (intro split_join) (auto simp: plain_def pa_seps_def)
  have "rmap_list (py_int 10) (map int_str offs) = Inr offs"
    using assms by (intro rmap_list_map_total) (auto simp: list_all_iff int_str_def py_int_num_str)
  moreover have "join_with CHR '','' (map int_str offs) \<noteq> ''None''"
  proof
    assume "join_with CHR '','' (map int_str offs) = ''None''"
    then have "map int_str offs = [''None'']" using sp by (simp add: split_on_part)
    then obtain n where "n \<in> set offs" "int_str n = ''None''" by (cases offs) auto
    then show False using int_str_numeric [of n] assms by (auto simp: list_all_iff isnumeric_def is_digit_def digit_val_def)
  qed
  moreover have "CHR ''-'' \<notin> set (join_with CHR '','' (map int_str offs))"
    using pl by (intro join_no_char) (auto simp: plain_def pa_seps_def)
  ultimately show ?thesis using False sp by (simp add: signal_buf_def parse_signal_def)
qed

lemma make_peer_addr_Ok:
  assumes "make_peer_addr node_id machine_id ifs offs port ip nd ix = Inr buf"
  obtains v4 v6 where "make_af_buf IP4 ifs port ip nd ix = Inr v4" "make_af_buf IP6 ifs port ip nd ix = Inr v6"
    "buf = join_with CHR ''-'' [signal_buf offs, v4, v6, node_id, machine_id]" "ifs \<noteq> []" "port \<noteq> 0"
  using assms by (auto simp: make_peer_addr_def rbind_eq_Ok)

lemma rmap_list_nth: "rmap_list f xs = Inr ys \<Longrightarrow> n < length xs \<Longrightarrow> f (xs ! n) = Inr (ys ! n)"
  by (induction xs arbitrary: ys n) (auto simp: rbind_eq_Ok nth_Cons split: nat.splits)

lemma set_join_with_member: "p \<in> set ps \<Longrightarrow> set p \<subseteq> set (join_with c ps)"
  by (induction c ps rule: join_with.induct) auto

lemma count_list_member: "x \<in> set xs \<Longrightarrow> 1 \<le> count_list xs x"
  by (induction xs) auto

text \<open>A negative number in one of the groups puts a sixth part into the text.\<close>

lemma negative_info_dash:
  assumes "make_af_buf af ifs port None None None = Inr buf" "i \<in> set ifs" "rp_routes (if_rp i af) \<noteq> []"
    "delta_value (nat_delta (if_nat i)) < 0"
  shows "1 \<le> count_list buf CHR ''-''"
proof -
  obtain ts where ts: "rmap_list (\<lambda>(n, i). make_info af port None None None n i) (enumerate 0 ifs) = Inr ts"
    "buf = (if strip_none ts = [] then ''0'' else join_with CHR ''|'' (strip_none ts))"
    using assms(1) by (auto simp: make_af_buf_def rbind_eq_Ok Let_def)
  obtain n where n: "n < length ifs" "ifs ! n = i" using assms(2) by (auto simp: in_set_conv_nth)
  have e: "enumerate 0 ifs ! n = (n, i)" "n < length (enumerate 0 ifs)" using n by (auto simp: nth_enumerate_eq)
  then have "make_info af port None None None n i = Inr (ts ! n)" "n < length ts"
    using rmap_list_nth [OF ts(1) e(2)] rmap_list_Ok_length [OF ts(1)] by auto
  then have "\<exists>ext nic. Inr (Some (info_text i (or_int None (int n)) ext nic port (if_nat i))) = (Inr (ts ! n) :: string option res)"
    using assms(3) by (auto simp: make_info_def rbind_eq_Ok)
  then obtain ext nic where t: "ts ! n = Some (info_text i (or_int None (int n)) ext nic port (if_nat i))"
    by (metis sum.inject(2))
  have dash: "CHR ''-'' \<in> set (info_text i (or_int None (int n)) ext nic port (if_nat i))"
    using assms(4) by (auto simp: info_text_def int_str_def)
  have mem: "info_text i (or_int None (int n)) ext nic port (if_nat i) \<in> set (strip_none ts)"
    using t \<open>n < length ts\<close> by (auto simp: set_strip_none in_set_conv_nth intro!: exI [of _ n])
  then have "CHR ''-'' \<in> set (join_with CHR ''|'' (strip_none ts))"
    using dash set_join_with_member [OF mem] by blast
  moreover have "buf = join_with CHR ''|'' (strip_none ts)" using mem ts(2) by auto
  ultimately show ?thesis using count_list_member [of _ buf] by simp
qed

text \<open>A node with one interface for the examples.\<close>

definition ex_iface :: "int \<Rightarrow> iface" where
  "ex_iface v = \<lparr>if_netiface_index = 3,
     if_rp = (\<lambda>af. \<lparr>rp_routes = (if af = IP4 then [ex_route 0x08080808 32] else []), rp_len_list = [], rp_wan_hosts = 0, rp_pop = 0\<rparr>),
     if_nat = nat_info (Some RESTRICT_NAT) (Some (delta_info INDEPENDENT_DELTA v)) None\<rparr>"

lemma ex_iface_route: "\<exists>r. iface_route (ex_iface v) IP4 = Inr r \<and> rt_nic_ips r = [ex_ipr 0xC0A80001 32] \<and>
  rt_ext_ips r = [ex_ipr 0x08080808 32]"
proof -
  have d: "ipr_deepcopy (ex_ipr n 32) = Inr (ex_ipr n 32)" if "0 \<le> n" "n < 2 ^ 32 - 1" for n
  proof (rule deepcopy_text)
    show "ipr_text (ex_ipr n 32)" using that by (intro ex_ipr_text) auto
    have "ip_exploded (IPv4Address n) \<noteq> ip_exploded (IPv4Address 0xFFFFFFFF)"
      using that ip_exploded_inj [of "IPv4Address n" "IPv4Address 0xFFFFFFFF"] by (auto simp del: ip_exploded.simps)
    then show "Some (ipr_ip (ex_ipr n 32)) \<noteq> ipr_netmask (ex_ipr n 32)"
      by (simp add: ex_ipr_def mask_text_def mask_val_def af_to_cidr_def del: ip_exploded.simps)
  qed
  have f: "ipr_i_ip (ex_ipr n 32) = n" "ipr_af (ex_ipr n 32) = IP4" for n
    by (simp_all add: ex_ipr_def ipr_fields_def Let_def af_to_cidr_def)
  have "ipr_is_public (ex_ipr 0x08080808 32)"
    by (simp add: ex_ipr_def ipr_fields_def Let_def af_to_cidr_def private_v4_def in_net_def eval_simps)
  then show ?thesis
    by (simp add: iface_route_def ex_iface_def ex_route_def route_deepcopy_def d Route_def f)
qed

lemma ex_ipr_norm: "0 \<le> n \<Longrightarrow> n < 2 ^ 32 \<Longrightarrow> ipr_norm (ex_ipr n 32) = Inr (ip_exploded (IPv4Address n))"
  using ipr_fields_wan_norm [of "IPv4Address n"] by (simp add: ex_ipr_def ipa_af_def v_to_af_def af_to_cidr_def del: ip_exploded.simps)

lemma ex_make: "\<exists>buf. make_peer_addr ''node'' ''machine'' [ex_iface v] [0, 2] 10001 None None None = Inr buf"
proof -
  obtain r where r: "iface_route (ex_iface v) IP4 = Inr r" "rt_nic_ips r = [ex_ipr 0xC0A80001 32]"
    "rt_ext_ips r = [ex_ipr 0x08080808 32]" using ex_iface_route by blast
  then have "route_nic r = Inr (ip_exploded (IPv4Address 0xC0A80001))" "route_ext_ip r = Inr (ip_exploded (IPv4Address 0x08080808))"
    by (simp_all add: route_nic_def route_ext_ip_def first_of_def py_get_def ex_ipr_norm del: ip_exploded.simps)
  moreover have "rp_routes (if_rp (ex_iface v) IP4) \<noteq> []" by (simp add: ex_iface_def)
  ultimately have "\<exists>t. make_info IP4 10001 None None None 0 (ex_iface v) = Inr (Some t)"
    using r(1) by (simp add: make_info_def info_int_ip_def)
  moreover have "make_info IP6 10001 None None None 0 (ex_iface v) = Inr None"
    by (simp add: make_info_def ex_iface_def)
  ultimately show ?thesis by (auto simp: make_peer_addr_def make_af_buf_def)
qed

text \<open>The separator of the text is also the minus sign: an address with a negative delta,
  which the validation allows, is never readable.\<close>

lemma negative_delta_text:
  assumes "make_peer_addr node_id machine_id ifs offs port None None None = Inr buf"
    and "i \<in> set ifs" and "rp_routes (if_rp i af) \<noteq> []" and "delta_value (nat_delta (if_nat i)) < 0"
  shows "parse_peer_addr buf = Inr None"
proof -
  obtain b4 b6 where b: "make_af_buf IP4 ifs port None None None = Inr b4" "make_af_buf IP6 ifs port None None None = Inr b6"
    "buf = join_with CHR ''-'' [signal_buf offs, b4, b6, node_id, machine_id]"
    using assms(1) by (rule make_peer_addr_Ok)
  have "1 \<le> count_list b4 CHR ''-'' + count_list b6 CHR ''-''"
    using negative_info_dash [OF b(1) assms(2) _ assms(4)] negative_info_dash [OF b(2) assms(2) _ assms(4)] assms(3)
    by (cases af) auto
  then have "6 \<le> length (split_on CHR ''-'' buf)"
    unfolding length_split_on b(3) by (subst count_join_with) auto
  then show ?thesis by (auto simp: parse_peer_addr_def split: list.splits)
qed

section \<open>Properties\<close>

text \<open>An interface that is in the text, with an index and types that are not negative; its delta may be.\<close>

definition in_text :: "iface \<Rightarrow> bool" where
  "in_text i = (rp_routes (if_rp i IP4) \<noteq> [] \<or> rp_routes (if_rp i IP6) \<noteq> [])"

definition numbered :: "iface \<Rightarrow> bool" where
  "numbered i = (0 \<le> if_netiface_index i \<and> 0 \<le> nat_type (if_nat i) \<and> 0 \<le> delta_type (nat_delta (if_nat i)))"

text \<open>C34: when the address text of a node can be read: if an interface that is in it has a negative delta, which the
  validation allows, the text is never readable, because its separator is also the minus sign; otherwise it is read back as
  what the interfaces say, for each family the information of every interface that has a route, keyed by the interface's
  position, the usable signal offsets, and both ids. Ids hold no minus sign, and the port, the offsets, indexes and types are
  not negative.\<close>

theorem peer_addr_roundtrip:
  assumes "make_peer_addr node_id machine_id ifs offs port None None None = Inr buf"
    and "\<forall>i \<in> set ifs. in_text i \<longrightarrow> numbered i" and "0 \<le> port" and "list_all (\<lambda>n. 0 \<le> n) offs"
    and "CHR ''-'' \<notin> set node_id" and "CHR ''-'' \<notin> set machine_id"
  shows "if \<exists>i \<in> set ifs. in_text i \<and> delta_value (nat_delta (if_nat i)) < 0 then parse_peer_addr buf = Inr None
    else \<exists>v4 v6. rmap_list (\<lambda>(n, i). own_info IP4 port n i) (enumerate 0 ifs) = Inr v4 \<and>
      rmap_list (\<lambda>(n, i). own_info IP6 port n i) (enumerate 0 ifs) = Inr v6 \<and>
      parse_peer_addr buf = Inr (Some
        \<lparr>pa_infos = (\<lambda>af. keyed (strip_none (if af = IP4 then v4 else v6))), pa_node_id = node_id,
         pa_signal = filter (\<lambda>n. in_range n (0, mqtt_server_no - 1)) offs, pa_machine_id = machine_id, pa_bytes = buf\<rparr>)"
proof (cases "\<exists>i \<in> set ifs. in_text i \<and> delta_value (nat_delta (if_nat i)) < 0")
  case True
  then show ?thesis using negative_delta_text [OF assms(1)] by (auto simp: in_text_def)
next
  case False
  then have plain: "\<forall>i \<in> set ifs. rp_routes (if_rp i af) \<noteq> [] \<longrightarrow> iface_plain i" for af
    using assms(2) by (cases af) (auto simp: in_text_def numbered_def iface_plain_def not_less)
  obtain b4 b6 where b: "make_af_buf IP4 ifs port None None None = Inr b4" "make_af_buf IP6 ifs port None None None = Inr b6"
    "buf = join_with CHR ''-'' [signal_buf offs, b4, b6, node_id, machine_id]"
    using assms(1) by (rule make_peer_addr_Ok)
  obtain v4 where v4: "rmap_list (\<lambda>(n, i). own_info IP4 port n i) (enumerate 0 ifs) = Inr v4"
    "parse_af_part b4 = keyed (strip_none v4)" "CHR ''-'' \<notin> set b4"
    using make_af_buf_parse [OF b(1) plain assms(3)] by blast
  obtain v6 where v6: "rmap_list (\<lambda>(n, i). own_info IP6 port n i) (enumerate 0 ifs) = Inr v6"
    "parse_af_part b6 = keyed (strip_none v6)" "CHR ''-'' \<notin> set b6"
    using make_af_buf_parse [OF b(2) plain assms(3)] by blast
  note sig = parse_signal_buf [OF assms(4)]
  have "split_on CHR ''-'' buf = [signal_buf offs, b4, b6, node_id, machine_id]"
    unfolding b(3) using sig v4(3) v6(3) assms(5,6) by (intro split_join) auto
  then show ?thesis
    using False v4(1,2) v6(1,2) sig by (auto simp: parse_peer_addr_def Let_def fun_eq_iff)
qed

theorem peer_addr_roundtrip_witness:
  "(\<exists>buf pa info. make_peer_addr ''node'' ''machine'' [ex_iface 1] [0, 2] 10001 None None None = Inr buf \<and>
     parse_peer_addr buf = Inr (Some pa) \<and> pa_node_id pa = ''node'' \<and> pa_signal pa = [0, 2] \<and>
     own_info IP4 10001 0 (ex_iface 1) = Inr (Some info) \<and> pa_infos pa IP4 = [(0, info)] \<and> pa_infos pa IP6 = []) \<and>
   (\<exists>buf. make_peer_addr ''node'' ''machine'' [ex_iface (- 1)] [0, 2] 10001 None None None = Inr buf \<and> parse_peer_addr buf = Inr None)"
proof -
  obtain buf where buf: "make_peer_addr ''node'' ''machine'' [ex_iface 1] [0, 2] 10001 None None None = Inr buf"
    using ex_make by blast
  obtain neg where neg: "make_peer_addr ''node'' ''machine'' [ex_iface (- 1)] [0, 2] 10001 None None None = Inr neg"
    using ex_make by blast
  have n: "numbered (ex_iface v)" "in_text (ex_iface v)" "delta_value (nat_delta (if_nat (ex_iface v))) = v" for v
    by (simp_all add: numbered_def in_text_def ex_iface_def nat_info_def delta_info_def nat_consts Let_def)
  obtain r where r: "iface_route (ex_iface 1) IP4 = Inr r" "rt_nic_ips r = [ex_ipr 0xC0A80001 32]"
    "rt_ext_ips r = [ex_ipr 0x08080808 32]" using ex_iface_route by blast
  obtain e m where em: "IPRange (IpStr (ip_exploded (IPv4Address 0x08080808))) None (Some CIDR_WAN) = Inr e"
    "IPRange (IpStr (ip_exploded (IPv4Address 0xC0A80001))) None (Some CIDR_WAN) = Inr m"
    using IPRange_wan_exploded [of "IPv4Address 0x08080808"] IPRange_wan_exploded [of "IPv4Address 0xC0A80001"] by auto
  have "\<exists>info. own_info IP4 10001 0 (ex_iface 1) = Inr (Some info) \<and> ii_if_index info = 0"
    using r em by (simp add: own_info_def info_int_ip_def route_nic_def route_ext_ip_def first_of_def py_get_def ex_ipr_norm
        del: ip_exploded.simps) (simp add: ex_iface_def)
  then obtain info where info: "own_info IP4 10001 0 (ex_iface 1) = Inr (Some info)" "ii_if_index info = 0" by blast
  moreover have "own_info IP6 10001 0 (ex_iface 1) = Inr None" by (simp add: own_info_def ex_iface_def)
  ultimately show ?thesis
    using buf neg peer_addr_roundtrip [OF buf] peer_addr_roundtrip [OF neg] n by (auto simp: keyed_def in_range_def mqtt_server_no_def)
qed

text \<open>Parsing raises nothing but the \<open>ValueError\<close> of a bad signal offset, and its sanity check is
  without effect: addresses it rejects are returned all the same. The functions that look through a
  parsed address fail on every address that names an interface, so no address is ever our own.\<close>

theorem parsed_addr_not_validated:
  "parse_peer_addr t \<in> insert (Inl ValueError) (range Inr) \<and>
   is_p2p_addr_us t ifs \<noteq> Inr True \<and>
   (\<exists>pa. parse_peer_addr ''None-[0,0,1.1.1.1,1.1.1.1,0,9,9,0]-0-n-m'' = Inr (Some pa) \<and>
      validate_peer_addr pa = None \<and> peer_addr_extract_exts pa = Inl TypeError)"
proof (intro conjI)
  have "py_int 10 s = Inl e \<Longrightarrow> e = ValueError" for s e by (auto simp: py_int_def Let_def split: if_splits prod.splits)
  then have "rmap_list (py_int 10) ss = Inl e \<Longrightarrow> e = ValueError" for ss e
    by (induction ss) (auto simp: rbind_eq_Err)
  then have "parse_peer_addr t = Inl e \<Longrightarrow> e = ValueError" for e
    by (auto simp: parse_peer_addr_def parse_signal_def rbind_eq_Err Let_def split: list.splits if_splits)
  then show "parse_peer_addr t \<in> insert (Inl ValueError) (range Inr)"
    by (cases "parse_peer_addr t") auto
  have "rbind (over_keys a) (\<lambda>_. rbind (over_keys b) (\<lambda>_. Inr False)) \<noteq> Inr True" for a b
    by (cases a; cases b) auto
  then show "is_p2p_addr_us t ifs \<noteq> Inr True"
    by (auto simp: is_p2p_addr_us_def rbind_eq_Ok split: option.splits)
  obtain r where r: "IPRange (IpStr (ip_exploded (IPv4Address 0x01010101))) None (Some CIDR_WAN) = Inr r"
    using IPRange_wan_exploded [of "IPv4Address 0x01010101"] by auto
  have t: "ip_exploded (IPv4Address 0x01010101) = ''1.1.1.1''" by (simp add: eval_simps)
  have "\<exists>info. parse_info ''[0,0,1.1.1.1,1.1.1.1,0,9,9,0]'' = Some info \<and> ii_port info = 0"
    using r unfolding t by (simp add: parse_info_def isnumeric_def is_digit_def digit_val_def num_val_def Let_def)
  then show "\<exists>pa. parse_peer_addr ''None-[0,0,1.1.1.1,1.1.1.1,0,9,9,0]-0-n-m'' = Inr (Some pa) \<and>
      validate_peer_addr pa = None \<and> peer_addr_extract_exts pa = Inl TypeError"
    by (auto simp: parse_peer_addr_def parse_signal_def parse_af_part_def validate_peer_addr_def VALID_AFS_def
        validate_info_def in_range_def peer_addr_extract_exts_def Let_def)
qed

end
