(* ===== verification/Pnp_Packet.thy ===== *)
theory Pnp_Packet
  imports Py_Utils Ip_Text
begin

text \<open>
  \<^verbatim>\<open>protocol/pnp/pnp_utils.py\<close>, \<^verbatim>\<open>pnp_client.py\<close> and \<^verbatim>\<open>node/nickname.py\<close>: the packets of the
  naming protocol, the requests of its client, and the names with a suffix that tells which servers
  hold them. Signatures and encryption belong to libraries and are parameters.
\<close>

section \<open>Packets\<close>

definition PNP_NAME_LEN :: nat where "PNP_NAME_LEN = 50"
definition PNP_VAL_LEN :: nat where "PNP_VAL_LEN = 500"
definition BEHAVIOR_DO_BUMP :: int where "BEHAVIOR_DO_BUMP = 1"
definition BEHAVIOR_DONT_BUMP :: int where "BEHAVIOR_DONT_BUMP = 0"

record pnp_packet =
  pp_name :: bytes
  pp_value :: bytes
  pp_vkc :: "bytes option"
  pp_sig :: "bytes option"
  pp_updated :: int
  pp_behavior :: int
  pp_pkid :: int
  pp_reply_pk :: "bytes option"

definition name_len :: "pnp_packet \<Rightarrow> nat" where
  "name_len p = min (length (pp_name p)) PNP_NAME_LEN"

definition value_len :: "pnp_packet \<Rightarrow> nat" where
  "value_len p = min (length (pp_value p)) PNP_VAL_LEN"

text \<open>The constructor, with the random packet id an id of zero is replaced by; \<open>updated\<close> is always given.\<close>

definition PNPPacket ::
  "int \<Rightarrow> bytes \<Rightarrow> bytes \<Rightarrow> bytes option \<Rightarrow> bytes option \<Rightarrow> int \<Rightarrow> int \<Rightarrow> int \<Rightarrow> bytes option \<Rightarrow> pnp_packet res" where
  "PNPPacket rnd name val vkc sig updated behavior pkid reply_pk =
     rbind (rassert (case vkc of None \<Rightarrow> True | Some v \<Rightarrow> length v = 33)) (\<lambda>_.
       Ok \<lparr>pp_name = name, pp_value = val, pp_vkc = vkc, pp_sig = sig, pp_updated = updated, pp_behavior = behavior,
           pp_pkid = (if pkid = 0 then rnd else pkid), pp_reply_pk = reply_pk\<rparr>)"

definition opt_bytes :: "bytes option \<Rightarrow> bytes" where
  "opt_bytes o' = (case o' of None \<Rightarrow> [] | Some b \<Rightarrow> b)"

definition pnp_pack :: "pnp_packet \<Rightarrow> bytes res" where
  "pnp_pack p =
     rbind (pack_le 4 (pp_pkid p)) (\<lambda>pkid.
     rbind (rassert (case pp_reply_pk p of None \<Rightarrow> True | Some k \<Rightarrow> length k = 33)) (\<lambda>_.
     rbind (byte_of_int (pp_behavior p)) (\<lambda>behavior.
     rbind (pack_le 8 (pp_updated p)) (\<lambda>updated.
     rbind (pack_le 2 (int (name_len p))) (\<lambda>nl.
     rbind (pack_le 2 (int (value_len p))) (\<lambda>vl.
       Ok (pkid @ (case pp_reply_pk p of None \<Rightarrow> replicate 33 0 | Some k \<Rightarrow> k) @ behavior @ updated @ nl @ vl @
           take PNP_NAME_LEN (pp_name p) @ take PNP_VAL_LEN (pp_value p) @
           opt_bytes (pp_vkc p) @ opt_bytes (pp_sig p))))))))"

text \<open>
  The bytes a signature is made of: the packet without its signature. A packet whose id came out as
  zero draws another one here.
\<close>

definition get_msg_to_sign :: "int \<Rightarrow> pnp_packet \<Rightarrow> bytes res" where
  "get_msg_to_sign rnd p =
     rbind (PNPPacket rnd (pp_name p) (pp_value p) (pp_vkc p) None (pp_updated p) (pp_behavior p) (pp_pkid p) (pp_reply_pk p))
       pnp_pack"

definition is_valid_sig :: "(bytes \<Rightarrow> bytes \<Rightarrow> bytes \<Rightarrow> bool) \<Rightarrow> int \<Rightarrow> pnp_packet \<Rightarrow> bool res" where
  "is_valid_sig verify rnd p =
     (case pp_vkc p of
        None \<Rightarrow> Err TypeError
      | Some vk \<Rightarrow> rbind (get_msg_to_sign rnd p) (\<lambda>msg.
          Ok (case pp_sig p of None \<Rightarrow> False | Some sig \<Rightarrow> verify vk sig msg)))"

definition pnp_unpack :: "int \<Rightarrow> bytes \<Rightarrow> pnp_packet res" where
  "pnp_unpack rnd buf =
     rbind (unpack_le 4 (slice 0 4 buf)) (\<lambda>pkid.
     let reply_pk = slice 4 37 buf in
     rbind (py_get buf 37) (\<lambda>behavior.
     rbind (unpack_le 8 (slice 38 46 buf)) (\<lambda>updated.
     rbind (unpack_le 2 (slice 46 48 buf)) (\<lambda>name_len.
     rbind (unpack_le 2 (slice 48 50 buf)) (\<lambda>val_len.
     let body = drop 50 buf; rest = drop (nat name_len) body; tl' = drop (nat val_len) rest
     in PNPPacket rnd (take (nat name_len) body) (take (nat val_len) rest) (Some (take 33 tl')) (Some (drop 33 tl'))
          updated (uint behavior) pkid (if reply_pk = replicate 33 0 then None else Some reply_pk))))))"

section \<open>The client\<close>

text \<open>
  The time stamp of a change: the corrected clock the first time, later the local clock at the first
  of the given readings (one a second) that differs from the last stamp; None while waiting.
\<close>

definition get_updated :: "bytes \<Rightarrow> int \<Rightarrow> int list \<Rightarrow> (bytes \<times> int) list \<Rightarrow> (int \<times> (bytes \<times> int) list) option" where
  "get_updated name sys_time local_times names =
     (case map_of names name of
        None \<Rightarrow> Some (sys_time, dict_set name sys_time names)
      | Some prev \<Rightarrow> map_option (\<lambda>t. (t, dict_set name t names)) (find (\<lambda>t. t \<noteq> prev) local_times))"

text \<open>What a client sends: the bytes to sign and the signature (empty for a fetch), before encryption.\<close>

definition send_pkt :: "int \<Rightarrow> (bytes \<Rightarrow> bytes) option \<Rightarrow> bytes \<Rightarrow> pnp_packet \<Rightarrow> bytes res" where
  "send_pkt rnd sign reply_pk p =
     rbind (get_msg_to_sign rnd (p\<lparr>pp_reply_pk := Some reply_pk\<rparr>)) (\<lambda>msg.
       Ok (msg @ (case sign of None \<Rightarrow> [] | Some f \<Rightarrow> f msg)))"

definition pnp_fetch :: "int \<Rightarrow> int \<Rightarrow> bytes \<Rightarrow> bytes \<Rightarrow> bytes \<Rightarrow> bytes res" where
  "pnp_fetch rnd now vkc reply_pk name =
     rbind (PNPPacket rnd name [] (Some vkc) None now BEHAVIOR_DO_BUMP 0 None) (send_pkt rnd None reply_pk)"

definition pnp_push :: "int \<Rightarrow> (bytes \<Rightarrow> bytes) \<Rightarrow> bytes \<Rightarrow> bytes \<Rightarrow> bytes \<Rightarrow> bytes \<Rightarrow> int \<Rightarrow> int \<Rightarrow> bytes res" where
  "pnp_push rnd sign vkc reply_pk name val behavior t =
     rbind (PNPPacket rnd name val (Some vkc) None t behavior 0 None) (send_pkt rnd (Some sign) reply_pk)"

definition pnp_delete :: "int \<Rightarrow> (bytes \<Rightarrow> bytes) \<Rightarrow> bytes \<Rightarrow> bytes \<Rightarrow> bytes \<Rightarrow> int \<Rightarrow> bytes res" where
  "pnp_delete rnd sign vkc reply_pk name t =
     rbind (PNPPacket rnd name [] (Some vkc) None t BEHAVIOR_DO_BUMP 0 None) (send_pkt rnd (Some sign) reply_pk)"

text \<open>The decrypted reply: a time stamp of zero stands for no value; any failure is None.\<close>

definition return_resp :: "int \<Rightarrow> bytes option \<Rightarrow> (pnp_packet \<times> bytes option) option" where
  "return_resp rnd buf =
     (case buf of None \<Rightarrow> None
      | Some b \<Rightarrow> (case pnp_unpack rnd b of
          Inl _ \<Rightarrow> None
        | Inr p \<Rightarrow> Some (p, if pp_updated p = 0 then None else Some (pp_value p))))"

section \<open>Names with a suffix\<close>

definition PNP_TLDS :: "(string \<times> nat list) list" where
  "PNP_TLDS = [(''.p2p'', [0]), (''.node'', [1]), (''.peer'', [0, 1])]"

definition pnp_get_tld :: "nat list \<Rightarrow> string res" where
  "pnp_get_tld offsets =
     (case find (\<lambda>(_, ix). set ix = set offsets) PNP_TLDS of Some (tld, _) \<Rightarrow> Ok tld | None \<Rightarrow> Err KeyError)"

definition pnp_get_offsets :: "string \<Rightarrow> nat list res" where
  "pnp_get_offsets tld = dict_get tld PNP_TLDS"

text \<open>\<open>name[-n:]\<close> and \<open>name[:-n]\<close> for \<open>n > 0\<close>; both clamp at the start of a short name.\<close>

definition last_n :: "nat \<Rightarrow> 'a list \<Rightarrow> 'a list" where
  "last_n n xs = drop (length xs - n) xs"

definition but_last_n :: "nat \<Rightarrow> 'a list \<Rightarrow> 'a list" where
  "but_last_n n xs = take (length xs - n) xs"

definition pnp_name_has_tld :: "string \<Rightarrow> bool" where
  "pnp_name_has_tld name = list_ex (\<lambda>(tld, _). last_n (length tld) name = tld) PNP_TLDS"

definition pnp_strip_tlds :: "string \<Rightarrow> string" where
  "pnp_strip_tlds name =
     (case find (\<lambda>(tld, _). last_n (length tld) name = tld) PNP_TLDS of
        None \<Rightarrow> name
      | Some (tld, _) \<Rightarrow> but_last_n (length tld) name)"

text \<open>
  \<open>push\<close>, given for each of the two worker offsets the outcome over its address families: None for an
  absent client, otherwise the reply of its request (None for a failed request). The families are
  tried in order until one reply has a value.
\<close>

definition push_worker :: "nat \<Rightarrow> (af \<Rightarrow> (pnp_packet \<times> bytes option) option option) \<Rightarrow> nat option" where
  "push_worker offset client =
     (if list_ex (\<lambda>af. case client af of Some (Some (_, Some _)) \<Rightarrow> True | _ \<Rightarrow> False) [IP4, IP6] then Some offset else None)"

definition nick_push :: "string \<Rightarrow> (nat \<Rightarrow> af \<Rightarrow> (pnp_packet \<times> bytes option) option option) \<Rightarrow> string res" where
  "nick_push name clients =
     (let name = pnp_strip_tlds name;
          offsets = strip_none (map (\<lambda>o'. push_worker o' (clients o')) [0, 1])
      in if offsets = [] then Err (PyException ''All name servers failed.'')
         else rbind (pnp_get_tld offsets) (\<lambda>tld. Ok (name @ tld)))"

text \<open>
  \<open>fetch\<close>: the servers of the suffix are asked; \<open>answers\<close> are the replies in the order they come in.
  A worker that got no reply yields None, which the loop subscripts.
\<close>

definition fetch_split :: "string \<Rightarrow> string \<times> string" where
  "fetch_split name = (let tld = CHR ''.'' # last (split_on CHR ''.'' name) in (but_last_n (length tld) name, tld))"

fun fetch_first :: "(pnp_packet \<times> bytes option) option list \<Rightarrow> (pnp_packet \<times> bytes option) res" where
  "fetch_first [] = Err (PyException ''Could not fetch'')"
| "fetch_first (None # _) = Err AttributeError"
| "fetch_first (Some (p, Some v) # _) = Ok (p, Some v)"
| "fetch_first (Some (p, None) # rs) = fetch_first rs"

definition nick_fetch ::
  "string \<Rightarrow> (string \<Rightarrow> nat list \<Rightarrow> (pnp_packet \<times> bytes option) option list) \<Rightarrow> (pnp_packet \<times> bytes option) res" where
  "nick_fetch name answers =
     (let (name', tld) = fetch_split name
      in rbind (pnp_get_offsets tld) (\<lambda>offsets. fetch_first (answers name' offsets)))"

section \<open>Packing and unpacking\<close>

lemma byte_of_int_Ok: "byte_of_int n = Inr b \<Longrightarrow> \<exists>x. b = [x] \<and> uint x = n"
  by (auto simp: byte_of_int_def uint_word_of_int split: if_splits)

text \<open>What the reader finds in a buffer laid out field by field.\<close>

lemma unpack_layout:
  assumes "length a = 4" "length k = 33" "length d = 8" "length e = 2" "length f = 2" "length v = 33"
    "unpack_le 4 a = Inr pkid" "unpack_le 8 d = Inr t" "unpack_le 2 e = Inr (int (length n))" "unpack_le 2 f = Inr (int (length w))"
  shows "pnp_unpack rnd (a @ k @ [c] @ d @ e @ f @ n @ w @ v @ s) =
    PNPPacket rnd n w (Some v) (Some s) t (uint c) pkid (if k = replicate 33 0 then None else Some k)"
  using assms by (simp add: pnp_unpack_def slice_def py_get_def Let_def nth_append del: replicate_numeral)

lemma PNPPacket_Ok [simp]:
  "PNPPacket rnd name val vkc sig updated behavior pkid reply_pk = Inr p \<longleftrightarrow>
     (case vkc of None \<Rightarrow> True | Some v \<Rightarrow> length v = 33) \<and>
     p = \<lparr>pp_name = name, pp_value = val, pp_vkc = vkc, pp_sig = sig, pp_updated = updated, pp_behavior = behavior,
          pp_pkid = (if pkid = 0 then rnd else pkid), pp_reply_pk = reply_pk\<rparr>"
  by (auto simp: PNPPacket_def rbind_eq_Ok)

lemma pnp_pack_Ok:
  assumes "pnp_pack p = Inr buf"
  obtains a k c d e f where
    "buf = a @ k @ [c] @ d @ e @ f @ take PNP_NAME_LEN (pp_name p) @ take PNP_VAL_LEN (pp_value p) @
       opt_bytes (pp_vkc p) @ opt_bytes (pp_sig p)"
    "length a = 4" "length k = 33" "length d = 8" "length e = 2" "length f = 2" "uint c = pp_behavior p"
    "unpack_le 4 a = Inr (pp_pkid p)" "unpack_le 8 d = Inr (pp_updated p)" "unpack_le 2 e = Inr (int (name_len p))"
    "unpack_le 2 f = Inr (int (value_len p))" "k = (case pp_reply_pk p of None \<Rightarrow> replicate 33 0 | Some k \<Rightarrow> k)"
proof -
  from assms obtain a b d e f where o: "pack_le 4 (pp_pkid p) = Inr a"
    "(case pp_reply_pk p of None \<Rightarrow> True | Some k \<Rightarrow> length k = 33)" "byte_of_int (pp_behavior p) = Inr b"
    "pack_le 8 (pp_updated p) = Inr d" "pack_le 2 (int (name_len p)) = Inr e" "pack_le 2 (int (value_len p)) = Inr f"
    "buf = a @ (case pp_reply_pk p of None \<Rightarrow> replicate 33 0 | Some k \<Rightarrow> k) @ b @ d @ e @ f @
       take PNP_NAME_LEN (pp_name p) @ take PNP_VAL_LEN (pp_value p) @ opt_bytes (pp_vkc p) @ opt_bytes (pp_sig p)"
    unfolding pnp_pack_def by (auto simp: rbind_eq_Ok simp del: replicate_numeral)
  obtain c where c: "b = [c]" "uint c = pp_behavior p" using byte_of_int_Ok [OF o(3)] by blast
  have k: "length (case pp_reply_pk p of None \<Rightarrow> replicate 33 0 | Some k \<Rightarrow> k) = 33"
    using o(2) by (auto split: option.splits)
  show thesis
    using o c k pack_le_length unpack_pack_le
    by (intro that [of a "case pp_reply_pk p of None \<Rightarrow> replicate 33 0 | Some k \<Rightarrow> k" c d e f]) (auto split: option.splits)
qed

text \<open>The packet as the receiver sees it: texts cut to their limits, an absent signature is empty.\<close>

definition received :: "bytes \<Rightarrow> pnp_packet \<Rightarrow> pnp_packet" where
  "received sig p = p\<lparr>pp_name := take PNP_NAME_LEN (pp_name p), pp_value := take PNP_VAL_LEN (pp_value p),
     pp_sig := Some sig,
     pp_reply_pk := (if pp_reply_pk p = Some (replicate 33 0) then None else pp_reply_pk p)\<rparr>"

lemma pnp_unpack_pack:
  assumes "pnp_pack p = Inr buf" "pp_vkc p = Some v" "length v = 33" "pp_sig p = None" "pp_pkid p \<noteq> 0"
  shows "pnp_unpack rnd (buf @ sig) = Inr (received sig p)"
proof -
  obtain a k c d e f where o: "buf = a @ k @ [c] @ d @ e @ f @ take PNP_NAME_LEN (pp_name p) @ take PNP_VAL_LEN (pp_value p) @
       opt_bytes (pp_vkc p) @ opt_bytes (pp_sig p)"
    "length a = 4" "length k = 33" "length d = 8" "length e = 2" "length f = 2" "uint c = pp_behavior p"
    "unpack_le 4 a = Inr (pp_pkid p)" "unpack_le 8 d = Inr (pp_updated p)" "unpack_le 2 e = Inr (int (name_len p))"
    "unpack_le 2 f = Inr (int (value_len p))" "k = (case pp_reply_pk p of None \<Rightarrow> replicate 33 0 | Some k \<Rightarrow> k)"
    using assms(1) by (rule pnp_pack_Ok)
  have l: "unpack_le 2 e = Inr (int (length (take PNP_NAME_LEN (pp_name p))))"
    "unpack_le 2 f = Inr (int (length (take PNP_VAL_LEN (pp_value p))))"
    using o(10,11) by (simp_all add: name_len_def value_len_def)
  have "buf @ sig = a @ k @ [c] @ d @ e @ f @ take PNP_NAME_LEN (pp_name p) @ take PNP_VAL_LEN (pp_value p) @ v @ sig"
    using o(1) assms(2,4) by (simp add: opt_bytes_def)
  then show ?thesis
    using unpack_layout [OF o(2-6) assms(3) o(8,9) l, of rnd c sig] assms(2-5) o(7,12)
    by (auto simp: received_def PNPPacket_def split: option.splits)
qed

text \<open>Cutting a text twice is cutting it once, so the receiver signs the same bytes.\<close>

lemma msg_of_received:
  assumes "pp_pkid p \<noteq> 0"
  shows "get_msg_to_sign rnd (received sig p) = get_msg_to_sign rnd' p"
  using assms
  by (cases "case pp_vkc p of None \<Rightarrow> True | Some v \<Rightarrow> length v = 33")
    (simp_all add: get_msg_to_sign_def PNPPacket_def received_def pnp_pack_def name_len_def value_len_def opt_bytes_def
      min.commute min.left_commute del: replicate_numeral split: option.splits)


section \<open>Suffixes\<close>

lemma subset_01: "set offsets \<subseteq> {0, 1 :: nat} \<Longrightarrow> offsets \<noteq> [] \<Longrightarrow> set offsets = {0} \<or> set offsets = {1} \<or> set offsets = {0, 1}"
  using Pow_insert [of "0 :: nat" "{1}"] Pow_insert [of "1 :: nat" "{}"] PowI [of "set offsets" "{0, 1}"]
  by (simp add: image_Un) blast

lemma pnp_get_tld_total:
  assumes "set offsets \<subseteq> {0, 1}" "offsets \<noteq> []"
  shows "\<exists>t ix. pnp_get_tld offsets = Inr (CHR ''.'' # t) \<and> pnp_get_offsets (CHR ''.'' # t) = Inr ix \<and> set ix = set offsets \<and>
    CHR ''.'' \<notin> set t"
  using subset_01 [OF assms]
proof (elim disjE)
  assume "set offsets = {0}"
  then show ?thesis
    by (intro exI [of _ "''p2p''"] exI [of _ "[0]"]) (simp add: pnp_get_tld_def pnp_get_offsets_def PNP_TLDS_def dict_get_def)
next
  assume "set offsets = {1}"
  then show ?thesis
    by (intro exI [of _ "''node''"] exI [of _ "[1]"]) (simp add: pnp_get_tld_def pnp_get_offsets_def PNP_TLDS_def dict_get_def)
next
  assume "set offsets = {0, 1}"
  then show ?thesis
    by (intro exI [of _ "''peer''"] exI [of _ "[0, 1]"]) (simp add: pnp_get_tld_def pnp_get_offsets_def PNP_TLDS_def dict_get_def)
qed

lemma split_on_sep: "split_on c (s @ c # t) = split_on c s @ split_on c t"
  by (induction s) (auto split: list.splits)

lemma last_split_on: "CHR ''.'' \<notin> set t \<Longrightarrow> last (split_on CHR ''.'' (s @ CHR ''.'' # t)) = t"
  by (simp add: split_on_sep split_on_part)

lemma fetch_split_tld: "CHR ''.'' \<notin> set t \<Longrightarrow> fetch_split (s @ CHR ''.'' # t) = (s, CHR ''.'' # t)"
  by (simp add: fetch_split_def Let_def last_split_on but_last_n_def)

section \<open>Properties\<close>

text \<open>C33: what a client pushes is its message followed by a signature of exactly this message; the server
  that unpacks it finds this signature, rebuilds the same bytes to check it against, and reads the owner's
  key, the time stamp, the behaviour and the texts cut to 50 and 500 bytes.\<close>

theorem server_sees_signed_bytes:
  assumes "pnp_push rnd sign vkc reply_pk name val behavior t = Inr buf" and "rnd \<noteq> 0"
  shows "\<exists>msg p. buf = msg @ sign msg \<and> pnp_unpack rnd' buf = Inr p \<and> pp_sig p = Some (sign msg) \<and>
    get_msg_to_sign rnd' p = Inr msg \<and> pp_vkc p = Some vkc \<and> pp_updated p = t \<and> pp_behavior p = behavior \<and>
    pp_name p = take 50 name \<and> pp_value p = take 500 val \<and> pp_pkid p = rnd"
proof -
  define p0 where "p0 = \<lparr>pp_name = name, pp_value = val, pp_vkc = Some vkc, pp_sig = None, pp_updated = t,
    pp_behavior = behavior, pp_pkid = rnd, pp_reply_pk = Some reply_pk\<rparr>"
  obtain msg where m: "length vkc = 33" "pnp_pack p0 = Inr msg" "buf = msg @ sign msg"
    using assms by (auto simp: pnp_push_def send_pkt_def get_msg_to_sign_def rbind_eq_Ok p0_def)
  have g: "get_msg_to_sign rnd' p0 = Inr msg"
    using m assms(2) by (simp add: get_msg_to_sign_def PNPPacket_def p0_def)
  have "pnp_unpack rnd' buf = Inr (received (sign msg) p0)"
    unfolding m(3) by (rule pnp_unpack_pack [OF m(2) _ m(1)]) (simp_all add: p0_def assms(2))
  moreover have "get_msg_to_sign rnd' (received (sign msg) p0) = Inr msg"
    using msg_of_received [of p0 rnd' "sign msg" rnd'] g assms(2) by (simp add: p0_def)
  ultimately show ?thesis
    using m(3) by (intro exI [of _ msg] exI [of _ "received (sign msg) p0"])
      (simp add: received_def p0_def PNP_NAME_LEN_def PNP_VAL_LEN_def)
qed

theorem server_sees_signed_bytes_witness:
  "\<exists>buf msg p. pnp_push 5 (\<lambda>m. [7]) (replicate 33 3) (replicate 33 2) [97] [118] 1 1000000 = Inr buf \<and> buf = msg @ [7] \<and>
     pnp_unpack 9 buf = Inr p \<and> pp_sig p = Some [7] \<and> get_msg_to_sign 9 p = Inr msg \<and> pp_name p = [97]"
proof -
  have "\<exists>buf. pnp_push 5 (\<lambda>m. [7]) (replicate 33 3) (replicate 33 2) [97] [118] 1 1000000 = Inr buf"
    by (simp add: pnp_push_def send_pkt_def get_msg_to_sign_def PNPPacket_def pnp_pack_def name_len_def value_len_def
        PNP_NAME_LEN_def PNP_VAL_LEN_def pack_le_def byte_of_int_def)
  then obtain buf where b: "pnp_push 5 (\<lambda>m. [7]) (replicate 33 3) (replicate 33 2) [97] [118] 1 1000000 = Inr buf" by blast
  show ?thesis using server_sees_signed_bytes [OF b, of 9] b by (auto simp: exI)
qed

text \<open>A name stored at some of the two servers comes back with a suffix from which a fetch recovers the
  bare name and exactly the servers that hold it; when no server stored it the push raises.\<close>

theorem nick_push_fetch_offsets:
  "let ok = filter (\<lambda>o'. push_worker o' (clients o') = Some o') [0, 1]
   in ok = [] \<and> nick_push name clients = Inl (PyException ''All name servers failed.'') \<or>
      (\<exists>full tld ix. ok \<noteq> [] \<and> nick_push name clients = Inr full \<and> fetch_split full = (pnp_strip_tlds name, tld) \<and>
         pnp_get_offsets tld = Inr ix \<and> set ix = set ok)"
proof -
  define ok where "ok = filter (\<lambda>o'. push_worker o' (clients o') = Some o') [0, 1]"
  have "strip_none (map (\<lambda>o'. push_worker o' (clients o')) [0, 1]) = ok"
    by (simp add: ok_def push_worker_def strip_none_def)
  then have e: "nick_push name clients =
      (if ok = [] then Err (PyException ''All name servers failed.'')
       else rbind (pnp_get_tld ok) (\<lambda>tld. Ok (pnp_strip_tlds name @ tld)))"
    by (simp add: nick_push_def)
  have "ok = [] \<and> nick_push name clients = Inl (PyException ''All name servers failed.'') \<or>
      (\<exists>full tld ix. ok \<noteq> [] \<and> nick_push name clients = Inr full \<and> fetch_split full = (pnp_strip_tlds name, tld) \<and>
         pnp_get_offsets tld = Inr ix \<and> set ix = set ok)"
  proof (cases "ok = []")
    case False
    have "set ok \<subseteq> {0, 1}" by (auto simp: ok_def)
    then obtain t ix where "pnp_get_tld ok = Inr (CHR ''.'' # t)" "pnp_get_offsets (CHR ''.'' # t) = Inr ix"
      "set ix = set ok" "CHR ''.'' \<notin> set t"
      using pnp_get_tld_total [OF _ False] by blast
    then show ?thesis using e False by (auto simp: fetch_split_tld)
  qed (simp add: e)
  then show ?thesis unfolding ok_def Let_def .
qed

text \<open>Fetching is decided by the first answers: a server that answered without a value is passed over, but
  one whose request failed aborts the fetch with AttributeError, although a later server has the name.\<close>

theorem fetch_stops_at_failed_server:
  "fetch_first (map (\<lambda>p. Some (p, None)) ps @ None # rs) = Inl AttributeError \<and>
   fetch_first (map (\<lambda>p. Some (p, None)) ps @ Some (p, Some v) # rs) = Inr (p, Some v) \<and>
   fetch_first (map (\<lambda>p. Some (p, None)) ps) = Inl (PyException ''Could not fetch'')"
  by (induction ps) simp_all

end
