(* ===== verification/Pnp_Server.thy ===== *)
theory Pnp_Server
  imports Pnp_Packet Ip_Range
begin

text \<open>
  \<^verbatim>\<open>protocol/pnp/pnp_server.py\<close>: the naming server over its three tables (schema:
  \<^verbatim>\<open>scripts/pnp.sql\<close>). A table is the list of its rows; each SQL statement of the source is the list
  operation it describes, in the database's default strict mode: a number outside an unsigned column
  and a negative unsigned difference raise. Requests are handled one at a time; a transaction that
  does not commit leaves the state of the last commit.
\<close>

section \<open>Tables\<close>

record name_row =
  nm_id :: int
  nm_name :: bytes
  nm_value :: bytes
  nm_owner :: bytes
  nm_af :: int
  nm_ip_id :: int
  nm_timestamp :: int

record v4_row =
  v4_id :: int
  v4_val :: int
  v4_timestamp :: int

record v6_row =
  v6_id :: int
  v6_parts :: "int \<times> int \<times> int \<times> int"
  v6_timestamp :: int

text \<open>The tables with the next automatic ids.\<close>

record pnp_db =
  db_names :: "name_row list"
  db_v4s :: "v4_row list"
  db_v6s :: "v6_row list"
  db_name_id :: int
  db_v4_id :: int
  db_v6_id :: int

record pnp_conf =
  v4_name_limit :: int
  v6_name_limit :: int
  min_name_duration :: int
  v6_addr_expiry :: int
  v6_subnet_limit :: int
  v6_iface_limit :: int
  serv_reply_pk :: bytes
  af_no :: "af \<Rightarrow> int"

definition MIN_NAME_DURATION :: int where "MIN_NAME_DURATION = 604800"
definition MIN_DURATION_PENALTY :: int where "MIN_DURATION_PENALTY = 60"

definition DataError :: pyerr where "DataError = PyException ''DataError''"

definition u64 :: "int \<Rightarrow> int res" where
  "u64 n = (if 0 \<le> n \<and> n < 2 ^ 64 then Ok n else Err DataError)"

definition varbinary :: "nat \<Rightarrow> bytes \<Rightarrow> bytes res" where
  "varbinary k b = (if length b \<le> k then Ok b else Err DataError)"

section \<open>Addresses\<close>

definition get_v6_parts :: "iprange \<Rightarrow> (int \<times> int \<times> int \<times> int) res" where
  "get_v6_parts ipr =
     rbind (ipr_norm ipr) (\<lambda>s.
     let strip_colons = filter (\<lambda>c. c \<noteq> CHR '':'')
     in rbind (py_int 16 (strip_colons (take 9 s))) (\<lambda>a.
        rbind (py_int 16 (slice 10 14 s)) (\<lambda>b.
        rbind (py_int 16 (slice 15 19 s)) (\<lambda>c.
        rbind (py_int 16 (strip_colons (drop 20 s))) (\<lambda>d. Ok (a, b, c, d))))))"

text \<open>Distinct subnets of the global prefix, and addresses in the subnet.\<close>

definition v6_range_usage :: "int \<times> int \<times> int \<times> int \<Rightarrow> v6_row list \<Rightarrow> nat \<times> nat" where
  "v6_range_usage p rows =
     (let (main, extra, lan, _) = p;
          subnets = remdups (map (\<lambda>r. fst (snd (snd (v6_parts r))))
                      (filter (\<lambda>r. fst (v6_parts r) = main \<and> fst (snd (v6_parts r)) = extra) rows));
          ifaces = filter (\<lambda>r. fst (v6_parts r) = main \<and> fst (snd (v6_parts r)) = extra \<and> fst (snd (snd (v6_parts r))) = lan) rows
      in (length subnets, length ifaces))"

definition v6_exists :: "int \<times> int \<times> int \<times> int \<Rightarrow> v6_row list \<Rightarrow> bool \<times> v6_row option" where
  "v6_exists p rows =
     (let (main, extra, lan, _) = p
      in (list_ex (\<lambda>r. fst (v6_parts r) = main \<and> fst (snd (v6_parts r)) = extra \<and> fst (snd (snd (v6_parts r))) = lan) rows,
          find (\<lambda>r. v6_parts r = p) rows))"

definition v6_insert :: "int \<times> int \<times> int \<times> int \<Rightarrow> int \<Rightarrow> pnp_db \<Rightarrow> (int \<times> pnp_db) res" where
  "v6_insert p now db =
     rbind (u64 now) (\<lambda>_.
       Ok (db_v6_id db, db\<lparr>db_v6s := db_v6s db @ [\<lparr>v6_id = db_v6_id db, v6_parts = p, v6_timestamp = now\<rparr>],
                           db_v6_id := db_v6_id db + 1\<rparr>))"

definition record_v6 :: "pnp_conf \<Rightarrow> int \<Rightarrow> iprange \<Rightarrow> pnp_db \<Rightarrow> (int \<times> pnp_db) res" where
  "record_v6 conf now ipr db =
     rbind (get_v6_parts ipr) (\<lambda>p.
     let (subnets_used, ifaces_used) = v6_range_usage p (db_v6s db); (lan_exists, r) = v6_exists p (db_v6s db)
     in case r of
          Some row \<Rightarrow> Ok (v6_id row, db)
        | None \<Rightarrow>
            if \<not> (lan_exists \<or> int subnets_used < v6_subnet_limit conf) then Err (PyException ''IPv6 subnet limit reached.'')
            else if \<not> int ifaces_used < v6_iface_limit conf then Err (PyException ''IPv6 iface limit reached.'')
            else v6_insert p now db)"

definition record_v4 :: "int \<Rightarrow> iprange \<Rightarrow> pnp_db \<Rightarrow> (int \<times> pnp_db) res" where
  "record_v4 now ipr db =
     (case find (\<lambda>r. v4_val r = ipr_int ipr) (db_v4s db) of
        Some row \<Rightarrow> Ok (v4_id row, db)
      | None \<Rightarrow> rbind (u64 now) (\<lambda>_.
          Ok (db_v4_id db, db\<lparr>db_v4s := db_v4s db @ [\<lparr>v4_id = db_v4_id db, v4_val = ipr_int ipr, v4_timestamp = now\<rparr>],
                              db_v4_id := db_v4_id db + 1\<rparr>)))"

definition record_ip :: "pnp_conf \<Rightarrow> int \<Rightarrow> af \<Rightarrow> iprange \<Rightarrow> pnp_db \<Rightarrow> (int \<times> pnp_db) res" where
  "record_ip conf now af ipr db = (if af = IP6 then record_v6 conf now ipr db else record_v4 now ipr db)"

section \<open>Names\<close>

definition name_limit_by_af :: "af \<Rightarrow> pnp_conf \<Rightarrow> int" where
  "name_limit_by_af af conf = (if af = IP4 then v4_name_limit conf else v6_name_limit conf)"

definition fetch_name :: "bytes \<Rightarrow> pnp_db \<Rightarrow> name_row option" where
  "fetch_name name db = find (\<lambda>r. nm_name r = name) (db_names db)"

definition names_used :: "int \<Rightarrow> int \<Rightarrow> pnp_db \<Rightarrow> nat" where
  "names_used af ip_id db = length (filter (\<lambda>r. nm_af r = af \<and> nm_ip_id r = ip_id) (db_names db))"

text \<open>
  The penalty is the fraction \<open>used / limit\<close> of the name duration plus one second, at most the duration
  less a minute; \<open>penalty_times\<close> is the penalty times the limit, so that the division is exact.
  \<open>int\<close> of the difference rounds towards zero.
\<close>

definition penalty_times :: "nat \<Rightarrow> int \<Rightarrow> int" where
  "penalty_times used limit =
     (if used = 0 then 0
      else min (int used * MIN_NAME_DURATION + limit) ((MIN_NAME_DURATION - MIN_DURATION_PENALTY) * limit))"

definition quot_int :: "int \<Rightarrow> int \<Rightarrow> int" where
  "quot_int a b = (if a < 0 then - ((- a) div b) else a div b)"

definition penalised :: "nat \<Rightarrow> int \<Rightarrow> int \<Rightarrow> int" where
  "penalised used limit updated =
     (if used = 0 then updated else quot_int (updated * limit - max (penalty_times used limit) 0) limit)"

text \<open>
  The UPDATE counts changed rows, so writing what is there already returns None. A new name gets the
  unpenalised time stamp.
\<close>

definition record_name ::
  "pnp_conf \<Rightarrow> af \<Rightarrow> int \<Rightarrow> bytes \<Rightarrow> bytes \<Rightarrow> bytes \<Rightarrow> int \<Rightarrow> pnp_db \<Rightarrow> (name_row \<times> pnp_db) option res" where
  "record_name conf af ip_id name val owner_pub updated db =
     (let used = names_used (af_no conf af) ip_id db; limit = name_limit_by_af af conf
      in rbind (if used \<noteq> 0 \<and> limit = 0 then Err ZeroDivisionError else Ok ()) (\<lambda>_.
         case fetch_name name db of
           Some row \<Rightarrow>
             if nm_timestamp row \<ge> updated then Err (PyException ''Replay attack for name update.'')
             else rbind (varbinary 500 val) (\<lambda>val.
                  rbind (u64 (penalised used limit updated)) (\<lambda>t.
                  let row' = row\<lparr>nm_value := val, nm_af := af_no conf af, nm_ip_id := ip_id, nm_timestamp := t\<rparr>
                  in if row' = row then Ok None
                     else Ok (Some (row', db\<lparr>db_names := map (\<lambda>r. if nm_name r = name then row' else r) (db_names db)\<rparr>))))
         | None \<Rightarrow>
             if int used \<ge> limit then Err (PyException ''insert name limit reached.'')
             else rbind (varbinary 50 name) (\<lambda>name. rbind (varbinary 500 val) (\<lambda>val. rbind (u64 updated) (\<lambda>t.
                  let row' = \<lparr>nm_id = db_name_id db, nm_name = name, nm_value = val, nm_owner = owner_pub,
                              nm_af = af_no conf af, nm_ip_id = ip_id, nm_timestamp = t\<rparr>
                  in Ok (Some (row', db\<lparr>db_names := db_names db @ [row'], db_name_id := db_name_id db + 1\<rparr>)))))))"

definition verified_delete_name :: "bytes \<Rightarrow> int \<Rightarrow> pnp_db \<Rightarrow> pnp_db res" where
  "verified_delete_name name updated db =
     (case fetch_name name db of
        None \<Rightarrow> Ok db
      | Some row \<Rightarrow>
          if nm_timestamp row \<ge> updated then Err (PyException ''Replay attack for name update.'')
          else Ok (db\<lparr>db_names := filter (\<lambda>r. \<not> (nm_name r = name \<and> nm_timestamp r = nm_timestamp row)) (db_names db)\<rparr>))"

text \<open>\<open>DELETE ... WHERE now - timestamp >= limit\<close> on unsigned columns, and the unused addresses.\<close>

definition delete_expired :: "('r \<Rightarrow> int) \<Rightarrow> int \<Rightarrow> int \<Rightarrow> 'r list \<Rightarrow> 'r list res" where
  "delete_expired stamp now limit rows =
     (if list_ex (\<lambda>r. now < stamp r) rows then Err DataError
      else Ok (filter (\<lambda>r. \<not> now - stamp r \<ge> limit) rows))"

definition delete_unused :: "('r \<Rightarrow> int) \<Rightarrow> int \<Rightarrow> name_row list \<Rightarrow> 'r list \<Rightarrow> 'r list" where
  "delete_unused row_id af names rows =
     filter (\<lambda>r. row_id r \<in> set (map nm_ip_id (filter (\<lambda>n. nm_af n = af) names))) rows"

definition verified_pruning :: "pnp_conf \<Rightarrow> int \<Rightarrow> pnp_db \<Rightarrow> pnp_db res" where
  "verified_pruning conf now db =
     rbind (delete_expired v6_timestamp now (v6_addr_expiry conf) (db_v6s db)) (\<lambda>v6s.
     rbind (delete_expired nm_timestamp now (min_name_duration conf) (db_names db)) (\<lambda>names.
       Ok (db\<lparr>db_names := names, db_v4s := delete_unused v4_id 2 names (db_v4s db),
              db_v6s := delete_unused v6_id 23 names v6s\<rparr>)))"

text \<open>The result of a write with the tables as of the last commit.\<close>

definition verified_write_name ::
  "pnp_conf \<Rightarrow> int \<Rightarrow> int \<Rightarrow> int \<Rightarrow> bytes \<Rightarrow> bytes \<Rightarrow> bytes \<Rightarrow> af \<Rightarrow> string \<Rightarrow> pnp_db \<Rightarrow> unit res \<times> pnp_db" where
  "verified_write_name conf now behavior updated name val owner_pub af ip db =
     (case IPRange (IpStr ip) None (Some (if af = IP4 then 32 else 128)) of
        Inl e \<Rightarrow> (Err e, db)
      | Inr ipr \<Rightarrow>
          (case (if behavior \<noteq> BEHAVIOR_DONT_BUMP then verified_pruning conf now db else Ok db) of
             Inl e \<Rightarrow> (Err e, db)
           | Inr db1 \<Rightarrow>
               (case rbind (record_ip conf now af ipr db1) (\<lambda>(ip_id, db2).
                       record_name conf af ip_id name val owner_pub updated db2) of
                  Inl e \<Rightarrow> (Err e, db1)
                | Inr None \<Rightarrow> (Ok (), db1)
                | Inr (Some (_, db3)) \<Rightarrow> (Ok (), db3))))"

section \<open>Requests\<close>

text \<open>A reply: the key it is encrypted for (None: sent in the clear) and its bytes.\<close>

definition serv_resp :: "pnp_conf \<Rightarrow> int \<Rightarrow> pnp_packet \<Rightarrow> (bytes option \<times> bytes) res" where
  "serv_resp conf rnd p =
     rmap (Pair (pp_reply_pk p)) (get_msg_to_sign rnd (p\<lparr>pp_reply_pk := Some (serv_reply_pk conf)\<rparr>))"

definition unsigned_pkt :: "pnp_packet \<Rightarrow> bool" where
  "unsigned_pkt p = (case pp_sig p of None \<Rightarrow> True | Some s \<Rightarrow> s = [])"

definition fetch_resp :: "int \<Rightarrow> pnp_packet \<Rightarrow> name_row option \<Rightarrow> pnp_packet res" where
  "fetch_resp rnd p row =
     (case row of
        Some r \<Rightarrow> PNPPacket rnd (pp_name p) (nm_value r) (Some (nm_owner r)) None (nm_timestamp r) BEHAVIOR_DO_BUMP
                    (pp_pkid p) (pp_reply_pk p)
      | None \<Rightarrow> PNPPacket rnd (pp_name p) [] (pp_vkc p) None 0 BEHAVIOR_DO_BUMP (pp_pkid p) (pp_reply_pk p))"

text \<open>The last part of a request: the packet's own signature, and the write.\<close>

definition msg_cb_write ::
  "(bytes \<Rightarrow> bytes \<Rightarrow> bytes \<Rightarrow> bool) \<Rightarrow> pnp_conf \<Rightarrow> int \<Rightarrow> int \<Rightarrow> af \<Rightarrow> string \<Rightarrow> pnp_packet \<Rightarrow> pnp_db \<Rightarrow>
   (bytes option \<times> bytes) res \<times> pnp_db" where
  "msg_cb_write verify conf rnd now af client_ip p db =
     (case rbind (is_valid_sig verify rnd p) (\<lambda>ok. if ok
              then rbind (IPRange (IpStr client_ip) None (Some (if af = IP4 then 32 else 128))) ipr_norm
              else Err (PyException ''pkt sig is invalid.'')) of
        Inl e \<Rightarrow> (Err e, db)
      | Inr ip \<Rightarrow>
          (case verified_write_name conf now (pp_behavior p) (pp_updated p) (pp_name p) (pp_value p)
                  (opt_bytes (pp_vkc p)) af ip db of
             (Inl e, db') \<Rightarrow> (Err e, db')
           | (Inr _, db') \<Rightarrow> (serv_resp conf rnd p, db')))"

text \<open>
  One request, from the decrypted message: the reply and the tables after it. An exception sends no
  reply and rolls back.
\<close>

definition msg_cb ::
  "(bytes \<Rightarrow> bytes \<Rightarrow> bytes \<Rightarrow> bool) \<Rightarrow> pnp_conf \<Rightarrow> int \<Rightarrow> int \<Rightarrow> af \<Rightarrow> string \<Rightarrow> bytes \<Rightarrow> pnp_db \<Rightarrow>
   (bytes option \<times> bytes) res \<times> pnp_db" where
  "msg_cb verify conf rnd now af client_ip msg db =
     (case rbind (pnp_unpack rnd msg) (\<lambda>p. rmap (Pair p) (get_msg_to_sign rnd p)) of
        Inl e \<Rightarrow> (Err e, db)
      | Inr (p, pnp_msg) \<Rightarrow>
          let row = fetch_name (pp_name p) db
          in if unsigned_pkt p then (rbind (fetch_resp rnd p row) (serv_resp conf rnd), db)
             else (case row of
                     Some r \<Rightarrow>
                       if \<not> verify (nm_owner r) (opt_bytes (pp_sig p)) pnp_msg then (Err (PyException ''BadSignatureError''), db)
                       else if pp_value p = []
                       then (case verified_delete_name (pp_name p) (pp_updated p) db of
                               Inl e \<Rightarrow> (Err e, db)
                             | Inr db' \<Rightarrow> (serv_resp conf rnd p, db'))
                       else msg_cb_write verify conf rnd now af client_ip p db
                   | None \<Rightarrow> msg_cb_write verify conf rnd now af client_ip p db))"

section \<open>A store of named rows\<close>

text \<open>
  What the handler needs of the names: writing and removing a name changes this name only. The laws
  make the store a map, whatever sequence of changes it goes through.
\<close>

locale name_store =
  fixes look :: "'k \<Rightarrow> 'd \<Rightarrow> 'r option" and wr :: "'k \<Rightarrow> 'r \<Rightarrow> 'd \<Rightarrow> 'd" and rm :: "'k \<Rightarrow> 'd \<Rightarrow> 'd"
    and inv :: "'d \<Rightarrow> bool" and fits :: "'k \<Rightarrow> 'r \<Rightarrow> bool"
  assumes look_wr: "\<lbrakk>inv d; fits k r\<rbrakk> \<Longrightarrow> look k' (wr k r d) = (if k' = k then Some r else look k' d)"
    and look_rm: "inv d \<Longrightarrow> look k' (rm k d) = (if k' = k then None else look k' d)"
    and inv_wr: "\<lbrakk>inv d; fits k r\<rbrakk> \<Longrightarrow> inv (wr k r d)"
    and inv_rm: "inv d \<Longrightarrow> inv (rm k d)"
begin

definition change :: "'k \<times> 'r option \<Rightarrow> 'd \<Rightarrow> 'd" where
  "change c d = (case snd c of None \<Rightarrow> rm (fst c) d | Some r \<Rightarrow> wr (fst c) r d)"

lemma change_map:
  "inv d \<Longrightarrow> (\<forall>r. snd c = Some r \<longrightarrow> fits (fst c) r) \<Longrightarrow>
   inv (change c d) \<and> (\<lambda>k. look k (change c d)) = (\<lambda>k. look k d)(fst c := snd c)"
  by (auto simp: change_def look_wr look_rm inv_wr inv_rm split: option.splits)

lemma changes_map:
  "inv d \<Longrightarrow> (\<And>c r. c \<in> set cs \<Longrightarrow> snd c = Some r \<Longrightarrow> fits (fst c) r) \<Longrightarrow>
   inv (fold change cs d) \<and> (\<lambda>k. look k (fold change cs d)) = fold (\<lambda>c m. m(fst c := snd c)) cs (\<lambda>k. look k d)"
proof (induction cs arbitrary: d)
  case (Cons c cs)
  then have c: "inv (change c d)" "(\<lambda>k. look k (change c d)) = (\<lambda>k. look k d)(fst c := snd c)"
    using change_map [of d c] by auto
  have "\<And>c' r. c' \<in> set cs \<Longrightarrow> snd c' = Some r \<Longrightarrow> fits (fst c') r" using Cons.prems(2) by simp
  then show ?case using Cons.IH [OF c(1)] unfolding c(2) by (simp del: fun_upd_apply)
qed simp

lemma look_other: "\<lbrakk>inv d; \<And>r. snd c = Some r \<Longrightarrow> fits (fst c) r; k \<noteq> fst c\<rbrakk> \<Longrightarrow> look k (change c d) = look k d"
  by (auto simp: change_def look_wr look_rm split: option.splits)

end

text \<open>The two statements that write names, and the one that deletes one.\<close>

definition names_wf :: "name_row list \<Rightarrow> bool" where
  "names_wf rows \<longleftrightarrow> distinct (map nm_name rows)"

definition look_row :: "bytes \<Rightarrow> name_row list \<Rightarrow> name_row option" where
  "look_row name rows = find (\<lambda>r. nm_name r = name) rows"

definition write_row :: "bytes \<Rightarrow> name_row \<Rightarrow> name_row list \<Rightarrow> name_row list" where
  "write_row name row rows =
     (if look_row name rows = None then rows @ [row] else map (\<lambda>r. if nm_name r = name then row else r) rows)"

definition remove_row :: "bytes \<Rightarrow> name_row list \<Rightarrow> name_row list" where
  "remove_row name rows = filter (\<lambda>r. nm_name r \<noteq> name) rows"

lemma look_row_None: "look_row n rows = None \<longleftrightarrow> n \<notin> nm_name ` set rows"
  by (auto simp: look_row_def find_None_iff)

lemma look_row_append: "look_row n (rows @ [r]) = (case look_row n rows of None \<Rightarrow> if nm_name r = n then Some r else None | Some x \<Rightarrow> Some x)"
  by (induction rows) (auto simp: look_row_def)

lemma look_row_map:
  "nm_name row = k \<Longrightarrow> k \<in> nm_name ` set rows \<Longrightarrow>
   look_row n (map (\<lambda>r. if nm_name r = k then row else r) rows) = (if n = k then Some row else look_row n rows)"
proof (induction rows)
  case (Cons r rows)
  show ?case
  proof (cases "k \<in> nm_name ` set rows")
    case True
    then show ?thesis using Cons by (auto simp: look_row_def)
  next
    case False
    then have "map (\<lambda>r. if nm_name r = k then row else r) rows = rows" by (intro map_idI) auto
    then show ?thesis using Cons.prems False by (auto simp: look_row_def)
  qed
qed simp

lemma look_row_filter:
  "look_row n (filter (\<lambda>r. nm_name r \<noteq> k) rows) = (if n = k then None else look_row n rows)"
  by (induction rows) (auto simp: look_row_def)

lemma map_name_update: "nm_name row = k \<Longrightarrow> map nm_name (map (\<lambda>r. if nm_name r = k then row else r) rows) = map nm_name rows"
  by simp

interpretation ns: name_store look_row write_row remove_row names_wf "\<lambda>k r. nm_name r = k"
proof unfold_locales
  fix rows k and r :: name_row and k'
  assume *: "names_wf rows" "nm_name r = k"
  show "look_row k' (write_row k r rows) = (if k' = k then Some r else look_row k' rows)"
    using *(2) look_row_map [of r k rows k'] look_row_None [of k rows]
    by (auto simp: write_row_def look_row_append split: option.splits)
  show "names_wf (write_row k r rows)"
    using *(1) look_row_None [of k rows] map_name_update [OF *(2), of rows] *(2)
    by (cases "look_row k rows") (auto simp: names_wf_def write_row_def simp del: map_map)
next
  fix rows k k'
  assume "names_wf rows"
  then show "names_wf (remove_row k rows)" by (auto simp: names_wf_def remove_row_def distinct_map_filter)
  show "look_row k' (remove_row k rows) = (if k' = k then None else look_row k' rows)"
    by (simp add: remove_row_def look_row_filter)
qed

section \<open>What one request changes\<close>

lemma fetch_look: "fetch_name n db = look_row n (db_names db)"
  by (simp add: fetch_name_def look_row_def)

lemma look_row_name: "look_row n rows = Some r \<Longrightarrow> nm_name r = n \<and> r \<in> set rows"
  by (auto simp: look_row_def find_Some_iff)

lemma record_v6_names: "record_v6 conf now ipr db = Inr (i, db') \<Longrightarrow> db_names db' = db_names db \<and> db_name_id db' = db_name_id db"
  unfolding record_v6_def Let_def case_prod_unfold
  by (auto simp: v6_insert_def rbind_eq_Ok split: if_splits option.splits)

lemma record_ip_names: "record_ip conf now af ipr db = Inr (i, db') \<Longrightarrow> db_names db' = db_names db \<and> db_name_id db' = db_name_id db"
  using record_v6_names [of conf now ipr db i db']
  by (auto simp: record_ip_def record_v4_def rbind_eq_Ok split: if_splits option.splits)

text \<open>A recorded name is written to the store, keeping the owner of an existing name.\<close>

lemma record_name_write:
  assumes "record_name conf af ip_id name val owner_pub updated db = Inr (Some (row', db'))"
  shows "db_names db' = write_row name row' (db_names db) \<and> nm_name row' = name \<and> nm_value row' = val \<and>
    nm_af row' = af_no conf af \<and> nm_ip_id row' = ip_id \<and> length val \<le> 500 \<and>
    (case fetch_name name db of
       Some row \<Rightarrow> nm_owner row' = nm_owner row \<and> nm_id row' = nm_id row \<and> nm_timestamp row < updated \<and>
         db_name_id db' = db_name_id db \<and>
         u64 (nm_timestamp row') = Inr (penalised (names_used (af_no conf af) ip_id db) (name_limit_by_af af conf) updated)
     | None \<Rightarrow> nm_owner row' = owner_pub \<and> nm_id row' = db_name_id db \<and> db_name_id db' = db_name_id db + 1 \<and>
         length name \<le> 50 \<and> u64 updated = Inr (nm_timestamp row') \<and>
         int (names_used (af_no conf af) ip_id db) < name_limit_by_af af conf)"
proof (cases "fetch_name name db")
  case None
  then show ?thesis using assms
    by (auto simp: record_name_def rbind_eq_Ok Let_def write_row_def fetch_look varbinary_def u64_def split: if_splits)
next
  case (Some row)
  then have "nm_name row = name" using look_row_name by (simp add: fetch_look)
  then show ?thesis using assms Some
    by (auto simp: record_name_def rbind_eq_Ok Let_def write_row_def fetch_look varbinary_def u64_def split: if_splits)
qed

lemma write_name_effect:
  assumes "verified_write_name conf now behavior updated name val owner_pub af ip db = (r, db')"
  obtains (kept) base where "base = db \<or> verified_pruning conf now db = Inr base" "db' = base"
  | (wrote) base ip_id db2 row' where "base = db \<or> verified_pruning conf now db = Inr base"
      "db_names db2 = db_names base" "db_name_id db2 = db_name_id base"
      "record_name conf af ip_id name val owner_pub updated db2 = Inr (Some (row', db'))"
  using assms record_ip_names
  by (fastforce simp: verified_write_name_def rbind_eq_Ok split: sum.splits option.splits if_splits prod.splits)

lemma pruning_names:
  assumes "verified_pruning conf now db = Inr db'"
  shows "db_names db' = filter (\<lambda>r. \<not> min_name_duration conf \<le> now - nm_timestamp r) (db_names db) \<and> db_name_id db' = db_name_id db"
  using assms by (auto simp: verified_pruning_def delete_expired_def rbind_eq_Ok split: if_splits)

lemma look_row_filter_wf:
  "names_wf rows \<Longrightarrow> look_row n rows = Some r \<Longrightarrow>
   look_row n (filter P rows) = (if P r then Some r else None)"
proof (induction rows)
  case (Cons x rows)
  then show ?case
    by (auto simp: look_row_def names_wf_def find_None_iff image_iff split: if_splits)
qed (simp add: look_row_def)

lemma delete_remove:
  assumes "names_wf (db_names db)" "verified_delete_name name updated db = Inr db'"
  shows "db_names db' = remove_row name (db_names db) \<and> db_name_id db' = db_name_id db \<and>
    (\<forall>row. fetch_name name db = Some row \<longrightarrow> nm_timestamp row < updated)"
proof (cases "fetch_name name db")
  case None
  then have "remove_row name (db_names db) = db_names db"
    by (auto simp: fetch_look look_row_None remove_row_def filter_id_conv)
  then show ?thesis using assms(2) None by (auto simp: verified_delete_name_def)
next
  case (Some row)
  then have r: "nm_name row = name" "row \<in> set (db_names db)" using look_row_name by (auto simp: fetch_look)
  have "x = row" if "x \<in> set (db_names db)" "nm_name x = name" for x
    using that r assms(1) by (auto simp: names_wf_def distinct_map inj_on_def)
  then have "filter (\<lambda>r. \<not> (nm_name r = name \<and> nm_timestamp r = nm_timestamp row)) (db_names db) = remove_row name (db_names db)"
    unfolding remove_row_def by (intro filter_cong) auto
  then show ?thesis using assms(2) Some by (auto simp: verified_delete_name_def split: if_splits)
qed

lemma msg_cb_effect:
  assumes "msg_cb verify conf rnd now af ip msg db = (r, db')"
  obtains (kept) "db' = db"
  | (deleted) p m row where "pnp_unpack rnd msg = Inr p" "get_msg_to_sign rnd p = Inr m" "fetch_name (pp_name p) db = Some row"
      "verify (nm_owner row) (opt_bytes (pp_sig p)) m" "\<not> unsigned_pkt p" "pp_value p = []"
      "verified_delete_name (pp_name p) (pp_updated p) db = Inr db'"
  | (written) p m vkc ip' r' where "pnp_unpack rnd msg = Inr p" "get_msg_to_sign rnd p = Inr m" "\<not> unsigned_pkt p"
      "\<And>row. fetch_name (pp_name p) db = Some row \<Longrightarrow> verify (nm_owner row) (opt_bytes (pp_sig p)) m \<and> pp_value p \<noteq> []"
      "pp_vkc p = Some vkc" "verify vkc (opt_bytes (pp_sig p)) m"
      "verified_write_name conf now (pp_behavior p) (pp_updated p) (pp_name p) (pp_value p) vkc af ip' db = (r', db')"
proof -
  have wr: thesis
    if w: "msg_cb_write verify conf rnd now af ip p db = (r, db')" "pnp_unpack rnd msg = Inr p" "get_msg_to_sign rnd p = Inr m"
      "\<not> unsigned_pkt p"
      "\<And>row. fetch_name (pp_name p) db = Some row \<Longrightarrow> verify (nm_owner row) (opt_bytes (pp_sig p)) m \<and> pp_value p \<noteq> []"
    for p m
  proof (cases "rbind (is_valid_sig verify rnd p) (\<lambda>ok. if ok
              then rbind (IPRange (IpStr ip) None (Some (if af = IP4 then 32 else 128))) ipr_norm
              else Err (PyException ''pkt sig is invalid.''))")
    case (Inl e)
    then show thesis using w(1) kept by (simp add: msg_cb_write_def)
  next
    case (Inr ip')
    then obtain vkc sig where v: "pp_vkc p = Some vkc" "pp_sig p = Some sig" "verify vkc sig m"
      using w(3) by (auto simp: rbind_eq_Ok is_valid_sig_def split: if_splits option.splits)
    obtain r' db2 where "verified_write_name conf now (pp_behavior p) (pp_updated p) (pp_name p) (pp_value p) vkc af ip' db = (r', db2)"
      by fastforce
    moreover from this have "db2 = db'" using w(1) Inr v by (auto simp: msg_cb_write_def opt_bytes_def split: sum.splits)
    ultimately show thesis using written [OF w(2-5) v(1)] v(2,3) by (simp add: opt_bytes_def)
  qed
  show thesis
  proof (cases "rbind (pnp_unpack rnd msg) (\<lambda>p. rmap (Pair p) (get_msg_to_sign rnd p))")
    case (Inl e)
    then show thesis using assms kept by (simp add: msg_cb_def)
  next
    case (Inr x)
    then obtain p m where pm: "x = (p, m)" "pnp_unpack rnd msg = Inr p" "get_msg_to_sign rnd p = Inr m"
      by (cases "pnp_unpack rnd msg"; cases "get_msg_to_sign rnd (projr (pnp_unpack rnd msg))") auto
    show thesis
    proof (cases "unsigned_pkt p")
      case True
      then show thesis using assms kept Inr pm(1) by (simp add: msg_cb_def Let_def)
    next
      case False
      show thesis
      proof (cases "fetch_name (pp_name p) db")
        case None
        then show thesis using assms Inr pm False wr [of p m] by (simp add: msg_cb_def Let_def)
      next
        case (Some row)
        show thesis
        proof (cases "verify (nm_owner row) (opt_bytes (pp_sig p)) m")
          case bad: False
          then show thesis using assms kept Inr pm(1) False Some by (simp add: msg_cb_def Let_def)
        next
          case good: True
          show thesis
          proof (cases "pp_value p = []")
            case True
            then show thesis
              using assms Inr pm False Some good kept deleted [OF pm(2,3) Some good False True]
              by (cases "verified_delete_name (pp_name p) (pp_updated p) db") (auto simp: msg_cb_def Let_def)
          next
            case nonempty: False
            then show thesis using assms Inr pm False Some good wr [of p m] by (simp add: msg_cb_def Let_def)
          qed
        qed
      qed
    qed
  qed
qed

text \<open>What the request may do to a name somebody owns.\<close>

definition expired :: "pnp_conf \<Rightarrow> int \<Rightarrow> name_row \<Rightarrow> bool" where
  "expired conf now row \<longleftrightarrow> min_name_duration conf \<le> now - nm_timestamp row"

lemma base_fetch:
  assumes "base = db \<or> verified_pruning conf now db = Inr base" "names_wf (db_names db)" "fetch_name n db = Some row"
  shows "fetch_name n base = Some row \<or> fetch_name n base = None \<and> expired conf now row"
  using assms pruning_names [of conf now db base] look_row_filter_wf [OF assms(2), of n row]
  by (auto simp: fetch_look expired_def split: if_splits)

lemma base_wf:
  "base = db \<or> verified_pruning conf now db = Inr base \<Longrightarrow> names_wf (db_names db) \<Longrightarrow> names_wf (db_names base)"
  using pruning_names [of conf now db base] by (auto simp: names_wf_def distinct_map_filter)

lemma wrote_fetch:
  assumes "names_wf (db_names db)" "record_name conf af ip_id name val owner_pub updated db = Inr (Some (row', db'))"
  shows "fetch_name n db' = (if n = name then Some row' else fetch_name n db)"
  using record_name_write [OF assms(2)] ns.look_wr [OF assms(1), of row' name n] by (simp add: fetch_look)

text \<open>The invariant of the tables: names and ids are unique and the columns fit the schema.\<close>

definition row_ok :: "name_row \<Rightarrow> bool" where
  "row_ok r \<longleftrightarrow> length (nm_name r) \<le> 50 \<and> length (nm_value r) \<le> 500 \<and> length (nm_owner r) = 33 \<and>
     0 \<le> nm_timestamp r \<and> nm_timestamp r < 2 ^ 64"

definition db_wf :: "pnp_db \<Rightarrow> bool" where
  "db_wf db \<longleftrightarrow> names_wf (db_names db) \<and> distinct (map nm_id (db_names db)) \<and>
     list_all (\<lambda>r. row_ok r \<and> nm_id r < db_name_id db) (db_names db)"

lemma db_wf_filter: "db_wf db \<Longrightarrow> db_names db' = filter P (db_names db) \<Longrightarrow> db_name_id db' = db_name_id db \<Longrightarrow> db_wf db'"
  by (auto simp: db_wf_def names_wf_def distinct_map_filter list_all_iff)

lemma u64_Ok [simp]: "u64 n = Inr m \<longleftrightarrow> m = n \<and> 0 \<le> n \<and> n < 2 ^ 64"
  by (auto simp: u64_def)

lemma record_name_db_wf:
  assumes "db_wf db" "record_name conf af ip_id name val owner_pub updated db = Inr (Some (row', db'))" "length owner_pub = 33"
  shows "db_wf db'"
proof -
  note w = record_name_write [OF assms(2)]
  have nwf: "names_wf (db_names db')"
    using ns.inv_wr [of "db_names db" row' name] assms(1) w by (simp add: db_wf_def)
  show ?thesis
  proof (cases "fetch_name name db")
    case None
    then have "db_names db' = db_names db @ [row']" using w by (simp add: write_row_def fetch_look)
    then show ?thesis using w None assms(1,3) nwf
      by (fastforce simp: db_wf_def list_all_iff row_ok_def)
  next
    case (Some row)
    then have r: "nm_name row = name" "row \<in> set (db_names db)" using look_row_name by (auto simp: fetch_look)
    have up: "db_names db' = map (\<lambda>r. if nm_name r = name then row' else r) (db_names db)"
      using w Some by (auto simp: write_row_def fetch_look)
    have u: "x = row" if "x \<in> set (db_names db)" "nm_name x = name" for x
      using that r assms(1) by (auto simp: db_wf_def names_wf_def distinct_map inj_on_def)
    have "map nm_id (db_names db') = map nm_id (db_names db)" using up u w Some by auto
    moreover have "row_ok row'" using w Some assms(1) r by (auto simp: db_wf_def list_all_iff row_ok_def)
    moreover have "set (db_names db') \<subseteq> insert row' (set (db_names db))" unfolding up by auto
    ultimately show ?thesis using w Some assms(1) nwf r
      unfolding db_wf_def list_all_iff by (auto dest!: subsetD)
  qed
qed

lemma msg_cb_db_wf:
  assumes "db_wf db" "msg_cb verify conf rnd now af ip msg db = (r, db')"
  shows "db_wf db'"
  using assms(2)
proof (cases rule: msg_cb_effect)
  case kept
  then show ?thesis using assms(1) by simp
next
  case (deleted p m row)
  then show ?thesis using assms(1) delete_remove [OF _ deleted(7)]
    by (intro db_wf_filter [OF assms(1), of db' "\<lambda>r. nm_name r \<noteq> pp_name p"]) (auto simp: db_wf_def remove_row_def)
next
  case (written p m vkc ip' r')
  have vkc: "length vkc = 33" using written(1,5) by (auto simp: pnp_unpack_def rbind_eq_Ok Let_def)
  have base: "db_wf base" if "base = db \<or> verified_pruning conf now db = Inr base" for base
    using that assms(1) pruning_names [of conf now db base] db_wf_filter [OF assms(1)] by blast
  show ?thesis
    using written(7)
  proof (cases rule: write_name_effect)
    case (kept base)
    then show ?thesis using base by simp
  next
    case (wrote base ip_id db2 row')
    then have "db_wf db2" using base [OF wrote(1)] by (simp add: db_wf_def)
    then show ?thesis using record_name_db_wf [OF _ wrote(4) vkc] by simp
  qed
qed

text \<open>Every state the server can reach from empty tables.\<close>

definition empty_db :: pnp_db where
  "empty_db = \<lparr>db_names = [], db_v4s = [], db_v6s = [], db_name_id = 1, db_v4_id = 1, db_v6_id = 1\<rparr>"

inductive pnp_reachable :: "(bytes \<Rightarrow> bytes \<Rightarrow> bytes \<Rightarrow> bool) \<Rightarrow> pnp_conf \<Rightarrow> pnp_db \<Rightarrow> bool"
  for verify :: "bytes \<Rightarrow> bytes \<Rightarrow> bytes \<Rightarrow> bool" and conf :: pnp_conf where
  start: "pnp_reachable verify conf empty_db"
| request: "\<lbrakk>pnp_reachable verify conf db; msg_cb verify conf rnd now af ip msg db = (r, db')\<rbrakk> \<Longrightarrow> pnp_reachable verify conf db'"

lemma pnp_reachable_wf: "pnp_reachable verify conf db \<Longrightarrow> db_wf db"
proof (induction rule: pnp_reachable.induct)
  case start
  show ?case by (simp add: empty_db_def db_wf_def names_wf_def)
qed (rule msg_cb_db_wf)

lemma penalised_bounds:
  assumes "0 < limit" "MIN_NAME_DURATION \<le> t"
  shows "0 \<le> penalised used limit t" "penalised used limit t \<le> t" "used \<noteq> 0 \<Longrightarrow> penalised used limit t < t"
proof -
  let ?p = "penalty_times used limit"
  have p: "used \<noteq> 0 \<Longrightarrow> 0 < ?p" "?p \<le> (MIN_NAME_DURATION - MIN_DURATION_PENALTY) * limit"
    using assms(1) by (auto simp: penalty_times_def MIN_NAME_DURATION_def MIN_DURATION_PENALTY_def)
  have "(MIN_NAME_DURATION - MIN_DURATION_PENALTY) * limit \<le> t * limit"
    using assms by (intro mult_right_mono) (auto simp: MIN_DURATION_PENALTY_def)
  moreover have "0 \<le> t * limit" using assms by (simp add: MIN_NAME_DURATION_def)
  ultimately have n: "0 \<le> t * limit - max ?p 0" using p(2) by linarith
  then have q: "penalised used limit t = (if used = 0 then t else (t * limit - max ?p 0) div limit)"
  proof -
    have "\<not> t * limit - max ?p 0 < 0" using n by linarith
    then show ?thesis by (simp only: penalised_def quot_int_def if_False)
  qed
  show "0 \<le> penalised used limit t"
    using n assms by (auto simp: q MIN_NAME_DURATION_def pos_imp_zdiv_nonneg_iff)
  show lt: "penalised used limit t < t" if u: "used \<noteq> 0"
  proof -
    have "t * limit - max ?p 0 < t * limit" using p(1) u by simp
    then have "(t * limit - max ?p 0) div limit * limit < t * limit"
      using pos_mod_sign [OF assms(1), of "t * limit - max ?p 0"] minus_mod_eq_div_mult [of "t * limit - max ?p 0" limit]
      by linarith
    then have "(t * limit - max ?p 0) div limit < t" by (rule mult_right_less_imp_less) (use assms(1) in simp)
    then show ?thesis using u by (simp only: q if_False)
  qed
  then show "penalised used limit t \<le> t" by (cases "used = 0") (auto simp: penalised_def)
qed

text \<open>A packet with fields of their sizes can be packed, and an unsigned reply reads back as it was.\<close>

lemma pnp_pack_total:
  assumes "0 \<le> pp_pkid p" "pp_pkid p < 2 ^ 32" "case pp_reply_pk p of None \<Rightarrow> True | Some k \<Rightarrow> length k = 33"
    "0 \<le> pp_behavior p" "pp_behavior p < 256" "0 \<le> pp_updated p" "pp_updated p < 2 ^ 64"
  shows "\<exists>buf. pnp_pack p = Inr buf"
  using assms
  by (simp add: pnp_pack_def pack_le_def byte_of_int_def name_len_def value_len_def PNP_NAME_LEN_def PNP_VAL_LEN_def min_less_iff_disj)

lemma pnp_pack_pkid: "pnp_pack p = Inr buf \<Longrightarrow> 0 \<le> pp_pkid p \<and> pp_pkid p < 2 ^ 32"
  by (auto simp: pnp_pack_def rbind_eq_Ok pack_le_def split: if_splits)

text \<open>The server's answer to a fetch of a stored name, and what the client makes of it.\<close>

lemma fetch_answer:
  assumes "row_ok row" "fetch_name (take 50 name) db = Some row" "length (serv_reply_pk conf) = 33"
    "pnp_fetch rnd now vkc reply_pk name = Inr q" "rnd \<noteq> 0"
  shows "\<exists>k b p. msg_cb verify conf rnd' t af ip q db = (Inr (k, b), db) \<and>
    return_resp rnd'' (Some b) = Some (p, if nm_timestamp row = 0 then None else Some (nm_value row)) \<and>
    pp_name p = take 50 name \<and> pp_vkc p = Some (nm_owner row) \<and> pp_updated p = nm_timestamp row"
proof -
  define p0 where "p0 = \<lparr>pp_name = name, pp_value = [], pp_vkc = Some vkc, pp_sig = None, pp_updated = now,
    pp_behavior = BEHAVIOR_DO_BUMP, pp_pkid = rnd, pp_reply_pk = Some reply_pk\<rparr>"
  obtain msg where m: "length vkc = 33" "pnp_pack p0 = Inr msg" "q = msg"
    using assms(4,5) by (auto simp: pnp_fetch_def send_pkt_def get_msg_to_sign_def rbind_eq_Ok p0_def)
  have u: "pnp_unpack rnd' q = Inr (received [] p0)"
    using pnp_unpack_pack [OF m(2), of vkc rnd' "[]"] m(1,3) assms(5) by (simp add: p0_def)
  have g: "get_msg_to_sign rnd' (received [] p0) = Inr msg"
    using msg_of_received [of p0 rnd' "[]" rnd'] m assms(5) by (simp add: get_msg_to_sign_def PNPPacket_def p0_def)
  have r: "length (nm_name row) \<le> 50" "length (nm_value row) \<le> 500" "length (nm_owner row) = 33"
      "0 \<le> nm_timestamp row" "nm_timestamp row < 2 ^ 64"
    using assms(1) by (simp_all add: row_ok_def)
  define p1 where "p1 = \<lparr>pp_name = take 50 name, pp_value = nm_value row, pp_vkc = Some (nm_owner row), pp_sig = None,
    pp_updated = nm_timestamp row, pp_behavior = BEHAVIOR_DO_BUMP, pp_pkid = rnd, pp_reply_pk = Some (serv_reply_pk conf)\<rparr>"
  have "\<exists>b. pnp_pack p1 = Inr b"
    using pnp_pack_pkid [OF m(2)] assms(3) r(4,5)
    by (intro pnp_pack_total) (simp_all add: p1_def p0_def BEHAVIOR_DO_BUMP_def)
  then obtain b where b: "pnp_pack p1 = Inr b" by blast
  have ub: "pnp_unpack rnd'' b = Inr (received [] p1)"
    using pnp_unpack_pack [OF b, of "nm_owner row" rnd'' "[]"] r(3) assms(5) by (simp add: p1_def)
  have f: "fetch_resp rnd' (received [] p0) (Some row) =
      Inr (p1\<lparr>pp_reply_pk := pp_reply_pk (received [] p0)\<rparr>)"
    using r(3) assms(5) by (simp add: fetch_resp_def p1_def received_def p0_def PNP_NAME_LEN_def)
  have s: "serv_resp conf rnd' (p1\<lparr>pp_reply_pk := pp_reply_pk (received [] p0)\<rparr>) = Inr (pp_reply_pk (received [] p0), b)"
    using b r(3) assms(5) by (simp add: serv_resp_def get_msg_to_sign_def PNPPacket_def p1_def)
  have n: "pp_name (received [] p0) = take 50 name" "unsigned_pkt (received [] p0)"
    by (simp_all add: received_def p0_def PNP_NAME_LEN_def unsigned_pkt_def)
  have "msg_cb verify conf rnd' t af ip q db = (Inr (pp_reply_pk (received [] p0), b), db)"
    using u g n f s assms(2) by (simp add: msg_cb_def Let_def)
  moreover have "return_resp rnd'' (Some b) = Some (received [] p1, if nm_timestamp row = 0 then None else Some (nm_value row))"
    using ub r(2) by (simp add: return_resp_def received_def p1_def PNP_VAL_LEN_def)
  ultimately show ?thesis
    by (intro exI conjI) (auto simp: received_def p1_def PNP_NAME_LEN_def)
qed

text \<open>A write that is answered has stored the value.\<close>

lemma row_same: "row\<lparr>nm_value := v, nm_af := a, nm_ip_id := i, nm_timestamp := t\<rparr> = row \<Longrightarrow> nm_value row = v"
  by (drule arg_cong [of _ _ nm_value]) simp

lemma record_name_same:
  "record_name conf af ip_id name val owner_pub updated db = Inr None \<Longrightarrow>
   \<exists>row. fetch_name name db = Some row \<and> nm_value row = val"
  by (auto simp: record_name_def rbind_eq_Ok Let_def varbinary_def dest: row_same split: if_splits option.splits)

lemma write_stores:
  assumes "names_wf (db_names db)"
    "verified_write_name conf now behavior updated name val owner_pub af ip db = (Inr u, db')"
  shows "\<exists>row. fetch_name name db' = Some row \<and> nm_value row = val"
proof -
  obtain ipr base where b: "base = db \<or> verified_pruning conf now db = Inr base"
    "(case rbind (record_ip conf now af ipr base) (\<lambda>(ip_id, db2).
        record_name conf af ip_id name val owner_pub updated db2) of
        Inl e \<Rightarrow> (Err e, base) | Inr None \<Rightarrow> (Ok (), base) | Inr (Some (_, db3)) \<Rightarrow> (Ok (), db3)) = (Inr u, db')"
  proof (cases "IPRange (IpStr ip) None (Some (if af = IP4 then 32 else 128))")
    case (Inl e)
    then show thesis using assms(2) by (simp add: verified_write_name_def)
  next
    case (Inr ipr)
    show thesis
    proof (cases "if behavior \<noteq> BEHAVIOR_DONT_BUMP then verified_pruning conf now db else Ok db")
      case (Inl e)
      then show thesis using assms(2) Inr by (simp add: verified_write_name_def)
    next
      case base: (Inr base)
      then have "base = db \<or> verified_pruning conf now db = Inr base" by (auto split: if_splits)
      then show thesis using assms(2) Inr base by (intro that [of base ipr]) (simp_all add: verified_write_name_def)
    qed
  qed
  then obtain ip_id db2 where c: "record_ip conf now af ipr base = Inr (ip_id, db2)"
    by (cases "record_ip conf now af ipr base") auto
  have names: "db_names db2 = db_names base" using record_ip_names [OF c] by simp
  have wf: "names_wf (db_names db2)" using base_wf [OF b(1) assms(1)] names by simp
  show ?thesis
  proof (cases "record_name conf af ip_id name val owner_pub updated db2")
    case (Inl e)
    then show ?thesis using b(2) c by simp
  next
    case (Inr o')
    show ?thesis
    proof (cases o')
      case None
      then show ?thesis using b(2) c Inr record_name_same [of conf af ip_id name val owner_pub updated db2] names
        by (auto simp: fetch_look)
    next
      case (Some x)
      then obtain row' where x: "x = (row', db')" using b(2) c Inr by (cases x) simp
      then have "record_name conf af ip_id name val owner_pub updated db2 = Inr (Some (row', db'))" using Inr Some by simp
      from wrote_fetch [OF wf this, of name] record_name_write [OF this] show ?thesis by simp
    qed
  qed
qed

lemma answered_write_stores:
  assumes "names_wf (db_names db)" "msg_cb verify conf rnd now af ip msg db = (Inr reply, db')"
    "pnp_unpack rnd msg = Inr p" "\<not> unsigned_pkt p" "pp_value p \<noteq> []"
  shows "\<exists>row. fetch_name (pp_name p) db' = Some row \<and> nm_value row = pp_value p"
proof -
  have "msg_cb_write verify conf rnd now af ip p db = (Inr reply, db')"
    using assms(2-5)
    by (cases "get_msg_to_sign rnd p"; cases "fetch_name (pp_name p) db") (auto simp: msg_cb_def Let_def split: if_splits)
  then obtain ip' u where "verified_write_name conf now (pp_behavior p) (pp_updated p) (pp_name p) (pp_value p)
      (opt_bytes (pp_vkc p)) af ip' db = (Inr u, db')"
    by (auto simp: msg_cb_write_def split: sum.splits prod.splits)
  then show ?thesis by (rule write_stores [OF assms(1)])
qed

text \<open>Two names of one owner for the examples, and a check that accepts every signature.\<close>

definition ex_conf :: pnp_conf where
  "ex_conf = \<lparr>v4_name_limit = 20, v6_name_limit = 5, min_name_duration = MIN_NAME_DURATION, v6_addr_expiry = 604800,
     v6_subnet_limit = 15000, v6_iface_limit = 20, serv_reply_pk = replicate 33 2, af_no = (\<lambda>af. if af = IP4 then 2 else 10)\<rparr>"

definition ex_row :: "int \<Rightarrow> bytes \<Rightarrow> int \<Rightarrow> int \<Rightarrow> name_row" where
  "ex_row i n ip t = \<lparr>nm_id = i, nm_name = n, nm_value = [118], nm_owner = replicate 33 3, nm_af = 2, nm_ip_id = ip, nm_timestamp = t\<rparr>"

definition ex_db :: "name_row list \<Rightarrow> pnp_db" where
  "ex_db rows = \<lparr>db_names = rows, db_v4s = [], db_v6s = [], db_name_id = 10, db_v4_id = 1, db_v6_id = 1\<rparr>"

text \<open>A signed change of name \<open>a\<close> for the examples, and the state after it.\<close>

definition ex_pkt :: pnp_packet where
  "ex_pkt = \<lparr>pp_name = [97], pp_value = [118], pp_vkc = Some (replicate 33 3), pp_sig = None, pp_updated = 1000000,
     pp_behavior = 1, pp_pkid = 5, pp_reply_pk = Some (replicate 33 2)\<rparr>"

lemma ex_push:
  "\<exists>buf reply db' q row. fetch_name [97] db' = Some row \<and> nm_timestamp row = 1000000 \<and> pnp_push 5 (\<lambda>m. [7]) (replicate 33 3) (replicate 33 2) [97] [118] 1 1000000 = Inr buf \<and>
     msg_cb (\<lambda>_ _ _. True) ex_conf 5 1000000 IP4 ''1.2.3.4'' buf empty_db = (Inr reply, db') \<and>
     pnp_fetch 6 1000001 (replicate 33 3) (replicate 33 2) [97] = Inr q"
proof -
  have "\<exists>buf. pnp_pack ex_pkt = Inr buf" by (rule pnp_pack_total) (simp_all add: ex_pkt_def)
  then obtain buf where buf: "pnp_pack ex_pkt = Inr buf" by blast
  have p: "pnp_push 5 (\<lambda>m. [7]) (replicate 33 3) (replicate 33 2) [97] [118] 1 1000000 = Inr (buf @ [7])"
    using buf by (simp add: pnp_push_def send_pkt_def get_msg_to_sign_def PNPPacket_def ex_pkt_def)
  have "\<exists>q. pnp_fetch 6 1000001 (replicate 33 3) (replicate 33 2) [97] = Inr q"
    by (simp add: pnp_fetch_def send_pkt_def get_msg_to_sign_def PNPPacket_def pnp_pack_def name_len_def value_len_def
        PNP_NAME_LEN_def PNP_VAL_LEN_def pack_le_def byte_of_int_def BEHAVIOR_DO_BUMP_def)
  moreover obtain reply db' row where "fetch_name [97] db' = Some row \<and> nm_timestamp row = 1000000" "msg_cb (\<lambda>_ _ _. True) ex_conf 5 1000000 IP4 ''1.2.3.4'' (buf @ [7]) empty_db = (Inr reply, db')"
  proof -
    let ?r = "msg_cb (\<lambda>_ _ _. True) ex_conf 5 1000000 IP4 ''1.2.3.4'' (buf @ [7]) empty_db"
    have u: "pnp_unpack 5 (buf @ [7]) = Inr (received [7] ex_pkt)"
      by (rule pnp_unpack_pack [OF buf, of "replicate 33 3"]) (simp_all add: ex_pkt_def)
    have g0: "get_msg_to_sign 5 ex_pkt = Inr buf" using buf by (simp add: get_msg_to_sign_def PNPPacket_def ex_pkt_def)
    have g: "get_msg_to_sign 5 (received [7] ex_pkt) = Inr buf"
      using msg_of_received [of ex_pkt 5 "[7]" 5] g0 by (simp add: ex_pkt_def)
    obtain ip' ipr where ip: "rbind (IPRange (IpStr ''1.2.3.4'') None (Some 32)) ipr_norm = Inr ip'"
      "IPRange (IpStr ip') None (Some 32) = Inr ipr"
      by (simp add: eval_simps ipr_eval ipr_norm_def get_value_def ipr_ip_f_def)
    have s: "\<exists>b. serv_resp ex_conf 5 (received [7] ex_pkt) = Inr b"
    proof -
      have "\<exists>b. pnp_pack (ex_pkt\<lparr>pp_reply_pk := Some (serv_reply_pk ex_conf)\<rparr>) = Inr b"
        by (rule pnp_pack_total) (simp_all add: ex_pkt_def ex_conf_def)
      then show ?thesis
        by (auto simp: serv_resp_def get_msg_to_sign_def PNPPacket_def received_def ex_pkt_def PNP_NAME_LEN_def PNP_VAL_LEN_def)
    qed
    then obtain b where b: "serv_resp ex_conf 5 (received [7] ex_pkt) = Inr b" by blast
    have "\<exists>row. fetch_name [97] (snd ?r) = Some row \<and> nm_timestamp row = 1000000 \<and> (\<exists>reply. fst ?r = Inr reply)"
      using u g ip b
      by (simp add: msg_cb_def Let_def unsigned_pkt_def received_def ex_pkt_def empty_db_def fetch_name_def msg_cb_write_def
        is_valid_sig_def verified_write_name_def BEHAVIOR_DONT_BUMP_def verified_pruning_def delete_expired_def
        delete_unused_def record_ip_def record_v4_def u64_def record_name_def names_used_def name_limit_by_af_def
        ex_conf_def varbinary_def PNP_NAME_LEN_def PNP_VAL_LEN_def opt_bytes_def split: sum.splits)
    then show thesis using that by (metis prod.collapse)
  qed
  ultimately show ?thesis using p by blast
qed

lemma ex_reachable: "\<exists>db row. pnp_reachable (\<lambda>_ _ _. True) ex_conf db \<and> fetch_name [97] db = Some row \<and> nm_timestamp row = 1000000"
  using ex_push pnp_reachable.request [OF pnp_reachable.start] by blast

section \<open>Properties\<close>

text \<open>C32: in every state the server can reach, the names and the row ids of its table of names are unique, the columns for
  the name, the value, the owner and the stamp fit the schema, and looking a name up finds the one row that carries it.\<close>

theorem pnp_tables_invariant:
  assumes "pnp_reachable verify conf db"
  shows "distinct (map nm_name (db_names db)) \<and> distinct (map nm_id (db_names db)) \<and>
    list_all (\<lambda>r. row_ok r \<and> nm_id r < db_name_id db) (db_names db) \<and>
    (fetch_name n db = Some row \<longleftrightarrow> row \<in> set (db_names db) \<and> nm_name row = n)"
proof -
  have wf: "db_wf db" using pnp_reachable_wf [OF assms] .
  then have "fetch_name n db = Some row" if r: "row \<in> set (db_names db)" "nm_name row = n"
  proof -
    obtain x where x: "fetch_name n db = Some x" using r look_row_None [of n "db_names db"] by (auto simp: fetch_look)
    then have "x = row" using r wf look_row_name [of n "db_names db" x]
      by (auto simp: fetch_look db_wf_def names_wf_def distinct_map inj_on_def)
    then show ?thesis using x by simp
  qed
  then show ?thesis using wf look_row_name [of n "db_names db" row] by (auto simp: db_wf_def names_wf_def fetch_look)
qed

theorem pnp_tables_invariant_witness:
  "\<exists>db row. pnp_reachable (\<lambda>_ _ _. True) ex_conf db \<and> fetch_name [97] db = Some row \<and> row \<in> set (db_names db) \<and> row_ok row \<and>
     distinct (map nm_name (db_names db))"
proof -
  obtain db row where d: "pnp_reachable (\<lambda>_ _ _. True) ex_conf db" "fetch_name [97] db = Some row" using ex_reachable by blast
  show ?thesis using pnp_tables_invariant [OF d(1), where n = "[97]" and row = row] d by (auto simp: list_all_iff)
qed

text \<open>C2: a request leaves the name of an owner as it is, unless the name has expired or the request is
  for this name, is newer than the row, and carries a signature of its exact bytes by the owner's key:
  then an empty value deletes it and any other becomes its value, with the owner kept. Only an expired
  row can get another owner.\<close>

theorem pnp_owner_protected:
  assumes "pnp_reachable verify conf db" and "fetch_name n db = Some row"
    and "msg_cb verify conf rnd now af ip msg db = (r, db')"
  shows "fetch_name n db' = Some row \<or> fetch_name n db' = None \<and> expired conf now row \<or>
    (\<exists>p m. pnp_unpack rnd msg = Inr p \<and> get_msg_to_sign rnd p = Inr m \<and> pp_name p = n \<and>
       verify (nm_owner row) (opt_bytes (pp_sig p)) m \<and>
       (case fetch_name n db' of
          None \<Rightarrow> pp_value p = [] \<and> nm_timestamp row < pp_updated p
        | Some row' \<Rightarrow> nm_value row' = pp_value p \<and>
            (nm_owner row' = nm_owner row \<and> nm_timestamp row < pp_updated p \<or> expired conf now row)))"
proof -
  have wf: "names_wf (db_names db)" using pnp_reachable_wf [OF assms(1)] by (simp add: db_wf_def)
  show ?thesis
    using assms(3)
  proof (cases rule: msg_cb_effect)
    case kept
    then show ?thesis using assms(2) by simp
  next
    case (deleted p m row0)
    have d: "fetch_name n db' = (if n = pp_name p then None else fetch_name n db)"
      using delete_remove [OF wf deleted(7)] ns.look_rm [OF wf, of n "pp_name p"] by (simp add: fetch_look)
    show ?thesis
    proof (cases "n = pp_name p")
      case True
      then show ?thesis using deleted assms(2) d delete_remove [OF wf deleted(7)]
        by (intro disjI2) (intro exI [of _ p] exI [of _ m], auto)
    qed (use d assms(2) in simp)
  next
    case (written p m vkc ip' r')
    show ?thesis
      using written(7)
    proof (cases rule: write_name_effect)
      case (kept base)
      then show ?thesis using base_fetch [OF kept(1) wf assms(2)] by auto
    next
      case (wrote base ip_id db2 row')
      have b: "fetch_name n db2 = Some row \<or> fetch_name n db2 = None \<and> expired conf now row"
        using base_fetch [OF wrote(1) wf assms(2)] wrote(2) by (simp add: fetch_look)
      have f: "fetch_name n db' = (if n = pp_name p then Some row' else fetch_name n db2)"
        using wrote_fetch [OF _ wrote(4)] base_wf [OF wrote(1) wf] wrote(2) by simp
      show ?thesis
      proof (cases "n = pp_name p")
        case True
        then have "nm_owner row' = nm_owner row \<and> nm_timestamp row < pp_updated p \<or> expired conf now row"
          using b record_name_write [OF wrote(4)] by auto
        then show ?thesis using written(1,2,4) True f assms(2) record_name_write [OF wrote(4)]
          by (intro disjI2) (intro exI [of _ p] exI [of _ m], auto)
      qed (use b f in auto)
    qed
  qed
qed


theorem pnp_owner_protected_witness:
  "\<exists>db row r db'. pnp_reachable (\<lambda>_ _ _. True) ex_conf db \<and> fetch_name [97] db = Some row \<and>
     msg_cb (\<lambda>_ _ _. True) ex_conf 5 1000001 IP4 ''1.2.3.4'' [] db = (r, db') \<and> fetch_name [97] db' = Some row"
proof -
  obtain db row where d: "pnp_reachable (\<lambda>_ _ _. True) ex_conf db" "fetch_name [97] db = Some row" "nm_timestamp row = 1000000"
    using ex_reachable by blast
  obtain r db' where m: "msg_cb (\<lambda>_ _ _. True) ex_conf 5 1000001 IP4 ''1.2.3.4'' [] db = (r, db')" by fastforce
  have "pnp_unpack 5 [] \<noteq> Inr p" for p by (simp add: pnp_unpack_def unpack_le_def slice_def)
  moreover have "\<not> expired ex_conf 1000001 row" using d(3) by (simp add: expired_def ex_conf_def MIN_NAME_DURATION_def)
  ultimately have "fetch_name [97] db' = Some row" using pnp_owner_protected [OF d(1,2) m] by blast
  then show ?thesis using d m by blast
qed

text \<open>The time stamp that should stop replays is lowered by a penalty, so after an update an older
  signed change of the same name (not older than the penalty) is accepted again and brings the old
  value back. The penalty is more than eight hours for an address with one of its twenty names used.\<close>

theorem replay_rolls_back:
  assumes "names_wf (db_names db)" and "fetch_name n db = Some row"
    and "record_name conf af ip_id n v2 own t2 db = Inr (Some (row2, db2))"
    and "0 < name_limit_by_af af conf" and "MIN_NAME_DURATION \<le> t1" and "t1 \<le> t2"
    and "penalised (names_used (af_no conf af) ip_id db) (name_limit_by_af af conf) t2 < t1"
    and "v1 \<noteq> v2" and "length v1 \<le> 500" and "t2 < 2 ^ 64"
  shows "\<exists>row3 db3. record_name conf af ip_id n v1 own t1 db2 = Inr (Some (row3, db3)) \<and>
    fetch_name n db3 = Some row3 \<and> nm_value row3 = v1 \<and> nm_timestamp row3 \<le> t1 \<and> penalised 1 20 t2 = t2 - 30241"
proof -
  note w = record_name_write [OF assms(3)]
  let ?l = "name_limit_by_af af conf"
  have f: "fetch_name n db2 = Some row2" using wrote_fetch [OF assms(1,3)] by simp
  have ts: "nm_timestamp row2 < t1" using w assms(2,7) by simp
  have wf2: "names_wf (db_names db2)" using ns.inv_wr [OF assms(1), of row2 n] w by simp
  let ?t = "penalised (names_used (af_no conf af) ip_id db2) ?l t1"
  have b: "0 \<le> ?t" "?t \<le> t1" by (rule penalised_bounds [OF assms(4,5)])+
  let ?row3 = "row2\<lparr>nm_value := v1, nm_af := af_no conf af, nm_ip_id := ip_id, nm_timestamp := ?t\<rparr>"
  have "nm_value ?row3 \<noteq> nm_value row2" using w assms(8) by simp
  then have ne: "?row3 \<noteq> row2" by metis
  have r3: "record_name conf af ip_id n v1 own t1 db2 =
      Inr (Some (?row3, db2\<lparr>db_names := map (\<lambda>r. if nm_name r = n then ?row3 else r) (db_names db2)\<rparr>))"
    using f ts b ne assms(4,6,9,10) by (simp add: record_name_def Let_def varbinary_def u64_def)
  have "penalised 1 20 t2 = t2 - 30241"
    using assms(5,6) by (simp add: penalised_def quot_int_def penalty_times_def MIN_NAME_DURATION_def MIN_DURATION_PENALTY_def)
  then show ?thesis
    using r3 wrote_fetch [OF wf2 r3, of n] b by (intro exI conjI) auto
qed

theorem replay_rolls_back_witness:
  "\<exists>row2 db2 row3 db3.
     record_name ex_conf IP4 7 [97] [50] [] 2000000 (ex_db [ex_row 1 [97] 7 1000000]) = Inr (Some (row2, db2)) \<and>
     record_name ex_conf IP4 7 [97] [49] [] 1990000 db2 = Inr (Some (row3, db3)) \<and> nm_value row3 = [49]"
proof -
  let ?db = "ex_db [ex_row 1 [97] 7 1000000]"
  obtain row2 db2 where r: "record_name ex_conf IP4 7 [97] [50] [] 2000000 ?db = Inr (Some (row2, db2))"
    by (simp add: record_name_def ex_db_def ex_row_def ex_conf_def fetch_name_def names_used_def name_limit_by_af_def
        varbinary_def u64_def penalised_def quot_int_def penalty_times_def MIN_NAME_DURATION_def MIN_DURATION_PENALTY_def Let_def)
  have "names_wf (db_names ?db)" "fetch_name [97] ?db = Some (ex_row 1 [97] 7 1000000)"
    by (simp_all add: names_wf_def ex_db_def fetch_name_def ex_row_def)
  moreover have "0 < name_limit_by_af IP4 ex_conf"
    "penalised (names_used (af_no ex_conf IP4) 7 ?db) (name_limit_by_af IP4 ex_conf) 2000000 < 1990000"
    by (simp_all add: name_limit_by_af_def ex_conf_def names_used_def ex_db_def ex_row_def penalised_def quot_int_def
        penalty_times_def MIN_NAME_DURATION_def MIN_DURATION_PENALTY_def)
  ultimately show ?thesis
    using replay_rolls_back [OF _ _ r, of "ex_row 1 [97] 7 1000000" 1990000 "[49]"] r
    by (auto simp: MIN_NAME_DURATION_def)
qed

text \<open>The limit on the names of an address holds when a name is created, but an update moves a name
  to another address without looking at it.\<close>

theorem name_limit_on_creation_only:
  assumes "record_name conf af ip_id n v own t db = Inr (Some (row', db'))" and "fetch_name n db = None"
  shows "names_used (af_no conf af) ip_id db' = names_used (af_no conf af) ip_id db + 1 \<and>
     int (names_used (af_no conf af) ip_id db') \<le> name_limit_by_af af conf \<and>
     (\<exists>row2 db2. record_name (ex_conf\<lparr>v4_name_limit := 1\<rparr>) IP4 7 [98] [50] own 2000000
        (ex_db [ex_row 1 [97] 7 1000000, ex_row 2 [98] 8 1000000]) = Inr (Some (row2, db2)) \<and> names_used 2 7 db2 = 2)"
proof -
  have "\<exists>row2 db2. record_name (ex_conf\<lparr>v4_name_limit := 1\<rparr>) IP4 7 [98] [50] own 2000000
        (ex_db [ex_row 1 [97] 7 1000000, ex_row 2 [98] 8 1000000]) = Inr (Some (row2, db2)) \<and> names_used 2 7 db2 = 2"
    by (simp add: record_name_def ex_db_def ex_row_def ex_conf_def fetch_name_def names_used_def name_limit_by_af_def
        varbinary_def u64_def penalised_def quot_int_def penalty_times_def MIN_NAME_DURATION_def MIN_DURATION_PENALTY_def Let_def)
  then show ?thesis
    using record_name_write [OF assms(1)] assms(2) by (auto simp: names_used_def write_row_def fetch_look)
qed

theorem name_limit_on_creation_only_witness:
  "\<exists>row' db'. record_name ex_conf IP4 7 [98] [50] [] 2000000 (ex_db [ex_row 1 [97] 7 1000000]) = Inr (Some (row', db')) \<and>
     names_used 2 7 db' = 2"
proof -
  let ?db = "ex_db [ex_row 1 [97] 7 1000000]"
  obtain row' db' where r: "record_name ex_conf IP4 7 [98] [50] [] 2000000 ?db = Inr (Some (row', db'))"
    by (simp add: record_name_def ex_db_def ex_row_def ex_conf_def fetch_name_def names_used_def name_limit_by_af_def
        varbinary_def u64_def Let_def)
  have "fetch_name [98] ?db = None" by (simp add: ex_db_def fetch_name_def ex_row_def)
  then show ?thesis
    using r name_limit_on_creation_only [OF r] by (auto simp: ex_conf_def ex_db_def ex_row_def names_used_def)
qed

text \<open>Pruning keeps exactly the names that have not expired. Where the number of the IPv6 family is
  not 23 it deletes every IPv6 address, so the IPv6 limits start afresh with each write; and one name
  with a time stamp in the future, which a client may choose, makes it fail and with it every write
  that does not opt out.\<close>

theorem pruning_effect:
  assumes "verified_pruning conf now db = Inr db'" and "list_all (\<lambda>r. nm_af r \<noteq> 23) (db_names db)"
    and "behavior \<noteq> BEHAVIOR_DONT_BUMP"
  shows "db_names db' = filter (\<lambda>r. \<not> expired conf now r) (db_names db) \<and> db_v6s db' = [] \<and>
    (now < nm_timestamp r \<longrightarrow>
       (\<exists>e. verified_write_name conf now behavior t n v own af ip (db\<lparr>db_names := db_names db @ [r]\<rparr>) =
         (Inl e, db\<lparr>db_names := db_names db @ [r]\<rparr>)))"
proof -
  have "db_names db' = filter (\<lambda>r. \<not> expired conf now r) (db_names db)"
    using pruning_names [OF assms(1)] by (simp add: expired_def)
  moreover from this have "{n \<in> set (db_names db'). nm_af n = 23} = {}"
    using assms(2) by (auto simp: list_all_iff)
  then have "db_v6s db' = []"
    using assms(1) by (auto simp: verified_pruning_def rbind_eq_Ok delete_unused_def filter_empty_conv)
  moreover have "\<exists>e. verified_pruning conf now (db\<lparr>db_names := db_names db @ [r]\<rparr>) = Inl e" if "now < nm_timestamp r"
    using that assms(1) by (auto simp: verified_pruning_def rbind_eq_Ok delete_expired_def)
  then have "\<exists>e. verified_write_name conf now behavior t n v own af ip (db\<lparr>db_names := db_names db @ [r]\<rparr>) =
         (Inl e, db\<lparr>db_names := db_names db @ [r]\<rparr>)" if "now < nm_timestamp r"
    using that assms(3) by (fastforce simp: verified_write_name_def split: sum.splits)
  ultimately show ?thesis by blast
qed

theorem pruning_effect_witness:
  "\<exists>db'. verified_pruning ex_conf 2000000 (ex_db [ex_row 1 [97] 7 1000000, ex_row 2 [98] 8 1900000]) = Inr db' \<and>
     db_names db' = [ex_row 2 [98] 8 1900000] \<and> db_v6s db' = [] \<and>
     (\<exists>e db2. verified_write_name ex_conf 2000000 1 2000000 [99] [1] [] IP4 ''1.2.3.4''
        (ex_db [ex_row 1 [97] 7 1000000, ex_row 2 [98] 8 1900000, ex_row 3 [99] 8 3000000]) = (Inl e, db2))"
proof -
  let ?db = "ex_db [ex_row 1 [97] 7 1000000, ex_row 2 [98] 8 1900000]"
  obtain db' where p: "verified_pruning ex_conf 2000000 ?db = Inr db'"
    by (simp add: verified_pruning_def delete_expired_def ex_db_def ex_row_def)
  have u: "?db\<lparr>db_names := db_names ?db @ [ex_row 3 [99] 8 3000000]\<rparr> =
      ex_db [ex_row 1 [97] 7 1000000, ex_row 2 [98] 8 1900000, ex_row 3 [99] 8 3000000]" by (simp add: ex_db_def)
  have "list_all (\<lambda>r. nm_af r \<noteq> 23) (db_names ?db)" by (simp add: ex_db_def ex_row_def)
  then show ?thesis
    using p pruning_effect [OF p, of 1 "ex_row 3 [99] 8 3000000" 2000000 "[99]" "[1]" "[]" IP4 "''1.2.3.4''"]
    unfolding u by (auto simp: BEHAVIOR_DONT_BUMP_def expired_def ex_db_def ex_row_def ex_conf_def MIN_NAME_DURATION_def)
qed

text \<open>C20: a push of a value that is not empty and that the server answered is stored, and a later fetch of the name is
  answered with this value: client, wire format and server agree on the name cut to 50 bytes and the value cut to 500. A row
  whose stamp is zero is the exception: the client takes its answer for a missing name.\<close>

theorem pushed_value_is_fetched:
  assumes "pnp_reachable verify conf db" and "pnp_push rnd sign vkc reply_pk name val behavior t = Inr buf"
    and "rnd \<noteq> 0" and "\<forall>m. sign m \<noteq> []" and "val \<noteq> []"
    and "msg_cb verify conf rnd' now af ip buf db = (Inr reply, db')"
    and "pnp_fetch rnd2 now2 vkc2 reply_pk2 name = Inr q" and "rnd2 \<noteq> 0" and "length (serv_reply_pk conf) = 33"
  shows "\<exists>row k b p. fetch_name (take 50 name) db' = Some row \<and> nm_value row = take 500 val \<and>
    msg_cb verify conf rnd3 now3 af3 ip3 q db' = (Inr (k, b), db') \<and>
    return_resp rnd4 (Some b) = Some (p, if nm_timestamp row = 0 then None else Some (take 500 val)) \<and>
    pp_name p = take 50 name"
proof -
  have wf: "db_wf db" "db_wf db'"
    using pnp_reachable_wf [OF assms(1)] msg_cb_db_wf [OF _ assms(6)] by blast+
  define p0 where "p0 = \<lparr>pp_name = name, pp_value = val, pp_vkc = Some vkc, pp_sig = None, pp_updated = t,
    pp_behavior = behavior, pp_pkid = rnd, pp_reply_pk = Some reply_pk\<rparr>"
  obtain msg where m: "length vkc = 33" "pnp_pack p0 = Inr msg" "buf = msg @ sign msg"
    using assms(2,3) by (auto simp: pnp_push_def send_pkt_def get_msg_to_sign_def rbind_eq_Ok p0_def)
  have u: "pnp_unpack rnd' buf = Inr (received (sign msg) p0)"
    unfolding m(3) by (rule pnp_unpack_pack [OF m(2) _ m(1)]) (simp_all add: p0_def assms(3))
  have r: "\<not> unsigned_pkt (received (sign msg) p0)" "pp_value (received (sign msg) p0) = take 500 val"
    "pp_name (received (sign msg) p0) = take 50 name"
    using assms(4) by (simp_all add: unsigned_pkt_def received_def p0_def PNP_NAME_LEN_def PNP_VAL_LEN_def)
  have "names_wf (db_names db)" using wf(1) by (simp add: db_wf_def)
  from answered_write_stores [OF this assms(6) u r(1)] r(2,3) assms(5)
  obtain row where row: "fetch_name (take 50 name) db' = Some row" "nm_value row = take 500 val"
    by auto
  have "row_ok row" using row(1) wf(2) look_row_name by (auto simp: fetch_look db_wf_def list_all_iff)
  from fetch_answer [OF this row(1) assms(9,7,8), of verify rnd' now3 af3 ip3] row
  show ?thesis using fetch_answer [OF \<open>row_ok row\<close> row(1) assms(9,7,8), of verify rnd3 now3 af3 ip3 rnd4] by auto
qed

theorem pushed_value_is_fetched_witness:
  "\<exists>buf reply db' q k b p. pnp_push 5 (\<lambda>m. [7]) (replicate 33 3) (replicate 33 2) [97] [118] 1 1000000 = Inr buf \<and>
     msg_cb (\<lambda>_ _ _. True) ex_conf 5 1000000 IP4 ''1.2.3.4'' buf empty_db = (Inr reply, db') \<and>
     pnp_fetch 6 1000001 (replicate 33 3) (replicate 33 2) [97] = Inr q \<and>
     msg_cb (\<lambda>_ _ _. True) ex_conf 0 0 IP4 [] q db' = (Inr (k, b), db') \<and> return_resp 0 (Some b) = Some (p, Some [118])"
proof -
  obtain buf reply db' row q where x: "pnp_push 5 (\<lambda>m. [7]) (replicate 33 3) (replicate 33 2) [97] [118] 1 1000000 = Inr buf"
    "msg_cb (\<lambda>_ _ _. True) ex_conf 5 1000000 IP4 ''1.2.3.4'' buf empty_db = (Inr reply, db')"
    "pnp_fetch 6 1000001 (replicate 33 3) (replicate 33 2) [97] = Inr q" "fetch_name [97] db' = Some row" "nm_timestamp row = 1000000"
    using ex_push by blast
  show ?thesis
    using pushed_value_is_fetched [OF pnp_reachable.start x(1) _ _ _ x(2,3), of 0 0 IP4 "[]" 0] x by (auto simp: ex_conf_def)
qed

end
