(* ===== verification/Ntp_Clock.thy ===== *)
theory Ntp_Clock
  imports Complex_Main Ip_Net
begin

text \<open>
  \<^verbatim>\<open>protocol/ntp/ntp_client.py\<close> and \<^verbatim>\<open>clock_skew.py\<close>: the NTP packet with its fixed-point time stamps, the
  client, the names of its codes, and the clock that corrects the local time by an average of
  measurements. Floating-point and decimal numbers are taken as exact rationals.
\<close>

section \<open>Time stamps\<close>

text \<open>Days between 1900-01-01 and 1970-01-01 times the seconds of a day.\<close>

definition NTP_DELTA :: rat where
  "NTP_DELTA = 25567 * 24 * 3600"

definition ntp_to_system_time :: "rat \<Rightarrow> rat" where
  "ntp_to_system_time t = t - NTP_DELTA"

definition system_to_ntp_time :: "rat \<Rightarrow> rat" where
  "system_to_ntp_time t = t + NTP_DELTA"

text \<open>\<open>int\<close> of a number rounds towards zero.\<close>

definition ntp_to_int :: "rat \<Rightarrow> int" where
  "ntp_to_int t = (if t < 0 then - \<lfloor>- t\<rfloor> else \<lfloor>t\<rfloor>)"

definition ntp_to_frac :: "rat \<Rightarrow> nat \<Rightarrow> int" where
  "ntp_to_frac t n = ntp_to_int (\<bar>t - of_int (ntp_to_int t)\<bar> * 2 ^ n)"

definition ntp_to_time :: "int \<Rightarrow> int \<Rightarrow> nat \<Rightarrow> rat" where
  "ntp_to_time integ fr n = of_int integ + of_int fr / 2 ^ n"

section \<open>Packets\<close>

record ntp_packet =
  np_leap :: int
  np_version :: int
  np_mode :: int
  np_stratum :: int
  np_poll :: int
  np_precision :: int
  np_root_delay :: rat
  np_root_dispersion :: rat
  np_ref_id :: int
  np_ref_timestamp :: rat
  np_orig_timestamp :: rat
  np_recv_timestamp :: rat
  np_tx_timestamp :: rat

definition NTPPacket :: "int \<Rightarrow> int \<Rightarrow> rat \<Rightarrow> ntp_packet" where
  "NTPPacket version mode tx_timestamp =
     \<lparr>np_leap = 0, np_version = version, np_mode = mode, np_stratum = 0, np_poll = 0, np_precision = 0,
      np_root_delay = 0, np_root_dispersion = 0, np_ref_id = 0, np_ref_timestamp = 0, np_orig_timestamp = 0,
      np_recv_timestamp = 0, np_tx_timestamp = tx_timestamp\<rparr>"

definition NTPException :: "string \<Rightarrow> pyerr" where
  "NTPException s = PyException s"

definition pack_i8 :: "int \<Rightarrow> bytes res" where
  "pack_i8 n = (if - 128 \<le> n \<and> n < 128 then Ok [word_of_int n] else Err StructError)"

text \<open>The format \<open>!B B B b 11I\<close>: the values in order, each with its size; any struct.error is replaced.\<close>

definition ntp_words :: "ntp_packet \<Rightarrow> int list" where
  "ntp_words p =
     [push_bit 16 (ntp_to_int (np_root_delay p)) OR ntp_to_frac (np_root_delay p) 16,
      push_bit 16 (ntp_to_int (np_root_dispersion p)) OR ntp_to_frac (np_root_dispersion p) 16,
      np_ref_id p,
      ntp_to_int (np_ref_timestamp p), ntp_to_frac (np_ref_timestamp p) 32,
      ntp_to_int (np_orig_timestamp p), ntp_to_frac (np_orig_timestamp p) 32,
      ntp_to_int (np_recv_timestamp p), ntp_to_frac (np_recv_timestamp p) 32,
      ntp_to_int (np_tx_timestamp p), ntp_to_frac (np_tx_timestamp p) 32]"

definition ntp_to_data :: "ntp_packet \<Rightarrow> bytes res" where
  "ntp_to_data p =
     (case rbind (rmap_list (pack_be 1) [push_bit 6 (np_leap p) OR push_bit 3 (np_version p) OR np_mode p, np_stratum p, np_poll p]) (\<lambda>bs.
           rbind (pack_i8 (np_precision p)) (\<lambda>pr.
           rbind (rmap_list (pack_be 4) (ntp_words p)) (\<lambda>ws. Ok (concat bs @ pr @ concat ws)))) of
        Inl _ \<Rightarrow> Err (NTPException ''Invalid NTP packet fields.'')
      | Inr b \<Rightarrow> Ok b)"

definition ntp_word :: "bytes \<Rightarrow> nat \<Rightarrow> int" where
  "ntp_word b i = int (be_dec (slice (4 + 4 * i) (8 + 4 * i) b))"

definition ntp_from_data :: "bytes \<Rightarrow> ntp_packet res" where
  "ntp_from_data data =
     (let b = take 48 data; flags = uint (b ! 0)
      in if length b \<noteq> 48 then Err (NTPException ''Invalid NTP packet.'')
         else Ok \<lparr>np_leap = drop_bit 6 flags AND 3, np_version = drop_bit 3 flags AND 7, np_mode = flags AND 7,
                  np_stratum = uint (b ! 1), np_poll = uint (b ! 2), np_precision = sint (b ! 3),
                  np_root_delay = of_int (ntp_word b 0) / 2 ^ 16, np_root_dispersion = of_int (ntp_word b 1) / 2 ^ 16,
                  np_ref_id = ntp_word b 2,
                  np_ref_timestamp = ntp_to_time (ntp_word b 3) (ntp_word b 4) 32,
                  np_orig_timestamp = ntp_to_time (ntp_word b 5) (ntp_word b 6) 32,
                  np_recv_timestamp = ntp_to_time (ntp_word b 7) (ntp_word b 8) 32,
                  np_tx_timestamp = ntp_to_time (ntp_word b 9) (ntp_word b 10) 32\<rparr>)"

text \<open>\<open>NTPStats\<close>: a packet with the time of its arrival.\<close>

record ntp_stats = ntp_packet +
  np_dest_timestamp :: rat

definition ntp_stats_of :: "ntp_packet \<Rightarrow> rat \<Rightarrow> ntp_stats" where
  "ntp_stats_of p dest = ntp_packet.extend p \<lparr>np_dest_timestamp = dest\<rparr>"

definition ntp_offset :: "ntp_stats \<Rightarrow> rat" where
  "ntp_offset s = ((np_recv_timestamp s - np_orig_timestamp s) + (np_tx_timestamp s - np_dest_timestamp s)) / 2"

definition ntp_delay :: "ntp_stats \<Rightarrow> rat" where
  "ntp_delay s = (np_dest_timestamp s - np_orig_timestamp s) - (np_tx_timestamp s - np_recv_timestamp s)"

definition tx_time :: "ntp_stats \<Rightarrow> rat" where
  "tx_time s = ntp_to_system_time (np_tx_timestamp s)"

definition recv_time :: "ntp_stats \<Rightarrow> rat" where
  "recv_time s = ntp_to_system_time (np_recv_timestamp s)"

definition orig_time :: "ntp_stats \<Rightarrow> rat" where
  "orig_time s = ntp_to_system_time (np_orig_timestamp s)"

definition ref_time :: "ntp_stats \<Rightarrow> rat" where
  "ref_time s = ntp_to_system_time (np_ref_timestamp s)"

definition dest_time :: "ntp_stats \<Rightarrow> rat" where
  "dest_time s = ntp_to_system_time (np_dest_timestamp s)"

text \<open>
  A request over an opened pipe (False: none), with the clock at sending and at arrival: what the pipe
  receives is bytes, None at its own timeout, or an exception. The code goes on to read the reply also
  where the handler has only logged an exception, and then finds the name unbound.
\<close>

definition ntp_request :: "bool \<Rightarrow> int \<Rightarrow> rat \<Rightarrow> (bytes \<Rightarrow> bytes option res) \<Rightarrow> rat \<Rightarrow> ntp_stats res" where
  "ntp_request has_pipe version now exchange arrived =
     (if \<not> has_pipe then Err AttributeError
      else case rbind (ntp_to_data (NTPPacket version 3 (system_to_ntp_time now))) exchange of
             Inl TimeoutError \<Rightarrow> Err (NTPException ''No response received from host'')
           | Inl _ \<Rightarrow> Err (PyException ''UnboundLocalError'')
           | Inr None \<Rightarrow> Err TypeError
           | Inr (Some buf) \<Rightarrow> rmap (\<lambda>p. ntp_stats_of p (system_to_ntp_time arrived)) (ntp_from_data buf))"

section \<open>Names of codes\<close>

definition LEAP_TABLE :: "(int \<times> string) list" where
  "LEAP_TABLE = [(0, ''no warning''), (1, ''last minute of the day has 61 seconds''),
     (2, ''last minute of the day has 59 seconds''), (3, ''unknown (clock unsynchronized)'')]"

definition MODE_TABLE :: "(int \<times> string) list" where
  "MODE_TABLE = [(0, ''reserved''), (1, ''symmetric active''), (2, ''symmetric passive''), (3, ''client''), (4, ''server''),
     (5, ''broadcast''), (6, ''reserved for NTP control messages''), (7, ''reserved for private use'')]"

definition leap_to_text :: "int \<Rightarrow> string res" where
  "leap_to_text leap = (case map_of LEAP_TABLE leap of Some t \<Rightarrow> Ok t | None \<Rightarrow> Err (NTPException ''Invalid leap indicator.''))"

definition mode_to_text :: "int \<Rightarrow> string res" where
  "mode_to_text mode = (case map_of MODE_TABLE mode of Some t \<Rightarrow> Ok t | None \<Rightarrow> Err (NTPException ''Invalid mode.''))"

text \<open>The table entry of stratum 0 has no place for the number, which the \<open>%\<close> operator answers with TypeError.\<close>

definition stratum_to_text :: "int \<Rightarrow> string res" where
  "stratum_to_text stratum =
     (if stratum = 0 then Err TypeError
      else if stratum = 1 then Ok (''primary reference ('' @ int_str stratum @ '')'')
      else if 1 < stratum \<and> stratum < 16 then Ok (''secondary reference ('' @ int_str stratum @ '')'')
      else if stratum = 16 then Ok (''unsynchronized ('' @ int_str stratum @ '')'')
      else Err (NTPException ''Invalid stratum or reserved.''))"

text \<open>The table of four-letter clock names is an argument.\<close>

definition ref_id_to_text :: "(string \<times> string) list \<Rightarrow> int \<Rightarrow> int \<Rightarrow> string res" where
  "ref_id_to_text table ref_id stratum =
     (let fields = map (\<lambda>k. drop_bit k ref_id AND 255) [24, 16, 8, 0]
      in if 0 \<le> stratum \<and> stratum \<le> 1
         then (let s = map (\<lambda>n. char_of (nat n)) fields
               in Ok (case map_of table s of Some t \<Rightarrow> t | None \<Rightarrow> ''Unidentified reference source '' @ [CHR 39] @ s @ [CHR 39]))
         else if 2 \<le> stratum \<and> stratum < 255 then Ok (join_with CHR ''.'' (map int_str fields))
         else Err (NTPException ''Invalid stratum.''))"

section \<open>Reading the time\<close>

definition NTP_RETRY :: nat where "NTP_RETRY = 2"
definition NTP_TIMEOUT :: nat where "NTP_TIMEOUT = 2"

text \<open>An entry of the server list, or the pair \<open>start\<close> passes for a local daemon.\<close>

datatype ntp_server = NtpEntry "af \<Rightarrow> string option" string int | NtpPair string int

definition ntp_has_af :: "af \<Rightarrow> ntp_server \<Rightarrow> bool" where
  "ntp_has_af af s = (case s of NtpEntry ips _ _ \<Rightarrow> (case ips af of Some ip \<Rightarrow> ip \<noteq> [] | None \<Rightarrow> False) | NtpPair _ _ \<Rightarrow> False)"

text \<open>
  \<open>picks\<close> are the random draws from the server list. Subscripting a pair with an address family raises,
  and so does awaiting the text of an address; both happen before the \<open>try\<close>.
\<close>

fun ntp_attempts :: "nat \<Rightarrow> (nat \<Rightarrow> ntp_stats option res) \<Rightarrow> nat \<Rightarrow> rat option" where
  "ntp_attempts 0 req i = None"
| "ntp_attempts (Suc k) req i =
     (case req i of Inl _ \<Rightarrow> None | Inr None \<Rightarrow> ntp_attempts k req (i + 1) | Inr (Some s) \<Rightarrow> Some (tx_time s))"

definition get_ntp ::
  "af \<Rightarrow> ntp_server list \<Rightarrow> (string \<times> int \<Rightarrow> nat \<Rightarrow> ntp_stats res) \<Rightarrow> ntp_server option \<Rightarrow> nat \<Rightarrow> rat option res" where
  "get_ntp af picks request server retry =
     (case (case server of Some s \<Rightarrow> Some s | None \<Rightarrow> find (ntp_has_af af) (take 20 picks)) of
        None \<Rightarrow> Err (PyException ''Can't find compatible NTP server.'')
      | Some (NtpPair _ _) \<Rightarrow> Err IndexError
      | Some (NtpEntry ips host port) \<Rightarrow>
          if \<not> ntp_has_af af (NtpEntry ips host port) then Err TypeError
          else Ok (ntp_attempts retry (\<lambda>i. rmap Some (request (the (ips af), port) i)) 0))"

section \<open>The clock\<close>

record sys_clock =
  sc_enough_data :: nat
  sc_min_data :: nat
  sc_max_sdev :: rat
  sc_clean_steps :: nat
  sc_data_points :: "rat list"
  sc_skew :: rat

definition SysClock :: "rat \<Rightarrow> sys_clock" where
  "SysClock clock_skew =
     \<lparr>sc_enough_data = 40, sc_min_data = 10, sc_max_sdev = 60, sc_clean_steps = 3, sc_data_points = [], sc_skew = clock_skew\<rparr>"

definition sc_time :: "rat \<Rightarrow> sys_clock \<Rightarrow> rat" where
  "sc_time now c = now - sc_skew c"

definition statx_avg :: "rat list \<Rightarrow> rat" where
  "statx_avg data = sum_list data / of_nat (length data)"

text \<open>
  The square of \<open>statx_sdev\<close>; the code's comparisons with the deviation itself are written for the
  variance, see \<open>outside_sdev\<close>.
\<close>

definition statx_var :: "rat list \<Rightarrow> rat res" where
  "statx_var data =
     (if length data < 2 then Err ValueError
      else Ok (sum_list (map (\<lambda>x. (x - statx_avg data)\<^sup>2) data) / of_nat (length data)))"

definition outside_sdev :: "rat \<Rightarrow> rat \<Rightarrow> rat \<Rightarrow> bool" where
  "outside_sdev avg var v = ((v - avg)\<^sup>2 > var)"

definition sdev_above :: "rat \<Rightarrow> rat \<Rightarrow> bool" where
  "sdev_above var limit = (var > limit\<^sup>2)"

fun clean_loop :: "rat \<Rightarrow> nat \<Rightarrow> nat \<Rightarrow> rat list \<Rightarrow> rat \<Rightarrow> rat \<Rightarrow> (rat list \<times> rat \<times> rat) res" where
  "clean_loop max_sdev min_data 0 data avg var = Ok (data, avg, var)"
| "clean_loop max_sdev min_data (Suc k) data avg var =
     (let data = filter (\<lambda>v. \<not> outside_sdev avg var v) data
      in if length data < 2 then Ok (data, avg, var)
         else rbind (statx_var data) (\<lambda>var'.
              let avg' = statx_avg data
              in if \<not> sdev_above var' max_sdev \<or> length data < min_data then Ok (data, avg', var')
                 else clean_loop max_sdev min_data k data avg' var'))"

definition calculate_clock_skew :: "sys_clock \<Rightarrow> (rat \<times> sys_clock) res" where
  "calculate_clock_skew c =
     (if sc_data_points c = [] then Ok (0, c)
      else rbind (statx_var (sc_data_points c)) (\<lambda>var.
           rbind (clean_loop (sc_max_sdev c) (sc_min_data c) (sc_clean_steps c) (sc_data_points c)
                    (statx_avg (sc_data_points c)) var) (\<lambda>(data, avg, var').
             Ok (if sdev_above var' (sc_max_sdev c) \<or> length data < sc_min_data c then 0 else avg,
                 c\<lparr>sc_data_points := data\<rparr>))))"

text \<open>One round of measurements: the local times less the server times that arrived.\<close>

definition collect_data_points :: "(rat \<times> rat option) list \<Rightarrow> sys_clock \<Rightarrow> sys_clock" where
  "collect_data_points results c =
     c\<lparr>sc_data_points := sc_data_points c @
         strip_none (map (\<lambda>(now, ntp). map_option (\<lambda>t. now - t) ntp) (take (sc_enough_data c + 10) results))\<rparr>"

text \<open>Up to three rounds; the answer of a local daemon is not used but for the choice of the server.\<close>

fun clock_rounds :: "(rat \<times> rat option) list list \<Rightarrow> sys_clock \<Rightarrow> sys_clock res" where
  "clock_rounds [] c = Ok c"
| "clock_rounds (r # rs) c =
     (if sc_skew c \<noteq> 0 then Ok c
      else let c = collect_data_points r c
           in if sc_data_points c = [] then clock_rounds rs c
              else rbind (calculate_clock_skew c) (\<lambda>(s, c). clock_rounds rs (c\<lparr>sc_skew := s\<rparr>)))"

definition sc_start :: "(nat \<Rightarrow> (rat \<times> rat option) list) \<Rightarrow> sys_clock \<Rightarrow> sys_clock res" where
  "sc_start rounds c = (if sc_skew c \<noteq> 0 then Ok c else clock_rounds (map rounds [0..<3]) c)"

text \<open>
  The serialised clock is its interface and the skew. The reader imports \<open>p2pd.interface\<close>; \<open>modules\<close> are the
  importable names.
\<close>

definition sc_to_dict :: "'i \<Rightarrow> sys_clock \<Rightarrow> 'i \<times> rat" where
  "sc_to_dict interface c = (interface, sc_skew c)"

definition sc_from_dict :: "string list \<Rightarrow> ('i \<Rightarrow> 'n res) \<Rightarrow> 'i \<times> rat \<Rightarrow> ('n \<times> sys_clock) res" where
  "sc_from_dict modules interface_from_dict d =
     (if ''p2pd.interface'' \<notin> set modules then Err (PyException ''ModuleNotFoundError'')
      else rbind (interface_from_dict (fst d)) (\<lambda>i. Ok (i, SysClock (snd d))))"

section \<open>Fixed-point numbers\<close>

lemma ntp_to_int_nonneg: "0 \<le> t \<Longrightarrow> ntp_to_int t = \<lfloor>t\<rfloor>"
  by (simp add: ntp_to_int_def)

lemma ntp_to_frac_nonneg: "0 \<le> t \<Longrightarrow> ntp_to_frac t n = \<lfloor>frac t * 2 ^ n\<rfloor>"
  by (simp add: ntp_to_frac_def ntp_to_int_nonneg frac_def)

lemma ntp_to_frac_range: "0 \<le> t \<Longrightarrow> 0 \<le> ntp_to_frac t n \<and> ntp_to_frac t n < 2 ^ n"
  by (simp add: ntp_to_frac_nonneg floor_less_iff frac_lt_1)

definition ntp_close :: "nat \<Rightarrow> rat \<Rightarrow> rat \<Rightarrow> bool" where
  "ntp_close n t t' \<longleftrightarrow> t' \<le> t \<and> t < t' + 1 / 2 ^ n"

lemma ntp_close_to_time: "0 \<le> t \<Longrightarrow> ntp_close n t (ntp_to_time (ntp_to_int t) (ntp_to_frac t n) n)"
proof -
  assume t: "0 \<le> t"
  let ?f = "\<lfloor>frac t * 2 ^ n\<rfloor>"
  have "of_int ?f \<le> frac t * 2 ^ n" "frac t * 2 ^ n < of_int ?f + 1" by linarith+
  then have "of_int ?f / 2 ^ n \<le> frac t" "frac t < of_int ?f / 2 ^ n + 1 / 2 ^ n"
    by (simp_all add: field_simps)
  moreover have "t = of_int \<lfloor>t\<rfloor> + frac t" by (simp add: frac_def)
  ultimately show ?thesis
    unfolding ntp_close_def ntp_to_time_def ntp_to_int_nonneg [OF t] ntp_to_frac_nonneg [OF t] by linarith
qed

lemma push_or_add: "0 \<le> b \<Longrightarrow> b < 2 ^ n \<Longrightarrow> push_bit n a OR b = a * 2 ^ n + (b :: int)"
proof -
  assume b: "0 \<le> b" "b < 2 ^ n"
  then have t: "take_bit n b = b" by (simp add: take_bit_int_eq_self)
  have "push_bit n a AND take_bit n b = 0" by (auto simp: bit_eq_iff bit_simps)
  then have "push_bit n a + b = push_bit n a OR b" using t disjunctive_add_eq_or [of "push_bit n a" b] by simp
  then show ?thesis by (simp add: push_bit_eq_mult)
qed

section \<open>The packet\<close>

lemma ntp_words_read:
  "rmap_list (pack_be 4) ns = Inr ws \<Longrightarrow> i < length ns \<Longrightarrow> int (be_dec (take 4 (drop (4 * i) (concat ws @ r)))) = ns ! i"
proof (induction ns arbitrary: i ws)
  case (Cons n ns)
  then obtain w ws' where w: "pack_be 4 n = Inr w" "rmap_list (pack_be 4) ns = Inr ws'" "ws = w # ws'"
    by (auto simp: rbind_eq_Ok)
  then have "length w = 4" "int (be_dec w) = n"
    using pack_be_length unpack_pack_be [OF w(1)] by (auto simp: unpack_be_def)
  then show ?case using w Cons.IH [OF w(2)] Cons.prems(2) by (cases i) (auto simp: take_Cons')
qed simp

lemma drop_header: "drop (4 + n) (a # b # c # d # xs) = drop n xs"
  by (simp add: eval_nat_numeral)

lemma concat_pack_length: "rmap_list (pack_be k) ns = Inr ws \<Longrightarrow> length (concat ws) = k * length ns"
  by (induction ns arbitrary: ws) (auto simp: rbind_eq_Ok pack_be_length)

lemma pack_be_1: "pack_be (Suc 0) n = Inr b \<longleftrightarrow> 0 \<le> n \<and> n < 256 \<and> b = [word_of_int n]"
  by (auto simp: pack_be_def of_nat_nat split: if_splits)

lemma ntp_flags:
  fixes l v m :: int
  assumes "0 \<le> l" "l < 4" "0 \<le> v" "v < 8" "0 \<le> m" "m < 8"
  shows "push_bit 6 l OR push_bit 3 v OR m = 64 * l + 8 * v + m"
    "drop_bit 6 (64 * l + 8 * v + m) AND 3 = l" "drop_bit 3 (64 * l + 8 * v + m) AND 7 = v" "(64 * l + 8 * v + m) AND 7 = m"
proof -
  have "push_bit 3 v OR m = v * 8 + m" using push_or_add [of m 3 v] assms by simp
  then show "push_bit 6 l OR push_bit 3 v OR m = 64 * l + 8 * v + m"
    using push_or_add [of "v * 8 + m" 6 l] assms by (simp add: or.assoc)
  have a: "x AND 3 = x mod 4" "x AND 7 = x mod 8" for x :: int
    using take_bit_eq_mask [of 2 x] take_bit_eq_mask [of 3 x] by (simp_all add: take_bit_eq_mod mask_eq_exp_minus_1)
  show "drop_bit 6 (64 * l + 8 * v + m) AND 3 = l" "drop_bit 3 (64 * l + 8 * v + m) AND 7 = v" "(64 * l + 8 * v + m) AND 7 = m"
    unfolding a drop_bit_eq_div
    using assms int_div_pos_eq [of "64 * l + 8 * v + m" 64 l "8 * v + m"] int_div_pos_eq [of "64 * l + 8 * v + m" 8 "8 * l + v" m]
      int_mod_pos_eq [of "8 * l + v" 8 l v] int_mod_pos_eq [of "64 * l + 8 * v + m" 8 "8 * l + v" m]
    by simp_all
qed

section \<open>Properties of packets\<close>

text \<open>A packet that can be packed is read back, from the first 48 bytes of what arrives, with all its
  codes, and with every time stamp rounded down by less than the unit of its fixed-point form.\<close>

theorem ntp_packet_roundtrip:
  assumes "ntp_to_data p = Inr buf" and "0 \<le> np_leap p" and "np_leap p < 4" and "0 \<le> np_version p" and "np_version p < 8"
    and "0 \<le> np_mode p" and "np_mode p < 8"
    and "list_all (\<lambda>f. 0 \<le> f p) [np_root_delay, np_root_dispersion, np_ref_timestamp, np_orig_timestamp, np_recv_timestamp, np_tx_timestamp]"
  shows "\<exists>q. ntp_from_data (buf @ rest) = Inr q \<and> np_leap q = np_leap p \<and> np_version q = np_version p \<and> np_mode q = np_mode p \<and>
    np_stratum q = np_stratum p \<and> np_poll q = np_poll p \<and> np_precision q = np_precision p \<and> np_ref_id q = np_ref_id p \<and>
    list_all (\<lambda>f. ntp_close 16 (f p) (f q)) [np_root_delay, np_root_dispersion] \<and>
    list_all (\<lambda>f. ntp_close 32 (f p) (f q)) [np_ref_timestamp, np_orig_timestamp, np_recv_timestamp, np_tx_timestamp]"
proof -
  obtain bs pr ws where o: "rmap_list (pack_be 1) [push_bit 6 (np_leap p) OR push_bit 3 (np_version p) OR np_mode p, np_stratum p, np_poll p] = Inr bs"
    "pack_i8 (np_precision p) = Inr pr" "rmap_list (pack_be 4) (ntp_words p) = Inr ws" "buf = concat bs @ pr @ concat ws"
    using assms(1) by (auto simp: ntp_to_data_def rbind_eq_Ok split: sum.splits)
  define fl where "fl = 64 * np_leap p + 8 * np_version p + np_mode p"
  note f = ntp_flags [OF assms(2-7), folded fl_def]
  have bs: "concat bs = [word_of_int fl, word_of_int (np_stratum p), word_of_int (np_poll p)]"
    "0 \<le> fl" "fl < 256" "0 \<le> np_stratum p" "np_stratum p < 256" "0 \<le> np_poll p" "np_poll p < 256"
    using o(1) by (auto simp: rbind_eq_Ok pack_be_1 f(1))
  have pr: "pr = [word_of_int (np_precision p)]" "- 128 \<le> np_precision p" "np_precision p < 128"
    using o(2) by (auto simp: pack_i8_def split: if_splits)
  have lw: "length (concat ws) = 44" using concat_pack_length [OF o(3)] by (simp add: ntp_words_def)
  have buf: "take 48 (buf @ rest) = word_of_int fl # word_of_int (np_stratum p) # word_of_int (np_poll p) # word_of_int (np_precision p) # concat ws"
    using o(4) bs(1) pr(1) lw by (simp add: take_Cons')
  have wd: "ntp_word (take 48 (buf @ rest)) i = ntp_words p ! i" if "i < 11" for i
  proof -
    have "i < length (ntp_words p)" using that by (simp add: ntp_words_def)
    from ntp_words_read [OF o(3) this, of "[]"] show ?thesis
      unfolding buf by (simp add: ntp_word_def slice_def drop_header)
  qed
  have pos: "0 \<le> np_root_delay p" "0 \<le> np_root_dispersion p" "0 \<le> np_ref_timestamp p" "0 \<le> np_orig_timestamp p"
    "0 \<le> np_recv_timestamp p" "0 \<le> np_tx_timestamp p" using assms(8) by simp_all
  have short: "of_int (push_bit 16 (ntp_to_int t) OR ntp_to_frac t 16) / 2 ^ 16 = ntp_to_time (ntp_to_int t) (ntp_to_frac t 16) 16"
    if "0 \<le> t" for t :: rat
    using push_or_add [of "ntp_to_frac t 16" 16 "ntp_to_int t"] ntp_to_frac_range [OF that, of 16]
    by (simp add: ntp_to_time_def field_simps)
  have sc: "ntp_close 16 t (of_int (push_bit 16 (ntp_to_int t) OR ntp_to_frac t 16) / 2 ^ 16)" if "0 \<le> t" for t :: rat
    unfolding short [OF that] using that by (rule ntp_close_to_time)
  have fl: "uint (word_of_int fl :: 8 word) = fl" "uint (word_of_int (np_stratum p) :: 8 word) = np_stratum p"
    "uint (word_of_int (np_poll p) :: 8 word) = np_poll p" "sint (word_of_int (np_precision p) :: 8 word) = np_precision p"
    using bs(2-7) pr(2,3) by (simp_all add: uint_word_of_int sint_sbintrunc' take_bit_int_eq_self signed_take_bit_int_eq_self)
  have q: "ntp_from_data (buf @ rest) = Inr
      \<lparr>np_leap = np_leap p, np_version = np_version p, np_mode = np_mode p, np_stratum = np_stratum p, np_poll = np_poll p,
       np_precision = np_precision p, np_root_delay = of_int (ntp_words p ! 0) / 2 ^ 16,
       np_root_dispersion = of_int (ntp_words p ! 1) / 2 ^ 16, np_ref_id = ntp_words p ! 2,
       np_ref_timestamp = ntp_to_time (ntp_words p ! 3) (ntp_words p ! 4) 32,
       np_orig_timestamp = ntp_to_time (ntp_words p ! 5) (ntp_words p ! 6) 32,
       np_recv_timestamp = ntp_to_time (ntp_words p ! 7) (ntp_words p ! 8) 32,
       np_tx_timestamp = ntp_to_time (ntp_words p ! 9) (ntp_words p ! 10) 32\<rparr>"
  proof -
    have "length (take 48 (buf @ rest)) = 48" unfolding buf using lw by simp
    moreover have "uint (take 48 (buf @ rest) ! 0) = fl" "uint (take 48 (buf @ rest) ! 1) = np_stratum p"
      "uint (take 48 (buf @ rest) ! 2) = np_poll p" "sint (take 48 (buf @ rest) ! 3) = np_precision p"
      unfolding buf using fl by simp_all
    ultimately show ?thesis unfolding ntp_from_data_def Let_def using wd f(2-4) by simp
  qed
  show ?thesis
    unfolding q using pos sc [OF pos(1)] sc [OF pos(2)] by (simp add: ntp_words_def ntp_close_to_time)
qed

theorem ntp_packet_roundtrip_witness:
  "\<exists>buf q. ntp_to_data (NTPPacket 3 3 (system_to_ntp_time (1 / 2))) = Inr buf \<and> ntp_from_data (buf @ [9]) = Inr q \<and>
     np_version q = 3 \<and> ntp_close 32 (NTP_DELTA + 1 / 2) (np_tx_timestamp q)"
proof -
  have c: "ntp_to_int (NTP_DELTA + 1 / 2) = 2208988800" by (simp add: ntp_to_int_def NTP_DELTA_def floor_eq_iff)
  then have "ntp_to_frac (NTP_DELTA + 1 / 2) 32 = 2147483648"
    by (simp add: ntp_to_frac_def) (simp add: ntp_to_int_def NTP_DELTA_def floor_eq_iff)
  then have "\<exists>buf. ntp_to_data (NTPPacket 3 3 (system_to_ntp_time (1 / 2))) = Inr buf"
    using c by (simp add: ntp_to_data_def ntp_words_def NTPPacket_def system_to_ntp_time_def pack_be_def pack_i8_def
        ntp_to_int_def [of 0] ntp_to_frac_def [of 0] push_or_add add.commute)
  then obtain buf where b: "ntp_to_data (NTPPacket 3 3 (system_to_ntp_time (1 / 2))) = Inr buf" by blast
  show ?thesis
    using ntp_packet_roundtrip [OF b, of "[9]"] b
    by (auto simp: NTPPacket_def system_to_ntp_time_def NTP_DELTA_def add.commute)
qed

section \<open>The corrected clock\<close>

lemma outside_sdev_sqrt:
  assumes "0 \<le> var"
  shows "outside_sdev avg var v \<longleftrightarrow>
    (of_rat v :: real) < of_rat avg - sqrt (of_rat var) \<or> (of_rat v :: real) > of_rat avg + sqrt (of_rat var)"
proof -
  have "outside_sdev avg var v \<longleftrightarrow> (of_rat var :: real) < (of_rat v - of_rat avg)\<^sup>2"
    by (simp add: outside_sdev_def of_rat_less [symmetric, where 'a = real] of_rat_power of_rat_diff)
  also have "\<dots> \<longleftrightarrow> sqrt (of_rat var) < \<bar>of_rat v - of_rat avg :: real\<bar>"
    using assms by (metis real_sqrt_abs real_sqrt_less_iff)
  finally show ?thesis by linarith
qed

lemma statx_avg_bounds:
  assumes "data \<noteq> []" and "list_all (\<lambda>x. a \<le> x \<and> x \<le> b) data"
  shows "a \<le> statx_avg data \<and> statx_avg data \<le> b"
proof -
  have "of_nat (length data) * a \<le> sum_list data \<and> sum_list data \<le> of_nat (length data) * b"
    using assms(2) by (induction data) (auto simp: algebra_simps)
  moreover have "0 < (of_nat (length data) :: rat)" using assms(1) by simp
  ultimately show ?thesis by (simp add: statx_avg_def field_simps)
qed

lemma clean_loop_result:
  assumes "clean_loop max_sdev min_data k data avg var = Inr (data', avg', var')"
    and "avg = statx_avg data" and "statx_var data = Inr var" and "2 \<le> min_data"
  shows "set data' \<subseteq> set data \<and> (min_data \<le> length data' \<longrightarrow> avg' = statx_avg data' \<and> statx_var data' = Inr var')"
  using assms
proof (induction k arbitrary: data avg var)
  case (Suc k)
  let ?d = "filter (\<lambda>v. \<not> outside_sdev avg var v) data"
  show ?case
  proof (cases "length ?d < 2")
    case False
    then obtain v where v: "statx_var ?d = Inr v" by (simp add: statx_var_def)
    show ?thesis
    proof (cases "\<not> sdev_above v max_sdev \<or> length ?d < min_data")
      case True
      then show ?thesis using Suc.prems(1) False v by (auto simp: Let_def)
    next
      case go: False
      then have "clean_loop max_sdev min_data k ?d (statx_avg ?d) v = Inr (data', avg', var')"
        using Suc.prems(1) False v by (simp add: Let_def)
      from Suc.IH [OF this refl v Suc.prems(4)] show ?thesis by auto
    qed
  qed (use Suc.prems in \<open>auto simp: Let_def\<close>)
qed simp

text \<open>C37: the correction is zero, or the average of at least ten of the measurements whose deviation is at most
  sixty seconds, so it lies within the bounds of the measurements: no outlier can push it past them.\<close>

theorem clock_skew_bounds:
  assumes "calculate_clock_skew c = Inr (s, c')" and "sc_min_data c = 10" and "sc_max_sdev c = 60"
    and "list_all (\<lambda>x. a \<le> x \<and> x \<le> b) (sc_data_points c)"
  shows "s = 0 \<or> (a \<le> s \<and> s \<le> b \<and> s = statx_avg (sc_data_points c') \<and> 10 \<le> length (sc_data_points c') \<and>
    set (sc_data_points c') \<subseteq> set (sc_data_points c) \<and>
    (\<exists>var. statx_var (sc_data_points c') = Inr var \<and> sqrt (of_rat var) \<le> 60))"
proof (cases "s = 0")
  case False
  then obtain var data avg var' where o: "statx_var (sc_data_points c) = Inr var"
    "clean_loop 60 10 (sc_clean_steps c) (sc_data_points c) (statx_avg (sc_data_points c)) var = Inr (data, avg, var')"
    "s = avg" "\<not> sdev_above var' 60" "10 \<le> length data" "c' = c\<lparr>sc_data_points := data\<rparr>"
    using assms(1-3) by (auto simp: calculate_clock_skew_def rbind_eq_Ok split: if_splits)
  have r: "set data \<subseteq> set (sc_data_points c)" "avg = statx_avg data" "statx_var data = Inr var'"
    using clean_loop_result [OF o(2) refl o(1)] o(5) by auto
  have "data \<noteq> []" "list_all (\<lambda>x. a \<le> x \<and> x \<le> b) data" using o(5) r(1) assms(4) by (auto simp: list_all_iff)
  note bd = statx_avg_bounds [OF this]
  have "of_rat var' \<le> (60 :: real)\<^sup>2"
    using o(4) by (simp add: sdev_above_def not_less of_rat_less_eq [symmetric, where 'a = real])
  then have "sqrt (of_rat var') \<le> 60" using real_le_lsqrt real_sqrt_le_iff [of "of_rat var'" "60\<^sup>2"] by simp
  then show ?thesis using bd r o(3,5,6) by auto
qed simp

theorem clock_skew_bounds_witness:
  "\<exists>c'. calculate_clock_skew ((SysClock 0)\<lparr>sc_data_points := replicate 12 3\<rparr>) = Inr (3, c') \<and> sc_data_points c' = replicate 12 3"
proof -
  let ?c = "(SysClock 0)\<lparr>sc_data_points := replicate 12 3\<rparr>"
  have "statx_avg (replicate 12 3) = 3" "statx_var (replicate 12 3) = Inr 0"
    by (simp_all add: statx_avg_def statx_var_def eval_nat_numeral)
  then have e: "calculate_clock_skew ?c = Inr (3, ?c)"
    by (simp add: calculate_clock_skew_def SysClock_def outside_sdev_def sdev_above_def eval_nat_numeral)
  have "list_all (\<lambda>x. 3 \<le> x \<and> x \<le> (3 :: rat)) (sc_data_points ?c)" by (simp add: list_all_iff)
  with clock_skew_bounds [OF e] have "10 \<le> length (sc_data_points ?c)" by (simp add: SysClock_def)
  then show ?thesis using e by auto
qed

text \<open>A single measurement makes the calculation raise ValueError, and with it the start of the clock, where
  two or more, or none, are handled.\<close>

theorem clock_skew_single_point:
  "(case calculate_clock_skew c of Inl e \<Rightarrow> e = ValueError \<and> length (sc_data_points c) = 1 | Inr _ \<Rightarrow> length (sc_data_points c) \<noteq> 1)"
proof -
  have t: "\<exists>r. clean_loop m n k data avg var = Inr r" for m n k data avg var
    by (induction k arbitrary: data avg var) (auto simp: Let_def statx_var_def not_less)
  show ?thesis
  proof (cases "sc_data_points c = []")
    case False
    show ?thesis
    proof (cases "length (sc_data_points c) < 2")
      case True
      then have "length (sc_data_points c) = 1" using False by (cases "sc_data_points c") auto
      then show ?thesis using False by (simp add: calculate_clock_skew_def statx_var_def)
    next
      case two: False
      then obtain var where v: "statx_var (sc_data_points c) = Inr var" by (simp add: statx_var_def)
      obtain r where "clean_loop (sc_max_sdev c) (sc_min_data c) (sc_clean_steps c) (sc_data_points c)
          (statx_avg (sc_data_points c)) var = Inr r" using t by blast
      then show ?thesis using False two v by (auto simp: calculate_clock_skew_def split: prod.splits)
    qed
  qed (simp add: calculate_clock_skew_def)
qed

text \<open>NTP's offset is the error of the local clock up to half the difference of the two delays, but the
  clock averages local time less the server's sending time, which is the error plus the whole delay of
  the reply: the correction is late by that delay even on a symmetric path.\<close>

theorem skew_includes_reply_delay:
  assumes "np_orig_timestamp s = system_to_ntp_time (t0 + theta)" and "np_recv_timestamp s = system_to_ntp_time (t0 + d1)"
    and "np_tx_timestamp s = system_to_ntp_time t2" and "np_dest_timestamp s = system_to_ntp_time (t2 + d2 + theta)"
  shows "ntp_offset s = (d1 - d2) / 2 - theta \<and> ntp_delay s = d1 + d2 \<and>
    sc_data_points (collect_data_points [(t2 + d2 + theta, Some (tx_time s))] c) = sc_data_points c @ [theta + d2]"
  using assms
  by (simp add: ntp_offset_def ntp_delay_def tx_time_def system_to_ntp_time_def ntp_to_system_time_def collect_data_points_def)

theorem skew_includes_reply_delay_witness:
  "\<exists>s. ntp_offset s = - 7 \<and> ntp_delay s = 4 \<and>
     sc_data_points (collect_data_points [(109, Some (tx_time s))] (SysClock 0)) = [9]"
proof -
  let ?s = "ntp_stats_of ((NTPPacket 3 4 (system_to_ntp_time 100))\<lparr>np_orig_timestamp := system_to_ntp_time (90 + 7),
      np_recv_timestamp := system_to_ntp_time (90 + 2)\<rparr>) (system_to_ntp_time (100 + 2 + 7))"
  show ?thesis
    using skew_includes_reply_delay [of ?s 90 7 2 100 2 "SysClock 0"]
    by (intro exI [of _ ?s]) (simp add: ntp_stats_of_def ntp_packet.extend_def NTPPacket_def SysClock_def)
qed

text \<open>A failed request ends the attempts; only a missing reply object, which no request returns, is retried.\<close>

lemma get_ntp_no_retry: "req i = Inl e \<Longrightarrow> 0 < k \<Longrightarrow> ntp_attempts k req i = None"
  by (cases k) auto

end
