(* ===== verification/Tcp_Punch.thy ===== *)
theory Tcp_Punch
  imports Ntp_Clock Nat_Predict Ip_Range
begin

text \<open>
  \<^verbatim>\<open>traversal/tcp_punch/tcp_punch_utils.py\<close> and \<^verbatim>\<open>tcp_punch_client.py\<close>: the protocol by which two nodes
  exchange port predictions, the meeting time, the attempts of the punching process and the choice of
  one connection by both sides. Times are exact rational numbers; socket calls are parameters.
\<close>

section \<open>Modes and states\<close>

definition PUNCH_ALIVE :: string where "PUNCH_ALIVE = ''234o2jdjf'' @ [CHR 10]"
definition PUNCH_END :: string where "PUNCH_END = ''qwekl2k343ok'' @ [CHR 10]"

definition INITIATED_PREDICTIONS :: int where "INITIATED_PREDICTIONS = 1"
definition RECEIVED_PREDICTIONS :: int where "RECEIVED_PREDICTIONS = 2"
definition UPDATED_PREDICTIONS :: int where "UPDATED_PREDICTIONS = 3"
definition INITIATOR :: int where "INITIATOR = 1"
definition RECIPIENT :: int where "RECIPIENT = 2"
definition NTP_MEET_STEP :: rat where "NTP_MEET_STEP = 6"

lemmas puncher_consts = INITIATED_PREDICTIONS_def RECEIVED_PREDICTIONS_def UPDATED_PREDICTIONS_def
  INITIATOR_def RECIPIENT_def

definition get_punch_mode :: "af \<Rightarrow> string \<Rightarrow> bool \<Rightarrow> int res" where
  "get_punch_mode af dest_ip same_machine =
     rbind (IPRange (IpStr dest_ip) None (Some (int (af_to_cidr af)))) (\<lambda>dest_ipr.
       Ok (if ipr_is_public dest_ipr then TCP_PUNCH_REMOTE else if same_machine then TCP_PUNCH_SELF else TCP_PUNCH_LAN))"

definition progressions :: "(bool \<times> int option \<times> int) list" where
  "progressions =
     [(False, None, INITIATED_PREDICTIONS), (True, None, RECEIVED_PREDICTIONS),
      (True, Some INITIATED_PREDICTIONS, UPDATED_PREDICTIONS)]"

definition sides :: "(int \<times> int) list" where
  "sides = [(INITIATED_PREDICTIONS, INITIATOR), (UPDATED_PREDICTIONS, INITIATOR), (RECEIVED_PREDICTIONS, RECIPIENT)]"

definition tcp_puncher_states :: "'m list option \<Rightarrow> int option \<Rightarrow> (int \<times> int) res" where
  "tcp_puncher_states dest_mappings state =
     (case find (\<lambda>(from_recv, from_state, to_state).
              from_recv = (case dest_mappings of None \<Rightarrow> False | Some ms \<Rightarrow> ms \<noteq> []) \<and> from_state = state) progressions of
        Some (_, _, to_state) \<Rightarrow> rmap (Pair to_state) (dict_get to_state sides)
      | None \<Rightarrow> Err (PyException ''Invalid puncher state progression.''))"

section \<open>The puncher\<close>

text \<open>Of the interface descriptions the code reads the NAT and the chosen address.\<close>

record 's puncher =
  pu_af :: af
  pu_src_nat :: nat_desc
  pu_dest_nat :: nat_desc
  pu_dest_ip :: string
  pu_same_machine :: bool
  pu_punch_mode :: int
  pu_side :: "int option"
  pu_state :: "int option"
  pu_start_time :: rat
  pu_recv_mappings :: "'s nat_mapping list"
  pu_send_mappings :: "'s nat_mapping list"
  pu_preloaded :: "'s nat_mapping list"

definition TCPPuncher :: "af \<Rightarrow> nat_desc \<Rightarrow> nat_desc \<Rightarrow> string \<Rightarrow> bool \<Rightarrow> 's puncher res" where
  "TCPPuncher af src_nat dest_nat dest_ip same_machine =
     rbind (get_punch_mode af dest_ip same_machine) (\<lambda>mode.
       Ok \<lparr>pu_af = af, pu_src_nat = src_nat, pu_dest_nat = dest_nat, pu_dest_ip = dest_ip,
           pu_same_machine = same_machine, pu_punch_mode = mode, pu_side = None, pu_state = None,
           pu_start_time = 0, pu_recv_mappings = [], pu_send_mappings = [], pu_preloaded = []\<rparr>)"

definition get_ntp_meet_time :: "rat \<Rightarrow> rat" where
  "get_ntp_meet_time now = now + NTP_MEET_STEP"

text \<open>The result of \<open>proto\<close>: mappings and time to send to the peer, or that nothing is left to send.\<close>

datatype 's punch_reply = PunchSend "'s nat_mapping list" rat | PunchDone

text \<open>
  The two states in which predictions are made. \<open>recv or deepcopy(send)\<close> takes the copy for an empty list
  too. A failed prediction leaves the new state and side.
\<close>

definition proto_predict ::
  "(nat \<Rightarrow> nat) \<Rightarrow> (nat \<Rightarrow> 's nat_mapping option res) \<Rightarrow> rat \<Rightarrow> 's nat_mapping list option \<Rightarrow> rat option \<Rightarrow>
   's puncher \<Rightarrow> 's punch_reply res \<times> 's puncher" where
  "proto_predict e stuns now recv_mappings start_time p =
     (case nat_prediction e stuns (pu_punch_mode p) (pu_src_nat p) (pu_dest_nat p) recv_mappings 2 of
        Inl err \<Rightarrow> (Err err, p)
      | Inr (send, preloaded, src_nat) \<Rightarrow>
          let recv = (case recv_mappings of Some (m # ms) \<Rightarrow> m # ms | _ \<Rightarrow> send);
              recv = (if pu_side p = Some INITIATOR then self_punch_patch (pu_punch_mode p) recv 1000 else recv);
              meet = (case start_time of Some t \<Rightarrow> if t = 0 then get_ntp_meet_time now else t
                      | None \<Rightarrow> get_ntp_meet_time now)
          in (Ok (PunchSend send meet),
              p\<lparr>pu_src_nat := src_nat, pu_send_mappings := send, pu_preloaded := preloaded,
                pu_recv_mappings := recv, pu_start_time := meet\<rparr>))"

text \<open>
  The update: \<open>update_for_reply_ports\<close> is called with the received mappings where it expects those to
  send and the other way round, so it adjusts the received list in place. \<open>nats_intersect\<close> may write
  to our NAT; the adjustments made before an exception are not kept.
\<close>

definition proto_update ::
  "(nat \<Rightarrow> nat) \<Rightarrow> 's nat_mapping list \<Rightarrow> 's puncher \<Rightarrow> 's punch_reply res \<times> 's puncher" where
  "proto_update e recv_mappings p =
     (let test_no = min (length recv_mappings) (length (pu_send_mappings p));
          src_nat = snd (nats_intersect (pu_src_nat p) (pu_dest_nat p) (int test_no));
          p' = p\<lparr>pu_recv_mappings := recv_mappings, pu_src_nat := src_nat\<rparr>
      in case update_for_reply_ports e (pu_punch_mode p) (pu_src_nat p) (pu_dest_nat p) (pu_preloaded p)
                recv_mappings (pu_send_mappings p) of
           Inl err \<Rightarrow> (Err err, p')
         | Inr recv \<Rightarrow> (Ok PunchDone, p'\<lparr>pu_recv_mappings := recv\<rparr>))"

definition puncher_proto ::
  "(nat \<Rightarrow> nat) \<Rightarrow> (nat \<Rightarrow> 's nat_mapping option res) \<Rightarrow> rat \<Rightarrow> 's nat_mapping list option \<Rightarrow> rat option \<Rightarrow>
   's puncher \<Rightarrow> 's punch_reply res \<times> 's puncher" where
  "puncher_proto e stuns now recv_mappings start_time p =
     (case tcp_puncher_states recv_mappings (pu_state p) of
        Inl err \<Rightarrow> (Err err, p)
      | Inr (state, side) \<Rightarrow>
          let p = p\<lparr>pu_state := Some state, pu_side := Some side\<rparr>
          in if state \<in> {INITIATED_PREDICTIONS, RECEIVED_PREDICTIONS}
             then proto_predict e stuns now recv_mappings start_time p
             else proto_update e (case recv_mappings of None \<Rightarrow> [] | Some ms \<Rightarrow> ms) p)"

section \<open>Punching\<close>

definition wait_for_punch_time :: "rat \<Rightarrow> rat \<Rightarrow> rat res" where
  "wait_for_punch_time current_ntp ntp_meet =
     rbind (rassert (current_ntp \<noteq> 0)) (\<lambda>_. Ok (if current_ntp < ntp_meet then ntp_meet - current_ntp else 0))"

text \<open>
  One attempt writes its socket into the mapping object it was given and returns that object; all
  attempts share the first mapping. The number counts the returned references.
\<close>

definition delayed_punch :: "'s option \<Rightarrow> 's nat_mapping \<times> nat \<Rightarrow> 's nat_mapping \<times> nat" where
  "delayed_punch conn m = (case conn of None \<Rightarrow> m | Some s \<Rightarrow> ((fst m)\<lparr>m_sock := Some s\<rparr>, snd m + 1))"

definition punch_steps :: "nat \<Rightarrow> nat" where
  "punch_steps minor = (if minor \<ge> 13 then 50 else 10 * 1000 div 5)"

definition punch_delays :: "nat \<Rightarrow> nat list" where
  "punch_delays minor = map (\<lambda>i. i * 5) [0..<punch_steps minor]"

text \<open>
  \<open>conns\<close> are the sockets of the attempts in the order they finish (None: failed); \<open>resolve\<close> says
  whether the destination with its port resolves. The exception handler returns None.
\<close>

definition schedule_delayed_punching ::
  "(string \<Rightarrow> int \<Rightarrow> bool) \<Rightarrow> string \<Rightarrow> 's nat_mapping list \<Rightarrow> 's nat_mapping list \<Rightarrow> 's option list \<Rightarrow>
   's nat_mapping list option" where
  "schedule_delayed_punching resolve dest_addr send_mappings recv_mappings conns =
     (if send_mappings = [] \<or> recv_mappings = [] \<or> \<not> resolve dest_addr (m_remote (hd recv_mappings)) then None
      else let (m, n) = fold delayed_punch conns (hd send_mappings, 0) in Some (replicate n m))"

text \<open>The value that orders connections: \<open>sha\<close> is the digest of the text as a number.\<close>

definition quad_text :: "int list \<Rightarrow> string" where
  "quad_text ns = concat (map (\<lambda>n. int_str n @ '' '') (sort ns))"

definition punch_quad :: "('s \<Rightarrow> (string \<times> int) res) \<Rightarrow> int \<Rightarrow> 's nat_mapping \<Rightarrow> ('s \<times> string) res" where
  "punch_quad peername our_ip_num m =
     (case m_sock m of
        None \<Rightarrow> Err AttributeError
      | Some sock \<Rightarrow> rbind (peername sock) (\<lambda>(their_ip, their_port).
          rbind (ip_str_to_int their_ip) (\<lambda>their_ip_num.
            Ok (sock, quad_text [our_ip_num, their_ip_num, m_remote m, their_port]))))"

fun choose_loop ::
  "('s \<Rightarrow> (string \<times> int) res) \<Rightarrow> (string \<Rightarrow> nat) \<Rightarrow> int \<Rightarrow> 's nat_mapping list \<Rightarrow> nat \<Rightarrow> 's option \<Rightarrow> 's option" where
  "choose_loop peername sha our_ip_num [] h_val chosen = chosen"
| "choose_loop peername sha our_ip_num (m # ms) h_val chosen =
     (case punch_quad peername our_ip_num m of
        Inl _ \<Rightarrow> chosen
      | Inr (sock, qt) \<Rightarrow>
          if sha qt = 0 then chosen
          else if sha qt > h_val then choose_loop peername sha our_ip_num ms (sha qt) (Some sock)
          else choose_loop peername sha our_ip_num ms h_val chosen)"

text \<open>Any exception, also the one of a missing list, ends the loop with what was chosen so far.\<close>

definition choose_same_punch_sock ::
  "('s \<Rightarrow> (string \<times> int) res) \<Rightarrow> (string \<Rightarrow> nat) \<Rightarrow> string \<Rightarrow> 's nat_mapping list option \<Rightarrow> 's option" where
  "choose_same_punch_sock peername sha our_wan outs =
     (case (ip_str_to_int our_wan, outs) of
        (Inr n, Some ms) \<Rightarrow> choose_loop peername sha n ms 0 None
      | _ \<Rightarrow> None)"

definition close_unneeded_socks :: "'s option \<Rightarrow> 's nat_mapping list \<Rightarrow> 's list" where
  "close_unneeded_socks needed outs = filter (\<lambda>s. Some s \<noteq> needed) (strip_none (map m_sock outs))"

text \<open>Bytes \<open>in\<close> bytes is the substring test.\<close>

definition punch_close_msg :: "string \<Rightarrow> bool" where
  "punch_close_msg msg = list_ex (\<lambda>i. take (length msg) (drop i PUNCH_END) = msg) [0..<length PUNCH_END + 1]"

text \<open>
  The punching process up to the choice of its socket: the seconds slept and the socket. Only for a
  destination in the LAN the local ports of the peer replace its external ones.
\<close>

definition do_punching ::
  "(string \<Rightarrow> int \<Rightarrow> bool) \<Rightarrow> ('s \<Rightarrow> (string \<times> int) res) \<Rightarrow> (string \<Rightarrow> nat) \<Rightarrow> string \<Rightarrow> string \<Rightarrow>
   's nat_mapping list \<Rightarrow> 's nat_mapping list \<Rightarrow> rat \<Rightarrow> rat \<Rightarrow> int \<Rightarrow> 's option list \<Rightarrow> (rat \<times> 's option) res" where
  "do_punching resolve peername sha our_wan dest_addr send_mappings recv_mappings current_ntp ntp_meet mode conns =
     rbind (if ntp_meet \<noteq> 0 then wait_for_punch_time current_ntp ntp_meet else Err TypeError) (\<lambda>slept.
     let recv_mappings = (if mode = TCP_PUNCH_LAN then map (\<lambda>m. m\<lparr>m_remote := m_local m\<rparr>) recv_mappings else recv_mappings)
     in Ok (slept, choose_same_punch_sock peername sha our_wan
                     (schedule_delayed_punching resolve dest_addr send_mappings recv_mappings conns)))"

text \<open>
  The parent polls every 100 ms whether the process connected back, and whether it ended; None while
  it waits. The number is that of the polls.
\<close>

fun await_punch :: "nat \<Rightarrow> (bool \<times> bool) list \<Rightarrow> (nat \<times> bool) option" where
  "await_punch k [] = None"
| "await_punch k ((up, ended) # polls) =
     (if up then Some (k, True) else if ended then Some (k, False) else await_punch (k + 1) polls)"

section \<open>What crosses to the punching process\<close>

record ('s, 'i, 'c) puncher_dict =
  pd_af :: af
  pd_src_nat :: nat_desc
  pd_dest_nat :: nat_desc
  pd_dest_ip :: string
  pd_sys_clock :: 'c
  pd_start_time :: rat
  pd_same_machine :: bool
  pd_interface :: 'i
  pd_punch_mode :: int
  pd_state :: "int option"
  pd_side :: "int option"
  pd_recv_mappings :: "(int \<times> int \<times> int \<times> 's option) list"
  pd_send_mappings :: "(int \<times> int \<times> int \<times> 's option) list"

definition puncher_to_dict :: "'i \<Rightarrow> 'c \<Rightarrow> 's puncher \<Rightarrow> ('s, 'i, 'c) puncher_dict res" where
  "puncher_to_dict interface sys_clock p =
     rbind (rassert (case pu_state p of None \<Rightarrow> False | Some s \<Rightarrow> s \<noteq> 0)) (\<lambda>_.
       Ok \<lparr>pd_af = pu_af p, pd_src_nat = pu_src_nat p, pd_dest_nat = pu_dest_nat p, pd_dest_ip = pu_dest_ip p,
           pd_sys_clock = sys_clock, pd_start_time = pu_start_time p, pd_same_machine = pu_same_machine p,
           pd_interface = interface, pd_punch_mode = pu_punch_mode p, pd_state = pu_state p, pd_side = pu_side p,
           pd_recv_mappings = mappings_objs_to_dicts (pu_recv_mappings p),
           pd_send_mappings = mappings_objs_to_dicts (pu_send_mappings p)\<rparr>)"

text \<open>The readers of the interface and of the clock are given; either may raise.\<close>

definition puncher_from_dict ::
  "('i \<Rightarrow> 'n res) \<Rightarrow> ('c \<Rightarrow> 'k res) \<Rightarrow> ('s, 'i, 'c) puncher_dict \<Rightarrow> ('s puncher \<times> 'n \<times> 'k) res" where
  "puncher_from_dict interface_from_dict clock_from_dict d =
     rbind (interface_from_dict (pd_interface d)) (\<lambda>interface.
     rbind (clock_from_dict (pd_sys_clock d)) (\<lambda>sys_clock.
     rbind (TCPPuncher (pd_af d) (pd_src_nat d) (pd_dest_nat d) (pd_dest_ip d) (pd_same_machine d)) (\<lambda>p.
       Ok (p\<lparr>pu_state := pd_state d, pu_side := pd_side d, pu_punch_mode := pd_punch_mode d,
             pu_recv_mappings := mappings_dicts_to_objs (pd_recv_mappings d),
             pu_send_mappings := mappings_dicts_to_objs (pd_send_mappings d),
             pu_start_time := pd_start_time d\<rparr>, interface, sys_clock))))"

text \<open>
  The function that runs in the process, from the received dictionary to the chosen socket; every
  exception ends it with None. \<open>clock_time\<close> reads the restored clock.
\<close>

definition proc_do_punching ::
  "('i \<Rightarrow> 'n res) \<Rightarrow> ('c \<Rightarrow> 'k res) \<Rightarrow> ('k \<Rightarrow> rat) \<Rightarrow> (string \<Rightarrow> int \<Rightarrow> bool) \<Rightarrow> ('s \<Rightarrow> (string \<times> int) res) \<Rightarrow>
   (string \<Rightarrow> nat) \<Rightarrow> string \<Rightarrow> 's option list \<Rightarrow> ('s, 'i, 'c) puncher_dict \<Rightarrow> 's option" where
  "proc_do_punching interface_from_dict clock_from_dict clock_time resolve peername sha our_wan conns d =
     (case rbind (puncher_from_dict interface_from_dict clock_from_dict d) (\<lambda>(p, _, k).
             do_punching resolve peername sha our_wan (pu_dest_ip p) (pu_send_mappings p) (pu_recv_mappings p)
               (clock_time k) (pu_start_time p) (pu_punch_mode p) conns) of
        Inl _ \<Rightarrow> None
      | Inr (_, sock) \<Rightarrow> sock)"

text \<open>The modules directly below the package.\<close>

definition p2pd_modules :: "string list" where
  "p2pd_modules = [''p2pd.demo'', ''p2pd.do_imports'', ''p2pd.errors'', ''p2pd.install'', ''p2pd.net'', ''p2pd.nic'', ''p2pd.node'',
     ''p2pd.protocol'', ''p2pd.settings'', ''p2pd.traversal'', ''p2pd.utility'', ''p2pd.vendor'']"

section \<open>The states of a puncher\<close>

definition puncher_phase :: "'s puncher \<Rightarrow> nat option" where
  "puncher_phase p = map_of
     [((None, None), 0), ((Some INITIATED_PREDICTIONS, Some INITIATOR), 1),
      ((Some RECEIVED_PREDICTIONS, Some RECIPIENT), 1), ((Some UPDATED_PREDICTIONS, Some INITIATOR), 2)]
     (pu_state p, pu_side p)"

text \<open>Pairs of the number of accepted messages and the state of the puncher after them.\<close>

inductive puncher_reach :: "nat \<Rightarrow> 's puncher \<Rightarrow> bool" where
  start: "TCPPuncher af src_nat dest_nat ip same = Inr p \<Longrightarrow> puncher_reach 0 p"
| message: "\<lbrakk>puncher_reach n p; tcp_puncher_states recv (pu_state p) = Inr s;
             puncher_proto e stuns now recv t p = (r, p')\<rbrakk> \<Longrightarrow> puncher_reach (n + 1) p'"

inductive_cases puncher_reach_0: "puncher_reach 0 p"

lemma puncher_distinct [simp]:
  "INITIATED_PREDICTIONS \<noteq> RECEIVED_PREDICTIONS" "RECEIVED_PREDICTIONS \<noteq> INITIATED_PREDICTIONS"
  "UPDATED_PREDICTIONS \<noteq> INITIATED_PREDICTIONS" "UPDATED_PREDICTIONS \<noteq> RECEIVED_PREDICTIONS"
  "INITIATED_PREDICTIONS \<noteq> UPDATED_PREDICTIONS" "RECEIVED_PREDICTIONS \<noteq> UPDATED_PREDICTIONS"
  by (simp_all add: puncher_consts)

lemma states_eq:
  "tcp_puncher_states recv None =
     Inr (case recv of None \<Rightarrow> (INITIATED_PREDICTIONS, INITIATOR) | Some [] \<Rightarrow> (INITIATED_PREDICTIONS, INITIATOR)
          | Some (_ # _) \<Rightarrow> (RECEIVED_PREDICTIONS, RECIPIENT))"
  "tcp_puncher_states recv (Some INITIATED_PREDICTIONS) =
     (case recv of Some (_ # _) \<Rightarrow> Inr (UPDATED_PREDICTIONS, INITIATOR)
      | _ \<Rightarrow> Inl (PyException ''Invalid puncher state progression.''))"
  "tcp_puncher_states recv (Some RECEIVED_PREDICTIONS) = Inl (PyException ''Invalid puncher state progression.'')"
  "tcp_puncher_states recv (Some UPDATED_PREDICTIONS) = Inl (PyException ''Invalid puncher state progression.'')"
  by (auto simp: tcp_puncher_states_def progressions_def sides_def puncher_consts dict_get_def split: option.splits list.splits)

lemma proto_predict_frame:
  "proto_predict e stuns now recv t p = (r, p') \<Longrightarrow>
   pu_state p' = pu_state p \<and> pu_side p' = pu_side p \<and> pu_punch_mode p' = pu_punch_mode p"
  by (auto simp: proto_predict_def Let_def split: sum.splits prod.splits)

lemma proto_update_frame:
  "proto_update e recv p = (r, p') \<Longrightarrow>
   pu_state p' = pu_state p \<and> pu_side p' = pu_side p \<and> pu_punch_mode p' = pu_punch_mode p \<and>
   pu_send_mappings p' = pu_send_mappings p \<and> pu_start_time p' = pu_start_time p"
  by (auto simp: proto_update_def Let_def split: sum.splits)

lemma puncher_proto_frame:
  assumes "puncher_proto e stuns now recv t p = (r, p')"
  shows "pu_punch_mode p' = pu_punch_mode p \<and>
    (case tcp_puncher_states recv (pu_state p) of
       Inl err \<Rightarrow> r = Inl err \<and> p' = p
     | Inr (state, side) \<Rightarrow> pu_state p' = Some state \<and> pu_side p' = Some side)"
proof (cases "tcp_puncher_states recv (pu_state p)")
  case (Inr sd)
  obtain s d where sd: "sd = (s, d)" by fastforce
  let ?q = "p\<lparr>pu_state := Some s, pu_side := Some d\<rparr>"
  have "proto_predict e stuns now recv t ?q = (r, p') \<or>
      proto_update e (case recv of None \<Rightarrow> [] | Some ms \<Rightarrow> ms) ?q = (r, p')"
    using assms Inr sd by (simp add: puncher_proto_def Let_def split: if_splits)
  then show ?thesis
    using proto_predict_frame [of e stuns now recv t ?q r p'] proto_update_frame [of e _ ?q r p'] Inr sd by auto
qed (use assms in \<open>simp add: puncher_proto_def\<close>)

lemma TCPPuncher_fresh:
  "TCPPuncher af s d ip same = Inr p \<Longrightarrow> pu_state p = None \<and> pu_side p = None \<and>
   pu_punch_mode p \<in> {TCP_PUNCH_LAN, TCP_PUNCH_REMOTE, TCP_PUNCH_SELF}"
  by (auto simp: TCPPuncher_def get_punch_mode_def rbind_eq_Ok split: if_splits)

lemma puncher_phase_cases:
  assumes "puncher_phase p = Some n"
  obtains (fresh) "pu_state p = None" "n = 0" "pu_side p = None"
  | (initiated) "pu_state p = Some INITIATED_PREDICTIONS" "n = 1" "pu_side p = Some INITIATOR"
  | (received) "pu_state p = Some RECEIVED_PREDICTIONS" "n = 1" "pu_side p = Some RECIPIENT"
  | (updated) "pu_state p = Some UPDATED_PREDICTIONS" "n = 2" "pu_side p = Some INITIATOR"
  using assms by (auto simp: puncher_phase_def split: if_splits)

lemma puncher_reach_phase:
  "puncher_reach n p \<Longrightarrow> puncher_phase p = Some n \<and> pu_punch_mode p \<in> {TCP_PUNCH_LAN, TCP_PUNCH_REMOTE, TCP_PUNCH_SELF}"
proof (induction rule: puncher_reach.induct)
  case (start af s d ip same p)
  then show ?case using TCPPuncher_fresh [OF start] by (simp add: puncher_phase_def)
next
  case (message n p recv s e stuns now t r p')
  note f = puncher_proto_frame [OF message.hyps(3)]
  from message.IH have "puncher_phase p = Some n" by blast
  then show ?case
  proof (cases rule: puncher_phase_cases)
    case fresh
    then show ?thesis using f message.IH
      by (cases recv rule: option.exhaust [case_names N S]; cases "the recv") (auto simp: states_eq puncher_phase_def)
  next
    case initiated
    then show ?thesis using f message.IH message.hyps(2)
      by (cases recv rule: option.exhaust [case_names N S]; cases "the recv") (auto simp: states_eq puncher_phase_def)
  qed (use message.hyps(2) in \<open>simp_all add: states_eq\<close>)
qed

section \<open>What the messages carry\<close>

lemma preload_nonempty: "preload_mappings stuns 0 = Inr pre \<Longrightarrow> pre = []"
  by (simp add: preload_mappings_def strip_none_def)

lemma nat_prediction_length:
  assumes "nat_prediction e stuns mode src dest recv n = Inr (send, pre, src')"
  shows "send \<noteq> [] \<and> (case recv of None \<Rightarrow> True | Some ms \<Rightarrow> length send = length ms)"
proof -
  obtain r s d ms where i: "init_predictions e mode src dest recv n = Inr (r, s, d, ms)"
    "preload_mappings stuns (length ms) = Inr pre" "pre \<noteq> []" "predict_loop e mode r s pre ms = Inr send"
    using assms by (auto simp: nat_prediction_def rbind_eq_Ok)
  have l: "length send = length ms" using rmap_list_Ok_length i(4) by (fastforce simp: predict_loop_def)
  have "ms \<noteq> []" using i(2,3) preload_nonempty by fastforce
  moreover have "ms = ms'" if "recv = Some ms'" for ms'
    using i(1) that by (auto simp: init_predictions_def Let_def rbind_eq_Ok split: if_splits prod.splits)
  ultimately show ?thesis using l by (auto split: option.splits)
qed

lemma reply_port_step_length:
  "reply_port_step e mode r src pre recv i send = Inr send' \<Longrightarrow> length send' = length send"
  by (auto simp: reply_port_step_def rbind_eq_Ok split: if_splits)

lemma reply_ports_fold_length:
  "rfold (reply_port_step e mode r src pre recv) is send = Inr send' \<Longrightarrow> length send' = length send"
  by (induction "is" arbitrary: send) (auto simp: rbind_eq_Ok dest!: reply_port_step_length)

lemma update_for_reply_ports_length:
  "update_for_reply_ports e mode src dest pre send recv = Inr send' \<Longrightarrow> length send' = length send"
  by (auto simp: update_for_reply_ports_def Let_def rbind_eq_Ok reply_ports_fold_length split: if_splits prod.splits)

lemma fresh_proto:
  assumes "puncher_proto e stuns now recv t p = (Inr (PunchSend ms meet), p')" "pu_state p = None"
  shows "ms \<noteq> [] \<and> pu_send_mappings p' = ms \<and> pu_start_time p' = meet \<and>
    meet = (case t of None \<Rightarrow> now + 6 | Some t \<Rightarrow> if t = 0 then now + 6 else t) \<and>
    (case recv of None \<Rightarrow> pu_state p' = Some INITIATED_PREDICTIONS \<and> pu_side p' = Some INITIATOR
     | Some rs \<Rightarrow> length ms = length rs \<and>
         (rs \<noteq> [] \<longrightarrow> pu_recv_mappings p' = rs \<and> pu_state p' = Some RECEIVED_PREDICTIONS \<and> pu_side p' = Some RECIPIENT))"
proof -
  obtain s d where sd: "tcp_puncher_states recv (pu_state p) = Inr (s, d)" "s \<in> {INITIATED_PREDICTIONS, RECEIVED_PREDICTIONS}"
    using assms(2) that by (cases recv rule: option.exhaust [case_names N S]; cases "the recv") (auto simp: states_eq)
  let ?q = "p\<lparr>pu_state := Some s, pu_side := Some d\<rparr>"
  have pp: "proto_predict e stuns now recv t ?q = (Inr (PunchSend ms meet), p')"
    using assms(1) sd by (simp add: puncher_proto_def)
  obtain send pre nat' where n: "nat_prediction e stuns (pu_punch_mode ?q) (pu_src_nat ?q) (pu_dest_nat ?q) recv 2 = Inr (send, pre, nat')"
    using pp by (auto simp: proto_predict_def split: sum.splits)
  show ?thesis
    using pp n nat_prediction_length [OF n] sd assms(2)
    by (auto simp: proto_predict_def Let_def get_ntp_meet_time_def NTP_MEET_STEP_def states_eq puncher_consts
        split: option.splits list.splits)
qed

lemma proto_update_call:
  assumes "pu_state p = Some INITIATED_PREDICTIONS" "rs \<noteq> []"
  shows "puncher_proto e stuns now (Some rs) t p =
    proto_update e rs (p\<lparr>pu_state := Some UPDATED_PREDICTIONS, pu_side := Some INITIATOR\<rparr>)"
  using assms by (cases rs) (simp_all add: puncher_proto_def states_eq)

lemma reply_ports_ignored_fold:
  "list_all (\<lambda>i. m_reply (recv ! i) = 0) is \<Longrightarrow> rfold (reply_port_step e mode r src pre recv) is send = Inr send"
  by (induction "is" arbitrary: send) (auto simp: reply_port_step_def)

text \<open>The empty message and any part of the end marker close the pipes of a punched connection.\<close>

lemma punch_close_parts: "punch_close_msg [] \<and> punch_close_msg ''q'' \<and> \<not> punch_close_msg ''x''"
  by (simp add: punch_close_msg_def PUNCH_END_def)

section \<open>Choosing one connection\<close>

text \<open>The quads of the connections, when all of them can be read and have a positive digest.\<close>

definition punch_hash :: "('s \<Rightarrow> (string \<times> int) res) \<Rightarrow> (string \<Rightarrow> nat) \<Rightarrow> int \<Rightarrow> 's nat_mapping \<Rightarrow> nat option" where
  "punch_hash peername sha n m =
     (case punch_quad peername n m of Inl _ \<Rightarrow> None | Inr (_, qt) \<Rightarrow> if sha qt = 0 then None else Some (sha qt))"

text \<open>Which position the loop ends with depends on the digests alone.\<close>

fun pick_top :: "nat list \<Rightarrow> nat \<Rightarrow> nat option" where
  "pick_top [] h = None"
| "pick_top (x # xs) h =
     (if x > h then Some (case pick_top xs x of None \<Rightarrow> 0 | Some i \<Rightarrow> Suc i) else map_option Suc (pick_top xs h))"

lemma pick_top_None: "pick_top hs h = None \<Longrightarrow> x \<in> set hs \<Longrightarrow> x \<le> h"
  by (induction hs arbitrary: h) (auto split: if_splits)

lemma pick_top_Some: "pick_top hs h = Some i \<Longrightarrow> i < length hs \<and> h < hs ! i \<and> (\<forall>x \<in> set hs. x \<le> hs ! i)"
proof (induction hs arbitrary: h i)
  case (Cons y hs)
  show ?case
  proof (cases "pick_top hs (if y > h then y else h)")
    case None
    then show ?thesis using Cons.prems pick_top_None [OF None] by (auto split: if_splits)
  next
    case (Some j)
    then show ?thesis using Cons.prems Cons.IH [OF Some] by (auto split: if_splits)
  qed
qed simp

lemma punch_quad_sock: "punch_quad peername n m = Inr (sock, qt) \<Longrightarrow> m_sock m = Some sock"
  by (auto simp: punch_quad_def rbind_eq_Ok split: option.splits)

lemma choose_loop_pick:
  assumes "list_all (\<lambda>m. punch_hash peername sha n m \<noteq> None) ms"
  shows "choose_loop peername sha n ms h c =
    (case pick_top (map (\<lambda>m. the (punch_hash peername sha n m)) ms) h of None \<Rightarrow> c | Some i \<Rightarrow> m_sock (ms ! i))"
  using assms
proof (induction ms arbitrary: h c)
  case (Cons m ms)
  then obtain h0 where "punch_hash peername sha n m = Some h0" by auto
  then obtain sock qt where q: "punch_quad peername n m = Inr (sock, qt)" "sha qt \<noteq> 0"
    by (auto simp: punch_hash_def split: sum.splits if_splits)
  from punch_quad_sock [OF q(1)] q show ?case
    using Cons by (auto simp: punch_hash_def split: option.splits)
qed simp

section \<open>The two ends of connections\<close>

text \<open>
  A connection as the pair of the mappings of its ends: each socket is connected to the address of the other end, at the
  port that the mapping of the other end names.
\<close>

definition two_ends ::
  "('s \<Rightarrow> (string \<times> int) res) \<Rightarrow> ('s \<Rightarrow> (string \<times> int) res) \<Rightarrow> int \<Rightarrow> int \<Rightarrow> 's nat_mapping \<times> 's nat_mapping \<Rightarrow> bool" where
  "two_ends peername peername' n n' c =
     (\<exists>s t ip' ip. m_sock (fst c) = Some s \<and> m_sock (snd c) = Some t \<and>
        peername s = Inr (ip', m_remote (snd c)) \<and> ip_str_to_int ip' = Inr n' \<and>
        peername' t = Inr (ip, m_remote (fst c)) \<and> ip_str_to_int ip = Inr n)"

definition conn_text :: "int \<Rightarrow> int \<Rightarrow> 's nat_mapping \<times> 's nat_mapping \<Rightarrow> string" where
  "conn_text n n' c = quad_text [n, n', m_remote (fst c), m_remote (snd c)]"

lemma quad_text_swap: "quad_text [a, b, c, d] = quad_text [b, a, d, c]"
proof -
  have "sort [a, b, c, d] = sort [b, a, d, c]" unfolding sort_key_simps by (metis insort_left_comm)
  then show ?thesis by (simp only: quad_text_def)
qed

lemma two_ends_quads:
  assumes "two_ends peername peername' n n' c"
  shows "\<exists>s. punch_quad peername n (fst c) = Inr (s, conn_text n n' c)"
    and "\<exists>t. punch_quad peername' n' (snd c) = Inr (t, conn_text n n' c)"
proof -
  have "quad_text [n', n, m_remote (snd c), m_remote (fst c)] = conn_text n n' c"
    unfolding conn_text_def by (rule quad_text_swap)
  then show "\<exists>s. punch_quad peername n (fst c) = Inr (s, conn_text n n' c)"
    "\<exists>t. punch_quad peername' n' (snd c) = Inr (t, conn_text n n' c)"
    using assms by (auto simp: two_ends_def punch_quad_def conn_text_def)
qed

text \<open>One end keeps the socket of a connection with the largest digest.\<close>

lemma choose_top:
  assumes "ip_str_to_int wan = Inr n" and "set ms = side ` set conns" and "conns \<noteq> []"
    and "\<And>c. c \<in> set conns \<Longrightarrow> punch_hash peername sha n (side c) = Some (dig c)" and "\<forall>c \<in> set conns. 0 < dig c"
  shows "\<exists>c \<in> set conns. choose_same_punch_sock peername sha wan (Some ms) = m_sock (side c) \<and> (\<forall>d \<in> set conns. dig d \<le> dig c)"
proof -
  let ?hs = "map (\<lambda>m. the (punch_hash peername sha n m)) ms"
  have all: "list_all (\<lambda>m. punch_hash peername sha n m \<noteq> None) ms" using assms(2,4) by (auto simp: list_all_iff)
  have dig: "dig c \<in> set ?hs" if "c \<in> set conns" for c
    using that assms(2,4) by (auto intro!: rev_image_eqI [of "side c"])
  obtain c0 where c0: "c0 \<in> set conns" using assms(3) by (cases conns) auto
  obtain i where i: "pick_top ?hs 0 = Some i"
    using pick_top_None [OF _ dig [OF c0], of 0] assms(5) c0 by (cases "pick_top ?hs 0") auto
  note top = pick_top_Some [OF i]
  then have "ms ! i \<in> side ` set conns" using assms(2) by (metis length_map nth_mem)
  then obtain c where c: "c \<in> set conns" "ms ! i = side c" by blast
  have "dig d \<le> dig c" if "d \<in> set conns" for d
    using top dig [OF that] assms(4) [OF c(1)] c(2) by auto
  moreover have "choose_same_punch_sock peername sha wan (Some ms) = m_sock (side c)"
    using choose_loop_pick [OF all, of 0 None] i assms(1) c(2) by (simp add: choose_same_punch_sock_def)
  ultimately show ?thesis using c(1) by blast
qed

section \<open>Properties\<close>

text \<open>C36: a puncher is always in one of the four phases of its protocol, with the side that belongs to it and
  one of the three modes, and the phase counts the messages it has accepted: after two, or after one as
  the recipient, every further message raises and changes nothing, so the exchange cannot loop.\<close>

theorem puncher_phases:
  assumes "puncher_reach n p"
  shows "puncher_phase p = Some n \<and> n \<le> 2 \<and> pu_punch_mode p \<in> {1, 2, 3} \<and>
    (n = 2 \<or> pu_side p = Some RECIPIENT \<longleftrightarrow>
       (\<forall>e stuns now recv t. puncher_proto e stuns now recv t p = (Inl (PyException ''Invalid puncher state progression.''), p)))"
proof -
  note ph = puncher_reach_phase [OF assms]
  from ph have "puncher_phase p = Some n" by blast
  then show ?thesis
  proof (cases rule: puncher_phase_cases)
    case fresh
    obtain r p' where r: "puncher_proto id (\<lambda>_. Inl ValueError) 0 None None p = (r, p')" by fastforce
    then have "p' \<noteq> p" using puncher_proto_frame [OF r] fresh by (auto simp: states_eq)
    then show ?thesis using ph fresh r by (fastforce simp: punch_consts)
  next
    case initiated
    obtain r p' where r: "puncher_proto id (\<lambda>_. Inl ValueError) 0 (Some [NATMapping 1 1 1 None]) None p = (r, p')" by fastforce
    then have "p' \<noteq> p" using puncher_proto_frame [OF r] initiated by (auto simp: states_eq)
    then show ?thesis using ph initiated r by (fastforce simp: punch_consts puncher_consts)
  qed (use ph in \<open>auto simp: puncher_proto_def states_eq punch_consts\<close>)
qed

definition ex_punch_nat :: "int \<Rightarrow> int \<Rightarrow> nat_desc" where
  "ex_punch_nat t d = nat_info (Some t) (Some (delta_info d 0)) (Some (2000, 65535))"

lemma ex_puncher: "\<exists>p. TCPPuncher IP4 (ex_punch_nat a b) (ex_punch_nat c d) ''1.2.3.4'' False = Inr (p :: nat puncher) \<and>
   pu_src_nat p = ex_punch_nat a b \<and> pu_dest_nat p = ex_punch_nat c d \<and> pu_punch_mode p = TCP_PUNCH_REMOTE"
  by (simp add: TCPPuncher_def get_punch_mode_def eval_simps ipr_eval af_to_cidr_def)

theorem puncher_phases_witness:
  "\<exists>p :: nat puncher. TCPPuncher IP4 (ex_punch_nat FULL_CONE EQUAL_DELTA) (ex_punch_nat FULL_CONE EQUAL_DELTA) ''1.2.3.4'' False = Inr p \<and>
     puncher_phase p = Some 0 \<and> pu_punch_mode p \<in> {1, 2, 3}"
proof -
  obtain p :: "nat puncher" where p: "TCPPuncher IP4 (ex_punch_nat FULL_CONE EQUAL_DELTA) (ex_punch_nat FULL_CONE EQUAL_DELTA) ''1.2.3.4'' False = Inr p"
    using ex_puncher by blast
  show ?thesis using puncher_phases [OF puncher_reach.start [OF p]] p by blast
qed

text \<open>C35: two punchers that exchange their messages end with the same meeting time, which the initiator set six
  seconds ahead; the recipient aims at exactly the mappings the initiator sends from, both lists have the
  same length, and the initiator has nothing left to send. But the update leaves the initiator's own
  mappings as they were.\<close>

theorem punch_exchange:
  assumes "pu_state A = None" and "pu_state B = None" and "0 < now"
    and "puncher_proto e1 st1 now None None A = (Inr (PunchSend ms t), A1)"
    and "puncher_proto e2 st2 now2 (Some ms) (Some t) B = (Inr (PunchSend ms' t'), B1)"
    and "puncher_proto e3 st3 now3 (Some ms') (Some t') A1 = (Inr r, A2)"
  shows "t = now + 6 \<and> t' = t \<and> pu_start_time A2 = t \<and> pu_start_time B1 = t \<and> r = PunchDone \<and>
    pu_side A2 = Some INITIATOR \<and> pu_side B1 = Some RECIPIENT \<and>
    pu_send_mappings A2 = ms \<and> pu_recv_mappings B1 = ms \<and> pu_send_mappings B1 = ms' \<and>
    length ms' = length ms \<and> length (pu_recv_mappings A2) = length ms"
proof -
  note a = fresh_proto [OF assms(4,1)] and b = fresh_proto [OF assms(5,2)]
  have t: "t = now + 6" "t \<noteq> 0" using a assms(3) by auto
  have ms: "ms \<noteq> []" "ms' \<noteq> []" "length ms' = length ms" using a b by auto
  let ?q = "A1\<lparr>pu_state := Some UPDATED_PREDICTIONS, pu_side := Some INITIATOR\<rparr>"
  have u: "proto_update e3 ms' ?q = (Inr r, A2)"
    using assms(6) proto_update_call [of A1 ms' e3 st3 now3 "Some t'"] a ms by simp
  have "r = PunchDone \<and> length (pu_recv_mappings A2) = length ms'"
    using u by (auto simp: proto_update_def Let_def dest!: update_for_reply_ports_length split: sum.splits)
  then show ?thesis using proto_update_frame [OF u] a b t ms by auto
qed

definition ex_fresh :: "nat puncher" where
  "ex_fresh = \<lparr>pu_af = IP4, pu_src_nat = ex_punch_nat FULL_CONE EQUAL_DELTA, pu_dest_nat = ex_punch_nat FULL_CONE EQUAL_DELTA,
     pu_dest_ip = ''1.2.3.4'', pu_same_machine = False, pu_punch_mode = TCP_PUNCH_REMOTE, pu_side = None, pu_state = None,
     pu_start_time = 0, pu_recv_mappings = [], pu_send_mappings = [], pu_preloaded = []\<rparr>"

definition ex_stun :: "nat \<Rightarrow> nat nat_mapping option res" where
  "ex_stun i = Inr (Some (NATMapping 5000 0 30000 None))"

lemmas ex_punch_simps = ex_stun_def nat_prediction_def init_predictions_def nats_can_predict_def nats_intersect_def
  intersect_range_def range_intersects_def ex_punch_nat_def nat_info_def delta_info_def nat_consts punch_consts f_is_open_def f_is_hard_def EASY_NATS_def
  NATMapping_def from_range_def randrange_def preload_mappings_def predict_loop_def get_single_mapping_def in_range_def
  MAX_PORT_def numeral_2_eq_2 upt_rec enumerate_eq_zip

definition ex_sent :: "nat nat_mapping list" where
  "ex_sent = [NATMapping 2001 0 2001 None, NATMapping 2000 0 2000 None]"

lemma ex_predict:
  "nat_prediction id ex_stun TCP_PUNCH_REMOTE (ex_punch_nat FULL_CONE EQUAL_DELTA) (ex_punch_nat FULL_CONE EQUAL_DELTA) None 2 =
     Inr (ex_sent, [NATMapping 5000 0 30000 None, NATMapping 5000 0 30000 None], ex_punch_nat FULL_CONE EQUAL_DELTA)"
  "nat_prediction id ex_stun TCP_PUNCH_REMOTE (ex_punch_nat FULL_CONE EQUAL_DELTA) (ex_punch_nat FULL_CONE EQUAL_DELTA) (Some ex_sent) 2 =
     Inr (ex_sent, [NATMapping 5000 0 30000 None, NATMapping 5000 0 30000 None], ex_punch_nat FULL_CONE EQUAL_DELTA)"
  by (simp_all add: ex_punch_simps ex_sent_def Let_def)

theorem punch_exchange_witness:
  "\<exists>A1 B1 A2 ms ms'. puncher_proto id ex_stun 10 None None ex_fresh = (Inr (PunchSend ms 16), A1) \<and>
     puncher_proto id ex_stun 11 (Some ms) (Some 16) ex_fresh = (Inr (PunchSend ms' 16), B1) \<and>
     puncher_proto id ex_stun 12 (Some ms') (Some 16) A1 = (Inr PunchDone, A2) \<and>
     pu_start_time A2 = 16 \<and> pu_recv_mappings B1 = pu_send_mappings A2"
proof -
  obtain A1 where a: "puncher_proto id ex_stun 10 None None ex_fresh = (Inr (PunchSend ex_sent 16), A1)"
    "pu_state A1 = Some INITIATED_PREDICTIONS" "pu_src_nat A1 = ex_punch_nat FULL_CONE EQUAL_DELTA"
    "pu_dest_nat A1 = ex_punch_nat FULL_CONE EQUAL_DELTA" "pu_send_mappings A1 = ex_sent"
    by (simp add: puncher_proto_def ex_fresh_def states_eq proto_predict_def ex_predict Let_def get_ntp_meet_time_def NTP_MEET_STEP_def)
  obtain B1 where b: "puncher_proto id ex_stun 11 (Some ex_sent) (Some 16) ex_fresh = (Inr (PunchSend ex_sent 16), B1)"
    by (simp add: puncher_proto_def ex_fresh_def states_eq proto_predict_def ex_predict Let_def ex_sent_def [symmetric])
       (simp add: ex_sent_def states_eq proto_predict_def ex_predict(2) [unfolded ex_sent_def] Let_def)
  have "puncher_proto id ex_stun 12 (Some ex_sent) (Some 16) A1 =
      proto_update id ex_sent (A1\<lparr>pu_state := Some UPDATED_PREDICTIONS, pu_side := Some INITIATOR\<rparr>)"
    using a(2) by (rule proto_update_call) (simp add: ex_sent_def)
  also obtain A2 where "\<dots> = (Inr PunchDone, A2)"
    using a by (simp add: proto_update_def update_for_reply_ports_def Let_def ex_punch_simps ex_sent_def reply_port_step_def)
  finally have u: "puncher_proto id ex_stun 12 (Some ex_sent) (Some 16) A1 = (Inr PunchDone, A2)" .
  show ?thesis
    using punch_exchange [OF _ _ _ a(1) b u] a(1) b u by (auto simp: ex_fresh_def)
qed

text \<open>The initiator's update ignores the reply ports the peer asks for: unless one of the mappings the
  initiator itself sent carries a reply port, the received list and everything else stay as received.\<close>

theorem update_ignores_reply_ports:
  assumes "list_all (\<lambda>m. m_reply m = 0) (pu_send_mappings p)"
    and "nats_intersect (pu_src_nat p) (pu_dest_nat p) (int (min (length recv) (length (pu_send_mappings p)))) = (Inr rg, src)"
  shows "proto_update e recv p = (Inr PunchDone, p\<lparr>pu_recv_mappings := recv, pu_src_nat := src\<rparr>)"
proof -
  have "list_all (\<lambda>i. m_reply (pu_send_mappings p ! i) = 0) [0..<min (length recv) (length (pu_send_mappings p))]"
    using assms(1) by (auto simp: list_all_length)
  then have "rfold (reply_port_step e (pu_punch_mode p) rg src (pu_preloaded p) (pu_send_mappings p))
      [0..<min (length recv) (length (pu_send_mappings p))] recv = Inr recv"
    by (rule reply_ports_ignored_fold)
  then show ?thesis using assms(2) by (simp add: proto_update_def Let_def update_for_reply_ports_def)
qed

theorem update_ignores_reply_ports_witness:
  "\<exists>p'. proto_update id [NATMapping 7000 3478 7001 None] (ex_fresh\<lparr>pu_send_mappings := ex_sent\<rparr>) = (Inr PunchDone, p') \<and>
     pu_recv_mappings p' = [NATMapping 7000 3478 7001 None] \<and> pu_send_mappings p' = ex_sent"
proof -
  let ?p = "ex_fresh\<lparr>pu_send_mappings := ex_sent\<rparr>" and ?r = "[NATMapping 7000 3478 7001 None]"
  have "list_all (\<lambda>m. m_reply m = 0) (pu_send_mappings ?p)" by (simp add: ex_sent_def NATMapping_def)
  moreover have "nats_intersect (pu_src_nat ?p) (pu_dest_nat ?p) (int (min (length ?r) (length (pu_send_mappings ?p)))) =
      (Inr (2000, 65535), ex_punch_nat FULL_CONE EQUAL_DELTA)"
    by (simp add: ex_fresh_def ex_punch_simps Let_def)
  ultimately show ?thesis using update_ignores_reply_ports [of ?p ?r] by fastforce
qed

text \<open>Sockets of the examples are numbers that stand for their remote port.\<close>

definition ex_peer :: "nat \<Rightarrow> (string \<times> int) res" where
  "ex_peer s = Inr (''5.6.7.8'', int s)"

definition ex_conn :: "nat \<Rightarrow> nat nat_mapping" where
  "ex_conn s = NATMapping 2000 0 2000 (Some s)"

lemma ex_conn_hash:
  "\<exists>n. ip_str_to_int ''1.2.3.4'' = Inr n \<and>
    (\<forall>s. punch_hash ex_peer (\<lambda>qt. Suc (length qt)) n (ex_conn s) \<noteq> None)"
proof -
  have "ip_str_to_int ''1.2.3.4'' = Inr 16909060" and "ip_str_to_int ''5.6.7.8'' = Inr 84281096"
    by (simp_all add: ip_str_to_int_def eval_simps be_enc_numeral unpack_be_def be_dec_def)
  then show ?thesis
    by (auto simp: punch_hash_def punch_quad_def ex_conn_def ex_peer_def NATMapping_def)
qed

text \<open>C38: the two ends of the punched connections keep the same one: when each end has a socket for every connection,
  each socket names the other end with the port that end's mapping says, and the digests of different connections differ,
  then whatever the order in which the two ends list them, both keep their sockets of the same connection, the one with
  the largest digest of the sorted addresses and ports. (What the attempts of one punch hand over is never more than one
  connection, see \<open>punch_keeps_last_socket\<close>.)\<close>

theorem punch_choice_agrees:
  assumes "ip_str_to_int wan = Inr n" and "ip_str_to_int wan' = Inr n'" and "conns \<noteq> []"
    and "\<forall>c \<in> set conns. two_ends peername peername' n n' c" and "\<forall>c \<in> set conns. 0 < sha (conn_text n n' c)"
    and "inj_on (\<lambda>c. sha (conn_text n n' c)) (set conns)" and "set ms = fst ` set conns" and "set ms' = snd ` set conns"
  shows "\<exists>c \<in> set conns. choose_same_punch_sock peername sha wan (Some ms) = m_sock (fst c) \<and>
    choose_same_punch_sock peername' sha wan' (Some ms') = m_sock (snd c) \<and>
    (\<forall>d \<in> set conns. sha (conn_text n n' d) \<le> sha (conn_text n n' c))"
proof -
  have here: "punch_hash peername sha n (fst c) = Some (sha (conn_text n n' c))" if "c \<in> set conns" for c
    using two_ends_quads(1) assms(4,5) that by (fastforce simp: punch_hash_def)
  have there: "punch_hash peername' sha n' (snd c) = Some (sha (conn_text n n' c))" if "c \<in> set conns" for c
    using two_ends_quads(2) assms(4,5) that by (fastforce simp: punch_hash_def)
  obtain c where c: "c \<in> set conns" "choose_same_punch_sock peername sha wan (Some ms) = m_sock (fst c)"
    "\<forall>d \<in> set conns. sha (conn_text n n' d) \<le> sha (conn_text n n' c)"
    using choose_top [OF assms(1,7,3) here] assms(5) by blast
  obtain c' where c': "c' \<in> set conns" "choose_same_punch_sock peername' sha wan' (Some ms') = m_sock (snd c')"
    "\<forall>d \<in> set conns. sha (conn_text n n' d) \<le> sha (conn_text n n' c')"
    using choose_top [OF assms(2,8,3) there] assms(5) by blast
  have "c = c'" using assms(6) c(1,3) c'(1,3) by (meson inj_onD le_antisym)
  then show ?thesis using c c' by auto
qed

text \<open>Two connections that the ends list in different orders.\<close>

definition ex_end :: "nat \<Rightarrow> int \<Rightarrow> nat nat_mapping" where
  "ex_end s port = NATMapping port 0 port (Some s)"

definition ex_here :: "nat \<Rightarrow> (string \<times> int) res" where
  "ex_here s = Inr (''5.6.7.8'', if s = 1 then 7 else 8)"

definition ex_there :: "nat \<Rightarrow> (string \<times> int) res" where
  "ex_there s = Inr (''1.2.3.4'', if s = 3 then 5 else 6)"

definition ex_digest :: "string \<Rightarrow> nat" where
  "ex_digest qt = (if take 1 qt = ''5'' then 1 else 2)"

theorem punch_choice_agrees_witness:
  "choose_same_punch_sock ex_here ex_digest ''1.2.3.4'' (Some [ex_end 1 5, ex_end 2 6]) = Some 2 \<and>
   choose_same_punch_sock ex_there ex_digest ''5.6.7.8'' (Some [ex_end 4 8, ex_end 3 7]) = Some 4"
proof -
  have n: "ip_str_to_int ''1.2.3.4'' = Inr 16909060" "ip_str_to_int ''5.6.7.8'' = Inr 84281096"
    by (simp_all add: ip_str_to_int_def eval_simps be_enc_numeral unpack_be_def be_dec_def)
  let ?conns = "[(ex_end 1 5, ex_end 3 7), (ex_end 2 6, ex_end 4 8)]"
  have e: "two_ends ex_here ex_there 16909060 84281096 (ex_end 1 5, ex_end 3 7)"
    "two_ends ex_here ex_there 16909060 84281096 (ex_end 2 6, ex_end 4 8)"
    by (simp_all add: two_ends_def ex_end_def ex_here_def ex_there_def NATMapping_def n)
  have one: "int_str 5 = ''5''" "int_str 6 = ''6''" by (simp_all add: int_str_def num_str_small digit_char_def char_of_eq_iff take_bit_eq_mod)
  have dig: "ex_digest (concat (map (\<lambda>n. int_str n @ '' '') (p # ps))) = (if p = 5 then 1 else 2)" if "p = 5 \<or> p = 6" for p ps
  proof -
    obtain r where r: "concat (map (\<lambda>n. int_str n @ '' '') (p # ps)) = int_str p @ r" by auto
    show ?thesis unfolding r using that by (elim disjE) (simp_all only: one ex_digest_def, simp_all)
  qed
  have sorts: "sort [16909060, 84281096, 5, 7 :: int] = [5, 7, 16909060, 84281096]"
    "sort [16909060, 84281096, 6, 8 :: int] = [6, 8, 16909060, 84281096]" by simp_all
  have d: "ex_digest (conn_text 16909060 84281096 (ex_end 1 5, ex_end 3 7)) = 1"
    "ex_digest (conn_text 16909060 84281096 (ex_end 2 6, ex_end 4 8)) = 2"
    unfolding conn_text_def quad_text_def ex_end_def NATMapping_def fst_conv snd_conv nat_mapping.simps sorts
    by (subst dig; simp)+
  have "\<exists>c \<in> set ?conns. choose_same_punch_sock ex_here ex_digest ''1.2.3.4'' (Some [ex_end 1 5, ex_end 2 6]) = m_sock (fst c) \<and>
    choose_same_punch_sock ex_there ex_digest ''5.6.7.8'' (Some [ex_end 4 8, ex_end 3 7]) = m_sock (snd c) \<and>
    (\<forall>d \<in> set ?conns. ex_digest (conn_text 16909060 84281096 d) \<le> ex_digest (conn_text 16909060 84281096 c))"
  proof (rule punch_choice_agrees [OF n])
    show "\<forall>c \<in> set ?conns. two_ends ex_here ex_there 16909060 84281096 c" using e by simp
    show "\<forall>c \<in> set ?conns. 0 < ex_digest (conn_text 16909060 84281096 c)" using d by simp
    show "inj_on (\<lambda>c. ex_digest (conn_text 16909060 84281096 c)) (set ?conns)" using d by (auto simp: inj_on_def)
  qed (simp_all add: insert_commute)
  then show ?thesis using d by (auto simp: ex_end_def NATMapping_def)
qed

text \<open>The attempts of one punch share a mapping object, so whatever connections succeed, the list given to
  the choice repeats the one that connected last: this socket is chosen, its digest aside, and no other
  socket is closed, although the two ends may have connected in different orders.\<close>

theorem punch_keeps_last_socket:
  assumes "strip_none conns \<noteq> []" and "send \<noteq> []" and "recv \<noteq> []" and "resolve dest (m_remote (hd recv))"
    and "ip_str_to_int wan = Inr n"
    and "punch_hash peername sha n ((hd send)\<lparr>m_sock := Some (last (strip_none conns))\<rparr>) \<noteq> None"
  shows "\<exists>outs. schedule_delayed_punching resolve dest send recv conns = Some outs \<and> length outs = length (strip_none conns) \<and>
    choose_same_punch_sock peername sha wan (Some outs) = Some (last (strip_none conns)) \<and>
    close_unneeded_socks (Some (last (strip_none conns))) outs = []"
proof -
  have f: "fold delayed_punch cs (m, k) =
      (if strip_none cs = [] then m else m\<lparr>m_sock := Some (last (strip_none cs))\<rparr>, k + length (strip_none cs))"
    for cs and m :: "'a nat_mapping" and k
    by (induction cs arbitrary: m k) (auto simp: delayed_punch_def strip_none_simps split: option.splits)
  define m where "m = (hd send)\<lparr>m_sock := Some (last (strip_none conns))\<rparr>"
  let ?outs = "replicate (length (strip_none conns)) m"
  have s: "schedule_delayed_punching resolve dest send recv conns = Some ?outs"
    using assms(1-4) by (simp add: schedule_delayed_punching_def f m_def)
  have h: "list_all (\<lambda>m. punch_hash peername sha n m \<noteq> None) ?outs" using assms(6) by (simp add: m_def list_all_iff)
  have ne: "?outs \<noteq> []" using assms(1) by simp
  obtain i where i: "pick_top (map (\<lambda>m. the (punch_hash peername sha n m)) ?outs) 0 = Some i"
    using assms(6) ne
    by (cases "strip_none conns") (auto simp: m_def punch_hash_def split: sum.splits if_splits)
  then have "choose_same_punch_sock peername sha wan (Some ?outs) = m_sock (?outs ! i)"
    using choose_loop_pick [OF h, of 0 None] assms(5) by (simp add: choose_same_punch_sock_def)
  moreover have "i < length (strip_none conns)" using pick_top_Some [OF i] by simp
  ultimately have "choose_same_punch_sock peername sha wan (Some ?outs) = Some (last (strip_none conns))" by (simp add: m_def)
  moreover have "close_unneeded_socks (Some (last (strip_none conns))) ?outs = []"
    by (auto simp: close_unneeded_socks_def m_def filter_empty_conv set_strip_none)
  ultimately show ?thesis using s by auto
qed

theorem punch_keeps_last_socket_witness:
  "\<exists>outs. schedule_delayed_punching (\<lambda>_ _. True) ''5.6.7.8'' [ex_conn 0] [ex_conn 0] [Some 9, None, Some 7] = Some outs \<and>
     length outs = 2 \<and> choose_same_punch_sock ex_peer (\<lambda>qt. Suc (length qt)) ''1.2.3.4'' (Some outs) = Some 7"
proof -
  obtain n where n: "ip_str_to_int ''1.2.3.4'' = Inr n"
    "\<forall>s. punch_hash ex_peer (\<lambda>qt. Suc (length qt)) n (ex_conn s) \<noteq> None"
    using ex_conn_hash by blast
  have "(ex_conn 0)\<lparr>m_sock := Some 7\<rparr> = ex_conn 7" by (simp add: ex_conn_def NATMapping_def)
  then show ?thesis
    using punch_keeps_last_socket [of "[Some 9, None, Some 7]" "[ex_conn 0]" "[ex_conn 0]" "\<lambda>_ _. True" "''5.6.7.8''" "''1.2.3.4''" n
      ex_peer "\<lambda>qt. Suc (length qt)"] n by (auto simp: numeral_2_eq_2)
qed

lemma mappings_dict_roundtrip: "mappings_dicts_to_objs (mappings_objs_to_dicts ms) = ms"
  by (induction ms) (simp_all add: mappings_dicts_to_objs_def mappings_objs_to_dicts_def mapping_from_dict_def mapping_to_dict_def NATMapping_def)

text \<open>The dictionary restores a puncher except for its preloaded mappings, given a clock reader that finds
  its module. The modules of this package do not include it: restoring the clock raises, so the
  punching process ends without a connection whatever the network does.\<close>

theorem puncher_dict_roundtrip:
  assumes "puncher_to_dict i (sc_to_dict i clock) p = Inr d" and "i_from i = Inr n"
    and "get_punch_mode (pu_af p) (pu_dest_ip p) (pu_same_machine p) = Inr m"
  shows "puncher_from_dict i_from (sc_from_dict (''p2pd.interface'' # mods) i_from) d =
      Inr (p\<lparr>pu_preloaded := []\<rparr>, n, n, SysClock (sc_skew clock)) \<and>
    proc_do_punching i_from (sc_from_dict p2pd_modules i_from) clock_time resolve peername sha wan conns d = None"
  using assms
  by (auto simp: puncher_to_dict_def puncher_from_dict_def rbind_eq_Ok sc_from_dict_def sc_to_dict_def TCPPuncher_def
      mappings_dict_roundtrip proc_do_punching_def p2pd_modules_def)

theorem puncher_dict_roundtrip_witness:
  "\<exists>d. puncher_to_dict () (sc_to_dict () (SysClock 5)) (ex_fresh\<lparr>pu_state := Some 1\<rparr>) = Inr d \<and>
     proc_do_punching Inr (sc_from_dict p2pd_modules Inr) (\<lambda>_. 10) (\<lambda>_ _. True) ex_peer length ''1.2.3.4'' [Some 7] d = None"
proof -
  obtain d where d: "puncher_to_dict () (sc_to_dict () (SysClock 5)) (ex_fresh\<lparr>pu_state := Some 1\<rparr>) = Inr d"
    by (simp add: puncher_to_dict_def ex_fresh_def)
  obtain m where "get_punch_mode IP4 ''1.2.3.4'' False = Inr m"
    by (simp add: get_punch_mode_def eval_simps ipr_eval af_to_cidr_def)
  then have "get_punch_mode (pu_af (ex_fresh\<lparr>pu_state := Some 1\<rparr>)) (pu_dest_ip (ex_fresh\<lparr>pu_state := Some 1\<rparr>))
      (pu_same_machine (ex_fresh\<lparr>pu_state := Some 1\<rparr>)) = Inr m" by (simp add: ex_fresh_def)
  from puncher_dict_roundtrip [OF d _ this, of Inr "()"] d show ?thesis by auto
qed

end
