(* ===== verification/Json_Text.thy ===== *)
theory Json_Text
  imports Ip_Text
begin

text \<open>
  The texts the signal messages travel as: what the code uses of Python's \<open>json\<close>, \<open>binascii\<close> and
  \<open>decimal\<close> modules. Characters are code points below 256; a number with a fraction or an exponent is
  kept as its literal text.
\<close>

section \<open>JSON values\<close>

datatype json =
    JNull | JBool bool | JInt int | JReal string | JStr string
  | JArr "json list" | JObj "(string \<times> json) list"

text \<open>\<open>json.dumps\<close> with its defaults: ASCII output, \<open>", "\<close> and \<open>": "\<close> between items.\<close>

definition short_escapes :: "(char \<times> char) list" where
  "short_escapes =
     [(CHR 34, CHR 34), (CHR 92, CHR 92), (CHR 8, CHR ''b''), (CHR 12, CHR ''f''),
      (CHR 10, CHR ''n''), (CHR 13, CHR ''r''), (CHR 9, CHR ''t'')]"

definition esc_char :: "char \<Rightarrow> string" where
  "esc_char c =
     (case map_of short_escapes c of
        Some e \<Rightarrow> [CHR 92, e]
      | None \<Rightarrow>
          (let n = of_char c in
           if 32 \<le> n \<and> n \<le> (126 :: nat) then [c]
           else [CHR 92, CHR ''u'', CHR ''0'', CHR ''0'', digit_char (n div 16), digit_char (n mod 16)]))"

definition json_str :: "string \<Rightarrow> string" where
  "json_str s = CHR 34 # concat (map esc_char s) @ [CHR 34]"

fun dumps :: "json \<Rightarrow> string" and dumps_items :: "json list \<Rightarrow> string"
  and dumps_members :: "(string \<times> json) list \<Rightarrow> string" where
  "dumps JNull = ''null''"
| "dumps (JBool b) = (if b then ''true'' else ''false'')"
| "dumps (JInt n) = int_str n"
| "dumps (JReal t) = t"
| "dumps (JStr s) = json_str s"
| "dumps (JArr xs) = CHR ''['' # dumps_items xs"
| "dumps (JObj ms) = CHR ''{'' # dumps_members ms"
| "dumps_items [] = '']''"
| "dumps_items [x] = dumps x @ '']''"
| "dumps_items (x # y # xs) = dumps x @ '', '' @ dumps_items (y # xs)"
| "dumps_members [] = ''}''"
| "dumps_members [(k, v)] = json_str k @ '': '' @ dumps v @ ''}''"
| "dumps_members ((k, v) # m # ms) = json_str k @ '': '' @ dumps v @ '', '' @ dumps_members (m # ms)"

section \<open>Reading JSON\<close>

definition json_ws :: "char \<Rightarrow> bool" where
  "json_ws c = (c \<in> {CHR '' '', CHR 9, CHR 10, CHR 13})"

abbreviation skip_ws :: "string \<Rightarrow> string" where
  "skip_ws \<equiv> dropWhile json_ws"

definition long_escapes :: "(char \<times> char) list" where
  "long_escapes = (CHR ''/'', CHR ''/'') # map (\<lambda>(a, b). (b, a)) short_escapes"

text \<open>The rest of a string after its opening quote. A control character in it is an error.\<close>

fun scan_str :: "string \<Rightarrow> (string \<times> string) option" where
  "scan_str [] = None"
| "scan_str (c # cs) =
     (if c = CHR 34 then Some ([], cs)
      else if c = CHR 92 then
        (case cs of
           e # r \<Rightarrow>
             (if e = CHR ''u'' then
                (case r of
                   h1 # h2 # h3 # h4 # r' \<Rightarrow>
                     (if list_all (is_digit 16) [h1, h2, h3, h4] \<and> num_val 16 [h1, h2, h3, h4] < 256
                      then map_option (\<lambda>(s, t). (char_of (num_val 16 [h1, h2, h3, h4]) # s, t)) (scan_str r')
                      else None)
                 | _ \<Rightarrow> None)
              else (case map_of long_escapes e of
                      None \<Rightarrow> None
                    | Some x \<Rightarrow> map_option (\<lambda>(s, t). (x # s, t)) (scan_str r)))
         | [] \<Rightarrow> None)
      else if of_char c < (32 :: nat) then None
      else map_option (\<lambda>(s, t). (c # s, t)) (scan_str cs))"

text \<open>A number: the integer part, then a fraction and an exponent if they are complete.\<close>

definition scan_frac :: "string \<Rightarrow> string \<times> string" where
  "scan_frac s =
     (case s of
        c # r \<Rightarrow> (let d = takeWhile (is_digit 10) r in
                if c = CHR ''.'' \<and> d \<noteq> [] then (c # d, drop (length d) r) else ([], s))
      | [] \<Rightarrow> ([], s))"

definition scan_exp :: "string \<Rightarrow> string \<times> string" where
  "scan_exp s =
     (case s of
        c # r \<Rightarrow>
          (let (g, r') = (case r of x # y \<Rightarrow> if x = CHR ''+'' \<or> x = CHR ''-'' then ([x], y) else ([], r) | [] \<Rightarrow> ([], r));
               d = takeWhile (is_digit 10) r'
           in if (c = CHR ''e'' \<or> c = CHR ''E'') \<and> d \<noteq> [] then (c # g @ d, drop (length d) r') else ([], s))
      | [] \<Rightarrow> ([], s))"

definition scan_digits :: "bool \<Rightarrow> string \<Rightarrow> (json \<times> string) option" where
  "scan_digits neg s =
     (let ds = takeWhile (is_digit 10) s;
          ds = (case ds of c # _ \<Rightarrow> if c = CHR ''0'' then [c] else ds | [] \<Rightarrow> [])
      in if ds = [] then None
         else (let (f, r1) = scan_frac (drop (length ds) s); (e, r2) = scan_exp r1 in
               if f = [] \<and> e = [] then Some (JInt (if neg then - int (num_val 10 ds) else int (num_val 10 ds)), r2)
               else Some (JReal ((if neg then ''-'' else []) @ ds @ f @ e), r2)))"

definition scan_num :: "string \<Rightarrow> (json \<times> string) option" where
  "scan_num s = (case s of c # r \<Rightarrow> if c = CHR ''-'' then scan_digits True r else scan_digits False s | [] \<Rightarrow> None)"

definition json_words :: "(string \<times> json) list" where
  "json_words =
     [(''null'', JNull), (''true'', JBool True), (''false'', JBool False), (''NaN'', JReal ''NaN''),
      (''Infinity'', JReal ''Infinity''), (''-Infinity'', JReal ''-Infinity'')]"

definition scan_word :: "string \<Rightarrow> (json \<times> string) option" where
  "scan_word s =
     (case find (\<lambda>(w, _). take (length w) s = w) json_words of
        Some (w, j) \<Rightarrow> Some (j, drop (length w) s)
      | None \<Rightarrow> scan_num s)"

text \<open>
  One value at the start of the text, with what follows it. The first argument bounds the recursion:
  None says it was too small, Some None that the text is malformed. A later member of an object
  replaces an earlier one of the same name, in its place.
\<close>

fun scan_value :: "nat \<Rightarrow> string \<Rightarrow> (json \<times> string) option option"
  and scan_items :: "nat \<Rightarrow> json list \<Rightarrow> string \<Rightarrow> (json \<times> string) option option"
  and scan_members :: "nat \<Rightarrow> (string \<times> json) list \<Rightarrow> string \<Rightarrow> (json \<times> string) option option" where
  "scan_value 0 s = None"
| "scan_value (Suc n) s =
     (case s of
        [] \<Rightarrow> Some None
      | c # r \<Rightarrow>
          if c = CHR 34 then Some (map_option (\<lambda>(t, u). (JStr t, u)) (scan_str r))
          else if c = CHR ''['' then
            (case skip_ws r of
               d # u \<Rightarrow> if d = CHR '']'' then Some (Some (JArr [], u)) else scan_items n [] (d # u)
             | [] \<Rightarrow> Some None)
          else if c = CHR ''{'' then
            (case skip_ws r of
               d # u \<Rightarrow> if d = CHR ''}'' then Some (Some (JObj [], u)) else scan_members n [] (d # u)
             | [] \<Rightarrow> Some None)
          else Some (scan_word s))"
| "scan_items 0 acc s = None"
| "scan_items (Suc n) acc s =
     (case scan_value n s of
        None \<Rightarrow> None
      | Some None \<Rightarrow> Some None
      | Some (Some (v, r)) \<Rightarrow>
          (case skip_ws r of
             c # u \<Rightarrow> if c = CHR '']'' then Some (Some (JArr (acc @ [v]), u))
                    else if c = CHR '','' then scan_items n (acc @ [v]) (skip_ws u)
                    else Some None
           | [] \<Rightarrow> Some None))"
| "scan_members 0 acc s = None"
| "scan_members (Suc n) acc s =
     (case s of
        [] \<Rightarrow> Some None
      | q # r \<Rightarrow>
          if q \<noteq> CHR 34 then Some None
          else (case scan_str r of
                  None \<Rightarrow> Some None
                | Some (k, t) \<Rightarrow>
                    (case skip_ws t of
                       [] \<Rightarrow> Some None
                     | d # u \<Rightarrow>
                         if d \<noteq> CHR '':'' then Some None
                         else (case scan_value n (skip_ws u) of
                                 None \<Rightarrow> None
                               | Some None \<Rightarrow> Some None
                               | Some (Some (v, w)) \<Rightarrow>
                                   (case skip_ws w of
                                      c # x \<Rightarrow> if c = CHR ''}'' then Some (Some (JObj (dict_set k v acc), x))
                                             else if c = CHR '','' then scan_members n (dict_set k v acc) (skip_ws x)
                                             else Some None
                                    | [] \<Rightarrow> Some None)))))"

text \<open>\<open>json.loads\<close>: nothing but white space may follow. A \<open>JSONDecodeError\<close> is a \<open>ValueError\<close>.\<close>

definition loads :: "string \<Rightarrow> json res" where
  "loads s =
     (case scan_value (Suc (2 * length s)) (skip_ws s) of
        Some (Some (v, r)) \<Rightarrow> if skip_ws r = [] then Ok v else Err ValueError
      | _ \<Rightarrow> Err ValueError)"

section \<open>The bound suffices\<close>

lemma scan_str_shorter: "scan_str s = Some (t, r) \<Longrightarrow> length r < length s"
proof (induction s arbitrary: t r rule: scan_str.induct)
  case (2 c cs)
  then show ?case
    by (simp add: Let_def split: if_splits list.splits option.splits) (auto, (fastforce)+)
qed simp

lemma length_skip_ws: "length (skip_ws s) \<le> length s"
  by (rule length_dropWhile_le)

lemma scan_digits_shorter: "scan_digits neg s = Some (j, r) \<Longrightarrow> length r < length s"
proof -
  assume a: "scan_digits neg s = Some (j, r)"
  have f: "length (snd (scan_frac t)) \<le> length t" for t
    by (auto simp: scan_frac_def Let_def split: list.splits if_splits)
  have e: "length (snd (scan_exp t)) \<le> length t" for t
    by (auto simp: scan_exp_def Let_def split: list.splits if_splits prod.splits)
  define ds where "ds = (case takeWhile (is_digit 10) s of c # x \<Rightarrow> if c = CHR ''0'' then [c] else c # x | [] \<Rightarrow> [])"
  have l: "length ds \<le> length s"
    using length_takeWhile_le [of "is_digit 10" s]
    by (auto simp: ds_def split: list.splits if_splits)
  have "ds \<noteq> [] \<and> length r \<le> length (snd (scan_frac (drop (length ds) s)))"
    using a e [of "snd (scan_frac (drop (length ds) s))"]
    unfolding scan_digits_def Let_def ds_def
    by (auto split: prod.splits if_splits list.splits)
  moreover have "length (snd (scan_frac (drop (length ds) s))) \<le> length s - length ds"
    using f [of "drop (length ds) s"] by simp
  ultimately show ?thesis using l by (cases ds) auto
qed

lemma scan_num_shorter: "scan_num s = Some (j, r) \<Longrightarrow> length r < length s"
  by (auto simp: scan_num_def split: list.splits if_splits dest: scan_digits_shorter)

lemma scan_word_shorter: "scan_word s = Some (j, r) \<Longrightarrow> length r < length s"
  by (auto simp: scan_word_def json_words_def scan_num_shorter split: option.splits if_splits)
    (auto dest: arg_cong [of _ _ length])

lemma scan_shorter:
  "scan_value n s = Some (Some (j, r)) \<Longrightarrow> length r < length s"
  "scan_items n acc s = Some (Some (j, r)) \<Longrightarrow> length r < length s"
  "scan_members n ms s = Some (Some (j, r)) \<Longrightarrow> length r < length s"
proof (induction n s and n acc s and n ms s arbitrary: j r and j r and j r
    rule: scan_value_scan_items_scan_members.induct)
  case (2 n s)
  show ?case
  proof (cases s)
    case (Cons c t)
    have w: "skip_ws t = d # u \<Longrightarrow> Suc (length u) \<le> length t" for d u
      using length_skip_ws [of t] by simp
    show ?thesis
      using 2 Cons scan_str_shorter [of t] scan_word_shorter [of s] w
      by (fastforce split: if_splits list.splits option.splits)
  qed (use 2 in simp)
next
  case (4 n acc s)
  from 4(3) obtain v t c u where v: "scan_value n s = Some (Some (v, t))" "skip_ws t = c # u"
    and u: "c = CHR '']'' \<and> r = u \<or> c = CHR '','' \<and> scan_items n (acc @ [v]) (skip_ws u) = Some (Some (j, r))"
    by (auto split: option.splits list.splits if_splits)
  have "length t < length s" "length u < length t"
    using 4(1) [OF v(1)] length_skip_ws [of t] v(2) by auto
  then show ?case
    using u 4(2) [OF v(1) refl refl v(2)] length_skip_ws [of u] by force
next
  case (6 n acc s)
  from 6(3) obtain q t k t' d u v w c x where s: "s = q # t" "q = CHR 34" "scan_str t = Some (k, t')" "skip_ws t' = d # u"
    "d = CHR '':''" "scan_value n (skip_ws u) = Some (Some (v, w))" "skip_ws w = c # x"
    and x: "c = CHR ''}'' \<and> r = x \<or> c = CHR '','' \<and> scan_members n (dict_set k v acc) (skip_ws x) = Some (Some (j, r))"
    by (auto split: option.splits list.splits if_splits)
  have "length w < length (skip_ws u)" using 6(1) s by blast
  then have "length x < length s"
    using scan_str_shorter [OF s(3)] length_skip_ws [of t'] length_skip_ws [of u] length_skip_ws [of w] s by auto
  then show ?case
  proof (cases "c = CHR ''}''")
    case False
    then have "length r < length (skip_ws x)" using x 6(2) s by blast
    then show ?thesis using length_skip_ws [of x] \<open>length x < length s\<close> by simp
  qed (use x in auto)
qed auto

lemma scan_enough:
  "2 * length s < n \<Longrightarrow> scan_value n s \<noteq> None"
  "2 * length s + 1 < n \<Longrightarrow> scan_items n acc s \<noteq> None"
  "2 * length s + 1 < n \<Longrightarrow> scan_members n ms s \<noteq> None"
proof (induction n s and n acc s and n ms s rule: scan_value_scan_items_scan_members.induct)
  case (2 n s)
  show ?case
  proof (cases s)
    case (Cons c t)
    have w: "skip_ws t = d # u \<Longrightarrow> Suc (length u) \<le> length t" for d u
      using length_skip_ws [of t] by simp
    show ?thesis
      using 2 Cons w by (fastforce split: if_splits list.splits option.splits)
  qed simp
next
  case (4 n acc s)
  have "scan_value n s \<noteq> None" using 4 by simp
  moreover have "scan_items n (acc @ [v]) (skip_ws u) \<noteq> None"
    if v: "scan_value n s = Some (Some (v, t))" "skip_ws t = c # u" "c \<noteq> CHR '']''" "c = CHR '',''" for v t c u
    using 4(2) [OF v(1) refl refl v(2,3,4)] 4(3) scan_shorter(1) [OF v(1)] length_skip_ws [of t] length_skip_ws [of u] v(2) by simp
  ultimately show ?case
    by (auto split: option.splits list.splits)
next
  case (6 n acc s)
  have b: "length (skip_ws u) + 2 \<le> length s" if "s = q # t" "scan_str t = Some (k, t')" "skip_ws t' = d # u" for q t k t' d u
    using that scan_str_shorter [OF that(2)] length_skip_ws [of t'] length_skip_ws [of u] by simp
  show ?case
  proof
    assume "scan_members (Suc n) acc s = None"
    then obtain q t k t' d u where s: "s = q # t" "q = CHR 34" "scan_str t = Some (k, t')" "skip_ws t' = d # u" "d = CHR '':''"
      and x: "scan_value n (skip_ws u) = None \<or> (\<exists>v w x. scan_value n (skip_ws u) = Some (Some (v, w)) \<and>
        skip_ws w = CHR '','' # x \<and> scan_members n (dict_set k v acc) (skip_ws x) = None)"
      by (auto split: option.splits list.splits if_splits)
    note l = b [OF s(1,3,4)]
    have "scan_value n (skip_ws u) \<noteq> None" using 6 s l by auto
    then obtain v w c x where v: "scan_value n (skip_ws u) = Some (Some (v, w))" "skip_ws w = c # x" "c \<noteq> CHR ''}''" "c = CHR '',''"
      and m: "scan_members n (dict_set k v acc) (skip_ws x) = None" using x by auto
    have "2 * length (skip_ws x) + 1 < n"
      using scan_shorter(1) [OF v(1)] length_skip_ws [of w] length_skip_ws [of x] v(2) l 6(3) by simp
    moreover have "\<not> q \<noteq> CHR 34" "\<not> d \<noteq> CHR '':''" using s by simp_all
    ultimately have "scan_members n (dict_set k v acc) (skip_ws x) \<noteq> None" using 6(2) s v by blast
    then show False using m by simp
  qed
qed auto

text \<open>So reading never stops for lack of fuel.\<close>

lemma loads_total: "scan_value (Suc (2 * length s)) (skip_ws s) \<noteq> None"
  using scan_enough(1) [of "skip_ws s" "Suc (2 * length s)"] length_skip_ws [of s] by simp

section \<open>Reading what was printed\<close>

lemma short_escapes_cases:
  "map_of short_escapes c = Some e \<Longrightarrow> map_of long_escapes e = Some c \<and> e \<noteq> CHR ''u''"
  by (auto simp: short_escapes_def long_escapes_def split: if_splits)

lemma scan_esc_char: "scan_str (esc_char c @ r) = map_option (\<lambda>(s, t). (c # s, t)) (scan_str r)"
proof (cases "map_of short_escapes c")
  case (Some e)
  then show ?thesis using short_escapes_cases [OF Some] by (simp add: esc_char_def)
next
  case None
  then have n: "c \<noteq> CHR 34" "c \<noteq> CHR 92" by (auto simp: short_escapes_def)
  define k :: nat where "k = of_char c"
  have k: "k < 256" "char_of k = c" unfolding k_def using mod_less_divisor [of 256 "of_char c :: nat"] by simp_all
  have h: "num_val 16 [CHR ''0'', CHR ''0'', digit_char (k div 16), digit_char (k mod 16)] = k"
    using k(1) by (simp add: num_val_def) (simp add: digit_val_def)
  have d: "is_digit 16 (digit_char (k div 16))" "is_digit 16 (digit_char (k mod 16))" "is_digit 16 CHR ''0''"
    using k(1) by (simp_all add: is_digit_char) (simp add: is_digit_def digit_val_def)
  show ?thesis
    using n h d k by (simp add: esc_char_def None Let_def flip: k_def)
qed

lemma scan_json_str: "json_str s @ r = CHR 34 # u \<Longrightarrow> scan_str u = Some (s, r)"
proof -
  have "scan_str (concat (map esc_char s) @ CHR 34 # r) = Some (s, r)"
    by (induction s) (simp_all add: scan_esc_char)
  then show "json_str s @ r = CHR 34 # u \<Longrightarrow> scan_str u = Some (s, r)" by (auto simp: json_str_def)
qed

text \<open>The values a program can print and get back: no literal numbers, each member name once.\<close>

fun json_ok :: "json \<Rightarrow> bool" and items_ok :: "json list \<Rightarrow> bool"
  and members_ok :: "(string \<times> json) list \<Rightarrow> bool" where
  "json_ok (JReal t) = False"
| "json_ok (JArr xs) = items_ok xs"
| "json_ok (JObj ms) = (dict_ok ms \<and> members_ok ms)"
| "json_ok _ = True"
| "items_ok [] = True"
| "items_ok (x # xs) = (json_ok x \<and> items_ok xs)"
| "members_ok [] = True"
| "members_ok ((k, v) # ms) = (json_ok v \<and> members_ok ms)"

definition num_ends :: "string \<Rightarrow> bool" where
  "num_ends r = (case r of [] \<Rightarrow> True | c # _ \<Rightarrow> \<not> is_digit 10 c \<and> c \<notin> {CHR ''.'', CHR ''e'', CHR ''E''})"

lemma num_str_head: "0 < n \<Longrightarrow> hd (num_str 10 n) \<noteq> CHR ''0''"
proof (induction "10 :: nat" n rule: num_str.induct)
  case (1 n)
  show ?case
  proof (cases "n < 10")
    case True
    then have "of_char (digit_char n) \<noteq> (48 :: nat)" using 1(2) by (simp add: of_char_digit)
    moreover have "of_char (CHR ''0'') = (48 :: nat)" by simp
    ultimately have "digit_char n \<noteq> CHR ''0''" by metis
    then show ?thesis using True by (subst num_str.simps) simp
  next
    case False
    then show ?thesis using 1 by (subst num_str.simps) (simp add: hd_append)
  qed
qed

lemma scan_num_tail:
  assumes "num_ends r"
  shows "scan_frac r = ([], r)" and "scan_exp r = ([], r)"
  using assms by (auto simp: scan_frac_def scan_exp_def num_ends_def Let_def split: list.splits prod.splits)

lemma takeWhile_num:
  assumes "num_ends r"
  shows "takeWhile (is_digit 10) (num_str 10 n @ r) = num_str 10 n"
proof -
  have "takeWhile (is_digit 10) r = []" using assms by (auto simp: num_ends_def split: list.splits)
  moreover have "x \<in> set (num_str 10 n) \<Longrightarrow> is_digit 10 x" for x
    using num_str_digits [of 10 n] by (simp add: list_all_iff)
  ultimately show ?thesis by (simp add: takeWhile_append2)
qed

lemma num_str_shape: "\<exists>c cs. num_str 10 n = c # cs \<and> is_digit 10 c \<and> (c = CHR ''0'' \<longrightarrow> cs = [] \<and> n = 0)"
proof -
  obtain c cs where s: "num_str 10 n = c # cs" by (cases "num_str 10 n") auto
  have "is_digit 10 c" using num_str_digits [of 10 n] by (simp add: s)
  moreover have "n = 0" if "c = CHR ''0''" using num_str_head [of n] that by (cases "n = 0") (auto simp: s)
  moreover have "num_str 10 0 = ''0''" by (subst num_str.simps) (simp add: digit_char_def char_of_def bit_iff_odd)
  ultimately show ?thesis using s by auto
qed

lemma scan_digits_num_str:
  assumes "num_ends r"
  shows "scan_digits neg (num_str 10 n @ r) = Some (JInt (if neg then - int n else int n), r)"
proof -
  have "(case num_str 10 n of c # _ \<Rightarrow> if c = CHR ''0'' then [c] else num_str 10 n | [] \<Rightarrow> []) = num_str 10 n"
    using num_str_shape [of n] by auto
  then show ?thesis
    by (simp add: scan_digits_def Let_def takeWhile_num [OF assms] scan_num_tail [OF assms])
qed

lemma scan_int_str:
  assumes "num_ends r"
  shows "scan_num (int_str n @ r) = Some (JInt n, r)"
proof -
  obtain c cs where s: "num_str 10 (nat n) = c # cs" "is_digit 10 c" using num_str_shape by blast
  then have "c \<noteq> CHR ''-''" by (auto simp: is_digit_def digit_val_def)
  then show ?thesis
    using scan_digits_num_str [OF assms, of False "nat n"] scan_digits_num_str [OF assms, of True "nat (- n)"] s(1)
    by (simp add: scan_num_def int_str_def)
qed

lemma digit_not_letter: "is_digit 10 c \<Longrightarrow> c \<noteq> CHR ''n'' \<and> c \<noteq> CHR ''t'' \<and> c \<noteq> CHR ''f'' \<and> c \<noteq> CHR ''N'' \<and>
    c \<noteq> CHR ''I'' \<and> c \<noteq> CHR ''-'' \<and> c \<noteq> CHR 34 \<and> c \<noteq> CHR ''['' \<and> c \<noteq> CHR ''{''"
  by (auto simp: is_digit_def digit_val_def)

lemma scan_word_int:
  assumes "num_ends r"
  shows "scan_word (int_str n @ r) = Some (JInt n, r)"
proof -
  obtain c cs where s: "num_str 10 (nat n) = c # cs" "is_digit 10 c" using num_str_shape by blast
  obtain d ds where t: "num_str 10 (nat (- n)) = d # ds" "is_digit 10 d" using num_str_shape by blast
  have "find (\<lambda>(w, _). take (length w) (int_str n @ r) = w) json_words = None"
    using digit_not_letter [OF s(2)] digit_not_letter [OF t(2)] by (simp add: json_words_def int_str_def s(1) t(1))
  then show ?thesis by (simp add: scan_word_def scan_int_str [OF assms])
qed

definition json_first :: "char \<Rightarrow> bool" where
  "json_first c = (\<not> json_ws c \<and> c \<notin> {CHR '']'', CHR ''}''})"

lemma dumps_first: "json_ok j \<Longrightarrow> \<exists>c cs. dumps j = c # cs \<and> json_first c"
proof (cases j)
  case (JInt n)
  obtain c cs where s: "num_str 10 (nat n) = c # cs" "is_digit 10 c" using num_str_shape by blast
  have "json_first c" using s(2) by (auto simp: json_first_def json_ws_def is_digit_def digit_val_def)
  then show ?thesis using s by (auto simp: JInt int_str_def json_first_def json_ws_def)
qed (auto simp: json_first_def json_ws_def json_str_def)

lemma skip_first: "json_first c \<Longrightarrow> skip_ws (c # s) = c # s"
  by (simp add: json_first_def)

lemma ws_literals: "json_ws CHR '' ''" "\<not> json_ws CHR '']''" "\<not> json_ws CHR ''}''" "\<not> json_ws CHR '',''" "\<not> json_ws CHR '':''"
  "\<not> json_ws CHR 34"
  by (simp_all add: json_ws_def)

lemma int_str_shape: "\<exists>c cs. int_str k = c # cs \<and> c \<noteq> CHR 34 \<and> c \<noteq> CHR ''['' \<and> c \<noteq> CHR ''{''"
proof (cases "k < 0")
  case False
  obtain c cs where s: "num_str 10 (nat k) = c # cs" "is_digit 10 c" using num_str_shape by blast
  then show ?thesis using False digit_not_letter [OF s(2)] by (simp add: int_str_def)
qed (simp add: int_str_def)

lemma scan_dumps:
  "json_ok j \<Longrightarrow> num_ends r \<Longrightarrow> 2 * length (dumps j) < n \<Longrightarrow> scan_value n (dumps j @ r) = Some (Some (j, r))"
  "items_ok xs \<Longrightarrow> xs \<noteq> [] \<Longrightarrow> 2 * length (dumps_items xs) + 1 < n \<Longrightarrow>
     scan_items n acc (dumps_items xs @ r) = Some (Some (JArr (acc @ xs), r))"
  "members_ok ms \<Longrightarrow> ms \<noteq> [] \<Longrightarrow> dict_ok (ms0 @ ms) \<Longrightarrow> 2 * length (dumps_members ms) + 1 < n \<Longrightarrow>
     scan_members n ms0 (dumps_members ms @ r) = Some (Some (JObj (ms0 @ ms), r))"
proof (induction j and xs and ms arbitrary: n r and n acc r and n ms0 r rule: dumps_dumps_items_dumps_members.induct)
  case 1
  then obtain m where "n = Suc m" by (cases n) auto
  then show ?case by (simp add: scan_word_def json_words_def)
next
  case (2 b)
  then obtain m where "n = Suc m" by (cases n) auto
  then show ?case by (simp add: scan_word_def json_words_def)
next
  case (3 k)
  then obtain m where m: "n = Suc m" by (cases n) auto
  obtain c cs where s: "int_str k = c # cs" "c \<noteq> CHR 34" "c \<noteq> CHR ''[''" "c \<noteq> CHR ''{''"
    using int_str_shape by blast
  then show ?case using scan_word_int [OF 3(2), of k] by (simp add: m)
next
  case (5 s)
  then obtain m where m: "n = Suc m" by (cases n) auto
  obtain u where "json_str s @ r = CHR 34 # u" by (simp add: json_str_def)
  then show ?case using scan_json_str by (simp add: m)
next
  case (6 xs)
  then obtain m where m: "n = Suc m" by (cases n) auto
  show ?case
  proof (cases xs)
    case (Cons x ys)
    obtain c cs where c: "dumps x = c # cs" "json_first c" using 6(2) dumps_first [of x] by (auto simp: Cons)
    then obtain u where u: "dumps_items xs @ r = c # u" by (cases ys) (auto simp: Cons)
    have "scan_items m [] (dumps_items xs @ r) = Some (Some (JArr xs, r))"
      using 6 Cons by (simp add: m)
    then show ?thesis using c(2) by (simp add: m u skip_first) (simp add: json_first_def)
  qed (simp add: m json_ws_def)
next
  case (7 ms)
  then obtain m where m: "n = Suc m" by (cases n) auto
  show ?case
  proof (cases ms)
    case (Cons p ys)
    obtain u where u: "dumps_members ms @ r = CHR 34 # u" by (cases p; cases ys) (auto simp: Cons json_str_def)
    have "scan_members m [] (dumps_members ms @ r) = Some (Some (JObj ms, r))"
      using 7 Cons by (simp add: m)
    then show ?thesis by (simp add: m u json_ws_def)
  qed (simp add: m json_ws_def)
next
  case (9 x)
  then obtain m where m: "n = Suc m" by (cases n) auto
  have "scan_value m (dumps x @ CHR '']'' # r) = Some (Some (x, CHR '']'' # r))"
    using 9 by (simp add: m num_ends_def is_digit_def digit_val_def)
  then show ?case by (simp add: m ws_literals)
next
  case (10 x y xs)
  then obtain m where m: "n = Suc m" by (cases n) auto
  obtain c cs where c: "dumps y = c # cs" "json_first c" using 10(3) dumps_first [of y] by auto
  then obtain u where u: "dumps_items (y # xs) @ r = c # u" by (cases xs) auto
  have "scan_value m (dumps x @ '', '' @ dumps_items (y # xs) @ r) = Some (Some (x, '', '' @ dumps_items (y # xs) @ r))"
    using 10 by (simp add: m num_ends_def is_digit_def digit_val_def)
  moreover have "scan_items m (acc @ [x]) (dumps_items (y # xs) @ r) = Some (Some (JArr (acc @ x # y # xs), r))"
    using 10 by (simp add: m)
  ultimately show ?case using skip_first [OF c(2)] u by (simp add: m ws_literals)
next
  case (12 k v)
  then obtain m where m: "n = Suc m" by (cases n) auto
  obtain c cs where c: "dumps v = c # cs" "json_first c" using 12 dumps_first [of v] by auto
  have "scan_value m (dumps v @ CHR ''}'' # r) = Some (Some (v, CHR ''}'' # r))"
    using 12 by (simp add: m num_ends_def is_digit_def digit_val_def)
  moreover obtain u where "json_str k @ '': '' @ dumps v @ CHR ''}'' # r = CHR 34 # u" by (simp add: json_str_def)
  moreover have "dict_set k v ms0 = ms0 @ [(k, v)]" using 12 by (intro dict_set_new) (auto simp: dict_ok_def)
  moreover have "\<not> json_ws c" using c(2) by (simp add: json_first_def)
  ultimately show ?case using scan_json_str c(1) by (simp add: m ws_literals)
next
  case (13 k v p ms)
  then obtain m where m: "n = Suc m" by (cases n) auto
  obtain c cs where c: "dumps v = c # cs" "json_first c" using 13 dumps_first [of v] by auto
  obtain w where w: "dumps_members (p # ms) @ r = CHR 34 # w" by (cases p; cases ms) (auto simp: json_str_def)
  have "scan_value m (dumps v @ '', '' @ dumps_members (p # ms) @ r) = Some (Some (v, '', '' @ dumps_members (p # ms) @ r))"
    using 13 by (simp add: m num_ends_def is_digit_def digit_val_def)
  moreover have "scan_members m (ms0 @ [(k, v)]) (dumps_members (p # ms) @ r) = Some (Some (JObj (ms0 @ (k, v) # p # ms), r))"
    using 13 by (simp add: m)
  moreover obtain u where "json_str k @ '': '' @ dumps v @ '', '' @ dumps_members (p # ms) @ r = CHR 34 # u"
    by (simp add: json_str_def)
  moreover have "dict_set k v ms0 = ms0 @ [(k, v)]" using 13 by (intro dict_set_new) (auto simp: dict_ok_def)
  moreover have "\<not> json_ws c" using c(2) by (simp add: json_first_def)
  ultimately show ?case using scan_json_str c(1) w by (simp add: m ws_literals)
qed auto

lemma loads_dumps:
  assumes "json_ok j"
  shows "loads (dumps j) = Inr j"
proof -
  obtain c cs where c: "dumps j = c # cs" "json_first c" using dumps_first [OF assms] by blast
  have "scan_value (Suc (2 * length (dumps j))) (dumps j @ []) = Some (Some (j, []))"
    by (intro scan_dumps(1) assms) (simp_all add: num_ends_def)
  then show ?thesis using skip_first [OF c(2), of cs] by (simp add: loads_def c)
qed

section \<open>Bytes and hexadecimal\<close>

text \<open>\<open>to_b\<close> drops what is not ASCII; so does this \<open>to_s\<close>, which is the decoder on ASCII text.\<close>

definition to_b :: "string \<Rightarrow> bytes" where
  "to_b s = map (\<lambda>c. word_of_nat (of_char c)) (filter (\<lambda>c. of_char c < (128 :: nat)) s)"

definition to_s :: "bytes \<Rightarrow> string" where
  "to_s bs = map (\<lambda>b. char_of (unat b)) (filter (\<lambda>b. unat b < 128) bs)"

definition to_hs :: "bytes \<Rightarrow> string" where
  "to_hs bs = concat (map (\<lambda>b. [digit_char (unat b div 16), digit_char (unat b mod 16)]) bs)"

definition to_h :: "bytes \<Rightarrow> string" where
  "to_h x = (if x \<noteq> [] then to_hs x else ''00'')"

fun h_to_b :: "string \<Rightarrow> bytes res" where
  "h_to_b [] = Ok []"
| "h_to_b [c] = Err ValueError"
| "h_to_b (c # d # s) =
     (if is_digit 16 c \<and> is_digit 16 d
      then rbind (h_to_b s) (\<lambda>bs. Ok (word_of_nat (num_val 16 [c, d]) # bs))
      else Err ValueError)"

lemma div_16_bound: "n < 256 \<Longrightarrow> n div 16 < (16 :: nat)"
  by (rule less_mult_imp_div_less) simp

lemma unat_div_16: "unat (b :: byte) div 16 < 16"
  by (rule div_16_bound) simp

lemma h_to_b_to_hs: "h_to_b (to_hs bs) = Inr bs"
proof (induction bs)
  case (Cons b bs)
  have "num_val 16 [digit_char (unat b div 16), digit_char (unat b mod 16)] = unat b"
    using unat_div_16 [of b] by (simp add: num_val_def)
  then show ?case using Cons unat_div_16 [of b] by (simp add: to_hs_def is_digit_char)
qed (simp add: to_hs_def)

lemma h_to_b_to_h: "h_to_b (to_h bs) = Inr (if bs = [] then [0] else bs)"
  by (simp add: to_h_def h_to_b_to_hs) (simp add: num_val_def is_digit_def digit_val_def)

definition ascii :: "string \<Rightarrow> bool" where
  "ascii s = list_all (\<lambda>c. of_char c < (128 :: nat)) s"

lemma to_s_to_b: "ascii s \<Longrightarrow> to_s (to_b s) = s"
proof (induction s)
  case (Cons c s)
  have "(of_char c :: nat) < 256" using mod_less_divisor [of 256 "of_char c :: nat"] by simp
  then have "unat (word_of_nat (of_char c) :: byte) = of_char c"
    by (simp add: unat_of_nat take_bit_eq_mod)
  then show ?case using Cons by (simp add: to_s_def to_b_def ascii_def) 
qed (simp add: to_s_def to_b_def)

lemma map_char_of_to_b: "ascii s \<Longrightarrow> map (\<lambda>b. char_of (unat b)) (to_b s) = s"
  using to_s_to_b [of s] unfolding to_s_def
proof -
  assume a: "ascii s"
  have "list_all (\<lambda>b. unat b < 128) (to_b s)" by (auto simp: to_b_def list_all_iff unat_of_nat take_bit_eq_mod)
  then have "filter (\<lambda>b. unat b < 128) (to_b s) = to_b s" by (simp add: filter_id_conv list_all_iff)
  then show ?thesis using to_s_to_b [OF a] by (simp add: to_s_def)
qed

lemma to_b_append: "to_b (s @ t) = to_b s @ to_b t"
  by (simp add: to_b_def)

lemma to_b_notin: "ascii s \<Longrightarrow> c \<notin> set s \<Longrightarrow> of_char c < (128 :: nat) \<Longrightarrow> word_of_nat (of_char c) \<notin> set (to_b s)"
  by (auto simp: to_b_def ascii_def list_all_iff word_of_nat_eq_iff take_bit_nat_eq_self)

lemma digit_ascii: "is_digit b c \<Longrightarrow> of_char c < (128 :: nat)"
  by (auto simp: is_digit_def digit_val_def Let_def split: if_splits)

lemma digits_ascii: "list_all (is_digit b) s \<Longrightarrow> ascii s"
  by (auto simp: ascii_def list_all_iff dest: digit_ascii)

lemma to_h_digits: "list_all (is_digit 16) (to_h bs)"
proof -
  have "list_all (is_digit 16) (to_hs bs)"
    using unat_div_16 by (induction bs) (auto simp: to_hs_def is_digit_char)
  then show ?thesis by (simp add: to_h_def) (simp add: is_digit_def digit_val_def)
qed

text \<open>The text of a dump is ASCII, whatever the strings in it.\<close>

lemma ascii_append [simp]: "ascii (s @ t) \<longleftrightarrow> ascii s \<and> ascii t"
  by (simp add: ascii_def)

lemma ascii_esc: "ascii (esc_char c)"
proof (cases "map_of short_escapes c")
  case (Some e)
  then show ?thesis by (auto simp: esc_char_def ascii_def short_escapes_def split: if_splits)
next
  case None
  have "(of_char c :: nat) < 256" using mod_less_divisor [of 256 "of_char c :: nat"] by simp
  then have "is_digit 16 (digit_char (of_char c div 16))" "is_digit 16 (digit_char (of_char c mod 16))"
    using div_16_bound [of "of_char c"] by (simp_all add: is_digit_char)
  then show ?thesis using digit_ascii by (auto simp: esc_char_def None ascii_def Let_def)
qed

lemma ascii_json_str: "ascii (json_str s)"
proof -
  have "ascii (concat (map esc_char s))" using ascii_esc by (induction s) (simp_all add: ascii_def)
  then show ?thesis by (simp add: json_str_def) (simp add: ascii_def)
qed

lemma ascii_int_str: "ascii (int_str n)"
proof -
  have "ascii (num_str 10 k)" for k by (rule digits_ascii [of 10]) (simp add: num_str_digits)
  then show ?thesis by (simp add: int_str_def) (simp add: ascii_def)
qed

lemma ascii_Cons [simp]: "ascii (c # s) \<longleftrightarrow> of_char c < (128 :: nat) \<and> ascii s"
  by (simp add: ascii_def)

lemma ascii_Nil [simp]: "ascii []"
  by (simp add: ascii_def)

lemma dumps_ascii:
  "json_ok j \<Longrightarrow> ascii (dumps j)"
  "items_ok xs \<Longrightarrow> ascii (dumps_items xs)"
  "members_ok ms \<Longrightarrow> ascii (dumps_members ms)"
  by (induction j and xs and ms rule: dumps_dumps_items_dumps_members.induct)
    (auto simp: ascii_json_str ascii_int_str)

section \<open>Decimal numbers\<close>

text \<open>A finite \<open>Decimal\<close> is a coefficient and an exponent of ten.\<close>

type_synonym decimal = "int \<times> int"

text \<open>\<open>str(d)\<close>: plain when the exponent is not positive and the number not too small.\<close>

definition dec_text :: "decimal \<Rightarrow> string" where
  "dec_text d =
     (let (c, e) = d;
          ds = num_str 10 (nat \<bar>c\<bar>);
          leftdigits = e + int (length ds);
          dotplace = (if e \<le> 0 \<and> leftdigits > -6 then leftdigits else 1);
          intpart = (if dotplace \<le> 0 then ''0'' else take (nat dotplace) ds);
          fracpart = (if dotplace \<le> 0 then replicate (nat (- dotplace)) CHR ''0'' @ ds else drop (nat dotplace) ds);
          ex = leftdigits - dotplace
      in (if c < 0 then ''-'' else []) @ intpart @ (if fracpart = [] then [] else CHR ''.'' # fracpart) @
         (if ex = 0 then [] else CHR ''E'' # (if ex < 0 then int_str ex else CHR ''+'' # int_str ex)))"

text \<open>\<open>Decimal(text)\<close> for finite numbers; the names of the infinities and of NaN are refused here.\<close>

definition dec_sign :: "string \<Rightarrow> bool \<times> string" where
  "dec_sign s = (case s of c # r \<Rightarrow> if c = CHR ''-'' then (True, r) else if c = CHR ''+'' then (False, r) else (False, s)
                 | [] \<Rightarrow> (False, []))"

definition dec_frac :: "string \<Rightarrow> string \<times> string" where
  "dec_frac s = (case s of c # r \<Rightarrow> if c = CHR ''.'' then (takeWhile (is_digit 10) r, dropWhile (is_digit 10) r) else ([], s)
                 | [] \<Rightarrow> ([], []))"

definition dec_exp :: "string \<Rightarrow> int option" where
  "dec_exp s =
     (case s of
        [] \<Rightarrow> Some 0
      | c # r \<Rightarrow>
          (let (neg, ds) = dec_sign r
           in if (c = CHR ''E'' \<or> c = CHR ''e'') \<and> isnumeric ds
              then Some (if neg then - int (num_val 10 ds) else int (num_val 10 ds)) else None))"

definition dec_parse :: "string \<Rightarrow> decimal option" where
  "dec_parse t =
     (let (neg, r) = dec_sign (filter (\<lambda>c. c \<noteq> CHR ''_'') (strip t));
          i = takeWhile (is_digit 10) r;
          (f, x) = dec_frac (dropWhile (is_digit 10) r)
      in if i = [] \<and> f = [] then None
         else (case dec_exp x of
                 None \<Rightarrow> None
               | Some e \<Rightarrow> (let c = int (num_val 10 (i @ f)) in Some (if neg then - c else c, e - int (length f)))))"

lemma dec_exp_text:
  "dec_exp (CHR ''E'' # (if ex < 0 then int_str ex else CHR ''+'' # int_str ex)) = Some ex"
proof -
  have "isnumeric (num_str 10 n)" for n by (simp add: isnumeric_def num_str_digits)
  then show ?thesis by (simp add: dec_exp_def dec_sign_def int_str_def)
qed

definition dec_chars :: "string \<Rightarrow> bool" where
  "dec_chars = list_all (\<lambda>c. is_digit 10 c \<or> c \<in> {CHR ''+'', CHR ''-'', CHR ''.'', CHR ''E''})"

lemma dec_chars_plain: "dec_chars s \<Longrightarrow> filter (\<lambda>c. c \<noteq> CHR ''_'') (strip s) = s"
proof -
  assume a: "dec_chars s"
  have n: "\<not> is_blank c \<and> c \<noteq> CHR ''_''" if "is_digit 10 c \<or> c \<in> {CHR ''+'', CHR ''-'', CHR ''.'', CHR ''E''}" for c
    using that by (auto simp: is_blank_def is_digit_def digit_val_def Let_def split: if_splits)
  then have b: "\<not> is_blank c \<and> c \<noteq> CHR ''_''" if "c \<in> set s" for c
    using a that by (simp add: dec_chars_def list_all_iff)
  have "dropWhile is_blank t = t" if "set t \<subseteq> set s" for t
    using b that by (cases t) auto
  then have "strip s = s" by (simp add: strip_def)
  then show ?thesis using b by (simp add: filter_id_conv)
qed

lemma takeWhile_digits_append:
  assumes "list_all (is_digit 10) i" "case r of [] \<Rightarrow> True | c # _ \<Rightarrow> \<not> is_digit 10 c"
  shows "takeWhile (is_digit 10) (i @ r) = i" "dropWhile (is_digit 10) (i @ r) = r"
  using assms by (auto simp: list_all_iff takeWhile_append2 dropWhile_append2 split: list.splits)

lemma dec_parse_parts:
  assumes i: "list_all (is_digit 10) i" "i \<noteq> []" and f: "list_all (is_digit 10) f"
    and x: "dec_exp x = Some e" "dec_chars x" "case x of [] \<Rightarrow> True | c # _ \<Rightarrow> c = CHR ''E''"
  shows "dec_parse ((if neg then ''-'' else []) @ i @ (if f = [] then [] else CHR ''.'' # f) @ x) =
    Some (let c = int (num_val 10 (i @ f)) in if neg then - c else c, e - int (length f))"
proof -
  let ?r = "i @ (if f = [] then [] else CHR ''.'' # f) @ x"
  have "dec_chars ((if neg then ''-'' else []) @ ?r)"
    using i f x(2) by (auto simp: dec_chars_def list_all_iff)
  then have 1: "filter (\<lambda>c. c \<noteq> CHR ''_'') (strip ((if neg then ''-'' else []) @ ?r)) = (if neg then ''-'' else []) @ ?r"
    by (rule dec_chars_plain)
  have nd: "\<not> is_digit 10 CHR ''.''" "\<not> is_digit 10 CHR ''E''" "\<not> is_digit 10 CHR ''-''" "\<not> is_digit 10 CHR ''+''"
    by (simp_all add: is_digit_def digit_val_def)
  have 2: "dec_sign ((if neg then ''-'' else []) @ ?r) = (neg, ?r)"
    using i nd by (cases i) (auto simp: dec_sign_def)
  have xs: "case x of [] \<Rightarrow> True | c # _ \<Rightarrow> \<not> is_digit 10 c"
    using x(3) nd by (auto split: list.splits)
  then have 3: "takeWhile (is_digit 10) ?r = i" "dropWhile (is_digit 10) ?r = (if f = [] then [] else CHR ''.'' # f) @ x"
    using nd by (auto intro!: takeWhile_digits_append [OF i(1)])
  have 4: "dec_frac ((if f = [] then [] else CHR ''.'' # f) @ x) = (f, x)"
    using takeWhile_digits_append [OF f xs] x(3) by (auto simp: dec_frac_def split: list.splits)
  show ?thesis
    unfolding dec_parse_def 1 2 Let_def prod.case 3 4 by (simp add: i(2) x(1))
qed

lemma num_val_zeros10: "num_val 10 (replicate k CHR ''0'' @ ds) = num_val 10 ds"
  by (induction k) (simp_all add: num_val_def digit_val_def)

lemma dec_roundtrip: "dec_parse (dec_text (c, e)) = Some (c, e)"
proof -
  define ds where "ds = num_str 10 (nat \<bar>c\<bar>)"
  define l where "l = e + int (length ds)"
  define dp where "dp = (if e \<le> 0 \<and> l > -6 then l else 1)"
  define i where "i = (if dp \<le> 0 then ''0'' else take (nat dp) ds)"
  define f where "f = (if dp \<le> 0 then replicate (nat (- dp)) CHR ''0'' @ ds else drop (nat dp) ds)"
  define ex where "ex = l - dp"
  define x where "x = (if ex = 0 then [] else CHR ''E'' # (if ex < 0 then int_str ex else CHR ''+'' # int_str ex))"
  have t: "dec_text (c, e) = (if c < 0 then ''-'' else []) @ i @ (if f = [] then [] else CHR ''.'' # f) @ x"
    unfolding dec_text_def Let_def prod.case x_def ex_def i_def f_def dp_def l_def ds_def ..
  have ds: "list_all (is_digit 10) ds" "ds \<noteq> []" by (simp_all add: ds_def num_str_digits)
  have z: "is_digit 10 CHR ''0''" by (simp add: is_digit_def digit_val_def)
  have "list_all (is_digit 10) i" "i \<noteq> []" "list_all (is_digit 10) f"
    using ds z by (auto simp: i_def f_def list_all_iff dest: in_set_takeD in_set_dropD)
  moreover have "dec_exp x = Some ex"
    using dec_exp_text [of ex] by (cases "ex = 0") (simp_all add: x_def dec_exp_def)
  moreover have "dec_chars (num_str 10 n)" for n
    using num_str_digits [of 10 n] by (simp add: dec_chars_def list_all_iff)
  then have "dec_chars x" by (auto simp: x_def int_str_def) (simp_all add: dec_chars_def)
  moreover have "case x of [] \<Rightarrow> True | c # _ \<Rightarrow> c = CHR ''E''" by (simp add: x_def)
  ultimately have p: "dec_parse (dec_text (c, e)) =
      Some (let k = int (num_val 10 (i @ f)) in if c < 0 then - k else k, ex - int (length f))"
    unfolding t by (rule dec_parse_parts)
  have v: "num_val 10 (i @ f) = nat \<bar>c\<bar>"
  proof (cases "dp \<le> 0")
    case True
    then have "i @ f = replicate (Suc (nat (- dp))) CHR ''0'' @ ds" by (simp add: i_def f_def)
    then show ?thesis using num_val_zeros10 [of "Suc (nat (- dp))" ds] by (simp only: ds_def num_val_str)
  qed (simp add: i_def f_def ds_def)
  have "ex - int (length f) = e"
  proof (cases "dp \<le> 0")
    case True
    then show ?thesis by (auto simp: ex_def f_def l_def dp_def split: if_splits)
  next
    case False
    have "1 \<le> length ds" using ds(2) by (cases ds) auto
    then have "nat dp \<le> length ds" using False by (auto simp: dp_def l_def split: if_splits)
    then show ?thesis using False by (simp add: ex_def f_def l_def)
  qed
  then show ?thesis using v by (simp add: p Let_def)
qed

end
