(* ===== verification/Signal.thy ===== *)
theory Signal
  imports Json_Text Peer_Addr Turn_Process Tcp_Punch
begin

text \<open>
  \<^verbatim>\<open>node/p2p_defs.py\<close>, \<^verbatim>\<open>node/p2p_protocol.py\<close> and the part of \<^verbatim>\<open>node/p2p_node_extra.py\<close> that sends:
  the messages two nodes exchange over the signal servers, how a node receives one and what it then
  starts, and how it routes its own. Encryption is a parameter.
\<close>

section \<open>Messages\<close>

definition SIG_CON :: int where "SIG_CON = 1"
definition SIG_TCP_PUNCH :: int where "SIG_TCP_PUNCH = 2"
definition SIG_TURN :: int where "SIG_TURN = 3"
definition SIG_GET_ADDR :: int where "SIG_GET_ADDR = 4"
definition SIG_RETURN_ADDR :: int where "SIG_RETURN_ADDR = 5"

definition P2P_DIRECT :: int where "P2P_DIRECT = 1"
definition P2P_REVERSE :: int where "P2P_REVERSE = 2"
definition P2P_PUNCH :: int where "P2P_PUNCH = 3"
definition P2P_RELAY :: int where "P2P_RELAY = 4"

lemmas sig_enums = SIG_CON_def SIG_TCP_PUNCH_def SIG_TURN_def SIG_GET_ADDR_def SIG_RETURN_ADDR_def

text \<open>The address types, and a family as the number it is sent as (any number but 2 is read as IPv6).\<close>

definition JNIC_BIND :: json where "JNIC_BIND = JInt 1"
definition JEXT_BIND :: json where "JEXT_BIND = JInt 2"

definition af_int :: "af \<Rightarrow> int" where
  "af_int af = (if af = IP4 then 2 else 10)"

text \<open>\<open>d[k]\<close> and \<open>d.get(k, default)\<close> on whatever the text held; the conversions \<open>to_n\<close> and \<open>to_s\<close>.\<close>

definition jitem :: "string \<Rightarrow> json \<Rightarrow> json res" where
  "jitem k d = (case d of JObj ms \<Rightarrow> dict_get k ms | _ \<Rightarrow> Err TypeError)"

definition jget :: "string \<Rightarrow> json \<Rightarrow> json \<Rightarrow> json res" where
  "jget k v d = (case d of JObj ms \<Rightarrow> Ok (case map_of ms k of None \<Rightarrow> v | Some w \<Rightarrow> w) | _ \<Rightarrow> Err AttributeError)"

definition jto_n :: "json \<Rightarrow> int res" where
  "jto_n j = (case j of JInt n \<Rightarrow> Ok n | JBool b \<Rightarrow> Ok (of_bool b) | JStr s \<Rightarrow> py_int 10 s | _ \<Rightarrow> Err AttributeError)"

definition jto_s :: "json \<Rightarrow> string res" where
  "jto_s j = (case j of JStr s \<Rightarrow> Ok s | _ \<Rightarrow> Err AttributeError)"

definition load_addr :: "json \<Rightarrow> string \<Rightarrow> int \<Rightarrow> (af \<times> peer_addr) res" where
  "load_addr af addr_buf if_index =
     rbind (parse_peer_addr addr_buf) (\<lambda>addr.
     rbind (jto_n af) (\<lambda>n.
       case addr of
         None \<Rightarrow> Err TypeError
       | Some a \<Rightarrow>
           if if_index \<notin> fst ` set (pa_infos a (i_to_af n)) then Err (PyException ''bad if_i'')
           else Ok (i_to_af n, a)))"

text \<open>Who sends a message.\<close>

record sig_meta =
  mt_ttl :: int
  mt_pipe_id :: string
  mt_src_buf :: string
  mt_src_index :: int
  mt_af :: af
  mt_same_machine :: bool
  mt_addr_types :: json
  mt_src :: peer_addr
  mt_src_info :: if_info

definition Meta :: "json \<Rightarrow> json \<Rightarrow> json \<Rightarrow> json \<Rightarrow> json \<Rightarrow> json \<Rightarrow> sig_meta res" where
  "Meta ttl pipe_id af src_buf src_index addr_types =
     rbind (jto_n ttl) (\<lambda>ttl.
     rbind (jto_s pipe_id) (\<lambda>pipe_id.
     rbind (jto_s src_buf) (\<lambda>src_buf.
     rbind (jto_n src_index) (\<lambda>src_index.
     rbind (load_addr af src_buf src_index) (\<lambda>(af, src).
     rbind (dict_get src_index (pa_infos src af)) (\<lambda>src_info.
       Ok \<lparr>mt_ttl = ttl, mt_pipe_id = pipe_id, mt_src_buf = src_buf, mt_src_index = src_index, mt_af = af,
           mt_same_machine = False, mt_addr_types = addr_types, mt_src = src, mt_src_info = src_info\<rparr>))))))"

definition meta_from_dict :: "json \<Rightarrow> sig_meta res" where
  "meta_from_dict d =
     rbind (jitem ''ttl'' d) (\<lambda>ttl.
     rbind (jitem ''pipe_id'' d) (\<lambda>pipe_id.
     rbind (jget ''af'' (JInt 2) d) (\<lambda>af.
     rbind (jitem ''src_buf'' d) (\<lambda>src_buf.
     rbind (jget ''src_index'' (JInt 0) d) (\<lambda>src_index.
     rbind (jget ''addr_types'' (JArr [JEXT_BIND, JNIC_BIND]) d) (\<lambda>addr_types.
       Meta ttl pipe_id af src_buf src_index addr_types))))))"

definition meta_to_dict :: "sig_meta \<Rightarrow> json" where
  "meta_to_dict m =
     JObj [(''ttl'', JInt (mt_ttl m)), (''pipe_id'', JStr (mt_pipe_id m)), (''af'', JInt (af_int (mt_af m))),
           (''src_buf'', JStr (mt_src_buf m)), (''src_index'', JInt (mt_src_index m)),
           (''addr_types'', mt_addr_types m)]"

text \<open>
  Whom it is for. The constructor parses the destination and then clears the reference to the buffer
  it parsed.
\<close>

record sig_routing =
  ro_dest_buf :: string
  ro_dest_index :: int
  ro_af :: af
  ro_cur_dest_buf :: "string option"
  ro_dest :: peer_addr
  ro_dest_info :: if_info

definition Routing :: "json \<Rightarrow> json \<Rightarrow> json \<Rightarrow> sig_routing res" where
  "Routing af dest_buf dest_index =
     rbind (jto_s dest_buf) (\<lambda>dest_buf.
     rbind (jto_n dest_index) (\<lambda>dest_index.
     rbind (load_addr af dest_buf dest_index) (\<lambda>(af, dest).
     rbind (dict_get dest_index (pa_infos dest af)) (\<lambda>dest_info.
       Ok \<lparr>ro_dest_buf = dest_buf, ro_dest_index = dest_index, ro_af = af, ro_cur_dest_buf = None,
           ro_dest = dest, ro_dest_info = dest_info\<rparr>))))"

definition set_cur_dest :: "string \<Rightarrow> sig_routing \<Rightarrow> sig_routing res" where
  "set_cur_dest cur_dest_buf r =
     rbind (load_addr (JInt (af_int (ro_af r))) cur_dest_buf (ro_dest_index r)) (\<lambda>(af, dest).
     rbind (dict_get (ro_dest_index r) (pa_infos dest af)) (\<lambda>dest_info.
       Ok (r\<lparr>ro_cur_dest_buf := Some cur_dest_buf, ro_af := af, ro_dest := dest, ro_dest_info := dest_info\<rparr>)))"

definition routing_from_dict :: "json \<Rightarrow> sig_routing res" where
  "routing_from_dict d =
     rbind (jget ''af'' (JInt 2) d) (\<lambda>af.
     rbind (jitem ''dest_buf'' d) (\<lambda>dest_buf.
     rbind (jget ''dest_index'' (JInt 0) d) (\<lambda>dest_index.
       Routing af dest_buf dest_index)))"

definition routing_to_dict :: "sig_routing \<Rightarrow> json" where
  "routing_to_dict r =
     JObj [(''af'', JInt (af_int (ro_af r))), (''dest_buf'', JStr (ro_dest_buf r)),
           (''dest_index'', JInt (ro_dest_index r))]"

text \<open>The payload of a punch, of a relay, or of the other messages; numbers in Python's conversions.\<close>

datatype payload = NoPayload | PunchPayload int decimal json | TurnPayload json json json

definition Dec :: "json \<Rightarrow> decimal res" where
  "Dec j =
     (case j of
        JInt n \<Rightarrow> Ok (n, 0)
      | JBool b \<Rightarrow> Ok (of_bool b, 0)
      | JStr s \<Rightarrow> (case dec_parse s of None \<Rightarrow> Err (PyException ''InvalidOperation'') | Some d \<Rightarrow> Ok d)
      | JReal s \<Rightarrow> (case dec_parse s of None \<Rightarrow> Err (PyException ''InvalidOperation'') | Some d \<Rightarrow> Ok d)
      | JArr _ \<Rightarrow> Err ValueError
      | _ \<Rightarrow> Err TypeError)"

definition dec_trunc :: "decimal \<Rightarrow> int" where
  "dec_trunc d = (let (c, e) = d in
     if 0 \<le> e then c * 10 ^ nat e else sgn c * (\<bar>c\<bar> div 10 ^ nat (- e)))"

definition jint :: "json \<Rightarrow> int res" where
  "jint j =
     (case j of
        JInt n \<Rightarrow> Ok n
      | JBool b \<Rightarrow> Ok (of_bool b)
      | JStr s \<Rightarrow> py_int 10 s
      | JReal s \<Rightarrow> (case dec_parse s of None \<Rightarrow> Err ValueError | Some d \<Rightarrow> Ok (dec_trunc d))
      | _ \<Rightarrow> Err TypeError)"

definition punch_payload :: "json \<Rightarrow> payload res" where
  "punch_payload d =
     rbind (jget ''punch_mode'' (JInt TCP_PUNCH_REMOTE) d) (\<lambda>punch_mode.
     rbind (jget ''ntp'' (JInt 0) d) (\<lambda>ntp.
     rbind (jitem ''mappings'' d) (\<lambda>mappings.
     rbind (Dec ntp) (\<lambda>ntp.
     rbind (jint punch_mode) (\<lambda>punch_mode.
       Ok (PunchPayload punch_mode ntp mappings))))))"

definition turn_payload :: "json \<Rightarrow> payload res" where
  "turn_payload d =
     rbind (jitem ''peer_tup'' d) (\<lambda>peer_tup.
     rbind (jitem ''relay_tup'' d) (\<lambda>relay_tup.
     rbind (jitem ''serv_id'' d) (\<lambda>serv_id.
       Ok (TurnPayload peer_tup relay_tup serv_id))))"

definition payload_from_dict :: "int \<Rightarrow> json \<Rightarrow> payload res" where
  "payload_from_dict enum d =
     (if enum = SIG_TCP_PUNCH then punch_payload d else if enum = SIG_TURN then turn_payload d else Ok NoPayload)"

definition payload_to_dict :: "payload \<Rightarrow> json" where
  "payload_to_dict p =
     (case p of
        NoPayload \<Rightarrow> JObj []
      | PunchPayload punch_mode ntp mappings \<Rightarrow>
          JObj [(''punch_mode'', JInt punch_mode), (''ntp'', JStr (dec_text ntp)), (''mappings'', mappings)]
      | TurnPayload peer_tup relay_tup serv_id \<Rightarrow>
          JObj [(''peer_tup'', peer_tup), (''relay_tup'', relay_tup), (''serv_id'', serv_id)])"

text \<open>The key a reply is encrypted with. Assigned as hexadecimal text, it is sent as the hexadecimal of it.\<close>

definition unhexlify :: "bytes \<Rightarrow> bytes res" where
  "unhexlify bs = h_to_b (map (\<lambda>b. char_of (unat b)) bs)"

definition cipher_from_dict :: "json \<Rightarrow> bytes res" where
  "cipher_from_dict d =
     rbind (jget ''vk'' (JStr []) d) (\<lambda>vk. case vk of JStr s \<Rightarrow> unhexlify (to_b s) | _ \<Rightarrow> Err AttributeError)"

definition cipher_to_dict :: "bytes \<Rightarrow> json" where
  "cipher_to_dict vk = JObj [(''vk'', JStr (to_h vk))]"

record sig_msg =
  sg_enum :: int
  sg_meta :: sig_meta
  sg_routing :: sig_routing
  sg_payload :: payload
  sg_cipher :: bytes

definition SigMsg :: "json \<Rightarrow> int \<Rightarrow> sig_msg res" where
  "SigMsg data enum =
     rbind (rbind (jitem ''meta'' data) meta_from_dict) (\<lambda>meta.
     rbind (rbind (jitem ''routing'' data) routing_from_dict) (\<lambda>routing.
     rbind (rbind (jget ''payload'' (JObj []) data) (payload_from_dict enum)) (\<lambda>payload.
     rbind (rbind (jget ''cipher'' (JObj []) data) cipher_from_dict) (\<lambda>cipher.
       Ok \<lparr>sg_enum = enum, sg_meta = meta, sg_routing = routing, sg_payload = payload, sg_cipher = cipher\<rparr>))))"

definition sig_to_dict :: "sig_msg \<Rightarrow> json" where
  "sig_to_dict m =
     JObj [(''meta'', meta_to_dict (sg_meta m)), (''routing'', routing_to_dict (sg_routing m)),
           (''payload'', payload_to_dict (sg_payload m)), (''cipher'', cipher_to_dict (sg_cipher m))]"

definition sig_pack :: "sig_msg \<Rightarrow> bytes" where
  "sig_pack m = word_of_int (sg_enum m) # to_b (dumps (sig_to_dict m))"

definition sig_unpack :: "int \<Rightarrow> bytes \<Rightarrow> sig_msg res" where
  "sig_unpack enum buf = rbind (loads (to_s buf)) (\<lambda>d. SigMsg d enum)"

definition set_cur_addr :: "string \<Rightarrow> sig_msg \<Rightarrow> sig_msg res" where
  "set_cur_addr cur_addr_buf m =
     rbind (set_cur_dest cur_addr_buf (sg_routing m)) (\<lambda>routing.
       Ok (m\<lparr>sg_routing := routing,
             sg_meta := (if pa_machine_id (mt_src (sg_meta m)) = pa_machine_id (ro_dest routing)
                         then (sg_meta m)\<lparr>mt_same_machine := True\<rparr> else sg_meta m)\<rparr>))"

text \<open>The checks a punch message offers for its destination; a mismatch with our own address is only logged.\<close>

definition validate_dest :: "iface \<Rightarrow> af list \<Rightarrow> af \<Rightarrow> int \<Rightarrow> string \<Rightarrow> int \<Rightarrow> unit res" where
  "validate_dest interface supported af punch_mode dest_s payload_mode =
     (if af \<notin> set supported then Err (PyException ''bad af 2 in punch'')
      else rbind (af_from_ip_s dest_s) (\<lambda>dest_af.
           if dest_af \<noteq> af then Err (PyException ''bad af in punch.'')
           else rbind (rbind (iface_route interface af) route_ext_ip) (\<lambda>_.
                rbind (rbind (iface_route interface af) route_nic) (\<lambda>_.
                  if punch_mode \<notin> {1, 2, 3} then Err (PyException ''Invalid punch mode'')
                  else if punch_mode \<noteq> payload_mode then Err (PyException ''bad punch mode.'')
                  else rbind (IPRange (IpStr dest_s) None (Some (int (af_to_cidr af)))) (\<lambda>ipr.
                       if punch_mode = TCP_PUNCH_REMOTE \<and> ipr_is_private ipr
                       then Err (PyException ''is priv in punch remote'')
                       else if punch_mode \<in> {TCP_PUNCH_SELF, TCP_PUNCH_LAN} \<and> ipr_is_public ipr
                       then Err (PyException ''is pub for punch $priv'')
                       else Ok ())))))"

section \<open>The node\<close>

text \<open>
  What a node keeps that signalling uses: \<open>nd_now\<close> is the whole second its corrected clock shows, a
  table of keys by node id, the offsets of its signal servers. Interfaces are known by their index.
\<close>

record p2p_conf =
  cf_addr_families :: "af list"
  cf_addr_types :: json
  cf_return_msg :: bool

record p2p_pipe =
  pp_dest_bytes :: string
  pp_dest :: peer_addr
  pp_same_machine :: bool

record con_task =
  ct_pp :: p2p_pipe
  ct_strategies :: "int list"
  ct_reply :: sig_msg
  ct_conf :: p2p_conf

record sig_node =
  nd_addr :: peer_addr
  nd_addr_bytes :: string
  nd_vk :: bytes
  nd_ifs :: nat
  nd_stun :: "af \<Rightarrow> int list"
  nd_now :: int
  nd_auth :: "(string \<times> bytes) list"
  nd_signal_pipes :: "int list"
  nd_conf :: p2p_conf
  nd_seen :: "(string \<times> rat) list"
  nd_futures :: "(string \<times> sig_msg fut) list"
  nd_queue :: "(sig_msg \<times> bytes option \<times> int) list"
  nd_tasks :: "con_task list"

definition P2P_PIPE_CONF :: p2p_conf where
  "P2P_PIPE_CONF = \<lparr>cf_addr_families = [IP4, IP6], cf_addr_types = JArr [JEXT_BIND, JNIC_BIND], cf_return_msg = False\<rparr>"

definition sig_proto :: "(int \<times> int \<times> int) list" where
  "sig_proto =
     [(SIG_CON, P2P_DIRECT, 5), (SIG_TCP_PUNCH, P2P_PUNCH, 20), (SIG_TURN, P2P_RELAY, 10),
      (SIG_GET_ADDR, 0, 5), (SIG_RETURN_ADDR, 0, 6)]"

text \<open>A pipe to a peer: subscripting an address that did not parse raises.\<close>

definition P2PPipe :: "sig_node \<Rightarrow> string \<Rightarrow> p2p_pipe res" where
  "P2PPipe nd dest_bytes =
     rbind (parse_peer_addr dest_bytes) (\<lambda>dest.
       case dest of
         None \<Rightarrow> Err TypeError
       | Some a \<Rightarrow> Ok \<lparr>pp_dest_bytes = dest_bytes, pp_dest = a,
                       pp_same_machine = (pa_machine_id a = pa_machine_id (nd_addr nd))\<rparr>)"

text \<open>Queue a message with the sender's key on it; a reply is encrypted with the key of what it answers.\<close>

definition sig_route_msg :: "sig_msg \<Rightarrow> sig_msg option \<Rightarrow> int \<Rightarrow> sig_node \<Rightarrow> unit res \<times> sig_node" where
  "sig_route_msg m reply tech nd =
     (case (case reply of None \<Rightarrow> Ok None | Some r \<Rightarrow> rmap Some (unhexlify (sg_cipher r))) of
        Inl e \<Rightarrow> (Err e, nd)
      | Inr vk \<Rightarrow> (Ok (), nd\<lparr>nd_queue := nd_queue nd @ [(m\<lparr>sg_cipher := to_b (to_h (nd_vk nd))\<rparr>, vk, tech)]\<rparr>))"

section \<open>Receiving\<close>

text \<open>The answer to a request for our address: family and interfaces are the defaults, IPv4 and the first.\<close>

definition return_addr :: "sig_node \<Rightarrow> sig_msg \<Rightarrow> sig_msg res" where
  "return_addr nd m =
     SigMsg (JObj
       [(''meta'', JObj [(''ttl'', JInt (nd_now nd + 5)), (''pipe_id'', JStr (mt_pipe_id (sg_meta m))),
                       (''src_buf'', JStr (nd_addr_bytes nd))]),
        (''routing'', JObj [(''dest_buf'', JStr (mt_src_buf (sg_meta m)))])]) SIG_RETURN_ADDR"

definition handle_msg :: "int \<Rightarrow> sig_msg \<Rightarrow> p2p_conf \<Rightarrow> sig_node \<Rightarrow> unit res \<times> sig_node" where
  "handle_msg strategy m conf nd =
     (case P2PPipe nd (mt_src_buf (sg_meta m)) of
        Inl e \<Rightarrow> (Err e, nd)
      | Inr pp \<Rightarrow>
          if sg_enum m = SIG_GET_ADDR then
            (case return_addr nd m of
               Inl e \<Rightarrow> (Err e, nd)
             | Inr reply \<Rightarrow> sig_route_msg reply (Some m) 0 nd)
          else (Ok (), nd\<lparr>nd_tasks := nd_tasks nd @
                 [\<lparr>ct_pp = pp, ct_strategies = [strategy], ct_reply = m, ct_conf = conf\<rparr>]\<rparr>))"

text \<open>\<open>load_if_extra\<close>: the interface and its STUN clients must exist.\<close>

definition load_if_extra :: "sig_node \<Rightarrow> sig_routing \<Rightarrow> unit res" where
  "load_if_extra nd r =
     (if \<not> (ro_dest_index r < int (nd_ifs nd) \<and> - int (nd_ifs nd) \<le> ro_dest_index r) then Err IndexError
      else if ro_dest_index r \<notin> set (nd_stun nd (ro_af r)) then Err KeyError else Ok ())"

definition return_addr_reply :: "sig_msg \<Rightarrow> sig_node \<Rightarrow> unit res \<times> sig_node" where
  "return_addr_reply m nd =
     (let pipe_id = mt_pipe_id (sg_meta m) in
      case map_of (nd_futures nd) pipe_id of
        None \<Rightarrow> (Ok (), nd)
      | Some f \<Rightarrow>
          (case set_result m f of
             Inl e \<Rightarrow> (Err e, nd)
           | Inr f' \<Rightarrow> (Ok (), nd\<lparr>nd_futures := dict_set pipe_id f' (nd_futures nd)\<rparr>)))"

text \<open>A message not seen before: its age, its destination and our interface for it, then what to do.\<close>

definition sig_fresh :: "int \<Rightarrow> sig_msg \<Rightarrow> sig_node \<Rightarrow> unit res \<times> sig_node" where
  "sig_fresh strategy m nd =
     (if nd_now nd \<ge> mt_ttl (sg_meta m) then (Ok (), nd)
      else (case rbind (set_cur_addr (nd_addr_bytes nd) m) (\<lambda>m. rmap (\<lambda>_. m) (load_if_extra nd (sg_routing m))) of
              Inl e \<Rightarrow> (Err e, nd)
            | Inr m \<Rightarrow>
                if sg_enum m = SIG_RETURN_ADDR then return_addr_reply m nd
                else handle_msg strategy m ((nd_conf nd)\<lparr>cf_addr_types := mt_addr_types (sg_meta m)\<rparr>) nd))"

definition mark_seen :: "string \<Rightarrow> rat \<Rightarrow> sig_node \<Rightarrow> sig_node" where
  "mark_seen pipe_id wall nd = nd\<lparr>nd_seen := dict_set pipe_id wall (nd_seen nd)\<rparr>"

definition sig_accept :: "rat \<Rightarrow> int \<Rightarrow> int \<Rightarrow> bytes \<Rightarrow> sig_node \<Rightarrow> unit res \<times> sig_node" where
  "sig_accept wall enum strategy body nd =
     (case sig_unpack enum body of
        Inl e \<Rightarrow> (Err e, nd)
      | Inr m \<Rightarrow>
          (let pipe_id = mt_pipe_id (sg_meta m) in
           if pa_node_id (ro_dest (sg_routing m)) \<noteq> pa_node_id (nd_addr nd) then (Ok (), nd)
           else if pipe_id \<in> fst ` set (nd_seen nd) then (Ok (), nd)
           else sig_fresh strategy m (mark_seen pipe_id wall nd)))"

text \<open>
  The handler of a signal server's messages: \<open>decrypt\<close> is decryption with the node's key. A failed
  decryption leaves the buffer as it came, its flag byte in the place of the message type.
\<close>

definition proto_buf :: "(bytes \<Rightarrow> bytes res) \<Rightarrow> bytes \<Rightarrow> bytes res" where
  "proto_buf decrypt h =
     rbind (unhexlify h) (\<lambda>buf.
     rbind (py_get buf 0) (\<lambda>is_enc.
       Ok (if is_enc \<noteq> 0 then (case decrypt (tl buf) of Inl _ \<Rightarrow> buf | Inr b \<Rightarrow> b) else tl buf)))"

definition proto :: "(bytes \<Rightarrow> bytes res) \<Rightarrow> rat \<Rightarrow> bytes \<Rightarrow> sig_node \<Rightarrow> unit res \<times> sig_node" where
  "proto decrypt wall h nd =
     (case rbind (proto_buf decrypt h) (\<lambda>buf. rmap (\<lambda>b. (uint b, tl buf)) (py_get buf 0)) of
        Inl e \<Rightarrow> (Err e, nd)
      | Inr (enum, body) \<Rightarrow>
          (case map_of sig_proto enum of
             None \<Rightarrow> (Ok (), nd)
           | Some (strategy, _) \<Rightarrow> (Ok (), snd (sig_accept wall enum strategy body nd))))"

text \<open>Under the wrapper every exception is dropped; nothing is ever sent back here.\<close>

definition signal_protocol :: "(bytes \<Rightarrow> bytes res) \<Rightarrow> rat \<Rightarrow> bytes \<Rightarrow> sig_node \<Rightarrow> sig_node" where
  "signal_protocol decrypt wall h nd = snd (proto decrypt wall h nd)"

section \<open>Sending\<close>

definition prioritize_sig_pipe_overlap :: "sig_node \<Rightarrow> int list \<Rightarrow> int list" where
  "prioritize_sig_pipe_overlap nd offsets =
     filter (\<lambda>n. n \<in> set (nd_signal_pipes nd)) offsets @ filter (\<lambda>n. n \<notin> set (nd_signal_pipes nd)) offsets"

definition find_signal_pipe :: "sig_node \<Rightarrow> peer_addr \<Rightarrow> int option" where
  "find_signal_pipe nd a = find (\<lambda>n. n \<in> set (nd_signal_pipes nd)) (pa_signal a)"

text \<open>
  The loop over the servers: an offset that is not loaded is to be loaded, but the call lacks an argument
  and raises. \<open>sent n\<close> says whether the client of server \<open>n\<close> reports success.
\<close>

fun send_loop :: "(int \<Rightarrow> bool) \<Rightarrow> int list \<Rightarrow> nat \<Rightarrow> nat \<Rightarrow> int list \<Rightarrow> int list \<times> unit res" where
  "send_loop sent pipes relay_no count [] = ([], Ok ())"
| "send_loop sent pipes relay_no count (offset # rest) =
     (if offset \<notin> set pipes then ([], Err TypeError)
      else let count = (if sent offset then count + 1 else count) in
           if count \<ge> relay_no then ([offset], Ok ())
           else (let (done', r) = send_loop sent pipes relay_no count rest in (offset # done', r)))"

definition rotated :: "int \<Rightarrow> 'a list \<Rightarrow> 'a list" where
  "rotated m xs = map (\<lambda>i. xs ! nat ((int i + (m - 1)) mod int (length xs))) [0..<length xs]"

definition sig_wire :: "(bytes \<Rightarrow> bytes \<Rightarrow> bytes res) \<Rightarrow> sig_node \<Rightarrow> sig_msg \<Rightarrow> bytes option \<Rightarrow> string res" where
  "sig_wire encrypt nd m vk =
     (case (case map_of (nd_auth nd) (pa_node_id (ro_dest (sg_routing m))) of None \<Rightarrow> vk | Some k \<Rightarrow> Some k) of
        None \<Rightarrow> Ok (to_h (0 # sig_pack m))
      | Some k \<Rightarrow> rmap (\<lambda>c. to_h (1 # c)) (encrypt k (sig_pack m)))"

text \<open>The servers it was published on, with the text and the topic, and whether it raised.\<close>

definition await_peer_con ::
  "(bytes \<Rightarrow> bytes \<Rightarrow> bytes res) \<Rightarrow> (int \<Rightarrow> bool) \<Rightarrow> nat \<Rightarrow> sig_node \<Rightarrow> sig_msg \<times> bytes option \<times> int \<Rightarrow>
   (int \<times> string \<times> string) list \<times> unit res" where
  "await_peer_con encrypt sent relay_no nd q =
     (let (m, vk, tech) = q; dest = ro_dest (sg_routing m) in
      case sig_wire encrypt nd m vk of
        Inl e \<Rightarrow> ([], Err e)
      | Inr buf \<Rightarrow>
          (let offsets = prioritize_sig_pipe_overlap nd (pa_signal dest);
               (pub, r) = send_loop sent (nd_signal_pipes nd) relay_no 0 (rotated tech offsets)
           in (map (\<lambda>n. (n, buf, pa_node_id dest)) pub, r)))"

text \<open>One pass of the dispatcher takes the oldest message of the queue; its exceptions are dropped.\<close>

definition sig_msg_dispatcher ::
  "(bytes \<Rightarrow> bytes \<Rightarrow> bytes res) \<Rightarrow> (int \<Rightarrow> bool) \<Rightarrow> sig_node \<Rightarrow> (int \<times> string \<times> string) list \<times> sig_node" where
  "sig_msg_dispatcher encrypt sent nd =
     (case nd_queue nd of
        [] \<Rightarrow> ([], nd)
      | q # rest \<Rightarrow> (fst (await_peer_con encrypt sent 2 nd q), nd\<lparr>nd_queue := rest\<rparr>))"

section \<open>Reading a message back\<close>

lemma i_to_af_int [simp]: "i_to_af (af_int af) = af"
  by (cases af) (simp_all add: i_to_af_def af_int_def)

lemma jitem_ok: "json_ok d \<Longrightarrow> jitem k d = Inr v \<Longrightarrow> json_ok v"
proof -
  have "members_ok ms \<Longrightarrow> map_of ms k = Some v \<Longrightarrow> json_ok v" for ms
    by (induction ms) (auto split: if_splits)
  then show "json_ok d \<Longrightarrow> jitem k d = Inr v \<Longrightarrow> json_ok v"
    by (auto simp: jitem_def dict_get_def split: json.splits option.splits)
qed

lemma jget_ok: "json_ok d \<Longrightarrow> json_ok w \<Longrightarrow> jget k w d = Inr v \<Longrightarrow> json_ok v"
proof -
  have "members_ok ms \<Longrightarrow> map_of ms k = Some v \<Longrightarrow> json_ok v" for ms
    by (induction ms) (auto split: if_splits)
  then show "json_ok d \<Longrightarrow> json_ok w \<Longrightarrow> jget k w d = Inr v \<Longrightarrow> json_ok v"
    by (auto simp: jget_def split: json.splits option.splits)
qed

lemma load_addr_Ok:
  "load_addr af b i = Inr (f, a) \<longleftrightarrow>
     parse_peer_addr b = Inr (Some a) \<and> i \<in> fst ` set (pa_infos a f) \<and> (\<exists>n. jto_n af = Inr n \<and> f = i_to_af n)"
  by (auto simp: load_addr_def rbind_eq_Ok split: option.splits if_splits)

lemma load_addr_again: "load_addr af b i = Inr (f, a) \<Longrightarrow> load_addr (JInt (af_int f)) b i = Inr (f, a)"
  by (auto simp: load_addr_Ok jto_n_def)

lemma meta_again:
  assumes "meta_from_dict d = Inr m"
  shows "meta_from_dict (meta_to_dict m) = Inr m"
proof -
  obtain ttl pipe_id af src_buf src_index addr_types where m: "Meta ttl pipe_id af src_buf src_index addr_types = Inr m"
    using assms by (auto simp: meta_from_dict_def rbind_eq_Ok)
  then have "load_addr (JInt (af_int (mt_af m))) (mt_src_buf m) (mt_src_index m) = Inr (mt_af m, mt_src m)"
    "dict_get (mt_src_index m) (pa_infos (mt_src m) (mt_af m)) = Inr (mt_src_info m)" "\<not> mt_same_machine m"
    by (auto simp: Meta_def rbind_eq_Ok load_addr_again)
  then show ?thesis
    by (simp add: meta_from_dict_def meta_to_dict_def jitem_def jget_def dict_get_def Meta_def jto_n_def jto_s_def)
qed

lemma routing_again:
  assumes "routing_from_dict d = Inr r"
  shows "routing_from_dict (routing_to_dict r) = Inr r"
proof -
  obtain af dest_buf dest_index where m: "Routing af dest_buf dest_index = Inr r"
    using assms by (auto simp: routing_from_dict_def rbind_eq_Ok)
  then have "load_addr (JInt (af_int (ro_af r))) (ro_dest_buf r) (ro_dest_index r) = Inr (ro_af r, ro_dest r)"
    "dict_get (ro_dest_index r) (pa_infos (ro_dest r) (ro_af r)) = Inr (ro_dest_info r)" "ro_cur_dest_buf r = None"
    by (auto simp: Routing_def rbind_eq_Ok load_addr_again)
  then show ?thesis
    by (simp add: routing_from_dict_def routing_to_dict_def jitem_def jget_def dict_get_def Routing_def jto_n_def jto_s_def)
qed

lemma payload_again:
  assumes "payload_from_dict enum d = Inr p"
  shows "payload_from_dict enum (payload_to_dict p) = Inr p"
  using assms
  by (auto simp: payload_from_dict_def punch_payload_def turn_payload_def payload_to_dict_def rbind_eq_Ok jitem_def jget_def
      dict_get_def Dec_def jint_def dec_roundtrip split: if_splits)

lemma unhexlify_to_h: "unhexlify (to_b (to_h bs)) = Inr (if bs = [] then [0] else bs)"
  using digits_ascii [OF to_h_digits] by (simp add: unhexlify_def map_char_of_to_b h_to_b_to_h)

lemma cipher_again: "vk \<noteq> [] \<Longrightarrow> cipher_from_dict (cipher_to_dict vk) = Inr vk"
  by (simp add: cipher_from_dict_def cipher_to_dict_def jget_def unhexlify_to_h)

lemma SigMsg_parts:
  assumes "SigMsg data enum = Inr m"
  shows "sg_enum m = enum" and "\<exists>d. jitem ''meta'' data = Inr d \<and> meta_from_dict d = Inr (sg_meta m)"
    and "\<exists>d. jitem ''routing'' data = Inr d \<and> routing_from_dict d = Inr (sg_routing m)"
    and "\<exists>d. jget ''payload'' (JObj []) data = Inr d \<and> payload_from_dict enum d = Inr (sg_payload m)"
  using assms by (auto simp: SigMsg_def rbind_eq_Ok)

lemma SigMsg_again:
  assumes "SigMsg data enum = Inr m" and "vk \<noteq> []"
  shows "SigMsg (sig_to_dict (m\<lparr>sg_cipher := vk\<rparr>)) enum = Inr (m\<lparr>sg_cipher := vk\<rparr>)"
  using SigMsg_parts [OF assms(1)] cipher_again [OF assms(2)]
  by (auto simp: SigMsg_def sig_to_dict_def jitem_def jget_def dict_get_def meta_again routing_again payload_again)

lemma payload_json_ok:
  assumes "json_ok d" "payload_from_dict enum d = Inr p"
  shows "json_ok (payload_to_dict p)"
proof -
  note j = jitem_ok [OF assms(1)]
  show ?thesis
    using assms(2) by (auto simp: payload_from_dict_def punch_payload_def turn_payload_def payload_to_dict_def rbind_eq_Ok
        dict_ok_def dest: j split: if_splits)
qed

lemma meta_json_ok:
  assumes "json_ok d" "meta_from_dict d = Inr m"
  shows "json_ok (mt_addr_types m)"
  using assms(2) jget_ok [OF assms(1), of "JArr [JEXT_BIND, JNIC_BIND]" "''addr_types''"]
  by (auto simp: meta_from_dict_def Meta_def rbind_eq_Ok JEXT_BIND_def JNIC_BIND_def)

lemma sig_dict_ok:
  assumes "SigMsg data enum = Inr m" and "json_ok data"
  shows "json_ok (sig_to_dict (m\<lparr>sg_cipher := vk\<rparr>))"
proof -
  obtain d where "jitem ''meta'' data = Inr d" "meta_from_dict d = Inr (sg_meta m)"
    using SigMsg_parts(2) [OF assms(1)] by blast
  then have 1: "json_ok (mt_addr_types (sg_meta m))" using jitem_ok [OF assms(2)] meta_json_ok by blast
  obtain d where d: "jget ''payload'' (JObj []) data = Inr d" "payload_from_dict enum d = Inr (sg_payload m)"
    using SigMsg_parts(4) [OF assms(1)] by blast
  have "json_ok d" using jget_ok [OF assms(2) _ d(1)] by (simp add: dict_ok_def)
  then have 2: "json_ok (payload_to_dict (sg_payload m))" using d(2) by (rule payload_json_ok)
  from 1 2 show ?thesis
    by (simp add: sig_to_dict_def meta_to_dict_def routing_to_dict_def cipher_to_dict_def dict_ok_def)
qed

lemma sig_unpack_pack:
  assumes "SigMsg data enum = Inr m" and "json_ok data" and "vk \<noteq> []"
  shows "sig_unpack enum (tl (sig_pack (m\<lparr>sg_cipher := vk\<rparr>))) = Inr (m\<lparr>sg_cipher := vk\<rparr>)"
  using sig_dict_ok [OF assms(1,2), of vk] SigMsg_again [OF assms(1,3)]
  by (simp add: sig_unpack_def sig_pack_def to_s_to_b dumps_ascii(1) loads_dumps)

section \<open>Over the wire\<close>

lemma proto_buf_flagged:
  "proto_buf decrypt (to_b (to_h (f # buf))) =
     Inr (if f \<noteq> 0 then (case decrypt buf of Inl _ \<Rightarrow> f # buf | Inr b \<Rightarrow> b) else buf)"
  by (simp add: proto_buf_def unhexlify_to_h py_get_def)

lemma proto_buf_wire:
  assumes "sig_wire encrypt a m vk = Inr text" and "vk \<in> {None, Some k}"
    and "map_of (nd_auth a) (pa_node_id (ro_dest (sg_routing m))) \<in> {None, Some k}"
    and "\<And>b c. encrypt k b = Inr c \<Longrightarrow> decrypt c = Inr b"
  shows "proto_buf decrypt (to_b text) = Inr (sig_pack m)"
  using assms by (auto simp: sig_wire_def proto_buf_flagged split: option.splits sum.splits)
    (auto simp: rmap_def proto_buf_flagged split: sum.splits)

lemma uint_enum: "map_of sig_proto enum = Some v \<Longrightarrow> uint (word_of_int enum :: byte) = enum"
  by (auto simp: sig_proto_def sig_enums split: if_splits)

lemma proto_pack:
  assumes "proto_buf decrypt h = Inr (sig_pack m)" and "map_of sig_proto (sg_enum m) = Some (strategy, t)"
  shows "proto decrypt wall h nd = (Inr (), snd (sig_accept wall (sg_enum m) strategy (tl (sig_pack m)) nd))"
  using assms uint_enum [OF assms(2)] by (simp add: proto_def sig_pack_def py_get_def)

text \<open>A message as its receiver sees it: the destination is the receiver's own current address.\<close>

definition as_received :: "sig_node \<Rightarrow> sig_msg \<Rightarrow> sig_msg" where
  "as_received b m =
     m\<lparr>sg_routing := (sg_routing m)\<lparr>ro_cur_dest_buf := Some (nd_addr_bytes b), ro_dest := nd_addr b,
         ro_dest_info := the (map_of (pa_infos (nd_addr b) (ro_af (sg_routing m))) (ro_dest_index (sg_routing m)))\<rparr>,
       sg_meta := (sg_meta m)\<lparr>mt_same_machine :=
         (mt_same_machine (sg_meta m) \<or> pa_machine_id (mt_src (sg_meta m)) = pa_machine_id (nd_addr b))\<rparr>\<rparr>"

text \<open>A node that can take a message: its address reads back, and the interface it asks for is ready.\<close>

definition sig_ready :: "sig_node \<Rightarrow> sig_msg \<Rightarrow> bool" where
  "sig_ready b m \<longleftrightarrow>
     parse_peer_addr (nd_addr_bytes b) = Inr (Some (nd_addr b)) \<and>
     pa_node_id (ro_dest (sg_routing m)) = pa_node_id (nd_addr b) \<and>
     (let r = sg_routing m in
        ro_dest_index r \<in> fst ` set (pa_infos (nd_addr b) (ro_af r)) \<and>
        0 \<le> ro_dest_index r \<and> ro_dest_index r < int (nd_ifs b) \<and> ro_dest_index r \<in> set (nd_stun b (ro_af r))) \<and>
     mt_pipe_id (sg_meta m) \<notin> fst ` set (nd_seen b) \<and> nd_now b < mt_ttl (sg_meta m)"

lemma set_cur_addr_ready:
  assumes "sig_ready b m"
  shows "set_cur_addr (nd_addr_bytes b) m = Inr (as_received b m)" and "load_if_extra b (sg_routing (as_received b m)) = Inr ()"
proof -
  let ?r = "sg_routing m"
  obtain info where i: "map_of (pa_infos (nd_addr b) (ro_af ?r)) (ro_dest_index ?r) = Some info"
    using assms by (auto simp: sig_ready_def Let_def dest: weak_map_of_SomeI)
  have "load_addr (JInt (af_int (ro_af ?r))) (nd_addr_bytes b) (ro_dest_index ?r) = Inr (ro_af ?r, nd_addr b)"
    using assms by (auto simp: load_addr_Ok sig_ready_def jto_n_def Let_def)
  then show "set_cur_addr (nd_addr_bytes b) m = Inr (as_received b m)"
    using i by (simp add: set_cur_addr_def set_cur_dest_def dict_get_def as_received_def)
  show "load_if_extra b (sg_routing (as_received b m)) = Inr ()"
    using assms by (simp add: load_if_extra_def as_received_def sig_ready_def Let_def)
qed

lemma load_if_extra_seen [simp]: "load_if_extra (b\<lparr>nd_seen := s\<rparr>) = load_if_extra b"
  by (simp add: load_if_extra_def fun_eq_iff)

lemma sig_accept_ready:
  assumes "sig_unpack enum body = Inr m" and "sig_ready b m"
  shows "sig_accept wall enum strategy body b =
    (let b' = b\<lparr>nd_seen := dict_set (mt_pipe_id (sg_meta m)) wall (nd_seen b)\<rparr> in
     if sg_enum m = SIG_RETURN_ADDR then return_addr_reply (as_received b m) b'
     else handle_msg strategy (as_received b m) ((nd_conf b)\<lparr>cf_addr_types := mt_addr_types (sg_meta m)\<rparr>) b')"
proof -
  have "sg_enum (as_received b m) = sg_enum m" "mt_addr_types (sg_meta (as_received b m)) = mt_addr_types (sg_meta m)"
    by (simp_all add: as_received_def)
  then show ?thesis
    using assms set_cur_addr_ready [OF assms(2)] unfolding sig_ready_def
    by (simp add: sig_accept_def sig_fresh_def mark_seen_def Let_def rmap_def)
qed

lemma src_parses: "SigMsg data enum = Inr m \<Longrightarrow> parse_peer_addr (mt_src_buf (sg_meta m)) = Inr (Some (mt_src (sg_meta m)))"
  by (auto simp: SigMsg_def meta_from_dict_def Meta_def load_addr_Ok rbind_eq_Ok)

lemma P2PPipe_received:
  assumes "SigMsg data enum = Inr m0"
  shows "\<exists>pp. P2PPipe b (mt_src_buf (sg_meta (as_received b' (m0\<lparr>sg_cipher := vk\<rparr>)))) = Inr pp \<and>
    pp_dest_bytes pp = mt_src_buf (sg_meta m0) \<and> pp_dest pp = mt_src (sg_meta m0)"
  using src_parses [OF assms] by (simp add: P2PPipe_def as_received_def)

lemma P2PPipe_seen [simp]: "P2PPipe (b\<lparr>nd_seen := s\<rparr>) = P2PPipe b"
  by (simp add: P2PPipe_def fun_eq_iff cong: option.case_cong)

section \<open>An example of two nodes\<close>

definition ex_addr_text :: "string \<Rightarrow> string" where
  "ex_addr_text node_id = ''0-[0,0,1.1.1.1,1.1.1.1,8080,3,1,0]-0-'' @ node_id @ ''-m''"

lemma ex_addr:
  assumes "CHR ''-'' \<notin> set node_id"
  shows "\<exists>pa info. parse_peer_addr (ex_addr_text node_id) = Inr (Some pa) \<and> pa_node_id pa = node_id \<and>
    pa_machine_id pa = ''m'' \<and> pa_signal pa = [0] \<and> pa_infos pa IP4 = [(0, info)] \<and> pa_infos pa IP6 = []"
proof -
  obtain r where r: "IPRange (IpStr (ip_exploded (IPv4Address 0x01010101))) None (Some CIDR_WAN) = Inr r"
    using IPRange_wan_exploded [of "IPv4Address 0x01010101"] by auto
  have t: "ip_exploded (IPv4Address 0x01010101) = ''1.1.1.1''" by (simp add: eval_simps)
  have i: "\<exists>info. parse_info ''[0,0,1.1.1.1,1.1.1.1,8080,3,1,0]'' = Some info \<and> ii_if_index info = 0"
    using r unfolding t by (simp add: parse_info_def isnumeric_def is_digit_def digit_val_def num_val_def Let_def)
  have z: "parse_info ''0'' = None" by (simp add: parse_info_def)
  have ps: "parse_signal ''0'' = Inr [0]"
    by (simp add: parse_signal_def in_range_def mqtt_server_no_def py_int_def strip_def is_blank_def is_digit_def digit_val_def
        num_val_def)
  have "split_on CHR ''-'' (ex_addr_text node_id) = [''0'', ''[0,0,1.1.1.1,1.1.1.1,8080,3,1,0]'', ''0'', node_id, ''m'']"
  proof -
    have "CHR ''-'' \<notin> set p" if "p \<in> set [''0'', ''[0,0,1.1.1.1,1.1.1.1,8080,3,1,0]'', ''0'', node_id, ''m'']" for p
      using that assms by auto
    then have "split_on CHR ''-'' (join_with CHR ''-'' [''0'', ''[0,0,1.1.1.1,1.1.1.1,8080,3,1,0]'', ''0'', node_id, ''m'']) =
        [''0'', ''[0,0,1.1.1.1,1.1.1.1,8080,3,1,0]'', ''0'', node_id, ''m'']"
      by (intro split_join) auto
    then show ?thesis by (simp add: ex_addr_text_def)
  qed
  then show ?thesis
    using i z ps by (auto simp: parse_peer_addr_def parse_af_part_def Let_def)
qed

definition ex_node :: "string \<Rightarrow> peer_addr \<Rightarrow> bytes \<Rightarrow> sig_node" where
  "ex_node node_id pa vk =
     \<lparr>nd_addr = pa, nd_addr_bytes = ex_addr_text node_id, nd_vk = vk, nd_ifs = 1, nd_stun = (\<lambda>af. [0]), nd_now = 1000,
      nd_auth = [], nd_signal_pipes = [0], nd_conf = P2P_PIPE_CONF, nd_seen = [], nd_futures = [], nd_queue = [],
      nd_tasks = []\<rparr>"

definition ex_con :: "string \<Rightarrow> string \<Rightarrow> json" where
  "ex_con src dest =
     JObj [(''meta'', JObj [(''ttl'', JInt 1010), (''af'', JInt 2), (''pipe_id'', JStr ''pipe''),
             (''src_buf'', JStr (ex_addr_text src)), (''src_index'', JInt 0), (''addr_types'', JArr [JEXT_BIND])]),
           (''routing'', JObj [(''af'', JInt 2), (''dest_buf'', JStr (ex_addr_text dest)), (''dest_index'', JInt 0)])]"

lemma ex_con_ok: "json_ok (ex_con s d)"
  by (simp add: ex_con_def dict_ok_def JEXT_BIND_def)

lemma ex_con_msg:
  assumes "parse_peer_addr (ex_addr_text s) = Inr (Some pa)" "pa_infos pa IP4 = [(0, ia)]"
    and "parse_peer_addr (ex_addr_text d) = Inr (Some pb)" "pa_infos pb IP4 = [(0, ib)]"
  shows "\<exists>m. SigMsg (ex_con s d) SIG_CON = Inr m \<and> ro_dest (sg_routing m) = pb \<and> ro_dest_index (sg_routing m) = 0 \<and>
    ro_af (sg_routing m) = IP4 \<and> mt_pipe_id (sg_meta m) = ''pipe'' \<and> mt_ttl (sg_meta m) = 1010 \<and>
    mt_src_buf (sg_meta m) = ex_addr_text s \<and> mt_addr_types (sg_meta m) = JArr [JEXT_BIND] \<and> mt_src (sg_meta m) = pa"
proof -
  have "i_to_af 2 = IP4" by (simp add: i_to_af_def)
  then show ?thesis
    using assms by (simp add: SigMsg_def ex_con_def jitem_def jget_def dict_get_def meta_from_dict_def Meta_def jto_n_def jto_s_def
        load_addr_def routing_from_dict_def Routing_def payload_from_dict_def sig_enums cipher_from_dict_def unhexlify_def to_b_def)
qed

section \<open>Properties\<close>

text \<open>C17: a message survives the wire: what the constructor built from some data, with a key put on
  it, is read back from its packed form as the same message, whatever strings, punch time, mappings or
  addresses it carries; and the key, which is sent as the hexadecimal of its hexadecimal text, is the
  one a reply is encrypted with.\<close>

theorem sig_msg_roundtrip:
  assumes "SigMsg data enum = Inr m" and "json_ok data" and "key \<noteq> []" and "0 \<le> enum" and "enum < 256"
    and "m' = m\<lparr>sg_cipher := to_b (to_h key)\<rparr>"
  shows "sig_unpack (uint (hd (sig_pack m'))) (tl (sig_pack m')) = Inr m' \<and> unhexlify (sg_cipher m') = Inr key"
proof
  have "list_all (\<lambda>c. of_char c < (128 :: nat)) (to_h key)" using digits_ascii [OF to_h_digits] by (simp add: ascii_def)
  then have "to_b (to_h key) \<noteq> []" using assms(3) by (cases key) (auto simp: to_b_def to_h_def to_hs_def filter_empty_conv list_all_iff)
  moreover have "uint (word_of_int enum :: byte) = enum"
    using assms(4,5) by (simp add: uint_word_of_int take_bit_eq_mod)
  ultimately show "sig_unpack (uint (hd (sig_pack m'))) (tl (sig_pack m')) = Inr m'"
    using sig_unpack_pack [OF assms(1,2)] SigMsg_parts(1) [OF assms(1)] by (simp add: assms(6) sig_pack_def)
  show "unhexlify (sg_cipher m') = Inr key"
    using assms(3) by (simp add: assms(6) unhexlify_to_h)
qed

theorem sig_msg_roundtrip_witness:
  "\<exists>m. SigMsg (ex_con ''a'' ''b'') SIG_CON = Inr m \<and>
     sig_unpack 1 (tl (sig_pack (m\<lparr>sg_cipher := to_b (to_h [2, 7])\<rparr>))) = Inr (m\<lparr>sg_cipher := to_b (to_h [2, 7])\<rparr>)"
proof -
  obtain pa ia where a: "parse_peer_addr (ex_addr_text ''a'') = Inr (Some pa)" "pa_infos pa IP4 = [(0, ia)]"
    using ex_addr [of "''a''"] by auto
  obtain pb ib where b: "parse_peer_addr (ex_addr_text ''b'') = Inr (Some pb)" "pa_infos pb IP4 = [(0, ib)]"
    using ex_addr [of "''b''"] by auto
  obtain m where m: "SigMsg (ex_con ''a'' ''b'') SIG_CON = Inr m" using ex_con_msg [OF a b] by blast
  have "sg_enum m = 1" using SigMsg_parts(1) [OF m] by (simp add: sig_enums)
  then show ?thesis
    using m sig_msg_roundtrip [OF m ex_con_ok, of "[2, 7]"] by (simp add: sig_enums sig_pack_def)
qed

text \<open>C6: delivery. What one node publishes for a connect, punch or relay message makes the addressee, when
  it is ready for it, start exactly one task: with the technique of that kind of message, towards the
  sender's address, with the address types the sender asked for, and with the message itself, its
  destination replaced by the addressee's current address. Its queue and pending requests are not
  touched. The encryption need only be undone by the key the message was encrypted with.\<close>

theorem signal_delivered:
  assumes "SigMsg data enum = Inr m0" and "json_ok data" and "key \<noteq> []" and "m = m0\<lparr>sg_cipher := to_b (to_h key)\<rparr>"
    and "(enum, strategy) \<in> {(SIG_CON, P2P_DIRECT), (SIG_TCP_PUNCH, P2P_PUNCH), (SIG_TURN, P2P_RELAY)}"
    and "(n, wire, topic) \<in> set (fst (await_peer_con encrypt sent relay_no a (m, vk, tech)))"
    and "vk \<in> {None, Some k}" and "map_of (nd_auth a) (pa_node_id (ro_dest (sg_routing m))) \<in> {None, Some k}"
    and "\<And>b c. encrypt k b = Inr c \<Longrightarrow> decrypt c = Inr b"
    and "sig_ready b m" and "b' = signal_protocol decrypt wall (to_b wire) b"
  shows "topic = pa_node_id (nd_addr b) \<and>
    (\<exists>pp. nd_tasks b' = nd_tasks b @
       [\<lparr>ct_pp = pp, ct_strategies = [strategy], ct_reply = as_received b m,
         ct_conf = (nd_conf b)\<lparr>cf_addr_types := mt_addr_types (sg_meta m)\<rparr>\<rparr>] \<and>
       pp_dest_bytes pp = mt_src_buf (sg_meta m) \<and> pp_dest pp = mt_src (sg_meta m)) \<and>
    nd_queue b' = nd_queue b \<and> nd_futures b' = nd_futures b"
proof -
  have w: "sig_wire encrypt a m vk = Inr wire" and t: "topic = pa_node_id (ro_dest (sg_routing m))"
    using assms(6) by (auto simp: await_peer_con_def Let_def split: sum.splits prod.splits)
  note buf = proto_buf_wire [OF w assms(7,8,9)]
  have cnz: "to_b (to_h key) \<noteq> []" using unhexlify_to_h [of key] assms(3) by (auto simp: unhexlify_def)
  have e: "sg_enum m = enum" using SigMsg_parts(1) [OF assms(1)] by (simp add: assms(4))
  have u: "sig_unpack enum (tl (sig_pack m)) = Inr m"
    unfolding assms(4) by (rule sig_unpack_pack [OF assms(1,2) cnz])
  have s: "\<exists>x. map_of sig_proto (sg_enum m) = Some (strategy, x)" "enum \<noteq> SIG_RETURN_ADDR" "enum \<noteq> SIG_GET_ADDR"
    using assms(5) by (auto simp: e sig_proto_def sig_enums)
  then obtain x where x: "map_of sig_proto (sg_enum m) = Some (strategy, x)" by blast
  obtain pp where pp: "P2PPipe b (mt_src_buf (sg_meta (as_received b m))) = Inr pp"
    "pp_dest_bytes pp = mt_src_buf (sg_meta m0)" "pp_dest pp = mt_src (sg_meta m0)"
    using P2PPipe_received [OF assms(1)] unfolding assms(4) by blast
  have "sg_enum (as_received b m) = enum" by (simp add: as_received_def e)
  then have "b' = b\<lparr>nd_seen := dict_set (mt_pipe_id (sg_meta m)) wall (nd_seen b),
      nd_tasks := nd_tasks b @ [\<lparr>ct_pp = pp, ct_strategies = [strategy], ct_reply = as_received b m,
         ct_conf = (nd_conf b)\<lparr>cf_addr_types := mt_addr_types (sg_meta m)\<rparr>\<rparr>]\<rparr>"
    using proto_pack [OF buf x, where wall = wall and nd = b] sig_accept_ready [OF u assms(10), of wall strategy] s(2,3) pp(1)
    by (simp add: assms(11) signal_protocol_def handle_msg_def e Let_def)
  then show ?thesis
    using pp(2,3) t assms(10) by (auto simp: assms(4) sig_ready_def)
qed

theorem signal_delivered_witness:
  "\<exists>a b m wire topic pp. fst (await_peer_con (\<lambda>k c. Inr (map ((XOR) 90) c)) (\<lambda>n. True) 2 a (m, Some [7], 1)) = [(0, wire, topic)] \<and>
     nd_tasks b = [] \<and> topic = ''b'' \<and>
     nd_tasks (signal_protocol (\<lambda>c. Inr (map ((XOR) 90) c)) 5 (to_b wire) b) =
       [\<lparr>ct_pp = pp, ct_strategies = [P2P_DIRECT], ct_reply = as_received b m,
         ct_conf = P2P_PIPE_CONF\<lparr>cf_addr_types := JArr [JEXT_BIND]\<rparr>\<rparr>] \<and> pp_dest_bytes pp = ex_addr_text ''a''"
proof -
  obtain pa ia where a: "parse_peer_addr (ex_addr_text ''a'') = Inr (Some pa)" "pa_infos pa IP4 = [(0, ia)]"
    using ex_addr [of "''a''"] by auto
  obtain pb ib where b: "parse_peer_addr (ex_addr_text ''b'') = Inr (Some pb)" "pa_infos pb IP4 = [(0, ib)]"
    and pb: "pa_node_id pb = ''b''" "pa_signal pb = [0]"
    using ex_addr [of "''b''"] by auto
  obtain m0 where m: "SigMsg (ex_con ''a'' ''b'') SIG_CON = Inr m0" "ro_dest (sg_routing m0) = pb"
      "ro_dest_index (sg_routing m0) = 0" "ro_af (sg_routing m0) = IP4" "mt_ttl (sg_meta m0) = 1010"
      "mt_src_buf (sg_meta m0) = ex_addr_text ''a''" "mt_addr_types (sg_meta m0) = JArr [JEXT_BIND]"
    using ex_con_msg [OF a b] by blast
  let ?a = "ex_node ''a'' pa [2]" and ?b = "ex_node ''b'' pb [3]" and ?m = "m0\<lparr>sg_cipher := to_b (to_h [2])\<rparr>"
  let ?enc = "\<lambda>k c :: bytes. Inr (map ((XOR) 90) c) :: bytes res"
  obtain wire where t: "fst (await_peer_con ?enc (\<lambda>n. True) 2 ?a (?m, Some [7], 1)) = [(0, wire, ''b'')]"
    using m(2) pb by (simp add: await_peer_con_def sig_wire_def ex_node_def prioritize_sig_pipe_overlap_def rotated_def)
  have r: "sig_ready ?b ?m"
    using m b pb by (simp add: sig_ready_def ex_node_def)
  have "map ((XOR) 90) (map ((XOR) 90) c) = c" for c :: bytes
    by (simp add: o_def flip: xor.assoc)
  then have "\<exists>pp. nd_tasks (signal_protocol (\<lambda>c. Inr (map ((XOR) 90) c)) 5 (to_b wire) ?b) =
       nd_tasks ?b @ [\<lparr>ct_pp = pp, ct_strategies = [P2P_DIRECT], ct_reply = as_received ?b ?m,
         ct_conf = (nd_conf ?b)\<lparr>cf_addr_types := mt_addr_types (sg_meta ?m)\<rparr>\<rparr>] \<and> pp_dest_bytes pp = mt_src_buf (sg_meta ?m)"
    using signal_delivered [OF m(1) ex_con_ok _ refl, of "[2]" P2P_DIRECT 0 wire "''b''" ?enc "\<lambda>n. True" 2 ?a "Some [7]" 1
        "[7]" "\<lambda>c. Inr (map ((XOR) 90) c)" ?b] t r
    by (simp add: ex_node_def) blast
  then obtain pp where "nd_tasks (signal_protocol (\<lambda>c. Inr (map ((XOR) 90) c)) 5 (to_b wire) ?b) =
       [\<lparr>ct_pp = pp, ct_strategies = [P2P_DIRECT], ct_reply = as_received ?b ?m,
         ct_conf = P2P_PIPE_CONF\<lparr>cf_addr_types := JArr [JEXT_BIND]\<rparr>\<rparr>] \<and> pp_dest_bytes pp = ex_addr_text ''a''"
    using m by (auto simp: ex_node_def)
  then show ?thesis using t by (intro exI [of _ ?a] exI [of _ ?b] exI [of _ ?m]) (auto simp: ex_node_def)
qed

text \<open>The mode a sender picks for a destination passes the receiver's checks of the same destination.\<close>

lemma validate_own_mode:
  assumes "get_punch_mode af dest_s same = Inr mode" and "af \<in> set supported" and "af_from_ip_s dest_s = Inr af"
    and "rbind (iface_route i af) route_ext_ip = Inr e" and "rbind (iface_route i af) route_nic = Inr n"
  shows "validate_dest i supported af mode dest_s mode = Inr ()"
proof -
  obtain r where r: "IPRange (IpStr dest_s) None (Some (int (af_to_cidr af))) = Inr r"
    "mode = (if ipr_is_public r then TCP_PUNCH_REMOTE else if same then TCP_PUNCH_SELF else TCP_PUNCH_LAN)"
    using assms(1) by (auto simp: get_punch_mode_def rbind_eq_Ok)
  have "ipr_is_private r \<longleftrightarrow> \<not> ipr_is_public r" using IPRange_wf [OF r(1)] by (simp add: cidr_arg_ok_def ipr_wf_def)
  then show ?thesis
    using assms r by (simp add: validate_dest_def TCP_PUNCH_REMOTE_def TCP_PUNCH_SELF_def TCP_PUNCH_LAN_def)
qed

section \<open>Runs of a node\<close>

text \<open>
  Messages from the servers, the clock, messages queued by the node itself and the dispatcher, in any order. A run
  records what was delivered, each time with the clock of the node.
\<close>

type_synonym delivery = "int \<times> bytes"

inductive sig_reach :: "(bytes \<Rightarrow> bytes res) \<Rightarrow> sig_node \<Rightarrow> delivery list \<Rightarrow> sig_node \<Rightarrow> bool" for decrypt nd0 where
  sig_start: "sig_reach decrypt nd0 [] nd0"
| sig_recv: "sig_reach decrypt nd0 ds nd \<Longrightarrow> sig_reach decrypt nd0 (ds @ [(nd_now nd, h)]) (signal_protocol decrypt wall h nd)"
| sig_tick: "sig_reach decrypt nd0 ds nd \<Longrightarrow> sig_reach decrypt nd0 ds (nd\<lparr>nd_now := t\<rparr>)"
| sig_route: "sig_reach decrypt nd0 ds nd \<Longrightarrow> sig_reach decrypt nd0 ds (snd (sig_route_msg m reply tech nd))"
| sig_dispatch: "sig_reach decrypt nd0 ds nd \<Longrightarrow> sig_reach decrypt nd0 ds (snd (sig_msg_dispatcher encrypt sent nd))"

text \<open>The message in a delivery as its sender wrote it, with the technique of its kind.\<close>

definition sig_read :: "(bytes \<Rightarrow> bytes res) \<Rightarrow> bytes \<Rightarrow> (int \<times> sig_msg) option" where
  "sig_read decrypt h =
     (case rbind (proto_buf decrypt h) (\<lambda>buf. rmap (\<lambda>b. (uint b, tl buf)) (py_get buf 0)) of
        Inl _ \<Rightarrow> None
      | Inr (enum, body) \<Rightarrow>
          (case (map_of sig_proto enum, sig_unpack enum body) of
             (Some (strategy, _), Inr m) \<Rightarrow> Some (strategy, m)
           | _ \<Rightarrow> None))"

definition task_id :: "con_task \<Rightarrow> string" where
  "task_id t = mt_pipe_id (sg_meta (ct_reply t))"

definition task_ok :: "sig_node \<Rightarrow> con_task \<Rightarrow> bool" where
  "task_ok nd t \<longleftrightarrow>
     (let m = ct_reply t; r = sg_routing m in
      ct_strategies t \<in> {[P2P_DIRECT], [P2P_PUNCH], [P2P_RELAY]} \<and>
      parse_peer_addr (nd_addr_bytes nd) = Inr (Some (ro_dest r)) \<and>
      ro_dest_index r \<in> set (nd_stun nd (ro_af r)) \<and>
      pp_dest_bytes (ct_pp t) = mt_src_buf (sg_meta m) \<and>
      cf_addr_types (ct_conf t) = mt_addr_types (sg_meta m))"

text \<open>
  The delivery a task goes back to: its message names this node, as its sender wrote it, as the destination, was not
  too old when it came, and carries the pipe id, the technique, the sender and the address types of the task.
\<close>

definition asked_by :: "(bytes \<Rightarrow> bytes res) \<Rightarrow> sig_node \<Rightarrow> con_task \<Rightarrow> delivery \<Rightarrow> bool" where
  "asked_by decrypt nd t d \<longleftrightarrow>
     (case sig_read decrypt (snd d) of
        None \<Rightarrow> False
      | Some (strategy, m) \<Rightarrow>
          pa_node_id (ro_dest (sg_routing m)) = pa_node_id (nd_addr nd) \<and> fst d < mt_ttl (sg_meta m) \<and>
          sg_enum m \<notin> {SIG_GET_ADDR, SIG_RETURN_ADDR} \<and> ct_strategies t = [strategy] \<and>
          task_id t = mt_pipe_id (sg_meta m) \<and> pp_dest_bytes (ct_pp t) = mt_src_buf (sg_meta m) \<and>
          cf_addr_types (ct_conf t) = mt_addr_types (sg_meta m))"

definition tasks_inv :: "sig_node \<Rightarrow> bool" where
  "tasks_inv nd \<longleftrightarrow>
     distinct (map task_id (nd_tasks nd)) \<and>
     task_id ` set (nd_tasks nd) \<subseteq> fst ` set (nd_seen nd) \<and>
     (\<forall>t \<in> set (nd_tasks nd). task_ok nd t)"

definition sig_same :: "sig_node \<Rightarrow> sig_node \<Rightarrow> bool" where
  "sig_same a b \<longleftrightarrow> nd_addr_bytes b = nd_addr_bytes a \<and> nd_stun b = nd_stun a \<and> nd_addr b = nd_addr a \<and> nd_ifs b = nd_ifs a \<and>
     nd_conf b = nd_conf a"

lemma task_ok_same: "sig_same a b \<Longrightarrow> task_ok b = task_ok a"
  by (simp add: sig_same_def task_ok_def fun_eq_iff)

lemma sig_route_msg_keeps:
  "nd_tasks (snd (sig_route_msg m reply tech nd)) = nd_tasks nd" "nd_seen (snd (sig_route_msg m reply tech nd)) = nd_seen nd"
  "sig_same nd (snd (sig_route_msg m reply tech nd))"
  by (auto simp: sig_route_msg_def sig_same_def split: sum.splits)

lemma set_cur_addr_Ok:
  assumes "set_cur_addr buf m = Inr m'"
  shows "mt_pipe_id (sg_meta m') = mt_pipe_id (sg_meta m) \<and> sg_enum m' = sg_enum m \<and>
    mt_src_buf (sg_meta m') = mt_src_buf (sg_meta m) \<and> mt_addr_types (sg_meta m') = mt_addr_types (sg_meta m) \<and>
    parse_peer_addr buf = Inr (Some (ro_dest (sg_routing m')))"
  using assms by (auto simp: set_cur_addr_def set_cur_dest_def rbind_eq_Ok load_addr_Ok split: if_splits)

lemma handle_msg_tasks:
  "nd_seen (snd (handle_msg strategy m conf nd)) = nd_seen nd \<and> sig_same nd (snd (handle_msg strategy m conf nd)) \<and>
   (nd_tasks (snd (handle_msg strategy m conf nd)) = nd_tasks nd \<or>
    (\<exists>pp. nd_tasks (snd (handle_msg strategy m conf nd)) =
        nd_tasks nd @ [\<lparr>ct_pp = pp, ct_strategies = [strategy], ct_reply = m, ct_conf = conf\<rparr>] \<and>
      pp_dest_bytes pp = mt_src_buf (sg_meta m)) \<and> sg_enum m \<noteq> SIG_GET_ADDR)"
  using sig_route_msg_keeps
  by (auto simp: handle_msg_def P2PPipe_def rbind_eq_Ok sig_same_def split: sum.splits option.splits)

lemma return_addr_keeps:
  "nd_seen (snd (return_addr_reply m nd)) = nd_seen nd \<and> sig_same nd (snd (return_addr_reply m nd)) \<and>
   nd_tasks (snd (return_addr_reply m nd)) = nd_tasks nd"
  by (auto simp: return_addr_reply_def sig_same_def Let_def split: option.splits sum.splits)

lemma mark_seen_inv:
  assumes "tasks_inv nd"
  shows "tasks_inv (mark_seen p wall nd)" and "sig_same nd (mark_seen p wall nd)" and "p \<in> fst ` set (nd_seen (mark_seen p wall nd))"
proof -
  have keys: "fst ` set (dict_set p wall d) = insert p (fst ` set d)" for d
  proof -
    have "set (map fst (dict_set p wall d)) = insert p (set (map fst d))" unfolding dict_set_keys by auto
    then show ?thesis by simp
  qed
  show s: "sig_same nd (mark_seen p wall nd)" by (simp add: sig_same_def mark_seen_def)
  show "tasks_inv (mark_seen p wall nd)"
    using assms task_ok_same [OF s] by (auto simp: tasks_inv_def mark_seen_def keys)
  show "p \<in> fst ` set (nd_seen (mark_seen p wall nd))" by (simp add: mark_seen_def keys)
qed

lemma sig_fresh_inv:
  assumes inv: "tasks_inv nd" and s: "map_of sig_proto (sg_enum m) = Some (strategy, x)"
    and p: "mt_pipe_id (sg_meta m) \<in> fst ` set (nd_seen nd)" "mt_pipe_id (sg_meta m) \<notin> task_id ` set (nd_tasks nd)"
  shows "tasks_inv (snd (sig_fresh strategy m nd)) \<and> sig_same nd (snd (sig_fresh strategy m nd))"
proof -
  let ?r = "snd (sig_fresh strategy m nd)"
  consider (keep) "?r = nd" | (act) m' where "set_cur_addr (nd_addr_bytes nd) m = Inr m'" "load_if_extra nd (sg_routing m') = Inr ()"
    "?r = snd (if sg_enum m' = SIG_RETURN_ADDR then return_addr_reply m' nd
              else handle_msg strategy m' ((nd_conf nd)\<lparr>cf_addr_types := mt_addr_types (sg_meta m')\<rparr>) nd)"
  proof (cases "rbind (set_cur_addr (nd_addr_bytes nd) m) (\<lambda>m. rmap (\<lambda>_. m) (load_if_extra nd (sg_routing m)))")
    case (Inl e)
    then show ?thesis using keep by (simp add: sig_fresh_def)
  next
    case (Inr m')
    then obtain n where n: "set_cur_addr (nd_addr_bytes nd) m = Inr n" "rmap (\<lambda>_. n) (load_if_extra nd (sg_routing n)) = Inr m'"
      by (auto simp: rbind_eq_Ok)
    then have "set_cur_addr (nd_addr_bytes nd) m = Inr m'" "load_if_extra nd (sg_routing m') = Inr ()"
      by (cases "load_if_extra nd (sg_routing n)"; simp)+
    then show ?thesis using keep act Inr by (cases "nd_now nd \<ge> mt_ttl (sg_meta m)") (auto simp: sig_fresh_def)
  qed
  then show ?thesis
  proof cases
    case keep
    then show ?thesis using inv by (simp add: sig_same_def)
  next
    case (act m')
    note c = set_cur_addr_Ok [OF act(1)]
    let ?conf = "(nd_conf nd)\<lparr>cf_addr_types := mt_addr_types (sg_meta m')\<rparr>"
    have k: "nd_seen ?r = nd_seen nd" "sig_same nd ?r"
      unfolding act(3) using return_addr_keeps [of m' nd] handle_msg_tasks [of strategy m' ?conf nd] by simp_all
    show ?thesis
    proof (cases "nd_tasks ?r = nd_tasks nd")
      case True
      then show ?thesis using inv k task_ok_same [OF k(2)] by (simp add: tasks_inv_def)
    next
      case False
      then have e: "sg_enum m' \<noteq> SIG_RETURN_ADDR" using return_addr_keeps [of m' nd] act(3) by auto
      then have rh: "?r = snd (handle_msg strategy m' ?conf nd)" using act(3) by simp
      then obtain pp where t: "nd_tasks ?r = nd_tasks nd @ [\<lparr>ct_pp = pp, ct_strategies = [strategy], ct_reply = m', ct_conf = ?conf\<rparr>]"
        "pp_dest_bytes pp = mt_src_buf (sg_meta m')" "sg_enum m' \<noteq> SIG_GET_ADDR"
        using False handle_msg_tasks [of strategy m' ?conf nd] by auto
      have "sg_enum m' = sg_enum m" using c by simp
      then have st: "strategy \<in> {P2P_DIRECT, P2P_PUNCH, P2P_RELAY}"
        using s t(3) e by (auto simp: sig_proto_def split: if_splits)
      have "ro_dest_index (sg_routing m') \<in> set (nd_stun nd (ro_af (sg_routing m')))"
        using act(2) by (auto simp: load_if_extra_def split: if_splits)
      then have "task_ok nd \<lparr>ct_pp = pp, ct_strategies = [strategy], ct_reply = m', ct_conf = ?conf\<rparr>"
        using st t(2) c by (auto simp: task_ok_def Let_def)
      then show ?thesis
        using inv p t(1) c k task_ok_same [OF k(2)] by (auto simp: tasks_inv_def task_id_def)
    qed
  qed
qed

lemma sig_fresh_asked:
  assumes "t \<in> set (nd_tasks (snd (sig_fresh strategy m nd)))" and "t \<notin> set (nd_tasks nd)"
  shows "nd_now nd < mt_ttl (sg_meta m) \<and> sg_enum m \<notin> {SIG_GET_ADDR, SIG_RETURN_ADDR} \<and> ct_strategies t = [strategy] \<and>
    task_id t = mt_pipe_id (sg_meta m) \<and> pp_dest_bytes (ct_pp t) = mt_src_buf (sg_meta m) \<and>
    cf_addr_types (ct_conf t) = mt_addr_types (sg_meta m)"
proof -
  have now: "nd_now nd < mt_ttl (sg_meta m)" using assms by (auto simp: sig_fresh_def split: if_splits)
  obtain m' where m': "rbind (set_cur_addr (nd_addr_bytes nd) m) (\<lambda>m. rmap (\<lambda>_. m) (load_if_extra nd (sg_routing m))) = Inr m'"
    using assms now by (cases "rbind (set_cur_addr (nd_addr_bytes nd) m) (\<lambda>m. rmap (\<lambda>_. m) (load_if_extra nd (sg_routing m)))")
      (auto simp: sig_fresh_def)
  then have "set_cur_addr (nd_addr_bytes nd) m = Inr m'"
    by (cases "set_cur_addr (nd_addr_bytes nd) m") (auto simp: rmap_def split: sum.splits)
  note c = set_cur_addr_Ok [OF this]
  let ?conf = "(nd_conf nd)\<lparr>cf_addr_types := mt_addr_types (sg_meta m')\<rparr>"
  have e: "sg_enum m' \<noteq> SIG_RETURN_ADDR"
    using assms now m' return_addr_keeps [of m' nd] by (auto simp: sig_fresh_def)
  then have "t \<in> set (nd_tasks (snd (handle_msg strategy m' ?conf nd)))"
    using assms(1) now m' by (simp add: sig_fresh_def)
  then obtain pp where "t = \<lparr>ct_pp = pp, ct_strategies = [strategy], ct_reply = m', ct_conf = ?conf\<rparr>"
      "pp_dest_bytes pp = mt_src_buf (sg_meta m')" "sg_enum m' \<noteq> SIG_GET_ADDR"
    using handle_msg_tasks [of strategy m' ?conf nd] assms(2) by auto
  then show ?thesis using now e c by (simp add: task_id_def)
qed

lemma signal_protocol_asked:
  assumes "t \<in> set (nd_tasks (signal_protocol decrypt wall h nd))" and "t \<notin> set (nd_tasks nd)"
  shows "asked_by decrypt nd t (nd_now nd, h)"
proof -
  let ?r = "rbind (proto_buf decrypt h) (\<lambda>buf. rmap (\<lambda>b. (uint b, tl buf)) (py_get buf 0))"
  obtain enum body where eb: "?r = Inr (enum, body)"
    using assms by (cases ?r) (auto simp: signal_protocol_def proto_def)
  obtain strategy x where s: "map_of sig_proto enum = Some (strategy, x)"
    using assms eb by (cases "map_of sig_proto enum") (auto simp: signal_protocol_def proto_def)
  have t: "t \<in> set (nd_tasks (snd (sig_accept wall enum strategy body nd)))"
    using assms(1) eb s by (simp add: signal_protocol_def proto_def)
  obtain m where m: "sig_unpack enum body = Inr m"
    using t assms(2) by (cases "sig_unpack enum body") (auto simp: sig_accept_def)
  have own: "pa_node_id (ro_dest (sg_routing m)) = pa_node_id (nd_addr nd)"
    using t assms(2) m by (auto simp: sig_accept_def Let_def split: if_splits)
  have "t \<in> set (nd_tasks (snd (sig_fresh strategy m (mark_seen (mt_pipe_id (sg_meta m)) wall nd))))"
    using t assms(2) m own by (auto simp: sig_accept_def Let_def split: if_splits)
  then show ?thesis
    using sig_fresh_asked [of t strategy m "mark_seen (mt_pipe_id (sg_meta m)) wall nd"] assms(2) eb s m own
    by (simp add: asked_by_def sig_read_def mark_seen_def)
qed

lemma sig_accept_inv:
  assumes inv: "tasks_inv nd" and s: "map_of sig_proto enum = Some (strategy, x)"
  shows "tasks_inv (snd (sig_accept wall enum strategy body nd)) \<and> sig_same nd (snd (sig_accept wall enum strategy body nd))"
proof (cases "sig_unpack enum body")
  case (Inr m)
  let ?p = "mt_pipe_id (sg_meta m)"
  have e: "sg_enum m = enum" using Inr by (auto simp: sig_unpack_def rbind_eq_Ok dest: SigMsg_parts(1))
  show ?thesis
  proof (cases "pa_node_id (ro_dest (sg_routing m)) \<noteq> pa_node_id (nd_addr nd) \<or> ?p \<in> fst ` set (nd_seen nd)")
    case True
    then have "snd (sig_accept wall enum strategy body nd) = nd" by (auto simp: sig_accept_def Inr Let_def)
    then show ?thesis using inv by (simp add: sig_same_def)
  next
    case False
    then have r: "sig_accept wall enum strategy body nd = sig_fresh strategy m (mark_seen ?p wall nd)"
      by (auto simp: sig_accept_def Inr Let_def)
    have "?p \<notin> task_id ` set (nd_tasks nd)" using False inv by (auto simp: tasks_inv_def)
    then have "?p \<notin> task_id ` set (nd_tasks (mark_seen ?p wall nd))" by (simp add: mark_seen_def)
    then have "tasks_inv (snd (sig_fresh strategy m (mark_seen ?p wall nd))) \<and>
        sig_same (mark_seen ?p wall nd) (snd (sig_fresh strategy m (mark_seen ?p wall nd)))"
      using sig_fresh_inv [OF mark_seen_inv(1) [OF inv]] mark_seen_inv(3) [OF inv] s e by blast
    then show ?thesis using mark_seen_inv(2) [OF inv, of ?p wall] by (auto simp: r sig_same_def)
  qed
qed (use inv in \<open>simp add: sig_accept_def sig_same_def\<close>)

lemma signal_protocol_inv:
  assumes "tasks_inv nd"
  shows "tasks_inv (signal_protocol decrypt wall h nd) \<and> sig_same nd (signal_protocol decrypt wall h nd)"
proof (cases "rbind (proto_buf decrypt h) (\<lambda>buf. rmap (\<lambda>b. (uint b, tl buf)) (py_get buf 0))")
  case (Inl e)
  then show ?thesis using assms by (simp add: signal_protocol_def proto_def sig_same_def)
next
  case (Inr p)
  obtain enum body where p: "p = (enum, body)" by (cases p)
  show ?thesis
  proof (cases "map_of sig_proto enum")
    case None
    then show ?thesis using assms Inr p by (simp add: signal_protocol_def proto_def sig_same_def)
  next
    case (Some v)
    obtain strategy x where "v = (strategy, x)" by (cases v)
    then show ?thesis using sig_accept_inv [OF assms, of enum strategy x wall body] Some Inr p
      by (simp add: signal_protocol_def proto_def)
  qed
qed

lemma sig_same_trans: "sig_same a b \<Longrightarrow> sig_same b c \<Longrightarrow> sig_same a c"
  by (simp add: sig_same_def)

lemma tasks_inv_cong:
  "sig_same a b \<Longrightarrow> nd_tasks b = nd_tasks a \<Longrightarrow> nd_seen b = nd_seen a \<Longrightarrow> tasks_inv b = tasks_inv a"
  using task_ok_same [of a b] by (simp add: tasks_inv_def)

lemma asked_by_same:
  assumes "sig_same a b"
  shows "asked_by decrypt b = asked_by decrypt a"
proof -
  have "nd_addr b = nd_addr a" using assms by (simp add: sig_same_def)
  then show ?thesis unfolding asked_by_def [abs_def] by (simp only:)
qed

definition all_asked :: "(bytes \<Rightarrow> bytes res) \<Rightarrow> sig_node \<Rightarrow> delivery list \<Rightarrow> sig_node \<Rightarrow> bool" where
  "all_asked decrypt nd0 ds nd \<longleftrightarrow> (\<forall>t \<in> set (nd_tasks nd). t \<in> set (nd_tasks nd0) \<or> (\<exists>d \<in> set ds. asked_by decrypt nd0 t d))"

lemma sig_reach_inv:
  "sig_reach decrypt nd0 ds nd \<Longrightarrow> tasks_inv nd0 \<Longrightarrow> tasks_inv nd \<and> sig_same nd0 nd \<and> all_asked decrypt nd0 ds nd"
proof (induction rule: sig_reach.induct)
  case sig_start
  then show ?case by (simp add: sig_same_def all_asked_def)
next
  case (sig_recv ds nd h wall)
  then have i: "tasks_inv nd" "sig_same nd0 nd" "all_asked decrypt nd0 ds nd" by simp_all
  have "all_asked decrypt nd0 (ds @ [(nd_now nd, h)]) (signal_protocol decrypt wall h nd)"
    using i(3) signal_protocol_asked [where decrypt = decrypt and wall = wall and h = h and nd = nd] asked_by_same [OF i(2)]
    by (auto simp: all_asked_def)
  then show ?case using i signal_protocol_inv [OF i(1), of decrypt wall h] sig_same_trans by blast
next
  case (sig_tick ds nd t)
  have "sig_same nd (nd\<lparr>nd_now := t\<rparr>)" by (simp add: sig_same_def)
  then show ?case
    using sig_tick tasks_inv_cong [of nd "nd\<lparr>nd_now := t\<rparr>"] sig_same_trans [of nd0 nd] by (simp add: all_asked_def)
next
  case (sig_route ds nd m reply tech)
  note k = sig_route_msg_keeps [where m = m and reply = reply and tech = tech and nd = nd]
  show ?case using sig_route tasks_inv_cong [OF k(3,1,2)] sig_same_trans [OF _ k(3)] k(1) by (simp add: all_asked_def)
next
  case (sig_dispatch ds nd encrypt sent)
  let ?n = "snd (sig_msg_dispatcher encrypt sent nd)"
  have k: "sig_same nd ?n" "nd_tasks ?n = nd_tasks nd" "nd_seen ?n = nd_seen nd"
    by (simp_all add: sig_msg_dispatcher_def sig_same_def split: list.splits)
  show ?case using sig_dispatch tasks_inv_cong [OF k] sig_same_trans [OF _ k(1)] k(2) by (simp add: all_asked_def)
qed

lemma repeated_delivery:
  assumes "SigMsg data SIG_CON = Inr m0" and "json_ok data" and "key \<noteq> []" and "m = m0\<lparr>sg_cipher := key\<rparr>" and "sig_ready b m"
  shows "\<exists>t. nd_tasks (signal_protocol decrypt w2 (to_b (to_h (0 # sig_pack m)))
      (signal_protocol decrypt w1 (to_b (to_h (0 # sig_pack m))) b)) = nd_tasks b @ [t]"
proof -
  let ?h = "to_b (to_h (0 # sig_pack m))"
  have buf: "proto_buf decrypt ?h = Inr (sig_pack m)" by (simp add: proto_buf_flagged)
  have e: "sg_enum m = SIG_CON" using SigMsg_parts(1) [OF assms(1)] by (simp add: assms(4))
  have u: "sig_unpack SIG_CON (tl (sig_pack m)) = Inr m" unfolding assms(4) by (rule sig_unpack_pack [OF assms(1,2,3)])
  have x: "map_of sig_proto (sg_enum m) = Some (P2P_DIRECT, 5)" by (simp add: e sig_proto_def)
  obtain pp where pp: "P2PPipe b (mt_src_buf (sg_meta (as_received b m))) = Inr pp"
    using P2PPipe_received [OF assms(1)] unfolding assms(4) by blast
  define b1 where "b1 = signal_protocol decrypt w1 ?h b"
  have "sg_enum (as_received b m) = SIG_CON" by (simp add: as_received_def e)
  then have b1: "b1 = b\<lparr>nd_seen := dict_set (mt_pipe_id (sg_meta m)) w1 (nd_seen b),
      nd_tasks := nd_tasks b @ [\<lparr>ct_pp = pp, ct_strategies = [P2P_DIRECT], ct_reply = as_received b m,
         ct_conf = (nd_conf b)\<lparr>cf_addr_types := mt_addr_types (sg_meta m)\<rparr>\<rparr>]\<rparr>"
    using proto_pack [OF buf x, where wall = w1 and nd = b] sig_accept_ready [OF u assms(5), of w1 P2P_DIRECT] pp
    by (simp add: b1_def signal_protocol_def handle_msg_def e Let_def) (simp add: sig_enums)
  have "mt_pipe_id (sg_meta m) \<in> fst ` set (nd_seen b1)"
    using dict_set_keys [of "mt_pipe_id (sg_meta m)" w1 "nd_seen b"] by (simp add: b1) (metis image_set in_set_conv_decomp list.set_map)
  then have "sig_accept w2 SIG_CON P2P_DIRECT (tl (sig_pack m)) b1 = (Inr (), b1)"
    by (simp add: sig_accept_def u Let_def)
  then have "signal_protocol decrypt w2 ?h b1 = b1"
    using proto_pack [OF buf x, where wall = w2 and nd = b1] by (simp add: signal_protocol_def e)
  then show ?thesis by (simp add: b1_def [symmetric]) (simp add: b1)
qed

text \<open>C1: a node starts at most one connection per request. Whatever the signal servers deliver, in any
  order and with any repetition, however its clock is set and whatever it sends itself in between, no two
  of its connect tasks have the same pipe id; and each goes back to a delivered message that named this node as its
  destination and was not too old when it came: it has the pipe id of that message, uses the one technique of its kind,
  goes to the address of its sender, and is for an interface with STUN clients.\<close>

theorem signal_acted_once:
  assumes "sig_reach decrypt nd0 ds nd" and "nd_tasks nd0 = []"
  shows "distinct (map task_id (nd_tasks nd)) \<and>
    (\<forall>t \<in> set (nd_tasks nd). task_ok nd0 t \<and> (\<exists>d \<in> set ds. asked_by decrypt nd0 t d))"
proof -
  have i: "tasks_inv nd" "sig_same nd0 nd" "all_asked decrypt nd0 ds nd"
    using sig_reach_inv [OF assms(1)] assms(2) by (simp_all add: tasks_inv_def)
  then show ?thesis using assms(2) task_ok_same [OF i(2)] by (auto simp: tasks_inv_def all_asked_def)
qed

theorem signal_acted_once_witness:
  "\<exists>nd0 h. nd_tasks nd0 = [] \<and>
     (let nd = signal_protocol (\<lambda>c. Err ValueError) 6 h (signal_protocol (\<lambda>c. Err ValueError) 5 h nd0)
      in length (nd_tasks nd) = 1 \<and> task_ok nd0 (hd (nd_tasks nd)) \<and>
         (\<exists>d. snd d = h \<and> asked_by (\<lambda>c. Err ValueError) nd0 (hd (nd_tasks nd)) d))"
proof -
  obtain pa ia where a: "parse_peer_addr (ex_addr_text ''a'') = Inr (Some pa)" "pa_infos pa IP4 = [(0, ia)]"
    using ex_addr [of "''a''"] by auto
  obtain pb ib where b: "parse_peer_addr (ex_addr_text ''b'') = Inr (Some pb)" "pa_infos pb IP4 = [(0, ib)]"
    using ex_addr [of "''b''"] by auto
  obtain m where m: "SigMsg (ex_con ''a'' ''b'') SIG_CON = Inr m" "ro_dest (sg_routing m) = pb"
      "ro_dest_index (sg_routing m) = 0" "ro_af (sg_routing m) = IP4" "mt_ttl (sg_meta m) = 1010"
    using ex_con_msg [OF a b] by blast
  let ?d = "\<lambda>c :: bytes. Inl ValueError :: bytes res" and ?b = "ex_node ''b'' pb [3]"
  define h where "h = to_b (to_h (0 # sig_pack (m\<lparr>sg_cipher := [2]\<rparr>)))"
  define nd where "nd = signal_protocol ?d 6 h (signal_protocol ?d 5 h ?b)"
  have r: "sig_ready ?b (m\<lparr>sg_cipher := [2]\<rparr>)" using m b by (simp add: sig_ready_def ex_node_def)
  let ?b1 = "signal_protocol ?d 5 h ?b"
  have "sig_reach ?d ?b ([] @ [(nd_now ?b, h)] @ [(nd_now ?b1, h)]) nd"
    unfolding nd_def append_assoc [symmetric] by (intro sig_recv sig_start)
  then have p: "distinct (map task_id (nd_tasks nd)) \<and>
      (\<forall>t \<in> set (nd_tasks nd). task_ok ?b t \<and> (\<exists>d \<in> set ([] @ [(nd_now ?b, h)] @ [(nd_now ?b1, h)]). asked_by ?d ?b t d))"
    by (rule signal_acted_once) (simp add: ex_node_def)
  obtain t where t: "nd_tasks nd = [t]"
    using repeated_delivery [OF m(1) ex_con_ok _ refl r, of ?d 6 5] by (auto simp: nd_def h_def ex_node_def)
  have "\<exists>d. snd d = h \<and> asked_by ?d ?b t d" using p t by auto
  then show ?thesis
    using p t by (intro exI [of _ ?b] exI [of _ h]) (simp add: nd_def [symmetric] Let_def, simp add: ex_node_def)
qed

text \<open>The byte in front of the text says whether it is encrypted. When decryption fails, the flag
  itself is taken as the message type: a message that was never encrypted is handled exactly as if it
  had come marked as plain, so nothing is gained by the flag.\<close>

theorem undecrypted_still_handled:
  assumes "decrypt body = Inl e" and "1 \<le> enum" and "enum \<le> 5"
  shows "proto decrypt wall (to_b (to_h (word_of_int enum # body))) nd =
    proto decrypt wall (to_b (to_h (0 # word_of_int enum # body))) nd"
proof -
  have "uint (word_of_int enum :: byte) = enum" using assms(2,3) by (simp add: uint_word_of_int take_bit_eq_mod)
  then have "(word_of_int enum :: byte) \<noteq> 0" using assms(2) by auto
  then have "proto_buf decrypt (to_b (to_h (word_of_int enum # body))) =
      proto_buf decrypt (to_b (to_h (0 # word_of_int enum # body)))"
    by (simp add: proto_buf_flagged assms(1))
  then show ?thesis by (simp add: proto_def)
qed

theorem undecrypted_still_handled_witness:
  "\<forall>nd. proto (\<lambda>c. Err ValueError) 5 (to_b (to_h (1 # to_b (dumps (ex_con ''a'' ''b''))))) nd =
   proto (\<lambda>c. Err ValueError) 5 (to_b (to_h (0 # 1 # to_b (dumps (ex_con ''a'' ''b''))))) nd"
  using undecrypted_still_handled [of "\<lambda>c. Err ValueError" "to_b (dumps (ex_con ''a'' ''b''))" ValueError 1 5] by simp

lemma send_loop_limit:
  "length (filter sent (fst (send_loop sent pipes relay_no count xs))) + count \<le> max relay_no count \<and>
   set (fst (send_loop sent pipes relay_no count xs)) \<subseteq> set pipes \<inter> set xs" if "count < relay_no"
  using that
proof (induction sent pipes relay_no count xs rule: send_loop.induct)
  case (2 sent pipes relay_no count offset rest)
  show ?case
  proof (cases "offset \<in> set pipes \<and> (if sent offset then count + 1 else count) < relay_no")
    case True
    then show ?thesis using 2 by (auto simp: Let_def max_def split: prod.splits if_splits)
  qed (use 2 in \<open>auto simp: Let_def\<close>)
qed simp

lemma rotated_zero: "xs \<noteq> [] \<Longrightarrow> rotated 0 xs = last xs # map (\<lambda>i. xs ! (i - 1)) [1..<length xs]"
proof -
  assume x: "xs \<noteq> []"
  have "(int i - 1) mod int (length xs) = (if i = 0 then int (length xs) - 1 else int i - 1)" if "i < length xs" for i
    using that x by (cases i) (auto simp: zmod_minus1)
  then have "rotated 0 xs = map (\<lambda>i. if i = 0 then last xs else xs ! (i - 1)) [0..<length xs]"
    using x by (auto simp: rotated_def last_conv_nth nat_diff_distrib)
  then show ?thesis using x by (simp add: upt_conv_Cons)
qed

text \<open>A message goes only to servers that the addressee names and that are connected, and stops
  after two successes. But a server that is not connected is never connected to: reaching one ends the
  sending with an exception. Requests and replies start at the end of the list, where the servers that
  are not connected stand, so one such server is enough for nothing to be sent at all.\<close>

theorem unloaded_server_ends_sending:
  assumes "sig_wire encrypt a m vk = Inr wire" and "0 < relay_no"
  shows "length (filter (\<lambda>(n, _, _). sent n) (fst (await_peer_con encrypt sent relay_no a (m, vk, tech)))) \<le> relay_no \<and>
    (\<forall>(n, t, topic) \<in> set (fst (await_peer_con encrypt sent relay_no a (m, vk, tech))).
      n \<in> set (nd_signal_pipes a) \<and> n \<in> set (pa_signal (ro_dest (sg_routing m))) \<and> t = wire) \<and>
    (\<not> set (pa_signal (ro_dest (sg_routing m))) \<subseteq> set (nd_signal_pipes a) \<longrightarrow>
      await_peer_con encrypt sent relay_no a (m, vk, 0) = ([], Inl TypeError))"
proof -
  let ?o = "prioritize_sig_pipe_overlap a (pa_signal (ro_dest (sg_routing m)))"
  have "nat (k mod int (length ?o)) < length ?o" if "i < length ?o" for k i
  proof -
    have "0 < int (length ?o)" using that by linarith
    then show ?thesis using pos_mod_bound [of "int (length ?o)" k] pos_mod_sign [of "int (length ?o)" k] by linarith
  qed
  then have r: "set (rotated tech ?o) \<subseteq> set ?o"
    unfolding rotated_def by (auto intro!: nth_mem)
  have o: "set ?o = set (pa_signal (ro_dest (sg_routing m)))" by (auto simp: prioritize_sig_pipe_overlap_def)
  have pub: "fst (await_peer_con encrypt sent relay_no a (m, vk, tech)) =
      map (\<lambda>n. (n, wire, pa_node_id (ro_dest (sg_routing m)))) (fst (send_loop sent (nd_signal_pipes a) relay_no 0 (rotated tech ?o)))"
    using assms(1) by (simp add: await_peer_con_def Let_def split: prod.splits)
  note l = send_loop_limit [OF assms(2), of sent "nd_signal_pipes a" "rotated tech ?o"]
  have 1: "length (filter (\<lambda>(n, _, _). sent n) (fst (await_peer_con encrypt sent relay_no a (m, vk, tech)))) \<le> relay_no"
    using l by (simp add: pub filter_map o_def)
  have 2: "\<forall>(n, t, topic) \<in> set (fst (await_peer_con encrypt sent relay_no a (m, vk, tech))).
      n \<in> set (nd_signal_pipes a) \<and> n \<in> set (pa_signal (ro_dest (sg_routing m))) \<and> t = wire"
    using l r o by (auto simp: pub)
  have 3: "await_peer_con encrypt sent relay_no a (m, vk, 0) = ([], Inl TypeError)"
    if "\<not> set (pa_signal (ro_dest (sg_routing m))) \<subseteq> set (nd_signal_pipes a)"
  proof -
    have ne: "filter (\<lambda>n. n \<notin> set (nd_signal_pipes a)) (pa_signal (ro_dest (sg_routing m))) \<noteq> []"
      using that by (auto simp: filter_empty_conv)
    then have "last ?o \<in> set (filter (\<lambda>n. n \<notin> set (nd_signal_pipes a)) (pa_signal (ro_dest (sg_routing m))))"
      unfolding prioritize_sig_pipe_overlap_def by (metis last_appendR last_in_set)
    then have "last ?o \<notin> set (nd_signal_pipes a)" by simp
    moreover have "?o \<noteq> []" using ne by (simp add: prioritize_sig_pipe_overlap_def)
    ultimately show ?thesis
      using assms(1) by (simp add: await_peer_con_def Let_def rotated_zero)
  qed
  show ?thesis using 1 2 3 by blast
qed

theorem unloaded_server_ends_sending_witness:
  "\<exists>a m. pa_signal (ro_dest (sg_routing m)) = [0] \<and> nd_signal_pipes a = [] \<and>
     await_peer_con (\<lambda>k c. Inr c) (\<lambda>n. True) 2 a (m, None, 0) = ([], Inl TypeError)"
proof -
  obtain pa ia where a: "parse_peer_addr (ex_addr_text ''a'') = Inr (Some pa)" "pa_infos pa IP4 = [(0, ia)]"
    using ex_addr [of "''a''"] by auto
  obtain pb ib where b: "parse_peer_addr (ex_addr_text ''b'') = Inr (Some pb)" "pa_infos pb IP4 = [(0, ib)]" "pa_signal pb = [0]"
    using ex_addr [of "''b''"] by auto
  obtain m where m: "SigMsg (ex_con ''a'' ''b'') SIG_CON = Inr m" "ro_dest (sg_routing m) = pb"
    using ex_con_msg [OF a b(1,2)] by blast
  let ?a = "(ex_node ''a'' pa [2])\<lparr>nd_signal_pipes := []\<rparr>"
  have "sig_wire (\<lambda>k c. Inr c) ?a m None = Inr (to_h (0 # sig_pack m))" by (simp add: sig_wire_def ex_node_def)
  then show ?thesis
    using unloaded_server_ends_sending [of "\<lambda>k c. Inr c" ?a m None "to_h (0 # sig_pack m)" 2 "\<lambda>n. True"] m b(3)
    by (intro exI [of _ ?a] exI [of _ m]) simp
qed

section \<open>Asking for an address\<close>

text \<open>
  What \<open>connect\<close> does with a name it resolved: trust the key it came with for that node, and ask the node
  for its current address. Without an answer in time the address of the name is used.
\<close>

definition get_addr_data :: "string \<Rightarrow> string \<Rightarrow> sig_node \<Rightarrow> json" where
  "get_addr_data pipe_id addr_bytes nd =
     JObj [(''meta'', JObj [(''ttl'', JInt (nd_now nd + 5)), (''pipe_id'', JStr pipe_id), (''src_buf'', JStr (nd_addr_bytes nd))]),
           (''routing'', JObj [(''dest_buf'', JStr addr_bytes)])]"

definition request_addr :: "string \<Rightarrow> string \<Rightarrow> bytes \<Rightarrow> sig_node \<Rightarrow> unit res \<times> sig_node" where
  "request_addr pipe_id addr_bytes vkc nd =
     (case parse_peer_addr addr_bytes of
        Inl e \<Rightarrow> (Err e, nd)
      | Inr None \<Rightarrow> (Err TypeError, nd)
      | Inr (Some addr) \<Rightarrow>
          (let nd = nd\<lparr>nd_auth := dict_set (pa_node_id addr) vkc (nd_auth nd),
                       nd_futures := dict_set pipe_id Pending (nd_futures nd)\<rparr>
           in case SigMsg (get_addr_data pipe_id addr_bytes nd) SIG_GET_ADDR of
                Inl e \<Rightarrow> (Err e, nd)
              | Inr m \<Rightarrow> (Ok (), nd\<lparr>nd_queue := nd_queue nd @ [(m\<lparr>sg_cipher := to_b (to_h (nd_vk nd))\<rparr>, Some vkc, 0)]\<rparr>)))"

definition resolved_addr :: "string \<Rightarrow> string \<Rightarrow> sig_node \<Rightarrow> string" where
  "resolved_addr pipe_id addr_bytes nd =
     (case map_of (nd_futures nd) pipe_id of Some (Done r) \<Rightarrow> mt_src_buf (sg_meta r) | _ \<Rightarrow> addr_bytes)"

lemma request_addr_Ok:
  assumes "request_addr pipe_id addr_bytes vkc nd = (Inr (), nd')"
  obtains m addr where "parse_peer_addr addr_bytes = Inr (Some addr)" "SigMsg (get_addr_data pipe_id addr_bytes nd) SIG_GET_ADDR = Inr m"
    "nd' = nd\<lparr>nd_auth := dict_set (pa_node_id addr) vkc (nd_auth nd), nd_futures := dict_set pipe_id Pending (nd_futures nd),
       nd_queue := nd_queue nd @ [(m\<lparr>sg_cipher := to_b (to_h (nd_vk nd))\<rparr>, Some vkc, 0)]\<rparr>"
  using assms by (auto simp: request_addr_def Let_def get_addr_data_def split: sum.splits option.splits)

lemma get_addr_data_ok: "json_ok (get_addr_data p s nd)"
  by (simp add: get_addr_data_def dict_ok_def)

lemma default_msg_exists:
  assumes "parse_peer_addr s = Inr (Some a)" and "parse_peer_addr d = Inr (Some b)"
    and "0 \<in> fst ` set (pa_infos a IP4)" and "0 \<in> fst ` set (pa_infos b IP4)" and "enum \<notin> {SIG_TCP_PUNCH, SIG_TURN}"
  shows "\<exists>m. SigMsg (JObj [(''meta'', JObj [(''ttl'', JInt t), (''pipe_id'', JStr p), (''src_buf'', JStr s)]),
                   (''routing'', JObj [(''dest_buf'', JStr d)])]) enum = Inr m"
proof -
  obtain ia ib where "map_of (pa_infos a IP4) 0 = Some ia" "map_of (pa_infos b IP4) 0 = Some ib"
    using assms(3,4) by (metis domD dom_map_of_conv_image_fst)
  moreover have "i_to_af 2 = IP4" by (simp add: i_to_af_def)
  ultimately show ?thesis
    using assms by (simp add: SigMsg_def jitem_def jget_def dict_get_def meta_from_dict_def Meta_def jto_n_def jto_s_def
      load_addr_def routing_from_dict_def Routing_def payload_from_dict_def cipher_from_dict_def unhexlify_def to_b_def)
qed

lemma default_msg:
  assumes "SigMsg (JObj [(''meta'', JObj [(''ttl'', JInt t), (''pipe_id'', JStr p), (''src_buf'', JStr s)]),
                   (''routing'', JObj [(''dest_buf'', JStr d)])]) enum = Inr m"
  shows "mt_ttl (sg_meta m) = t \<and> mt_pipe_id (sg_meta m) = p \<and> mt_src_buf (sg_meta m) = s \<and> mt_src_index (sg_meta m) = 0 \<and>
    mt_af (sg_meta m) = IP4 \<and> ro_af (sg_routing m) = IP4 \<and> ro_dest_index (sg_routing m) = 0 \<and>
    parse_peer_addr d = Inr (Some (ro_dest (sg_routing m))) \<and> parse_peer_addr s = Inr (Some (mt_src (sg_meta m))) \<and>
    0 \<in> fst ` set (pa_infos (mt_src (sg_meta m)) IP4)"
  using assms by (auto simp: SigMsg_def rbind_eq_Ok jitem_def jget_def dict_get_def meta_from_dict_def Meta_def jto_n_def jto_s_def
      load_addr_Ok i_to_af_def routing_from_dict_def Routing_def)

definition answer_data :: "int \<Rightarrow> string \<Rightarrow> string \<Rightarrow> string \<Rightarrow> json" where
  "answer_data t pipe_id src dest =
     JObj [(''meta'', JObj [(''ttl'', JInt t), (''pipe_id'', JStr pipe_id), (''src_buf'', JStr src)]),
           (''routing'', JObj [(''dest_buf'', JStr dest)])]"

lemma sig_wire_total: "\<exists>w. sig_wire (\<lambda>k c. Inr (f c)) a m (Some k) = Inr w"
  by (cases "map_of (nd_auth a) (pa_node_id (ro_dest (sg_routing m)))") (simp_all add: sig_wire_def)

lemma key_nonempty: "k \<noteq> [] \<Longrightarrow> to_b (to_h k) \<noteq> []"
  using unhexlify_to_h [of k] by (auto simp: unhexlify_def)

lemma get_addr_answered:
  assumes buf: "proto_buf decB h = Inr (sig_pack m)" and m0: "SigMsg (get_addr_data pipe_id old a) SIG_GET_ADDR = Inr m0"
    and m: "m = m0\<lparr>sg_cipher := to_b (to_h key)\<rparr>" and k: "key \<noteq> []" and rdy: "sig_ready b m"
  shows "\<exists>r. SigMsg (answer_data (nd_now b + 5) pipe_id (nd_addr_bytes b) (nd_addr_bytes a)) SIG_RETURN_ADDR = Inr r \<and>
    signal_protocol decB t h b = b\<lparr>nd_seen := dict_set pipe_id t (nd_seen b),
      nd_queue := nd_queue b @ [(r\<lparr>sg_cipher := to_b (to_h (nd_vk b))\<rparr>, Some key, 0)]\<rparr>"
proof -
  note f = default_msg [OF m0 [unfolded get_addr_data_def]]
  have e: "sg_enum m = SIG_GET_ADDR" using SigMsg_parts(1) [OF m0] by (simp add: m)
  have u: "sig_unpack SIG_GET_ADDR (tl (sig_pack m)) = Inr m"
    unfolding m by (rule sig_unpack_pack [OF m0 get_addr_data_ok key_nonempty [OF k]])
  have x: "map_of sig_proto (sg_enum m) = Some (0, 5)" by (simp add: e sig_proto_def sig_enums)
  define bs where "bs = b\<lparr>nd_seen := dict_set pipe_id t (nd_seen b)\<rparr>"
  obtain pp where pp: "P2PPipe b (mt_src_buf (sg_meta (as_received b m))) = Inr pp"
    using P2PPipe_received [OF m0] unfolding m by blast
  have b0: "parse_peer_addr (nd_addr_bytes b) = Inr (Some (nd_addr b))" "0 \<in> fst ` set (pa_infos (nd_addr b) IP4)"
    using rdy f by (simp_all add: sig_ready_def m Let_def)
  obtain r where r: "SigMsg (answer_data (nd_now b + 5) pipe_id (nd_addr_bytes b) (nd_addr_bytes a)) SIG_RETURN_ADDR = Inr r"
    using default_msg_exists [OF b0(1) _ b0(2), of "nd_addr_bytes a" _ SIG_RETURN_ADDR] f
    unfolding answer_data_def by (fastforce simp: sig_enums)
  then have ra: "return_addr bs (as_received b m) = Inr r"
    using f by (simp add: return_addr_def as_received_def bs_def m answer_data_def)
  have "unhexlify (sg_cipher (as_received b m)) = Inr key" using k by (simp add: as_received_def m unhexlify_to_h)
  moreover have "sg_enum (as_received b m) = SIG_GET_ADDR" by (simp add: as_received_def e)
  moreover have "P2PPipe bs (mt_src_buf (sg_meta (as_received b m))) = Inr pp" using pp by (simp add: bs_def)
  ultimately have "handle_msg 0 (as_received b m) conf bs =
      (Inr (), bs\<lparr>nd_queue := nd_queue b @ [(r\<lparr>sg_cipher := to_b (to_h (nd_vk b))\<rparr>, Some key, 0)]\<rparr>)" for conf
    using ra by (simp add: handle_msg_def sig_route_msg_def) (simp add: bs_def)
  moreover have "SIG_GET_ADDR \<noteq> SIG_RETURN_ADDR" by (simp add: sig_enums)
  moreover have "mt_pipe_id (sg_meta m) = pipe_id" using f by (simp add: m)
  ultimately have "signal_protocol decB t h b = bs\<lparr>nd_queue := nd_queue b @ [(r\<lparr>sg_cipher := to_b (to_h (nd_vk b))\<rparr>, Some key, 0)]\<rparr>"
    using proto_pack [OF buf x, where wall = t and nd = b] sig_accept_ready [OF u rdy, of t 0]
    by (simp add: signal_protocol_def e Let_def bs_def)
  then show ?thesis using r by (simp add: bs_def)
qed

lemma answer_taken:
  assumes buf: "proto_buf decA h = Inr (sig_pack r)" and r0: "SigMsg (answer_data t0 pipe_id src dest) SIG_RETURN_ADDR = Inr r0"
    and r: "r = r0\<lparr>sg_cipher := to_b (to_h key)\<rparr>" and k: "key \<noteq> []" and rdy: "sig_ready a r"
    and f: "map_of (nd_futures a) pipe_id = Some Pending"
  shows "resolved_addr pipe_id old (signal_protocol decA t h a) = src"
proof -
  note d = default_msg [OF r0 [unfolded answer_data_def]]
  have e: "sg_enum r = SIG_RETURN_ADDR" using SigMsg_parts(1) [OF r0] by (simp add: r)
  have "json_ok (answer_data t0 pipe_id src dest)" by (simp add: answer_data_def dict_ok_def)
  then have u: "sig_unpack SIG_RETURN_ADDR (tl (sig_pack r)) = Inr r"
    unfolding r by (rule sig_unpack_pack [OF r0 _ key_nonempty [OF k]])
  have x: "map_of sig_proto (sg_enum r) = Some (0, 6)" by (simp add: e sig_proto_def sig_enums)
  have "mt_pipe_id (sg_meta (as_received a r)) = pipe_id" "mt_src_buf (sg_meta (as_received a r)) = src"
    using d by (simp_all add: as_received_def r)
  then show ?thesis
    using proto_pack [OF buf x, where wall = t and nd = a] sig_accept_ready [OF u rdy, of t 0] f
    by (simp add: signal_protocol_def e Let_def return_addr_reply_def set_result_def resolved_addr_def)
qed

text \<open>C16: the exchange that refreshes an address. A node asks for the current address of a node it knows an
  old address and the key of; the request makes the other node queue exactly one answer, encrypted for
  the key the request carried, and start no task; that answer completes the request, which then
  resolves to the address the other node has now, whatever the old one said.\<close>

theorem address_request_exchange:
  assumes "request_addr pipe_id old vkB a0 = (Inr (), a)" and "nd_queue a0 = []" and "nd_queue b = []"
    and "nd_queue a = [(m, vk, tech)]" and "sig_wire encrypt a m vk = Inr w1" and "sig_ready b m"
    and "b' = signal_protocol decB ta (to_b w1) b"
    and "\<forall>x c. encrypt vkB x = Inr c \<longrightarrow> decB c = Inr x" and "\<forall>x c. encrypt (nd_vk a0) x = Inr c \<longrightarrow> decA c = Inr x"
    and "nd_vk a0 \<noteq> []" and "nd_vk b \<noteq> []" and "map_of (nd_auth b) (pa_node_id (nd_addr a0)) \<in> {None, Some (nd_vk a0)}"
    and "parse_peer_addr (nd_addr_bytes a0) = Inr (Some (nd_addr a0))" and "0 < nd_ifs a0" and "0 \<in> set (nd_stun a0 IP4)"
    and "pipe_id \<notin> fst ` set (nd_seen a0)" and "nd_now a0 < nd_now b + 5"
  shows "\<exists>r. nd_queue b' = [(r, Some (nd_vk a0), 0)] \<and> nd_tasks b' = nd_tasks b \<and>
    (\<forall>w2. sig_wire encrypt b' r (Some (nd_vk a0)) = Inr w2 \<longrightarrow>
       resolved_addr pipe_id old (signal_protocol decA tb (to_b w2) a) = nd_addr_bytes b)"
proof -
  obtain m0 addr where req: "parse_peer_addr old = Inr (Some addr)" "SigMsg (get_addr_data pipe_id old a0) SIG_GET_ADDR = Inr m0"
    and a: "a = a0\<lparr>nd_auth := dict_set (pa_node_id addr) vkB (nd_auth a0), nd_futures := dict_set pipe_id Pending (nd_futures a0),
       nd_queue := nd_queue a0 @ [(m0\<lparr>sg_cipher := to_b (to_h (nd_vk a0))\<rparr>, Some vkB, 0)]\<rparr>"
    using request_addr_Ok [OF assms(1)] .
  have m: "m = m0\<lparr>sg_cipher := to_b (to_h (nd_vk a0))\<rparr>" "vk = Some vkB"
    using assms(4) by (simp_all add: a assms(2))
  note f = default_msg [OF req(2) [unfolded get_addr_data_def]]
  have "ro_dest (sg_routing m) = addr" using f req(1) by (simp add: m)
  then have "map_of (nd_auth a) (pa_node_id (ro_dest (sg_routing m))) \<in> {None, Some vkB}" by (simp add: a)
  from proto_buf_wire [OF assms(5) _ this, of decB] assms(8) have buf: "proto_buf decB (to_b w1) = Inr (sig_pack m)" using m(2) by blast
  obtain r0 where r0: "SigMsg (answer_data (nd_now b + 5) pipe_id (nd_addr_bytes b) (nd_addr_bytes a0)) SIG_RETURN_ADDR = Inr r0"
    and b': "b' = b\<lparr>nd_seen := dict_set pipe_id ta (nd_seen b),
      nd_queue := nd_queue b @ [(r0\<lparr>sg_cipher := to_b (to_h (nd_vk b))\<rparr>, Some (nd_vk a0), 0)]\<rparr>"
    using get_addr_answered [OF buf req(2) m(1) assms(10,6), of ta] unfolding assms(7) by blast
  let ?r = "r0\<lparr>sg_cipher := to_b (to_h (nd_vk b))\<rparr>"
  note d = default_msg [OF r0 [unfolded answer_data_def]]
  have rd: "ro_dest (sg_routing ?r) = nd_addr a0" using d assms(13) by simp
  have rdy: "sig_ready a ?r"
    using d f assms(13,14,15,16,17) rd by (simp add: sig_ready_def a)
  have "resolved_addr pipe_id old (signal_protocol decA tb (to_b w2) a) = nd_addr_bytes b"
    if w2: "sig_wire encrypt b' ?r (Some (nd_vk a0)) = Inr w2" for w2
  proof -
    have "map_of (nd_auth b') (pa_node_id (ro_dest (sg_routing ?r))) \<in> {None, Some (nd_vk a0)}"
      using assms(12) unfolding rd by (simp add: b')
    from proto_buf_wire [OF w2 _ this, of decA] assms(9) have "proto_buf decA (to_b w2) = Inr (sig_pack ?r)" by blast
    from answer_taken [OF this r0 refl assms(11) rdy] show ?thesis by (simp add: a)
  qed
  then show ?thesis using assms(3) by (intro exI [of _ ?r]) (simp add: b')
qed

theorem address_request_exchange_witness:
  "\<exists>a0 b m w1 r w2. let enc = (\<lambda>k c. Inr (map ((XOR) 90) c)); dec = (\<lambda>c. Inr (map ((XOR) 90) c));
       a = snd (request_addr ''p'' (ex_addr_text ''b'') [7] a0); b' = signal_protocol dec 5 (to_b w1) b in
     nd_queue a = [(m, Some [7], 0)] \<and> sig_wire enc a m (Some [7]) = Inr w1 \<and> nd_queue b' = [(r, Some (nd_vk a0), 0)] \<and>
     sig_wire enc b' r (Some (nd_vk a0)) = Inr w2 \<and>
     resolved_addr ''p'' (ex_addr_text ''b'') (signal_protocol dec 6 (to_b w2) a) = nd_addr_bytes b"
proof -
  let ?x = "\<lambda>c :: bytes. map ((XOR) 90) c" and ?old = "ex_addr_text ''b''"
  let ?enc = "\<lambda>(k :: bytes) c. Inr (?x c) :: bytes res" and ?dec = "\<lambda>c. Inr (?x c) :: bytes res"
  obtain pa ia where a: "parse_peer_addr (ex_addr_text ''a'') = Inr (Some pa)" "pa_infos pa IP4 = [(0, ia)]" "pa_node_id pa = ''a''"
    using ex_addr [of "''a''"] by auto
  obtain pb ib where b: "parse_peer_addr ?old = Inr (Some pb)" "pa_infos pb IP4 = [(0, ib)]" "pa_node_id pb = ''b''"
    using ex_addr [of "''b''"] by auto
  let ?a0 = "ex_node ''a'' pa [2]" and ?b = "ex_node ''b'' pb [3]"
  have n: "nd_addr_bytes ?a0 = ex_addr_text ''a''" "nd_addr ?a0 = pa" "nd_addr ?b = pb" "nd_addr_bytes ?b = ?old" by (simp_all add: ex_node_def)
  obtain m0 where m0: "SigMsg (get_addr_data ''p'' ?old ?a0) SIG_GET_ADDR = Inr m0"
    using default_msg_exists [OF a(1) b(1)] a(2) b(2) by (fastforce simp: get_addr_data_def n sig_enums)
  define a1 where "a1 = snd (request_addr ''p'' ?old [7] ?a0)"
  let ?m = "m0\<lparr>sg_cipher := to_b (to_h [2])\<rparr>"
  have r: "request_addr ''p'' ?old [7] ?a0 = (Inr (), a1)" and q: "nd_queue a1 = [(?m, Some [7], 0)]"
    using m0 b(1) by (simp_all add: a1_def request_addr_def Let_def get_addr_data_def) (simp_all add: ex_node_def)
  obtain w1 where w1: "sig_wire ?enc a1 ?m (Some [7]) = Inr w1" using sig_wire_total [of ?x] by blast
  note f = default_msg [OF m0 [unfolded get_addr_data_def]]
  have rdy: "sig_ready ?b ?m"
    using f b by (simp add: sig_ready_def) (simp add: ex_node_def)
  have inv: "?x (?x c) = c" for c by (simp add: o_def flip: xor.assoc)
  define b1 where "b1 = signal_protocol ?dec 5 (to_b w1) ?b"
  have q0: "nd_queue ?a0 = []" "nd_queue ?b = []" "nd_vk ?a0 \<noteq> []" "nd_vk ?b \<noteq> []" "0 < nd_ifs ?a0" "0 \<in> set (nd_stun ?a0 IP4)"
    "''p'' \<notin> fst ` set (nd_seen ?a0)" "nd_now ?a0 < nd_now ?b + 5"
    "map_of (nd_auth ?b) (pa_node_id (nd_addr ?a0)) \<in> {None, Some (nd_vk ?a0)}"
    by (simp_all add: ex_node_def)
  have dec: "\<forall>x c. ?enc [7] x = Inr c \<longrightarrow> ?dec c = Inr x" "\<forall>x c. ?enc (nd_vk ?a0) x = Inr c \<longrightarrow> ?dec c = Inr x"
    using inv by auto
  have pa: "parse_peer_addr (nd_addr_bytes ?a0) = Inr (Some (nd_addr ?a0))" using a(1) by (simp add: n)
  obtain rr where rr: "nd_queue b1 = [(rr, Some (nd_vk ?a0), 0)]"
    "\<And>w2. sig_wire ?enc b1 rr (Some (nd_vk ?a0)) = Inr w2 \<Longrightarrow>
       resolved_addr ''p'' ?old (signal_protocol ?dec 6 (to_b w2) a1) = nd_addr_bytes ?b"
    using address_request_exchange [where encrypt = ?enc and decA = ?dec and decB = ?dec and tb = 6,
        OF r q0(1,2) q w1 rdy b1_def dec q0(3,4,9) pa q0(5,6,7,8)] by blast
  obtain w2 where "sig_wire ?enc b1 rr (Some (nd_vk ?a0)) = Inr w2" using sig_wire_total [of ?x] by blast
  then show ?thesis
    using rr(1) rr(2) [of w2] w1 q unfolding Let_def b1_def a1_def by (intro exI conjI) assumption+
qed

end
