(* ===== verification/Connect.thy ===== *)
theory Connect
  imports Signal Pnp_Packet "HOL-Library.Multiset"
begin

text \<open>
  \<^verbatim>\<open>node/p2p_utils.py\<close>, \<^verbatim>\<open>node/p2p_pipe.py\<close> and the connecting part of \<^verbatim>\<open>node/p2p_node.py\<close>: how a node picks
  the addresses and interfaces for a technique, tries them in order, and goes through the techniques. What
  sockets, relays and peers do is the environment.
\<close>

section \<open>Choosing an address\<close>

text \<open>
  Address types are the JSON numbers of a message or of the configuration. Python compares numbers
  across their types.
\<close>

definition jeq_int :: "json \<Rightarrow> int \<Rightarrow> bool" where
  "jeq_int j n =
     (case j of
        JInt m \<Rightarrow> m = n
      | JBool b \<Rightarrow> of_bool b = n
      | JReal s \<Rightarrow> (case dec_parse s of None \<Rightarrow> False
                  | Some (c, e) \<Rightarrow> if 0 \<le> e then c * 10 ^ nat e = n else c = n * 10 ^ nat (- e))
      | _ \<Rightarrow> False)"

definition NIC_BIND_NO :: int where "NIC_BIND_NO = 1"
definition EXT_BIND_NO :: int where "EXT_BIND_NO = 2"
definition NIC_FAIL :: int where "NIC_FAIL = 3"
definition EXT_FAIL :: int where "EXT_FAIL = 4"

lemmas bind_nos = NIC_BIND_NO_def EXT_BIND_NO_def NIC_FAIL_def EXT_FAIL_def

definition is_ext :: "json \<Rightarrow> bool" where "is_ext t = jeq_int t EXT_BIND_NO"
definition is_nic :: "json \<Rightarrow> bool" where "is_nic t = jeq_int t NIC_BIND_NO"

definition same_ext :: "if_info \<Rightarrow> if_info \<Rightarrow> bool" where
  "same_ext src_info dest_info = (ipr_eq (ii_ext src_info) (OtherRange (ii_ext dest_info)) = Ok True)"

text \<open>The first of the two in the order of ranges, the destination's when neither is smaller.\<close>

definition first_nic :: "if_info \<Rightarrow> if_info \<Rightarrow> iprange" where
  "first_nic src_info dest_info =
     (if ipr_lt (ii_nic src_info) (OtherRange (ii_nic dest_info)) = Ok True then ii_nic src_info else ii_nic dest_info)"

text \<open>
  \<open>select_dest_ipr\<close>: machines are always taken to share a LAN, so an interface address is never refused and
  the family does not matter.
\<close>

fun select_dest_ipr :: "bool \<Rightarrow> if_info \<Rightarrow> if_info \<Rightarrow> json list \<Rightarrow> bool \<Rightarrow> iprange option" where
  "select_dest_ipr same_pc src_info dest_info [] has_set_bind = None"
| "select_dest_ipr same_pc src_info dest_info (t # ts) has_set_bind =
     (let same_if = (ii_netiface_index src_info = ii_netiface_index dest_info) in
      if is_ext t then
        (if same_pc \<and> same_if \<or> same_ext src_info dest_info
         then select_dest_ipr same_pc src_info dest_info ts has_set_bind
         else Some (ii_ext dest_info))
      else if is_nic t then
        (if \<not> has_set_bind \<and> same_pc \<and> \<not> same_if then Some (first_nic src_info dest_info)
         else Some (ii_nic dest_info))
      else select_dest_ipr same_pc src_info dest_info ts has_set_bind)"

definition sort_pairs_by_overlap ::
  "if_info list \<Rightarrow> if_info list \<Rightarrow> (if_info \<times> if_info) list \<times> (if_info \<times> if_info) list" where
  "sort_pairs_by_overlap src_infos dest_infos =
     partition (\<lambda>(s, d). same_ext s d) (concat (map (\<lambda>s. map (Pair s) dest_infos) src_infos))"

section \<open>The connecting node\<close>

text \<open>
  What a technique can give: nothing, the marker that its protocol is done (an empty pipe object), or a pipe.
\<close>

datatype 'p con_val = ConDone | ConPipe 'p

text \<open>
  The tables of a node that connecting uses: pending pipes by id, punchers and relay clients by pipe id, the count
  of active punchers, punches scheduled with their delay and those due, pipes watched for idleness with the
  time each was last heard, random ids drawn so far. What went out on pipes and which message handlers were run is
  recorded.
\<close>

record ('p, 's, 'c) con_node =
  cn_sig :: sig_node
  cn_pipes :: "(string \<times> 'p fut) list"
  cn_punchers :: "(string \<times> (if_info \<times> 's puncher)) list"
  cn_turns :: "(string \<times> ('c \<times> json) option) list"
  cn_active :: int
  cn_max :: int
  cn_scheduled :: "(string \<times> int) list"
  cn_due :: "string list"
  cn_recv_queue :: "'p list"
  cn_recv_table :: "('p \<times> rat) list"
  cn_msg_cbs :: nat
  cn_drawn :: nat
  cn_sent :: "('p \<times> bytes) list"
  cn_runs :: "('p \<times> nat \<times> bytes) list"

definition pipe_future :: "string \<Rightarrow> ('p, 's, 'c) con_node \<Rightarrow> ('p, 's, 'c) con_node" where
  "pipe_future pipe_id nd =
     (if pipe_id \<notin> fst ` set (cn_pipes nd) then nd\<lparr>cn_pipes := dict_set pipe_id Pending (cn_pipes nd)\<rparr> else nd)"

definition pipe_ready :: "string \<Rightarrow> 'p \<Rightarrow> ('p, 's, 'c) con_node \<Rightarrow> ('p, 's, 'c) con_node" where
  "pipe_ready pipe_id pipe nd =
     (case map_of (cn_pipes nd) pipe_id of
        Some Pending \<Rightarrow> nd\<lparr>cn_pipes := dict_set pipe_id (Done pipe) (cn_pipes nd)\<rparr>
      | _ \<Rightarrow> nd)"

definition drop_future :: "string \<Rightarrow> ('p, 's, 'c) con_node \<Rightarrow> ('p, 's, 'c) con_node" where
  "drop_future pipe_id nd = nd\<lparr>cn_pipes := dict_del pipe_id (cn_pipes nd)\<rparr>"

section \<open>Trying pairs of interfaces\<close>

text \<open>
  A technique takes the family, the pipe id, our interface description, the peer's with the address chosen
  for it, the address type and the message that asked for it. Its result is what \<open>async_wrap_errors\<close> leaves of it:
  None when it failed, raised or took too long. Its clean-up may raise.
\<close>

type_synonym ('p, 'n) technique =
  "af \<Rightarrow> string \<Rightarrow> if_info \<Rightarrow> if_info \<times> string \<Rightarrow> json \<Rightarrow> sig_msg option \<Rightarrow> 'n \<Rightarrow> 'p con_val option \<times> 'n"

type_synonym 'n cleanup =
  "af \<Rightarrow> string \<Rightarrow> if_info \<Rightarrow> if_info \<times> string \<Rightarrow> json \<Rightarrow> sig_msg option \<Rightarrow> 'n \<Rightarrow> unit res \<times> 'n"

definition use_addr_type :: "json \<Rightarrow> json \<times> bool" where
  "use_addr_type t = (if jeq_int t NIC_FAIL then (JInt NIC_BIND_NO, True)
                      else if jeq_int t EXT_FAIL then (JInt EXT_BIND_NO, True) else (t, False))"

text \<open>
  One pair. An interface the node does not have, one the peer did not ask for, and a pair without a usable
  address leave the pending pipe behind; only a technique that was run and failed is cleaned up.
\<close>

definition try_addr_infos ::
  "('p, ('p, 's, 'c) con_node) technique \<Rightarrow> ('p, 's, 'c) con_node cleanup option \<Rightarrow> (nat \<Rightarrow> string) \<Rightarrow> bool \<Rightarrow> bool \<Rightarrow>
   sig_msg option \<Rightarrow> af \<Rightarrow> json \<Rightarrow> if_info \<Rightarrow> if_info \<Rightarrow> ('p, 's, 'c) con_node \<Rightarrow> 'p con_val option \<times> ('p, 's, 'c) con_node" where
  "try_addr_infos func cleanup rnd same_machine has_set_bind reply af addr_type src_info dest_info nd =
     (let (pipe_id, nd) = (case reply of
            None \<Rightarrow> (rnd (cn_drawn nd), nd\<lparr>cn_drawn := cn_drawn nd + 1\<rparr>)
          | Some r \<Rightarrow> (mt_pipe_id (sg_meta r), nd));
          nd = pipe_future pipe_id nd;
          if_index = ii_if_index src_info
      in if \<not> (- int (nd_ifs (cn_sig nd)) \<le> if_index \<and> if_index < int (nd_ifs (cn_sig nd))) then (None, nd)
         else if (case reply of None \<Rightarrow> False | Some r \<Rightarrow> ro_dest_index (sg_routing r) \<noteq> if_index) then (None, nd)
         else (let (use_type, do_fail) = use_addr_type addr_type in
               case select_dest_ipr same_machine src_info dest_info [use_type] has_set_bind of
                 None \<Rightarrow> (None, nd)
               | Some ipr \<Rightarrow>
                   (case ipr_norm ipr of
                      Inl _ \<Rightarrow> (None, nd)
                    | Inr ip \<Rightarrow>
                        (let (result, nd) = func af pipe_id src_info (dest_info, ip) addr_type reply nd in
                         if result \<noteq> None \<and> \<not> do_fail then (result, nd)
                         else (case (case cleanup of None \<Rightarrow> (Ok (), nd)
                                     | Some f \<Rightarrow> f af pipe_id src_info (dest_info, ip) use_type reply nd) of
                                 (Inl _, nd) \<Rightarrow> (None, nd)
                               | (Inr _, nd) \<Rightarrow> (None, drop_future pipe_id nd))))))"

text \<open>The pairs of one family: the first success, the limit reached, or the number tried so far plus one.\<close>

datatype 'p pairs_end = Found "'p con_val" | Limit | Tried nat

fun try_pairs ::
  "(if_info \<Rightarrow> if_info \<Rightarrow> 'n \<Rightarrow> 'p con_val option \<times> 'n) \<Rightarrow> nat \<Rightarrow> nat \<Rightarrow> (if_info \<times> if_info) list \<Rightarrow> 'n \<Rightarrow> 'p pairs_end \<times> 'n" where
  "try_pairs try_one max_pairs tries [] nd = (Tried tries, nd)"
| "try_pairs try_one max_pairs tries ((s, d) # pairs) nd =
     (case try_one s d nd of
        (Some v, nd) \<Rightarrow> (Found v, nd)
      | (None, nd) \<Rightarrow> if tries + 1 > max_pairs then (Limit, nd) else try_pairs try_one max_pairs (tries + 1) pairs nd)"

text \<open>The order of the pairs for an address type; for a type that is neither, the order of the round before.\<close>

definition pair_order ::
  "json \<Rightarrow> (if_info \<times> if_info) list \<times> (if_info \<times> if_info) list \<Rightarrow> (if_info \<times> if_info) list option \<Rightarrow>
   (if_info \<times> if_info) list option" where
  "pair_order addr_type ou old =
     (let (overlap, unique) = ou;
          old = (if is_ext addr_type then Some (unique @ overlap) else old)
      in if is_nic addr_type then Some (overlap @ unique) else old)"

definition infos_of :: "peer_addr \<Rightarrow> af \<Rightarrow> if_info list" where
  "infos_of a af = map snd (pa_infos a af)"

text \<open>
  The families of one address type, then the address types. A message that asked for the connection decides
  the pair, and the first type ends the search. The result is the pair of value and address type.
\<close>

datatype 'p fam_end = FamReturn "('p con_val option \<times> json option) res" | FamNext

fun try_families ::
  "(af \<Rightarrow> json \<Rightarrow> if_info \<Rightarrow> if_info \<Rightarrow> 'n \<Rightarrow> 'p con_val option \<times> 'n) \<Rightarrow> nat \<Rightarrow> sig_msg option \<Rightarrow> peer_addr \<Rightarrow> peer_addr \<Rightarrow> json \<Rightarrow>
   nat \<Rightarrow> (if_info \<times> if_info) list option \<Rightarrow> af list \<Rightarrow> 'n \<Rightarrow> 'p fam_end \<times> (if_info \<times> if_info) list option \<times> 'n" where
  "try_families try_one max_pairs reply src dest addr_type tries old [] nd = (FamNext, old, nd)"
| "try_families try_one max_pairs reply src dest addr_type tries old (af # afs) nd =
     (case reply of
        Some r \<Rightarrow>
          (case (map_of (pa_infos src af) (ro_dest_index (sg_routing r)), map_of (pa_infos dest af) (mt_src_index (sg_meta r))) of
             (Some s, Some d) \<Rightarrow>
               (let (v, nd) = try_one af addr_type s d nd in (FamReturn (Ok (v, Some addr_type)), old, nd))
           | _ \<Rightarrow> (FamReturn (Err KeyError), old, nd))
      | None \<Rightarrow>
          (case pair_order addr_type (sort_pairs_by_overlap (infos_of src af) (infos_of dest af)) old of
             None \<Rightarrow> (FamReturn (Err (PyException ''UnboundLocalError'')), None, nd)
           | Some pairs \<Rightarrow>
               (case try_pairs (try_one af addr_type) max_pairs tries pairs nd of
                  (Found v, nd) \<Rightarrow> (FamReturn (Ok (Some v, Some addr_type)), Some pairs, nd)
                | (Limit, nd) \<Rightarrow> (FamReturn (Ok (None, None)), Some pairs, nd)
                | (Tried n, nd) \<Rightarrow> try_families try_one max_pairs reply src dest addr_type n (Some pairs) afs nd)))"

fun try_types ::
  "(af \<Rightarrow> json \<Rightarrow> if_info \<Rightarrow> if_info \<Rightarrow> 'n \<Rightarrow> 'p con_val option \<times> 'n) \<Rightarrow> nat \<Rightarrow> sig_msg option \<Rightarrow> peer_addr \<Rightarrow> peer_addr \<Rightarrow> af list \<Rightarrow>
   (if_info \<times> if_info) list option \<Rightarrow> json list \<Rightarrow> 'n \<Rightarrow> ('p con_val option \<times> json option) res \<times> 'n" where
  "try_types try_one max_pairs reply src dest afs old [] nd = (Ok (None, None), nd)"
| "try_types try_one max_pairs reply src dest afs old (t # ts) nd =
     (case try_families try_one max_pairs reply src dest t 1 old afs nd of
        (FamReturn v, _, nd) \<Rightarrow> (v, nd)
      | (FamNext, old, nd) \<Rightarrow> try_types try_one max_pairs reply src dest afs old ts nd)"

text \<open>Iterating over whatever value the configuration holds.\<close>

definition jiter :: "json \<Rightarrow> json list res" where
  "jiter j = (case j of JArr xs \<Rightarrow> Ok xs | JStr s \<Rightarrow> Ok (map (\<lambda>c. JStr [c]) s) | JObj ms \<Rightarrow> Ok (map (JStr \<circ> fst) ms)
              | _ \<Rightarrow> Err TypeError)"

definition for_addr_infos ::
  "('p, ('p, 's, 'c) con_node) technique \<Rightarrow> ('p, 's, 'c) con_node cleanup option \<Rightarrow> (nat \<Rightarrow> string) \<Rightarrow> bool \<Rightarrow> nat \<Rightarrow>
   sig_msg option \<Rightarrow> p2p_pipe \<Rightarrow> p2p_conf \<Rightarrow> ('p, 's, 'c) con_node \<Rightarrow>
   ('p con_val option \<times> json option) res \<times> ('p, 's, 'c) con_node" where
  "for_addr_infos func cleanup rnd has_set_bind max_pairs reply pp conf nd =
     (let afs = (case reply of None \<Rightarrow> cf_addr_families conf | Some r \<Rightarrow> [mt_af (sg_meta r)]) in
      case jiter (cf_addr_types conf) of
        Inl e \<Rightarrow> (Err e, nd)
      | Inr types \<Rightarrow>
          try_types (\<lambda>af t s d. try_addr_infos func cleanup rnd (pp_same_machine pp) has_set_bind reply af t s d)
            max_pairs reply (nd_addr (cn_sig nd)) (pp_dest pp) afs None types nd)"

section \<open>Techniques in order\<close>

text \<open>
  \<open>connect\<close>: the technique of each known strategy, with whether it sets its own bind address and how many pairs it may try.
  A search that raised cannot be unpacked, and the address of an empty pipe object cannot be logged: both end
  \<open>connect\<close> with an exception. \<open>log_ok\<close> says what reading the addresses of a pipe raises.
\<close>

record ('p, 'n) strategy =
  st_func :: "('p, 'n) technique"
  st_cleanup :: "'n cleanup option"
  st_has_set_bind :: bool
  st_max_pairs :: nat

fun connect ::
  "(int \<rightharpoonup> ('p, ('p, 's, 'c) con_node) strategy) \<Rightarrow> ('p \<Rightarrow> unit res) \<Rightarrow> (nat \<Rightarrow> string) \<Rightarrow> sig_msg option \<Rightarrow> p2p_pipe \<Rightarrow> p2p_conf \<Rightarrow>
   int list \<Rightarrow> ('p, 's, 'c) con_node \<Rightarrow> 'p option res \<times> ('p, 's, 'c) con_node" where
  "connect table log_ok rnd reply pp conf [] nd = (Ok None, nd)"
| "connect table log_ok rnd reply pp conf (s # ss) nd =
     (case table s of
        None \<Rightarrow> connect table log_ok rnd reply pp conf ss nd
      | Some st \<Rightarrow>
          (case for_addr_infos (st_func st) (st_cleanup st) rnd (st_has_set_bind st) (st_max_pairs st) reply pp conf nd of
             (Inl _, nd) \<Rightarrow> (Err TypeError, nd)
           | (Inr (None, _), nd) \<Rightarrow> connect table log_ok rnd reply pp conf ss nd
           | (Inr (Some ConDone, _), nd) \<Rightarrow> (Err AttributeError, nd)
           | (Inr (Some (ConPipe p), _), nd) \<Rightarrow> (rmap (\<lambda>_. Some p) (log_ok p), nd)))"


section \<open>What techniques need from outside\<close>

text \<open>
  Sockets, relays and what other tasks do while a technique waits: binding a route, its first link-local address,
  opening a pipe, whether it has a socket, the pipe a pending id turns into and the node by then, the corrected time and
  the \<open>Decimal\<close> that holds one, STUN clients and their mappings, relay servers by family, the order they are
  tried in, starting a client of one, its addresses, permissions, and closing it, random ids, and what reading the addresses of a pipe for the log raises.
\<close>

record ('p, 's, 'c) con_env =
  ce_bind :: "af \<Rightarrow> int \<Rightarrow> string option \<Rightarrow> unit res"
  ce_link_local :: "af \<Rightarrow> int \<Rightarrow> string res"
  ce_open :: "af \<Rightarrow> int \<Rightarrow> string option \<Rightarrow> string \<times> int \<Rightarrow> 'p option res"
  ce_has_sock :: "'p \<Rightarrow> bool"
  ce_send :: "'p \<Rightarrow> bytes \<Rightarrow> unit res"
  ce_wait :: "string \<Rightarrow> ('p, 's, 'c) con_node \<Rightarrow> 'p option \<times> ('p, 's, 'c) con_node"
  ce_time :: rat
  ce_dec :: "rat \<Rightarrow> decimal"
  ce_wall :: rat
  ce_draw :: "nat \<Rightarrow> nat"
  ce_stun_no :: "af \<Rightarrow> int \<Rightarrow> nat"
  ce_stuns :: "af \<Rightarrow> int \<Rightarrow> nat \<Rightarrow> 's nat_mapping option res"
  ce_turn_servers :: "(af \<Rightarrow> bool) list"
  ce_turn_order :: "nat list"
  ce_turn_start :: "af \<Rightarrow> nat \<Rightarrow> int \<Rightarrow> 'c res"
  ce_turn_tups :: "'c \<Rightarrow> (json \<times> json) res"
  ce_turn_accept :: "'c \<Rightarrow> json \<Rightarrow> json \<Rightarrow> bool res \<times> 'c"
  ce_turn_pipe :: "'c \<Rightarrow> 'p"
  ce_turn_close :: "'c \<Rightarrow> unit res"
  ce_rand :: "nat \<Rightarrow> string"
  ce_log :: "'p \<Rightarrow> unit res"

definition await_pipe :: "('p, 's, 'c) con_env \<Rightarrow> string \<Rightarrow> ('p, 's, 'c) con_node \<Rightarrow> 'p con_val option res \<times> ('p, 's, 'c) con_node" where
  "await_pipe env pipe_id nd =
     (case map_of (cn_pipes nd) pipe_id of
        None \<Rightarrow> (Err KeyError, nd)
      | Some (Done p) \<Rightarrow> (Ok (Some (ConPipe p)), nd)
      | Some Pending \<Rightarrow>
          (case ce_wait env pipe_id nd of
             (None, nd) \<Rightarrow> (Err TimeoutError, nd)
           | (Some p, nd) \<Rightarrow> (Ok (Some (ConPipe p)), nd)))"

definition cn_route_msg ::
  "json \<Rightarrow> int \<Rightarrow> sig_msg option \<Rightarrow> int \<Rightarrow> ('p, 's, 'c) con_node \<Rightarrow> unit res \<times> ('p, 's, 'c) con_node" where
  "cn_route_msg data enum reply m nd =
     (case SigMsg data enum of
        Inl e \<Rightarrow> (Err e, nd)
      | Inr msg \<Rightarrow> (let (r, sg) = sig_route_msg msg reply m (cn_sig nd) in (r, nd\<lparr>cn_sig := sg\<rparr>)))"

text \<open>The data of a technique's message.\<close>

definition sig_data ::
  "int \<Rightarrow> af \<Rightarrow> string \<Rightarrow> if_info \<Rightarrow> if_info \<Rightarrow> json \<Rightarrow> p2p_pipe \<Rightarrow> (string \<times> json) list \<Rightarrow> ('p, 's, 'c) con_node \<Rightarrow> json" where
  "sig_data ttl af pipe_id src_info dest_info addr_type pp payload nd =
     JObj ([(''meta'', JObj [(''ttl'', JInt (nd_now (cn_sig nd) + ttl)), (''af'', JInt (af_int af)), (''pipe_id'', JStr pipe_id),
              (''src_buf'', JStr (nd_addr_bytes (cn_sig nd))), (''src_index'', JInt (ii_if_index src_info)),
              (''addr_types'', JArr [addr_type])]),
            (''routing'', JObj [(''af'', JInt (af_int af)), (''dest_buf'', JStr (pp_dest_bytes pp)),
              (''dest_index'', JInt (ii_if_index dest_info))])] @ payload)"

section \<open>Direct and reverse connections\<close>

definition CON_ID_MSG :: string where "CON_ID_MSG = ''P2P_CON_ID_EQ''"

definition con_id_msg :: "string \<Rightarrow> bytes" where
  "con_id_msg pipe_id = to_b CON_ID_MSG @ to_b ('' '' @ pipe_id @ [CHR 10])"

definition direct_bind :: "('p, 's, 'c) con_env \<Rightarrow> af \<Rightarrow> int \<Rightarrow> string \<Rightarrow> string option res" where
  "direct_bind env af if_index ip =
     (if af = IP6 \<and> take 4 ip = ''fe80''
      then rbind (ce_link_local env af if_index) (\<lambda>l. rmap (\<lambda>_. Some l) (ce_bind env af if_index (Some l)))
      else rmap (\<lambda>_. None) (ce_bind env af if_index None))"

definition direct_connect ::
  "('p, 's, 'c) con_env \<Rightarrow> af \<Rightarrow> string \<Rightarrow> if_info \<Rightarrow> if_info \<times> string \<Rightarrow> json \<Rightarrow> sig_msg option \<Rightarrow> ('p, 's, 'c) con_node \<Rightarrow>
   'p con_val option res \<times> ('p, 's, 'c) con_node" where
  "direct_connect env af pipe_id src_info dest addr_type reply nd =
     (let (dest_info, ip) = dest; if_index = ii_if_index src_info in
      case rbind (direct_bind env af if_index ip) (\<lambda>ips. ce_open env af if_index ips (ip, ii_port dest_info)) of
        Inl e \<Rightarrow> (Err e, nd)
      | Inr None \<Rightarrow> (Ok None, nd)
      | Inr (Some pipe) \<Rightarrow>
          if \<not> ce_has_sock env pipe then (Ok None, nd)
          else (case ce_send env pipe (con_id_msg pipe_id) of
                  Inl e \<Rightarrow> (Err e, nd)
                | Inr _ \<Rightarrow> (Ok (Some (ConPipe pipe)),
                             pipe_ready pipe_id pipe (nd\<lparr>cn_sent := cn_sent nd @ [(pipe, con_id_msg pipe_id)]\<rparr>))))"

definition reverse_connect ::
  "('p, 's, 'c) con_env \<Rightarrow> p2p_pipe \<Rightarrow> af \<Rightarrow> string \<Rightarrow> if_info \<Rightarrow> if_info \<times> string \<Rightarrow> json \<Rightarrow> sig_msg option \<Rightarrow> ('p, 's, 'c) con_node \<Rightarrow>
   'p con_val option res \<times> ('p, 's, 'c) con_node" where
  "reverse_connect env pp af pipe_id src_info dest addr_type reply nd =
     (case cn_route_msg (sig_data 10 af pipe_id src_info (fst dest) addr_type pp [] nd) SIG_CON None 1 nd of
        (Inl e, nd) \<Rightarrow> (Err e, nd)
      | (Inr _, nd) \<Rightarrow> await_pipe env pipe_id nd)"

section \<open>Punching\<close>

text \<open>
  Our NAT is an object shared by the node's address and the punchers, and predicting can write to it; it is
  read from the node and written back.
\<close>

definition our_nat :: "af \<Rightarrow> if_info \<Rightarrow> ('p, 's, 'c) con_node \<Rightarrow> nat_desc" where
  "our_nat af src_info nd =
     (case map_of (pa_infos (nd_addr (cn_sig nd)) af) (ii_if_index src_info) of
        Some i \<Rightarrow> ii_nat i | None \<Rightarrow> ii_nat src_info)"

definition set_our_nat :: "af \<Rightarrow> if_info \<Rightarrow> nat_desc \<Rightarrow> ('p, 's, 'c) con_node \<Rightarrow> ('p, 's, 'c) con_node" where
  "set_our_nat af src_info n nd =
     (let sg = cn_sig nd; a = nd_addr sg;
          infos = map (\<lambda>(k, i). (k, if k = ii_if_index src_info then i\<lparr>ii_nat := n\<rparr> else i)) (pa_infos a af)
      in nd\<lparr>cn_sig := sg\<lparr>nd_addr := a\<lparr>pa_infos := (pa_infos a)(af := infos)\<rparr>\<rparr>\<rparr>)"

text \<open>
  The puncher of a pipe id: one that exists must be for the same interface and takes the new destination, its mode
  stays; a new one needs STUN clients.
\<close>

definition load_puncher ::
  "('p, 's, 'c) con_env \<Rightarrow> p2p_pipe \<Rightarrow> af \<Rightarrow> string \<Rightarrow> if_info \<Rightarrow> if_info \<times> string \<Rightarrow> ('p, 's, 'c) con_node \<Rightarrow>
   's puncher option res \<times> ('p, 's, 'c) con_node" where
  "load_puncher env pp af pipe_id src_info dest nd =
     (let (dest_info, ip) = dest in
      case map_of (cn_punchers nd) pipe_id of
        Some (s, p) \<Rightarrow>
          if s\<lparr>ii_nat := ii_nat src_info\<rparr> \<noteq> src_info then (Err AssertionError, nd)
          else (let p = p\<lparr>pu_dest_nat := ii_nat dest_info, pu_dest_ip := ip\<rparr>
                in (Ok (Some p), nd\<lparr>cn_punchers := dict_set pipe_id (s, p) (cn_punchers nd)\<rparr>))
      | None \<Rightarrow>
          if ii_if_index src_info \<notin> set (nd_stun (cn_sig nd) af) then (Err KeyError, nd)
          else if ce_stun_no env af (ii_if_index src_info) = 0 then (Ok None, nd)
          else (case TCPPuncher af (our_nat af src_info nd) (ii_nat dest_info) ip (pp_same_machine pp) of
                  Inl e \<Rightarrow> (Err e, nd)
                | Inr p \<Rightarrow> (Ok (Some p), nd\<lparr>cn_punchers := dict_set pipe_id (src_info, p) (cn_punchers nd)\<rparr>)))"

text \<open>
  The mappings a message carries: lists of at least three ports. Values that are not numbers are
  refused here; the code carries them on to the arithmetic on ports, which refuses them.
\<close>

definition jport :: "json \<Rightarrow> int res" where
  "jport j = (case j of JInt n \<Rightarrow> Ok n | JBool b \<Rightarrow> Ok (of_bool b) | _ \<Rightarrow> Err TypeError)"

definition json_mapping :: "json \<Rightarrow> 's nat_mapping res" where
  "json_mapping j =
     (case j of
        JArr (l # r # m # _) \<Rightarrow>
          rbind (jport l) (\<lambda>l. rbind (jport r) (\<lambda>r. rbind (jport m) (\<lambda>m. Ok (NATMapping l r m None))))
      | JArr _ \<Rightarrow> Err IndexError
      | _ \<Rightarrow> Err TypeError)"

definition mapping_json :: "'s nat_mapping \<Rightarrow> json" where
  "mapping_json m = JArr (map JInt (toJSON m))"

definition dec_rat :: "decimal \<Rightarrow> rat" where
  "dec_rat d = (let (c, e) = d in if 0 \<le> e then of_int (c * 10 ^ nat e) else of_int c / of_int (10 ^ nat (- e)))"

definition punch_received :: "sig_msg option \<Rightarrow> ('s nat_mapping list option \<times> rat option) res" where
  "punch_received reply =
     (case reply of
        None \<Rightarrow> Ok (None, None)
      | Some r \<Rightarrow>
          (case sg_payload r of
             PunchPayload _ ntp mappings \<Rightarrow>
               rbind (rbind (jiter mappings) (rmap_list json_mapping)) (\<lambda>ms.
               rbind (rassert (ms \<noteq> [])) (\<lambda>_. Ok (Some ms, Some (dec_rat ntp))))
           | _ \<Rightarrow> Err AttributeError))"

text \<open>One call of the puncher's protocol, on our NAT as it is now.\<close>

definition cn_puncher_proto ::
  "('p, 's, 'c) con_env \<Rightarrow> af \<Rightarrow> string \<Rightarrow> if_info \<Rightarrow> 's puncher \<Rightarrow> 's nat_mapping list option \<Rightarrow> rat option \<Rightarrow> ('p, 's, 'c) con_node \<Rightarrow>
   's punch_reply res \<times> 's puncher \<times> ('p, 's, 'c) con_node" where
  "cn_puncher_proto env af pipe_id src_info p ms start nd =
     (let (r, p) = puncher_proto (ce_draw env) (ce_stuns env af (ii_if_index src_info)) (ce_time env) ms start
                     (p\<lparr>pu_src_nat := our_nat af src_info nd\<rparr>)
      in (r, p, set_our_nat af src_info (pu_src_nat p) (nd\<lparr>cn_punchers := dict_set pipe_id (src_info, p) (cn_punchers nd)\<rparr>)))"

definition punch_payload_data :: "('p, 's, 'c) con_env \<Rightarrow> int \<Rightarrow> 's nat_mapping list \<Rightarrow> rat \<Rightarrow> (string \<times> json) list" where
  "punch_payload_data env mode mappings start =
     [(''payload'', JObj [(''punch_mode'', JInt mode), (''ntp'', JStr (dec_text (ce_dec env start))),
        (''mappings'', JArr (map mapping_json mappings))])]"

definition schedule_punch :: "string \<Rightarrow> int \<Rightarrow> ('p, 's, 'c) con_node \<Rightarrow> ('p, 's, 'c) con_node" where
  "schedule_punch pipe_id n nd =
     nd\<lparr>cn_active := min (cn_max nd) (cn_active nd + 1), cn_scheduled := cn_scheduled nd @ [(pipe_id, n)]\<rparr>"

text \<open>A punched pipe is watched for idleness.\<close>

definition watch_pipe :: "rat \<Rightarrow> 'p \<Rightarrow> ('p, 's, 'c) con_node \<Rightarrow> ('p, 's, 'c) con_node" where
  "watch_pipe wall pipe nd =
     nd\<lparr>cn_recv_table := dict_set pipe wall (cn_recv_table nd), cn_recv_queue := cn_recv_queue nd @ [pipe]\<rparr>"

definition punch_send ::
  "('p, 's, 'c) con_env \<Rightarrow> p2p_pipe \<Rightarrow> af \<Rightarrow> string \<Rightarrow> if_info \<Rightarrow> if_info \<Rightarrow> json \<Rightarrow> sig_msg option \<Rightarrow> 's puncher \<Rightarrow>
   's nat_mapping list \<Rightarrow> rat \<Rightarrow> ('p, 's, 'c) con_node \<Rightarrow> 'p con_val option res \<times> ('p, 's, 'c) con_node" where
  "punch_send env pp af pipe_id src_info dest_info addr_type reply p mappings start nd =
     (case cn_route_msg (sig_data 30 af pipe_id src_info dest_info addr_type pp
                          (punch_payload_data env (pu_punch_mode p) mappings start) nd) SIG_TCP_PUNCH reply 2 nd of
        (Inl e, nd) \<Rightarrow> (Err e, nd)
      | (Inr _, nd) \<Rightarrow>
          (case await_pipe env pipe_id nd of
             (Inr (Some (ConPipe pipe)), nd) \<Rightarrow> (Ok (Some (ConPipe pipe)), watch_pipe (ce_wall env) pipe nd)
           | (r, nd) \<Rightarrow> (r, nd)))"

definition tcp_hole_punch ::
  "('p, 's, 'c) con_env \<Rightarrow> p2p_pipe \<Rightarrow> af \<Rightarrow> string \<Rightarrow> if_info \<Rightarrow> if_info \<times> string \<Rightarrow> json \<Rightarrow> sig_msg option \<Rightarrow> ('p, 's, 'c) con_node \<Rightarrow>
   'p con_val option res \<times> ('p, 's, 'c) con_node" where
  "tcp_hole_punch env pp af pipe_id src_info dest addr_type reply nd =
     (case load_puncher env pp af pipe_id src_info dest nd of
        (Inl e, nd) \<Rightarrow> (Err e, nd)
      | (Inr None, nd) \<Rightarrow> (Ok None, nd)
      | (Inr (Some p), nd) \<Rightarrow>
          (case punch_received reply of
             Inl e \<Rightarrow> (Err e, nd)
           | Inr (ms, start) \<Rightarrow>
               (case cn_puncher_proto env af pipe_id src_info p ms start nd of
                  (Inl e, p, nd) \<Rightarrow> (Err e, nd)
                | (Inr PunchDone, p, nd) \<Rightarrow> (Ok (Some ConDone), nd)
                | (Inr (PunchSend mappings start), p, nd) \<Rightarrow>
                    punch_send env pp af pipe_id src_info (fst dest) addr_type reply p mappings start
                      (schedule_punch pipe_id (if pu_side p = Some INITIATOR then 2 else 0) nd))))"

definition tcp_punch_cleanup :: "('p, 's, 'c) con_node cleanup" where
  "tcp_punch_cleanup af pipe_id src_info dest addr_type reply nd = (Ok (), nd\<lparr>cn_active := max 0 (cn_active nd - 1)\<rparr>)"

text \<open>When its delay is over a punch is queued; the worker starts the oldest, when it still has a puncher.\<close>

definition punch_delay_over :: "string \<Rightarrow> ('p, 's, 'c) con_node \<Rightarrow> ('p, 's, 'c) con_node" where
  "punch_delay_over pipe_id nd = nd\<lparr>cn_due := cn_due nd @ [pipe_id]\<rparr>"

definition punch_queue_worker :: "('p, 's, 'c) con_node \<Rightarrow> 's puncher option \<times> ('p, 's, 'c) con_node" where
  "punch_queue_worker nd =
     (case cn_due nd of
        [] \<Rightarrow> (None, nd)
      | pipe_id # rest \<Rightarrow> (map_option snd (map_of (cn_punchers nd) pipe_id), nd\<lparr>cn_due := rest\<rparr>))"


section \<open>Relays\<close>

text \<open>A client of the relay server a message names, or of the first that works; it remembers which.\<close>

definition get_turn_client :: "('p, 's, 'c) con_env \<Rightarrow> af \<Rightarrow> json \<Rightarrow> int \<Rightarrow> 'c res" where
  "get_turn_client env af serv_id if_index =
     rbind (jport serv_id) (\<lambda>i.
     rbind (py_get (zip (ce_turn_servers env) [0..<length (ce_turn_servers env)]) i) (\<lambda>(supports, n).
       if \<not> supports af then Err (PyException ''Turn server does not support this AF.'')
       else rbind (ce_turn_start env af n if_index) (\<lambda>c. rmap (\<lambda>_. c) (ce_turn_tups env c))))"

fun get_first_working_turn_client :: "('p, 's, 'c) con_env \<Rightarrow> af \<Rightarrow> int \<Rightarrow> json list \<Rightarrow> ('c \<times> json) option" where
  "get_first_working_turn_client env af if_index [] = None"
| "get_first_working_turn_client env af if_index (offset # offsets) =
     (case get_turn_client env af offset if_index of
        Inl _ \<Rightarrow> get_first_working_turn_client env af if_index offsets
      | Inr c \<Rightarrow> Some (c, offset))"

definition relay_offsets :: "('p, 's, 'c) con_env \<Rightarrow> sig_msg option \<Rightarrow> json list res" where
  "relay_offsets env reply =
     (case reply of
        None \<Rightarrow> Ok (map (\<lambda>n. JInt (int n)) (ce_turn_order env))
      | Some r \<Rightarrow> (case sg_payload r of TurnPayload _ _ serv_id \<Rightarrow> Ok [serv_id] | _ \<Rightarrow> Err AttributeError))"

text \<open>The result is kept for the pipe id even when no server worked.\<close>

definition load_relay ::
  "('p, 's, 'c) con_env \<Rightarrow> af \<Rightarrow> string \<Rightarrow> if_info \<Rightarrow> sig_msg option \<Rightarrow> ('p, 's, 'c) con_node \<Rightarrow>
   ('c \<times> json) option res \<times> ('p, 's, 'c) con_node" where
  "load_relay env af pipe_id src_info reply nd =
     (case map_of (cn_turns nd) pipe_id of
        Some client \<Rightarrow> (Ok client, nd)
      | None \<Rightarrow>
          (case relay_offsets env reply of
             Inl e \<Rightarrow> (Err e, nd)
           | Inr offsets \<Rightarrow>
               (let client = get_first_working_turn_client env af (ii_if_index src_info) offsets
                in (Ok client, nd\<lparr>cn_turns := dict_set pipe_id client (cn_turns nd)\<rparr>))))"

text \<open>
  What a reply does: let its sender through and hand the client to whoever waits. True when the sender
  was let through before, which ends the protocol.
\<close>

definition relay_accept ::
  "('p, 's, 'c) con_env \<Rightarrow> string \<Rightarrow> ('c \<times> json) option \<Rightarrow> sig_msg option \<Rightarrow> ('p, 's, 'c) con_node \<Rightarrow>
   bool res \<times> ('c \<times> json) option \<times> ('p, 's, 'c) con_node" where
  "relay_accept env pipe_id client reply nd =
     (case reply of
        None \<Rightarrow> (Ok False, client, nd)
      | Some r \<Rightarrow>
          (case (sg_payload r, client) of
             (TurnPayload dest_peer dest_relay _, Some (c, offset)) \<Rightarrow>
               (let (res, c) = ce_turn_accept env c dest_peer dest_relay;
                    nd = nd\<lparr>cn_turns := dict_set pipe_id (Some (c, offset)) (cn_turns nd)\<rparr>
                in case res of
                     Inl e \<Rightarrow> (Err e, Some (c, offset), nd)
                   | Inr already \<Rightarrow> (Ok already, Some (c, offset), pipe_ready pipe_id (ce_turn_pipe env c) nd))
           | _ \<Rightarrow> (Err AttributeError, client, nd)))"

definition relay_send ::
  "('p, 's, 'c) con_env \<Rightarrow> p2p_pipe \<Rightarrow> af \<Rightarrow> string \<Rightarrow> if_info \<Rightarrow> if_info \<Rightarrow> json \<Rightarrow> sig_msg option \<Rightarrow> ('c \<times> json) option \<Rightarrow>
   ('p, 's, 'c) con_node \<Rightarrow> 'p con_val option res \<times> ('p, 's, 'c) con_node" where
  "relay_send env pp af pipe_id src_info dest_info addr_type reply client nd =
     (case client of
        None \<Rightarrow> (Err AttributeError, nd)
      | Some (c, offset) \<Rightarrow>
          (case ce_turn_tups env c of
             Inl e \<Rightarrow> (Err e, nd)
           | Inr (peer_tup, relay_tup) \<Rightarrow>
               (case cn_route_msg (sig_data 30 af pipe_id src_info dest_info addr_type pp
                       [(''payload'', JObj [(''peer_tup'', peer_tup), (''relay_tup'', relay_tup), (''serv_id'', offset)])] nd)
                       SIG_TURN reply 3 nd of
                  (Inl e, nd) \<Rightarrow> (Err e, nd)
                | (Inr _, nd) \<Rightarrow>
                    (case await_pipe env pipe_id nd of
                       (Inl _, nd) \<Rightarrow> (Ok None, nd)
                     | (Inr v, nd) \<Rightarrow> (Ok v, nd)))))"

definition udp_turn_relay ::
  "('p, 's, 'c) con_env \<Rightarrow> p2p_pipe \<Rightarrow> af \<Rightarrow> string \<Rightarrow> if_info \<Rightarrow> if_info \<times> string \<Rightarrow> json \<Rightarrow> sig_msg option \<Rightarrow> ('p, 's, 'c) con_node \<Rightarrow>
   'p con_val option res \<times> ('p, 's, 'c) con_node" where
  "udp_turn_relay env pp af pipe_id src_info dest addr_type reply nd =
     (if is_nic addr_type then (Ok None, nd)
      else (case load_relay env af pipe_id src_info reply nd of
              (Inl e, nd) \<Rightarrow> (Err e, nd)
            | (Inr client, nd) \<Rightarrow>
                (case relay_accept env pipe_id client reply nd of
                   (Inl e, client, nd) \<Rightarrow> (Err e, nd)
                 | (Inr True, client, nd) \<Rightarrow> (Ok (Some ConDone), nd)
                 | (Inr False, client, nd) \<Rightarrow> relay_send env pp af pipe_id src_info (fst dest) addr_type reply client nd)))"

definition turn_cleanup :: "('p, 's, 'c) con_env \<Rightarrow> ('p, 's, 'c) con_node cleanup" where
  "turn_cleanup env af pipe_id src_info dest addr_type reply nd =
     (case map_of (cn_turns nd) pipe_id of
        None \<Rightarrow> (Ok (), nd)
      | Some None \<Rightarrow> (Err AttributeError, nd)
      | Some (Some (c, _)) \<Rightarrow>
          (case ce_turn_close env c of
             Inl e \<Rightarrow> (Err e, nd)
           | Inr _ \<Rightarrow> (Ok (), nd\<lparr>cn_turns := dict_del pipe_id (cn_turns nd)\<rparr>)))"

section \<open>The whole of connecting\<close>

definition wrapped :: "'v option res \<times> 'n \<Rightarrow> 'v option \<times> 'n" where
  "wrapped r = (case r of (Inl _, nd) \<Rightarrow> (None, nd) | (Inr v, nd) \<Rightarrow> (v, nd))"

definition func_table :: "('p, 's, 'c) con_env \<Rightarrow> p2p_pipe \<Rightarrow> int \<Rightarrow> ('p, ('p, 's, 'c) con_node) strategy option" where
  "func_table env pp s =
     (if s = P2P_DIRECT then
        Some \<lparr>st_func = (\<lambda>af i src d t r nd. wrapped (direct_connect env af i src d t r nd)), st_cleanup = None,
              st_has_set_bind = True, st_max_pairs = 6\<rparr>
      else if s = P2P_REVERSE then
        Some \<lparr>st_func = (\<lambda>af i src d t r nd. wrapped (reverse_connect env pp af i src d t r nd)), st_cleanup = None,
              st_has_set_bind = True, st_max_pairs = 6\<rparr>
      else if s = P2P_PUNCH then
        Some \<lparr>st_func = (\<lambda>af i src d t r nd. wrapped (tcp_hole_punch env pp af i src d t r nd)), st_cleanup = Some tcp_punch_cleanup,
              st_has_set_bind = False, st_max_pairs = 4\<rparr>
      else if s = P2P_RELAY then
        Some \<lparr>st_func = (\<lambda>af i src d t r nd. wrapped (udp_turn_relay env pp af i src d t r nd)),
              st_cleanup = Some (turn_cleanup env), st_has_set_bind = True, st_max_pairs = 2\<rparr>
      else None)"

definition pipe_connect ::
  "('p, 's, 'c) con_env \<Rightarrow> p2p_pipe \<Rightarrow> int list \<Rightarrow> sig_msg option \<Rightarrow> p2p_conf \<Rightarrow> ('p, 's, 'c) con_node \<Rightarrow>
   'p option res \<times> ('p, 's, 'c) con_node" where
  "pipe_connect env pp strategies reply conf nd =
     connect (func_table env pp) (ce_log env) (ce_rand env) reply pp conf strategies nd"

text \<open>The task a message from a peer started.\<close>

definition run_con_task :: "('p, 's, 'c) con_env \<Rightarrow> ('p, 's, 'c) con_node \<Rightarrow> 'p option res \<times> ('p, 's, 'c) con_node" where
  "run_con_task env nd =
     (case nd_tasks (cn_sig nd) of
        [] \<Rightarrow> (Ok None, nd)
      | t # ts \<Rightarrow> pipe_connect env (ct_pp t) (ct_strategies t) (Some (ct_reply t)) (ct_conf t)
                    (nd\<lparr>cn_sig := (cn_sig nd)\<lparr>nd_tasks := ts\<rparr>\<rparr>))"

text \<open>
  Connecting by address or name, family by family. The result of no family at all is a local that was never
  assigned. \<open>fetch\<close> gives the value and the key a name is registered with, \<open>answer\<close> the node after waiting
  for the reply to the request for an address.
\<close>

fun connect_families ::
  "('p, 's, 'c) con_env \<Rightarrow> p2p_pipe \<Rightarrow> int list \<Rightarrow> p2p_conf \<Rightarrow> 'p option res \<Rightarrow> af list \<Rightarrow> ('p, 's, 'c) con_node \<Rightarrow>
   'p option res \<times> ('p, 's, 'c) con_node" where
  "connect_families env pp strategies conf pipe [] nd = (pipe, nd)"
| "connect_families env pp strategies conf pipe (af # afs) nd =
     (case pipe_connect env pp strategies None (conf\<lparr>cf_addr_families := [af]\<rparr>) nd of
        (Inl e, nd) \<Rightarrow> (Err e, nd)
      | (Inr (Some p), nd) \<Rightarrow> (Ok (Some p), nd)
      | (Inr None, nd) \<Rightarrow> connect_families env pp strategies conf (Ok None) afs nd)"

definition resolve_name ::
  "(string \<Rightarrow> (string \<times> bytes) res) \<Rightarrow> (string \<Rightarrow> ('p, 's, 'c) con_node \<Rightarrow> ('p, 's, 'c) con_node) \<Rightarrow> string \<Rightarrow> string \<Rightarrow>
   ('p, 's, 'c) con_node \<Rightarrow> string res \<times> ('p, 's, 'c) con_node" where
  "resolve_name fetch answer pipe_id name nd =
     (case fetch name of
        Inl e \<Rightarrow> (Err e, nd)
      | Inr (addr_bytes, vkc) \<Rightarrow>
          (case request_addr pipe_id addr_bytes vkc (cn_sig nd) of
             (Inl e, sg) \<Rightarrow> (Err e, nd\<lparr>cn_sig := sg\<rparr>)
           | (Inr _, sg) \<Rightarrow>
               (let nd = answer pipe_id (nd\<lparr>cn_sig := sg\<rparr>) in (Ok (resolved_addr pipe_id addr_bytes (cn_sig nd)), nd))))"

definition node_connect ::
  "('p, 's, 'c) con_env \<Rightarrow> (string \<Rightarrow> (string \<times> bytes) res) \<Rightarrow> (string \<Rightarrow> ('p, 's, 'c) con_node \<Rightarrow> ('p, 's, 'c) con_node) \<Rightarrow> string \<Rightarrow>
   string \<Rightarrow> int list \<Rightarrow> p2p_conf \<Rightarrow> ('p, 's, 'c) con_node \<Rightarrow> 'p option res \<times> ('p, 's, 'c) con_node" where
  "node_connect env fetch answer pipe_id addr_bytes strategies conf nd =
     (case (if pnp_name_has_tld addr_bytes then resolve_name fetch answer pipe_id addr_bytes nd else (Ok addr_bytes, nd)) of
        (Inl e, nd) \<Rightarrow> (Err e, nd)
      | (Inr addr_bytes, nd) \<Rightarrow>
          (case P2PPipe (cn_sig nd) addr_bytes of
             Inl e \<Rightarrow> (Err e, nd)
           | Inr pp \<Rightarrow> connect_families env pp strategies conf (Err (PyException ''UnboundLocalError''))
                         (cf_addr_families conf) nd))"

section \<open>What arrives on a pipe\<close>

definition ECHO_TEST :: bytes where "ECHO_TEST = to_b ''long_p2pd_test_string_abcd123''"
definition ECHO_REPLY :: bytes where "ECHO_REPLY = to_b (''p2pd test string'' @ [CHR 13, CHR 10, CHR 13, CHR 10])"

definition node_protocol ::
  "('p, 's, 'c) con_env \<Rightarrow> bytes \<Rightarrow> 'p \<Rightarrow> ('p, 's, 'c) con_node \<Rightarrow> unit res \<times> ('p, 's, 'c) con_node" where
  "node_protocol env msg pipe nd =
     (if msg = ECHO_TEST then
        (case ce_send env pipe ECHO_REPLY of
           Inl e \<Rightarrow> (Err e, nd)
         | Inr _ \<Rightarrow> (Ok (), nd\<lparr>cn_sent := cn_sent nd @ [(pipe, ECHO_REPLY)]\<rparr>))
      else (case split_on 32 msg of
              [cmd, pid] \<Rightarrow>
                if cmd = to_b CON_ID_MSG
                then (Ok (), pipe_ready (to_s pid) pipe (pipe_future (to_s pid) nd)) else (Ok (), nd)
            | _ \<Rightarrow> (Ok (), nd)))"

text \<open>A watched pipe is heard, then each line is handled and given to the handlers.\<close>

fun handle_lines ::
  "('p, 's, 'c) con_env \<Rightarrow> 'p \<Rightarrow> bytes list \<Rightarrow> ('p, 's, 'c) con_node \<Rightarrow> unit res \<times> ('p, 's, 'c) con_node" where
  "handle_lines env pipe [] nd = (Ok (), nd)"
| "handle_lines env pipe (m # ms) nd =
     (case node_protocol env m pipe nd of
        (Inl e, nd) \<Rightarrow> (Err e, nd)
      | (Inr _, nd) \<Rightarrow>
          handle_lines env pipe ms (nd\<lparr>cn_runs := cn_runs nd @ map (\<lambda>i. (pipe, i, m)) [0..<cn_msg_cbs nd]\<rparr>))"

definition node_msg_cb ::
  "('p, 's, 'c) con_env \<Rightarrow> bytes \<Rightarrow> 'p \<Rightarrow> ('p, 's, 'c) con_node \<Rightarrow> unit res \<times> ('p, 's, 'c) con_node" where
  "node_msg_cb env msg pipe nd =
     handle_lines env pipe (split_on 10 msg)
       (if pipe \<in> set (cn_recv_queue nd) then nd\<lparr>cn_recv_table := dict_set pipe (ce_wall env) (cn_recv_table nd)\<rparr> else nd)"

section \<open>Closing idle pipes\<close>

definition idle_limit :: "int \<Rightarrow> int \<Rightarrow> rat res" where
  "idle_limit active maxp =
     (if maxp = 0 then Err ZeroDivisionError else Ok (7200 - (7200 - 300) * (of_int active / of_int maxp)))"

text \<open>One scan of the queue, oldest first, then the closing of what it found.\<close>

fun idle_scan :: "rat \<Rightarrow> rat \<Rightarrow> ('p \<times> rat) list \<Rightarrow> 'p list \<Rightarrow> 'p list res" where
  "idle_scan cur_time limit table [] = Ok []"
| "idle_scan cur_time limit table (p # ps) =
     rbind (dict_get p table) (\<lambda>last_recv.
       if cur_time - last_recv \<le> 0 \<or> cur_time - last_recv < limit then Ok []
       else rmap (Cons p) (idle_scan cur_time limit table ps))"

definition close_one_idle :: "('p \<Rightarrow> unit res) \<Rightarrow> 'p \<Rightarrow> ('p, 's, 'c) con_node \<Rightarrow> ('p, 's, 'c) con_node res" where
  "close_one_idle close p nd =
     rmap (\<lambda>_. nd\<lparr>cn_recv_queue := remove1 p (cn_recv_queue nd), cn_recv_table := dict_del p (cn_recv_table nd)\<rparr>) (close p)"

definition close_idle_pass ::
  "('p \<Rightarrow> unit res) \<Rightarrow> rat \<Rightarrow> rat \<Rightarrow> ('p, 's, 'c) con_node \<Rightarrow> ('p list \<times> ('p, 's, 'c) con_node) res" where
  "close_idle_pass close cur_time limit nd =
     rbind (idle_scan cur_time limit (cn_recv_table nd) (cn_recv_queue nd)) (\<lambda>ps.
     rmap (Pair ps) (rfold (close_one_idle close) ps nd))"

text \<open>
  The task: the limit and the clock are read, then round after round scans and closes, and sleeps while pipes are
  watched and messages arrive. Of the clock, the reading with number 0 is the one before the loop and the others those at
  the starts of the rounds; every round uses the one before the loop.
\<close>

datatype ('p, 's, 'c) idle_event = IdleWatch rat 'p | IdleMsg "('p, 's, 'c) con_env" bytes 'p

fun idle_event_step :: "('p, 's, 'c) con_node \<Rightarrow> ('p, 's, 'c) idle_event \<Rightarrow> ('p, 's, 'c) con_node" where
  "idle_event_step nd (IdleWatch wall p) = watch_pipe wall p nd"
| "idle_event_step nd (IdleMsg env msg p) = snd (node_msg_cb env msg p nd)"

fun idle_rounds ::
  "('p \<Rightarrow> unit res) \<Rightarrow> (nat \<Rightarrow> rat) \<Rightarrow> rat \<Rightarrow> nat \<Rightarrow> ('p, 's, 'c) idle_event list list \<Rightarrow> ('p, 's, 'c) con_node \<Rightarrow>
   ('p list list \<times> ('p, 's, 'c) con_node) res" where
  "idle_rounds close cur_time limit i [] nd = Ok ([], nd)"
| "idle_rounds close cur_time limit i (sleep # rest) nd =
     rbind (close_idle_pass close (cur_time i) limit nd) (\<lambda>(ps, nd).
     rmap (\<lambda>(pss, nd). (ps # pss, nd)) (idle_rounds close cur_time limit (Suc i) rest (foldl idle_event_step nd sleep)))"

definition close_idle_pipes ::
  "('p \<Rightarrow> unit res) \<Rightarrow> (nat \<Rightarrow> rat) \<Rightarrow> int \<Rightarrow> int \<Rightarrow> ('p, 's, 'c) idle_event list list \<Rightarrow> ('p, 's, 'c) con_node \<Rightarrow>
   ('p list list \<times> ('p, 's, 'c) con_node) res" where
  "close_idle_pipes close clock active maxp sleeps nd =
     rbind (idle_limit active maxp) (\<lambda>abs_placement. idle_rounds close (\<lambda>i. clock 0) abs_placement 1 sleeps nd)"

section \<open>Signal servers\<close>

lemma py_get_mem: "py_get xs i = Inr x \<Longrightarrow> x \<in> set xs"
  by (auto simp: py_get_def Let_def split: if_splits)

lemma length_remove1_mem: "x \<in> set xs \<Longrightarrow> length (remove1 x xs) < length xs"
  by (induction xs) auto

text \<open>The order in which servers are tried, from the hash of the node id.\<close>

function signal_order :: "int \<Rightarrow> nat list \<Rightarrow> nat list res" where
  "signal_order x [] = Ok []"
| "signal_order x (n # ns) =
     (case field_wrap x (0, int (length ns)) of
        Inl e \<Rightarrow> Err e
      | Inr None \<Rightarrow> Err TypeError
      | Inr (Some pos) \<Rightarrow>
          (case py_get (n # ns) pos of
             Inl e \<Rightarrow> Err e
           | Inr index \<Rightarrow> rmap (Cons index) (signal_order x (remove1 index (n # ns)))))"
  by pat_completeness auto

termination
  by (relation "measure (length \<circ> snd)") (auto dest!: py_get_mem simp: length_remove1_mem split: if_splits)

text \<open>
  Loading: each server by the families the node supports, until there are two successes for each family or
  eleven servers were tried. A server whose test message came back is stored under its offset.
\<close>

definition load_signal_pipe :: "(af \<Rightarrow> nat \<Rightarrow> bool) \<Rightarrow> af \<Rightarrow> nat \<Rightarrow> int list \<Rightarrow> bool \<times> int list" where
  "load_signal_pipe valid af index loaded =
     (if valid af index then (True, if int index \<in> set loaded then loaded else loaded @ [int index]) else (False, loaded))"

fun load_server ::
  "(nat \<Rightarrow> af \<Rightarrow> bool) \<Rightarrow> (af \<Rightarrow> nat \<Rightarrow> bool) \<Rightarrow> nat \<Rightarrow> af list \<Rightarrow> nat \<times> int list \<Rightarrow> nat \<times> int list" where
  "load_server has valid index [] s = s"
| "load_server has valid index (af # afs) (successes, loaded) =
     (if \<not> has index af then load_server has valid index afs (successes, loaded)
      else (let (ok, loaded) = load_signal_pipe valid af index loaded
            in load_server has valid index afs (if ok then successes + 1 else successes, loaded)))"

fun load_servers ::
  "(nat \<Rightarrow> af \<Rightarrow> bool) \<Rightarrow> (af \<Rightarrow> nat \<Rightarrow> bool) \<Rightarrow> nat \<Rightarrow> nat \<Rightarrow> af list \<Rightarrow> nat \<Rightarrow> nat list \<Rightarrow> nat \<times> int list \<Rightarrow> nat \<times> int list" where
  "load_servers has valid min_success max_attempt_no afs attempt_no [] s = s"
| "load_servers has valid min_success max_attempt_no afs attempt_no (index # rest) s =
     (let s = load_server has valid index afs s in
      if fst s \<ge> length afs * min_success then s
      else if attempt_no + 1 > max_attempt_no then s
      else load_servers has valid min_success max_attempt_no afs (attempt_no + 1) rest s)"

definition load_signal_pipes ::
  "(nat \<Rightarrow> af \<Rightarrow> bool) \<Rightarrow> (af \<Rightarrow> nat \<Rightarrow> bool) \<Rightarrow> int \<Rightarrow> nat \<Rightarrow> af list \<Rightarrow> ('p, 's, 'c) con_node \<Rightarrow> ('p, 's, 'c) con_node res" where
  "load_signal_pipes has valid x servers afs nd =
     rmap (\<lambda>order. nd\<lparr>cn_sig := (cn_sig nd)\<lparr>nd_signal_pipes :=
              snd (load_servers has valid 2 10 afs 0 order (0, nd_signal_pipes (cn_sig nd)))\<rparr>\<rparr>)
       (signal_order x [0..<servers])"


section \<open>Shutting down\<close>

text \<open>What \<open>close\<close> closes, in order: relay clients that never worked and pending pipes are left out.\<close>

datatype 'p closing = CloseSignal int | ClosePuncher string | CloseTurn string | ClosePipe 'p

definition close_targets :: "('p, 's, 'c) con_node \<Rightarrow> 'p closing list" where
  "close_targets nd =
     map CloseSignal (nd_signal_pipes (cn_sig nd)) @ map (ClosePuncher \<circ> fst) (cn_punchers nd) @
     map (CloseTurn \<circ> fst) (filter (\<lambda>(_, c). c \<noteq> None) (cn_turns nd)) @
     concat (map (\<lambda>(_, f). case f of Done p \<Rightarrow> [ClosePipe p] | Pending \<Rightarrow> []) (cn_pipes nd))"

fun close_in_order :: "('a \<Rightarrow> unit res) \<Rightarrow> 'a list \<Rightarrow> 'a list \<times> unit res" where
  "close_in_order close [] = ([], Ok ())"
| "close_in_order close (x # xs) =
     (case close x of
        Inl e \<Rightarrow> ([], Err e)
      | Inr _ \<Rightarrow> (let (done', r) = close_in_order close xs in (x # done', r)))"


section \<open>Tables of pending pipes\<close>

lemma map_of_pipe_future:
  "map_of (cn_pipes (pipe_future i nd)) j =
     (if j = i \<and> map_of (cn_pipes nd) i = None then Some Pending else map_of (cn_pipes nd) j)"
  by (auto simp: pipe_future_def map_of_eq_None_iff)

lemma map_of_pipe_ready:
  "map_of (cn_pipes (pipe_ready i p nd)) j =
     (if j = i \<and> map_of (cn_pipes nd) i = Some Pending then Some (Done p) else map_of (cn_pipes nd) j)"
  by (auto simp: pipe_ready_def split: option.splits fut.splits)

lemma pipe_future_fields [simp]:
  "cn_sig (pipe_future i nd) = cn_sig nd" "cn_sent (pipe_future i nd) = cn_sent nd"
  "cn_recv_queue (pipe_future i nd) = cn_recv_queue nd" "cn_recv_table (pipe_future i nd) = cn_recv_table nd"
  by (simp_all add: pipe_future_def)

lemma pipe_ready_fields [simp]:
  "cn_sig (pipe_ready i p nd) = cn_sig nd" "cn_sent (pipe_ready i p nd) = cn_sent nd"
  "cn_recv_queue (pipe_ready i p nd) = cn_recv_queue nd" "cn_recv_table (pipe_ready i p nd) = cn_recv_table nd"
  by (simp_all add: pipe_ready_def split: option.splits fut.splits)

lemma node_protocol_done:
  "map_of (cn_pipes nd) i = Some (Done p) \<Longrightarrow> map_of (cn_pipes (snd (node_protocol env msg q nd))) i = Some (Done p)"
  by (auto simp: node_protocol_def map_of_pipe_ready map_of_pipe_future split: sum.splits list.splits)

lemma handle_lines_done:
  "map_of (cn_pipes nd) i = Some (Done p) \<Longrightarrow> map_of (cn_pipes (snd (handle_lines env q ms nd))) i = Some (Done p)"
proof (induction env q ms nd rule: handle_lines.induct)
  case (2 env q m ms nd)
  then show ?case
    using node_protocol_done [OF 2(2), of env m q] by (auto split: prod.splits sum.splits)
qed simp

lemma node_protocol_watch:
  "cn_recv_queue (snd (node_protocol env m q nd)) = cn_recv_queue nd \<and> cn_recv_table (snd (node_protocol env m q nd)) = cn_recv_table nd"
  by (auto simp: node_protocol_def split: sum.splits list.splits)

lemma handle_lines_watch:
  "cn_recv_queue (snd (handle_lines env q ms nd)) = cn_recv_queue nd \<and> cn_recv_table (snd (handle_lines env q ms nd)) = cn_recv_table nd"
proof (induction env q ms nd rule: handle_lines.induct)
  case (2 env q m ms nd)
  then show ?case
    using node_protocol_watch [of env m q nd] by (auto split: prod.splits sum.splits)
qed simp

section \<open>The identifying line\<close>

definition plain_id :: "string \<Rightarrow> bool" where
  "plain_id s \<longleftrightarrow> ascii s \<and> CHR '' '' \<notin> set s \<and> CHR 10 \<notin> set s"

lemma con_id_lines:
  assumes "plain_id pid"
  shows "split_on 10 (con_id_msg pid) = [to_b CON_ID_MSG @ 32 # to_b pid, []]"
    and "split_on 32 (to_b CON_ID_MSG @ 32 # to_b pid) = [to_b CON_ID_MSG, to_b pid]"
proof -
  have n: "10 \<notin> set (to_b pid)" "32 \<notin> set (to_b pid)"
    using assms to_b_notin [of pid "CHR 10"] to_b_notin [of pid "CHR '' ''"] by (auto simp: plain_id_def)
  have k: "10 \<notin> set (to_b CON_ID_MSG)" "32 \<notin> set (to_b CON_ID_MSG)" by (simp_all add: CON_ID_MSG_def to_b_def)
  have e: "con_id_msg pid = (to_b CON_ID_MSG @ 32 # to_b pid) @ 10 # []"
    by (simp add: con_id_msg_def to_b_append) (simp add: to_b_def)
  show "split_on 10 (con_id_msg pid) = [to_b CON_ID_MSG @ 32 # to_b pid, []]"
    unfolding e using n k by (subst split_on_append) auto
  show "split_on 32 (to_b CON_ID_MSG @ 32 # to_b pid) = [to_b CON_ID_MSG, to_b pid]"
    using n k by (simp add: split_on_append split_on_part)
qed


lemma con_id_received:
  assumes "plain_id pid"
  shows "fst (node_msg_cb env (con_id_msg pid) q nd) = Inr ()"
    and "map_of (cn_pipes (snd (node_msg_cb env (con_id_msg pid) q nd))) pid =
      (case map_of (cn_pipes nd) pid of Some (Done p) \<Rightarrow> Some (Done p) | _ \<Rightarrow> Some (Done q))"
proof -
  have e: "to_b CON_ID_MSG @ 32 # to_b pid \<noteq> ECHO_TEST" "[] \<noteq> ECHO_TEST"
    by (simp_all add: ECHO_TEST_def CON_ID_MSG_def to_b_def)
  have t: "to_s (to_b pid) = pid" using assms by (simp add: plain_id_def to_s_to_b)
  have one: "node_protocol env (to_b CON_ID_MSG @ 32 # to_b pid) q n = (Ok (), pipe_ready pid q (pipe_future pid n))" for n
    using e(1) con_id_lines(2) [OF assms] t by (simp add: node_protocol_def)
  have two: "node_protocol env [] q n = (Ok (), n)" for n
    using e(2) by (simp add: node_protocol_def)
  show "fst (node_msg_cb env (con_id_msg pid) q nd) = Inr ()"
    by (simp add: node_msg_cb_def con_id_lines(1) [OF assms] one two)
  show "map_of (cn_pipes (snd (node_msg_cb env (con_id_msg pid) q nd))) pid =
      (case map_of (cn_pipes nd) pid of Some (Done p) \<Rightarrow> Some (Done p) | _ \<Rightarrow> Some (Done q))"
    by (auto simp: node_msg_cb_def con_id_lines(1) [OF assms] one two map_of_pipe_ready map_of_pipe_future
        split: option.splits fut.splits)
qed

section \<open>Answering a request to connect\<close>

text \<open>
  What the environment of a node has to offer for a task to open a pipe: both addresses know the interfaces of
  the message, there is an address to use, and it can be dialled, sent to and logged.
\<close>

definition direct_ready :: "('p, 's, 'c) con_env \<Rightarrow> ('p, 's, 'c) con_node \<Rightarrow> con_task \<Rightarrow> 'p \<Rightarrow> bool" where
  "direct_ready env nd t p \<longleftrightarrow>
     (let m = ct_reply t; af = mt_af (sg_meta m); k = ro_dest_index (sg_routing m) in
      \<exists>s d ty tys ipr ip ips.
        map_of (pa_infos (nd_addr (cn_sig nd)) af) k = Some s \<and> ii_if_index s = k \<and> 0 \<le> k \<and> k < int (nd_ifs (cn_sig nd)) \<and>
        map_of (pa_infos (pp_dest (ct_pp t)) af) (mt_src_index (sg_meta m)) = Some d \<and>
        cf_addr_types (ct_conf t) = JArr (ty # tys) \<and> use_addr_type ty = (ty, False) \<and>
        select_dest_ipr (pp_same_machine (ct_pp t)) s d [ty] True = Some ipr \<and> ipr_norm ipr = Inr ip \<and>
        direct_bind env af k ip = Inr ips \<and> ce_open env af k ips (ip, ii_port d) = Inr (Some p) \<and>
        ce_has_sock env p \<and> ce_send env p (con_id_msg (mt_pipe_id (sg_meta m))) = Inr () \<and> ce_log env p = Inr ())"

lemma direct_task_connects:
  assumes t: "nd_tasks (cn_sig nd) = t # ts" "ct_strategies t = [P2P_DIRECT]" and rdy: "direct_ready env nd t p"
    and pid: "pid = mt_pipe_id (sg_meta (ct_reply t))" and fresh: "pid \<notin> fst ` set (cn_pipes nd)"
  shows "\<exists>nd'. run_con_task env nd = (Inr (Some p), nd') \<and> cn_sent nd' = cn_sent nd @ [(p, con_id_msg pid)] \<and>
    map_of (cn_pipes nd') pid = Some (Done p)"
proof -
  let ?m = "ct_reply t"
  let ?af = "mt_af (sg_meta ?m)" and ?k = "ro_dest_index (sg_routing ?m)"
  let ?n = "nd\<lparr>cn_sig := (cn_sig nd)\<lparr>nd_tasks := ts\<rparr>\<rparr>"
  from rdy [unfolded direct_ready_def Let_def] obtain s d ty tys ipr ip ips where
    s: "map_of (pa_infos (nd_addr (cn_sig nd)) ?af) ?k = Some s" "ii_if_index s = ?k" "0 \<le> ?k" "?k < int (nd_ifs (cn_sig nd))"
    and d: "map_of (pa_infos (pp_dest (ct_pp t)) ?af) (mt_src_index (sg_meta ?m)) = Some d"
    and ty: "cf_addr_types (ct_conf t) = JArr (ty # tys)" "use_addr_type ty = (ty, False)"
    and ipr: "select_dest_ipr (pp_same_machine (ct_pp t)) s d [ty] True = Some ipr" "ipr_norm ipr = Inr ip"
    and op: "direct_bind env ?af ?k ip = Inr ips" "ce_open env ?af ?k ips (ip, ii_port d) = Inr (Some p)"
      "ce_has_sock env p" "ce_send env p (con_id_msg (mt_pipe_id (sg_meta ?m))) = Inr ()" "ce_log env p = Inr ()"
    by blast
  define nd' where "nd' = pipe_ready pid p ((pipe_future pid ?n)\<lparr>cn_sent := cn_sent nd @ [(p, con_id_msg pid)]\<rparr>)"
  have f: "direct_connect env ?af pid s (d, ip) ty (Some ?m) (pipe_future pid ?n) = (Ok (Some (ConPipe p)), nd')"
    using op s(2) by (simp add: direct_connect_def pid nd'_def)
  have "run_con_task env nd = (Inr (Some p), nd')"
    using t s d ty ipr f op(5)
    by (simp add: run_con_task_def pipe_connect_def func_table_def for_addr_infos_def jiter_def try_addr_infos_def Let_def
        pid [symmetric] wrapped_def rmap_def)
  moreover have "map_of (cn_pipes nd') pid = Some (Done p)"
    using fresh by (simp add: nd'_def map_of_pipe_ready) (simp add: map_of_pipe_future map_of_eq_None_iff)
  ultimately show ?thesis by (simp add: nd'_def)
qed

section \<open>Watched pipes\<close>

definition stamps_ok :: "rat \<Rightarrow> ('p, 's, 'c) con_node \<Rightarrow> bool" where
  "stamps_ok start nd \<longleftrightarrow>
     (\<forall>p \<in> set (cn_recv_queue nd). \<exists>t. map_of (cn_recv_table nd) p = Some t \<and> start \<le> t)"

lemma stamps_pass:
  assumes "stamps_ok start nd"
  shows "close_idle_pass close start limit nd = Inr ([], nd)"
proof -
  have "idle_scan start limit (cn_recv_table nd) (cn_recv_queue nd) = Inr []"
    using assms by (cases "cn_recv_queue nd") (auto simp: stamps_ok_def dict_get_def)
  then show ?thesis by (simp add: close_idle_pass_def rmap_def)
qed

fun idle_stamp :: "('p, 's, 'c) idle_event \<Rightarrow> rat" where
  "idle_stamp (IdleWatch wall p) = wall"
| "idle_stamp (IdleMsg env msg p) = ce_wall env"

lemma stamps_event: "stamps_ok start nd \<Longrightarrow> start \<le> idle_stamp ev \<Longrightarrow> stamps_ok start (idle_event_step nd ev)"
  by (cases ev)
    (auto simp: stamps_ok_def watch_pipe_def node_msg_cb_def handle_lines_watch [THEN conjunct1] handle_lines_watch [THEN conjunct2])

lemma stamps_events:
  "stamps_ok start nd \<Longrightarrow> \<forall>ev \<in> set evs. start \<le> idle_stamp ev \<Longrightarrow> stamps_ok start (foldl idle_event_step nd evs)"
  by (induction evs arbitrary: nd) (simp_all add: stamps_event)

lemma idle_rounds_nothing:
  "stamps_ok start nd \<Longrightarrow> \<forall>ev \<in> set (concat sleeps). start \<le> idle_stamp ev \<Longrightarrow>
   idle_rounds close (\<lambda>i. start) limit i sleeps nd =
     Inr (replicate (length sleeps) [], foldl idle_event_step nd (concat sleeps))"
  by (induction sleeps arbitrary: nd i) (simp_all add: stamps_pass stamps_events rmap_def)

section \<open>The order of the signal servers\<close>

lemma field_wrap_0: "\<exists>pos. field_wrap x (0, int n) = Inr (Some pos) \<and> 0 \<le> pos \<and> pos \<le> int n"
  using field_wrap_eq [of "(0, int n)" x] field_wrap_val_in_range [of "(0, int n)" x] by (auto simp: in_range_def)

lemma signal_order_mset: "\<exists>ys. signal_order x xs = Inr ys \<and> mset ys = mset xs"
proof (induction x xs rule: signal_order.induct)
  case (2 x n ns)
  obtain pos where p: "field_wrap x (0, int (length ns)) = Inr (Some pos)" "0 \<le> pos" "pos \<le> int (length ns)"
    using field_wrap_0 by blast
  have g: "py_get (n # ns) pos = Inr ((n # ns) ! nat pos)" (is "_ = Inr ?i")
    using p(2,3) py_get_nat [of "nat pos" "n # ns"] by simp
  obtain ys where ys: "signal_order x (remove1 ?i (n # ns)) = Inr ys" "mset ys = mset (remove1 ?i (n # ns))"
    using 2 [OF p(1) refl g] by blast
  have "?i \<in># mset (n # ns)" using py_get_mem [OF g] by (simp only: set_mset_mset)
  then have "mset (?i # ys) = mset (n # ns)"
    by (simp only: mset.simps(2) [of ?i ys] ys(2) mset_remove1 insert_DiffM)
  moreover have "signal_order x (n # ns) = Inr (?i # ys)"
    using p(1) g ys(1) by (simp add: rmap_def)
  ultimately show ?case by blast
qed simp


section \<open>The limit on pairs\<close>

text \<open>A technique that also notes which family and address type it was run for.\<close>

definition noting ::
  "(af \<Rightarrow> json \<Rightarrow> if_info \<Rightarrow> if_info \<Rightarrow> 'n \<Rightarrow> 'v option \<times> 'n) \<Rightarrow>
   af \<Rightarrow> json \<Rightarrow> if_info \<Rightarrow> if_info \<Rightarrow> 'n \<times> (af \<times> json) list \<Rightarrow> 'v option \<times> 'n \<times> (af \<times> json) list" where
  "noting f af t s d = (\<lambda>(nd, trail). let (v, nd) = f af t s d nd in (v, nd, trail @ [(af, t)]))"

definition pairs_of :: "peer_addr \<Rightarrow> peer_addr \<Rightarrow> af \<Rightarrow> nat" where
  "pairs_of src dest af = length (pa_infos src af) * length (pa_infos dest af)"

lemma try_pairs_fail:
  assumes "\<forall>af t s d n. fst (f af t s d n) = None" and "tries \<le> max_pairs"
  shows "\<exists>nd'. try_pairs (noting f af t) max_pairs tries pairs (nd, trail) =
    (if tries + length pairs > max_pairs then (Limit, nd', trail @ replicate (max_pairs + 1 - tries) (af, t))
     else (Tried (tries + length pairs), nd', trail @ replicate (length pairs) (af, t)))"
  using assms(2)
proof (induction pairs arbitrary: tries nd trail)
  case (Cons p pairs)
  obtain s d where p: "p = (s, d)" by (cases p)
  obtain n' where f: "f af t s d nd = (None, n')" using assms(1) by (metis prod.collapse)
  show ?case
  proof (cases "tries + 1 > max_pairs")
    case True
    then have "max_pairs + 1 - tries = 1" using Cons.prems by simp
    then show ?thesis using True by (simp add: p noting_def f)
  next
    case False
    have r: "(af, t) # replicate (max_pairs - tries) (af, t) = replicate (Suc max_pairs - tries) (af, t)"
      using Cons.prems by (simp add: Suc_diff_le)
    show ?thesis
      using False Cons.IH [of "tries + 1" n' "trail @ [(af, t)]"] by (auto simp: p noting_def f r)
  qed
qed simp

lemma length_pair_order:
  assumes "is_ext t \<or> is_nic t"
  shows "\<exists>ps. pair_order t (sort_pairs_by_overlap (infos_of src af) (infos_of dest af)) old = Some ps \<and>
    length ps = pairs_of src dest af"
proof -
  have l: "length (filter P xs) + length (filter (Not \<circ> P) xs) = length xs" for P and xs :: "(if_info \<times> if_info) list"
    using sum_length_filter_compl [of P xs] by (simp add: comp_def)
  have c: "length (concat (map (\<lambda>s. map (Pair s) (infos_of dest af)) (infos_of src af))) = pairs_of src dest af"
    by (simp add: length_concat comp_def pairs_of_def infos_of_def sum_list_triv)
  show ?thesis
    using assms l c by (auto simp: pair_order_def sort_pairs_by_overlap_def Let_def partition_filter_conv comp_def add.commute)
qed

lemma try_families_limit:
  assumes "\<forall>af t s d n. fst (f af t s d n) = None" and "is_ext t \<or> is_nic t" and "tries \<le> max_pairs"
    and "max_pairs < tries + (\<Sum>af\<leftarrow>afs. pairs_of src dest af)"
  shows "\<exists>old' nd' new. try_families (noting f) max_pairs None src dest t tries old afs (nd, trail) =
      (FamReturn (Ok (None, None)), old', nd', trail @ new) \<and> length new = max_pairs + 1 - tries \<and> snd ` set new \<subseteq> {t}"
  using assms(3,4)
proof (induction afs arbitrary: tries old nd trail)
  case (Cons af afs)
  obtain ps where ps: "pair_order t (sort_pairs_by_overlap (infos_of src af) (infos_of dest af)) old = Some ps"
    "length ps = pairs_of src dest af"
    using length_pair_order [OF assms(2)] by blast
  obtain nd' where t: "try_pairs (noting f af t) max_pairs tries ps (nd, trail) =
    (if tries + length ps > max_pairs then (Limit, nd', trail @ replicate (max_pairs + 1 - tries) (af, t))
     else (Tried (tries + length ps), nd', trail @ replicate (length ps) (af, t)))"
    using try_pairs_fail [OF assms(1) Cons.prems(1)] by blast
  show ?case
  proof (cases "tries + length ps > max_pairs")
    case True
    then show ?thesis using ps t by (auto intro!: exI [of _ "replicate (max_pairs + 1 - tries) (af, t)"])
  next
    case False
    then have le: "tries + length ps \<le> max_pairs" and
      more: "max_pairs < tries + length ps + (\<Sum>af\<leftarrow>afs. pairs_of src dest af)"
      using Cons.prems(2) ps(2) by simp_all
    obtain old' nd2 new where r: "try_families (noting f) max_pairs None src dest t (tries + length ps) (Some ps) afs
        (nd', trail @ replicate (length ps) (af, t)) = (FamReturn (Ok (None, None)), old', nd2, (trail @ replicate (length ps) (af, t)) @ new)"
      "length new = max_pairs + 1 - (tries + length ps)" "snd ` set new \<subseteq> {t}"
      using Cons.IH [OF le more] by blast
    have "try_families (noting f) max_pairs None src dest t tries old (af # afs) (nd, trail) =
        (FamReturn (Ok (None, None)), old', nd2, trail @ replicate (length ps) (af, t) @ new)"
      using False ps(1) t r(1) by simp
    moreover have "length (replicate (length ps) (af, t) @ new) = max_pairs + 1 - tries"
      using le r(2) by simp
    moreover have "snd ` set (replicate (length ps) (af, t) @ new) \<subseteq> {t}"
      using r(3) by auto
    ultimately show ?thesis by blast
  qed
qed simp


section \<open>An example\<close>

definition ex_if :: "int \<Rightarrow> int \<Rightarrow> int \<Rightarrow> if_info" where
  "ex_if i nic ext = \<lparr>ii_netiface_index = i, ii_if_index = 0, ii_ext = ex_ipr ext 32, ii_nic = ex_ipr nic 32,
     ii_nat = ex_punch_nat FULL_CONE EQUAL_DELTA, ii_port = 10001\<rparr>"

definition ex_padr :: "string \<Rightarrow> if_info \<Rightarrow> peer_addr" where
  "ex_padr node_id i = \<lparr>pa_infos = (\<lambda>af. if af = IP4 then [(0, i)] else []), pa_node_id = node_id, pa_signal = [0],
     pa_machine_id = node_id, pa_bytes = []\<rparr>"

definition ex_cn :: "sig_node \<Rightarrow> (string \<times> nat fut) list \<Rightarrow> (nat, nat, nat) con_node" where
  "ex_cn sg pipes = \<lparr>cn_sig = sg, cn_pipes = pipes, cn_punchers = [], cn_turns = [], cn_active = 0, cn_max = 4,
     cn_scheduled = [], cn_due = [], cn_recv_queue = [], cn_recv_table = [], cn_msg_cbs = 0, cn_drawn = 0, cn_sent = [],
     cn_runs = []\<rparr>"

definition ex_con_env :: "(nat, nat, nat) con_env" where
  "ex_con_env = \<lparr>ce_bind = (\<lambda>_ _ _. Ok ()), ce_link_local = (\<lambda>_ _. Err IndexError), ce_open = (\<lambda>_ _ _ _. Ok (Some 7)),
     ce_has_sock = (\<lambda>_. True), ce_send = (\<lambda>_ _. Ok ()), ce_wait = (\<lambda>_ nd. (None, nd)), ce_time = 1000, ce_dec = (\<lambda>_. (0, 0)),
     ce_wall = 5, ce_draw = id, ce_stun_no = (\<lambda>_ _. 0), ce_stuns = (\<lambda>_ _ _. Ok None), ce_turn_servers = [], ce_turn_order = [],
     ce_turn_start = (\<lambda>_ _ _. Err OSError), ce_turn_tups = (\<lambda>_. Err OSError), ce_turn_accept = (\<lambda>c _ _. (Err OSError, c)),
     ce_turn_pipe = id, ce_turn_close = (\<lambda>_. Ok ()), ce_rand = (\<lambda>_. ''id''), ce_log = (\<lambda>_. Ok ())\<rparr>"

definition ex_request :: "string \<Rightarrow> sig_msg" where
  "ex_request pid = \<lparr>sg_enum = SIG_CON,
     sg_meta = \<lparr>mt_ttl = 1010, mt_pipe_id = pid, mt_src_buf = [], mt_src_index = 0, mt_af = IP4, mt_same_machine = False,
       mt_addr_types = JArr [JNIC_BIND], mt_src = ex_padr ''b'' (ex_if 0 20 21), mt_src_info = ex_if 0 20 21\<rparr>,
     sg_routing = \<lparr>ro_dest_buf = [], ro_dest_index = 0, ro_af = IP4, ro_cur_dest_buf = None,
       ro_dest = ex_padr ''a'' (ex_if 0 10 11), ro_dest_info = ex_if 0 10 11\<rparr>,
     sg_payload = NoPayload, sg_cipher = []\<rparr>"

definition ex_task :: con_task where
  "ex_task = \<lparr>ct_pp = \<lparr>pp_dest_bytes = [], pp_dest = ex_padr ''b'' (ex_if 0 20 21), pp_same_machine = False\<rparr>,
     ct_strategies = [P2P_DIRECT], ct_reply = ex_request ''pipe'',
     ct_conf = P2P_PIPE_CONF\<lparr>cf_addr_types := JArr [JNIC_BIND]\<rparr>\<rparr>"

lemma JNIC_types: "is_nic JNIC_BIND" "\<not> is_ext JNIC_BIND" "use_addr_type JNIC_BIND = (JNIC_BIND, False)"
  by (simp_all add: is_nic_def is_ext_def use_addr_type_def JNIC_BIND_def jeq_int_def bind_nos)

lemma ex_direct_ready:
  "direct_ready ex_con_env (ex_cn (ex_node ''a'' (ex_padr ''a'' (ex_if 0 10 11)) []) pipes) ex_task 7"
  using ex_ipr_norm [of 20]
  by (simp add: direct_ready_def Let_def ex_task_def ex_request_def ex_padr_def ex_cn_def ex_node_def ex_con_env_def JNIC_types
      direct_bind_def rmap_def del: ip_exploded.simps) (simp add: ex_if_def del: ip_exploded.simps)

section \<open>Properties\<close>

text \<open>C3: a request to connect back is met: a node that acts on a peer's connection message dials the address
  the peer wants, and the line it sends there makes the peer's message handler hand the accepted pipe to whoever
  waits for that id, while the node keeps its own end under the same id; both are the pipe of this connection.\<close>

theorem connection_request_met:
  assumes "nd_tasks (cn_sig nd) = t # ts" and "ct_strategies t = [P2P_DIRECT]" and "direct_ready env nd t p"
    and "pid = mt_pipe_id (sg_meta (ct_reply t))" and "pid \<notin> fst ` set (cn_pipes nd)" and "plain_id pid"
    and "map_of (cn_pipes peer) pid = Some Pending"
  shows "\<exists>nd' line. run_con_task env nd = (Inr (Some p), nd') \<and> cn_sent nd' = cn_sent nd @ [(p, line)] \<and>
    map_of (cn_pipes nd') pid = Some (Done p) \<and>
    map_of (cn_pipes (snd (node_msg_cb env2 line q peer))) pid = Some (Done q)"
proof -
  obtain nd' where "run_con_task env nd = (Inr (Some p), nd')" "cn_sent nd' = cn_sent nd @ [(p, con_id_msg pid)]"
    "map_of (cn_pipes nd') pid = Some (Done p)"
    using direct_task_connects [OF assms(1-5)] by blast
  then show ?thesis
    using con_id_received(2) [OF assms(6), of env2 q peer] assms(7) by auto
qed

theorem connection_request_met_witness:
  "\<exists>nd peer nd' line. run_con_task ex_con_env nd = (Inr (Some 7), nd') \<and> cn_sent nd' = [(7, line)] \<and>
     map_of (cn_pipes nd') ''pipe'' = Some (Done 7) \<and> map_of (cn_pipes peer) ''pipe'' = Some Pending \<and>
     map_of (cn_pipes (snd (node_msg_cb ex_con_env line 3 peer))) ''pipe'' = Some (Done 3)"
proof -
  let ?sg = "ex_node ''a'' (ex_padr ''a'' (ex_if 0 10 11)) []"
  let ?nd = "ex_cn (?sg\<lparr>nd_tasks := [ex_task]\<rparr>) []" and ?peer = "ex_cn ?sg [(''pipe'', Pending)]"
  have r: "direct_ready ex_con_env ?nd ex_task 7"
    using ex_direct_ready [of "[]"] by (simp add: direct_ready_def ex_cn_def)
  have "plain_id ''pipe''" by (simp add: plain_id_def ascii_def)
  then have "\<exists>nd' line. run_con_task ex_con_env ?nd = (Inr (Some 7), nd') \<and> cn_sent nd' = cn_sent ?nd @ [(7, line)] \<and>
      map_of (cn_pipes nd') ''pipe'' = Some (Done 7) \<and>
      map_of (cn_pipes (snd (node_msg_cb ex_con_env line 3 ?peer))) ''pipe'' = Some (Done 3)"
    by (intro connection_request_met [of ?nd ex_task "[]", OF _ _ r])
      (simp_all add: ex_cn_def ex_task_def ex_request_def)
  moreover have "cn_sent ?nd = []" "map_of (cn_pipes ?peer) ''pipe'' = Some Pending" by (simp_all add: ex_cn_def)
  ultimately show ?thesis by (metis append_Nil)
qed

text \<open>C21: what a peer sends cannot take over a connection: once an id has its pipe, no message on any pipe, whatever
  ids it claims, changes which pipe that is.\<close>

theorem finished_pipe_kept:
  assumes "map_of (cn_pipes nd) i = Some (Done p)"
  shows "map_of (cn_pipes (snd (node_msg_cb env msg q nd))) i = Some (Done p)"
  unfolding node_msg_cb_def using assms by (intro handle_lines_done) simp

theorem finished_pipe_kept_witness:
  "map_of (cn_pipes (snd (node_msg_cb ex_con_env (con_id_msg ''pipe'') 9 (ex_cn (ex_node ''a'' (ex_padr ''a'' (ex_if 0 10 11)) []) [(''pipe'', Done 7)])))) ''pipe'' = Some (Done 7)"
  by (rule finished_pipe_kept) (simp add: ex_cn_def)

text \<open>C22: idle pipes are never closed: the task that should close them reads the clock once, before its first round,
so whatever is watched or heard while it runs, however late its rounds are and however the limit was computed, every round
finds nothing to close; the task changes nothing and only fails if the limit cannot be computed.\<close>

theorem idle_pipes_never_closed:
  assumes "cn_recv_queue nd = []" and "\<forall>ev \<in> set (concat sleeps). clock 0 \<le> idle_stamp ev"
  shows "close_idle_pipes close clock active maxp sleeps nd =
    rmap (\<lambda>limit. (replicate (length sleeps) [], foldl idle_event_step nd (concat sleeps))) (idle_limit active maxp)"
proof -
  have "stamps_ok (clock 0) nd" using assms(1) by (simp add: stamps_ok_def)
  then show ?thesis
    using idle_rounds_nothing [OF _ assms(2)] by (cases "idle_limit active maxp") (simp_all add: close_idle_pipes_def rmap_def)
qed

text \<open>A pipe last heard of at time 6 is still there in a round that starts at time 20000.\<close>

theorem idle_pipes_never_closed_witness:
  "rmap fst (close_idle_pipes (\<lambda>_. Ok ()) (\<lambda>i. 5 + 10000 * of_nat i) 0 10 [[IdleWatch 6 7], []]
     (ex_cn (ex_node ''a'' (ex_padr ''a'' (ex_if 0 10 11)) []) [])) = Ok [[], []]"
  using idle_pipes_never_closed [of "ex_cn (ex_node ''a'' (ex_padr ''a'' (ex_if 0 10 11)) []) []" "[[IdleWatch 6 7], []]"
      "\<lambda>i. 5 + 10000 * of_nat i" "\<lambda>_. Ok ()" 0 10]
  by (simp add: ex_cn_def idle_limit_def rmap_def numeral_eq_Suc)

text \<open>The servers a node listens on depend on its id alone: the order in which it tries them holds each server once.\<close>

theorem signal_order_complete:
  "\<exists>ys. signal_order x [0..<n] = Inr ys \<and> distinct ys \<and> set ys = {..<n}"
proof -
  obtain ys where ys: "signal_order x [0..<n] = Inr ys" "mset ys = mset [0..<n]" using signal_order_mset by blast
  then have "distinct ys" using mset_eq_imp_distinct_iff [of ys "[0..<n]"] by simp
  moreover have "set ys = {..<n}" using mset_eq_setD [OF ys(2)] by (simp add: lessThan_atLeast0)
  ultimately show ?thesis using ys(1) by blast
qed

text \<open>When an address type has enough pairs and none of them connects, the search ends with it: exactly the allowed
  number of pairs is tried, all with the first address type, and the types after it are not tried at all.\<close>

theorem pair_limit_ends_search:
  assumes "\<forall>af t s d n. fst (f af t s d n) = None" and "is_ext t \<or> is_nic t" and "1 \<le> max_pairs"
    and "max_pairs \<le> (\<Sum>af\<leftarrow>afs. pairs_of src dest af)"
  shows "\<exists>nd' trail. try_types (noting f) max_pairs None src dest afs None (t # ts) (nd, []) = (Ok (None, None), nd', trail) \<and>
    length trail = max_pairs \<and> snd ` set trail \<subseteq> {t}"
proof -
  have "max_pairs < 1 + (\<Sum>af\<leftarrow>afs. pairs_of src dest af)" using assms(4) by simp
  then obtain old' nd' new where "try_families (noting f) max_pairs None src dest t 1 None afs (nd, []) =
      (FamReturn (Ok (None, None)), old', nd', [] @ new)" "length new = max_pairs + 1 - 1" "snd ` set new \<subseteq> {t}"
    using try_families_limit [OF assms(1-3), where afs = afs and src = src and dest = dest] by blast
  then show ?thesis by simp
qed

theorem pair_limit_ends_search_witness:
  "\<exists>trail. try_types (noting (\<lambda>af t s d n. (None :: nat con_val option, n))) 1 None (ex_padr ''a'' (ex_if 0 10 11))
     (ex_padr ''b'' (ex_if 0 20 21)) [IP4, IP6] None [JNIC_BIND, JEXT_BIND] (0 :: nat, []) = (Ok (None, None), 0, trail) \<and>
     length trail = 1 \<and> snd ` set trail = {JNIC_BIND}"
proof -
  have "\<exists>nd' trail. try_types (noting (\<lambda>af t s d n. (None :: nat con_val option, n))) 1 None (ex_padr ''a'' (ex_if 0 10 11))
     (ex_padr ''b'' (ex_if 0 20 21)) [IP4, IP6] None (JNIC_BIND # [JEXT_BIND]) (0 :: nat, []) = (Ok (None, None), nd', trail) \<and>
     length trail = 1 \<and> snd ` set trail \<subseteq> {JNIC_BIND}"
    by (rule pair_limit_ends_search) (simp_all add: JNIC_types pairs_of_def ex_padr_def)
  then show ?thesis
    by (auto simp: noting_def ex_padr_def pair_order_def JNIC_types sort_pairs_by_overlap_def infos_of_def Let_def split: if_splits)
qed

text \<open>Two nodes on one machine that punch over different interfaces choose the same address: each of them, from its
  own side, takes the interface address that comes first.\<close>

theorem same_machine_same_address:
  assumes "ii_netiface_index a \<noteq> ii_netiface_index b" and "snd (ipr_r (ii_nic a)) \<noteq> snd (ipr_r (ii_nic b))"
  shows "select_dest_ipr True a b [JNIC_BIND] False = select_dest_ipr True b a [JNIC_BIND] False"
proof -
  show ?thesis
    using assms JNIC_types by (auto simp: first_nic_def ipr_lt_def)
qed


theorem same_machine_same_address_witness:
  "select_dest_ipr True (ex_if 0 10 11) (ex_if 1 20 11) [JNIC_BIND] False =
     select_dest_ipr True (ex_if 1 20 11) (ex_if 0 10 11) [JNIC_BIND] False"
  by (rule same_machine_same_address)
    (simp_all add: ex_if_def ex_ipr_def ipr_fields_def Let_def af_to_cidr_def del: ip_exploded.simps)

end
