(* ===== verification/Http_Lib.thy ===== *)
theory Http_Lib
  imports Json_Text Pipe
begin

text \<open>
  \<^verbatim>\<open>protocol/http\<close>: building requests, reading replies, the routes of the REST server with their named and
  positional parameters, its origin check and its dispatch. What sockets deliver, regular expressions given by routes, and
  what \<open>urllib\<close> makes of a request target are arguments. Of \<open>http.server\<close> the parser of a request head is
  modelled, without its limits on lines and without bare carriage returns as line ends.
\<close>

section \<open>Building a request\<close>

definition HTTP_HEADERS :: "(bytes \<times> bytes) list" where
  "HTTP_HEADERS = [(to_b ''User-Agent'', to_b ''curl/7.54.0''), (to_b ''Origin'', to_b ''null''), (to_b ''Accept'', to_b ''*/*'')]"

definition CRLF :: bytes where "CRLF = [13, 10]"

definition blower :: "bytes \<Rightarrow> bytes" where
  "blower bs = map (\<lambda>b. if 65 \<le> b \<and> b \<le> 90 then b + 32 else b) bs"

text \<open>The header lines: none for a second host, none for a name already written.\<close>

fun header_lines :: "bytes list \<Rightarrow> (bytes \<times> bytes) list \<Rightarrow> bytes" where
  "header_lines hdrs [] = []"
| "header_lines hdrs ((n, v) # headers) =
     (if blower n = to_b ''host'' then header_lines hdrs headers
      else if n \<in> set hdrs then header_lines hdrs headers
      else n @ to_b '': '' @ v @ CRLF @ header_lines (n # hdrs) headers)"

text \<open>
  The defaults are appended to the list of the caller, which keeps them: the second component. The last line end is
  cut and written again; the assertion on the byte before it compares a number with bytes and always holds.
\<close>

definition http_req_buf ::
  "af \<Rightarrow> string \<Rightarrow> bytes \<Rightarrow> bytes \<Rightarrow> bytes option \<Rightarrow> (bytes \<times> bytes) list option \<Rightarrow> bytes \<times> (bytes \<times> bytes) list" where
  "http_req_buf af host path method payload headers =
     (let headers = (case headers of None \<Rightarrow> HTTP_HEADERS | Some hs \<Rightarrow> hs @ HTTP_HEADERS);
          host = (if af = IP4 then to_b host else to_b (''['' @ host @ '']''));
          buf = method @ to_b '' '' @ path @ to_b '' HTTP/1.0'' @ CRLF @ to_b ''Host: '' @ host @ CRLF @ header_lines [] headers;
          buf = (case payload of None \<Rightarrow> buf | Some p \<Rightarrow> buf @ to_b ''Content-Length: '' @ to_b (int_str (int (length p))) @ CRLF);
          buf = take (length buf - 2) buf @ CRLF @ CRLF
      in (case payload of None \<Rightarrow> buf | Some p \<Rightarrow> buf @ p, headers))"

definition get_hdr :: "bytes \<Rightarrow> (bytes \<times> bytes) list option \<Rightarrow> int \<times> bytes option" where
  "get_hdr name hdrs =
     (case hdrs of
        None \<Rightarrow> (-1, None)
      | Some hs \<Rightarrow> (case find (\<lambda>(i, n, v). blower n = blower name) (enumerate 0 hs) of
                    None \<Rightarrow> (-1, None) | Some (i, n, v) \<Rightarrow> (int i, Some v)))"

section \<open>Parsing a request\<close>

definition latin :: "bytes \<Rightarrow> string" where
  "latin bs = map (\<lambda>b. char_of (unat b)) bs"

fun read_lines :: "bytes \<Rightarrow> bytes list" where
  "read_lines [] = []"
| "read_lines (b # bs) =
     (if b = 10 then [b] # read_lines bs
      else (case read_lines bs of [] \<Rightarrow> [[b]] | l # ls \<Rightarrow> (b # l) # ls))"

definition rstrip_crlf :: "bytes \<Rightarrow> bytes" where
  "rstrip_crlf bs = rev (dropWhile (\<lambda>b. b \<in> set [13, 10]) (rev bs))"

fun words_of :: "string \<Rightarrow> string list" where
  "words_of [] = []"
| "words_of (c # cs) =
     (if is_blank c then words_of cs
      else (case cs of
              [] \<Rightarrow> [[c]]
            | d # _ \<Rightarrow> if is_blank d then [c] # words_of cs
                       else (case words_of cs of [] \<Rightarrow> [[c]] | w # ws \<Rightarrow> (c # w) # ws)))"

definition version_ok :: "string \<Rightarrow> bool" where
  "version_ok v =
     (take 5 v = ''HTTP/'' \<and>
      (case split_on CHR ''.'' (drop 5 v) of
         [a, b] \<Rightarrow> a \<noteq> [] \<and> b \<noteq> [] \<and> list_all (is_digit 10) a \<and> list_all (is_digit 10) b \<and> num_val 10 a < 2
       | _ \<Rightarrow> False))"

text \<open>The request line: method and target; a line of two words is the oldest protocol and must be a GET.\<close>

definition request_line :: "string \<Rightarrow> (string \<times> string) option" where
  "request_line s =
     (case words_of s of
        [command, path] \<Rightarrow> if command = ''GET'' then Some (command, path) else None
      | [command, path, version] \<Rightarrow> if version_ok version then Some (command, path) else None
      | _ \<Rightarrow> None)"

definition one_slash :: "string \<Rightarrow> string" where
  "one_slash path = (if take 2 path = ''//'' then CHR ''/'' # dropWhile (\<lambda>c. c = CHR ''/'') path else path)"

fun head_part :: "bytes list \<Rightarrow> bytes list" where
  "head_part [] = []"
| "head_part (l # ls) = (if l = CRLF \<or> l = [10] then [] else l # head_part ls)"

definition name_char :: "byte \<Rightarrow> bool" where
  "name_char b = (33 \<le> b \<and> b \<le> 126 \<and> b \<noteq> 58)"

text \<open>
  Headers by the rules of mail: a continuation line belongs to the header before it, a line without a name is skipped, and
  what does not look like a header ends them.
\<close>

fun parse_headers :: "(bytes \<times> bytes) option \<Rightarrow> bytes list \<Rightarrow> (bytes \<times> bytes) list" where
  "parse_headers cur [] = (case cur of None \<Rightarrow> [] | Some h \<Rightarrow> [h])"
| "parse_headers cur (l # ls) =
     (let done' = (case cur of None \<Rightarrow> [] | Some h \<Rightarrow> [h]); name = takeWhile name_char l; rest = dropWhile name_char l in
      if l \<noteq> [] \<and> hd l \<in> set [32, 9]
      then parse_headers (case cur of None \<Rightarrow> None | Some (n, v) \<Rightarrow> Some (n, v @ l)) ls
      else if rest = [] \<or> hd rest \<noteq> 58 then done'
      else if name = [] then parse_headers cur ls
      else done' @ parse_headers (Some (name, dropWhile (\<lambda>b. b \<in> set [32, 9]) (tl rest))) ls)"

definition header_pairs :: "bytes list \<Rightarrow> (string \<times> string) list" where
  "header_pairs ls = map (\<lambda>(n, v). (latin n, latin (rstrip_crlf v))) (parse_headers None ls)"

definition slower :: "string \<Rightarrow> string" where
  "slower s = map (\<lambda>c. if 65 \<le> (of_char c :: nat) \<and> of_char c \<le> (90 :: nat) then char_of (of_char c + 32 :: nat) else c) s"

text \<open>Every header under its name and under its name in lower case; without an origin it is \<open>null\<close>.\<close>

definition http_parse_headers :: "(string \<times> string) list \<Rightarrow> (string \<times> string) list" where
  "http_parse_headers hs =
     (let hdrs = foldl (\<lambda>d (n, v). dict_set (slower n) v (dict_set n v d)) [] hs in
      if ''Origin'' \<notin> fst ` set hdrs then dict_set ''origin'' ''null'' (dict_set ''Origin'' ''null'' hdrs) else hdrs)"

record http_req =
  rq_command :: string
  rq_path :: string
  rq_hdrs :: "(string \<times> string) list"

definition ParseHTTPRequest :: "bytes \<Rightarrow> http_req res" where
  "ParseHTTPRequest msg =
     (case read_lines msg of
        [] \<Rightarrow> Err AttributeError
      | line # rest \<Rightarrow>
          (case request_line (latin (rstrip_crlf line)) of
             None \<Rightarrow> Err AttributeError
           | Some (command, path) \<Rightarrow>
               Ok \<lparr>rq_command = command, rq_path = one_slash path,
                   rq_hdrs = http_parse_headers (header_pairs (head_part rest))\<rparr>))"


section \<open>Reading a reply\<close>

definition has_part :: "bytes \<Rightarrow> bytes \<Rightarrow> bool" where
  "has_part p bs = list_ex (\<lambda>i. take (length p) (drop i bs) = p) [0..<Suc (length bs)]"

text \<open>Chunks until the head is complete; an empty chunk stands for the end, or for nothing in time.\<close>

fun read_head :: "bytes \<Rightarrow> bytes list \<Rightarrow> bytes \<times> bool \<times> bytes list" where
  "read_head out [] = (out, False, [])"
| "read_head out (buf # bufs) =
     (if buf = [] then (out, False, bufs)
      else if has_part [13, 10, 13, 10] (out @ buf) \<or> has_part [10, 10] (out @ buf) then (out @ buf, True, bufs)
      else read_head (out @ buf) bufs)"

definition is_num_byte :: "byte \<Rightarrow> bool" where "is_num_byte b = (48 \<le> b \<and> b \<le> 57)"

text \<open>The first \<open>[cC]ontent-[lL]ength: *([0-9]+)\<close>.\<close>

definition length_at :: "bytes \<Rightarrow> nat option" where
  "length_at bs =
     (let k = take 15 bs; n = takeWhile is_num_byte (dropWhile (\<lambda>b. b = 32) (drop 15 bs)) in
      if k \<in> set (map to_b [''content-length:'', ''Content-length:'', ''content-Length:'', ''Content-Length:'']) \<and> n \<noteq> []
      then Some (num_val 10 (latin n)) else None)"

fun find_length :: "bytes \<Rightarrow> nat option" where
  "find_length [] = None"
| "find_length (b # bs) = (case length_at (b # bs) of Some n \<Rightarrow> Some n | None \<Rightarrow> find_length bs)"

fun after_head :: "bytes \<Rightarrow> bytes" where
  "after_head [] = []"
| "after_head (b # bs) =
     (if take 4 (b # bs) = [13, 10, 13, 10] then drop 4 (b # bs)
      else if take 2 (b # bs) = [10, 10] then drop 2 (b # bs) else after_head bs)"

fun read_content :: "nat \<Rightarrow> bytes \<Rightarrow> bytes list \<Rightarrow> bytes \<times> bytes list" where
  "read_content content_len content [] = (content, [])"
| "read_content content_len content (buf # bufs) =
     (if length content \<ge> content_len then (content, buf # bufs)
      else if buf = [] then (content, bufs)
      else read_content content_len (content @ buf) bufs)"

text \<open>
  The bytes that are parsed as the reply, the content that was gathered, and the chunks left unread. Only the first is
  used afterwards.
\<close>

definition do_web_req :: "bytes list \<Rightarrow> bytes \<times> bytes \<times> bytes list" where
  "do_web_req bufs =
     (let (out, hdr_ended, bufs) = read_head [] bufs;
          content_len = (if hdr_ended then (case find_length out of None \<Rightarrow> 0 | Some n \<Rightarrow> n) else 0);
          content = (if hdr_ended then after_head out else [])
      in if content_len \<noteq> 0 then (let (content, bufs) = read_content content_len content bufs in (out, content, bufs))
         else (out, content, bufs))"

section \<open>The web client\<close>

text \<open>\<open>safe\<close> is the encoding of the parameters by \<open>urllib\<close>; a body is bytes, or a dictionary, which is sent as JSON.\<close>

datatype web_body = BodyBytes bytes | BodyDict "(string \<times> json) list"

record web_curl =
  wc_af :: af
  wc_host :: string
  wc_params :: "string option"
  wc_hdrs :: "(bytes \<times> bytes) list"
  wc_body :: web_body
  wc_path :: "string option"

definition curl_vars :: "string option \<Rightarrow> web_body \<Rightarrow> web_curl \<Rightarrow> web_curl" where
  "curl_vars safe body c = c\<lparr>wc_params := (case safe of None \<Rightarrow> wc_params c | Some s \<Rightarrow> Some s), wc_body := body\<rparr>"

text \<open>
  The request of one call and the client it leaves: the header list it used is extended in place, so when none is
  given it is the client's own list that grows. The body that is sent is the copy's.
\<close>

definition curl_api :: "string \<Rightarrow> string \<Rightarrow> (bytes \<times> bytes) list \<Rightarrow> web_curl \<Rightarrow> bytes \<times> web_curl" where
  "curl_api method path hdrs c =
     (let full = path @ (case wc_params c of None \<Rightarrow> [] | Some s \<Rightarrow> CHR ''?'' # s);
          use_hdrs = (if hdrs \<noteq> [] then hdrs else wc_hdrs c);
          (body, use_hdrs) = (case wc_body c of BodyBytes b \<Rightarrow> (b, use_hdrs)
             | BodyDict ms \<Rightarrow> (to_b (dumps (JObj ms)), use_hdrs @ [(to_b ''Content-Type'', to_b ''application/json'')]));
          (buf, after) = http_req_buf (wc_af c) (wc_host c) (to_b full) (to_b method) (Some body) (Some use_hdrs)
      in (buf, if hdrs \<noteq> [] then c else c\<lparr>wc_hdrs := after\<rparr>))"

section \<open>Replies of the server\<close>

text \<open>\<open>json.dumps\<close> with an indentation of four and sorted keys.\<close>

fun str_less :: "string \<Rightarrow> string \<Rightarrow> bool" where
  "str_less xs [] = False"
| "str_less [] (y # ys) = True"
| "str_less (x # xs) (y # ys) = ((of_char x :: nat) < of_char y \<or> x = y \<and> str_less xs ys)"

fun insert_member :: "string \<times> json \<Rightarrow> (string \<times> json) list \<Rightarrow> (string \<times> json) list" where
  "insert_member m [] = [m]"
| "insert_member m (x # xs) = (if str_less (fst x) (fst m) then x # insert_member m xs else m # x # xs)"

fun sort_keys :: "json \<Rightarrow> json" and sort_items :: "json list \<Rightarrow> json list"
  and sort_members :: "(string \<times> json) list \<Rightarrow> (string \<times> json) list" where
  "sort_keys (JArr xs) = JArr (sort_items xs)"
| "sort_keys (JObj ms) = JObj (sort_members ms)"
| "sort_keys j = j"
| "sort_items [] = []"
| "sort_items (x # xs) = sort_keys x # sort_items xs"
| "sort_members [] = []"
| "sort_members ((k, v) # ms) = insert_member (k, sort_keys v) (sort_members ms)"

definition indent :: "nat \<Rightarrow> string" where
  "indent n = CHR 10 # replicate (4 * n) CHR '' ''"

fun dumps_indent :: "nat \<Rightarrow> json \<Rightarrow> string" and indent_items :: "nat \<Rightarrow> json list \<Rightarrow> string"
  and indent_members :: "nat \<Rightarrow> (string \<times> json) list \<Rightarrow> string" where
  "dumps_indent n (JArr []) = ''[]''"
| "dumps_indent n (JArr (x # xs)) = CHR ''['' # indent (n + 1) @ dumps_indent (n + 1) x @ indent_items (n + 1) xs @ indent n @ '']''"
| "dumps_indent n (JObj []) = ''{}''"
| "dumps_indent n (JObj ((k, v) # ms)) = CHR ''{'' # indent (n + 1) @ json_str k @ '': '' @ dumps_indent (n + 1) v @
     indent_members (n + 1) ms @ indent n @ ''}''"
| "dumps_indent n j = dumps j"
| "indent_items n [] = []"
| "indent_items n (x # xs) = CHR '','' # indent n @ dumps_indent n x @ indent_items n xs"
| "indent_members n [] = []"
| "indent_members n ((k, v) # ms) = CHR '','' # indent n @ json_str k @ '': '' @ dumps_indent n v @ indent_members n ms"

text \<open>What a route can return: each has its own content type; nothing is sent for None.\<close>

datatype rest_out = OutJson json | OutBytes bytes | OutText string | OutNone

definition reply_payload :: "rest_out \<Rightarrow> (bytes \<times> string) option" where
  "reply_payload out =
     (case out of
        OutJson j \<Rightarrow> Some (to_b (dumps_indent 0 (sort_keys j)), ''application/json'')
      | OutBytes b \<Rightarrow> Some (b, ''application/octet-stream'')
      | OutText t \<Rightarrow> Some (to_b t, ''text/html'')
      | OutNone \<Rightarrow> None)"

definition line :: "string \<Rightarrow> bytes" where
  "line s = to_b s @ CRLF"

definition http_res :: "bytes \<Rightarrow> string \<Rightarrow> http_req \<Rightarrow> tup option \<Rightarrow> bytes res" where
  "http_res payload content_type req client_tup =
     rbind (dict_get ''Origin'' (rq_hdrs req)) (\<lambda>origin.
       Ok (line ''HTTP/1.1 200 OK'' @ line (''Access-Control-Allow-Origin: '' @ origin) @
           (case client_tup of
              Some (host, port) \<Rightarrow> line (''x-client-tup: '' @ host @ '':'' @ int_str port)
            | None \<Rightarrow> line ''x-client-tup: unknown'') @
           line (''Content-Type: '' @ content_type) @ line ''Connection: close'' @
           line (''Content-Length: '' @ int_str (int (length payload))) @ CRLF @ payload))"

section \<open>The origin check\<close>

definition P2PD_CORS :: "string list" where "P2PD_CORS = [''null'', ''http://127.0.0.1'']"

definition preflight_reply :: "string \<Rightarrow> bytes" where
  "preflight_reply origin =
     line ''HTTP/1.1 200 OK'' @ line ''Content-Length: 0'' @ line ''Connection: keep-alive'' @
     line ''Access-Control-Allow-Methods: POST, GET, DELETE'' @ line ''Access-Control-Allow-Headers: *'' @
     line (''Access-Control-Allow-Origin: '' @ origin) @ CRLF"

text \<open>The request to act on, or what was sent instead; the latter with whether the connection was closed.\<close>

datatype service = Serve http_req | Refuse bytes bool | Malformed

definition rest_service :: "bytes \<Rightarrow> service res" where
  "rest_service msg =
     (case ParseHTTPRequest msg of
        Inl _ \<Rightarrow> Ok Malformed
      | Inr req \<Rightarrow>
          rbind (dict_get ''Origin'' (rq_hdrs req)) (\<lambda>origin.
            if origin \<notin> set P2PD_CORS then
              rmap (\<lambda>b. Refuse b True)
                (http_res (to_b (dumps_indent 0 (sort_keys (JObj [(''msg'', JStr ''Invalid origin.''), (''error'', JInt 5)]))))
                  ''application/json'' req None)
            else if {''Access-Control-Request-Method'', ''Access-Control-Request-Headers''} \<subseteq> fst ` set (rq_hdrs req)
            then Ok (Refuse (preflight_reply origin) False)
            else Ok (Serve req)))"

section \<open>Routes\<close>

text \<open>
  A scheme is a list: a name, possibly a default, possibly a pattern. The segments of the path are matched against
  the schemes first; then they are consumed from the front.
\<close>

definition path_segments :: "string \<Rightarrow> string list" where
  "path_segments path = filter (\<lambda>s. s \<noteq> []) (tl (split_on CHR ''/'' path))"

fun in_schemes :: "(string \<Rightarrow> string \<Rightarrow> bool) \<Rightarrow> nat \<Rightarrow> string list list \<Rightarrow> string \<Rightarrow> (nat option \<times> string \<times> bool) res" where
  "in_schemes rx i [] v = Ok (None, v, False)"
| "in_schemes rx i (s # ss) v =
     (if length s = 3 then
        (if s ! 2 = ''*'' \<or> rx (s ! 2) v then Ok (Some i, v, True) else Ok (Some i, s ! 1, True))
      else case s of
             [] \<Rightarrow> Err IndexError
           | name # _ \<Rightarrow> if v = name then Ok (Some i, v, True) else in_schemes rx (i + 1) ss v)"

text \<open>
  A matched name takes the next segment as its value when that matches nothing. When the scheme has a default, the
  default is overwritten with the value and then read, so the scheme keeps it.
\<close>

definition scheme_value :: "string list \<Rightarrow> string \<Rightarrow> string" where
  "scheme_value s v = (if length s > 1 then s ! 1 else v)"

definition scheme_keep :: "string list \<Rightarrow> string \<Rightarrow> string list" where
  "scheme_keep s v = (if length s > 1 then s[1 := v] else s)"

fun route_loop ::
  "string list list \<Rightarrow> (string \<times> string) list \<Rightarrow> string list \<Rightarrow> (nat option \<times> string \<times> bool) list \<Rightarrow>
   (string \<times> string) list \<times> string list \<times> string list list" where
  "route_loop schemes named pos [] = (named, pos, schemes)"
| "route_loop schemes named pos ((None, v, m) # ms) = route_loop schemes named (pos @ [v]) ms"
| "route_loop schemes named pos ((Some k, v, m) # (None, v', m') # ms) =
     (let s = scheme_keep (schemes ! k) v'
      in route_loop (schemes[k := s]) (dict_set (hd s) (scheme_value s v') named) pos ms)"
| "route_loop schemes named pos ((Some k, v, m) # ms) =
     (let s = schemes ! k in route_loop schemes (dict_set (hd s) (scheme_value s v) named) pos ms)"

definition api_route ::
  "(string \<Rightarrow> string \<Rightarrow> bool) \<Rightarrow> string \<Rightarrow> string list list \<Rightarrow> ((string \<times> string) list \<times> string list \<times> string list list) res" where
  "api_route rx url_path schemes =
     rmap (route_loop schemes [] []) (rmap_list (in_schemes rx 0 schemes) (path_segments url_path))"


section \<open>The older routes\<close>

text \<open>
  \<open>get_params\<close> searches the escaped path for a run of named segments with a value each, \<open>(?:/(field)/([^/]+))\<close> for
  each field, repeated. A pattern matches a field without its slashes as it is, so a field with special characters is not
  found in the escaped path. Of the first run, each field gives the last value it had in it.
\<close>

definition re_special :: "char \<Rightarrow> bool" where
  "re_special c = (c \<in> set ''()[]{}?*+-|^$.&~# '' \<or> (of_char c :: nat) \<in> {9, 10, 11, 12, 13, 92})"

definition re_escape :: "string \<Rightarrow> string" where
  "re_escape s = concat (map (\<lambda>c. if re_special c then [CHR 92, c] else [c]) s)"

fun re_unescape :: "string \<Rightarrow> string" where
  "re_unescape (c # d # cs) =
     (if of_char c = (92 :: nat) \<and> of_char d \<noteq> (10 :: nat) then d # re_unescape cs else c # re_unescape (d # cs))"
| "re_unescape cs = cs"

lemma re_unescape_escape: "CHR 10 \<notin> set s \<Longrightarrow> re_unescape (re_escape s) = s"
proof (induction s)
  case (Cons c s)
  have "c \<noteq> CHR 10" using Cons.prems by auto
  then have "of_char c \<noteq> (of_char CHR 10 :: nat)" by (simp only: of_char_eq_iff not_False_eq_True)
  then have c: "of_char c \<noteq> (10 :: nat)" by simp
  have plain: "re_unescape (c # xs) = c # re_unescape xs" if "\<not> re_special c" for xs
    using that by (cases xs) (auto simp: re_special_def)
  show ?case using Cons c plain by (cases "re_special c") (auto simp: re_escape_def)
qed (simp add: re_escape_def)

definition field_text :: "string \<Rightarrow> string" where
  "field_text field = filter (\<lambda>c. c \<noteq> CHR ''/'') field"

text \<open>The field a text begins with, by its number, the value that follows, and the rest.\<close>

fun pair_at :: "nat \<Rightarrow> string list \<Rightarrow> string \<Rightarrow> (nat \<times> string \<times> string) option" where
  "pair_at i [] s = None"
| "pair_at i (f # fs) s =
     (let key = CHR ''/'' # field_text f @ ''/''; rest = drop (length key) s in
      if take (length key) s = key \<and> rest \<noteq> [] \<and> hd rest \<noteq> CHR ''/''
      then Some (i, takeWhile (\<lambda>c. c \<noteq> CHR ''/'') rest, dropWhile (\<lambda>c. c \<noteq> CHR ''/'') rest)
      else pair_at (Suc i) fs s)"

lemma pair_at_shorter: "pair_at i fs s = Some (j, v, rest) \<Longrightarrow> length rest < length s"
proof (induction i fs s rule: pair_at.induct)
  case (2 i f fs s)
  show ?case
  proof (cases "take (length (CHR ''/'' # field_text f @ ''/'')) s = CHR ''/'' # field_text f @ ''/'' \<and>
      drop (length (CHR ''/'' # field_text f @ ''/'')) s \<noteq> [] \<and> hd (drop (length (CHR ''/'' # field_text f @ ''/'')) s) \<noteq> CHR ''/''")
    case True
    then have "rest = dropWhile (\<lambda>c. c \<noteq> CHR ''/'') (drop (length (CHR ''/'' # field_text f @ ''/'')) s)" and "s \<noteq> []"
      using "2.prems" by (auto simp: Let_def)
    then show ?thesis
      using length_dropWhile_le [of "\<lambda>c. c \<noteq> CHR ''/''" "drop (length (CHR ''/'' # field_text f @ ''/'')) s"] by (cases s) auto
  next
    case False
    then show ?thesis using "2.IH" [OF refl refl False] "2.prems" by (simp only: pair_at.simps Let_def if_False)
  qed
qed simp

function pairs_at :: "string list \<Rightarrow> string \<Rightarrow> (nat \<times> string) list" where
  "pairs_at field_names s =
     (case pair_at 0 field_names s of None \<Rightarrow> [] | Some (i, v, rest) \<Rightarrow> (i, v) # pairs_at field_names rest)"
  by pat_completeness auto

termination
  by (relation "measure (\<lambda>(field_names, s). length s)") (auto dest: pair_at_shorter)

declare pairs_at.simps [simp del]

fun first_pairs :: "string list \<Rightarrow> string \<Rightarrow> (nat \<times> string) list" where
  "first_pairs field_names [] = []"
| "first_pairs field_names (c # cs) =
     (case pairs_at field_names (c # cs) of [] \<Rightarrow> first_pairs field_names cs | p # ps \<Rightarrow> p # ps)"

definition get_params :: "string list \<Rightarrow> string \<Rightarrow> (string \<times> string) list" where
  "get_params field_names url_path =
     (let results = first_pairs field_names (re_escape url_path)
      in foldl (\<lambda>params (i, field).
           case map_of (rev results) i of
             None \<Rightarrow> params
           | Some value \<Rightarrow> if field_text field = [] then params else dict_set (re_unescape (field_text field)) (re_unescape value) params)
         [] (enumerate 0 field_names))"

text \<open>\<open>out\<close> is the first match of the route's pattern in the path, None when there is none.\<close>

datatype api_value = ApiText string | ApiMatch "string list"

definition api_dict :: "string list option \<Rightarrow> string list \<Rightarrow> (string \<times> api_value) list" where
  "api_dict out field_names =
     (case out of
        None \<Rightarrow> []
      | Some vs \<Rightarrow> if field_names \<noteq> [] then foldl (\<lambda>d (n, v). dict_set n (ApiText v) d) [] (zip field_names vs)
                   else [(''out'', ApiMatch vs)])"

definition api_closure :: "string \<Rightarrow> string list option \<Rightarrow> string list \<Rightarrow> string list \<Rightarrow> (string \<times> api_value) list" where
  "api_closure url_path out field_names get_names =
     (let params = get_params get_names url_path; d = api_dict out field_names
      in if params \<noteq> [] \<and> d \<noteq> [] then dict_merge (map (\<lambda>(k, v). (k, ApiText v)) params) d else d)"

fun set_defaults :: "string list \<Rightarrow> 'v list \<Rightarrow> (string \<times> 'v) list \<Rightarrow> (string \<times> 'v) list res" where
  "set_defaults [] defaults p = Ok p"
| "set_defaults (n # optional) defaults p =
     (if n \<in> fst ` set p then set_defaults optional (tl defaults) p
      else case defaults of [] \<Rightarrow> Err IndexError | v # vs \<Rightarrow> set_defaults optional vs (dict_set n v p))"

text \<open>The host and the port of a URL, from its network location: one colon at most.\<close>

definition url_res :: "string \<Rightarrow> (string \<times> int) res" where
  "url_res netloc =
     (if CHR '':'' \<in> set netloc then
        (case split_on CHR '':'' netloc of
           [host, port] \<Rightarrow> rmap (Pair host) (py_int 10 port)
         | _ \<Rightarrow> Err ValueError)
      else Ok (netloc, 80))"

section \<open>Dispatch\<close>

datatype rest_body = RawBody bytes | JsonBody json

record rest_v =
  rv_req :: http_req
  rv_name :: "(string \<times> string) list"
  rv_pos :: "string list"
  rv_client :: tup
  rv_body :: rest_body

record 'h rest_api =
  ra_handler :: 'h
  ra_args :: "string list list"

text \<open>The last bytes of the message, as many as the header says; a length that does not fit leaves the body empty.\<close>

definition request_body :: "bytes \<Rightarrow> (string \<times> string) list \<Rightarrow> rest_body res" where
  "request_body msg hdrs =
     rbind (case map_of hdrs ''Content-Length'' of None \<Rightarrow> Ok 0 | Some s \<Rightarrow> py_int 10 s) (\<lambda>payload_len.
       let body = (if 1 \<le> payload_len \<and> payload_len \<le> int (length msg) then drop (length msg - nat payload_len) msg else [])
       in if map_of hdrs ''Content-Type'' = Some ''application/json'' \<and> payload_len \<noteq> 0
          then rmap JsonBody (loads (to_s body)) else Ok (RawBody body))"

text \<open>
  The route with the fewest positional parameters among those that found all their names, the first of equals; a
  method with a single route does not look at the names. Every route tried keeps what it learnt.
\<close>

fun match_apis ::
  "(string \<Rightarrow> string \<Rightarrow> bool) \<Rightarrow> string \<Rightarrow> bool \<Rightarrow> nat \<Rightarrow> ('h \<times> (string \<times> string) list \<times> string list) option \<Rightarrow>
   'h rest_api list \<Rightarrow> ('h \<times> (string \<times> string) list \<times> string list) option res \<times> 'h rest_api list" where
  "match_apis rx path single no best [] = (Ok best, [])"
| "match_apis rx path single no best (a # as) =
     (case api_route rx path (ra_args a) of
        Inl e \<Rightarrow> (Err e, a # as)
      | Inr (named, pos, args) \<Rightarrow>
          (let hit = (single \<or> length named = length args) \<and> length pos < no;
               (r, rest) = (if hit then match_apis rx path single (length pos) (Some (ra_handler a, named, pos)) as
                            else match_apis rx path single no best as)
           in (r, a\<lparr>ra_args := args\<rparr> # rest)))"

text \<open>What urllib makes of the target is \<open>path_of\<close>; \<open>exc\<close> is the text of an exception.\<close>

definition handler_reply :: "(pyerr \<Rightarrow> string) \<Rightarrow> rest_out res \<Rightarrow> rest_out" where
  "handler_reply exc r =
     (case r of
        Inl e \<Rightarrow> OutJson (JObj [(''error'', JStr ''Exception''), (''msg'', JStr (exc e))])
      | Inr out \<Rightarrow> out)"

record ('h, 's) rest_state =
  rs_apis :: "(string \<times> 'h rest_api list) list"
  rs_app :: 's
  rs_sent :: "bytes list"

definition rest_reply :: "http_req \<Rightarrow> tup \<Rightarrow> rest_out \<Rightarrow> bytes option res" where
  "rest_reply req client_tup out =
     (case reply_payload out of
        None \<Rightarrow> Ok None
      | Some (payload, content_type) \<Rightarrow> rmap Some (http_res payload content_type req (Some client_tup)))"

definition rest_serve ::
  "(string \<Rightarrow> string \<Rightarrow> bool) \<Rightarrow> (string \<Rightarrow> string) \<Rightarrow> (pyerr \<Rightarrow> string) \<Rightarrow> ('h \<Rightarrow> rest_v \<Rightarrow> 's \<Rightarrow> rest_out res \<times> 's) \<Rightarrow>
   bytes \<Rightarrow> tup \<Rightarrow> http_req \<Rightarrow> ('h, 's) rest_state \<Rightarrow> unit res \<times> ('h, 's) rest_state" where
  "rest_serve rx path_of exc call msg client_tup req st =
     (case request_body msg (rq_hdrs req) of
        Inl e \<Rightarrow> (Err e, st)
      | Inr body \<Rightarrow>
          (case map_of (rs_apis st) (rq_command req) of
             None \<Rightarrow> (Err KeyError, st)
           | Some as \<Rightarrow>
               (let (best, as') = match_apis rx (path_of (rq_path req)) (length as = 1) 100 None as;
                    st = st\<lparr>rs_apis := dict_set (rq_command req) as' (rs_apis st)\<rparr>
                in case best of
                     Inl e \<Rightarrow> (Err e, st)
                   | Inr None \<Rightarrow> (Ok (), st)
                   | Inr (Some (h, named, pos)) \<Rightarrow>
                       (let (r, s) = call h \<lparr>rv_req = req, rv_name = named, rv_pos = pos, rv_client = client_tup, rv_body = body\<rparr>
                                       (rs_app st);
                            st = st\<lparr>rs_app := s\<rparr>
                        in case rest_reply req client_tup (handler_reply exc r) of
                             Inl e \<Rightarrow> (Err e, st)
                           | Inr None \<Rightarrow> (Ok (), st)
                           | Inr (Some buf) \<Rightarrow> (Ok (), st\<lparr>rs_sent := rs_sent st @ [buf]\<rparr>)))))"

text \<open>
  The callback of the server. When the service has answered itself, or could not parse the request, it gives None, and
  asking that for its headers raises.
\<close>

definition rest_msg_cb ::
  "(string \<Rightarrow> string \<Rightarrow> bool) \<Rightarrow> (string \<Rightarrow> string) \<Rightarrow> (pyerr \<Rightarrow> string) \<Rightarrow> ('h \<Rightarrow> rest_v \<Rightarrow> 's \<Rightarrow> rest_out res \<times> 's) \<Rightarrow>
   bytes \<Rightarrow> tup \<Rightarrow> ('h, 's) rest_state \<Rightarrow> unit res \<times> ('h, 's) rest_state" where
  "rest_msg_cb rx path_of exc call msg client_tup st =
     (case rest_service msg of
        Inl e \<Rightarrow> (Err e, st)
      | Inr Malformed \<Rightarrow> (Err AttributeError, st)
      | Inr (Refuse buf _) \<Rightarrow> (Err AttributeError, st\<lparr>rs_sent := rs_sent st @ [buf]\<rparr>)
      | Inr (Serve req) \<Rightarrow> rest_serve rx path_of exc call msg client_tup req st)"


section \<open>Lines of a request\<close>

lemma read_lines_line: "10 \<notin> set l \<Longrightarrow> read_lines (l @ 10 # rest) = (l @ [10]) # read_lines rest"
  by (induction l) auto

lemma read_lines_crlf: "10 \<notin> set l \<Longrightarrow> read_lines (l @ CRLF @ rest) = (l @ CRLF) # read_lines rest"
  using read_lines_line [of "l @ [13]" rest] by (simp add: CRLF_def)

lemma head_part_lines:
  "(\<forall>l \<in> set ls. l \<noteq> [] \<and> 10 \<notin> set l) \<Longrightarrow>
   head_part (read_lines (concat (map (\<lambda>l. l @ CRLF) ls) @ CRLF @ body)) = map (\<lambda>l. l @ CRLF) ls"
proof (induction ls)
  case Nil
  then show ?case using read_lines_crlf [of "[]" body] by (simp add: CRLF_def)
next
  case (Cons l ls)
  then show ?case
    using read_lines_crlf [of l] by (auto simp: CRLF_def Cons_eq_append_conv)
qed

definition hdr_ok :: "bytes \<times> bytes \<Rightarrow> bool" where
  "hdr_ok h \<longleftrightarrow> (let (n, v) = h in n \<noteq> [] \<and> list_all name_char n \<and> 10 \<notin> set v \<and> 13 \<notin> set v \<and> (v \<noteq> [] \<longrightarrow> hd v \<notin> {32, 9}))"

definition hdr_line :: "bytes \<times> bytes \<Rightarrow> bytes" where
  "hdr_line h = fst h @ to_b '': '' @ snd h"

lemma hdr_line_eq: "hdr_line (n, v) = n @ [58, 32] @ v"
  by (simp add: hdr_line_def to_b_def)

lemma hdr_line_ok: "hdr_ok h \<Longrightarrow> hdr_line h \<noteq> [] \<and> 10 \<notin> set (hdr_line h)"
  by (cases h) (auto simp: hdr_ok_def hdr_line_eq list_all_iff name_char_def)

lemma parse_one_header:
  assumes "hdr_ok (n, v)"
  shows "parse_headers cur ((hdr_line (n, v) @ CRLF) # ls) =
    (case cur of None \<Rightarrow> [] | Some h \<Rightarrow> [h]) @ parse_headers (Some (n, v @ CRLF)) ls"
proof -
  have n: "n \<noteq> []" "\<forall>b \<in> set n. name_char b" using assms by (auto simp: hdr_ok_def list_all_iff)
  have hd: "name_char (hd (hdr_line (n, v) @ CRLF))" using n by (auto simp: hdr_line_eq)
  have c: "\<not> name_char 58" by (simp add: name_char_def)
  have t: "takeWhile name_char (hdr_line (n, v) @ CRLF) = n" "dropWhile name_char (hdr_line (n, v) @ CRLF) = 58 # 32 # v @ CRLF"
    using n(2) c by (simp_all add: hdr_line_eq takeWhile_append dropWhile_append)
  have d: "dropWhile (\<lambda>b. b \<in> set [32, 9]) (32 # v @ CRLF) = v @ CRLF"
    using assms by (cases v) (auto simp: hdr_ok_def CRLF_def)
  have h: "hd (hdr_line (n, v) @ CRLF) \<notin> set [32, 9]" using hd by (auto simp: name_char_def)
  show ?thesis
    unfolding parse_headers.simps t Let_def using h n(1) d by (simp add: hdr_line_eq)
qed

lemma rstrip_crlf_end: "13 \<notin> set v \<Longrightarrow> 10 \<notin> set v \<Longrightarrow> rstrip_crlf (v @ CRLF) = v"
  by (cases v rule: rev_cases) (auto simp: rstrip_crlf_def CRLF_def)

lemma parse_headers_lines:
  "(\<forall>h \<in> set hs. hdr_ok h) \<Longrightarrow>
   parse_headers cur (map (\<lambda>h. hdr_line h @ CRLF) hs) =
     (case cur of None \<Rightarrow> [] | Some h \<Rightarrow> [h]) @ map (\<lambda>(n, v). (n, v @ CRLF)) hs"
proof (induction hs arbitrary: cur)
  case (Cons h hs)
  obtain n v where h: "h = (n, v)" by (cases h)
  then show ?case using Cons.prems Cons.IH [of "Some (n, v @ CRLF)"] parse_one_header [of n v] by simp
qed simp

lemma header_pairs_lines:
  assumes "\<forall>h \<in> set hs. hdr_ok h"
  shows "header_pairs (map (\<lambda>h. hdr_line h @ CRLF) hs) = map (\<lambda>(n, v). (latin n, latin v)) hs"
proof -
  have "rstrip_crlf (v @ CRLF) = v" if "(n, v) \<in> set hs" for n v
    using assms that by (intro rstrip_crlf_end) (auto simp: hdr_ok_def)
  then show ?thesis using parse_headers_lines [OF assms, of None] by (auto simp: header_pairs_def)
qed

text \<open>The headers that are written.\<close>

fun kept :: "bytes list \<Rightarrow> (bytes \<times> bytes) list \<Rightarrow> (bytes \<times> bytes) list" where
  "kept hdrs [] = []"
| "kept hdrs ((n, v) # headers) =
     (if blower n = to_b ''host'' \<or> n \<in> set hdrs then kept hdrs headers else (n, v) # kept (n # hdrs) headers)"

lemma header_lines_kept: "header_lines hdrs hs = concat (map (\<lambda>h. hdr_line h @ CRLF) (kept hdrs hs))"
  by (induction hdrs hs rule: kept.induct) (simp_all add: hdr_line_def)

lemma kept_subset: "set (kept hdrs hs) \<subseteq> set hs"
  by (induction hdrs hs rule: kept.induct) auto

definition all_headers :: "string \<Rightarrow> (bytes \<times> bytes) list \<Rightarrow> bytes \<Rightarrow> (bytes \<times> bytes) list" where
  "all_headers host hs p =
     (to_b ''Host'', to_b host) # kept [] hs @ [(to_b ''Content-Length'', to_b (int_str (int (length p))))]"

lemma http_req_buf_lines:
  "fst (http_req_buf IP4 host path method (Some p) (Some hs)) =
     (method @ 32 # path @ to_b '' HTTP/1.0'') @ CRLF @
     concat (map (\<lambda>h. hdr_line h @ CRLF) (all_headers host (hs @ HTTP_HEADERS) p)) @ CRLF @ p"
proof -
  have t: "take (length (x @ CRLF) - 2) (x @ CRLF) = x" for x by (simp add: CRLF_def)
  have sp: "to_b '' '' = [32]" by (simp add: to_b_def)
  define b where "b = (method @ to_b '' '' @ path @ to_b '' HTTP/1.0'') @ CRLF @ (to_b ''Host: '' @ to_b host) @ CRLF @
        header_lines [] (hs @ HTTP_HEADERS) @ to_b ''Content-Length: '' @ to_b (int_str (int (length p)))"
  have "fst (http_req_buf IP4 host path method (Some p) (Some hs)) = take (length (b @ CRLF) - 2) (b @ CRLF) @ CRLF @ CRLF @ p"
    unfolding http_req_buf_def Let_def b_def by (simp only: option.case fst_conv if_True simp_thms append_assoc)
  also have "\<dots> = b @ CRLF @ CRLF @ p" by (simp only: t)
  finally show ?thesis
    unfolding b_def sp by (simp add: header_lines_kept all_headers_def hdr_line_def) (simp add: to_b_def)
qed


section \<open>What the server reads\<close>

text \<open>Texts without blanks or control characters.\<close>

definition visible :: "string \<Rightarrow> bool" where
  "visible s \<longleftrightarrow> s \<noteq> [] \<and> list_all (\<lambda>c. 33 \<le> (of_char c :: nat) \<and> of_char c \<le> (126 :: nat)) s"

lemma visible_ascii: "visible s \<Longrightarrow> ascii s"
  by (auto simp: visible_def ascii_def list_all_iff)

lemma visible_not_blank: "visible s \<Longrightarrow> c \<in> set s \<Longrightarrow> \<not> is_blank c"
  by (fastforce simp: visible_def list_all_iff is_blank_def)

lemma latin_to_b: "ascii s \<Longrightarrow> latin (to_b s) = s"
  unfolding latin_def by (rule map_char_of_to_b)

lemma latin_append [simp]: "latin (a @ b) = latin a @ latin b"
  by (simp add: latin_def)

lemma latin_space: "latin (32 # bs) = CHR '' '' # latin bs"
  by (simp add: latin_def char_of_def bit_0)

lemma to_b_range: "visible s \<Longrightarrow> b \<in> set (to_b s) \<Longrightarrow> 33 \<le> b \<and> b \<le> 126"
proof -
  assume v: "visible s" and "b \<in> set (to_b s)"
  then obtain c where c: "c \<in> set s" "b = word_of_nat (of_char c)" "of_char c < (128 :: nat)" by (auto simp: to_b_def)
  then have "33 \<le> (of_char c :: nat)" "of_char c \<le> (126 :: nat)" using v by (auto simp: visible_def list_all_iff)
  moreover have "unat b = of_char c" using c by (simp add: unat_of_nat take_bit_eq_mod)
  ultimately show ?thesis by (simp add: word_le_nat_alt)
qed

lemma words_of_word:
  "w \<noteq> [] \<Longrightarrow> (\<forall>c \<in> set w. \<not> is_blank c) \<Longrightarrow> words_of (w @ CHR '' '' # s) = w # words_of s"
proof (induction w)
  case (Cons c w)
  have b: "is_blank CHR '' ''" by (simp add: is_blank_def)
  show ?case
  proof (cases w)
    case Nil
    then show ?thesis using Cons.prems b by simp
  next
    case (Cons d ds)
    then show ?thesis using Cons.IH Cons.prems by (simp add: \<open>w = d # ds\<close>)
  qed
qed simp

lemma words_of_last: "w \<noteq> [] \<Longrightarrow> (\<forall>c \<in> set w. \<not> is_blank c) \<Longrightarrow> words_of w = [w]"
proof (induction w)
  case (Cons c w)
  show ?case
  proof (cases w)
    case Nil
    then show ?thesis using Cons.prems by simp
  next
    case (Cons d ds)
    then show ?thesis using Cons.IH Cons.prems by (simp add: \<open>w = d # ds\<close>)
  qed
qed simp

lemma request_line_words:
  assumes "visible meth" and "visible path" and "visible ver" and "version_ok ver"
  shows "request_line (meth @ CHR '' '' # path @ CHR '' '' # ver) = Some (meth, path)"
proof -
  have "words_of (meth @ CHR '' '' # (path @ CHR '' '' # ver)) = [meth, path, ver]"
    using words_of_word [of meth] words_of_word [of path] words_of_last [of ver] visible_not_blank assms
    by (simp add: visible_def)
  then show ?thesis using assms(4) by (simp add: request_line_def)
qed

lemma version_1_0: "visible ''HTTP/1.0'' \<and> version_ok ''HTTP/1.0''"
  by (simp add: visible_def version_ok_def is_digit_def digit_val_def num_val_def)

lemma request_line_read:
  assumes "visible meth" and "visible path"
  shows "request_line (meth @ CHR '' '' # path @ '' HTTP/1.0'') = Some (meth, path)"
  using request_line_words [OF assms, of "''HTTP/1.0''"] version_1_0 by simp

text \<open>The text of a request with a version, headers and a body of any client.\<close>

definition request_text :: "string \<Rightarrow> string \<Rightarrow> string \<Rightarrow> (bytes \<times> bytes) list \<Rightarrow> bytes \<Rightarrow> bytes" where
  "request_text meth path ver hs body =
     to_b (meth @ CHR '' '' # path @ CHR '' '' # ver) @ CRLF @ concat (map (\<lambda>h. hdr_line h @ CRLF) hs) @ CRLF @ body"

definition read_pairs :: "(bytes \<times> bytes) list \<Rightarrow> (string \<times> string) list" where
  "read_pairs hs = map (\<lambda>(n, v). (latin n, latin v)) hs"

lemma request_text_parsed:
  assumes m: "visible meth" and p: "visible path" "take 2 path \<noteq> ''//''" and ver: "visible ver" "version_ok ver"
    and hs: "\<forall>h \<in> set hs. hdr_ok h"
  shows "ParseHTTPRequest (request_text meth path ver hs body) =
    Inr \<lparr>rq_command = meth, rq_path = path, rq_hdrs = http_parse_headers (read_pairs hs)\<rparr>"
proof -
  let ?l = "meth @ CHR '' '' # path @ CHR '' '' # ver"
  have asc: "ascii ?l" using m p(1) ver(1) visible_ascii by (simp add: ascii_def)
  have no: "c \<notin> set ?l" if "c = CHR 10 \<or> c = CHR 13" for c
    using that m p(1) ver(1) by (auto simp: visible_def list_all_iff)
  have l: "10 \<notin> set (to_b ?l)" "13 \<notin> set (to_b ?l)"
    using to_b_notin [OF asc no, of "CHR 10"] to_b_notin [OF asc no, of "CHR 13"] by simp_all
  have lines: "\<forall>l \<in> set (map hdr_line hs). l \<noteq> [] \<and> 10 \<notin> set l" using hs hdr_line_ok by auto
  have "read_lines (request_text meth path ver hs body) =
      (to_b ?l @ CRLF) # read_lines (concat (map (\<lambda>l. l @ CRLF) (map hdr_line hs)) @ CRLF @ body)"
    unfolding request_text_def using read_lines_crlf [OF l(1)] by (simp add: comp_def)
  moreover have "header_pairs (map (\<lambda>l. l @ CRLF) (map hdr_line hs)) = read_pairs hs"
    using header_pairs_lines [OF hs] by (simp add: comp_def read_pairs_def)
  ultimately show ?thesis
    using request_line_words [OF m p(1) ver] p(2) rstrip_crlf_end [OF l(2,1)] head_part_lines [OF lines] latin_to_b [OF asc]
    by (simp add: ParseHTTPRequest_def one_slash_def)
qed

lemma http_version_bytes: "latin (to_b '' HTTP/1.0'') = '' HTTP/1.0''" "13 \<notin> set (to_b '' HTTP/1.0'')" "10 \<notin> set (to_b '' HTTP/1.0'')"
  by (subst latin_to_b) (simp_all add: to_b_def)

lemma request_parsed:
  assumes m: "visible method" and p: "visible path" "take 2 path \<noteq> ''//''" and h: "visible host"
    and hs: "\<forall>h \<in> set hs. hdr_ok h" and buf: "buf = fst (http_req_buf IP4 host (to_b path) (to_b method) (Some body) (Some hs))"
  shows "ParseHTTPRequest buf = Inr \<lparr>rq_command = method, rq_path = path,
    rq_hdrs = http_parse_headers (map (\<lambda>(n, v). (latin n, latin v)) (all_headers host (hs @ HTTP_HEADERS) body))\<rparr>"
proof -
  let ?line = "to_b method @ 32 # to_b path @ to_b '' HTTP/1.0''"
  let ?all = "all_headers host (hs @ HTTP_HEADERS) body"
  have nm: "10 \<notin> set (to_b s)" "13 \<notin> set (to_b s)" if "visible s" for s
    using to_b_range [OF that, of 10] to_b_range [OF that, of 13] by auto
  have l: "10 \<notin> set ?line" "13 \<notin> set ?line" using nm m p(1) http_version_bytes by auto
  have d: "\<forall>h \<in> set HTTP_HEADERS. hdr_ok h"
    by (simp add: HTTP_HEADERS_def hdr_ok_def to_b_def name_char_def)
  have "visible (int_str (int (length body)))"
  proof -
    have "33 \<le> (of_char c :: nat) \<and> of_char c \<le> (126 :: nat)" if "is_digit 10 c" for c
      using that by (auto simp: is_digit_def digit_val_def Let_def split: if_splits)
    then have "list_all (\<lambda>c. 33 \<le> (of_char c :: nat) \<and> of_char c \<le> (126 :: nat)) (num_str 10 (length body))"
      using num_str_digits [of 10 "length body"] by (auto simp: list_all_iff)
    moreover have "num_str 10 (length body) \<noteq> []" using num_str_shape by (metis list.distinct(1))
    ultimately show ?thesis by (simp add: visible_def int_str_def)
  qed
  note num = this
  have val: "hdr_ok (to_b n, to_b v)" if "visible n" "visible v" "CHR '':'' \<notin> set n" for n v
  proof -
    have "58 \<notin> set (to_b n)"
      using to_b_notin [OF visible_ascii [OF that(1)] that(3)] by simp
    moreover have "to_b s \<noteq> []" if "visible s" for s
      using that latin_to_b [OF visible_ascii [OF that]] by (auto simp: visible_def latin_def)
    moreover have "hd (to_b v) \<in> set (to_b v)" if "to_b v \<noteq> []" using that by simp
    ultimately show ?thesis
      using that nm to_b_range [OF that(1)] to_b_range [OF that(2)]
      by (fastforce simp: hdr_ok_def list_all_iff name_char_def)
  qed
  have all: "\<forall>h \<in> set ?all. hdr_ok h"
    using hs d kept_subset [of "[]" "hs @ HTTP_HEADERS"] val [of "''Host''" host] val [of "''Content-Length''", OF _ num] h
    by (auto simp: all_headers_def visible_def)
  then have lines: "\<forall>l \<in> set (map hdr_line ?all). l \<noteq> [] \<and> 10 \<notin> set l" using hdr_line_ok by auto
  have "read_lines buf = (?line @ CRLF) # read_lines (concat (map (\<lambda>l. l @ CRLF) (map hdr_line ?all)) @ CRLF @ body)"
    unfolding buf http_req_buf_lines using read_lines_crlf [OF l(1)] by (simp add: comp_def)
  moreover have "latin ?line = method @ CHR '' '' # path @ '' HTTP/1.0''"
    using m p(1) http_version_bytes(1) by (simp add: latin_to_b visible_ascii latin_space)
  moreover have "header_pairs (map (\<lambda>l. l @ CRLF) (map hdr_line ?all)) = map (\<lambda>(n, v). (latin n, latin v)) ?all"
    using header_pairs_lines [OF all] by (simp add: comp_def)
  ultimately show ?thesis
    using request_line_read [OF m p(1)] p(2) rstrip_crlf_end [OF l(2,1)] head_part_lines [OF lines]
    by (simp add: ParseHTTPRequest_def one_slash_def)
qed


text \<open>A name in lower case does not begin with a capital letter.\<close>

lemma slower_capital:
  assumes "65 \<le> (of_char k :: nat)" and "of_char k \<le> (90 :: nat)"
  shows "slower n \<noteq> k # s"
proof
  assume "slower n = k # s"
  then obtain c where c: "(if 65 \<le> (of_char c :: nat) \<and> of_char c \<le> (90 :: nat) then char_of (of_char c + 32 :: nat) else c) = k"
    by (cases n) (auto simp: slower_def)
  show False
  proof (cases "65 \<le> (of_char c :: nat) \<and> of_char c \<le> (90 :: nat)")
    case True
    then have "char_of (of_char c + 32 :: nat) = k" using c by simp
    from arg_cong [OF this, of "of_char :: char \<Rightarrow> nat"] True assms show False by simp
  qed (use c assms in auto)
qed

lemma slower_content_type: "slower n \<noteq> CHR ''C'' # s" "slower n \<noteq> CHR ''O'' # s" "slower n \<noteq> CHR ''A'' # s"
  by (rule slower_capital; simp)+

lemma map_of_headers:
  assumes "\<And>n. slower n \<noteq> k"
  shows "map_of (foldl (\<lambda>d (n, v). dict_set (slower n) v (dict_set n v d)) d hs) k =
    (case map_of (rev hs) k of Some v \<Rightarrow> Some v | None \<Rightarrow> map_of d k)"
proof (induction hs arbitrary: d)
  case (Cons h hs)
  obtain n v where "h = (n, v)" by (cases h)
  then show ?case using Cons.IH assms [of n] by (auto simp: map_add_def split: option.splits)
qed simp

lemma map_of_parsed_headers:
  assumes "\<And>n. slower n \<noteq> k" and "k \<notin> {''Origin'', ''origin''}"
  shows "map_of (http_parse_headers hs) k = map_of (rev hs) k"
  using map_of_headers [OF assms(1), where d = "[]" and hs = hs] assms(2)
  by (auto simp: http_parse_headers_def Let_def split: option.splits)

text \<open>The origin that is looked at is the last header spelled exactly so, of any other spelling nothing is seen.\<close>

lemma map_of_parsed_origin:
  "map_of (http_parse_headers hs) ''Origin'' = (case map_of (rev hs) ''Origin'' of None \<Rightarrow> Some ''null'' | Some v \<Rightarrow> Some v)"
proof -
  let ?d = "foldl (\<lambda>d (n, v). dict_set (slower n) v (dict_set n v d)) [] hs"
  have m: "map_of ?d ''Origin'' = map_of (rev hs) ''Origin''"
    using map_of_headers [where k = "''Origin''" and d = "[]" and hs = hs] slower_content_type(2) by (simp split: option.splits)
  have "''Origin'' \<notin> fst ` set ?d \<longleftrightarrow> map_of (rev hs) ''Origin'' = None"
    unfolding m [symmetric] map_of_eq_None_iff by simp
  then show ?thesis using m by (auto simp: http_parse_headers_def Let_def split: option.splits)
qed

lemma kept_distinct: "distinct (map fst (kept hdrs hs)) \<and> fst ` set (kept hdrs hs) \<inter> set hdrs = {}"
  by (induction hdrs hs rule: kept.induct) auto

lemma kept_has: "(n, v) \<in> set hs \<Longrightarrow> blower n \<noteq> to_b ''host'' \<Longrightarrow> n \<notin> set hdrs \<Longrightarrow> n \<in> fst ` set (kept hdrs hs)"
  by (induction hdrs hs rule: kept.induct) auto

lemma latin_inj: "latin a = latin b \<Longrightarrow> a = b"
proof (induction a arbitrary: b)
  case (Cons x a)
  then obtain y b' where b: "b = y # b'" by (cases b) (auto simp: latin_def)
  have lt: "unat z < 256" for z :: byte using unsigned_less [of z] by simp
  have "(char_of (unat x) :: char) = char_of (unat y)" using Cons.prems by (simp add: b latin_def)
  then have "unat x = unat y" using lt by (metis of_char_of mod_less)
  moreover have "latin a = latin b'" using Cons.prems by (simp add: b latin_def)
  ultimately show ?case using Cons.IH by (simp add: b unsigned_word_eqI)
qed (simp add: latin_def)

lemma latin_name: "ascii k \<Longrightarrow> latin n = k \<longleftrightarrow> n = to_b k"
  using latin_inj [of n "to_b k"] latin_to_b [of k] by auto

lemma map_of_read_pairs: "ascii k \<Longrightarrow> map_of (read_pairs hs) k = map_option latin (map_of hs (to_b k))"
proof (induction hs)
  case (Cons h hs)
  then show ?case using latin_name [of k "fst h"] by (cases h) (auto simp: read_pairs_def)
qed (simp add: read_pairs_def)

lemma read_pairs_rev: "rev (read_pairs hs) = read_pairs (rev hs)"
  by (simp add: read_pairs_def rev_map)

definition origin_read :: "(bytes \<times> bytes) list \<Rightarrow> string" where
  "origin_read hs = (case map_of (rev hs) (to_b ''Origin'') of None \<Rightarrow> ''null'' | Some v \<Rightarrow> latin v)"

definition asks_preflight :: "(bytes \<times> bytes) list \<Rightarrow> bool" where
  "asks_preflight hs =
     (to_b ''Access-Control-Request-Method'' \<in> fst ` set hs \<and> to_b ''Access-Control-Request-Headers'' \<in> fst ` set hs)"

lemma parsed_names:
  assumes "ascii k" and "\<And>n. slower n \<noteq> k" and "k \<notin> {''Origin'', ''origin''}"
  shows "k \<in> fst ` set (http_parse_headers (read_pairs hs)) \<longleftrightarrow> to_b k \<in> fst ` set hs"
proof -
  have "k \<in> fst ` set d \<longleftrightarrow> map_of d k \<noteq> None" for d :: "(string \<times> string) list" by (simp add: map_of_eq_None_iff)
  then have "k \<in> fst ` set (http_parse_headers (read_pairs hs)) \<longleftrightarrow> map_of (rev hs) (to_b k) \<noteq> None"
    using map_of_parsed_headers [OF assms(2,3)] by (simp add: read_pairs_rev map_of_read_pairs assms(1))
  then show ?thesis by (simp add: map_of_eq_None_iff)
qed

lemma origin_parsed: "dict_get ''Origin'' (http_parse_headers (read_pairs hs)) = Inr (origin_read hs)"
  by (simp add: dict_get_def map_of_parsed_origin read_pairs_rev map_of_read_pairs ascii_def origin_read_def split: option.splits)

lemma preflight_parsed:
  "{''Access-Control-Request-Method'', ''Access-Control-Request-Headers''} \<subseteq> fst ` set (http_parse_headers (read_pairs hs)) \<longleftrightarrow>
     asks_preflight hs"
  using parsed_names [of "''Access-Control-Request-Method''" hs] parsed_names [of "''Access-Control-Request-Headers''" hs]
    slower_content_type(3) by (simp add: asks_preflight_def ascii_def)

text \<open>What a request of a refused origin is answered.\<close>

definition refusal :: "string \<Rightarrow> bytes" where
  "refusal origin =
     (let body = to_b (dumps_indent 0 (sort_keys (JObj [(''msg'', JStr ''Invalid origin.''), (''error'', JInt 5)]))) in
      line ''HTTP/1.1 200 OK'' @ line (''Access-Control-Allow-Origin: '' @ origin) @ line ''x-client-tup: unknown'' @
      line ''Content-Type: application/json'' @ line ''Connection: close'' @
      line (''Content-Length: '' @ int_str (int (length body))) @ CRLF @ body)"

lemma service_of_text:
  assumes "ParseHTTPRequest msg = Inr req" and "rq_hdrs req = http_parse_headers (read_pairs hs)"
  shows "rest_service msg = Inr (if origin_read hs \<notin> set P2PD_CORS then Refuse (refusal (origin_read hs)) True
    else if asks_preflight hs then Refuse (preflight_reply (origin_read hs)) False else Serve req)"
proof -
  have "http_res payload ''application/json'' req None = Inr (line ''HTTP/1.1 200 OK'' @ line (''Access-Control-Allow-Origin: '' @ origin_read hs) @
      line ''x-client-tup: unknown'' @ line ''Content-Type: application/json'' @ line ''Connection: close'' @
      line (''Content-Length: '' @ int_str (int (length payload))) @ CRLF @ payload)" for payload
    by (simp add: http_res_def assms(2) origin_parsed)
  then have "http_res (to_b (dumps_indent 0 (sort_keys (JObj [(''msg'', JStr ''Invalid origin.''), (''error'', JInt 5)]))))
      ''application/json'' req None = Inr (refusal (origin_read hs))"
    by (simp only: refusal_def Let_def)
  then show ?thesis
    unfolding rest_service_def assms(1) sum.case assms(2) origin_parsed rbind_simps preflight_parsed by (simp only: rmap_def sum.case) simp
qed

abbreviation content_type_name :: bytes where "content_type_name \<equiv> to_b ''Content-Type''"

lemma content_type_read:
  assumes "hs = all_headers host us body"
  shows "map_of (http_parse_headers (map (\<lambda>(n, v). (latin n, latin v)) hs)) ''Content-Type'' =
    map_option latin (map_of (kept [] us) content_type_name)"
proof -
  let ?K = "kept [] us" and ?p = "map (\<lambda>(n, v). (latin n, latin v)) hs"
  have ct: "latin content_type_name = ''Content-Type''" by (rule latin_to_b) (simp add: ascii_def)
  have other: "to_b ''Host'' \<noteq> content_type_name" "to_b ''Content-Length'' \<noteq> content_type_name" by (simp_all add: to_b_def)
  have mem: "(''Content-Type'', w) \<in> set ?p \<longleftrightarrow> (\<exists>v. (content_type_name, v) \<in> set ?K \<and> w = latin v)" for w
  proof -
    have e: "''Content-Type'' = latin n \<longleftrightarrow> n = content_type_name" for n using latin_inj [of n content_type_name] ct by auto
    have "(''Content-Type'', w) \<in> set ?p \<longleftrightarrow> (\<exists>n v. (n, v) \<in> set hs \<and> ''Content-Type'' = latin n \<and> w = latin v)" by force
    also have "\<dots> \<longleftrightarrow> (\<exists>v. (content_type_name, v) \<in> set hs \<and> w = latin v)" unfolding e by blast
    also have "\<dots> \<longleftrightarrow> (\<exists>v. (content_type_name, v) \<in> set ?K \<and> w = latin v)"
      using other unfolding assms all_headers_def by (simp only: set_simps set_append Un_iff insert_iff prod.inject) (metis empty_iff)
    finally show ?thesis .
  qed
  have d: "distinct (map fst ?K)" using kept_distinct by blast
  have "map_of (rev ?p) ''Content-Type'' = map_option latin (map_of ?K content_type_name)"
  proof (cases "map_of ?K content_type_name")
    case None
    then have "(content_type_name, v) \<notin> set ?K" for v by (metis weak_map_of_SomeI option.distinct(1))
    then have "(''Content-Type'', w) \<notin> set ?p" for w unfolding mem by blast
    then have "map_of (rev ?p) ''Content-Type'' = None" by (metis map_of_SomeD not_None_eq set_rev)
    then show ?thesis by (simp add: None)
  next
    case (Some v)
    then have "(''Content-Type'', latin v) \<in> set (rev ?p)" using mem map_of_SomeD by fastforce
    then obtain w where w: "map_of (rev ?p) ''Content-Type'' = Some w" by (metis weak_map_of_SomeI)
    then have "(''Content-Type'', w) \<in> set ?p" using map_of_SomeD by fastforce
    then obtain v' where "(content_type_name, v') \<in> set ?K" "w = latin v'" using mem by blast
    then show ?thesis using w Some d by simp
  qed
  moreover have "map_of (http_parse_headers ?p) ''Content-Type'' = map_of (rev ?p) ''Content-Type''"
    using slower_content_type by (intro map_of_parsed_headers) auto
  ultimately show ?thesis by simp
qed

lemma content_length_read:
  "map_of (http_parse_headers (map (\<lambda>(n, v). (latin n, latin v)) (all_headers host us body))) ''Content-Length'' =
     Some (int_str (int (length body)))"
proof -
  have "latin (to_b ''Content-Length'') = ''Content-Length''" "latin (to_b (int_str (int (length body)))) = int_str (int (length body))"
    by (rule latin_to_b, simp add: ascii_def, rule latin_to_b, rule ascii_int_str)
  then show ?thesis
    using slower_content_type by (subst map_of_parsed_headers) (auto simp: all_headers_def)
qed

lemma body_read:
  assumes "buf = fst (http_req_buf IP4 host path method (Some body) (Some hs))"
    and "hdrs = http_parse_headers (map (\<lambda>(n, v). (latin n, latin v)) (all_headers host (hs @ HTTP_HEADERS) body))"
  shows "request_body buf hdrs =
    (if map_option latin (map_of (kept [] (hs @ HTTP_HEADERS)) content_type_name) = Some ''application/json'' \<and> body \<noteq> []
     then rmap JsonBody (loads (to_s body)) else Inr (RawBody body))"
proof -
  obtain pre where pre: "buf = pre @ body" unfolding assms(1) http_req_buf_lines by (metis append_assoc)
  have n: "py_int 10 (int_str (int (length body))) = Inr (int (length body))"
    using py_int_num_str [of 10 "length body"] by (simp add: int_str_def)
  have len: "map_of hdrs ''Content-Length'' = Some (int_str (int (length body)))"
    unfolding assms(2) by (rule content_length_read)
  have ct: "map_of hdrs ''Content-Type'' = map_option latin (map_of (kept [] (hs @ HTTP_HEADERS)) content_type_name)"
    unfolding assms(2) by (rule content_type_read) simp
  have b: "(if 1 \<le> int (length body) \<and> int (length body) \<le> int (length buf) then drop (length buf - nat (int (length body))) buf else []) = body"
    by (cases body) (simp_all add: pre)
  show ?thesis
    unfolding request_body_def len option.case n rbind_simps Let_def b ct by auto
qed


lemma find_in_schemes_two: "in_schemes rx 0 [[k, d]] k = Inr (Some 0, k, True)" "v \<noteq> k \<Longrightarrow> in_schemes rx 0 [[k, d]] v = Inr (None, v, False)"
  by simp_all

lemma path_segments_join:
  "(\<forall>s \<in> set ss. s \<noteq> [] \<and> CHR ''/'' \<notin> set s) \<Longrightarrow> path_segments (concat (map (\<lambda>s. CHR ''/'' # s) ss)) = ss"
proof -
  have "(\<forall>s \<in> set ss. CHR ''/'' \<notin> set s) \<Longrightarrow> CHR ''/'' \<notin> set p \<Longrightarrow>
      split_on CHR ''/'' (p @ concat (map (\<lambda>s. CHR ''/'' # s) ss)) = p # ss" for p
    by (induction ss arbitrary: p) (simp_all add: split_on_part split_on_append)
  from this [of "[]"] show "(\<forall>s \<in> set ss. s \<noteq> [] \<and> CHR ''/'' \<notin> set s) \<Longrightarrow> path_segments (concat (map (\<lambda>s. CHR ''/'' # s) ss)) = ss"
    by (simp add: path_segments_def)
qed

definition curl_headers :: "(bytes \<times> bytes) list \<Rightarrow> web_curl \<Rightarrow> (bytes \<times> bytes) list" where
  "curl_headers hdrs c = (if hdrs \<noteq> [] then hdrs else wc_hdrs c)"

definition curl_target :: "string \<Rightarrow> web_curl \<Rightarrow> string" where
  "curl_target path c = path @ (case wc_params c of None \<Rightarrow> [] | Some s \<Rightarrow> CHR ''?'' # s)"

lemma http_req_host: "http_req_buf af host = http_req_buf IP4 (if af = IP4 then host else ''['' @ host @ '']'')"
  by (intro ext) (simp add: http_req_buf_def)

lemma http_headers_plain: "content_type_name \<notin> fst ` set HTTP_HEADERS"
  by (simp add: HTTP_HEADERS_def to_b_def)

lemma kept_content_type:
  assumes "content_type_name \<notin> fst ` set hs"
  shows "map_of (kept [] (hs @ (content_type_name, v) # HTTP_HEADERS)) content_type_name = Some v"
    and "map_of (kept [] (hs @ HTTP_HEADERS)) content_type_name = None"
proof -
  let ?K = "kept [] (hs @ (content_type_name, v) # HTTP_HEADERS)"
  have "blower content_type_name \<noteq> to_b ''host''" by (simp add: blower_def to_b_def)
  then obtain w where w: "(content_type_name, w) \<in> set ?K"
    using kept_has [of content_type_name v "hs @ (content_type_name, v) # HTTP_HEADERS" "[]"] by auto
  then have "(content_type_name, w) \<in> set (hs @ (content_type_name, v) # HTTP_HEADERS)" using kept_subset by blast
  then have "w = v" using assms http_headers_plain by (force simp: image_iff)
  then show "map_of ?K content_type_name = Some v" using w kept_distinct by simp
  show "map_of (kept [] (hs @ HTTP_HEADERS)) content_type_name = None"
    using assms http_headers_plain kept_subset [of "[]" "hs @ HTTP_HEADERS"] by (force simp: map_of_eq_None_iff)
qed

section \<open>Properties\<close>

text \<open>C10: what the web client sends is what the REST server receives, over IPv4 or IPv6: the request head is parsed to the
  method and the target, whatever headers were given that set no content type, and the body arrives as it was when it was
  bytes, or as the same JSON object when it was a dictionary.\<close>

theorem web_request_arrives:
  assumes "visible method" and "visible (curl_target path c)" and "take 2 (curl_target path c) \<noteq> ''//''"
    and "visible (wc_host c)" and "\<forall>h \<in> set (curl_headers hdrs c). hdr_ok h"
    and "content_type_name \<notin> fst ` set (curl_headers hdrs c)" and "\<forall>ms. wc_body c = BodyDict ms \<longrightarrow> json_ok (JObj ms)"
    and "buf = fst (curl_api method path hdrs c)"
  shows "\<exists>req. ParseHTTPRequest buf = Inr req \<and> rq_command req = method \<and> rq_path req = curl_target path c \<and>
    request_body buf (rq_hdrs req) = Inr (case wc_body c of BodyBytes b \<Rightarrow> RawBody b | BodyDict ms \<Rightarrow> JsonBody (JObj ms))"
proof -
  let ?hs = "curl_headers hdrs c"
  define host where "host = (if wc_af c = IP4 then wc_host c else ''['' @ wc_host c @ '']'')"
  have host: "visible host" using assms(4) by (simp add: host_def visible_def)
  define us where "us = (case wc_body c of BodyBytes b \<Rightarrow> ?hs
    | BodyDict ms \<Rightarrow> ?hs @ [(content_type_name, to_b ''application/json'')])"
  define body where "body = (case wc_body c of BodyBytes b \<Rightarrow> b | BodyDict ms \<Rightarrow> to_b (dumps (JObj ms)))"
  have "buf = fst (http_req_buf (wc_af c) (wc_host c) (to_b (curl_target path c)) (to_b method) (Some body) (Some us))"
    using assms(8) by (auto simp: curl_api_def us_def body_def curl_headers_def curl_target_def Let_def split: web_body.splits prod.splits)
  then have buf: "buf = fst (http_req_buf IP4 host (to_b (curl_target path c)) (to_b method) (Some body) (Some us))"
    by (subst (asm) http_req_host) (simp only: host_def)
  have "hdr_ok (content_type_name, to_b ''application/json'')" by (simp add: hdr_ok_def to_b_def name_char_def)
  then have us: "\<forall>h \<in> set us. hdr_ok h" using assms(5) by (auto simp: us_def split: web_body.splits)
  note p = request_parsed [OF assms(1-3) host us buf]
  note b = body_read [OF buf refl]
  have "request_body buf (http_parse_headers (map (\<lambda>(n, v). (latin n, latin v)) (all_headers host (us @ HTTP_HEADERS) body))) =
      Inr (case wc_body c of BodyBytes b \<Rightarrow> RawBody b | BodyDict ms \<Rightarrow> JsonBody (JObj ms))"
  proof (cases "wc_body c")
    case (BodyBytes x)
    then show ?thesis using b kept_content_type(2) [OF assms(6)] by (simp add: us_def body_def)
  next
    case (BodyDict ms)
    then have j: "json_ok (JObj ms)" using assms(7) by blast
    have a: "ascii (dumps (JObj ms))" using dumps_ascii(1) [OF j] .
    have "dumps (JObj ms) \<noteq> []" using dumps_first [OF j] by auto
    then have "to_b (dumps (JObj ms)) \<noteq> []" using to_s_to_b [OF a] by (auto simp: to_s_def)
    moreover have "latin (to_b ''application/json'') = ''application/json''" by (rule latin_to_b) (simp add: ascii_def)
    ultimately show ?thesis
      using b kept_content_type(1) [OF assms(6), of "to_b ''application/json''"] loads_dumps [OF j] to_s_to_b [OF a]
      by (simp add: us_def body_def BodyDict rmap_def)
  qed
  then show ?thesis using p by simp
qed

definition ex_curl :: "af \<Rightarrow> string \<Rightarrow> web_curl" where
  "ex_curl af host = \<lparr>wc_af = af, wc_host = host, wc_params = None, wc_hdrs = [], wc_body = BodyDict [(''rate'', JInt 5)], wc_path = None\<rparr>"

theorem web_request_arrives_witness:
  "\<exists>req. ParseHTTPRequest (fst (curl_api ''POST'' ''/toxics'' [] (ex_curl IP6 ''::1''))) = Inr req \<and>
    rq_command req = ''POST'' \<and> rq_path req = ''/toxics'' \<and>
    request_body (fst (curl_api ''POST'' ''/toxics'' [] (ex_curl IP6 ''::1''))) (rq_hdrs req) = Inr (JsonBody (JObj [(''rate'', JInt 5)]))"
proof -
  let ?c = "ex_curl IP6 ''::1''"
  have "\<exists>req. ParseHTTPRequest (fst (curl_api ''POST'' ''/toxics'' [] ?c)) = Inr req \<and> rq_command req = ''POST'' \<and>
      rq_path req = curl_target ''/toxics'' ?c \<and>
      request_body (fst (curl_api ''POST'' ''/toxics'' [] ?c)) (rq_hdrs req) =
        Inr (case wc_body ?c of BodyBytes b \<Rightarrow> RawBody b | BodyDict ms \<Rightarrow> JsonBody (JObj ms))"
    by (rule web_request_arrives) (simp_all add: ex_curl_def curl_target_def curl_headers_def visible_def ascii_def dict_ok_def)
  then show ?thesis by (simp add: ex_curl_def curl_target_def)
qed

text \<open>C40: which requests are refused for their origin: what counts is the last header spelled exactly \<open>Origin\<close>. If there
  is one with a foreign value, no route is reached, the state is kept, the server answers that the origin is invalid and its
  own callback fails; if there is none, the request is taken for one of the origin \<open>null\<close> and served, so that a header
  \<open>origin\<close> with a foreign value, which means the same in HTTP, is not looked at.\<close>

theorem origin_read_by_spelling:
  assumes "visible meth" and "visible path" and "take 2 path \<noteq> ''//''" and "visible ver" and "version_ok ver"
    and "\<forall>h \<in> set hs. hdr_ok h" and "msg = request_text meth path ver hs body"
  shows "\<exists>req. ParseHTTPRequest msg = Inr req \<and> rq_command req = meth \<and> rq_path req = path \<and>
    rest_msg_cb rx path_of exc call msg client_tup st =
      (if origin_read hs \<notin> set P2PD_CORS
       then (Err AttributeError, st\<lparr>rs_sent := rs_sent st @ [refusal (origin_read hs)]\<rparr>)
       else if asks_preflight hs
       then (Err AttributeError, st\<lparr>rs_sent := rs_sent st @ [preflight_reply (origin_read hs)]\<rparr>)
       else rest_serve rx path_of exc call msg client_tup req st)"
proof -
  let ?req = "\<lparr>rq_command = meth, rq_path = path, rq_hdrs = http_parse_headers (read_pairs hs)\<rparr>"
  have p: "ParseHTTPRequest msg = Inr ?req" unfolding assms(7) by (rule request_text_parsed [OF assms(1-6)])
  show ?thesis
    by (rule exI [of _ ?req]) (simp add: p rest_msg_cb_def service_of_text [OF p])
qed

definition ex_quiet_state :: "(nat, nat) rest_state" where
  "ex_quiet_state = \<lparr>rs_apis = [(''GET'', [\<lparr>ra_handler = 7, ra_args = []\<rparr>])], rs_app = 0, rs_sent = []\<rparr>"

definition ex_origin_req :: "string \<Rightarrow> bytes" where
  "ex_origin_req name = request_text ''GET'' ''/open/a/b'' ''HTTP/1.1'' [(to_b name, to_b ''http://evil'')] []"

text \<open>The same foreign origin under the two spellings: refused, and served by the handler 7.\<close>

theorem origin_read_by_spelling_witness:
  "rest_msg_cb (\<lambda>_ _. False) id (\<lambda>_. []) (\<lambda>h _ s. (Ok OutNone, h)) (ex_origin_req ''Origin'') (''1.2.3.4'', 5) ex_quiet_state =
     (Err AttributeError, ex_quiet_state\<lparr>rs_sent := [refusal ''http://evil'']\<rparr>) \<and>
   rs_app (snd (rest_msg_cb (\<lambda>_ _. False) id (\<lambda>_. []) (\<lambda>h _ s. (Ok OutNone, h)) (ex_origin_req ''origin'') (''1.2.3.4'', 5)
     ex_quiet_state)) = 7"
proof -
  have h: "hdr_ok (to_b ''Origin'', to_b ''http://evil'')" "hdr_ok (to_b ''origin'', to_b ''http://evil'')"
    by (simp_all add: hdr_ok_def to_b_def name_char_def)
  have v: "visible ''GET''" "visible ''/open/a/b''" "visible ''HTTP/1.1''" "version_ok ''HTTP/1.1''"
    by (simp_all add: visible_def version_ok_def is_digit_def digit_val_def num_val_def)
  have o: "origin_read [(to_b ''Origin'', to_b ''http://evil'')] = ''http://evil''"
      "origin_read [(to_b ''origin'', to_b ''http://evil'')] = ''null''"
    by (simp_all add: origin_read_def latin_to_b ascii_def) (simp add: to_b_def)
  have np: "\<not> asks_preflight [(to_b ''origin'', to_b ''http://evil'')]" by (simp add: asks_preflight_def) (simp add: to_b_def)
  let ?call = "\<lambda>h _ s. (Ok OutNone, h) :: rest_out res \<times> nat"
  have a: "rest_msg_cb (\<lambda>_ _. False) id (\<lambda>_. []) ?call (ex_origin_req ''Origin'') (''1.2.3.4'', 5) ex_quiet_state =
      (Err AttributeError, ex_quiet_state\<lparr>rs_sent := [refusal ''http://evil'']\<rparr>)"
    using origin_read_by_spelling [OF v(1,2) _ v(3,4) _ refl, where hs = "[(to_b ''Origin'', to_b ''http://evil'')]" and rx = "\<lambda>_ _. False"
        and path_of = id and exc = "\<lambda>_. []" and call = ?call and body = "[]" and client_tup = "(''1.2.3.4'', 5)" and st = ex_quiet_state] h(1) o(1)
    by (auto simp: ex_origin_req_def P2PD_CORS_def ex_quiet_state_def)
  obtain req where req: "ParseHTTPRequest (ex_origin_req ''origin'') = Inr req" "rq_command req = ''GET''"
      "rest_msg_cb (\<lambda>_ _. False) id (\<lambda>_. []) ?call (ex_origin_req ''origin'') (''1.2.3.4'', 5) ex_quiet_state =
       rest_serve (\<lambda>_ _. False) id (\<lambda>_. []) ?call (ex_origin_req ''origin'') (''1.2.3.4'', 5) req ex_quiet_state"
    using origin_read_by_spelling [OF v(1,2) _ v(3,4) _ refl, where hs = "[(to_b ''origin'', to_b ''http://evil'')]" and rx = "\<lambda>_ _. False"
        and path_of = id and exc = "\<lambda>_. []" and call = ?call and body = "[]" and client_tup = "(''1.2.3.4'', 5)" and st = ex_quiet_state] h(2) o(2) np
    by (auto simp: ex_origin_req_def P2PD_CORS_def)
  have hdrs: "http_parse_headers (read_pairs [(to_b ''origin'', to_b ''http://evil'')]) = [(''origin'', ''null''), (''Origin'', ''null'')]"
    by (simp add: http_parse_headers_def read_pairs_def latin_to_b ascii_def slower_def)
  have "rq_hdrs req = [(''origin'', ''null''), (''Origin'', ''null'')] \<and> rq_path req = ''/open/a/b''"
    using req(1) request_text_parsed [OF v(1,2) _ v(3,4), of "[(to_b ''origin'', to_b ''http://evil'')]" "[]"] h(2) hdrs
    by (auto simp: ex_origin_req_def)
  then have "rs_app (snd (rest_serve (\<lambda>_ _. False) id (\<lambda>_. []) ?call (ex_origin_req ''origin'') (''1.2.3.4'', 5) req ex_quiet_state)) = 7"
    using req(2) by (simp add: rest_serve_def request_body_def ex_quiet_state_def api_route_def path_segments_def rmap_def
        handler_reply_def rest_reply_def reply_payload_def)
  then show ?thesis using a req(3) by simp
qed

text \<open>A default of a route is not constant: a request that gives the parameter a value makes that value the
  default, and the next request that leaves it out, from any client, gets it.\<close>

theorem route_default_leaks:
  assumes "k \<noteq> []" and "v \<noteq> []" and "CHR ''/'' \<notin> set k" and "CHR ''/'' \<notin> set v" and "v \<noteq> k"
  shows "api_route rx (CHR ''/'' # k) [[k, d]] = Inr ([(k, d)], [], [[k, d]]) \<and>
    (\<exists>schemes. api_route rx (CHR ''/'' # k @ CHR ''/'' # v) [[k, d]] = Inr ([(k, v)], [], schemes) \<and>
       api_route rx (CHR ''/'' # k) schemes = Inr ([(k, v)], [], schemes))"
proof -
  have one: "path_segments (CHR ''/'' # k) = [k]" using path_segments_join [of "[k]"] assms by simp
  have two: "path_segments (CHR ''/'' # k @ CHR ''/'' # v) = [k, v]" using path_segments_join [of "[k, v]"] assms by simp
  show ?thesis
    using assms(5) by (simp add: api_route_def one two rmap_def scheme_value_def scheme_keep_def)
qed

theorem route_default_leaks_witness:
  "\<exists>schemes. api_route (\<lambda>_ _. False) ''/timeout/9'' [[''timeout'', ''2'']] = Inr ([(''timeout'', ''9'')], [], schemes) \<and>
     api_route (\<lambda>_ _. False) ''/timeout'' schemes = Inr ([(''timeout'', ''9'')], [], schemes)"
  using route_default_leaks [of "''timeout''" "''9''" "\<lambda>_ _. False" "''2''"] by auto

text \<open>The body of a reply is lost unless it comes with the head: when the first chunk holds the whole head, what
  is parsed as the reply is that chunk alone, although everything that follows is waited for and gathered.\<close>

theorem late_body_dropped:
  assumes "has_part [13, 10, 13, 10] buf" and "buf \<noteq> []"
  shows "fst (do_web_req (buf # bufs)) = buf"
  using assms by (simp add: do_web_req_def Let_def split: prod.splits)

theorem late_body_dropped_witness:
  "fst (do_web_req [to_b (''HTTP/1.0 200 OK'' @ [CHR 13, CHR 10] @ ''Content-Length: 3'' @ [CHR 13, CHR 10, CHR 13, CHR 10]), to_b ''abc'']) =
     to_b (''HTTP/1.0 200 OK'' @ [CHR 13, CHR 10] @ ''Content-Length: 3'' @ [CHR 13, CHR 10, CHR 13, CHR 10])"
  by (rule late_body_dropped) (simp_all add: has_part_def to_b_def upt_rec)

end
