(* ===== verification/Rest_Api.thy ===== *)
theory Rest_Api
  imports Http_Lib
begin

text \<open>
  \<^verbatim>\<open>node/rest_api.py\<close>: the REST server of a node, its routes and what each does to the table of connections and of
  subscriptions. Connections are opaque; what connecting, sending, receiving and evaluating a text give is the
  environment.
\<close>

section \<open>State\<close>

text \<open>The address of a subscription: none, what was evaluated, or the text put in the place of one that did not pass.\<close>

datatype addr_val = AddrNone | AddrTup tup | AddrText string

type_synonym rest_sub = "bytes option \<times> addr_val"

definition REST_SUB_ALL :: rest_sub where "REST_SUB_ALL = (None, AddrNone)"

record 'c rest_app =
  ap_cons :: "(string \<times> 'c) list"
  ap_subs :: "(string \<times> rest_sub) list"
  ap_sent :: "('c \<times> bytes) list"
  ap_closed :: "'c list"
  ap_tunnels :: "'c list"
  ap_evals :: "string list"

record 'c rest_env =
  re_ifs :: "json res"
  re_addr :: "string option"
  re_connect :: "string \<Rightarrow> 'c option"
  re_subscribe :: "'c \<Rightarrow> rest_sub \<Rightarrow> unit res"
  re_unsubscribe :: "'c \<Rightarrow> rest_sub \<Rightarrow> unit res"
  re_send :: "'c \<Rightarrow> bytes \<Rightarrow> bool res"
  re_recv :: "'c \<Rightarrow> rest_sub \<Rightarrow> (tup \<times> bytes) option res"
  re_laddr :: "'c \<Rightarrow> json res"
  re_raddr :: "'c \<Rightarrow> json res"
  re_route :: "'c \<Rightarrow> json res"
  re_fd :: "'c \<Rightarrow> int res"
  re_if :: "'c \<Rightarrow> (string \<times> int) res"
  re_unquote :: "string \<Rightarrow> string"
  re_eval :: "string \<Rightarrow> addr_val res"
  re_text :: "rest_sub \<Rightarrow> string"

section \<open>Parameters\<close>

definition rest_err :: "int \<Rightarrow> string \<Rightarrow> rest_out" where
  "rest_err n msg = OutJson (JObj [(''error'', JInt n), (''msg'', JStr msg)])"

definition con_info :: "'c rest_env \<Rightarrow> string \<Rightarrow> 'c \<Rightarrow> rest_out res" where
  "con_info env con_name con =
     rbind (case re_raddr env con of Inl OSError \<Rightarrow> Ok (JStr ''not connected'') | r \<Rightarrow> r) (\<lambda>raddr.
     rbind (case re_laddr env con of Inl OSError \<Rightarrow> Ok (JStr ''sock closed'') | r \<Rightarrow> r) (\<lambda>laddr.
     let route = (case re_route env con of Inl _ \<Rightarrow> JStr ''couldn't load'' | Inr j \<Rightarrow> j) in
     rbind (re_fd env con) (\<lambda>fd.
     rbind (re_if env con) (\<lambda>(if_name, offset).
       Ok (OutJson (JObj [(''error'', JInt 0), (''name'', JStr con_name), (''fd'', JInt fd), (''laddr'', laddr), (''raddr'', raddr),
                         (''route'', route), (''if'', JObj [(''name'', JStr if_name), (''offset'', JInt offset)])]))))))"

text \<open>A positional parameter given by its name: the one after the first such name.\<close>

fun get_opt_param :: "string list \<Rightarrow> string \<Rightarrow> string option" where
  "get_opt_param [] name = None"
| "get_opt_param (p # ps) name =
     (if p = name then (case ps of [] \<Rightarrow> None | v # _ \<Rightarrow> Some v) else get_opt_param ps name)"

text \<open>
  The test before an address is evaluated. The bar separates two patterns: an opening bracket with a quoted address,
  with anything after it, or what ends an address, with nothing before it.
\<close>

definition quote_char :: "char \<Rightarrow> bool" where
  "quote_char c = ((of_char c :: nat) \<in> {34, 39})"

definition addr_char :: "char \<Rightarrow> bool" where
  "addr_char c = (is_digit 10 c \<or> c \<in> set ''.:%'')"

definition addr_opens :: "string \<Rightarrow> bool" where
  "addr_opens s =
     (case s of
        [] \<Rightarrow> False
      | c # cs \<Rightarrow>
          c \<in> set ''(['' \<and>
          (case dropWhile (\<lambda>c. c = CHR '' '') cs of
             [] \<Rightarrow> False
           | q # rest \<Rightarrow> quote_char q \<and> takeWhile addr_char rest \<noteq> [] \<and>
                         (case dropWhile addr_char rest of [] \<Rightarrow> False | q' # _ \<Rightarrow> quote_char q')))"

definition addr_closes :: "string \<Rightarrow> bool" where
  "addr_closes s =
     (case dropWhile (\<lambda>c. c = CHR '' '') s of
        [] \<Rightarrow> False
      | c # cs \<Rightarrow>
          c = CHR '','' \<and>
          (let r = dropWhile (\<lambda>c. c = CHR '' '') cs; t = dropWhile (\<lambda>c. c = CHR '' '') (dropWhile (is_digit 10) r)
           in takeWhile (is_digit 10) r \<noteq> [] \<and> t \<noteq> [] \<and> hd t \<in> set '')]'' \<and> tl t \<in> {[], [CHR 10]}))"

definition addr_guard :: "string \<Rightarrow> bool" where
  "addr_guard s = (addr_opens s \<or> addr_closes s)"

definition get_sub_params :: "'c rest_env \<Rightarrow> rest_v \<Rightarrow> 'c rest_app \<Rightarrow> rest_sub res \<times> 'c rest_app" where
  "get_sub_params env v app =
     (let msg_p = map_option to_b (map_of (rv_name v) ''msg_p'') in
      case get_opt_param (rv_pos v) ''addr_p'' of
        None \<Rightarrow> (Ok (msg_p, AddrNone), app)
      | Some addr \<Rightarrow>
          if \<not> addr_guard addr then (Ok (msg_p, AddrText ''invalid addr tuple''), app)
          else (rmap (Pair msg_p) (re_eval env addr), app\<lparr>ap_evals := ap_evals app @ [addr]\<rparr>))"

definition load_sub_or_default :: "rest_v \<Rightarrow> 'c rest_app \<Rightarrow> rest_sub" where
  "load_sub_or_default v app =
     (case get_opt_param (rv_pos v) ''name'' of
        None \<Rightarrow> REST_SUB_ALL
      | Some n \<Rightarrow> (case map_of (ap_subs app) n of None \<Rightarrow> REST_SUB_ALL | Some s \<Rightarrow> s))"

text \<open>
  A timeout from the path is text. Waiting with it raises inside the receive, which turns that into an empty buffer.
\<close>

definition rest_recv :: "'c rest_env \<Rightarrow> rest_v \<Rightarrow> 'c rest_app \<Rightarrow> 'c \<Rightarrow> (tup \<times> bytes) option res" where
  "rest_recv env v app con =
     (case get_opt_param (rv_pos v) ''timeout'' of
        Some _ \<Rightarrow> Ok None
      | None \<Rightarrow> re_recv env con (load_sub_or_default v app))"

definition get_con :: "string \<Rightarrow> rest_v \<Rightarrow> 'c rest_app \<Rightarrow> (string \<times> 'c) res" where
  "get_con key v app =
     rbind (dict_get key (rv_name v)) (\<lambda>con_name. rmap (Pair con_name) (dict_get con_name (ap_cons app)))"

section \<open>Routes\<close>

datatype rest_handler =
    GetVersion | GetInterfaces | GetPeerAddr | OpenPipe | GetConInfo | SendText | RecvText | CloseCon | SendBinary | GetBinary
  | Tunnel | DoSub | DoUnsub

definition get_version :: rest_out where
  "get_version = OutJson (JObj [(''title'', JStr ''P2PD''), (''author'', JStr ''Matthew@Roberts.PM''), (''version'', JStr ''3.0.0''),
     (''error'', JInt 0)])"

definition get_interfaces :: "'c rest_env \<Rightarrow> rest_out" where
  "get_interfaces env =
     (case re_ifs env of
        Inl _ \<Rightarrow> rest_err 4 ''unable to convert ifs to dict.''
      | Inr j \<Rightarrow> OutJson (JObj [(''ifs'', j), (''error'', JInt 0)]))"

definition get_peer_addr :: "'c rest_env \<Rightarrow> rest_out" where
  "get_peer_addr env =
     (case re_addr env of
        None \<Rightarrow> rest_err 5 ''p2pd node addr bytes is none.''
      | Some a \<Rightarrow> OutJson (JObj [(''addr'', JStr a), (''error'', JInt 0)]))"

definition open_p2p_pipe :: "'c rest_env \<Rightarrow> rest_v \<Rightarrow> 'c rest_app \<Rightarrow> rest_out res \<times> 'c rest_app" where
  "open_p2p_pipe env v app =
     (case rbind (dict_get ''open'' (rv_name v)) (\<lambda>n. case rv_pos v of [] \<Rightarrow> Err KeyError | d # _ \<Rightarrow> Ok (n, d)) of
        Inl e \<Rightarrow> (Err e, app)
      | Inr (con_name, dest) \<Rightarrow>
          if con_name \<in> fst ` set (ap_cons app) then
            (Ok (OutJson (JObj [(''msg'', JStr ''Con name already exists.''), (''error'', JInt 2)])), app)
          else if dest = ''self'' \<and> re_addr env = None then (Ok (rest_err 5 ''p2pd node addr bytes is none.''), app)
          else (case re_connect env (if dest = ''self'' then (case re_addr env of Some a \<Rightarrow> a | None \<Rightarrow> dest) else dest) of
                  None \<Rightarrow> (Ok (OutJson (JObj [(''msg'', JStr (''Con '' @ con_name @ '' failed connect.'')), (''error'', JInt 3)])), app)
                | Some con \<Rightarrow>
                    (case re_subscribe env con REST_SUB_ALL of
                       Inl e \<Rightarrow> (Err e, app)
                     | Inr _ \<Rightarrow> (con_info env con_name con, app\<lparr>ap_cons := dict_set con_name con (ap_cons app)\<rparr>))))"

text \<open>The handler a connection runs when it ends.\<close>

definition con_ended :: "string \<Rightarrow> 'c rest_app \<Rightarrow> 'c rest_app" where
  "con_ended con_name app = app\<lparr>ap_cons := dict_del con_name (ap_cons app)\<rparr>"

text \<open>This route is registered as \<open>info\<close> but asks for the parameter \<open>con\<close>; the tunnel asks for \<open>pipe\<close>.\<close>

definition get_con_info :: "'c rest_env \<Rightarrow> rest_v \<Rightarrow> 'c rest_app \<Rightarrow> rest_out res" where
  "get_con_info env v app =
     rbind (dict_get ''con'' (rv_name v)) (\<lambda>con_name.
       case map_of (ap_cons app) con_name of
         None \<Rightarrow> Ok (OutJson (JObj [(''error'', JInt 7), (''msg'', JStr (''con '' @ con_name @ '' does not exist''))]))
       | Some con \<Rightarrow> con_info env con_name con)"

definition rest_send ::
  "'c rest_env \<Rightarrow> string \<Rightarrow> 'c \<Rightarrow> bytes \<Rightarrow> string \<Rightarrow> 'c rest_app \<Rightarrow> rest_out res \<times> 'c rest_app" where
  "rest_send env con_name con data failed app =
     (case re_send env con data of
        Inl e \<Rightarrow> (Err e, app)
      | Inr False \<Rightarrow> (Ok (rest_err 8 failed), app)
      | Inr True \<Rightarrow>
          (Ok (OutJson (JObj [(''con_name'', JStr con_name), (''sent'', JInt (int (length data))), (''error'', JInt 0)])),
           app\<lparr>ap_sent := ap_sent app @ [(con, data)]\<rparr>))"

definition pipe_send_text :: "'c rest_env \<Rightarrow> rest_v \<Rightarrow> 'c rest_app \<Rightarrow> rest_out res \<times> 'c rest_app" where
  "pipe_send_text env v app =
     (case rbind (dict_get ''send'' (rv_name v)) (\<lambda>n. case rv_pos v of [] \<Rightarrow> Err KeyError
             | t # _ \<Rightarrow> rmap (\<lambda>con. (n, con, to_b (re_unquote env t))) (dict_get n (ap_cons app))) of
        Inl e \<Rightarrow> (Err e, app)
      | Inr (n, con, data) \<Rightarrow> rest_send env n con data ''send txt failed'' app)"

definition pipe_recv_text :: "'c rest_env \<Rightarrow> rest_v \<Rightarrow> 'c rest_app \<Rightarrow> rest_out res" where
  "pipe_recv_text env v app =
     rbind (get_con ''recv'' v app) (\<lambda>(con_name, con).
       case rest_recv env v app con of
         Inl TimeoutError \<Rightarrow> Ok (OutJson (JObj [(''msg'', JStr ''recv timeout''), (''error'', JInt 5)]))
       | Inl e \<Rightarrow> Err e
       | Inr None \<Rightarrow> Ok (OutJson (JObj [(''msg'', JStr (''recv buffer '' @ re_text env (load_sub_or_default v app) @ '' empty.'')),
                                      (''error'', JInt 6)]))
       | Inr (Some ((host, port), data)) \<Rightarrow>
           Ok (OutJson (JObj [(''con_name'', JStr con_name), (''client_tup'', JArr [JStr host, JInt port]), (''data'', JStr (to_s data)),
                             (''error'', JInt 0)])))"

definition pipe_close :: "'c rest_env \<Rightarrow> rest_v \<Rightarrow> 'c rest_app \<Rightarrow> rest_out res \<times> 'c rest_app" where
  "pipe_close env v app =
     (case get_con ''close'' v app of
        Inl e \<Rightarrow> (Err e, app)
      | Inr (con_name, con) \<Rightarrow>
          (Ok (OutJson (JObj [(''closed'', JStr con_name), (''error'', JInt 0)])), app\<lparr>ap_closed := ap_closed app @ [con]\<rparr>))"

text \<open>A body that was parsed as JSON cannot be written to a connection: its send reports a failure.\<close>

definition pipe_send_binary :: "'c rest_env \<Rightarrow> rest_v \<Rightarrow> 'c rest_app \<Rightarrow> rest_out res \<times> 'c rest_app" where
  "pipe_send_binary env v app =
     (case get_con ''binary'' v app of
        Inl e \<Rightarrow> (Err e, app)
      | Inr (con_name, con) \<Rightarrow>
          (case rv_body v of
             JsonBody _ \<Rightarrow> (Ok (rest_err 8 ''binary send failed.''), app)
           | RawBody data \<Rightarrow> rest_send env con_name con data ''binary send failed.'' app))"

definition pipe_get_binary :: "'c rest_env \<Rightarrow> rest_v \<Rightarrow> 'c rest_app \<Rightarrow> rest_out res" where
  "pipe_get_binary env v app =
     rbind (get_con ''binary'' v app) (\<lambda>(_, con).
     rbind (rest_recv env v app con) (\<lambda>out.
       Ok (case out of
             None \<Rightarrow> OutJson (JObj [(''msg'', JStr (''recv buffer '' @ re_text env (load_sub_or_default v app) @ '' empty.'')),
                                   (''error'', JInt 6)])
           | Some (_, data) \<Rightarrow> OutBytes data)))"

definition http_tunnel_trick :: "rest_v \<Rightarrow> 'c rest_app \<Rightarrow> rest_out res \<times> 'c rest_app" where
  "http_tunnel_trick v app =
     (case get_con ''pipe'' v app of
        Inl e \<Rightarrow> (Err e, app)
      | Inr (_, con) \<Rightarrow> (Ok OutNone, app\<lparr>ap_tunnels := ap_tunnels app @ [con]\<rparr>))"

text \<open>The subscription is entered in the table before the connection accepts it.\<close>

definition pipe_do_sub :: "'c rest_env \<Rightarrow> rest_v \<Rightarrow> 'c rest_app \<Rightarrow> rest_out res \<times> 'c rest_app" where
  "pipe_do_sub env v app =
     (case rbind (dict_get ''sub'' (rv_name v)) (\<lambda>c. rmap (Pair c) (dict_get ''name'' (rv_name v))) of
        Inl e \<Rightarrow> (Err e, app)
      | Inr (con_name, sub_name) \<Rightarrow>
          if sub_name = ''all'' then (Ok (OutJson (JObj [(''msg'', JStr ''reserved sub name''), (''error'', JInt 10)])), app)
          else if sub_name \<in> fst ` set (ap_subs app) then
            (Ok (OutJson (JObj [(''msg'', JStr ''sub name already exists.''), (''error'', JInt 9)])), app)
          else (case dict_get con_name (ap_cons app) of
                  Inl e \<Rightarrow> (Err e, app)
                | Inr con \<Rightarrow>
                    (case get_sub_params env v app of
                       (Inl e, app) \<Rightarrow> (Err e, app)
                     | (Inr sub, app) \<Rightarrow>
                         (let app = app\<lparr>ap_subs := dict_set sub_name sub (ap_subs app)\<rparr>
                          in (rmap (\<lambda>_. OutJson (JObj [(''con_name'', JStr con_name), (''sub_name'', JStr sub_name),
                                 (''sub'', JStr (re_text env sub)), (''error'', JInt 0)])) (re_subscribe env con sub), app)))))"

definition pipe_do_unsub :: "'c rest_env \<Rightarrow> rest_v \<Rightarrow> 'c rest_app \<Rightarrow> rest_out res \<times> 'c rest_app" where
  "pipe_do_unsub env v app =
     (case rbind (dict_get ''sub'' (rv_name v)) (\<lambda>c. rbind (dict_get ''name'' (rv_name v)) (\<lambda>n.
             rmap (\<lambda>con. (c, n, con)) (dict_get c (ap_cons app)))) of
        Inl e \<Rightarrow> (Err e, app)
      | Inr (con_name, sub_name, con) \<Rightarrow>
          (let reply = (\<lambda>sub. OutJson (JObj [(''con_name'', JStr con_name), (''unsub'', JStr (re_text env sub)), (''error'', JInt 0)])) in
           if sub_name = ''all'' then (rmap (\<lambda>_. reply REST_SUB_ALL) (re_unsubscribe env con REST_SUB_ALL), app)
           else (case rbind (dict_get sub_name (ap_subs app)) (\<lambda>sub. rmap (\<lambda>_. sub) (re_unsubscribe env con sub)) of
                   Inl e \<Rightarrow> (Err e, app)
                 | Inr sub \<Rightarrow> (Ok (reply sub), app\<lparr>ap_subs := dict_del sub_name (ap_subs app)\<rparr>))))"

definition rest_call :: "'c rest_env \<Rightarrow> rest_handler \<Rightarrow> rest_v \<Rightarrow> 'c rest_app \<Rightarrow> rest_out res \<times> 'c rest_app" where
  "rest_call env h v app =
     (case h of
        GetVersion \<Rightarrow> (Ok get_version, app)
      | GetInterfaces \<Rightarrow> (Ok (get_interfaces env), app)
      | GetPeerAddr \<Rightarrow> (Ok (get_peer_addr env), app)
      | OpenPipe \<Rightarrow> open_p2p_pipe env v app
      | GetConInfo \<Rightarrow> (get_con_info env v app, app)
      | SendText \<Rightarrow> pipe_send_text env v app
      | RecvText \<Rightarrow> (pipe_recv_text env v app, app)
      | CloseCon \<Rightarrow> pipe_close env v app
      | SendBinary \<Rightarrow> pipe_send_binary env v app
      | GetBinary \<Rightarrow> (pipe_get_binary env v app, app)
      | Tunnel \<Rightarrow> http_tunnel_trick v app
      | DoSub \<Rightarrow> pipe_do_sub env v app
      | DoUnsub \<Rightarrow> pipe_do_unsub env v app)"

text \<open>The routes by method, in the alphabetical order of the methods that serve them.\<close>

definition rest_get :: "rest_handler rest_api list" where
  "rest_get =
     [\<lparr>ra_handler = GetConInfo, ra_args = [[''info'']]\<rparr>, \<lparr>ra_handler = GetInterfaces, ra_args = [[''ifs'']]\<rparr>,
      \<lparr>ra_handler = GetPeerAddr, ra_args = [[''addr'']]\<rparr>, \<lparr>ra_handler = GetVersion, ra_args = [[''version'']]\<rparr>,
      \<lparr>ra_handler = Tunnel, ra_args = [[''tunnel'']]\<rparr>, \<lparr>ra_handler = OpenPipe, ra_args = [[''open'']]\<rparr>,
      \<lparr>ra_handler = CloseCon, ra_args = [[''close'']]\<rparr>, \<lparr>ra_handler = DoSub, ra_args = [[''sub''], [''name''], [''msg_p'']]\<rparr>,
      \<lparr>ra_handler = GetBinary, ra_args = [[''binary'']]\<rparr>, \<lparr>ra_handler = RecvText, ra_args = [[''recv'']]\<rparr>,
      \<lparr>ra_handler = SendText, ra_args = [[''send'']]\<rparr>]"

definition rest_apis :: "(string \<times> rest_handler rest_api list) list" where
  "rest_apis = [(''GET'', rest_get), (''POST'', [\<lparr>ra_handler = SendBinary, ra_args = [[''binary'']]\<rparr>]),
     (''DELETE'', [\<lparr>ra_handler = DoUnsub, ra_args = [[''sub''], [''name'']]\<rparr>])]"


section \<open>Which route is chosen\<close>

definition rest_words :: "string list" where
  "rest_words = [''info'', ''ifs'', ''addr'', ''version'', ''tunnel'', ''open'', ''close'', ''sub'', ''name'', ''msg_p'', ''binary'', ''recv'', ''send'']"

definition plain_seg :: "string \<Rightarrow> bool" where
  "plain_seg s \<longleftrightarrow> s \<noteq> [] \<and> CHR ''/'' \<notin> set s \<and> s \<notin> set rest_words"

definition path_text :: "string list \<Rightarrow> string" where
  "path_text segs = concat (map (\<lambda>s. CHR ''/'' # s) segs)"

lemma rest_words_seg: "s \<in> set rest_words \<Longrightarrow> s \<noteq> [] \<and> CHR ''/'' \<notin> set s"
  by (auto simp: rest_words_def)

lemma path_segments_text: "(\<forall>s \<in> set segs. plain_seg s \<or> s \<in> set rest_words) \<Longrightarrow> path_segments (path_text segs) = segs"
  unfolding path_text_def using rest_words_seg by (intro path_segments_join) (auto simp: plain_seg_def)

lemma plain_seg_not_word: "plain_seg s \<Longrightarrow> k \<in> set rest_words \<Longrightarrow> s \<noteq> k"
  by (auto simp: plain_seg_def)

text \<open>A route with one name sees the segments as follows.\<close>

lemma no_match: "k \<notin> set segs \<Longrightarrow> rmap_list (in_schemes rx 0 [[k]]) segs = Inr (map (\<lambda>v. (None, v, False)) segs)"
  by (induction segs) auto

lemma route_loop_none: "route_loop sch named pos (map (\<lambda>v. (None, v, False)) segs) = (named, pos @ segs, sch)"
  by (induction segs arbitrary: pos) auto

lemma api_route_none:
  "k \<notin> set (path_segments path) \<Longrightarrow> api_route rx path [[k]] = Inr ([], path_segments path, [[k]])"
  by (simp add: api_route_def rmap_def no_match route_loop_none)

lemma api_route_first:
  assumes "path_segments path = k # v # rest" and "v \<noteq> k" and "k \<notin> set rest"
  shows "api_route rx path [[k]] = Inr ([(k, v)], rest, [[k]])"
proof -
  from no_match [OF assms(3)] have m: "rmap_list (in_schemes rx 0 [[k]]) (k # v # rest) =
      Inr ((Some 0, k, True) # (None, v, False) # map (\<lambda>v. (None, v, False)) rest)"
    using assms(2) by simp
  show ?thesis
    unfolding api_route_def assms(1) m by (simp add: rmap_def scheme_keep_def scheme_value_def route_loop_none)
qed

lemma sub_route_none:
  assumes "''sub'' \<notin> set (path_segments path) \<and> ''name'' \<notin> set (path_segments path) \<and> ''msg_p'' \<notin> set (path_segments path)"
  shows "api_route rx path [[''sub''], [''name''], [''msg_p'']] = Inr ([], path_segments path, [[''sub''], [''name''], [''msg_p'']])"
proof -
  have "''sub'' \<notin> set segs \<and> ''name'' \<notin> set segs \<and> ''msg_p'' \<notin> set segs \<Longrightarrow>
      rmap_list (in_schemes rx 0 [[''sub''], [''name''], [''msg_p'']]) segs = Inr (map (\<lambda>v. (None, v, False)) segs)" for segs
    by (induction segs) auto
  from this [OF assms] show ?thesis
    using route_loop_none by (simp add: api_route_def rmap_def)
qed


lemma route_words: "set [''info'', ''ifs'', ''addr'', ''version'', ''tunnel'', ''open'', ''close'', ''sub'', ''name'', ''msg_p'', ''binary'',
   ''recv'', ''send''] = set rest_words"
  by (simp add: rest_words_def)

lemma get_hit:
  assumes hit: "api_route rx p [[k]] = Inr ([(k, a)], pos, [[k]])" and "length pos < 100"
    and miss: "\<And>w. w \<in> set rest_words \<Longrightarrow> w \<noteq> k \<Longrightarrow> api_route rx p [[w]] = Inr ([], segs, [[w]])"
    and sub: "api_route rx p [[''sub''], [''name''], [''msg_p'']] = Inr ([], segs, [[''sub''], [''name''], [''msg_p'']])"
    and k: "(k, h) \<in> {(''open'', OpenPipe), (''send'', SendText)}"
  shows "match_apis rx p False 100 None rest_get = (Inr (Some (h, [(k, a)], pos)), rest_get)"
proof -
  have m: "w \<noteq> k \<Longrightarrow> api_route rx p [[w]] = Inr ([], segs, [[w]])"
    if "w \<in> {''info'', ''ifs'', ''addr'', ''version'', ''tunnel'', ''open'', ''close'', ''binary'', ''recv'', ''send''}" for w
    using miss that by (auto simp: rest_words_def)
  from k consider "k = ''open''" "h = OpenPipe" | "k = ''send''" "h = SendText" by auto
  then show ?thesis
  proof cases
    case 1
    then show ?thesis
      using hit sub m [of "''info''"] m [of "''ifs''"] m [of "''addr''"] m [of "''version''"] m [of "''tunnel''"] m [of "''close''"]
        m [of "''binary''"] m [of "''recv''"] m [of "''send''"] assms(2) by (simp add: rest_get_def)
  next
    case 2
    then show ?thesis
      using hit sub m [of "''info''"] m [of "''ifs''"] m [of "''addr''"] m [of "''version''"] m [of "''tunnel''"] m [of "''close''"]
        m [of "''binary''"] m [of "''recv''"] m [of "''open''"] assms(2) by (simp add: rest_get_def)
  qed
qed

text \<open>A path of a route's name and two plain segments is served by that route.\<close>

lemma get_two:
  assumes "plain_seg a" and "plain_seg b" and "(k, h) \<in> {(''open'', OpenPipe), (''send'', SendText)}"
  shows "match_apis rx (path_text [k, a, b]) False 100 None rest_get = (Inr (Some (h, [(k, a)], [b])), rest_get)"
proof -
  have k: "k \<in> set rest_words" using assms(3) by (auto simp: rest_words_def)
  have segs: "path_segments (path_text [k, a, b]) = [k, a, b]"
    using assms(1,2) k by (intro path_segments_text) auto
  have n: "w \<noteq> a \<and> w \<noteq> b" if "w \<in> set rest_words" for w using plain_seg_not_word that assms(1,2) by blast
  have hit: "api_route rx (path_text [k, a, b]) [[k]] = Inr ([(k, a)], [b], [[k]])"
    using api_route_first [OF segs] n [OF k] by auto
  have miss: "api_route rx (path_text [k, a, b]) [[w]] = Inr ([], [k, a, b], [[w]])" if "w \<in> set rest_words" "w \<noteq> k" for w
    using api_route_none [of w "path_text [k, a, b]"] segs n [OF that(1)] that(2) by auto
  have sub: "api_route rx (path_text [k, a, b]) [[''sub''], [''name''], [''msg_p'']] = Inr ([], [k, a, b], [[''sub''], [''name''], [''msg_p'']])"
    using sub_route_none [of "path_text [k, a, b]"] n assms(3) unfolding segs by (auto simp: rest_words_def)
  show ?thesis
    by (rule get_hit [OF hit _ miss sub assms(3)]) simp
qed


definition sub_path :: "string \<Rightarrow> string \<Rightarrow> string \<Rightarrow> string \<Rightarrow> string list" where
  "sub_path c n m x = [''sub'', c, ''name'', n, ''msg_p'', m, ''addr_p'', x]"

lemma get_sub:
  assumes "plain_seg c" and "plain_seg n" and "plain_seg m" and "plain_seg x"
  shows "match_apis rx (path_text (sub_path c n m x)) False 100 None rest_get =
    (Inr (Some (DoSub, [(''sub'', c), (''name'', n), (''msg_p'', m)], [''addr_p'', x])), rest_get)"
proof -
  let ?p = "path_text (sub_path c n m x)"
  have "plain_seg ''addr_p''" by (simp add: plain_seg_def rest_words_def)
  then have segs: "path_segments ?p = sub_path c n m x"
    using assms by (intro path_segments_text) (auto simp: sub_path_def rest_words_def)
  have ne: "w \<noteq> c \<and> w \<noteq> n \<and> w \<noteq> m \<and> w \<noteq> x" if "w \<in> set rest_words" for w
    using plain_seg_not_word that assms by blast
  have miss: "api_route rx ?p [[w]] = Inr ([], sub_path c n m x, [[w]])"
    if "w \<in> {''info'', ''ifs'', ''addr'', ''version'', ''tunnel'', ''open'', ''close'', ''binary'', ''recv'', ''send''}" for w
  proof -
    have "w \<in> set rest_words" using that by (auto simp: rest_words_def)
    then have "w \<notin> set (sub_path c n m x)" using ne [of w] that by (auto simp: sub_path_def)
    then show ?thesis using api_route_none [of w ?p] segs by simp
  qed
  have w: "''sub'' \<in> set rest_words" "''name'' \<in> set rest_words" "''msg_p'' \<in> set rest_words" by (simp_all add: rest_words_def)
  have s1: "in_schemes rx 0 [[''sub''], [''name''], [''msg_p'']] y = Inr (None, y, False)" if "y \<in> {c, n, m, x, ''addr_p''}" for y
    using that ne [OF w(1)] ne [OF w(2)] ne [OF w(3)] by auto
  have "rmap_list (in_schemes rx 0 [[''sub''], [''name''], [''msg_p'']]) (sub_path c n m x) =
      Inr [(Some 0, ''sub'', True), (None, c, False), (Some 1, ''name'', True), (None, n, False), (Some 2, ''msg_p'', True), (None, m, False),
           (None, ''addr_p'', False), (None, x, False)]"
    unfolding sub_path_def rmap_list.simps using s1 [of c] s1 [of n] s1 [of m] s1 [of x] by simp
  then have hit: "api_route rx ?p [[''sub''], [''name''], [''msg_p'']] =
      Inr ([(''sub'', c), (''name'', n), (''msg_p'', m)], [''addr_p'', x], [[''sub''], [''name''], [''msg_p'']])"
    by (simp add: api_route_def segs rmap_def scheme_keep_def scheme_value_def)
  have len: "length (sub_path c n m x) = 8" by (simp add: sub_path_def)
  show ?thesis
    using hit miss [of "''info''"] miss [of "''ifs''"] miss [of "''addr''"] miss [of "''version''"] miss [of "''tunnel''"]
      miss [of "''open''"] miss [of "''close''"] miss [of "''binary''"] miss [of "''recv''"] miss [of "''send''"] len
    by (simp add: rest_get_def)
qed

lemma dict_set_fst: "fst ` set (dict_set k v d) = insert k (fst ` set d)"
proof -
  have "set (map fst (dict_set k v d)) = insert k (set (map fst d))" unfolding dict_set_keys by auto
  then show ?thesis by simp
qed

lemma subset_drop: "A \<subseteq> insert x N \<union> H \<Longrightarrow> x \<in> H \<Longrightarrow> A \<subseteq> N \<union> H"
  by blast

text \<open>The names a route hands to its handler are those of its schemes.\<close>

lemma route_loop_names:
  assumes "\<forall>(k, v, m) \<in> set ms. \<forall>i. k = Some i \<longrightarrow> i < length schemes" and "\<forall>s \<in> set schemes. s \<noteq> []"
    and "route_loop schemes named pos ms = (named', pos', schemes')"
  shows "fst ` set named' \<subseteq> fst ` set named \<union> hd ` set schemes"
  using assms
proof (induction schemes named pos ms arbitrary: named' pos' schemes' rule: route_loop.induct [case_names none free kept bare plain])
  case (kept schemes named pos k v m v' m' ms)
  let ?s = "scheme_keep (schemes ! k) v'"
  have k: "k < length schemes" using kept.prems(1) by auto
  then have ne: "schemes ! k \<noteq> []" using kept.prems(2) by simp
  then have h: "hd ?s = hd (schemes ! k)" "?s \<noteq> []" by (cases "schemes ! k"; simp add: scheme_keep_def)+
  have hs: "hd ` set (schemes[k := ?s]) \<subseteq> hd ` set schemes"
  proof -
    have "hd ` set (schemes[k := ?s]) \<subseteq> hd ` insert ?s (set schemes)" by (rule image_mono [OF set_update_subset_insert])
    moreover have "hd ?s \<in> hd ` set schemes" using h(1) k by simp
    ultimately show ?thesis by auto
  qed
  have "fst ` set named' \<subseteq> fst ` set (dict_set (hd ?s) (scheme_value ?s v') named) \<union> hd ` set (schemes[k := ?s])"
  proof (rule kept.IH)
    show "\<forall>s \<in> set (schemes[k := ?s]). s \<noteq> []" using kept.prems(2) h(2) set_update_subset_insert [of schemes k ?s] by auto
  qed (use kept.prems(1,3) in \<open>auto simp: Let_def\<close>)
  moreover have "fst ` set (dict_set (hd ?s) (scheme_value ?s v') named) \<subseteq> fst ` set named \<union> hd ` set schemes"
    using h(1) k by (simp add: dict_set_fst)
  ultimately show ?case using hs by blast
next
  case (bare schemes named pos k v m)
  then have "k < length schemes" by simp
  then have hd: "hd (schemes ! k) \<in> hd ` set schemes" by simp
  let ?d = "dict_set (hd (schemes ! k)) (scheme_value (schemes ! k) v) named"
  have "route_loop schemes named pos [(Some k, v, m)] = (?d, pos, schemes)"
    by (simp add: Let_def)
  then have e: "named' = ?d"
    unfolding bare.prems(3) by (rule prod.inject [THEN iffD1, THEN conjunct1])
  have "fst ` set ?d \<subseteq> fst ` set named \<union> hd ` set schemes" unfolding dict_set_fst using hd by blast
  then show ?case by (subst e)
next
  case (plain schemes named pos k v m ve va ms)
  let ?s = "schemes ! k"
  have k: "hd ?s \<in> hd ` set schemes" using plain.prems(1) by simp
  have "fst ` set named' \<subseteq> fst ` set (dict_set (hd ?s) (scheme_value ?s v) named) \<union> hd ` set schemes"
  proof (rule plain.IH [OF refl])
    show "route_loop schemes (dict_set (hd ?s) (scheme_value ?s v) named) pos ((Some ve, va) # ms) = (named', pos', schemes')"
      using plain.prems(3) by (simp only: route_loop.simps Let_def)
  qed (use plain.prems(1,2) in simp_all)
  then show ?case using k unfolding dict_set_fst by (rule subset_drop)
qed auto


lemma in_schemes_range:
  "in_schemes rx i ss v = Inr (k, w, m) \<Longrightarrow> k = Some j \<Longrightarrow> j < i + length ss"
  by (induction i ss v rule: in_schemes.induct [of _ rx]) (auto split: if_splits list.splits)

lemma in_schemes_list_range:
  "rmap_list (in_schemes rx 0 ss) vs = Inr ms \<Longrightarrow> (k, w, m) \<in> set ms \<Longrightarrow> k = Some j \<Longrightarrow> j < length ss"
proof (induction vs arbitrary: ms)
  case (Cons v vs)
  then obtain y ys where "in_schemes rx 0 ss v = Inr y" "rmap_list (in_schemes rx 0 ss) vs = Inr ys" "ms = y # ys"
    by (auto simp: rbind_eq_Ok)
  then show ?case using Cons.IH Cons.prems(2,3) in_schemes_range [of rx 0 ss v k w m j] by auto
qed simp

lemma api_route_names:
  assumes "api_route rx path schemes = Inr (named, pos, schemes')" and "\<forall>s \<in> set schemes. s \<noteq> []"
  shows "fst ` set named \<subseteq> hd ` set schemes"
proof -
  obtain ms where ms: "rmap_list (in_schemes rx 0 schemes) (path_segments path) = Inr ms"
      "route_loop schemes [] [] ms = (named, pos, schemes')"
    using assms(1) by (auto simp: api_route_def rmap_def split: sum.splits)
  have "\<forall>(k, v, m) \<in> set ms. \<forall>i. k = Some i \<longrightarrow> i < length schemes" using in_schemes_list_range [OF ms(1)] by blast
  from route_loop_names [OF this assms(2) ms(2)] show ?thesis by simp
qed

lemma match_apis_names:
  assumes "match_apis rx path single no best as = (Inr (Some (h, named, pos)), as')" and "\<forall>a \<in> set as. \<forall>s \<in> set (ra_args a). s \<noteq> []"
  shows "best = Some (h, named, pos) \<or> (\<exists>a \<in> set as. ra_handler a = h \<and> fst ` set named \<subseteq> hd ` set (ra_args a))"
  using assms
proof (induction as arbitrary: no best as')
  case (Cons a as)
  obtain nm ps args where r: "api_route rx path (ra_args a) = Inr (nm, ps, args)"
    using Cons.prems(1) by (auto split: sum.splits)
  let ?hit = "(single \<or> length nm = length args) \<and> length ps < no"
  have names: "fst ` set nm \<subseteq> hd ` set (ra_args a)" using api_route_names [OF r] Cons.prems(2) by simp
  have rest: "\<forall>a \<in> set as. \<forall>s \<in> set (ra_args a). s \<noteq> []" using Cons.prems(2) by simp
  show ?case
  proof (cases ?hit)
    case True
    then obtain as2 where "match_apis rx path single (length ps) (Some (ra_handler a, nm, ps)) as = (Inr (Some (h, named, pos)), as2)"
      using Cons.prems(1) r by (auto simp: Let_def split: prod.splits)
    from Cons.IH [OF this rest] show ?thesis using names by auto
  next
    case False
    then obtain as2 where "match_apis rx path single no best as = (Inr (Some (h, named, pos)), as2)"
      using Cons.prems(1) r by (auto simp: Let_def split: prod.splits if_splits)
    from Cons.IH [OF this rest] show ?thesis by auto
  qed
qed simp

lemma rest_serve_get:
  assumes "request_body msg (rq_hdrs req) = Inr body" and "map_of (rs_apis st) (rq_command req) = Some as" and "length as \<noteq> 1"
    and "match_apis rx (path_of (rq_path req)) False 100 None as = (Inr (Some (h, named, pos)), as)"
    and "call h \<lparr>rv_req = req, rv_name = named, rv_pos = pos, rv_client = client_tup, rv_body = body\<rparr> (rs_app st) = (r, s)"
  shows "rs_app (snd (rest_serve rx path_of exc call msg client_tup req st)) = s \<and>
    rs_apis (snd (rest_serve rx path_of exc call msg client_tup req st)) = dict_set (rq_command req) as (rs_apis st)"
  using assms by (simp add: rest_serve_def Let_def split: sum.splits option.splits)

section \<open>An example\<close>

definition ex_get :: "string \<Rightarrow> bytes" where
  "ex_get p = to_b (''GET'' @ CHR '' '' # p @ '' HTTP/1.0'') @ CRLF @ CRLF"

lemma ex_get_served:
  assumes "visible p" and "take 2 p \<noteq> ''//''"
  shows "\<exists>req. rest_service (ex_get p) = Inr (Serve req) \<and> rq_command req = ''GET'' \<and> rq_path req = p \<and>
    request_body (ex_get p) (rq_hdrs req) = Inr (RawBody [])"
proof -
  let ?text = "''GET'' @ CHR '' '' # p @ '' HTTP/1.0''"
  have asc: "ascii ?text" using visible_ascii [OF assms(1)] by simp
  have "CHR 10 \<notin> set ?text" "CHR 13 \<notin> set ?text"
    using visible_not_blank [OF assms(1), of "CHR 10"] visible_not_blank [OF assms(1), of "CHR 13"] by (auto simp: is_blank_def)
  then have l: "10 \<notin> set (to_b ?text)" "13 \<notin> set (to_b ?text)"
    using to_b_notin [OF asc, of "CHR 10"] to_b_notin [OF asc, of "CHR 13"] by auto
  have r: "request_line ?text = Some (''GET'', p)" by (rule request_line_read) (simp_all add: visible_def assms(1) [unfolded visible_def])
  have n: "head_part (read_lines CRLF) = []" using head_part_lines [of "[]" "[]"] by simp
  have "read_lines (ex_get p) = (to_b ?text @ CRLF) # read_lines CRLF"
    unfolding ex_get_def by (rule read_lines_crlf [OF l(1)])
  then have "ParseHTTPRequest (ex_get p) = Inr \<lparr>rq_command = ''GET'', rq_path = p, rq_hdrs = [(''Origin'', ''null''), (''origin'', ''null'')]\<rparr>"
    using rstrip_crlf_end [OF l(2,1)] r latin_to_b [OF asc] n assms(2)
    by (simp add: ParseHTTPRequest_def one_slash_def header_pairs_def http_parse_headers_def)
  then show ?thesis
    by (simp add: rest_service_def dict_get_def P2PD_CORS_def request_body_def rmap_def)
qed

definition ex_rest_env :: "nat rest_env" where
  "ex_rest_env = \<lparr>re_ifs = Ok JNull, re_addr = None, re_connect = (\<lambda>_. Some 7), re_subscribe = (\<lambda>_ _. Ok ()), re_unsubscribe = (\<lambda>_ _. Ok ()),
     re_send = (\<lambda>_ _. Ok True), re_recv = (\<lambda>_ _. Ok None), re_laddr = (\<lambda>_. Err OSError), re_raddr = (\<lambda>_. Err OSError),
     re_route = (\<lambda>_. Err KeyError), re_fd = (\<lambda>_. Ok 3), re_if = (\<lambda>_. Ok (''eth0'', 0)), re_unquote = id, re_eval = (\<lambda>_. Ok AddrNone),
     re_text = (\<lambda>_. [])\<rparr>"

definition ex_rest_state :: "(string \<times> nat) list \<Rightarrow> (rest_handler, nat rest_app) rest_state" where
  "ex_rest_state cons = \<lparr>rs_apis = rest_apis, rs_app = \<lparr>ap_cons = cons, ap_subs = [], ap_sent = [], ap_closed = [], ap_tunnels = [],
     ap_evals = []\<rparr>, rs_sent = []\<rparr>"

text \<open>A text that begins like a quoted address gets past the test and is no word of the routes.\<close>

lemma quoted_address_guard:
  assumes "b \<in> set ''([''" and "quote_char q" and "quote_char q'" and "a \<noteq> []" and "\<forall>ch \<in> set a. addr_char ch"
  shows "addr_guard (b # replicate k (CHR '' '') @ q # a @ q' # code)"
proof -
  have q: "q \<noteq> CHR '' ''" and q': "\<not> addr_char q'"
    using assms(2,3) by (auto simp: quote_char_def addr_char_def is_digit_def digit_val_def)
  have sp: "dropWhile (\<lambda>c. c = CHR '' '') (replicate k (CHR '' '') @ q # xs) = q # xs" for xs
    using q by (induction k) auto
  have t: "takeWhile addr_char (a @ q' # code) = a" "dropWhile addr_char (a @ q' # code) = q' # code"
    using assms(5) q' by (auto simp: takeWhile_append dropWhile_append)
  show ?thesis using assms(1-4) sp t by (simp add: addr_guard_def addr_opens_def)
qed

lemma quoted_address_plain:
  assumes "b \<in> set ''([''" and "quote_char q" and "quote_char q'" and "a \<noteq> []" and "\<forall>ch \<in> set a. addr_char ch"
    and "CHR ''/'' \<notin> set code"
  shows "plain_seg (b # replicate k (CHR '' '') @ q # a @ q' # code)"
proof -
  have "CHR ''/'' \<notin> set a" using assms(5) by (auto simp: addr_char_def is_digit_def digit_val_def)
  then show ?thesis using assms(1-3,6) by (auto simp: plain_seg_def rest_words_def quote_char_def)
qed

section \<open>Properties\<close>

text \<open>C9: a text of the client is evaluated as code: any request for a subscription whose address parameter begins like a
  quoted address, an opening bracket, blanks, and digits, points, colons or percent signs between two quotes, has that whole
  text evaluated by the server, whatever code without a slash follows; the test in front of the evaluation looks only at how
  the text begins.\<close>

theorem client_text_evaluated:
  assumes "rest_service msg = Inr (Serve req)" and "rq_command req = ''GET''" and "rs_apis st = rest_apis"
    and "path_of (rq_path req) = path_text (sub_path c n m x)" and "x = b # replicate k (CHR '' '') @ q # a @ q' # code"
    and "b \<in> set ''([''" and "quote_char q" and "quote_char q'" and "a \<noteq> []" and "\<forall>ch \<in> set a. addr_char ch"
    and "plain_seg c" and "plain_seg n" and "plain_seg m" and "CHR ''/'' \<notin> set code" and "n \<noteq> ''all''"
    and "n \<notin> fst ` set (ap_subs (rs_app st))" and "c \<in> fst ` set (ap_cons (rs_app st))"
    and "request_body msg (rq_hdrs req) = Inr body"
  shows "ap_evals (rs_app (snd (rest_msg_cb rx path_of exc (rest_call env) msg client_tup st))) = ap_evals (rs_app st) @ [x]"
proof -
  have x: "plain_seg x" and g: "addr_guard x"
    unfolding assms(5) using quoted_address_plain [OF assms(6-10,14)] quoted_address_guard [OF assms(6-10)] by auto
  obtain con where con: "map_of (ap_cons (rs_app st)) c = Some con"
    using assms(17) by (metis domD dom_map_of_conv_image_fst)
  let ?v = "\<lparr>rv_req = req, rv_name = [(''sub'', c), (''name'', n), (''msg_p'', m)], rv_pos = [''addr_p'', x], rv_client = client_tup, rv_body = body\<rparr>"
  obtain r s where rs: "rest_call env DoSub ?v (rs_app st) = (r, s)" by fastforce
  then have e: "ap_evals s = ap_evals (rs_app st) @ [x]"
    using assms(15,16) con g by (auto simp: rest_call_def pipe_do_sub_def dict_get_def rmap_def get_sub_params_def Let_def split: sum.splits)
  have apis: "map_of (rs_apis st) (rq_command req) = Some rest_get" by (simp add: assms(2,3) rest_apis_def)
  have many: "length rest_get \<noteq> 1" by (simp add: rest_get_def)
  have mt: "match_apis rx (path_of (rq_path req)) False 100 None rest_get =
      (Inr (Some (DoSub, [(''sub'', c), (''name'', n), (''msg_p'', m)], [''addr_p'', x])), rest_get)"
    unfolding assms(4) by (rule get_sub [OF assms(11-13) x])
  have "rs_app (snd (rest_serve rx path_of exc (rest_call env) msg client_tup req st)) = s"
    using rest_serve_get [where path_of = path_of and rx = rx, OF assms(18) apis many mt, of "rest_call env" client_tup r s exc] rs by blast
  then show ?thesis by (simp add: rest_msg_cb_def assms(1) e)
qed

theorem client_text_evaluated_witness:
  "ap_evals (rs_app (snd (rest_msg_cb (\<lambda>_ _. False) (\<lambda>_. path_text (sub_path ''c'' ''n'' ''m'' ([CHR ''['', CHR '' '', CHR 39] @ ''10.0'' @ CHR 39 # '',exit()'')))
     (\<lambda>_. []) (rest_call ex_rest_env) (ex_get ''/x'') (''::1'', 5) (ex_rest_state [(''c'', 7)])))) =
   [[CHR ''['', CHR '' '', CHR 39] @ ''10.0'' @ CHR 39 # '',exit()'']"
proof -
  let ?st = "ex_rest_state [(''c'', 7)]" and ?x = "[CHR ''['', CHR '' '', CHR 39] @ ''10.0'' @ CHR 39 # '',exit()''"
  obtain req where req: "rest_service (ex_get ''/x'') = Inr (Serve req)" "rq_command req = ''GET''"
    "request_body (ex_get ''/x'') (rq_hdrs req) = Inr (RawBody [])"
    using ex_get_served [of "''/x''"] by (auto simp: visible_def)
  have "ap_evals (rs_app (snd (rest_msg_cb (\<lambda>_ _. False) (\<lambda>_. path_text (sub_path ''c'' ''n'' ''m'' ?x)) (\<lambda>_. []) (rest_call ex_rest_env)
      (ex_get ''/x'') (''::1'', 5) ?st))) = ap_evals (rs_app ?st) @ [?x]"
    by (rule client_text_evaluated [OF req(1,2) _ refl, where b = "CHR ''[''" and k = 1 and q = "CHR 39" and a = "''10.0''" and
        q' = "CHR 39" and code = "'',exit()''", OF _ _ _ _ _ _ _ _ _ _ _ _ _ _ req(3)])
      (simp_all add: ex_rest_state_def plain_seg_def rest_words_def quote_char_def addr_char_def is_digit_def digit_val_def)
  then show ?thesis by (simp add: ex_rest_state_def)
qed

text \<open>C15: opening a connection and sending on it: after a request that opens a connection under a name, a request that sends a
  text under that name sends the decoded text on the connection the node made to that address.\<close>

theorem open_then_send:
  assumes "rest_service msg1 = Inr (Serve req1)" and "rq_command req1 = ''GET''" and "path_of (rq_path req1) = path_text [''open'', a, d]"
    and "rest_service msg2 = Inr (Serve req2)" and "rq_command req2 = ''GET''" and "path_of (rq_path req2) = path_text [''send'', a, txt']"
    and "plain_seg a" and "plain_seg d" and "plain_seg txt'" and "d \<noteq> ''self''" and "rs_apis st = rest_apis"
    and "a \<notin> fst ` set (ap_cons (rs_app st))" and "re_connect env d = Some con" and "re_subscribe env con REST_SUB_ALL = Inr ()"
    and "re_send env con (to_b (re_unquote env txt')) = Inr True"
    and "request_body msg1 (rq_hdrs req1) = Inr body1" and "request_body msg2 (rq_hdrs req2) = Inr body2"
    and "st1 = snd (rest_msg_cb rx path_of exc (rest_call env) msg1 tup1 st)"
    and "st2 = snd (rest_msg_cb rx path_of exc (rest_call env) msg2 tup2 st1)"
  shows "ap_sent (rs_app st2) = ap_sent (rs_app st) @ [(con, to_b (re_unquote env txt'))] \<and>
    map_of (ap_cons (rs_app st2)) a = Some con"
proof -
  have many: "length rest_get \<noteq> 1" by (simp add: rest_get_def)
  have apis: "map_of rest_apis ''GET'' = Some rest_get" by (simp add: rest_apis_def)
  have mo: "match_apis rx (path_of (rq_path req1)) False 100 None rest_get = (Inr (Some (OpenPipe, [(''open'', a)], [d])), rest_get)"
    unfolding assms(3) by (rule get_two [OF assms(7,8)]) simp
  have ms: "match_apis rx (path_of (rq_path req2)) False 100 None rest_get = (Inr (Some (SendText, [(''send'', a)], [txt'])), rest_get)"
    unfolding assms(6) by (rule get_two [OF assms(7,9)]) simp
  let ?v1 = "\<lparr>rv_req = req1, rv_name = [(''open'', a)], rv_pos = [d], rv_client = tup1, rv_body = body1\<rparr>"
  let ?v2 = "\<lparr>rv_req = req2, rv_name = [(''send'', a)], rv_pos = [txt'], rv_client = tup2, rv_body = body2\<rparr>"
  let ?s1 = "(rs_app st)\<lparr>ap_cons := dict_set a con (ap_cons (rs_app st))\<rparr>"
  have c1: "rest_call env OpenPipe ?v1 (rs_app st) = (con_info env a con, ?s1)"
    using assms(10,12-14) by (simp add: rest_call_def open_p2p_pipe_def dict_get_def)
  have st1: "rs_app st1 = ?s1 \<and> rs_apis st1 = dict_set ''GET'' rest_get (rs_apis st)"
    using rest_serve_get [where path_of = path_of and rx = rx, OF assms(16) _ many mo, of st "rest_call env" tup1 "con_info env a con" ?s1 exc] assms(1,2,11,18) apis c1
    by (simp add: rest_msg_cb_def)
  let ?s2 = "?s1\<lparr>ap_sent := ap_sent (rs_app st) @ [(con, to_b (re_unquote env txt'))]\<rparr>"
  obtain r where c2: "rest_call env SendText ?v2 ?s1 = (r, ?s2)"
    using assms(15) by (simp add: rest_call_def pipe_send_text_def dict_get_def rest_send_def rmap_def)
  have "rs_app st2 = ?s2"
    using rest_serve_get [where path_of = path_of and rx = rx, OF assms(17) _ many ms, of st1 "rest_call env" tup2 r ?s2 exc] assms(4,5,19) st1 c2
    by (simp add: rest_msg_cb_def)
  then show ?thesis by simp
qed

theorem open_then_send_witness:
  "\<exists>path_of. \<exists>st1 st2. st1 = snd (rest_msg_cb (\<lambda>_ _. False) path_of (\<lambda>_. []) (rest_call ex_rest_env) (ex_get ''/x'') (''::1'', 5) (ex_rest_state [])) \<and>
     st2 = snd (rest_msg_cb (\<lambda>_ _. False) path_of (\<lambda>_. []) (rest_call ex_rest_env) (ex_get ''/y'') (''::1'', 5) st1) \<and>
     ap_sent (rs_app st2) = [(7, to_b ''hi'')]"
proof -
  obtain req where req: "rest_service (ex_get ''/x'') = Inr (Serve req)" "rq_command req = ''GET''" "rq_path req = ''/x''"
    "request_body (ex_get ''/x'') (rq_hdrs req) = Inr (RawBody [])"
    using ex_get_served [of "''/x''"] by (auto simp: visible_def)
  obtain req2 where req2: "rest_service (ex_get ''/y'') = Inr (Serve req2)" "rq_command req2 = ''GET''" "rq_path req2 = ''/y''"
    "request_body (ex_get ''/y'') (rq_hdrs req2) = Inr (RawBody [])"
    using ex_get_served [of "''/y''"] by (auto simp: visible_def)
  define pf where "pf = (\<lambda>p. if p = ''/x'' then path_text [''open'', ''c'', ''d''] else path_text [''send'', ''c'', ''hi''])"
  have p: "pf (rq_path req) = path_text [''open'', ''c'', ''d'']" "pf (rq_path req2) = path_text [''send'', ''c'', ''hi'']"
    by (simp_all add: pf_def req(3) req2(3))
  have ps: "plain_seg ''c''" "plain_seg ''d''" "plain_seg ''hi''" by (simp_all add: plain_seg_def rest_words_def)
  define sa where "sa = snd (rest_msg_cb (\<lambda>_ _. False) pf (\<lambda>_. []) (rest_call ex_rest_env) (ex_get ''/x'') (''::1'', 5) (ex_rest_state []))"
  define sb where "sb = snd (rest_msg_cb (\<lambda>_ _. False) pf (\<lambda>_. []) (rest_call ex_rest_env) (ex_get ''/y'') (''::1'', 5) sa)"
  have "ap_sent (rs_app sb) = ap_sent (rs_app (ex_rest_state [])) @ [(7, to_b (re_unquote ex_rest_env ''hi''))] \<and>
      map_of (ap_cons (rs_app sb)) ''c'' = Some 7"
    by (rule open_then_send [OF req(1,2) p(1) req2(1,2) p(2) ps _ _ _ _ _ _ req(4) req2(4) sa_def sb_def])
      (simp_all add: ex_rest_state_def ex_rest_env_def)
  then have "ap_sent (rs_app sb) = [(7, to_b ''hi'')]" by (simp add: ex_rest_state_def ex_rest_env_def)
  then show ?thesis unfolding sb_def sa_def by blast
qed

text \<open>Asking for information on a connection, or for a tunnel, never works: the routes are registered under one name
  and read their parameter under another, so whatever path leads to them, they end in a missing key and change nothing.\<close>

theorem info_and_tunnel_fail:
  assumes "match_apis rx path False 100 None rest_get = (Inr (Some (h, rv_name v, rv_pos v)), as')" and "h \<in> {GetConInfo, Tunnel}"
  shows "rest_call env h v app = (Err KeyError, app)"
proof -
  have "\<forall>a \<in> set rest_get. \<forall>s \<in> set (ra_args a). s \<noteq> []" by (simp add: rest_get_def)
  from match_apis_names [OF assms(1) this] obtain a where a: "a \<in> set rest_get" "ra_handler a = h" "fst ` set (rv_name v) \<subseteq> hd ` set (ra_args a)"
    by auto
  then have "hd ` set (ra_args a) \<subseteq> {''info'', ''tunnel''}" using assms(2) by (auto simp: rest_get_def)
  then have names: "fst ` set (rv_name v) \<subseteq> {''info'', ''tunnel''}" using a(3) by (rule subset_trans [rotated])
  have "''con'' \<notin> fst ` set (rv_name v)" "''pipe'' \<notin> fst ` set (rv_name v)" by (rule contra_subsetD [OF names], simp)+
  then have "dict_get ''con'' (rv_name v) = Err KeyError" "dict_get ''pipe'' (rv_name v) = Err KeyError"
    by (simp_all add: dict_get_def map_of_eq_None_iff [THEN iffD2])
  then show ?thesis
    using assms(2) by (auto simp: rest_call_def get_con_info_def http_tunnel_trick_def get_con_def)
qed


theorem info_and_tunnel_fail_witness:
  "rest_call ex_rest_env GetConInfo \<lparr>rv_req = \<lparr>rq_command = ''GET'', rq_path = ''/info/c'', rq_hdrs = []\<rparr>, rv_name = [(''info'', ''c'')], rv_pos = [],
     rv_client = (''::1'', 5), rv_body = RawBody []\<rparr> (rs_app (ex_rest_state [(''c'', 7)])) = (Err KeyError, rs_app (ex_rest_state [(''c'', 7)]))"
proof (rule info_and_tunnel_fail)
  have segs: "path_segments ''/info/c'' = [''info'', ''c'']" by (simp add: path_segments_def)
  then show "match_apis (\<lambda>_ _. False) ''/info/c'' False 100 None rest_get = (Inr (Some (GetConInfo,
      rv_name \<lparr>rv_req = \<lparr>rq_command = ''GET'', rq_path = ''/info/c'', rq_hdrs = []\<rparr>, rv_name = [(''info'', ''c'')], rv_pos = [],
        rv_client = (''::1'', 5), rv_body = RawBody []\<rparr>,
      rv_pos \<lparr>rv_req = \<lparr>rq_command = ''GET'', rq_path = ''/info/c'', rq_hdrs = []\<rparr>, rv_name = [(''info'', ''c'')], rv_pos = [],
        rv_client = (''::1'', 5), rv_body = RawBody []\<rparr>)), rest_get)"
    by (simp add: rest_get_def api_route_def rmap_def scheme_keep_def scheme_value_def)
qed simp

end
