(* ===== verification/Nat_Test.thy ===== *)
theory Nat_Test
  imports Nat_Info Stun_Msg
begin

text \<open>
  \<^verbatim>\<open>nic/nat/nat_test.py\<close>: finding the type of the NAT in front of a pipe with four STUN tests run in two
  phases against several servers at once. What each test coroutine ends with, and in which order they end,
  are inputs; the exchange of one test is that of Stun_Msg.
\<close>

section \<open>The tests\<close>

definition STUN_CHANGE_NONE :: int where "STUN_CHANGE_NONE = 1"
definition STUN_CHANGE_PORT :: int where "STUN_CHANGE_PORT = 2"
definition STUN_CHANGE_BOTH :: int where "STUN_CHANGE_BOTH = 3"

lemmas change_consts = STUN_CHANGE_NONE_def STUN_CHANGE_PORT_def STUN_CHANGE_BOTH_def

definition NAT_TEST_NO :: nat where "NAT_TEST_NO = 5"

datatype serv_key = Primary | Secondary

record nat_test_schema =
  nts_payload :: int
  nts_dest_ip :: serv_key
  nts_dest_port :: serv_key
  nts_reply_ip :: serv_key
  nts_reply_port :: serv_key

definition NAT_TEST_SCHEMA :: "nat_test_schema list" where
  "NAT_TEST_SCHEMA =
     [\<lparr>nts_payload = STUN_CHANGE_NONE, nts_dest_ip = Primary, nts_dest_port = Primary, nts_reply_ip = Primary, nts_reply_port = Primary\<rparr>,
      \<lparr>nts_payload = STUN_CHANGE_BOTH, nts_dest_ip = Primary, nts_dest_port = Primary, nts_reply_ip = Secondary, nts_reply_port = Secondary\<rparr>,
      \<lparr>nts_payload = STUN_CHANGE_NONE, nts_dest_ip = Secondary, nts_dest_port = Primary, nts_reply_ip = Secondary, nts_reply_port = Primary\<rparr>,
      \<lparr>nts_payload = STUN_CHANGE_PORT, nts_dest_ip = Secondary, nts_dest_port = Primary, nts_reply_ip = Secondary, nts_reply_port = Secondary\<rparr>]"

text \<open>An entry of \<open>STUN_CHANGE_SERVERS\<close>: two addresses and a mode.\<close>

record change_server =
  cs_primary :: "ipa \<times> int"
  cs_secondary :: "ipa \<times> int"
  cs_mode :: stun_mode

fun serv_end :: "change_server \<Rightarrow> serv_key \<Rightarrow> ipa \<times> int" where
  "serv_end s Primary = cs_primary s"
| "serv_end s Secondary = cs_secondary s"

text \<open>Where the packets of a test go, and where its reply is expected from.\<close>

definition nat_test_addrs :: "nat \<Rightarrow> change_server \<Rightarrow> (ipa \<times> int) \<times> (ipa \<times> int)" where
  "nat_test_addrs test_index s =
     (let t = NAT_TEST_SCHEMA ! test_index
      in ((fst (serv_end s (nts_dest_ip t)), snd (serv_end s (nts_dest_port t))),
          (fst (serv_end s (nts_reply_ip t)), snd (serv_end s (nts_reply_port t)))))"

definition nat_test_workers :: "nat \<Rightarrow> change_server list \<Rightarrow> nat \<Rightarrow> (((ipa \<times> int) \<times> (ipa \<times> int)) \<times> int \<times> stun_mode) list" where
  "nat_test_workers test_index servers test_no =
     map (\<lambda>s. (nat_test_addrs test_index s, nts_payload (NAT_TEST_SCHEMA ! test_index), cs_mode s)) (take test_no servers)"

text \<open>The exchange of one worker: by payload, with a client whose server is the destination of the test.\<close>

definition nat_test_reply ::
  "af \<Rightarrow> ((ipa \<times> int) \<times> (ipa \<times> int)) \<times> int \<times> stun_mode \<Rightarrow> bytes \<Rightarrow> exchange \<Rightarrow> bytes \<Rightarrow> ipa \<times> int \<Rightarrow> stun_reply res" where
  "nat_test_reply af w txid ex rnd ltup =
     (let ((dest_addr, reply_addr), payload, mode) = w;
          c = \<lparr>stc_af = af, stc_dest = dest_addr, stc_mode = mode\<rparr>
      in if payload = STUN_CHANGE_NONE then client_get_stun_reply c txid ex rnd ltup []
         else if payload = STUN_CHANGE_PORT then get_change_port_reply c txid ex rnd ltup reply_addr
         else get_change_tup_reply c txid ex rnd ltup reply_addr)"

section \<open>What the replies say\<close>

text \<open>\<open>q_list\<close>: the replies of each test, and in its last place the verdict so far.\<close>

record nat_q =
  q_tests :: "ret_dic list list"
  q_verdict :: int

definition nat_q0 :: nat_q where
  "nat_q0 = \<lparr>q_tests = [[], [], [], []], q_verdict = SYMMETRIC_NAT\<rparr>"

definition q_append :: "nat \<Rightarrow> ret_dic \<Rightarrow> nat_q \<Rightarrow> nat_q" where
  "q_append k ret q = q\<lparr>q_tests := (q_tests q)[k := q_tests q ! k @ [ret]]\<rparr>"

definition non_symmetric_check :: "nat_q \<Rightarrow> bool" where
  "non_symmetric_check q =
     (let q1 = q_tests q ! 0; q3 = q_tests q ! 2
      in if q1 = [] \<or> q3 = [] then False
         else snd (ret_r (q1 ! 0)) = snd (ret_r (q3 ! 0)) \<and> fst (ret_r (q1 ! 0)) = fst (ret_r (q3 ! 0)))"

definition no_stun_resp_check :: "nat_q \<Rightarrow> bool" where
  "no_stun_resp_check q = (\<forall>i \<in> set [0..<4]. q_tests q ! i = [])"

text \<open>The four handlers. \<open>source_ip\<close> is the text of the interface's address.\<close>

definition test_one :: "string \<Rightarrow> ret_dic \<Rightarrow> int option res" where
  "test_one source_ip ret =
     rmap (\<lambda>a. if fst (ret_r ret) = a then Some OPEN_INTERNET else None) (ip_f (IpStr source_ip))"

definition test_two :: "string \<Rightarrow> ret_dic \<Rightarrow> int option res" where
  "test_two source_ip ret =
     rmap (\<lambda>r. case r of Some v \<Rightarrow> Some v | None \<Rightarrow> Some FULL_CONE) (test_one source_ip ret)"

definition test_three :: "nat_q \<Rightarrow> int option res \<times> nat_q" where
  "test_three q = (Ok None, if non_symmetric_check q then q\<lparr>q_verdict := RESTRICT_PORT_NAT\<rparr> else q)"

definition test_four :: "int option res" where
  "test_four = Ok (Some RESTRICT_NAT)"

definition test_coro :: "string \<Rightarrow> nat \<Rightarrow> ret_dic \<Rightarrow> nat_q \<Rightarrow> int option res \<times> nat_q" where
  "test_coro source_ip k ret q =
     (if k = 0 then (test_one source_ip ret, q)
      else if k = 1 then (test_two source_ip ret, q)
      else if k = 2 then test_three q
      else (test_four, q))"

text \<open>
  The end of a worker: a reply with all addresses is recorded before the handler of the test sees it; any
  exception is swallowed by \<open>async_wrap_errors\<close>.
\<close>

definition nat_test_exec :: "string \<Rightarrow> nat \<Rightarrow> stun_reply res \<Rightarrow> nat_q \<Rightarrow> int option \<times> nat_q" where
  "nat_test_exec source_ip k reply q =
     (case reply of
        Inl e \<Rightarrow> (None, q)
      | Inr r \<Rightarrow>
          (case stun_reply_to_ret_dic (Some r) of
             None \<Rightarrow> (None, q)
           | Some ret \<Rightarrow>
               (case test_coro source_ip k ret (q_append k ret q) of
                  (Inl e, q') \<Rightarrow> (None, q')
                | (Inr v, q') \<Rightarrow> (v, q'))))"

section \<open>The two phases\<close>

text \<open>
  A worker that ended: its test, its server and what its exchange came to. A phase waits for the workers
  of its two tests (\<open>cur\<close>) in the order they end, until one has a result, all have ended or the time
  is up; workers of the phase before that are still running can end meanwhile, but their result is not
  looked at.
\<close>

type_synonym nat_event = "nat \<times> change_server \<times> stun_reply res"

fun nat_phase :: "string \<Rightarrow> nat list \<Rightarrow> nat_event list \<Rightarrow> nat_q \<Rightarrow> int option \<times> nat_q" where
  "nat_phase source_ip cur [] q = (None, q)"
| "nat_phase source_ip cur ((k, s, r) # es) q =
     (case nat_test_exec source_ip k r q of
        (ret, q') \<Rightarrow> if k \<in> set cur \<and> ret \<noteq> None then (ret, q') else nat_phase source_ip cur es q')"

definition fast_nat_test :: "string \<Rightarrow> nat_event list \<Rightarrow> nat_event list \<Rightarrow> int" where
  "fast_nat_test source_ip es1 es2 =
     (case nat_phase source_ip [0, 1] es1 nat_q0 of
        (Some v, _) \<Rightarrow> v
      | (None, q1) \<Rightarrow>
          (case nat_phase source_ip [2, 3] es2 q1 of
             (Some v, _) \<Rightarrow> v
           | (None, q2) \<Rightarrow> if no_stun_resp_check q2 then BLOCKED_NAT else q_verdict q2))"

section \<open>How the phases compute\<close>

text \<open>The reply a worker ended with, and all replies of a test.\<close>

definition ev_ret :: "nat_event \<Rightarrow> ret_dic option" where
  "ev_ret ev = (case snd (snd ev) of Inl _ \<Rightarrow> None | Inr r \<Rightarrow> stun_reply_to_ret_dic (Some r))"

definition rets :: "nat \<Rightarrow> nat_event list \<Rightarrow> ret_dic list" where
  "rets k es = strip_none (map ev_ret (filter (\<lambda>ev. fst ev = k) es))"

lemma rets_Nil [simp]: "rets k [] = []"
  by (simp add: rets_def strip_none_def)

lemma rets_Cons: "rets k (ev # es) = (if fst ev = k then (case ev_ret ev of None \<Rightarrow> [] | Some r \<Rightarrow> [r]) else []) @ rets k es"
  by (simp add: rets_def strip_none_def split: option.splits)

lemma q_append_tests [simp]:
  "k < length (q_tests q) \<Longrightarrow> q_tests (q_append k ret q) ! j = q_tests q ! j @ (if j = k then [ret] else [])"
  "length (q_tests (q_append k ret q)) = length (q_tests q)"
  "q_verdict (q_append k ret q) = q_verdict q"
  by (simp_all add: q_append_def nth_list_update)

lemma test_coro_tests [simp]: "q_tests (snd (test_coro src k ret q)) = q_tests q"
  by (simp add: test_coro_def test_three_def)

lemma exec_tests:
  assumes "k < 4" and "length (q_tests q) = 4"
  shows "length (q_tests (snd (nat_test_exec src k r q))) = 4"
    and "q_tests (snd (nat_test_exec src k r q)) ! j =
           q_tests q ! j @ (if j = k then (case ev_ret (k, s, r) of None \<Rightarrow> [] | Some x \<Rightarrow> [x]) else [])"
proof -
  have "length (q_tests (snd (nat_test_exec src k r q))) = 4 \<and>
        q_tests (snd (nat_test_exec src k r q)) ! j =
           q_tests q ! j @ (if j = k then (case ev_ret (k, s, r) of None \<Rightarrow> [] | Some x \<Rightarrow> [x]) else [])"
  proof (cases "ev_ret (k, s, r)")
    case None
    then have "nat_test_exec src k r q = (None, q)"
      by (simp add: nat_test_exec_def ev_ret_def split: sum.splits)
    then show ?thesis using assms None by simp
  next
    case (Some x)
    let ?t = "test_coro src k x (q_append k x q)"
    obtain y where y: "r = Inr y" "stun_reply_to_ret_dic (Some y) = Some x"
      using Some by (cases r) (simp_all add: ev_ret_def)
    then have "snd (nat_test_exec src k r q) = snd ?t"
      by (simp add: nat_test_exec_def split: prod.splits sum.splits)
    then show ?thesis using assms Some by simp
  qed
  then show "length (q_tests (snd (nat_test_exec src k r q))) = 4"
    and "q_tests (snd (nat_test_exec src k r q)) ! j =
           q_tests q ! j @ (if j = k then (case ev_ret (k, s, r) of None \<Rightarrow> [] | Some x \<Rightarrow> [x]) else [])"
    by blast+
qed

text \<open>A phase that finds nothing has collected the replies of all its events.\<close>

lemma phase_tests:
  assumes "nat_phase src cur es q = (None, q')" and "\<forall>ev \<in> set es. fst ev < 4" and "length (q_tests q) = 4"
  shows "length (q_tests q') = 4 \<and> q_tests q' ! j = q_tests q ! j @ rets j es"
  using assms
proof (induction src cur es q rule: nat_phase.induct)
  case (2 src cur k s r es q)
  obtain out p where x: "nat_test_exec src k r q = (out, p)" by fastforce
  have k: "k < 4" using "2.prems"(2) by simp
  note step = exec_tests [OF k "2.prems"(3), of src r, unfolded x snd_conv]
  have nd: "\<not> (k \<in> set cur \<and> out \<noteq> None)" using "2.prems"(1) x by (auto split: if_splits)
  have "nat_phase src cur es p = (None, q')" using "2.prems"(1) x nd by auto
  then have "length (q_tests q') = 4 \<and> q_tests q' ! j = q_tests p ! j @ rets j es"
    using "2.IH" [OF x [symmetric] nd] "2.prems"(2) step(1) by simp
  then show ?case using step(2) [of j s] by (simp add: rets_Cons)
qed simp

text \<open>A phase ends with the result of its first event that has one.\<close>

lemma phase_Some:
  assumes "fst (nat_phase src cur es q) = Some v"
  shows "\<exists>ev \<in> set es. \<exists>ret q'. fst ev \<in> set cur \<and> ev_ret ev = Some ret \<and> fst (test_coro src (fst ev) ret q') = Inr (Some v)"
  using assms
proof (induction src cur es q rule: nat_phase.induct)
  case (2 src cur k s r es q)
  obtain ret q' where x: "nat_test_exec src k r q = (ret, q')" by fastforce
  show ?case
  proof (cases "k \<in> set cur \<and> ret \<noteq> None")
    case True
    then have v: "ret = Some v" using "2.prems" x by simp
    then obtain y z where "r = Inr y" "stun_reply_to_ret_dic (Some y) = Some z"
        "fst (test_coro src k z (q_append k z q)) = Inr (Some v)"
      using x by (auto simp: nat_test_exec_def split: sum.splits option.splits prod.splits)
    then show ?thesis using True by (force simp: ev_ret_def)
  next
    case False
    then show ?thesis using "2.IH" [OF x [symmetric] False] "2.prems" x by auto
  qed
qed simp

lemma phase_None:
  assumes "fst (nat_phase src cur es q) = None" and "ev \<in> set es" and "fst ev \<in> set cur" and "ev_ret ev = Some ret"
  shows "\<exists>q'. \<forall>v. fst (test_coro src (fst ev) ret q') \<noteq> Inr (Some v)"
  using assms
proof (induction src cur es q rule: nat_phase.induct)
  case (2 src cur k s r es q)
  obtain out q' where x: "nat_test_exec src k r q = (out, q')" by fastforce
  have nd: "\<not> (k \<in> set cur \<and> out \<noteq> None)" using "2.prems"(1) x by (auto split: if_splits)
  show ?case
  proof (cases "ev = (k, s, r)")
    case True
    then have out: "out = None" using nd "2.prems"(3) by simp
    obtain y where "r = Inr y" "stun_reply_to_ret_dic (Some y) = Some ret"
      using "2.prems"(4) True by (auto simp: ev_ret_def split: sum.splits)
    then have "fst (test_coro src k ret (q_append k ret q)) \<noteq> Inr (Some v)" for v
      using x out by (auto simp: nat_test_exec_def split: sum.splits prod.splits)
    then show ?thesis using True by auto
  next
    case False
    have "fst (nat_phase src cur es q') = None" using "2.prems"(1) x nd by auto
    then show ?thesis using "2.IH" [OF x [symmetric] nd] "2.prems" False by auto
  qed
qed simp

text \<open>The verdict only changes when test three finds the same mapping twice.\<close>

lemma exec_verdict:
  "q_verdict (snd (nat_test_exec src k r q)) =
     (case ev_ret (k, s, r) of
        None \<Rightarrow> q_verdict q
      | Some ret \<Rightarrow> if k = 2 \<and> non_symmetric_check (q_append k ret q) then RESTRICT_PORT_NAT else q_verdict q)"
  by (auto simp: nat_test_exec_def ev_ret_def test_coro_def test_three_def split: sum.splits option.splits prod.splits if_splits)


definition replies_in :: "(ipa \<times> int) set \<Rightarrow> ret_dic list \<Rightarrow> bool" where
  "replies_in A rs = (\<forall>r \<in> set rs. ret_r r \<in> A)"

lemma replies_in_simps [simp]:
  "replies_in A []"
  "replies_in A (r # rs) \<longleftrightarrow> ret_r r \<in> A \<and> replies_in A rs"
  "replies_in A (rs @ rs') \<longleftrightarrow> replies_in A rs \<and> replies_in A rs'"
  by (auto simp: replies_in_def)

lemma replies_in_mono: "replies_in A rs \<Longrightarrow> A \<subseteq> B \<Longrightarrow> replies_in B rs"
  by (auto simp: replies_in_def)

lemma replies_in_nth: "replies_in A rs \<Longrightarrow> rs \<noteq> [] \<Longrightarrow> ret_r (rs ! 0) \<in> A"
  by (auto simp: replies_in_def)

lemma non_symmetric_iff:
  "non_symmetric_check q \<longleftrightarrow>
     q_tests q ! 0 \<noteq> [] \<and> q_tests q ! 2 \<noteq> [] \<and> ret_r (q_tests q ! 0 ! 0) = ret_r (q_tests q ! 2 ! 0)"
  by (auto simp: non_symmetric_check_def Let_def prod_eq_iff)

text \<open>Mappings that never agree leave the verdict; mappings that always agree change it with the first reply.\<close>

lemma phase_verdict_apart:
  assumes "nat_phase src cur es q = (None, q')" and "\<forall>ev \<in> set es. fst ev < 4" and "length (q_tests q) = 4"
    and "replies_in A (q_tests q ! 0 @ rets 0 es)" and "replies_in B (q_tests q ! 2 @ rets 2 es)" and "A \<inter> B = {}"
  shows "q_verdict q' = q_verdict q"
  using assms
proof (induction src cur es q rule: nat_phase.induct)
  case (2 src cur k s r es q)
  obtain out p where x: "nat_test_exec src k r q = (out, p)" by fastforce
  have k: "k < 4" using "2.prems"(2) by simp
  note step = exec_tests [OF k "2.prems"(3), of src r, unfolded x snd_conv]
  have nd: "\<not> (k \<in> set cur \<and> out \<noteq> None)" using "2.prems"(1) x by (auto split: if_splits)
  have rec: "nat_phase src cur es p = (None, q')" using "2.prems"(1) x nd by auto
  have a: "replies_in A (q_tests p ! 0 @ rets 0 es)" and b: "replies_in B (q_tests p ! 2 @ rets 2 es)"
    using "2.prems"(4,5) step(2) [of 0 s] step(2) [of 2 s] by (simp_all add: rets_Cons)
  have "q_verdict q' = q_verdict p" using "2.IH" [OF x [symmetric] nd rec _ step(1) a b "2.prems"(6)] "2.prems"(2) by simp
  moreover have "q_verdict p = q_verdict q"
  proof (cases "ev_ret (k, s, r)")
    case (Some ret)
    have "\<not> non_symmetric_check (q_append k ret q)" if "k = 2"
    proof
      assume n: "non_symmetric_check (q_append k ret q)"
      have "replies_in A (q_tests (q_append k ret q) ! 0)" "replies_in B (q_tests (q_append k ret q) ! 2)"
        using "2.prems"(3,4,5) Some that by (simp_all add: rets_Cons)
      then show False using n "2.prems"(6) replies_in_nth unfolding non_symmetric_iff by (metis disjoint_iff)
    qed
    then show ?thesis using exec_verdict [of src k r q s] Some x by auto
  qed (use exec_verdict [of src k r q s] x in simp)
  ultimately show ?case by simp
qed simp

lemma phase_verdict_same:
  assumes "nat_phase src cur es q = (None, q')" and "\<forall>ev \<in> set es. fst ev < 4" and "length (q_tests q) = 4"
    and "replies_in {m} (q_tests q ! 0 @ rets 0 es)" and "replies_in {m} (q_tests q ! 2 @ rets 2 es)"
    and "q_tests q ! 0 \<noteq> []" and "rets 2 es \<noteq> [] \<or> q_verdict q = RESTRICT_PORT_NAT"
  shows "q_verdict q' = RESTRICT_PORT_NAT"
  using assms
proof (induction src cur es q rule: nat_phase.induct)
  case (2 src cur k s r es q)
  obtain out p where x: "nat_test_exec src k r q = (out, p)" by fastforce
  have k: "k < 4" using "2.prems"(2) by simp
  note step = exec_tests [OF k "2.prems"(3), of src r, unfolded x snd_conv]
  have nd: "\<not> (k \<in> set cur \<and> out \<noteq> None)" using "2.prems"(1) x by (auto split: if_splits)
  have rec: "nat_phase src cur es p = (None, q')" using "2.prems"(1) x nd by auto
  have a: "replies_in {m} (q_tests p ! 0 @ rets 0 es)" and b: "replies_in {m} (q_tests p ! 2 @ rets 2 es)"
    using "2.prems"(4,5) step(2) [of 0 s] step(2) [of 2 s] by (simp_all add: rets_Cons)
  have ne: "q_tests p ! 0 \<noteq> []" using step(2) [of 0 s] "2.prems"(6) by simp
  have "rets 2 es \<noteq> [] \<or> q_verdict p = RESTRICT_PORT_NAT"
  proof (cases "k = 2 \<and> ev_ret (k, s, r) \<noteq> None")
    case True
    then obtain ret where ret: "ev_ret (k, s, r) = Some ret" by auto
    have "replies_in {m} (q_tests (q_append k ret q) ! 0)" "replies_in {m} (q_tests (q_append k ret q) ! 2)"
      using "2.prems"(3,4,5) ret True by (simp_all add: rets_Cons)
    then have "non_symmetric_check (q_append k ret q)"
      using "2.prems"(3,6) True replies_in_nth [of "{m}" "q_tests (q_append k ret q) ! 0"]
        replies_in_nth [of "{m}" "q_tests (q_append k ret q) ! 2"]
      by (simp add: non_symmetric_iff)
    then show ?thesis using exec_verdict [of src k r q s] ret x True by simp
  next
    case False
    then have "q_verdict p = q_verdict q \<or> q_verdict p = RESTRICT_PORT_NAT" "rets 2 ((k, s, r) # es) = rets 2 es"
      using exec_verdict [of src k r q s] x by (auto simp: rets_Cons split: option.splits if_splits)
    then show ?thesis using "2.prems"(7) by auto
  qed
  then show ?case using "2.IH" [OF x [symmetric] nd rec _ step(1) a b ne] "2.prems"(2) by simp
qed simp

section \<open>NATs and what they let through\<close>

text \<open>
  The reference: the kinds of RFC 3489, by the external address a NAT gives to packets for a destination
  (\<open>mp\<close>) and by which replies it lets in, given where packets were sent before.
\<close>

datatype nat_kind = NatOpen | NatFullCone | NatRestrict | NatRestrictPort | NatSymmetric | NatBlocked

fun nat_code :: "nat_kind \<Rightarrow> int" where
  "nat_code NatOpen = OPEN_INTERNET"
| "nat_code NatFullCone = FULL_CONE"
| "nat_code NatRestrict = RESTRICT_NAT"
| "nat_code NatRestrictPort = RESTRICT_PORT_NAT"
| "nat_code NatSymmetric = SYMMETRIC_NAT"
| "nat_code NatBlocked = BLOCKED_NAT"

fun admits :: "nat_kind \<Rightarrow> (ipa \<times> int) list \<Rightarrow> ipa \<times> int \<Rightarrow> ipa \<times> int \<Rightarrow> bool" where
  "admits NatOpen sent dest reply = True"
| "admits NatFullCone sent dest reply = True"
| "admits NatRestrict sent dest reply = (fst reply \<in> fst ` set sent)"
| "admits NatRestrictPort sent dest reply = (reply \<in> set sent)"
| "admits NatSymmetric sent dest reply = (reply = dest)"
| "admits NatBlocked sent dest reply = False"

definition mapping_ok :: "nat_kind \<Rightarrow> ipa \<Rightarrow> (ipa \<times> int \<Rightarrow> ipa \<times> int) \<Rightarrow> bool" where
  "mapping_ok kind me mp =
     (if kind = NatOpen then \<forall>d. fst (mp d) = me
      else if kind = NatSymmetric then inj mp \<and> (\<forall>d. fst (mp d) \<noteq> me)
      else (\<forall>d e. mp d = mp e) \<and> (\<forall>d. fst (mp d) \<noteq> me))"

text \<open>The second address of a server differs from every first address, in its IP and in its port.\<close>

definition servers_ok :: "change_server list \<Rightarrow> bool" where
  "servers_ok S = (\<forall>s \<in> set S. \<forall>t \<in> set S. fst (cs_secondary s) \<noteq> fst (cs_primary t) \<and> snd (cs_secondary s) \<noteq> snd (cs_primary t))"

definition sent1 :: "change_server list \<Rightarrow> (ipa \<times> int) list" where
  "sent1 S = map cs_primary S"

definition sent2 :: "change_server list \<Rightarrow> (ipa \<times> int) list" where
  "sent2 S = map cs_primary S @ map (\<lambda>s. (fst (cs_secondary s), snd (cs_primary s))) S"

text \<open>A worker ends without a reply, or with one the NAT let in, which tells its mapping for the destination.\<close>

definition ev_through :: "nat_kind \<Rightarrow> (ipa \<times> int \<Rightarrow> ipa \<times> int) \<Rightarrow> change_server list \<Rightarrow> (ipa \<times> int) list \<Rightarrow> nat_event \<Rightarrow> bool" where
  "ev_through kind mp S sent ev =
     (fst (snd ev) \<in> set S \<and>
      (case ev_ret ev of None \<Rightarrow> True
       | Some ret \<Rightarrow>
           ret_r ret = mp (fst (nat_test_addrs (fst ev) (fst (snd ev)))) \<and>
           admits kind sent (fst (nat_test_addrs (fst ev) (fst (snd ev)))) (snd (nat_test_addrs (fst ev) (fst (snd ev))))))"

definition nat_run :: "nat_kind \<Rightarrow> (ipa \<times> int \<Rightarrow> ipa \<times> int) \<Rightarrow> change_server list \<Rightarrow> nat_event list \<Rightarrow> nat_event list \<Rightarrow> bool" where
  "nat_run kind mp S es1 es2 =
     (servers_ok S \<and> (\<forall>ev \<in> set es1. fst ev < 2 \<and> ev_through kind mp S (sent1 S) ev) \<and>
      (\<forall>ev \<in> set es2. fst ev < 4 \<and> ev_through kind mp S (sent2 S) ev))"

text \<open>Replies that must not all be lost, by kind: one reply of the tests that tell the kind from the others.\<close>

fun enough :: "nat_kind \<Rightarrow> nat_event list \<Rightarrow> nat_event list \<Rightarrow> bool" where
  "enough NatOpen es1 es2 = (rets 0 es1 \<noteq> [] \<or> rets 1 es1 \<noteq> [])"
| "enough NatFullCone es1 es2 = (rets 1 es1 \<noteq> [])"
| "enough NatRestrict es1 es2 = (rets 3 es2 \<noteq> [])"
| "enough NatRestrictPort es1 es2 = (rets 0 es1 \<noteq> [] \<and> rets 2 es2 \<noteq> [])"
| "enough NatSymmetric es1 es2 = (rets 0 es1 \<noteq> [])"
| "enough NatBlocked es1 es2 = True"

lemma schema_addrs [simp]:
  "nat_test_addrs 0 s = (cs_primary s, cs_primary s)"
  "nat_test_addrs (Suc 0) s = (cs_primary s, cs_secondary s)"
  "nat_test_addrs 2 s = ((fst (cs_secondary s), snd (cs_primary s)), fst (cs_secondary s), snd (cs_primary s))"
  "nat_test_addrs 3 s = ((fst (cs_secondary s), snd (cs_primary s)), cs_secondary s)"
  by (simp_all add: nat_test_addrs_def NAT_TEST_SCHEMA_def numeral_2_eq_2 numeral_3_eq_3)

lemma rets_mem: "ret \<in> set (rets k es) \<longleftrightarrow> (\<exists>ev \<in> set es. fst ev = k \<and> ev_ret ev = Some ret)"
proof (induction es)
  case (Cons a es)
  then show ?case by (cases "ev_ret a"; cases "fst a = k") (simp_all add: rets_Cons eq_commute)
qed simp

lemma rets_ne: "rets k es \<noteq> [] \<longleftrightarrow> (\<exists>ev \<in> set es. \<exists>ret. fst ev = k \<and> ev_ret ev = Some ret)"
proof -
  have "rets k es \<noteq> [] \<longleftrightarrow> (\<exists>ret. ret \<in> set (rets k es))" by (cases "rets k es") auto
  then show ?thesis unfolding rets_mem by blast
qed

lemma nat_consts_apart [simp]:
  "OPEN_INTERNET \<noteq> FULL_CONE" "RESTRICT_PORT_NAT \<noteq> SYMMETRIC_NAT" by (simp_all add: nat_consts)

lemma nat_q0_simps [simp]: "length (q_tests nat_q0) = 4" "q_verdict nat_q0 = SYMMETRIC_NAT"
  "q_tests nat_q0 ! 0 = []" "q_tests nat_q0 ! 1 = []" "q_tests nat_q0 ! 2 = []" "q_tests nat_q0 ! 3 = []"
  by (simp_all add: nat_q0_def numeral_2_eq_2 numeral_3_eq_3)


text \<open>Which tests a run can have replies of, and which results the first phase can have.\<close>

lemma through_reply:
  assumes "ev_through kind mp S sent ev" and "ev_ret ev = Some ret" and "servers_ok S" and "sent = sent1 S \<or> sent = sent2 S"
  shows "ret_r ret = mp (fst (nat_test_addrs (fst ev) (fst (snd ev))))"
    and "fst ev = 3 \<Longrightarrow> kind \<noteq> NatRestrictPort \<and> kind \<noteq> NatSymmetric"
    and "kind \<noteq> NatBlocked"
    and "fst ev = 1 \<Longrightarrow> sent = sent1 S \<Longrightarrow> kind = NatOpen \<or> kind = NatFullCone"
proof -
  let ?a = "nat_test_addrs (fst ev) (fst (snd ev))"
  have t: "fst (snd ev) \<in> set S" "ret_r ret = mp (fst ?a)" "admits kind sent (fst ?a) (snd ?a)"
    using assms(1,2) by (simp_all add: ev_through_def)
  show "ret_r ret = mp (fst ?a)" by (rule t(2))
  show "kind \<noteq> NatBlocked" using t(3) by auto
  show "kind \<noteq> NatRestrictPort \<and> kind \<noteq> NatSymmetric" if "fst ev = 3"
  proof -
    have "snd (cs_secondary (fst (snd ev))) \<noteq> snd x" if "x \<in> set sent" for x
      using assms(3,4) t(1) that by (auto simp: servers_ok_def sent1_def sent2_def)
    then have "cs_secondary (fst (snd ev)) \<notin> set sent" by blast
    moreover have "cs_secondary (fst (snd ev)) \<noteq> (fst (cs_secondary (fst (snd ev))), snd (cs_primary (fst (snd ev))))"
      using assms(3) t(1) unfolding servers_ok_def by (metis snd_conv)
    ultimately show ?thesis using t(3) that by auto
  qed
  show "kind = NatOpen \<or> kind = NatFullCone" if "fst ev = 1" "sent = sent1 S"
  proof -
    have f: "fst (cs_secondary (fst (snd ev))) \<notin> fst ` set sent"
      using assms(3) t(1) that(2) by (auto simp: servers_ok_def sent1_def)
    then have "cs_secondary (fst (snd ev)) \<notin> set sent" by force
    moreover have "cs_secondary (fst (snd ev)) \<noteq> cs_primary (fst (snd ev))"
      using assms(3) t(1) unfolding servers_ok_def by metis
    ultimately show ?thesis using t(3) that(1) f by (cases kind) auto
  qed
qed

lemma test_one_val: "ip_f (IpStr src) = Ok me \<Longrightarrow> test_one src ret = Ok (if fst (ret_r ret) = me then Some OPEN_INTERNET else None)"
  by (simp add: test_one_def)

lemma test_two_val: "ip_f (IpStr src) = Ok me \<Longrightarrow> test_two src ret = Ok (Some (if fst (ret_r ret) = me then OPEN_INTERNET else FULL_CONE))"
  by (simp add: test_two_def test_one_def)

lemma run_rets:
  assumes "nat_run kind mp S es1 es2"
  shows "fst ev < 2 \<Longrightarrow> ev \<in> set es1 \<or> ev \<in> set es2 \<Longrightarrow> ev_ret ev = Some ret \<Longrightarrow> ret_r ret = mp (cs_primary (fst (snd ev)))"
    and "ev \<in> set es2 \<Longrightarrow> fst ev = 2 \<Longrightarrow> ev_ret ev = Some ret \<Longrightarrow>
           fst (snd ev) \<in> set S \<and> ret_r ret = mp (fst (cs_secondary (fst (snd ev))), snd (cs_primary (fst (snd ev))))"
    and "ev \<in> set es1 \<Longrightarrow> fst ev = 1 \<Longrightarrow> ev_ret ev = Some ret \<Longrightarrow> kind = NatOpen \<or> kind = NatFullCone"
    and "ev \<in> set es2 \<Longrightarrow> fst ev = 3 \<Longrightarrow> ev_ret ev = Some ret \<Longrightarrow> kind \<noteq> NatRestrictPort \<and> kind \<noteq> NatSymmetric"
proof -
  have S: "servers_ok S" using assms by (simp add: nat_run_def)
  have e1: "fst ev < 2 \<and> ev_through kind mp S (sent1 S) ev" if "ev \<in> set es1" using assms that by (simp add: nat_run_def)
  have e2: "ev_through kind mp S (sent2 S) ev" if "ev \<in> set es2" using assms that by (simp add: nat_run_def)
  show "ret_r ret = mp (cs_primary (fst (snd ev)))" if "fst ev < 2" "ev \<in> set es1 \<or> ev \<in> set es2" "ev_ret ev = Some ret"
  proof -
    have "ret_r ret = mp (fst (nat_test_addrs (fst ev) (fst (snd ev))))"
      using that(2,3) e1 e2 through_reply(1) [OF _ _ S] by blast
    moreover have "fst ev = 0 \<or> fst ev = Suc 0" using that(1) by auto
    ultimately show ?thesis by auto
  qed
  show "fst (snd ev) \<in> set S \<and> ret_r ret = mp (fst (cs_secondary (fst (snd ev))), snd (cs_primary (fst (snd ev))))"
    if "ev \<in> set es2" "fst ev = 2" "ev_ret ev = Some ret"
    using e2 [OF that(1)] through_reply(1) [OF e2 [OF that(1)] that(3) S] that(2) by (simp add: ev_through_def)
  show "kind = NatOpen \<or> kind = NatFullCone" if "ev \<in> set es1" "fst ev = 1" "ev_ret ev = Some ret"
    using through_reply(4) [OF conjunct2 [OF e1 [OF that(1)]] that(3) S _ that(2)] by simp
  show "kind \<noteq> NatRestrictPort \<and> kind \<noteq> NatSymmetric" if "ev \<in> set es2" "fst ev = 3" "ev_ret ev = Some ret"
    using through_reply(2) [OF e2 [OF that(1)] that(3) S _ that(2)] by simp
qed

lemma mapped_open: "mapping_ok NatOpen me mp \<Longrightarrow> fst (mp d) = me"
  unfolding mapping_ok_def by metis

lemma mapped_apart: "mapping_ok kind me mp \<Longrightarrow> kind \<noteq> NatOpen \<Longrightarrow> fst (mp d) \<noteq> me"
  unfolding mapping_ok_def by metis

lemma mapped_same: "mapping_ok kind me mp \<Longrightarrow> kind \<noteq> NatOpen \<Longrightarrow> kind \<noteq> NatSymmetric \<Longrightarrow> mp d = mp e"
  unfolding mapping_ok_def by metis

lemma mapped_inj: "mapping_ok NatSymmetric me mp \<Longrightarrow> mp d = mp e \<Longrightarrow> d = e"
  unfolding mapping_ok_def by (metis injD nat_kind.distinct(7))

text \<open>The first phase, for a NAT whose external address is not that of the interface.\<close>

lemma phase1_shut:
  assumes "ip_f (IpStr src) = Ok me" and "mapping_ok kind me mp" and "nat_run kind mp S es1 es2"
    and "kind \<noteq> NatOpen" and "kind \<noteq> NatFullCone" and "kind \<noteq> NatBlocked"
  shows "fst (nat_phase src [0, 1] es1 nat_q0) = None"
proof (rule ccontr)
  assume "fst (nat_phase src [0, 1] es1 nat_q0) \<noteq> None"
  then obtain v where "fst (nat_phase src [0, 1] es1 nat_q0) = Some v" by auto
  then obtain ev ret q' where ev: "ev \<in> set es1" "fst ev \<in> {0, 1}" "ev_ret ev = Some ret"
      "fst (test_coro src (fst ev) ret q') = Inr (Some v)"
    using phase_Some by fastforce
  have "fst ev \<noteq> 1" using run_rets(3) [OF assms(3) ev(1) _ ev(3)] assms(4,5) by blast
  then have z: "fst ev = 0" using ev(2) by simp
  have "fst (ret_r ret) \<noteq> me"
    using run_rets(1) [OF assms(3) _ _ ev(3)] ev(1) z mapped_apart [OF assms(2,4)] by simp
  then show False using ev(4) z test_one_val [OF assms(1), of ret] by (simp add: test_coro_def)
qed


text \<open>The first phase, when it does have a reply that tells.\<close>

lemma phase_hit:
  assumes "ev \<in> set es" and "fst ev \<in> set cur" and "ev_ret ev = Some ret"
    and "\<And>q. \<exists>v. fst (test_coro src (fst ev) ret q) = Inr (Some v)"
  shows "\<exists>v. fst (nat_phase src cur es q) = Some v"
proof (rule ccontr)
  assume "\<nexists>v. fst (nat_phase src cur es q) = Some v"
  then have "fst (nat_phase src cur es q) = None" by auto
  from phase_None [OF this assms(1-3)] show False using assms(4) by metis
qed

lemma fast_first: "fst (nat_phase src [0, 1] es1 nat_q0) = Some v \<Longrightarrow> fast_nat_test src es1 es2 = v"
  by (cases "nat_phase src [0, 1] es1 nat_q0") (simp add: fast_nat_test_def)

lemma fast_second:
  assumes "nat_phase src [0, 1] es1 nat_q0 = (None, q1)"
  shows "fst (nat_phase src [2, 3] es2 q1) = Some v \<Longrightarrow> fast_nat_test src es1 es2 = v"
    and "nat_phase src [2, 3] es2 q1 = (None, q2) \<Longrightarrow>
           fast_nat_test src es1 es2 = (if no_stun_resp_check q2 then BLOCKED_NAT else q_verdict q2)"
  using assms by (cases "nat_phase src [2, 3] es2 q1"; simp add: fast_nat_test_def)+

lemma found_open:
  assumes "ip_f (IpStr src) = Ok me" and "mapping_ok NatOpen me mp" and "nat_run NatOpen mp S es1 es2" and "enough NatOpen es1 es2"
  shows "fast_nat_test src es1 es2 = OPEN_INTERNET"
proof -
  have all: "fst (test_coro src (fst ev) ret q) = Inr (Some OPEN_INTERNET)"
    if "ev \<in> set es1" "ev_ret ev = Some ret" for ev ret q
  proof -
    have lt: "fst ev < 2" using assms(3) that(1) by (simp add: nat_run_def)
    have "fst (ret_r ret) = me"
      using run_rets(1) [OF assms(3) lt _ that(2)] that(1) mapped_open [OF assms(2)] by simp
    moreover have "fst ev = 0 \<or> fst ev = Suc 0" using lt by auto
    ultimately show ?thesis
      using test_one_val [OF assms(1), of ret] test_two_val [OF assms(1), of ret] by (auto simp: test_coro_def)
  qed
  obtain ev ret where ev: "ev \<in> set es1" "fst ev = 0 \<or> fst ev = 1" "ev_ret ev = Some ret"
    using assms(4) unfolding enough.simps rets_ne by blast
  obtain v where v: "fst (nat_phase src [0, 1] es1 nat_q0) = Some v"
    using phase_hit [of ev es1 "[0, 1]" ret src nat_q0] ev all [OF ev(1,3)] by auto
  then have "v = OPEN_INTERNET" using phase_Some [OF v] all by fastforce
  then show ?thesis using fast_first v by simp
qed

lemma found_full_cone:
  assumes "ip_f (IpStr src) = Ok me" and "mapping_ok NatFullCone me mp" and "nat_run NatFullCone mp S es1 es2" and "enough NatFullCone es1 es2"
  shows "fast_nat_test src es1 es2 = FULL_CONE"
proof -
  have ap: "fst (ret_r ret) \<noteq> me" if "ev \<in> set es1" "ev_ret ev = Some ret" for ev ret
  proof -
    have "fst ev < 2" using assms(3) that(1) by (simp add: nat_run_def)
    then show ?thesis
      using run_rets(1) [OF assms(3) _ _ that(2)] that(1) mapped_apart [OF assms(2), of "cs_primary (fst (snd ev))"] by simp
  qed
  obtain ev ret where ev: "ev \<in> set es1" "fst ev = 1" "ev_ret ev = Some ret"
    using assms(4) unfolding enough.simps rets_ne by blast
  have two: "fst (test_coro src (fst ev) ret q) = Inr (Some FULL_CONE)" for q
    using ap [OF ev(1,3)] test_two_val [OF assms(1), of ret] ev(2) by (simp add: test_coro_def)
  obtain v where v: "fst (nat_phase src [0, 1] es1 nat_q0) = Some v"
    using phase_hit [of ev es1 "[0, 1]" ret src nat_q0] ev two by auto
  then obtain ew rt q' where w: "ew \<in> set es1" "fst ew \<in> {0, 1}" "ev_ret ew = Some rt" "fst (test_coro src (fst ew) rt q') = Inr (Some v)"
    using phase_Some [OF v] by auto
  then have "v = FULL_CONE"
    using ap [OF w(1,3)] test_one_val [OF assms(1), of rt] test_two_val [OF assms(1), of rt] by (auto simp: test_coro_def)
  then show ?thesis using fast_first v by simp
qed


lemma phase1_tests:
  assumes "nat_phase src [0, 1] es1 nat_q0 = (None, q1)" and "nat_run kind mp S es1 es2"
  shows "length (q_tests q1) = 4" "q_tests q1 ! 0 = rets 0 es1" "q_tests q1 ! 2 = []"
proof -
  have lt: "\<forall>ev \<in> set es1. fst ev < 4" using assms(2) by (auto simp: nat_run_def)
  note ph = phase_tests [OF assms(1) lt nat_q0_simps(1)]
  show "length (q_tests q1) = 4" "q_tests q1 ! 0 = rets 0 es1" using ph [of 0] by simp_all
  have "rets 2 es1 = []" using rets_ne [of 2 es1] assms(2) by (auto simp: nat_run_def)
  then show "q_tests q1 ! 2 = []" using ph [of 2] by simp
qed

text \<open>The second phase without a reply to test four.\<close>

lemma phase2_shut:
  assumes "nat_run kind mp S es1 es2" and "kind = NatRestrictPort \<or> kind = NatSymmetric"
  shows "fst (nat_phase src [2, 3] es2 q) = None"
proof (rule ccontr)
  assume "fst (nat_phase src [2, 3] es2 q) \<noteq> None"
  then obtain v where "fst (nat_phase src [2, 3] es2 q) = Some v" by auto
  then obtain ev ret q' where ev: "ev \<in> set es2" "fst ev \<in> {2, 3}" "ev_ret ev = Some ret"
      "fst (test_coro src (fst ev) ret q') = Inr (Some v)"
    using phase_Some by fastforce
  have "fst ev \<noteq> 3" using run_rets(4) [OF assms(1) ev(1) _ ev(3)] assms(2) by blast
  then show False using ev(2,4) by (simp add: test_coro_def test_three_def)
qed

lemma found_restrict:
  assumes "ip_f (IpStr src) = Ok me" and "mapping_ok NatRestrict me mp" and "nat_run NatRestrict mp S es1 es2" and "enough NatRestrict es1 es2"
  shows "fast_nat_test src es1 es2 = RESTRICT_NAT"
proof -
  obtain q1 where q1: "nat_phase src [0, 1] es1 nat_q0 = (None, q1)"
    using phase1_shut [OF assms(1-3)] by (cases "nat_phase src [0, 1] es1 nat_q0") simp
  obtain ev ret where ev: "ev \<in> set es2" "fst ev = 3" "ev_ret ev = Some ret"
    using assms(4) unfolding enough.simps rets_ne by blast
  have "\<exists>v. fst (test_coro src (fst ev) ret q) = Inr (Some v)" for q using ev(2) by (simp add: test_coro_def test_four_def)
  then obtain v where v: "fst (nat_phase src [2, 3] es2 q1) = Some v"
    using phase_hit [of ev es2 "[2, 3]" ret src q1] ev by auto
  then have "v = RESTRICT_NAT" using phase_Some [OF v] by (auto simp: test_coro_def test_four_def test_three_def)
  then show ?thesis using fast_second(1) [OF q1 v] by simp
qed

text \<open>The replies of tests one and three, in the two phases.\<close>

lemma run_replies:
  assumes "nat_run kind mp S es1 es2"
  shows "replies_in {mp (cs_primary s) | s. s \<in> set S} (rets 0 es1 @ rets 0 es2)"
    and "replies_in {mp (fst (cs_secondary s), snd (cs_primary s)) | s. s \<in> set S} (rets 2 es2)"
proof -
  have mem: "fst (snd ev) \<in> set S" if "ev \<in> set es1 \<or> ev \<in> set es2" for ev
    using assms that by (auto simp: nat_run_def ev_through_def)
  show "replies_in {mp (cs_primary s) | s. s \<in> set S} (rets 0 es1 @ rets 0 es2)"
    unfolding replies_in_def
  proof
    fix ret assume "ret \<in> set (rets 0 es1 @ rets 0 es2)"
    then obtain ev where "ev \<in> set es1 \<or> ev \<in> set es2" "fst ev = 0" "ev_ret ev = Some ret"
      unfolding set_append Un_iff rets_mem by blast
    then have "ret_r ret = mp (cs_primary (fst (snd ev)))" "fst (snd ev) \<in> set S" using run_rets(1) [OF assms, of ev ret] mem by simp_all
    then show "ret_r ret \<in> {mp (cs_primary s) | s. s \<in> set S}" by blast
  qed
  show "replies_in {mp (fst (cs_secondary s), snd (cs_primary s)) | s. s \<in> set S} (rets 2 es2)"
    unfolding replies_in_def rets_mem [of _ 2 es2, THEN eq_reflection] Ball_def
  proof (intro allI impI)
    fix ret assume "\<exists>ev \<in> set es2. fst ev = 2 \<and> ev_ret ev = Some ret"
    then show "ret_r ret \<in> {mp (fst (cs_secondary s), snd (cs_primary s)) | s. s \<in> set S}"
      using run_rets(2) [OF assms] by blast
  qed
qed

lemma run_after:
  assumes "ip_f (IpStr src) = Ok me" and "mapping_ok kind me mp" and "nat_run kind mp S es1 es2"
    and "kind = NatRestrictPort \<or> kind = NatSymmetric" and "rets 0 es1 \<noteq> []"
  obtains q1 q2 where "nat_phase src [0, 1] es1 nat_q0 = (None, q1)" "nat_phase src [2, 3] es2 q1 = (None, q2)"
    "\<forall>ev \<in> set es2. fst ev < 4" "length (q_tests q1) = 4" "q_tests q1 ! 0 = rets 0 es1" "q_tests q1 ! 2 = []"
    "fast_nat_test src es1 es2 = q_verdict q2"
proof -
  obtain q1 where q1: "nat_phase src [0, 1] es1 nat_q0 = (None, q1)"
    using phase1_shut [OF assms(1-3)] assms(4) by (cases "nat_phase src [0, 1] es1 nat_q0") auto
  obtain q2 where q2: "nat_phase src [2, 3] es2 q1 = (None, q2)"
    using phase2_shut [OF assms(3,4), of src q1] by (cases "nat_phase src [2, 3] es2 q1") simp
  have lt: "\<forall>ev \<in> set es2. fst ev < 4" using assms(3) by (simp add: nat_run_def)
  note t = phase1_tests [OF q1 assms(3)]
  have "q_tests q2 ! 0 \<noteq> []" using phase_tests [OF q2 lt t(1), of 0] t(2) assms(5) by simp
  then have "\<not> no_stun_resp_check q2" by (auto simp: no_stun_resp_check_def)
  then show thesis using that [OF q1 q2 lt t] fast_second(2) [OF q1 q2] by simp
qed

lemma found_restrict_port:
  assumes "ip_f (IpStr src) = Ok me" and "mapping_ok NatRestrictPort me mp" and "nat_run NatRestrictPort mp S es1 es2"
    and "enough NatRestrictPort es1 es2"
  shows "fast_nat_test src es1 es2 = RESTRICT_PORT_NAT"
proof -
  have ne: "rets 0 es1 \<noteq> []" "rets 2 es2 \<noteq> []" using assms(4) by simp_all
  let ?m = "mp undefined"
  have same: "mp d = ?m" for d using mapped_same [OF assms(2)] by simp
  obtain q1 q2 where q: "nat_phase src [2, 3] es2 q1 = (None, q2)" "\<forall>ev \<in> set es2. fst ev < 4" "length (q_tests q1) = 4"
      "q_tests q1 ! 0 = rets 0 es1" "q_tests q1 ! 2 = []" "fast_nat_test src es1 es2 = q_verdict q2"
    using run_after [OF assms(1-3) _ ne(1)] by blast
  have "replies_in {?m} (rets 0 es1 @ rets 0 es2)"
    by (rule replies_in_mono [OF run_replies(1) [OF assms(3)]]) (use same in blast)
  moreover have "replies_in {?m} (rets 2 es2)"
    by (rule replies_in_mono [OF run_replies(2) [OF assms(3)]]) (use same in blast)
  ultimately have "q_verdict q2 = RESTRICT_PORT_NAT"
    using phase_verdict_same [OF q(1-3), of ?m] q(4,5) ne by simp
  then show ?thesis using q(6) by simp
qed

lemma found_symmetric:
  assumes "ip_f (IpStr src) = Ok me" and "mapping_ok NatSymmetric me mp" and "nat_run NatSymmetric mp S es1 es2"
    and "enough NatSymmetric es1 es2"
  shows "fast_nat_test src es1 es2 = SYMMETRIC_NAT"
proof -
  have ne: "rets 0 es1 \<noteq> []" using assms(4) by simp
  obtain q1 q2 where q: "nat_phase src [0, 1] es1 nat_q0 = (None, q1)" "nat_phase src [2, 3] es2 q1 = (None, q2)"
      "\<forall>ev \<in> set es2. fst ev < 4" "length (q_tests q1) = 4"
      "q_tests q1 ! 0 = rets 0 es1" "q_tests q1 ! 2 = []" "fast_nat_test src es1 es2 = q_verdict q2"
    using run_after [OF assms(1-3) _ ne] by blast
  let ?A = "{mp (cs_primary s) | s. s \<in> set S}" and ?B = "{mp (fst (cs_secondary s), snd (cs_primary s)) | s. s \<in> set S}"
  have "servers_ok S" using assms(3) by (simp add: nat_run_def)
  then have ap: "(fst (cs_secondary s), snd (cs_primary s)) \<noteq> cs_primary t" if "s \<in> set S" "t \<in> set S" for s t
    using that unfolding servers_ok_def by (metis fst_conv)
  have dis: "?A \<inter> ?B = {}"
  proof (rule ccontr)
    assume "?A \<inter> ?B \<noteq> {}"
    then obtain x where "x \<in> ?A" "x \<in> ?B" by blast
    then obtain t s where st: "s \<in> set S" "t \<in> set S" "x = mp (cs_primary t)" "x = mp (fst (cs_secondary s), snd (cs_primary s))"
      unfolding mem_Collect_eq by blast
    from ap [OF st(1,2)] mapped_inj [OF assms(2) st(3) [symmetric, unfolded st(4)]] show False by simp
  qed
  have lt: "\<forall>ev \<in> set es1. fst ev < 4" using assms(3) by (auto simp: nat_run_def)
  have z: "rets 2 es1 = []" using rets_ne [of 2 es1] assms(3) by (auto simp: nat_run_def)
  have "q_verdict q2 = q_verdict q1"
    using phase_verdict_apart [OF q(2-4) _ _ dis] run_replies [OF assms(3)] q(5,6) by simp
  moreover have "q_verdict q1 = q_verdict nat_q0"
    using phase_verdict_apart [OF q(1) lt nat_q0_simps(1) _ _ dis] run_replies [OF assms(3)] z by simp
  ultimately show ?thesis using q(7) by simp
qed

lemma found_blocked:
  assumes "nat_run NatBlocked mp S es1 es2"
  shows "fast_nat_test src es1 es2 = BLOCKED_NAT"
proof -
  have S: "servers_ok S" using assms by (simp add: nat_run_def)
  have lt: "\<forall>ev \<in> set es1. fst ev < 4" "\<forall>ev \<in> set es2. fst ev < 4" using assms by (auto simp: nat_run_def)
  have no: "ev_ret ev = None" if "ev \<in> set es1 \<or> ev \<in> set es2" for ev
  proof (rule ccontr)
    assume "ev_ret ev \<noteq> None"
    then obtain ret where r: "ev_ret ev = Some ret" by auto
    from that show False
    proof
      assume "ev \<in> set es1"
      then have "ev_through NatBlocked mp S (sent1 S) ev" using assms by (simp add: nat_run_def)
      from through_reply(3) [OF this r S] show False by simp
    next
      assume "ev \<in> set es2"
      then have "ev_through NatBlocked mp S (sent2 S) ev" using assms by (simp add: nat_run_def)
      from through_reply(3) [OF this r S] show False by simp
    qed
  qed
  have "fst (nat_phase src cur es q) = None" if "es = es1 \<or> es = es2" for cur es q
    using phase_Some [of src cur es q] no that by (metis option.distinct(1) option.exhaust)
  then obtain q1 q2 where q: "nat_phase src [0, 1] es1 nat_q0 = (None, q1)" "nat_phase src [2, 3] es2 q1 = (None, q2)"
    by (metis prod.collapse)
  have e: "rets k es1 = []" "rets k es2 = []" for k using rets_ne [of k] no by (metis option.distinct(1))+
  note t1 = phase_tests [OF q(1) lt(1) nat_q0_simps(1)]
  have "q_tests q2 ! k = []" if "k < 4" for k
  proof -
    have "k = 0 \<or> k = 1 \<or> k = 2 \<or> k = 3" using that by auto
    then have "q_tests nat_q0 ! k = []" using nat_q0_simps by blast
    then show ?thesis using phase_tests [OF q(2) lt(2)] t1 [of k] e [of k] by simp
  qed
  then have "no_stun_resp_check q2" by (simp add: no_stun_resp_check_def)
  then show ?thesis using fast_second(2) [OF q] by simp
qed


text \<open>A host whose filter drops unsolicited packets, but whose address is not translated, counts as open.\<close>

lemma phase_verdict:
  assumes "q_verdict q \<in> {SYMMETRIC_NAT, RESTRICT_PORT_NAT}"
  shows "q_verdict (snd (nat_phase src cur es q)) \<in> {SYMMETRIC_NAT, RESTRICT_PORT_NAT}"
  using assms
proof (induction src cur es q rule: nat_phase.induct)
  case (2 src cur k s r es q)
  obtain out p where x: "nat_test_exec src k r q = (out, p)" by fastforce
  have p: "q_verdict p \<in> {SYMMETRIC_NAT, RESTRICT_PORT_NAT}"
    using exec_verdict [of src k r q s] "2.prems" x by (auto split: option.splits if_splits)
  show ?case using "2.IH" [OF x [symmetric] _ p] p x by auto
qed simp

lemma coro_result: "fst (test_coro src k ret q) = Inr (Some v) \<Longrightarrow> v \<in> {OPEN_INTERNET, FULL_CONE, RESTRICT_NAT}"
  by (cases "ip_f (IpStr src)")
    (auto simp: test_coro_def test_one_def test_two_def test_three_def test_four_def simp del: ip_f.simps split: if_splits)

lemma phase_result: "fst (nat_phase src cur es q) = Some v \<Longrightarrow> v \<in> {OPEN_INTERNET, FULL_CONE, RESTRICT_NAT}"
  using phase_Some [of src cur es q v] coro_result [of src _ _ _ v] by blast

lemma fast_nat_test_codes:
  "fast_nat_test src es1 es2 \<in> {OPEN_INTERNET, FULL_CONE, RESTRICT_NAT, RESTRICT_PORT_NAT, SYMMETRIC_NAT, BLOCKED_NAT}"
proof -
  obtain r1 q1 where p1: "nat_phase src [0, 1] es1 nat_q0 = (r1, q1)" by fastforce
  obtain r2 q2 where p2: "nat_phase src [2, 3] es2 q1 = (r2, q2)" by fastforce
  have "q_verdict q2 \<in> {SYMMETRIC_NAT, RESTRICT_PORT_NAT}"
    using phase_verdict [of q1 src "[2, 3]" es2] phase_verdict [of nat_q0 src "[0, 1]" es1] p1 p2 by simp
  then show ?thesis
    using phase_result [of src "[0, 1]" es1 nat_q0] phase_result [of src "[2, 3]" es2 q1] p1 p2
    by (cases r1; cases r2) (auto simp: fast_nat_test_def)
qed

section \<open>Properties\<close>

text \<open>C5: the two phases find the type of the NAT: whatever the order in which the replies come and whichever are
lost, as long as one reply of each test the type is told by gets through, the result is the type of RFC 3489.\<close>

theorem nat_type_found:
  assumes "ip_f (IpStr src) = Ok me" and "mapping_ok kind me mp" and "nat_run kind mp S es1 es2" and "enough kind es1 es2"
  shows "fast_nat_test src es1 es2 = nat_code kind"
proof (cases kind)
  case NatOpen
  then show ?thesis using found_open assms by simp
next
  case NatFullCone
  then show ?thesis using found_full_cone assms by simp
next
  case NatRestrict
  then show ?thesis using found_restrict assms by simp
next
  case NatRestrictPort
  then show ?thesis using found_restrict_port assms by simp
next
  case NatSymmetric
  then show ?thesis using found_symmetric assms by simp
next
  case NatBlocked
  then show ?thesis using found_blocked assms(3) by simp
qed

definition ex_change_server :: change_server where
  "ex_change_server = \<lparr>cs_primary = (IPv4Address 11, 3478), cs_secondary = (IPv4Address 12, 3479), cs_mode = RFC3489\<rparr>"

definition ex_reply :: "ipa \<times> int \<Rightarrow> stun_reply res" where
  "ex_reply r = Ok \<lparr>rp_msg = (STUNMsg [] Binding Request RFC3489)\<lparr>sm_rtup := Some r, sm_ctup := Some (IPv4Address 12, 3479)\<rparr>,
     rp_af = IP4, rp_stup = (IPv4Address 11, 3478), rp_ltup = (IPv4Address 5, 1000)\<rparr>"

lemma ex_reply_ret: "ev_ret (k, s, ex_reply r) =
    Some \<lparr>ret_c = (IPv4Address 12, 3479), ret_r = r, ret_s = (IPv4Address 11, 3478), ret_l = (IPv4Address 5, 1000)\<rparr>"
  by (simp add: ev_ret_def ex_reply_def stun_reply_to_ret_dic_def)

theorem nat_type_found_witness:
  "fast_nat_test ''0.0.0.5'' [(1, ex_change_server, Err TimeoutError), (0, ex_change_server, ex_reply (IPv4Address 9, 40000))]
     [(3, ex_change_server, Err TimeoutError), (2, ex_change_server, ex_reply (IPv4Address 9, 40000))] = nat_code NatRestrictPort"
proof (rule nat_type_found [where S = "[ex_change_server]" and mp = "\<lambda>_. (IPv4Address 9, 40000)" and me = "IPv4Address 5"])
  show "ip_f (IpStr ''0.0.0.5'') = Ok (IPv4Address 5)"
    using ip_address_str [of "IPv4Address 5"] by (simp add: eval_simps)
  show "mapping_ok NatRestrictPort (IPv4Address 5) (\<lambda>_. (IPv4Address 9, 40000))" by (simp add: mapping_ok_def)
  show "nat_run NatRestrictPort (\<lambda>_. (IPv4Address 9, 40000)) [ex_change_server]
     [(1, ex_change_server, Err TimeoutError), (0, ex_change_server, ex_reply (IPv4Address 9, 40000))]
     [(3, ex_change_server, Err TimeoutError), (2, ex_change_server, ex_reply (IPv4Address 9, 40000))]"
    unfolding nat_run_def servers_ok_def ev_through_def
    by (simp add: ex_reply_ret, simp add: ev_ret_def ex_change_server_def sent1_def sent2_def)
  show "enough NatRestrictPort [(1, ex_change_server, Err TimeoutError), (0, ex_change_server, ex_reply (IPv4Address 9, 40000))]
     [(3, ex_change_server, Err TimeoutError), (2, ex_change_server, ex_reply (IPv4Address 9, 40000))]"
    by (simp add: rets_Cons ex_reply_ret)
qed

end
