(* ===== verification/Toxics.thy ===== *)
theory Toxics
  imports Complex_Main "HOL-Library.Multiset" Http_Lib
begin

text \<open>
  The toxics and the tunnels of \<^verbatim>\<open>protocol/toxiproxy/toxiserver.py\<close>: what each kind of toxic does to a message
  on its way to a pipe, how a message is led through a list of toxics, and a tunnel between clients and an upstream
  pipe. Random draws, clocks and what other coroutines hold of a shared bandwidth are arguments; numbers are exact.
\<close>

section \<open>Values from JSON\<close>

definition json_num :: "json \<Rightarrow> rat res" where
  "json_num j =
     (case j of
        JInt n \<Rightarrow> Ok (of_int n)
      | JBool b \<Rightarrow> Ok (of_bool b)
      | JReal s \<Rightarrow>
          (case dec_parse s of
             None \<Rightarrow> Err ValueError
           | Some (c, e) \<Rightarrow> Ok (if 0 \<le> e then of_int c * 10 ^ nat e else of_int c / 10 ^ nat (- e)))
      | _ \<Rightarrow> Err TypeError)"

definition json_index :: "json \<Rightarrow> int res" where
  "json_index j = (case j of JInt n \<Rightarrow> Ok n | JBool b \<Rightarrow> Ok (of_bool b) | _ \<Rightarrow> Err TypeError)"

definition json_truth :: "json \<Rightarrow> bool" where
  "json_truth j =
     (case j of
        JNull \<Rightarrow> False
      | JStr s \<Rightarrow> s \<noteq> []
      | JArr xs \<Rightarrow> xs \<noteq> []
      | JObj ms \<Rightarrow> ms \<noteq> []
      | _ \<Rightarrow> (case json_num j of Inl e \<Rightarrow> True | Inr x \<Rightarrow> x \<noteq> 0))"

definition py_trunc :: "rat \<Rightarrow> int" where
  "py_trunc x = (if x < 0 then - \<lfloor>- x\<rfloor> else \<lfloor>x\<rfloor>)"

section \<open>Pipes a message goes to\<close>

text \<open>
  What was done to a pipe, in order; the milliseconds of the slow close that was put in place of its close
  function, if any; whether its linger option was set by a toxic.
\<close>

datatype tox_act = ActSleep rat | ActSend bytes | ActClose | ActLinger

record dest_pipe =
  dp_acts :: "tox_act list"
  dp_slow :: "json option"
  dp_hook :: bool

definition dest_do :: "tox_act list \<Rightarrow> dest_pipe \<Rightarrow> dest_pipe" where
  "dest_do acts d = d\<lparr>dp_acts := dp_acts d @ acts\<rparr>"

definition dest_close :: "dest_pipe \<Rightarrow> unit res \<times> dest_pipe" where
  "dest_close d =
     (case dp_slow d of
        None \<Rightarrow> (Ok (), dest_do [ActClose] d)
      | Some ms \<Rightarrow>
          (case json_num ms of
             Inl e \<Rightarrow> (Err e, d)
           | Inr x \<Rightarrow> (Ok (), dest_do [ActSleep (x / 1000), ActClose] d)))"

section \<open>Toxics\<close>

text \<open>
  The kinds with their parameters and counters. The times of \<open>ToxicTimeout\<close> and \<open>ToxicResetPeer\<close> are when they were
  made and, unless zero was asked for, the seconds; the flag of \<open>ToxicSlowClose\<close> says that its \<open>run\<close> has been replaced
  by the placeholder; the number of \<open>ToxicBandwidthLimit\<close> is bytes per 100 ms.
\<close>

datatype toxic_kind =
    BaseToxic
  | ToxicLatency json json
  | ToxicBandwidthLimit int
  | ToxicSlowClose json bool
  | ToxicTimeout rat "rat option"
  | ToxicResetPeer rat "rat option"
  | ToxicLimitData json int
  | ToxicSlicer json json json

record toxic =
  tx_name :: string
  tx_stream :: json
  tx_toxicity :: json
  tx_kind :: toxic_kind

text \<open>What one run of a toxic finds: draws, the clock, and how much of a bandwidth other coroutines hold at each poll.\<close>

record tox_env =
  te_roll :: nat
  te_jitter :: nat
  te_sign :: bool
  te_now :: rat
  te_linger :: "unit res"
  te_slice :: "nat \<Rightarrow> nat"
  te_others :: "nat \<Rightarrow> int"
  te_fuel :: nat

text \<open>\<open>int(self.toxicity * 100)\<close>; a text is repeated by the multiplication.\<close>

definition toxicity_pct :: "json \<Rightarrow> int res" where
  "toxicity_pct j =
     (case j of
        JStr s \<Rightarrow> py_int 10 (concat (replicate 100 s))
      | _ \<Rightarrow> rmap (\<lambda>x. py_trunc (x * 100)) (json_num j))"

definition should_run :: "nat \<Rightarrow> toxic \<Rightarrow> bool res" where
  "should_run roll t =
     rbind (toxicity_pct (tx_toxicity t)) (\<lambda>pct.
     rmap (\<lambda>r. r \<le> min pct 100) (randrange roll 1 101))"

text \<open>A run ends with nothing, or with what is left of the message and whether the pipe is still to be used.\<close>

type_synonym tox_ret = "(bytes option \<times> bool) option res"

definition latency_run :: "tox_env \<Rightarrow> json \<Rightarrow> json \<Rightarrow> bytes \<Rightarrow> dest_pipe \<Rightarrow> tox_ret \<times> dest_pipe" where
  "latency_run env latency jitter msg d =
     (case (if json_truth jitter
            then rmap (\<lambda>j. if te_sign env then - j else j) (rbind (json_index jitter) (randrange (te_jitter env) 0))
            else Ok 0) of
        Inl e \<Rightarrow> (Err e, d)
      | Inr j \<Rightarrow>
          (case json_num latency of
             Inl e \<Rightarrow> (Err e, d)
           | Inr x \<Rightarrow>
               (let ms = x + of_int j
                in (Ok (Some (Some msg, True)), if 0 < ms then dest_do [ActSleep (ms / 1000)] d else d))))"

text \<open>
  Bandwidth. A request for \<open>n\<close> bytes polls every 100 ms until other coroutines leave something of the rate; a rate of
  zero asks nothing. The message goes out in the pieces that were granted.
\<close>

fun get_bandwidth :: "nat \<Rightarrow> int \<Rightarrow> (nat \<Rightarrow> int) \<Rightarrow> nat \<Rightarrow> int \<Rightarrow> (int \<times> nat) option" where
  "get_bandwidth fuel rate_ms others i n =
     (if rate_ms = 0 then Some (0, i)
      else case fuel of
             0 \<Rightarrow> None
           | Suc f \<Rightarrow>
               (let bw = rate_ms - others i
                in if 0 < bw then Some (min n bw, Suc i) else get_bandwidth f rate_ms others (Suc i) n))"

declare get_bandwidth.simps [simp del]

fun bandwidth_run :: "nat \<Rightarrow> int \<Rightarrow> (nat \<Rightarrow> int) \<Rightarrow> nat \<Rightarrow> bytes \<Rightarrow> tox_act list option" where
  "bandwidth_run fuel rate_ms others i [] = Some []"
| "bandwidth_run 0 rate_ms others i (b # msg) = None"
| "bandwidth_run (Suc f) rate_ms others i (b # msg) =
     (case get_bandwidth f rate_ms others i (int (length (b # msg))) of
        None \<Rightarrow> None
      | Some (bw, j) \<Rightarrow>
          map_option (\<lambda>acts. replicate (j - i) (ActSleep (1 / 10)) @ ActSend (take (nat bw) (b # msg)) # acts)
            (bandwidth_run f rate_ms others j (drop (nat bw) (b # msg))))"

definition slow_close_run :: "json \<Rightarrow> bool \<Rightarrow> bytes \<Rightarrow> dest_pipe \<Rightarrow> tox_ret \<times> dest_pipe" where
  "slow_close_run ms done_before msg d =
     (if done_before then (Ok (Some (Some msg, True)), d) else (Ok None, d\<lparr>dp_slow := Some ms\<rparr>))"

definition timeout_run :: "tox_env \<Rightarrow> rat \<Rightarrow> rat option \<Rightarrow> dest_pipe \<Rightarrow> tox_ret \<times> dest_pipe" where
  "timeout_run env start_time ms d =
     (case ms of
        None \<Rightarrow> (Ok (Some (None, True)), d)
      | Some m \<Rightarrow>
          (let remaining = m - min m (te_now env - start_time);
               (r, d') = dest_close (if remaining \<noteq> 0 then dest_do [ActSleep remaining] d else d)
           in (rmap (\<lambda>_. Some (None, False)) r, d')))"

definition reset_peer_run :: "tox_env \<Rightarrow> rat \<Rightarrow> rat option \<Rightarrow> bytes \<Rightarrow> dest_pipe \<Rightarrow> tox_ret \<times> dest_pipe" where
  "reset_peer_run env start_time ms msg d =
     (let (r, d) = (if dp_hook d then (Ok (), d)
                    else case te_linger env of
                           Inl e \<Rightarrow> (Err e, d\<lparr>dp_hook := True\<rparr>)
                         | Inr _ \<Rightarrow> (Ok (), dest_do [ActLinger] (d\<lparr>dp_hook := True\<rparr>)))
      in case r of
           Inl e \<Rightarrow> (Err e, d)
         | Inr _ \<Rightarrow>
             (if (case ms of None \<Rightarrow> True | Some m \<Rightarrow> m \<le> te_now env - start_time)
              then (let (r, d') = dest_close d in (rmap (\<lambda>_. Some (None, False)) r, d'))
              else (Ok (Some (Some msg, True)), d)))"

definition limit_data_run :: "json \<Rightarrow> int \<Rightarrow> bytes \<Rightarrow> dest_pipe \<Rightarrow> tox_ret \<times> int \<times> dest_pipe" where
  "limit_data_run n seen msg d =
     (let seen = seen + int (length msg)
      in case json_num n of
           Inl e \<Rightarrow> (Err e, seen, d)
         | Inr limit \<Rightarrow>
             (if limit \<le> of_int seen
              then (let (r, d') = dest_close d in (rmap (\<lambda>_. Some (None, False)) r, seen, d'))
              else (Ok (Some (Some msg, True)), seen, d)))"

text \<open>
  The slicer. Chunks are pairs of offsets in one flat list, each chunk starting where the one before ended; every chunk
  is at least one byte long, so the loop ends.
\<close>

function chunk_loop :: "(nat \<Rightarrow> nat) \<Rightarrow> nat \<Rightarrow> int \<Rightarrow> int \<Rightarrow> int \<Rightarrow> int \<Rightarrow> int list res" where
  "chunk_loop draw i avg_size size_var p_start fin =
     (case randrange (draw i) 0 (size_var * 2 + 1) of
        Inl e \<Rightarrow> Err e
      | Inr rand_len \<Rightarrow>
          (let p_end = p_start + max (avg_size + (rand_len - size_var)) 1;
               stop = min p_end fin
           in if fin \<le> stop then Ok [p_start, stop]
              else rmap (\<lambda>os. p_start # stop # os) (chunk_loop draw (Suc i) avg_size size_var stop fin)))"
  by pat_completeness auto

termination
  by (relation "measure (\<lambda>(draw, i, avg_size, size_var, p_start, fin). nat (fin - p_start))") auto

declare chunk_loop.simps [simp del]

definition slicer_chunk :: "(nat \<Rightarrow> nat) \<Rightarrow> json \<Rightarrow> json \<Rightarrow> int \<Rightarrow> int \<Rightarrow> int list res" where
  "slicer_chunk draw avg_size size_var start fin =
     rbind (json_num avg_size) (\<lambda>a.
     rbind (json_num size_var) (\<lambda>v.
       if of_int (fin - start) - a \<le> v then Ok [start, fin]
       else rbind (json_index size_var) (\<lambda>v. rbind (json_index avg_size) (\<lambda>a. chunk_loop draw 0 a v start fin))))"

fun slices :: "bytes \<Rightarrow> int list \<Rightarrow> bytes list" where
  "slices msg (i # j # os) = slice (nat i) (nat j) msg # slices msg os"
| "slices msg _ = []"

definition slicer_run :: "tox_env \<Rightarrow> json \<Rightarrow> json \<Rightarrow> json \<Rightarrow> bytes \<Rightarrow> dest_pipe \<Rightarrow> tox_ret \<times> dest_pipe" where
  "slicer_run env avg_size size_var delay msg d =
     (case slicer_chunk (te_slice env) avg_size size_var 0 (int (length msg)) of
        Inl e \<Rightarrow> (Err e, d)
      | Inr offsets \<Rightarrow>
          (case (if json_truth delay then rmap (\<lambda>x. [ActSleep (x / 1000)]) (json_num delay) else Ok []) of
             Inl e \<Rightarrow> (Err e, d)
           | Inr pause \<Rightarrow>
               (Ok (Some (None, True)), dest_do (pause @ concat (map (\<lambda>c. pause @ [ActSend c]) (slices msg offsets))) d)))"

text \<open>
  A run of a toxic, with the toxic as it is afterwards; None when a bandwidth limit has not let the message through
  within the polls looked at. An unknown type has no \<open>run\<close>.
\<close>

definition toxic_run :: "tox_env \<Rightarrow> toxic \<Rightarrow> bytes \<Rightarrow> dest_pipe \<Rightarrow> (tox_ret \<times> toxic \<times> dest_pipe) option" where
  "toxic_run env t msg d =
     (case tx_kind t of
        BaseToxic \<Rightarrow> Some (Err AttributeError, t, d)
      | ToxicLatency latency jitter \<Rightarrow> (let (r, d') = latency_run env latency jitter msg d in Some (r, t, d'))
      | ToxicBandwidthLimit rate_ms \<Rightarrow>
          map_option (\<lambda>acts. (Ok (Some (None, True)), t, dest_do acts d))
            (bandwidth_run (te_fuel env) rate_ms (te_others env) 0 msg)
      | ToxicSlowClose ms done_before \<Rightarrow>
          (let (r, d') = slow_close_run ms done_before msg d in Some (r, t\<lparr>tx_kind := ToxicSlowClose ms True\<rparr>, d'))
      | ToxicTimeout start_time ms \<Rightarrow> (let (r, d') = timeout_run env start_time ms d in Some (r, t, d'))
      | ToxicResetPeer start_time ms \<Rightarrow> (let (r, d') = reset_peer_run env start_time ms msg d in Some (r, t, d'))
      | ToxicLimitData n seen \<Rightarrow>
          (let (r, seen', d') = limit_data_run n seen msg d in Some (r, t\<lparr>tx_kind := ToxicLimitData n seen'\<rparr>, d'))
      | ToxicSlicer avg_size size_var delay \<Rightarrow>
          (let (r, d') = slicer_run env avg_size size_var delay msg d in Some (r, t, d')))"

section \<open>Leading a message through toxics\<close>

text \<open>
  A toxic that raises in its run, or gives nothing, is passed over; one that has no \<open>run\<close>, or whose toxicity is not a
  number, raises out of the router. What a toxic has sent itself it gives back as no message, which ends the way.
\<close>

fun toxic_router ::
  "(nat \<Rightarrow> tox_env) \<Rightarrow> nat \<Rightarrow> toxic list \<Rightarrow> bytes \<Rightarrow> dest_pipe \<Rightarrow> (unit res \<times> toxic list \<times> dest_pipe) option" where
  "toxic_router env k [] msg d = Some (Ok (), [], dest_do [ActSend msg] d)"
| "toxic_router env k (t # ts) msg d =
     (case should_run (te_roll (env k)) t of
        Inl e \<Rightarrow> Some (Err e, t # ts, d)
      | Inr run \<Rightarrow>
          if \<not> run then map_option (\<lambda>(r, ts', d'). (r, t # ts', d')) (toxic_router env (Suc k) ts msg d)
          else if tx_kind t = BaseToxic then Some (Err AttributeError, t # ts, d)
          else case toxic_run (env k) t msg d of
                 None \<Rightarrow> None
               | Some (Inr (Some (None, keep_pipe)), t', d') \<Rightarrow> Some (Ok (), t' # ts, d')
               | Some (Inr (Some (Some msg', False)), t', d') \<Rightarrow> Some (Ok (), t' # ts, d')
               | Some (Inr (Some (Some msg', True)), t', d') \<Rightarrow>
                   map_option (\<lambda>(r, ts', d''). (r, t' # ts', d'')) (toxic_router env (Suc k) ts msg' d')
               | Some (_, t', d') \<Rightarrow>
                   map_option (\<lambda>(r, ts', d''). (r, t' # ts', d'')) (toxic_router env (Suc k) ts msg d'))"

section \<open>Tunnels\<close>

text \<open>
  A tunnel server: its toxics by name for the two directions, the client pipes it relays to, and the end handlers of
  its listening pipe, each made for one client. All client pipes of a listener share the listener's list of handlers.
\<close>

record tunnel =
  tn_name :: string
  tn_up_toxics :: "(string \<times> toxic) list"
  tn_down_toxics :: "(string \<times> toxic) list"
  tn_clients :: "nat list"
  tn_end_cbs :: "nat list"
  tn_upstream :: "dest_pipe option"
  tn_paused :: "nat list"

definition ToxiTunnelServer :: "string \<Rightarrow> tunnel" where
  "ToxiTunnelServer name =
     \<lparr>tn_name = name, tn_up_toxics = [], tn_down_toxics = [], tn_clients = [], tn_end_cbs = [], tn_upstream = None, tn_paused = []\<rparr>"

text \<open>The direction a toxic of that name is in: True for upstream.\<close>

definition get_toxic :: "string \<Rightarrow> tunnel \<Rightarrow> bool option" where
  "get_toxic name tn =
     (if name \<in> fst ` set (tn_up_toxics tn) then Some True
      else if name \<in> fst ` set (tn_down_toxics tn) then Some False else None)"

definition up_cb :: "nat \<Rightarrow> tunnel \<Rightarrow> tunnel" where
  "up_cb con_pipe tn = tn\<lparr>tn_end_cbs := tn_end_cbs tn @ [con_pipe], tn_clients := tn_clients tn @ [con_pipe]\<rparr>"

definition end_cb :: "nat \<Rightarrow> tunnel \<Rightarrow> tunnel" where
  "end_cb con_pipe tn = tn\<lparr>tn_clients := remove1 con_pipe (tn_clients tn)\<rparr>"

text \<open>A client pipe that ends runs every handler of the shared list.\<close>

definition client_ended :: "nat \<Rightarrow> tunnel \<Rightarrow> tunnel" where
  "client_ended con_pipe tn = fold end_cb (tn_end_cbs tn) tn"

definition set_upstream :: "dest_pipe \<Rightarrow> tunnel \<Rightarrow> tunnel" where
  "set_upstream pipe tn = tn\<lparr>tn_upstream := Some pipe\<rparr>"

text \<open>
  From a client to upstream. Reading from the client is paused before the toxics and resumed after them, unless they
  raise. Toxics are added only once the upstream pipe is set; before that, sending has no pipe to go to.
\<close>

definition tunnel_msg_cb :: "(nat \<Rightarrow> tox_env) \<Rightarrow> bytes \<Rightarrow> nat \<Rightarrow> tunnel \<Rightarrow> (unit res \<times> tunnel) option" where
  "tunnel_msg_cb env msg down_pipe tn =
     (let tn = tn\<lparr>tn_paused := tn_paused tn @ [down_pipe]\<rparr>
      in case tn_upstream tn of
           None \<Rightarrow> Some (Err AttributeError, tn)
         | Some up \<Rightarrow>
             map_option (\<lambda>(r, ts, up').
                 (r, tn\<lparr>tn_up_toxics := zip (map fst (tn_up_toxics tn)) ts, tn_upstream := Some up',
                        tn_paused := (case r of Inl e \<Rightarrow> tn_paused tn | Inr _ \<Rightarrow> remove1 down_pipe (tn_paused tn))\<rparr>))
               (toxic_router env 0 (map snd (tn_up_toxics tn)) msg up))"

text \<open>
  From upstream to every client of the moment, with the toxics they share; what a router raises for one client is
  dropped. The routers run one after the other here.
\<close>

fun relay_down ::
  "(nat \<Rightarrow> nat \<Rightarrow> tox_env) \<Rightarrow> bytes \<Rightarrow> nat list \<Rightarrow> toxic list \<Rightarrow> (nat \<Rightarrow> dest_pipe) \<Rightarrow> (toxic list \<times> (nat \<Rightarrow> dest_pipe)) option" where
  "relay_down env msg [] ts pipes = Some (ts, pipes)"
| "relay_down env msg (c # cs) ts pipes =
     (case toxic_router (env c) 0 ts msg (pipes c) of
        None \<Rightarrow> None
      | Some (r, ts', d) \<Rightarrow> relay_down env msg cs ts' (pipes(c := d)))"

definition upstream_msg_cb ::
  "(nat \<Rightarrow> nat \<Rightarrow> tox_env) \<Rightarrow> bytes \<Rightarrow> (nat \<Rightarrow> dest_pipe) \<Rightarrow> tunnel \<Rightarrow> (tunnel \<times> (nat \<Rightarrow> dest_pipe)) option" where
  "upstream_msg_cb env msg pipes tn =
     map_option (\<lambda>(ts, pipes'). (tn\<lparr>tn_down_toxics := zip (map fst (tn_down_toxics tn)) ts\<rparr>, pipes'))
       (relay_down env msg (tn_clients tn) (map snd (tn_down_toxics tn)) pipes)"


section \<open>The bytes that go out\<close>

fun act_data :: "tox_act \<Rightarrow> bytes" where
  "act_data (ActSend b) = b"
| "act_data _ = []"

definition acts_data :: "tox_act list \<Rightarrow> bytes" where
  "acts_data acts = concat (map act_data acts)"

definition sent_data :: "dest_pipe \<Rightarrow> bytes" where
  "sent_data d = acts_data (dp_acts d)"

lemma acts_data_simps [simp]:
  "acts_data [] = []"
  "acts_data (a # acts) = act_data a @ acts_data acts"
  "acts_data (acts @ acts') = acts_data acts @ acts_data acts'"
  "acts_data (replicate n (ActSleep x)) = []"
  by (simp_all add: acts_data_def)

lemma sent_data_simps [simp]:
  "sent_data (dest_do acts d) = sent_data d @ acts_data acts"
  "sent_data (d\<lparr>dp_slow := s\<rparr>) = sent_data d"
  "sent_data (d\<lparr>dp_hook := h\<rparr>) = sent_data d"
  by (simp_all add: sent_data_def dest_do_def)

lemma bandwidth_data: "bandwidth_run fuel rate_ms others i msg = Some acts \<Longrightarrow> acts_data acts = msg"
proof (induction fuel rate_ms others i msg arbitrary: acts rule: bandwidth_run.induct)
  case (3 f rate_ms others i b msg)
  then show ?case by (auto split: option.splits)
qed simp_all

text \<open>Chunk offsets lead from one end of the message to the other without a gap.\<close>

fun chain :: "int \<Rightarrow> int list \<Rightarrow> int \<Rightarrow> bool" where
  "chain a [i, j] b = (i = a \<and> j = b \<and> a \<le> b)"
| "chain a (i # j # os) b = (i = a \<and> a \<le> j \<and> chain j os b)"
| "chain a os b = False"

lemma chain_le: "chain a os b \<Longrightarrow> a \<le> b"
  by (induction a os b rule: chain.induct) auto

lemma chain_slices: "chain a os b \<Longrightarrow> 0 \<le> a \<Longrightarrow> concat (slices msg os) = slice (nat a) (nat b) msg"
proof (induction a os b rule: chain.induct)
  case (2 a i j o1 os b)
  then have c: "chain j (o1 # os) b" and aj: "i = a" "a \<le> j" by auto
  have "nat a \<le> nat j" "nat j \<le> nat b" using aj chain_le [OF c] by auto
  then have "slice (nat a) (nat j) msg @ slice (nat j) (nat b) msg = slice (nat a) (nat b) msg"
    using take_add [of "nat j - nat a" "nat b - nat j" "drop (nat a) msg"] by (simp add: slice_def)
  then show ?case using "2.IH" c aj "2.prems"(2) by simp
qed simp_all

lemma chunk_loop_chain:
  "chunk_loop draw i a v p fin = Inr os \<Longrightarrow> p \<le> fin \<Longrightarrow> chain p os fin"
proof (induction draw i a v p fin arbitrary: os rule: chunk_loop.induct)
  case (1 draw i a v p fin)
  obtain rand_len where r: "randrange (draw i) 0 (v * 2 + 1) = Inr rand_len"
    using "1.prems"(1) by (subst (asm) chunk_loop.simps) (auto split: sum.splits)
  let ?e = "p + max (a + (rand_len - v)) 1"
  have lt: "p \<le> min ?e fin" using "1.prems"(2) by simp
  show ?case
  proof (cases "fin \<le> min ?e fin")
    case True
    then show ?thesis using "1.prems" r by (subst (asm) chunk_loop.simps) (auto simp: Let_def)
  next
    case False
    then obtain os' where os': "chunk_loop draw (Suc i) a v (min ?e fin) fin = Inr os'" "os = p # min ?e fin # os'"
      using "1.prems"(1) r by (subst (asm) (1) chunk_loop.simps) (auto simp: Let_def rmap_def split: sum.splits)
    have c: "chain (min ?e fin) os' fin" using "1.IH" [OF r refl refl False os'(1)] by simp
    then obtain x xs where "os' = x # xs" by (cases os') auto
    then show ?thesis using c os'(2) lt by simp
  qed
qed

lemma slicer_data:
  assumes "slicer_chunk draw a v 0 (int (length msg)) = Inr os"
  shows "concat (slices msg os) = msg"
proof -
  have "chain 0 os (int (length msg))"
    using assms by (auto simp: slicer_chunk_def rbind_eq_Ok intro: chunk_loop_chain split: if_splits)
  from chain_slices [OF this] show ?thesis by (simp add: slice_def)
qed

lemma slicer_sends: "acts_data pause = [] \<Longrightarrow> acts_data (concat (map (\<lambda>c. pause @ [ActSend c]) cs)) = concat cs"
  by (induction cs) simp_all

definition only_delays :: "toxic \<Rightarrow> bool" where
  "only_delays t =
     (case tx_kind t of
        ToxicLatency _ _ \<Rightarrow> True | ToxicBandwidthLimit _ \<Rightarrow> True | ToxicSlowClose _ _ \<Rightarrow> True | ToxicSlicer _ _ _ \<Rightarrow> True
      | _ \<Rightarrow> False)"

definition run_keeps :: "bytes \<Rightarrow> dest_pipe \<Rightarrow> tox_ret \<Rightarrow> dest_pipe \<Rightarrow> bool" where
  "run_keeps msg d r d' =
     (case r of
        Inr (Some (None, _)) \<Rightarrow> sent_data d' = sent_data d @ msg
      | Inr (Some (Some m, keep)) \<Rightarrow> m = msg \<and> keep \<and> sent_data d' = sent_data d
      | _ \<Rightarrow> sent_data d' = sent_data d)"

lemma latency_keeps: "latency_run env l j msg d = (r, d') \<Longrightarrow> run_keeps msg d r d'"
  by (auto simp: latency_run_def run_keeps_def Let_def split: sum.splits)

lemma slow_close_keeps: "slow_close_run ms b msg d = (r, d') \<Longrightarrow> run_keeps msg d r d'"
  by (auto simp: slow_close_run_def run_keeps_def split: if_splits)

lemma slicer_keeps:
  assumes "slicer_run env a v delay msg d = (r, d')"
  shows "run_keeps msg d r d'"
proof (cases "slicer_chunk (te_slice env) a v 0 (int (length msg))")
  case (Inl e)
  then show ?thesis using assms by (auto simp: slicer_run_def run_keeps_def)
next
  case os: (Inr os)
  let ?p = "if json_truth delay then rmap (\<lambda>x. [ActSleep (x / 1000)]) (json_num delay) else Ok []"
  show ?thesis
  proof (cases ?p)
    case (Inl e)
    then show ?thesis using assms os by (auto simp: slicer_run_def run_keeps_def split del: if_split)
  next
    case pause: (Inr pause)
    have "acts_data pause = []" using pause by (cases "json_num delay") (auto split: if_splits)
    then show ?thesis
      using assms os pause slicer_data [OF os] slicer_sends [of pause "slices msg os"]
      by (auto simp: slicer_run_def run_keeps_def split del: if_split)
  qed
qed

lemma toxic_run_keeps:
  assumes "only_delays t" and "toxic_run env t msg d = Some (r, t', d')"
  shows "run_keeps msg d r d' \<and> only_delays t'"
proof (cases "tx_kind t")
  case (ToxicLatency l j)
  then show ?thesis using assms latency_keeps [of env l j msg d] by (auto simp: toxic_run_def Let_def split: prod.splits)
next
  case (ToxicBandwidthLimit rate)
  then show ?thesis using assms bandwidth_data by (auto simp: toxic_run_def run_keeps_def)
next
  case (ToxicSlowClose ms b)
  then show ?thesis using assms slow_close_keeps [of ms b msg d]
    by (auto simp: toxic_run_def only_delays_def Let_def split: prod.splits)
next
  case (ToxicSlicer a v delay)
  then show ?thesis using assms slicer_keeps [of env a v delay msg d] by (auto simp: toxic_run_def Let_def split: prod.splits)
qed (use assms(1) in \<open>simp_all add: only_delays_def\<close>)

text \<open>Only a bandwidth limit depends on how many polls are looked at.\<close>

lemma runs_polls:
  "latency_run (env\<lparr>te_fuel := n\<rparr>) = latency_run env"
  "timeout_run (env\<lparr>te_fuel := n\<rparr>) = timeout_run env"
  "reset_peer_run (env\<lparr>te_fuel := n\<rparr>) = reset_peer_run env"
  "slicer_run (env\<lparr>te_fuel := n\<rparr>) = slicer_run env"
  unfolding latency_run_def timeout_run_def reset_peer_run_def slicer_run_def fun_eq_iff
  by (simp_all add: Let_def cong: option.case_cong prod.case_cong sum.case_cong)

lemma toxic_run_polls:
  assumes "\<And>rate. tx_kind t \<noteq> ToxicBandwidthLimit rate"
  shows "\<exists>r t' d'. \<forall>n. toxic_run (env\<lparr>te_fuel := n\<rparr>) t msg d = Some (r, t', d')"
proof (cases "tx_kind t")
  case (ToxicBandwidthLimit rate)
  then show ?thesis using assms by blast
qed (auto simp: toxic_run_def runs_polls Let_def split: prod.splits)


section \<open>Whether a bandwidth limit lets a message through\<close>

lemma get_bandwidth_zero [simp]: "get_bandwidth fuel 0 others i n = Some (0, i)"
  by (simp add: get_bandwidth.simps)

lemma get_bandwidth_grant:
  "get_bandwidth fuel r others i n = Some (bw, j) \<Longrightarrow> r \<noteq> 0 \<Longrightarrow> \<exists>k < j. others k < r \<and> bw = min n (r - others k) \<and> i \<le> k \<and> j = Suc k"
proof (induction fuel r others i n rule: get_bandwidth.induct)
  case (1 fuel r others i n)
  show ?case
  proof (cases fuel)
    case 0
    then show ?thesis using "1.prems" by (simp add: get_bandwidth.simps [of 0])
  next
    case (Suc f)
    show ?thesis
    proof (cases "0 < r - others i")
      case True
      then show ?thesis using "1.prems" Suc by (auto simp: get_bandwidth.simps [of "Suc f"])
    next
      case False
      then have "get_bandwidth f r others (Suc i) n = Some (bw, j)"
        using "1.prems" Suc by (simp add: get_bandwidth.simps [of "Suc f"])
      then show ?thesis using "1.IH" [OF "1.prems"(2) Suc refl False] "1.prems"(2) by auto
    qed
  qed
qed

lemma get_bandwidth_ends:
  assumes "others k < r" and "r \<noteq> 0" and "k - i < fuel" and "i \<le> k"
  shows "\<exists>bw j. get_bandwidth fuel r others i n = Some (bw, j)"
  using assms(3,4)
proof (induction fuel arbitrary: i)
  case (Suc f)
  show ?case
  proof (cases "0 < r - others i")
    case True
    then show ?thesis by (simp add: get_bandwidth.simps [of "Suc f"])
  next
    case False
    then have "i \<noteq> k" using assms(1) by auto
    then show ?thesis using Suc.IH [of "Suc i"] Suc.prems False assms(2) by (simp add: get_bandwidth.simps [of "Suc f"])
  qed
qed simp

lemma get_bandwidth_more: "get_bandwidth f r others i n = Some x \<Longrightarrow> f \<le> g \<Longrightarrow> get_bandwidth g r others i n = Some x"
proof (induction f r others i n arbitrary: g rule: get_bandwidth.induct)
  case (1 f r others i n)
  show ?case
  proof (cases "r = 0 \<or> f = 0")
    case True
    then show ?thesis using "1.prems" by (simp add: get_bandwidth.simps [of f] get_bandwidth.simps [of g] split: if_splits)
  next
    case False
    then obtain f' g' where fg: "f = Suc f'" "g = Suc g'" "f' \<le> g'" using "1.prems"(2) by (cases f; cases g) auto
    show ?thesis
    proof (cases "0 < r - others i")
      case True
      then show ?thesis using "1.prems"(1) fg False by (simp add: get_bandwidth.simps [of "Suc f'"] get_bandwidth.simps [of "Suc g'"])
    next
      case no: False
      have "get_bandwidth f' r others (Suc i) n = Some x"
        using "1.prems"(1) fg False no by (simp add: get_bandwidth.simps [of "Suc f'"])
      then have "get_bandwidth g' r others (Suc i) n = Some x" using "1.IH" [of f' "r - others i" g'] False fg no by simp
      then show ?thesis using fg False no by (simp add: get_bandwidth.simps [of "Suc g'"])
    qed
  qed
qed

lemma bandwidth_run_more: "bandwidth_run f r others i msg = Some acts \<Longrightarrow> f \<le> g \<Longrightarrow> bandwidth_run g r others i msg = Some acts"
proof (induction f r others i msg arbitrary: g acts rule: bandwidth_run.induct)
  case (3 f r others i b msg)
  obtain g' where g: "g = Suc g'" "f \<le> g'" using "3.prems"(2) by (cases g) auto
  obtain bw j where bw: "get_bandwidth f r others i (int (length (b # msg))) = Some (bw, j)"
    using "3.prems"(1) by (auto split: option.splits)
  obtain rest where rest: "bandwidth_run f r others j (drop (nat bw) (b # msg)) = Some rest"
    using "3.prems"(1) bw by auto
  have "bandwidth_run g' r others j (drop (nat bw) (b # msg)) = Some rest"
    by (rule "3.IH" [OF bw refl rest g(2)])
  then show ?case using "3.prems"(1) bw rest get_bandwidth_more [OF bw g(2)] g(1) by simp
qed simp_all

text \<open>A limit lets every message through as long as other coroutines keep leaving something of it.\<close>

lemma bandwidth_ends:
  assumes "\<forall>i. \<exists>k \<ge> i. others k < r" and "0 < r"
  shows "\<exists>fuel acts. bandwidth_run fuel r others i msg = Some acts"
proof (induction "length msg" arbitrary: msg i rule: less_induct)
  case less
  show ?case
  proof (cases msg)
    case (Cons b bs)
    obtain k where k: "i \<le> k" "others k < r" using assms(1) by blast
    obtain f bw j where g: "get_bandwidth f r others i (int (length (b # bs))) = Some (bw, j)"
      using get_bandwidth_ends [of others k r i "Suc (k - i)" "int (length (b # bs))"] k assms(2) by auto
    then have "0 < nat bw" using get_bandwidth_grant [OF g] assms(2) by auto
    then have "length (drop (nat bw) (b # bs)) < length msg" using Cons by simp
    from less [OF this] obtain f' acts where f': "bandwidth_run f' r others j (drop (nat bw) (b # bs)) = Some acts" by blast
    let ?m = "max f f'"
    have "get_bandwidth ?m r others i (int (length (b # bs))) = Some (bw, j)" by (rule get_bandwidth_more [OF g]) simp
    moreover have "bandwidth_run ?m r others j (drop (nat bw) (b # bs)) = Some acts" by (rule bandwidth_run_more [OF f']) simp
    ultimately have "bandwidth_run (Suc ?m) r others i msg \<noteq> None" using Cons by simp
    then show ?thesis by blast
  qed auto
qed

lemma bandwidth_zero: "bandwidth_run fuel 0 others i (b # msg) = None"
  by (induction fuel arbitrary: i) simp_all

lemma limit_sends:
  assumes "tx_kind t = ToxicBandwidthLimit rate" and "0 < rate" and "\<forall>i. \<exists>j \<ge> i. te_others env j < rate"
  shows "\<exists>fuel d'. sent_data d' = sent_data d @ msg \<and>
    (\<forall>n \<ge> fuel. toxic_run (env\<lparr>te_fuel := n\<rparr>) t msg d = Some (Ok (Some (None, True)), t, d'))"
proof -
  obtain fuel acts where run: "bandwidth_run fuel rate (te_others env) 0 msg = Some acts"
    using bandwidth_ends [OF assms(3,2)] by blast
  have "toxic_run (env\<lparr>te_fuel := n\<rparr>) t msg d = Some (Ok (Some (None, True)), t, dest_do acts d)" if "fuel \<le> n" for n
    using bandwidth_run_more [OF run that] assms(1) by (simp add: toxic_run_def)
  moreover have "sent_data (dest_do acts d) = sent_data d @ msg" using bandwidth_data [OF run] by simp
  ultimately show ?thesis by blast
qed

text \<open>
  Toxics that only delay, whose toxicity is a number and whose bandwidth limits are positive and are left something of
  again and again by the other coroutines.
\<close>

definition passable :: "(nat \<Rightarrow> tox_env) \<Rightarrow> toxic \<Rightarrow> bool" where
  "passable env t =
     (only_delays t \<and> (\<exists>pct. toxicity_pct (tx_toxicity t) = Ok pct) \<and>
      (\<forall>rate. tx_kind t = ToxicBandwidthLimit rate \<longrightarrow> 0 < rate \<and> (\<forall>k i. \<exists>j \<ge> i. te_others (env k) j < rate)))"

lemma should_run_ends: "toxicity_pct (tx_toxicity t) = Ok pct \<Longrightarrow> \<exists>run. should_run roll t = Inr run"
  by (simp add: should_run_def randrange_def)

definition polls :: "(nat \<Rightarrow> tox_env) \<Rightarrow> nat \<Rightarrow> nat \<Rightarrow> tox_env" where
  "polls env n k = (env k)\<lparr>te_fuel := n\<rparr>"

text \<open>A message that goes on after a toxic, and one that a toxic has sent.\<close>

definition goes_through :: "(nat \<Rightarrow> tox_env) \<Rightarrow> nat \<Rightarrow> toxic list \<Rightarrow> bytes \<Rightarrow> dest_pipe \<Rightarrow> bool" where
  "goes_through env k ts msg d =
     (\<exists>fuel ts' d'. sent_data d' = sent_data d @ msg \<and>
       (\<forall>n \<ge> fuel. toxic_router (polls env n) k ts msg d = Some (Ok (), ts', d')))"

lemma goes_throughI:
  assumes "goes_through env k' ts msg d1" and "sent_data d1 = sent_data d"
    and "\<And>n. toxic_router (polls env n) k (t # ts) msg d =
      map_option (\<lambda>(r, ts', d''). (r, t' # ts', d'')) (toxic_router (polls env n) k' ts msg d1)"
  shows "goes_through env k (t # ts) msg d"
proof -
  obtain fuel ts' d' where g: "sent_data d' = sent_data d @ msg"
      "\<forall>n \<ge> fuel. toxic_router (polls env n) k' ts msg d1 = Some (Ok (), ts', d')"
    using assms(1,2) unfolding goes_through_def by auto
  then have "\<forall>n \<ge> fuel. toxic_router (polls env n) k (t # ts) msg d = Some (Ok (), t' # ts', d')" using assms(3) by simp
  then show ?thesis using g(1) unfolding goes_through_def by blast
qed

lemma router_sends: "\<forall>t \<in> set ts. passable env t \<Longrightarrow> goes_through env k ts msg d"
proof (induction ts arbitrary: k d)
  case Nil
  show ?case unfolding goes_through_def
    by (intro exI conjI allI impI) (rule sent_data_simps(1) [THEN trans], simp_all)
next
  case (Cons t ts k d)
  have IH: "goes_through env (Suc k) ts msg d1" for d1 using Cons by simp
  have ok: "only_delays t" "\<exists>pct. toxicity_pct (tx_toxicity t) = Ok pct"
    and rate: "tx_kind t = ToxicBandwidthLimit rate \<Longrightarrow> 0 < rate \<and> (\<forall>i. \<exists>j \<ge> i. te_others (env k) j < rate)" for rate
    using Cons.prems by (auto simp: passable_def)
  have kind: "tx_kind t \<noteq> BaseToxic" using ok(1) by (auto simp: only_delays_def)
  obtain run where run: "should_run (te_roll (env k)) t = Inr run" using ok(2) should_run_ends by blast
  show ?case
  proof (cases "run")
    case False
    then show ?thesis using run by (intro goes_throughI [OF IH [of d], where t' = t]) (simp_all add: polls_def)
  next
    case True
    then have go: "should_run (te_roll (env k)) t = Inr True" using run by simp
    show ?thesis
    proof (cases "\<exists>rate. tx_kind t = ToxicBandwidthLimit rate")
      case True
      then obtain r where "tx_kind t = ToxicBandwidthLimit r" by blast
      from limit_sends [OF this, of "env k" d msg] rate [OF this] obtain fuel d' where
        "sent_data d' = sent_data d @ msg"
        "\<forall>n \<ge> fuel. toxic_run ((env k)\<lparr>te_fuel := n\<rparr>) t msg d = Some (Ok (Some (None, True)), t, d')" by blast
      moreover from this(2) have "\<forall>n \<ge> fuel. toxic_router (polls env n) k (t # ts) msg d = Some (Ok (), t # ts, d')"
        using go kind by (simp add: polls_def)
      ultimately show ?thesis unfolding goes_through_def by blast
    next
      case False
      then obtain r t' d1 where x: "\<forall>n. toxic_run ((env k)\<lparr>te_fuel := n\<rparr>) t msg d = Some (r, t', d1)"
        using toxic_run_polls by blast
      have keeps: "run_keeps msg d r d1" using toxic_run_keeps [OF ok(1)] x by blast
      show ?thesis
      proof (cases "\<exists>b. r = Inr (Some (None, b))")
        case True
        then have "\<forall>n \<ge> 0. toxic_router (polls env n) k (t # ts) msg d = Some (Ok (), t' # ts, d1)" "sent_data d1 = sent_data d @ msg"
          using go kind x keeps by (auto simp: polls_def run_keeps_def)
        then show ?thesis unfolding goes_through_def by blast
      next
        case False
        then have "sent_data d1 = sent_data d"
            "\<And>n. toxic_router (polls env n) k (t # ts) msg d =
              map_option (\<lambda>(r, ts', d''). (r, t' # ts', d'')) (toxic_router (polls env n) (Suc k) ts msg d1)"
          using go kind x keeps by (auto simp: polls_def run_keeps_def split: sum.splits option.splits prod.splits bool.splits)
        then show ?thesis by (rule goes_throughI [OF IH])
      qed
    qed
  qed
qed

section \<open>One bandwidth for many messages\<close>

text \<open>
  The coroutines that run one bandwidth toxic at once: what each still has to send and what it holds of the rate. Their
  work is made of grants, a poll of \<open>get_bandwidth\<close> that finds something, and of ends of sending what was granted;
  besides, new messages come.
\<close>

record bw_state =
  bw_used :: int
  bw_tasks :: "(int \<times> int) list"

inductive bw_work :: "int \<Rightarrow> bw_state \<Rightarrow> bw_state \<Rightarrow> bool" for rate_ms where
  bw_grant: "i < length (bw_tasks s) \<Longrightarrow> bw_tasks s ! i = (n, 0) \<Longrightarrow> 0 < n \<Longrightarrow> rate_ms \<noteq> 0 \<Longrightarrow>
    get_bandwidth 1 rate_ms (\<lambda>_. bw_used s) 0 n = Some (bw, j) \<Longrightarrow>
    bw_work rate_ms s (s\<lparr>bw_used := bw_used s + bw, bw_tasks := (bw_tasks s)[i := (n, bw)]\<rparr>)"
| bw_sent: "i < length (bw_tasks s) \<Longrightarrow> bw_tasks s ! i = (n, bw) \<Longrightarrow> 0 < bw \<Longrightarrow>
    bw_work rate_ms s (s\<lparr>bw_used := bw_used s - bw, bw_tasks := (bw_tasks s)[i := (n - bw, 0)]\<rparr>)"

inductive bw_reach :: "int \<Rightarrow> bw_state \<Rightarrow> bool" for rate_ms where
  bw_init: "bw_reach rate_ms \<lparr>bw_used = 0, bw_tasks = []\<rparr>"
| bw_start: "bw_reach rate_ms s \<Longrightarrow> 0 \<le> n \<Longrightarrow> bw_reach rate_ms (s\<lparr>bw_tasks := bw_tasks s @ [(n, 0)]\<rparr>)"
| bw_next: "bw_reach rate_ms s \<Longrightarrow> bw_work rate_ms s s' \<Longrightarrow> bw_reach rate_ms s'"

text \<open>What is left to do: two steps for each byte, less the grants that are out.\<close>

definition bw_left :: "bw_state \<Rightarrow> nat" where
  "bw_left s = sum_list (map (\<lambda>(n, h). 2 * nat n - of_bool (0 < h)) (bw_tasks s))"

definition bw_inv :: "int \<Rightarrow> bw_state \<Rightarrow> bool" where
  "bw_inv rate_ms s =
     (bw_used s = sum_list (map snd (bw_tasks s)) \<and> bw_used s \<le> rate_ms \<and>
      (\<forall>(n, bw) \<in> set (bw_tasks s). 0 \<le> bw \<and> bw \<le> n))"

lemma sum_list_upd: "i < length xs \<Longrightarrow> sum_list (xs[i := x]) = sum_list xs - xs ! i + (x :: int)"
proof (induction xs arbitrary: i)
  case (Cons y ys)
  then show ?case by (cases i) auto
qed simp

lemma sum_list_upd_less: "i < length xs \<Longrightarrow> x < xs ! i \<Longrightarrow> sum_list (xs[i := x]) < sum_list (xs :: nat list)"
proof (induction xs arbitrary: i)
  case (Cons y ys)
  then show ?case by (cases i) auto
qed simp

lemma poll_once: "r \<noteq> 0 \<Longrightarrow> get_bandwidth 1 r (\<lambda>_. u) 0 n = (if u < r then Some (min n (r - u), 1) else None)"
  by (simp add: get_bandwidth.simps)

lemma bw_work_inv: "bw_work r s s' \<Longrightarrow> bw_inv r s \<Longrightarrow> bw_inv r s'"
proof (induction rule: bw_work.induct)
  case (bw_grant i s n bw j)
  have bw: "bw = min n (r - bw_used s)" "bw_used s < r"
    using bw_grant.hyps(4,5) poll_once [of r "bw_used s" n] by (auto split: if_splits)
  have "sum_list (map snd ((bw_tasks s)[i := (n, bw)])) = sum_list (map snd (bw_tasks s)) + bw"
    using bw_grant.hyps(1,2) by (simp add: map_update sum_list_upd)
  moreover have "\<forall>(m, h) \<in> set ((bw_tasks s)[i := (n, bw)]). 0 \<le> h \<and> h \<le> m"
    using bw_grant.prems bw bw_grant.hyps(3) set_update_subset_insert [of "bw_tasks s" i "(n, bw)"] by (auto simp: bw_inv_def)
  ultimately show ?case using bw_grant.prems bw unfolding bw_inv_def by auto
next
  case (bw_sent i s n bw)
  have m: "(n, bw) \<in> set (bw_tasks s)" using bw_sent.hyps(1,2) nth_mem by metis
  have "sum_list (map snd ((bw_tasks s)[i := (n - bw, 0)])) = sum_list (map snd (bw_tasks s)) - bw"
    using bw_sent.hyps(1,2) by (simp add: map_update sum_list_upd)
  moreover have "\<forall>(m, h) \<in> set ((bw_tasks s)[i := (n - bw, 0)]). 0 \<le> h \<and> h \<le> m"
    using bw_sent.prems m set_update_subset_insert [of "bw_tasks s" i "(n - bw, 0)"] by (fastforce simp: bw_inv_def)
  ultimately show ?case using bw_sent.prems bw_sent.hyps(3) unfolding bw_inv_def by auto
qed

lemma bw_reach_inv: "bw_reach r s \<Longrightarrow> 0 \<le> r \<Longrightarrow> bw_inv r s"
proof (induction rule: bw_reach.induct)
  case bw_init
  then show ?case by (simp add: bw_inv_def)
next
  case (bw_start s n)
  then show ?case by (auto simp: bw_inv_def)
next
  case (bw_next s s')
  then show ?case using bw_work_inv by blast
qed

lemma bw_work_less: "bw_work r s s' \<Longrightarrow> bw_inv r s \<Longrightarrow> bw_left s' < bw_left s"
proof (induction rule: bw_work.induct)
  case (bw_grant i s n bw j)
  have "0 < bw" using bw_grant.hyps(3,4,5) poll_once [of r "bw_used s" n] by (auto split: if_splits)
  then show ?case using bw_grant.hyps(1,2,3) by (simp add: bw_left_def map_update) (intro sum_list_upd_less; simp)
next
  case (bw_sent i s n bw)
  have "(n, bw) \<in> set (bw_tasks s)" using bw_sent.hyps(1,2) nth_mem by metis
  then have "bw \<le> n" using bw_sent.prems by (auto simp: bw_inv_def)
  then show ?case using bw_sent.hyps by (simp add: bw_left_def map_update) (intro sum_list_upd_less; simp)
qed

lemma sum_list_held:
  "\<forall>(n, h) \<in> set ts. 0 \<le> h \<and> h \<le> (n :: int) \<Longrightarrow> 0 \<le> sum_list (map snd ts)"
  by (induction ts) auto

lemma sum_list_none: "\<forall>(n, h) \<in> set ts. h = 0 \<Longrightarrow> sum_list (map snd ts) = (0 :: int)"
  by (induction ts) auto

text \<open>While anything is left to send, some coroutine can go on with its own message.\<close>

lemma bw_goes_on:
  assumes "bw_inv r s" and "0 < r" and "(n, h) \<in> set (bw_tasks s)" and "0 < n"
  shows "\<exists>s'. bw_work r s s'"
proof (cases "\<exists>(m, k) \<in> set (bw_tasks s). 0 < k")
  case True
  then obtain m k where "(m, k) \<in> set (bw_tasks s)" "0 < k" by blast
  then obtain i where i: "i < length (bw_tasks s)" "bw_tasks s ! i = (m, k)" "0 < k" by (metis in_set_conv_nth)
  show ?thesis by (rule exI, rule bw_sent [OF i])
next
  case False
  then have z: "\<forall>(m, k) \<in> set (bw_tasks s). k = 0" using assms(1) by (fastforce simp: bw_inv_def)
  then have h: "h = 0" using assms(3) by blast
  have "sum_list (map snd (bw_tasks s)) = 0" using z by (rule sum_list_none)
  then have u: "bw_used s < r" using assms(1,2) by (simp add: bw_inv_def)
  obtain i where i: "i < length (bw_tasks s)" "bw_tasks s ! i = (n, 0)" using assms(3) h by (metis in_set_conv_nth)
  have "get_bandwidth 1 r (\<lambda>_. bw_used s) 0 n = Some (min n (r - bw_used s), 1)" using poll_once [of r] assms(2) u by simp
  from bw_grant [OF i assms(4) _ this] assms(2) show ?thesis by blast
qed

text \<open>So every message is sent in the end, and nothing is held then.\<close>

definition bw_idle :: "bw_state \<Rightarrow> bool" where
  "bw_idle s = (bw_used s = 0 \<and> (\<forall>t \<in> set (bw_tasks s). t = (0, 0)))"

lemma bw_idle_or_works: "bw_inv r s \<Longrightarrow> 0 < r \<Longrightarrow> bw_idle s \<or> (\<exists>s'. bw_work r s s')"
proof (cases "\<exists>t \<in> set (bw_tasks s). 0 < fst t")
  case True
  assume "bw_inv r s" "0 < r"
  then show ?thesis using True bw_goes_on by fastforce
next
  case False
  assume i: "bw_inv r s"
  then have z: "\<forall>(n, h) \<in> set (bw_tasks s). n = 0 \<and> h = 0" using False by (fastforce simp: bw_inv_def)
  then have "sum_list (map snd (bw_tasks s)) = 0" by (intro sum_list_none) auto
  then show ?thesis using i z by (auto simp: bw_idle_def bw_inv_def)
qed

lemma bw_completes: "bw_inv r s \<Longrightarrow> 0 < r \<Longrightarrow> \<exists>s'. (bw_work r)\<^sup>*\<^sup>* s s' \<and> bw_idle s'"
proof (induction "bw_left s" arbitrary: s rule: less_induct)
  case less
  show ?case
  proof (cases "bw_idle s")
    case False
    then obtain s1 where s1: "bw_work r s s1" using bw_idle_or_works less.prems by blast
    from less.hyps [OF bw_work_less [OF s1 less.prems(1)] bw_work_inv [OF s1 less.prems(1)] less.prems(2)]
    show ?thesis using s1 converse_rtranclp_into_rtranclp by metis
  qed auto
qed

section \<open>Tunnels and their clients\<close>

datatype tunnel_event = ClientUp nat | ClientEnd nat

fun tunnel_step :: "tunnel_event \<Rightarrow> tunnel \<Rightarrow> tunnel" where
  "tunnel_step (ClientUp c) tn = up_cb c tn"
| "tunnel_step (ClientEnd c) tn = client_ended c tn"

lemma fold_end_cb:
  "tn_clients (fold end_cb cs tn) = fold remove1 cs (tn_clients tn)"
  "tn_end_cbs (fold end_cb cs tn) = tn_end_cbs tn"
  by (induction cs arbitrary: tn) (simp_all add: end_cb_def)

lemma mset_fold_remove1: "mset (fold remove1 ys xs) = mset xs - mset ys"
  by (induction ys arbitrary: xs) (simp_all add: mset_remove1)

lemma tunnel_events_watched:
  "mset (tn_clients (fold tunnel_step evs (ToxiTunnelServer name))) \<subseteq>#
   mset (tn_end_cbs (fold tunnel_step evs (ToxiTunnelServer name)))"
proof (induction evs rule: rev_induct)
  case (snoc ev evs)
  then show ?case
    by (cases ev) (auto simp: up_cb_def client_ended_def fold_end_cb mset_fold_remove1 intro: subset_mset.trans [OF diff_subset_eq_self])
qed (simp add: ToxiTunnelServer_def)

lemma end_drops_all:
  assumes "mset (tn_clients tn) \<subseteq># mset (tn_end_cbs tn)"
  shows "tn_clients (client_ended c tn) = []"
proof -
  have "mset (tn_clients (client_ended c tn)) = {#}"
    using assms by (simp add: client_ended_def fold_end_cb mset_fold_remove1 Diff_eq_empty_iff_mset)
  then show ?thesis by simp
qed


text \<open>A slow close applies to the first pipe the toxic sees; afterwards its run does nothing.\<close>

lemma slow_close_once:
  assumes "tx_kind t = ToxicSlowClose ms False" and "toxic_run env t msg d = Some (r, t', d')"
  shows "dp_slow d' = Some ms \<and> toxic_run env' t' msg' e = Some (Ok (Some (Some msg', True)), t', e)"
  using assms by (auto simp: toxic_run_def slow_close_run_def)

text \<open>What comes after a toxic that sends by itself is not run.\<close>

lemma sender_ends_chain:
  assumes "should_run (te_roll (env k)) t = Inr True"
    and "tx_kind t = ToxicSlicer a v dl \<or> tx_kind t = ToxicBandwidthLimit rate"
    and "toxic_run (env k) t msg d = Some (Inr x, t', d')"
  shows "toxic_router env k (t # ts) msg d = Some (Ok (), t' # ts, d')"
proof -
  have "x = Some (None, True)"
    using assms(2,3) by (auto simp: toxic_run_def slicer_run_def Let_def split: sum.splits)
  then show ?thesis using assms by auto
qed

section \<open>Properties\<close>

text \<open>C7: toxics that only delay or cut a message let it through: led through any latency, bandwidth, slow close and
slicer toxics, whatever the draws and the times, a message is sent after finitely many polls, completely, once and in
order, and nothing is raised. The toxicities must be numbers, and the limits positive with something left of them by
other messages again and again; a limit of zero bytes never lets go of a message (\<open>zero_rate_never_ends\<close>).\<close>

theorem toxics_keep_data:
  assumes "\<forall>t \<in> set ts. passable env t"
  shows "\<exists>fuel ts' d'. sent_data d' = sent_data d @ msg \<and>
    (\<forall>n \<ge> fuel. toxic_router (\<lambda>k. (env k)\<lparr>te_fuel := n\<rparr>) k ts msg d = Some (Ok (), ts', d'))"
proof -
  have "polls env n = (\<lambda>k. (env k)\<lparr>te_fuel := n\<rparr>)" for n by (rule ext) (simp add: polls_def)
  then show ?thesis using router_sends [OF assms, of k msg d] unfolding goes_through_def by simp
qed

definition ex_tox_env :: tox_env where
  "ex_tox_env = \<lparr>te_roll = 0, te_jitter = 0, te_sign = False, te_now = 0, te_linger = Ok (), te_slice = (\<lambda>i. i), te_others = (\<lambda>_. 0), te_fuel = 5\<rparr>"

definition ex_dest :: dest_pipe where
  "ex_dest = \<lparr>dp_acts = [], dp_slow = None, dp_hook = False\<rparr>"

definition ex_latency :: toxic where
  "ex_latency = \<lparr>tx_name = ''l'', tx_stream = JStr ''upstream'', tx_toxicity = JInt 1, tx_kind = ToxicLatency (JInt 10) (JInt 0)\<rparr>"

definition ex_limit :: toxic where
  "ex_limit = \<lparr>tx_name = ''b'', tx_stream = JStr ''upstream'', tx_toxicity = JInt 1, tx_kind = ToxicBandwidthLimit 2\<rparr>"

lemma ex_passable: "\<forall>t \<in> set [ex_latency, ex_limit]. passable (\<lambda>_. ex_tox_env) t"
  by (auto simp: passable_def only_delays_def ex_latency_def ex_limit_def ex_tox_env_def toxicity_pct_def json_num_def)

theorem toxics_keep_data_witness:
  "\<exists>n ts' d'. toxic_router (\<lambda>_. ex_tox_env\<lparr>te_fuel := n\<rparr>) 0 [ex_latency, ex_limit] [1, 2, 3] ex_dest = Some (Ok (), ts', d') \<and>
    sent_data d' = [1, 2, 3]"
proof -
  have "sent_data ex_dest = []" by (simp add: sent_data_def ex_dest_def)
  then show ?thesis using toxics_keep_data [OF ex_passable, of ex_dest "[1, 2, 3]" 0] by (metis append_Nil order_refl)
qed

text \<open>C8: however many messages share a positive bandwidth limit, whenever they come and however their steps
interleave, what they hold together is what the counter says and never exceeds the rate; as long as the messages that
are there are not all sent, one of them can take a step of its own, and every such step leaves less to do, so that they
are all sent after finitely many steps, without a new message, and nothing is held then.\<close>

theorem shared_bandwidth:
  assumes "bw_reach rate_ms s" and "0 < rate_ms"
  shows "bw_used s = sum_list (map snd (bw_tasks s)) \<and> 0 \<le> bw_used s \<and> bw_used s \<le> rate_ms \<and>
    (bw_idle s \<or> (\<exists>s'. bw_work rate_ms s s')) \<and>
    (\<forall>s'. bw_work rate_ms s s' \<longrightarrow> bw_left s' < bw_left s) \<and>
    (\<exists>s'. (bw_work rate_ms)\<^sup>*\<^sup>* s s' \<and> bw_idle s')"
proof -
  have i: "bw_inv rate_ms s" using bw_reach_inv [OF assms(1)] assms(2) by simp
  then have "0 \<le> bw_used s" using sum_list_held by (simp add: bw_inv_def)
  then show ?thesis
    using i bw_idle_or_works [OF i assms(2)] bw_work_less [OF _ i] bw_completes [OF i assms(2)] unfolding bw_inv_def by blast
qed

theorem shared_bandwidth_witness:
  "bw_used \<lparr>bw_used = 5, bw_tasks = [(9, 5), (3, 0)]\<rparr> = 5 + 0 \<and>
   (\<exists>s'. bw_work 5 \<lparr>bw_used = 5, bw_tasks = [(9, 5), (3, 0)]\<rparr> s') \<and>
   (\<exists>s'. (bw_work 5)\<^sup>*\<^sup>* \<lparr>bw_used = 5, bw_tasks = [(9, 5), (3, 0)]\<rparr> s' \<and> bw_idle s')"
proof -
  have "bw_reach 5 \<lparr>bw_used = 0, bw_tasks = [(9, 0)]\<rparr>" using bw_start [OF bw_init, of 9 5] by simp
  then have "bw_reach 5 \<lparr>bw_used = 0, bw_tasks = [(9, 0), (3, 0)]\<rparr>" using bw_start [of 5 _ 3] by fastforce
  moreover have "bw_work 5 \<lparr>bw_used = 0, bw_tasks = [(9, 0), (3, 0)]\<rparr> \<lparr>bw_used = 5, bw_tasks = [(9, 5), (3, 0)]\<rparr>"
    using bw_grant [of 0 "\<lparr>bw_used = 0, bw_tasks = [(9, 0), (3, 0)]\<rparr>" 9 5 5 1] poll_once [of 5 0 9] by simp
  ultimately have r: "bw_reach 5 \<lparr>bw_used = 5, bw_tasks = [(9, 5), (3, 0)]\<rparr>" by (rule bw_next)
  show ?thesis using shared_bandwidth [OF r] by (simp add: bw_idle_def)
qed

text \<open>With a rate of zero, which is meant to be no limit, a bandwidth toxic never lets go of a message: it sends empty
pieces for as long as one looks, so neither the message nor anything after it arrives.\<close>

theorem zero_rate_never_ends: "bandwidth_run fuel 0 others i (b # msg) = None"
  by (rule bandwidth_zero)

text \<open>C14: when one client of a tunnel goes away, the tunnel forgets all of them: whatever came and went before, what
upstream sends afterwards is relayed to nobody, until another client connects.\<close>

theorem client_end_stops_relay:
  "map_option snd (upstream_msg_cb env msg pipes (client_ended c (fold tunnel_step evs (ToxiTunnelServer name)))) = Some pipes"
proof -
  have "tn_clients (client_ended c (fold tunnel_step evs (ToxiTunnelServer name))) = []"
    by (rule end_drops_all [OF tunnel_events_watched])
  then show ?thesis by (simp add: upstream_msg_cb_def)
qed

text \<open>A toxic of a type the server does not know breaks its direction of the tunnel: the message is lost and the
client that sent it is never read from again.\<close>

theorem unknown_toxic_pauses:
  assumes "tn_upstream tn = Some up" and "tn_up_toxics tn = (nm, t) # ts" and "tx_kind t = BaseToxic"
    and "should_run (te_roll (env 0)) t = Ok True"
  shows "\<exists>tn'. tunnel_msg_cb env msg c tn = Some (Err AttributeError, tn') \<and> tn_upstream tn' = Some up \<and> c \<in> set (tn_paused tn')"
  using assms by (auto simp: tunnel_msg_cb_def)

theorem unknown_toxic_pauses_witness:
  "\<exists>tn'. tunnel_msg_cb (\<lambda>_. ex_tox_env) [7] 3
      ((ToxiTunnelServer ''t'')\<lparr>tn_upstream := Some ex_dest, tn_up_toxics := [(''x'', ex_latency\<lparr>tx_kind := BaseToxic\<rparr>)]\<rparr>) =
    Some (Err AttributeError, tn') \<and> tn_upstream tn' = Some ex_dest \<and> 3 \<in> set (tn_paused tn')"
  by (rule unknown_toxic_pauses [of _ _ "''x''" "ex_latency\<lparr>tx_kind := BaseToxic\<rparr>" "[]"])
    (simp_all add: should_run_def toxicity_pct_def json_num_def py_trunc_def randrange_def ex_latency_def ex_tox_env_def)

end
