(* ===== verification/Toxi_Server.thy ===== *)
theory Toxi_Server
  imports Toxics Rest_Api Connect
begin

text \<open>
  The main server of \<^verbatim>\<open>protocol/toxiproxy/toxiserver.py\<close> with its routes, and the client of \<^verbatim>\<open>toxiclient.py\<close> that
  calls them. Binding, listening, connecting upstream and the clock are the environment. Names are texts; a name
  that is another JSON value is outside the model and counts as an error.
\<close>

section \<open>The server\<close>

text \<open>Its tunnels by name, each with the port it listens on, and all ports that are open.\<close>

record toxi_main =
  tm_tunnels :: "(string \<times> tunnel \<times> int) list"
  tm_listeners :: "int list"

record toxi_env =
  xe_bind :: "string \<Rightarrow> int option \<Rightarrow> unit res"
  xe_listen :: "string \<Rightarrow> int option \<Rightarrow> int res"
  xe_supported :: "af list list"
  xe_connect :: "json \<Rightarrow> string \<times> string \<Rightarrow> nat \<Rightarrow> dest_pipe option res"
  xe_now :: rat

text \<open>\<open>j[key]\<close> for the body of a request.\<close>

definition json_item :: "string \<Rightarrow> json \<Rightarrow> json res" where
  "json_item k j = (case j of JObj ms \<Rightarrow> dict_get k ms | _ \<Rightarrow> Err TypeError)"

definition body_json :: "rest_body \<Rightarrow> json res" where
  "body_json b = (case b of JsonBody j \<Rightarrow> Ok j | RawBody _ \<Rightarrow> Err TypeError)"

definition body_item :: "string \<Rightarrow> rest_body \<Rightarrow> json res" where
  "body_item k b = rbind (body_json b) (json_item k)"

definition json_text :: "json \<Rightarrow> string res" where
  "json_text j = (case j of JStr s \<Rightarrow> Ok s | _ \<Rightarrow> Err TypeError)"

definition toxi_error :: "string \<Rightarrow> rest_out" where
  "toxi_error s = OutJson (JObj [(''error'', JStr s)])"

definition show_version :: rest_out where
  "show_version =
     OutJson (JObj [(''title'', JStr ''Toxid''), (''author'', JStr ''Matthew@Roberts.PM''), (''version'', JStr ''1.0.0''),
       (''error'', JInt 0)])"

text \<open>The pattern of an address and a port: everything up to the last colon, and digits to the end of the text.\<close>

definition addr_pattern :: "string \<Rightarrow> (string \<times> string) res" where
  "addr_pattern s =
     (let s = (if s \<noteq> [] \<and> List.last s = CHR 10 then butlast s else s);
          port = takeWhile (\<lambda>c. c \<noteq> CHR '':'') (rev s);
          ip = drop (Suc (length port)) (rev s)
      in if length port < length s \<and> ip \<noteq> [] \<and> port \<noteq> [] \<and> list_all (is_digit 10) port then Ok (rev ip, rev port)
         else Err IndexError)"

definition tunnel_close :: "tunnel \<times> int \<Rightarrow> toxi_main \<Rightarrow> toxi_main" where
  "tunnel_close t m = m\<lparr>tm_listeners := remove1 (snd t) (tm_listeners m)\<rparr>"

definition close_tunnel_server :: "rest_v \<Rightarrow> toxi_main \<Rightarrow> rest_out res \<times> toxi_main" where
  "close_tunnel_server v m =
     (case dict_get ''proxies'' (rv_name v) of
        Inl e \<Rightarrow> (Err e, m)
      | Inr tunnel_name \<Rightarrow>
          (case map_of (tm_tunnels m) tunnel_name of
             None \<Rightarrow> (Ok (toxi_error ''tunnel name not found.''), m)
           | Some t \<Rightarrow>
               (let m = tunnel_close t m
                in (Ok (OutJson (JObj [(''name'', JStr tunnel_name), (''enabled'', JBool False), (''toxics'', JArr [])])),
                    m\<lparr>tm_tunnels := dict_del tunnel_name (tm_tunnels m)\<rparr>))))"

definition port_text :: "int option \<Rightarrow> string" where
  "port_text p = (case p of None \<Rightarrow> ''None'' | Some n \<Rightarrow> int_str n)"

text \<open>The interface that supports the family of the destination: the last of those that do.\<close>

definition pick_interface :: "af \<Rightarrow> af list list \<Rightarrow> nat option" where
  "pick_interface af ifs = (case filter (\<lambda>i. af \<in> set (ifs ! i)) [0..<length ifs] of [] \<Rightarrow> None | is \<Rightarrow> Some (List.last is))"

definition TCP_PROTO :: int where "TCP_PROTO = 1"

text \<open>What follows a successful bind: the destination, an interface for it, and the upstream pipe.\<close>

definition open_upstream :: "toxi_env \<Rightarrow> rest_body \<Rightarrow> (string \<times> string \<times> dest_pipe) res + rest_out" where
  "open_upstream env j =
     (case rbind (body_item ''upstream'' j) (\<lambda>u. rbind (json_text u) addr_pattern) of
        Inl IndexError \<Rightarrow> Inr (toxi_error ''upstream create tunnel field malformed.'')
      | Inl e \<Rightarrow> Inl (Err e)
      | Inr (dip, dport) \<Rightarrow>
          (case IPRange (IpStr dip) None (Some CIDR_WAN) of
             Inl e \<Rightarrow> Inl (Err e)
           | Inr dest_ipr \<Rightarrow>
               (case pick_interface (ipr_af dest_ipr) (xe_supported env) of
                  None \<Rightarrow> Inr (toxi_error ''no interfaces for that address family.'')
                | Some use_if \<Rightarrow>
                    (case rbind (body_json j) (jget ''proto'' (JInt TCP_PROTO)) of
                       Inl e \<Rightarrow> Inl (Err e)
                     | Inr prot \<Rightarrow>
                         (case xe_connect env prot (dip, dport) use_if of
                            Inl e \<Rightarrow> Inr (toxi_error (''upstream res failure '' @ dip @ '':'' @ dport))
                          | Inr None \<Rightarrow> Inr (toxi_error (''upstream failure '' @ dip @ '':'' @ dport))
                          | Inr (Some up) \<Rightarrow> Inl (Ok (dip, dport, up)))))))"

definition create_tunnel_server :: "toxi_env \<Rightarrow> rest_v \<Rightarrow> toxi_main \<Rightarrow> rest_out res \<times> toxi_main" where
  "create_tunnel_server env v m =
     (let j = rv_body v in
      case body_item ''enabled'' j of
        Inl e \<Rightarrow> (Err e, m)
      | Inr enabled \<Rightarrow>
          if jeq_int enabled 0 then close_tunnel_server v m
          else case rbind (body_item ''listen'' j) (\<lambda>l. rbind (json_text l) (\<lambda>s. rbind (addr_pattern s) (\<lambda>(ip, port).
                 rmap (\<lambda>n. (ip, if n = 0 then None else Some n)) (py_int 10 port)))) of
            Inl e \<Rightarrow> (Ok (toxi_error ''did not find listen details for create tunnel.''), m)
          | Inr (bind_ip, bind_port) \<Rightarrow>
              (case rbind (xe_bind env bind_ip bind_port) (\<lambda>_. rbind (body_item ''name'' j) (\<lambda>n. rbind (json_text n) (\<lambda>name.
                     rmap (Pair name) (xe_listen env bind_ip bind_port)))) of
                 Inl e \<Rightarrow> (Ok (toxi_error (''cant bind to '' @ bind_ip @ '':'' @ port_text bind_port)), m)
               | Inr (name, port) \<Rightarrow>
                   (let m = m\<lparr>tm_listeners := tm_listeners m @ [port]\<rparr> in
                    case open_upstream env j of
                      Inr out \<Rightarrow> (Ok out, m)
                    | Inl (Inl e) \<Rightarrow> (Err e, m)
                    | Inl (Inr (dip, dport, up)) \<Rightarrow>
                        (let m = m\<lparr>tm_tunnels := dict_set name (set_upstream up (ToxiTunnelServer name), port) (tm_tunnels m)\<rparr>
                         in (rbind (body_item ''upstream'' j) (\<lambda>u.
                             rbind (rbind (body_json j) (jget ''proto'' (JInt TCP_PROTO))) (\<lambda>p.
                             rmap (\<lambda>prot. OutJson (JObj [(''name'', JStr name), (''listen'', JStr (bind_ip @ '':'' @ int_str port)),
                               (''upstream'', u), (''proto'', JInt prot), (''enabled'', JBool True), (''toxics'', JArr [])]))
                               (jint p))), m)))))"

text \<open>A toxic by its type, with the attributes the type reads; an unknown type makes a bare toxic.\<close>

definition ms_seconds :: "json \<Rightarrow> rat option res" where
  "ms_seconds ms = (if json_truth ms then rmap (\<lambda>x. Some (x / 1000)) (json_num ms) else Ok None)"

definition toxic_of :: "rat \<Rightarrow> json \<Rightarrow> json \<Rightarrow> toxic_kind res" where
  "toxic_of now type attrs =
     (if type = JStr ''slow_close'' then rmap (\<lambda>d. ToxicSlowClose d False) (json_item ''delay'' attrs)
      else if type = JStr ''bandwidth'' then
        rbind (json_item ''rate'' attrs) (\<lambda>r. rmap (\<lambda>x. ToxicBandwidthLimit (py_trunc (x * 1024 / 10))) (json_num r))
      else if type = JStr ''timeout'' then
        rbind (json_item ''timeout'' attrs) (\<lambda>t. rmap (ToxicTimeout now) (ms_seconds t))
      else if type = JStr ''slicer'' then
        rbind (json_item ''average_size'' attrs) (\<lambda>a. rbind (json_item ''size_variation'' attrs) (\<lambda>v.
        rmap (ToxicSlicer a v) (json_item ''delay'' attrs)))
      else if type = JStr ''latency'' then
        rbind (json_item ''latency'' attrs) (\<lambda>l. rmap (ToxicLatency l) (json_item ''jitter'' attrs))
      else if type = JStr ''reset'' then
        rbind (json_item ''timeout'' attrs) (\<lambda>t. rmap (ToxicResetPeer now) (ms_seconds t))
      else if type = JStr ''limit_data'' then rmap (\<lambda>n. ToxicLimitData n 0) (json_item ''bytes'' attrs)
      else Ok BaseToxic)"

definition put_toxic :: "toxic \<Rightarrow> tunnel \<Rightarrow> tunnel" where
  "put_toxic t tn =
     (if tx_stream t = JStr ''upstream'' then tn\<lparr>tn_up_toxics := dict_set (tx_name t) t (tn_up_toxics tn)\<rparr>
      else tn\<lparr>tn_down_toxics := dict_set (tx_name t) t (tn_down_toxics tn)\<rparr>)"

definition add_new_toxic :: "toxi_env \<Rightarrow> rest_v \<Rightarrow> toxi_main \<Rightarrow> rest_out res \<times> toxi_main" where
  "add_new_toxic env v m =
     (let j = rv_body v in
      case rbind (body_item ''attributes'' j) (\<lambda>attrs. rmap (Pair attrs) (dict_get ''proxies'' (rv_name v))) of
        Inl e \<Rightarrow> (Err e, m)
      | Inr (attrs, proxy_name) \<Rightarrow>
          (case map_of (tm_tunnels m) proxy_name of
             None \<Rightarrow> (Ok (toxi_error ''tunnel name not found''), m)
           | Some (serv, port) \<Rightarrow>
               (case rbind (body_item ''name'' j) json_text of
                  Inl e \<Rightarrow> (Err e, m)
                | Inr name \<Rightarrow>
                    if get_toxic name serv \<noteq> None then (Ok (toxi_error ''toxic name already exists.''), m)
                    else case rbind (body_item ''stream'' j) (\<lambda>stream. rbind (body_item ''toxicity'' j) (\<lambda>toxicity.
                           rbind (body_item ''type'' j) (\<lambda>type. rmap (\<lambda>kind.
                             \<lparr>tx_name = name, tx_stream = stream, tx_toxicity = toxicity, tx_kind = kind\<rparr>) (toxic_of (xe_now env) type attrs)))) of
                      Inl e \<Rightarrow> (Err e, m)
                    | Inr toxic \<Rightarrow>
                        (rmap OutJson (body_json j), m\<lparr>tm_tunnels := dict_set proxy_name (put_toxic toxic serv, port) (tm_tunnels m)\<rparr>))))"

definition drop_toxic :: "string \<Rightarrow> tunnel \<Rightarrow> tunnel" where
  "drop_toxic name tn =
     (case get_toxic name tn of
        None \<Rightarrow> tn
      | Some True \<Rightarrow> tn\<lparr>tn_up_toxics := dict_del name (tn_up_toxics tn)\<rparr>
      | Some False \<Rightarrow> tn\<lparr>tn_down_toxics := dict_del name (tn_down_toxics tn)\<rparr>)"

definition del_new_toxic :: "rest_v \<Rightarrow> toxi_main \<Rightarrow> rest_out res \<times> toxi_main" where
  "del_new_toxic v m =
     (case rbind (dict_get ''proxies'' (rv_name v)) (\<lambda>p. rmap (Pair p) (dict_get ''toxics'' (rv_name v))) of
        Inl e \<Rightarrow> (Err e, m)
      | Inr (proxy_name, toxic_name) \<Rightarrow>
          (Ok (OutBytes []),
           case map_of (tm_tunnels m) proxy_name of
             None \<Rightarrow> m
           | Some (serv, port) \<Rightarrow> m\<lparr>tm_tunnels := dict_set proxy_name (drop_toxic toxic_name serv, port) (tm_tunnels m)\<rparr>))"

definition toxi_close :: "toxi_main \<Rightarrow> toxi_main" where
  "toxi_close m = fold (\<lambda>(_, t). tunnel_close t) (tm_tunnels m) m"

datatype toxi_handler = ShowVersion | CreateTunnel | AddToxic | DelToxic

definition toxi_posts :: "toxi_handler rest_api list" where
  "toxi_posts =
     [\<lparr>ra_handler = AddToxic, ra_args = [[''proxies''], [''toxics'']]\<rparr>, \<lparr>ra_handler = CreateTunnel, ra_args = [[''proxies'']]\<rparr>]"

definition toxi_apis :: "(string \<times> toxi_handler rest_api list) list" where
  "toxi_apis =
     [(''GET'', [\<lparr>ra_handler = ShowVersion, ra_args = [[''version'']]\<rparr>]), (''POST'', toxi_posts),
      (''DELETE'', [\<lparr>ra_handler = DelToxic, ra_args = [[''proxies''], [''toxics'']]\<rparr>])]"

definition toxi_call :: "toxi_env \<Rightarrow> toxi_handler \<Rightarrow> rest_v \<Rightarrow> toxi_main \<Rightarrow> rest_out res \<times> toxi_main" where
  "toxi_call env h v m =
     (case h of
        ShowVersion \<Rightarrow> (Ok show_version, m)
      | CreateTunnel \<Rightarrow> create_tunnel_server env v m
      | AddToxic \<Rightarrow> add_new_toxic env v m
      | DelToxic \<Rightarrow> del_new_toxic v m)"


section \<open>The client\<close>

text \<open>A toxic as the client builds it: every call works on a copy.\<close>

record toxi_toxic =
  xt_toxicity :: json
  xt_direction :: json
  xt_name :: string
  xt_body :: "json option"

definition ToxiToxic :: "json \<Rightarrow> string \<Rightarrow> toxi_toxic" where
  "ToxiToxic toxicity name = \<lparr>xt_toxicity = toxicity, xt_direction = JNull, xt_name = name, xt_body = None\<rparr>"

definition toxi_copy :: "toxi_toxic \<Rightarrow> toxi_toxic" where
  "toxi_copy t =
     \<lparr>xt_toxicity = xt_toxicity t, xt_direction = xt_direction t, xt_name = xt_name t, xt_body = xt_body t\<rparr>"

definition downstream :: "toxi_toxic \<Rightarrow> toxi_toxic" where
  "downstream t = (toxi_copy t)\<lparr>xt_direction := JStr ''downstream''\<rparr>"

definition upstream :: "toxi_toxic \<Rightarrow> toxi_toxic" where
  "upstream t = (toxi_copy t)\<lparr>xt_direction := JStr ''upstream''\<rparr>"

definition toxi_api :: "toxi_toxic \<Rightarrow> (string \<times> json) list \<Rightarrow> json" where
  "toxi_api t j =
     JObj (dict_set ''toxicity'' (xt_toxicity t) (dict_set ''stream'' (xt_direction t) (dict_set ''name'' (JStr (xt_name t)) j)))"

definition toxi_body :: "string \<Rightarrow> (string \<times> json) list \<Rightarrow> toxi_toxic \<Rightarrow> toxi_toxic" where
  "toxi_body type attrs t = (toxi_copy t)\<lparr>xt_body := Some (toxi_api t [(''type'', JStr type), (''attributes'', JObj attrs)])\<rparr>"

definition add_latency :: "json \<Rightarrow> json \<Rightarrow> toxi_toxic \<Rightarrow> toxi_toxic" where
  "add_latency ms jitter = toxi_body ''latency'' [(''latency'', ms), (''jitter'', jitter)]"

definition add_bandwidth_limit :: "json \<Rightarrow> toxi_toxic \<Rightarrow> toxi_toxic" where
  "add_bandwidth_limit KBs = toxi_body ''bandwidth'' [(''rate'', KBs)]"

definition add_slow_close :: "json \<Rightarrow> toxi_toxic \<Rightarrow> toxi_toxic" where
  "add_slow_close ms = toxi_body ''slow_close'' [(''delay'', ms)]"

definition add_timeout :: "json \<Rightarrow> toxi_toxic \<Rightarrow> toxi_toxic" where
  "add_timeout ms = toxi_body ''timeout'' [(''timeout'', ms)]"

definition add_reset_peer :: "json \<Rightarrow> toxi_toxic \<Rightarrow> toxi_toxic" where
  "add_reset_peer ms = toxi_body ''reset'' [(''timeout'', ms)]"

definition add_limit_data :: "json \<Rightarrow> toxi_toxic \<Rightarrow> toxi_toxic" where
  "add_limit_data n = toxi_body ''limit_data'' [(''bytes'', n)]"

definition add_slicer :: "json \<Rightarrow> json \<Rightarrow> json \<Rightarrow> toxi_toxic \<Rightarrow> toxi_toxic" where
  "add_slicer n v ug = toxi_body ''slicer'' [(''average_size'', n), (''size_variation'', v), (''delay'', ug)]"

text \<open>A tunnel as the client knows it. A reply is its status line, if there was one, and its content.\<close>

record toxi_tunnel =
  xn_name :: string
  xn_ip :: string
  xn_port :: int
  xn_toxics :: "toxi_toxic list"

type_synonym toxi_resp = "string option \<times> bytes"

definition toxics_path :: "toxi_tunnel \<Rightarrow> string" where
  "toxics_path tn = ''/proxies/'' @ xn_name tn @ ''/toxics''"

definition new_toxic :: "(string \<Rightarrow> json option \<Rightarrow> toxi_resp) \<Rightarrow> toxi_toxic \<Rightarrow> toxi_tunnel \<Rightarrow> toxi_tunnel res" where
  "new_toxic post toxic tn =
     (let resp = post (toxics_path tn) (xt_body toxic)
      in rbind (rassert (fst resp \<noteq> None)) (\<lambda>_. rbind (rassert (\<not> has_part (to_b ''error'') (snd resp))) (\<lambda>_.
         Ok (tn\<lparr>xn_toxics := xn_toxics tn @ [toxic]\<rparr>))))"

definition remove_toxic :: "(string \<Rightarrow> toxi_resp) \<Rightarrow> toxi_toxic \<Rightarrow> toxi_tunnel \<Rightarrow> toxi_tunnel res" where
  "remove_toxic delete toxic tn =
     (let resp = delete (toxics_path tn @ CHR ''/'' # xt_name toxic)
      in rbind (rassert (fst resp \<noteq> None)) (\<lambda>_. rbind (rassert (snd resp = [])) (\<lambda>_.
         if toxic \<in> set (xn_toxics tn) then Ok (tn\<lparr>xn_toxics := remove1 toxic (xn_toxics tn)\<rparr>) else Err ValueError)))"

text \<open>The record of tunnels the client keeps, and closing one.\<close>

definition toxi_tunnel_close ::
  "(string \<Rightarrow> json \<Rightarrow> toxi_resp) \<Rightarrow> toxi_tunnel \<Rightarrow> toxi_tunnel list \<Rightarrow> (bytes \<times> toxi_tunnel list) res" where
  "toxi_tunnel_close post tn tunnels =
     (let resp = post (''/proxies/'' @ xn_name tn) (JObj [(''enabled'', JBool False)])
      in rbind (rassert (fst resp \<noteq> None)) (\<lambda>_.
         if tn \<in> set tunnels then Ok (snd resp, remove1 tn tunnels) else Err ValueError))"

text \<open>Asking for a tunnel, and finding the port in the reply: digits after the first occurrence of the address and a colon.\<close>

definition new_tunnel_body :: "string \<Rightarrow> string \<Rightarrow> string \<times> int \<Rightarrow> int \<Rightarrow> json" where
  "new_tunnel_body listen_ip name addr prot =
     JObj [(''name'', JStr name), (''listen'', JStr (listen_ip @ '':0'')),
           (''upstream'', JStr (fst addr @ '':'' @ int_str (snd addr))), (''proto'', JInt prot), (''enabled'', JBool True)]"

fun find_port :: "string \<Rightarrow> string \<Rightarrow> string res" where
  "find_port pat [] = Err IndexError"
| "find_port pat (c # cs) =
     (let digits = takeWhile (is_digit 10) (drop (length pat) (c # cs))
      in if take (length pat) (c # cs) = pat \<and> digits \<noteq> [] then Ok digits else find_port pat cs)"

definition new_tunnel_reply :: "string \<Rightarrow> string \<Rightarrow> toxi_resp \<Rightarrow> toxi_tunnel list \<Rightarrow> (toxi_tunnel \<times> toxi_tunnel list) res" where
  "new_tunnel_reply listen_ip name resp tunnels =
     rbind (rassert (fst resp \<noteq> None)) (\<lambda>_. rbind (rassert (\<not> has_part (to_b ''error'') (snd resp))) (\<lambda>_.
       case rbind (find_port (listen_ip @ '':'') (to_s (snd resp))) (py_int 10) of
         Inl IndexError \<Rightarrow> Err (PyException ''Server new tunnel invalid resp'')
       | Inl e \<Rightarrow> Err e
       | Inr bind_port \<Rightarrow>
           (let tn = \<lparr>xn_name = name, xn_ip = listen_ip, xn_port = bind_port, xn_toxics = []\<rparr> in Ok (tn, tunnels @ [tn]))))"

section \<open>What the client asks for\<close>

datatype toxi_ask =
    AskLatency json json | AskBandwidth json | AskSlowClose json | AskTimeout json | AskReset json | AskLimit json
  | AskSlicer json json json

fun toxi_add :: "toxi_ask \<Rightarrow> toxi_toxic \<Rightarrow> toxi_toxic" where
  "toxi_add (AskLatency ms jitter) = add_latency ms jitter"
| "toxi_add (AskBandwidth rate) = add_bandwidth_limit rate"
| "toxi_add (AskSlowClose ms) = add_slow_close ms"
| "toxi_add (AskTimeout ms) = add_timeout ms"
| "toxi_add (AskReset ms) = add_reset_peer ms"
| "toxi_add (AskLimit n) = add_limit_data n"
| "toxi_add (AskSlicer n v ug) = add_slicer n v ug"

fun asked_kind :: "rat \<Rightarrow> toxi_ask \<Rightarrow> toxic_kind res" where
  "asked_kind now (AskLatency ms jitter) = Ok (ToxicLatency ms jitter)"
| "asked_kind now (AskBandwidth rate) = rmap (\<lambda>x. ToxicBandwidthLimit (py_trunc (x * 1024 / 10))) (json_num rate)"
| "asked_kind now (AskSlowClose ms) = Ok (ToxicSlowClose ms False)"
| "asked_kind now (AskTimeout ms) = rmap (ToxicTimeout now) (ms_seconds ms)"
| "asked_kind now (AskReset ms) = rmap (ToxicResetPeer now) (ms_seconds ms)"
| "asked_kind now (AskLimit n) = Ok (ToxicLimitData n 0)"
| "asked_kind now (AskSlicer n v ug) = Ok (ToxicSlicer n v ug)"

lemmas add_defs = add_latency_def add_bandwidth_limit_def add_slow_close_def add_timeout_def add_reset_peer_def
  add_limit_data_def add_slicer_def toxi_body_def toxi_copy_def toxi_api_def

text \<open>The body of every kind has the fields the server reads.\<close>

lemma asked_body:
  "\<exists>type attrs. xt_body (toxi_add ask t) = Some (JObj [(''type'', type), (''attributes'', attrs), (''name'', JStr (xt_name t)),
      (''stream'', xt_direction t), (''toxicity'', xt_toxicity t)]) \<and> toxic_of now type attrs = asked_kind now ask"
  by (cases ask) (simp_all add: add_defs toxic_of_def json_item_def dict_get_def)

lemma proxy_segments:
  assumes "n \<noteq> []" and "CHR ''/'' \<notin> set n"
  shows "path_segments (''/proxies/'' @ n @ ''/toxics'') = [''proxies'', n, ''toxics'']"
proof -
  have "path_text [''proxies'', n, ''toxics''] = ''/proxies/'' @ n @ ''/toxics''" by (simp add: path_text_def)
  moreover have "path_segments (path_text [''proxies'', n, ''toxics'']) = [''proxies'', n, ''toxics'']"
    unfolding path_text_def using assms by (intro path_segments_join) auto
  ultimately show ?thesis by simp
qed

lemma toxics_route:
  assumes "n \<noteq> []" and "CHR ''/'' \<notin> set n" and "n \<noteq> ''proxies''" and "n \<noteq> ''toxics''"
  shows "match_apis rx (''/proxies/'' @ n @ ''/toxics'') False 100 None toxi_posts =
    (Inr (Some (AddToxic, [(''proxies'', n), (''toxics'', ''toxics'')], [])), toxi_posts)"
  using proxy_segments [OF assms(1,2)] assms(3,4)
  by (simp add: toxi_posts_def api_route_def rmap_def scheme_keep_def scheme_value_def Let_def)

lemma get_toxic_put:
  assumes "get_toxic (tx_name t) tn = None"
  shows "get_toxic (tx_name t) (put_toxic t tn) = Some (tx_stream t = JStr ''upstream'')"
    and "map_of ((if tx_stream t = JStr ''upstream'' then tn_up_toxics else tn_down_toxics) (put_toxic t tn)) (tx_name t) = Some t"
  using assms by (auto simp: get_toxic_def put_toxic_def dict_set_fst split: if_splits)

section \<open>The port of a new tunnel\<close>

lemma int_str_digits: "0 \<le> n \<Longrightarrow> int_str n \<noteq> [] \<and> list_all (is_digit 10) (int_str n)"
  by (simp add: int_str_def num_str_digits)

lemma py_int_str: "0 \<le> n \<Longrightarrow> py_int 10 (int_str n) = Inr n"
  using py_int_num_str [of 10 "nat n"] by (simp add: int_str_def)

lemma digit_not: "is_digit 10 c \<Longrightarrow> c \<noteq> CHR '':'' \<and> c \<noteq> CHR 10 \<and> esc_char c = [c]"
proof -
  assume d: "is_digit 10 c"
  then have n: "c \<notin> {CHR '':'', CHR 10, CHR 34, CHR 92, CHR 8, CHR 12, CHR 13, CHR 9}"
    by (auto simp: is_digit_def digit_val_def Let_def split: if_splits)
  have "32 \<le> (of_char c :: nat) \<and> of_char c \<le> (126 :: nat)"
    using d by (auto simp: is_digit_def digit_val_def Let_def split: if_splits)
  then show ?thesis using n by (simp add: esc_char_def short_escapes_def)
qed

lemma esc_colon: "esc_char CHR '':'' = [CHR '':'']"
  by (simp add: esc_char_def short_escapes_def)

lemma esc_plain: "\<forall>c \<in> set s. esc_char c = [c] \<Longrightarrow> concat (map esc_char s) = s"
  by (induction s) auto

lemma addr_pattern_join:
  assumes "ip \<noteq> []" and "port \<noteq> []" and "list_all (is_digit 10) port"
  shows "addr_pattern (ip @ CHR '':'' # port) = Ok (ip, port)"
proof -
  have d: "c \<noteq> CHR '':'' \<and> c \<noteq> CHR 10" if "c \<in> set port" for c using assms(3) that digit_not by (auto simp: list_all_iff)
  have "List.last (ip @ CHR '':'' # port) \<noteq> CHR 10" using assms(2) d [OF last_in_set] by simp
  moreover have "takeWhile (\<lambda>c. c \<noteq> CHR '':'') (rev (ip @ CHR '':'' # port)) = rev port"
    using takeWhile_append2 [of "rev port" "\<lambda>c. c \<noteq> CHR '':''" "CHR '':'' # rev ip"] d by simp
  ultimately show ?thesis using assms by (simp add: addr_pattern_def Let_def)
qed

text \<open>In the text before the value of \<open>listen\<close> no colon is followed by a digit, so nothing is found there.\<close>

fun colon_ok :: "string \<Rightarrow> bool" where
  "colon_ok (a # b # r) = (\<not> (a = CHR '':'' \<and> is_digit 10 b) \<and> colon_ok (b # r))"
| "colon_ok _ = True"

lemma colon_ok_nth: "colon_ok xs \<Longrightarrow> Suc i < length xs \<Longrightarrow> \<not> (xs ! i = CHR '':'' \<and> is_digit 10 (xs ! Suc i))"
proof (induction xs arbitrary: i rule: colon_ok.induct)
  case (1 a b r)
  then show ?case by (cases i) auto
qed simp_all

lemma find_port_skip:
  assumes "q \<notin> set ip" and "q \<noteq> CHR '':''"
  shows "colon_ok pre \<Longrightarrow> pre = [] \<or> List.last pre = q \<Longrightarrow> find_port (ip @ '':'') (pre @ X) = find_port (ip @ '':'') X"
proof (induction pre)
  case (Cons c cs)
  let ?pat = "ip @ '':''" and ?n = "Suc (length ip)"
  let ?digits = "takeWhile (is_digit 10) (drop ?n ((c # cs) @ X))"
  have no: "\<not> (take ?n ((c # cs) @ X) = ?pat \<and> ?digits \<noteq> [])"
  proof
    assume h: "take ?n ((c # cs) @ X) = ?pat \<and> ?digits \<noteq> []"
    show False
    proof (cases "length (c # cs) \<le> ?n")
      case True
      then have "take ?n ((c # cs) @ X) = (c # cs) @ take (?n - length (c # cs)) X" by (simp only: take_append take_all)
      then have "set (c # cs) \<subseteq> set ?pat" using h by (metis set_append sup_ge1)
      moreover have "q \<in> set (c # cs)" using Cons.prems(2) last_in_set [of "c # cs"] by auto
      ultimately show False using assms by auto
    next
      case False
      then have lt: "?n < length (c # cs)" by simp
      then have "drop ?n ((c # cs) @ X) = (c # cs) ! ?n # drop (Suc ?n) (c # cs) @ X"
        using Cons_nth_drop_Suc [OF lt] by simp
      then have "is_digit 10 ((c # cs) ! ?n)" using h by (auto split: if_splits)
      moreover have "(c # cs) ! length ip = CHR '':''"
      proof -
        have "take ?n (c # cs) = ?pat" using h lt by simp
        then have "take ?n (c # cs) ! length ip = CHR '':''" by (simp add: nth_append)
        then show ?thesis using nth_take [of "length ip" ?n "c # cs"] by (simp only: lessI)
      qed
      ultimately show False using colon_ok_nth [OF Cons.prems(1), of "length ip"] lt by simp
    qed
  qed
  have "colon_ok cs" using Cons.prems(1) by (cases cs) auto
  moreover have "cs = [] \<or> List.last cs = q" using Cons.prems(2) by (auto split: if_splits)
  ultimately have "find_port ?pat (cs @ X) = find_port ?pat X" by (rule Cons.IH)
  then show ?case using no by (auto simp: Let_def)
qed simp

lemma find_port_here:
  assumes "port \<noteq> []" and "list_all (is_digit 10) port" and "\<not> is_digit 10 c"
  shows "find_port (ip @ '':'') (ip @ CHR '':'' # port @ c # X) = Ok port"
proof -
  obtain y ys where y: "ip @ CHR '':'' # port @ c # X = y # ys" by (cases "ip @ CHR '':'' # port @ c # X") auto
  have "takeWhile (is_digit 10) (port @ c # X) = port" using assms(2,3) by (simp add: takeWhile_append2 list_all_iff)
  moreover have "drop (length (ip @ '':'')) (y # ys) = port @ c # X" unfolding y [symmetric] by simp
  moreover have "take (length (ip @ '':'')) (y # ys) = ip @ '':''" unfolding y [symmetric] by simp
  ultimately show ?thesis unfolding y using assms(1) by (simp only: find_port.simps Let_def if_True simp_thms)
qed

definition tunnel_reply :: "string \<Rightarrow> string \<Rightarrow> int \<Rightarrow> json \<Rightarrow> int \<Rightarrow> json" where
  "tunnel_reply name ip port u prot =
     JObj [(''name'', JStr name), (''listen'', JStr (ip @ '':'' @ int_str port)), (''upstream'', u), (''proto'', JInt prot),
       (''enabled'', JBool True), (''toxics'', JArr [])]"

definition listen_head :: string where
  "listen_head = CHR ''{'' # indent 1 @ json_str ''enabled'' @ '': true,'' @ indent 1 @ json_str ''listen'' @ '': '' @ [CHR 34]"

lemma tunnel_reply_sorted:
  "sort_keys u = u \<Longrightarrow> sort_keys (tunnel_reply name ip port u prot) =
      JObj [(''enabled'', JBool True), (''listen'', JStr (ip @ CHR '':'' # int_str port)), (''name'', JStr name), (''proto'', JInt prot),
        (''toxics'', JArr []), (''upstream'', u)]"
  by (simp add: tunnel_reply_def)

lemma tunnel_reply_ascii: "ascii (dumps_indent 0 (sort_keys (tunnel_reply name ip port (JStr u) prot)))"
  using ascii_json_str [unfolded ascii_def] ascii_int_str [unfolded ascii_def]
  by (simp add: tunnel_reply_sorted ascii_def indent_def eval_simps)

lemma tunnel_reply_text:
  assumes "\<forall>c \<in> set ip. esc_char c = [c]" and "0 \<le> port" and "sort_keys u = u"
  shows "\<exists>X. dumps_indent 0 (sort_keys (tunnel_reply name ip port u prot)) = listen_head @ ip @ CHR '':'' # int_str port @ CHR 34 # X"
proof -
  have "\<forall>c \<in> set (ip @ CHR '':'' # int_str port). esc_char c = [c]"
    using assms(1) int_str_digits [OF assms(2)] digit_not esc_colon by (simp add: list_all_iff ball_Un)
  from esc_plain [OF this] have j: "json_str (ip @ CHR '':'' # int_str port) = CHR 34 # (ip @ CHR '':'' # int_str port) @ [CHR 34]"
    by (simp add: json_str_def)
  show ?thesis
    unfolding tunnel_reply_sorted [OF assms(3)] listen_head_def
    by (rule exI [of _ "indent_members 1 [(''name'', JStr name), (''proto'', JInt prot), (''toxics'', JArr []), (''upstream'', u)] @ indent 0 @ ''}''"])
      (simp only: dumps_indent.simps indent_members.simps dumps.simps j append.simps append_assoc if_True add_0 One_nat_def)
qed

lemma colon_ok_head: "colon_ok listen_head \<and> List.last listen_head = CHR 34"
  by (simp add: eval_simps listen_head_def indent_def json_str_def esc_char_def short_escapes_def is_digit_def digit_val_def)

lemma reply_port:
  assumes "\<forall>c \<in> set ip. esc_char c = [c]" and "0 \<le> port" and "sort_keys u = u"
  shows "find_port (ip @ '':'') (dumps_indent 0 (sort_keys (tunnel_reply name ip port u prot))) = Ok (int_str port)"
proof -
  obtain X where X: "dumps_indent 0 (sort_keys (tunnel_reply name ip port u prot)) = listen_head @ ip @ CHR '':'' # int_str port @ CHR 34 # X"
    using tunnel_reply_text [OF assms] by blast
  have "CHR 34 \<notin> set ip" using assms(1) by (auto simp: esc_char_def short_escapes_def)
  from find_port_skip [OF this] colon_ok_head
  have "find_port (ip @ '':'') (listen_head @ ip @ CHR '':'' # int_str port @ CHR 34 # X) =
      find_port (ip @ '':'') (ip @ CHR '':'' # int_str port @ CHR 34 # X)" by simp
  also have "\<dots> = Ok (int_str port)"
    using int_str_digits [OF assms(2)] by (intro find_port_here) (simp_all add: is_digit_def digit_val_def)
  finally show ?thesis using X by simp
qed


text \<open>The server's answer to the request the client makes, when listening and connecting work.\<close>

lemma create_answer:
  assumes "ip \<noteq> []" and "xe_bind env ip None = Ok ()" and "xe_listen env ip None = Ok port"
    and "0 \<le> snd addr" and "fst addr \<noteq> []" and "IPRange (IpStr (fst addr)) None (Some CIDR_WAN) = Ok ipr"
    and "pick_interface (ipr_af ipr) (xe_supported env) = Some k"
    and "xe_connect env (JInt prot) (fst addr, int_str (snd addr)) k = Ok (Some up)"
    and "rv_body v = JsonBody (new_tunnel_body ip name addr prot)"
  shows "create_tunnel_server env v m =
    (Ok (OutJson (tunnel_reply name ip port (JStr (fst addr @ '':'' @ int_str (snd addr))) prot)),
     m\<lparr>tm_listeners := tm_listeners m @ [port],
       tm_tunnels := dict_set name (set_upstream up (ToxiTunnelServer name), port) (tm_tunnels m)\<rparr>)"
proof -
  have z: "addr_pattern (ip @ '':0'') = Ok (ip, ''0'')"
    using addr_pattern_join [OF assms(1), of "''0''"] by (simp add: is_digit_def digit_val_def)
  have p0: "py_int 10 ''0'' = Inr 0" by code_simp
  have u: "addr_pattern (fst addr @ CHR '':'' # int_str (snd addr)) = Ok (fst addr, int_str (snd addr))"
    using addr_pattern_join [OF assms(5)] int_str_digits [OF assms(4)] by blast
  note items = body_item_def body_json_def json_item_def dict_get_def json_text_def new_tunnel_body_def assms(9)
  have up: "open_upstream env (rv_body v) = Inl (Ok (fst addr, int_str (snd addr), up))"
    using assms(6-8) u by (simp add: open_upstream_def items jget_def)
  show ?thesis
    unfolding create_tunnel_server_def Let_def up
    using assms(2,3) z p0 by (simp add: items jeq_int_def jget_def jint_def tunnel_reply_def)
qed

section \<open>What is left behind\<close>

text \<open>A tunnel whose upstream cannot be reached leaves its listener open, with no tunnel to close it by.\<close>

lemma failed_upstream_keeps_listener:
  assumes "ip \<noteq> []" and "xe_bind env ip None = Ok ()" and "xe_listen env ip None = Ok port"
    and "0 \<le> snd addr" and "fst addr \<noteq> []" and "IPRange (IpStr (fst addr)) None (Some CIDR_WAN) = Ok ipr"
    and "pick_interface (ipr_af ipr) (xe_supported env) = Some k"
    and "xe_connect env (JInt prot) (fst addr, int_str (snd addr)) k = Ok None"
    and "rv_body v = JsonBody (new_tunnel_body ip name addr prot)"
  shows "snd (create_tunnel_server env v m) = m\<lparr>tm_listeners := tm_listeners m @ [port]\<rparr>"
proof -
  have z: "addr_pattern (ip @ '':0'') = Ok (ip, ''0'')"
    using addr_pattern_join [OF assms(1), of "''0''"] by (simp add: is_digit_def digit_val_def)
  have p0: "py_int 10 ''0'' = Inr 0" by code_simp
  have u: "addr_pattern (fst addr @ CHR '':'' # int_str (snd addr)) = Ok (fst addr, int_str (snd addr))"
    using addr_pattern_join [OF assms(5)] int_str_digits [OF assms(4)] by blast
  note items = body_item_def body_json_def json_item_def dict_get_def json_text_def new_tunnel_body_def assms(9)
  have up: "\<exists>out. open_upstream env (rv_body v) = Inr out"
    using assms(6-8) u by (simp add: open_upstream_def items jget_def)
  then obtain out where "open_upstream env (rv_body v) = Inr out" by blast
  then show ?thesis
    unfolding create_tunnel_server_def Let_def
    using assms(2,3) z p0 by (simp add: items jeq_int_def jget_def)
qed

text \<open>A direction chosen after the parameters does not reach the request.\<close>

lemma late_direction_lost: "xt_body (upstream (toxi_add ask t)) = xt_body (toxi_add ask t)"
  by (simp add: upstream_def toxi_copy_def)

section \<open>Properties\<close>

text \<open>C11: what the client asks for is what the server installs: the request of every kind of toxic is routed to the
handler of its tunnel, and the tunnel then has a toxic of that name, with the type, the parameters, the toxicity and the
direction the client chose.\<close>

theorem asked_toxic_installed:
  assumes "xn_name cl \<noteq> [] \<and> CHR ''/'' \<notin> set (xn_name cl) \<and> xn_name cl \<noteq> ''proxies'' \<and> xn_name cl \<noteq> ''toxics''"
    and "map_of (tm_tunnels m) (xn_name cl) = Some (tn, port)" and "get_toxic (xt_name t) tn = None"
    and "asked_kind (xe_now env) ask = Ok kind" and "xt_body (toxi_add ask t) = Some body"
  shows "\<exists>named tn' m'. fst (match_apis rx (toxics_path cl) False 100 None toxi_posts) = Ok (Some (AddToxic, named, [])) \<and>
    toxi_call env AddToxic \<lparr>rv_req = req, rv_name = named, rv_pos = [], rv_client = cli, rv_body = JsonBody body\<rparr> m =
      (Ok (OutJson body), m') \<and>
    map_of (tm_tunnels m') (xn_name cl) = Some (tn', port) \<and>
    map_of ((if xt_direction t = JStr ''upstream'' then tn_up_toxics else tn_down_toxics) tn') (xt_name t) =
      Some \<lparr>tx_name = xt_name t, tx_stream = xt_direction t, tx_toxicity = xt_toxicity t, tx_kind = kind\<rparr>"
proof -
  obtain type attrs where b: "body = JObj [(''type'', type), (''attributes'', attrs), (''name'', JStr (xt_name t)),
      (''stream'', xt_direction t), (''toxicity'', xt_toxicity t)]" "toxic_of (xe_now env) type attrs = Ok kind"
    using asked_body [of ask t "xe_now env"] assms(4,5) by auto
  let ?t = "\<lparr>tx_name = xt_name t, tx_stream = xt_direction t, tx_toxicity = xt_toxicity t, tx_kind = kind\<rparr>"
  let ?m = "m\<lparr>tm_tunnels := dict_set (xn_name cl) (put_toxic ?t tn, port) (tm_tunnels m)\<rparr>"
  let ?named = "[(''proxies'', xn_name cl), (''toxics'', ''toxics'')]"
  have r: "fst (match_apis rx (toxics_path cl) False 100 None toxi_posts) = Ok (Some (AddToxic, ?named, []))"
    using toxics_route [of "xn_name cl" rx] assms(1) by (simp add: toxics_path_def)
  have "toxi_call env AddToxic \<lparr>rv_req = req, rv_name = ?named, rv_pos = [], rv_client = cli, rv_body = JsonBody body\<rparr> m =
      (Ok (OutJson body), ?m)"
    using assms(2,3) b
    by (simp add: toxi_call_def add_new_toxic_def body_item_def body_json_def json_item_def dict_get_def json_text_def)
  then show ?thesis using r get_toxic_put(2) [of ?t tn] assms(3) by force
qed


text \<open>C12: client and server agree on a new tunnel: when listening and connecting upstream work, the port the client
takes from the reply is the one the server listens on for the tunnel of that name.\<close>

theorem tunnel_port_agreed:
  assumes "ip \<noteq> [] \<and> (\<forall>c \<in> set ip. esc_char c = [c])" and "xe_bind env ip None = Ok ()" and "xe_listen env ip None = Ok port \<and> 0 \<le> port"
    and "0 \<le> snd addr \<and> fst addr \<noteq> []" and "IPRange (IpStr (fst addr)) None (Some CIDR_WAN) = Ok ipr"
    and "pick_interface (ipr_af ipr) (xe_supported env) = Some k"
    and "xe_connect env (JInt prot) (fst addr, int_str (snd addr)) k = Ok (Some up)"
    and "rv_body v = JsonBody (new_tunnel_body ip name addr prot)"
  shows "\<exists>out m' tn. toxi_call env CreateTunnel v m = (Ok out, m') \<and> map_of (tm_tunnels m') name = Some (tn, port) \<and>
    (case reply_payload out of
       None \<Rightarrow> False
     | Some (buf, content_type) \<Rightarrow>
         \<not> has_part (to_b ''error'') buf \<longrightarrow>
         map_option fst (res_opt (new_tunnel_reply ip name (Some ''200'', buf) cls)) =
           Some \<lparr>xn_name = name, xn_ip = ip, xn_port = port, xn_toxics = []\<rparr>)"
proof -
  let ?u = "JStr (fst addr @ '':'' @ int_str (snd addr))"
  let ?text = "dumps_indent 0 (sort_keys (tunnel_reply name ip port ?u prot))"
  have c: "toxi_call env CreateTunnel v m =
    (Ok (OutJson (tunnel_reply name ip port ?u prot)),
     m\<lparr>tm_listeners := tm_listeners m @ [port],
       tm_tunnels := dict_set name (set_upstream up (ToxiTunnelServer name), port) (tm_tunnels m)\<rparr>)"
    unfolding toxi_call_def toxi_handler.case
    by (rule create_answer [OF conjunct1 [OF assms(1)] assms(2) conjunct1 [OF assms(3)] conjunct1 [OF assms(4)]
          conjunct2 [OF assms(4)] assms(5-8)])
  have t: "to_s (to_b ?text) = ?text" by (rule to_s_to_b [OF tunnel_reply_ascii])
  have f: "find_port (ip @ '':'') ?text = Ok (int_str port)" using reply_port assms(1,3) by simp
  have "new_tunnel_reply ip name (Some ''200'', to_b ?text) cls =
      Ok (\<lparr>xn_name = name, xn_ip = ip, xn_port = port, xn_toxics = []\<rparr>, cls @ [\<lparr>xn_name = name, xn_ip = ip, xn_port = port, xn_toxics = []\<rparr>])"
    if "\<not> has_part (to_b ''error'') (to_b ?text)"
    using that py_int_str assms(3) by (simp add: new_tunnel_reply_def Let_def t [simplified] f [simplified])
  then show ?thesis unfolding c by (simp add: reply_payload_def)
qed


definition ex_toxi_env :: toxi_env where
  "ex_toxi_env = \<lparr>xe_bind = (\<lambda>_ _. Ok ()), xe_listen = (\<lambda>_ _. Ok 9000), xe_supported = [[IP4]],
     xe_connect = (\<lambda>_ _ _. Ok (Some ex_dest)), xe_now = 0\<rparr>"

definition ex_toxi_main :: toxi_main where
  "ex_toxi_main = \<lparr>tm_tunnels = [(''tun'', ToxiTunnelServer ''tun'', 9000)], tm_listeners = [9000]\<rparr>"

definition ex_toxi_req :: "rest_body \<Rightarrow> rest_v" where
  "ex_toxi_req body = \<lparr>rv_req = \<lparr>rq_command = ''POST'', rq_path = ''/proxies'', rq_hdrs = []\<rparr>, rv_name = [(''proxies'', ''proxies'')],
     rv_pos = [], rv_client = (''1.2.3.4'', 5), rv_body = body\<rparr>"

theorem tunnel_port_agreed_witness:
  "\<exists>out m' tn. toxi_call ex_toxi_env CreateTunnel (ex_toxi_req (JsonBody (new_tunnel_body ''127.0.0.1'' ''t'' (''0.0.0.5'', 80) 1))) ex_toxi_main =
      (Ok out, m') \<and> map_of (tm_tunnels m') ''t'' = Some (tn, 9000) \<and>
    (case reply_payload out of
       None \<Rightarrow> False
     | Some (buf, content_type) \<Rightarrow>
         \<not> has_part (to_b ''error'') buf \<longrightarrow>
         map_option fst (res_opt (new_tunnel_reply ''127.0.0.1'' ''t'' (Some ''200'', buf) [])) =
           Some \<lparr>xn_name = ''t'', xn_ip = ''127.0.0.1'', xn_port = 9000, xn_toxics = []\<rparr>)"
proof -
  have a: "ip_str (IPv4Address 5) = ''0.0.0.5''" by (simp add: eval_simps)
  obtain ipr where "IPRange (IpStr ''0.0.0.5'') None (Some CIDR_WAN) = Ok ipr" "ipr_af ipr = IP4"
    using IPRange_wan [of "IPv4Address 5"] unfolding a by (auto simp: ipr_fields_def Let_def ipa_af_def v_to_af_def)
  then show ?thesis
    by (intro tunnel_port_agreed [where ipr = ipr and prot = 1 and k = 0 and up = ex_dest and addr = "(''0.0.0.5'', 80)"])
      (simp_all add: ex_toxi_env_def ex_toxi_req_def pick_interface_def esc_char_def short_escapes_def)
qed

theorem asked_toxic_installed_witness:
  "\<exists>named tn' m'. fst (match_apis (\<lambda>_ _. False) (toxics_path \<lparr>xn_name = ''tun'', xn_ip = ''127.0.0.1'', xn_port = 9000, xn_toxics = []\<rparr>) False 100 None toxi_posts) =
      Ok (Some (AddToxic, named, [])) \<and>
    toxi_call ex_toxi_env AddToxic ((ex_toxi_req (JsonBody (the (xt_body (add_limit_data (JInt 100) (upstream (ToxiToxic (JInt 1) ''cap'')))))))
      \<lparr>rv_name := named\<rparr>) ex_toxi_main =
      (Ok (OutJson (the (xt_body (add_limit_data (JInt 100) (upstream (ToxiToxic (JInt 1) ''cap'')))))), m') \<and>
    map_of (tm_tunnels m') ''tun'' = Some (tn', 9000) \<and>
    map_of (tn_up_toxics tn') ''cap'' =
      Some \<lparr>tx_name = ''cap'', tx_stream = JStr ''upstream'', tx_toxicity = JInt 1, tx_kind = ToxicLimitData (JInt 100) 0\<rparr>"
proof -
  have b: "xt_body (toxi_add (AskLimit (JInt 100)) (upstream (ToxiToxic (JInt 1) ''cap''))) =
      Some (the (xt_body (add_limit_data (JInt 100) (upstream (ToxiToxic (JInt 1) ''cap'')))))"
    by (simp add: add_defs)
  have n: "xt_name (upstream (ToxiToxic (JInt 1) ''cap'')) = ''cap''" "xt_direction (upstream (ToxiToxic (JInt 1) ''cap'')) = JStr ''upstream''"
      "xt_toxicity (upstream (ToxiToxic (JInt 1) ''cap'')) = JInt 1"
    by (simp_all add: upstream_def toxi_copy_def ToxiToxic_def)
  have g: "get_toxic ''cap'' (ToxiTunnelServer ''tun'') = None" by (simp add: get_toxic_def ToxiTunnelServer_def)
  show ?thesis
    using asked_toxic_installed [of "\<lparr>xn_name = ''tun'', xn_ip = ''127.0.0.1'', xn_port = 9000, xn_toxics = []\<rparr>" ex_toxi_main
        "ToxiTunnelServer ''tun''" 9000 "upstream (ToxiToxic (JInt 1) ''cap'')" ex_toxi_env "AskLimit (JInt 100)" "ToxicLimitData (JInt 100) 0" _
        "\<lambda>_ _. False" "\<lparr>rq_command = ''POST'', rq_path = ''/proxies'', rq_hdrs = []\<rparr>" "(''1.2.3.4'', 5)", OF _ _ _ _ b]
    by (simp add: ex_toxi_main_def ex_toxi_req_def n g)
qed

end
