(* ===== verification/Pipe_Open.thy ===== *)
theory Pipe_Open
  imports Addressing Pipe
begin

text \<open>
  \<^verbatim>\<open>net/pipe/pipe_utils.py\<close>: opening a pipe, from what a caller gives as destination and route to the socket,
  the transport and the kind of endpoint, with what is closed when a step fails; and the events of the clients of a TCP
  server. Sockets are those of Bind_Rules, addresses those of Addressing; transports and names are the environment.
\<close>

section \<open>What a caller gives\<close>

definition proto_of :: "int \<Rightarrow> sock_proto option" where
  "proto_of n = (if n = 2 then Some UDP else if n = 1 then Some TCP else if n = 1234 then Some RUDP else None)"

datatype open_ip = OpenText string | OpenInt int | OpenRange iprange
datatype open_dest = DestNone | DestPair open_ip int | DestAddress address | DestDone dest_tup
datatype route_arg = RouteNone | RouteBind bind_obj | RouteNic

record open_env =
  oe_plat :: string
  oe_gai :: "string \<Rightarrow> int \<Rightarrow> bind_tup list res"
  oe_nic_ip :: "string res"
  oe_dns :: "string \<Rightarrow> (af \<times> string) list res"
  oe_fallback :: "string \<Rightarrow> (af \<times> string) list res"
  oe_fuel :: nat
  oe_default_route :: "af option \<Rightarrow> bind_obj res"
  oe_nic_route :: "bind_obj res"
  oe_sock :: sock_env
  oe_sock_port :: "py_sock \<Rightarrow> int res"
  oe_sock_name :: "py_sock \<Rightarrow> unit res"
  oe_connect :: "dest_tup \<Rightarrow> unit res"
  oe_datagram :: "unit res"
  oe_serve :: "unit res"
  oe_connection :: "bool \<Rightarrow> unit res"

text \<open>
  The destination as an address, or as a finished tuple. A number is read in the family of the route if there is one, a range
  stands for its first address.
\<close>

definition open_host :: "af option \<Rightarrow> open_ip \<Rightarrow> string res" where
  "open_host af ip =
     (case ip of
        OpenText s \<Rightarrow> Ok s
      | OpenInt n \<Rightarrow>
          rbind (IPRange (IpInt n) None (Some (case af of None \<Rightarrow> CIDR_WAN | Some f \<Rightarrow> int (af_to_cidr f)))) ipr_norm
      | OpenRange r \<Rightarrow> ipr_norm r)"

definition load_dest :: "af option \<Rightarrow> open_dest \<Rightarrow> (address + dest_tup) option res" where
  "load_dest af dest =
     (case dest of
        DestNone \<Rightarrow> Ok None
      | DestPair ip port \<Rightarrow> rmap (\<lambda>host. Some (Inl (new_address host port None))) (open_host af ip)
      | DestAddress a \<Rightarrow> Ok (Some (Inl a))
      | DestDone d \<Rightarrow> Ok (Some (Inr d)))"

definition load_route :: "open_env \<Rightarrow> route_arg \<Rightarrow> bind_obj option res" where
  "load_route env route =
     (case route of
        RouteNone \<Rightarrow> Ok None
      | RouteBind b \<Rightarrow> Ok (Some b)
      | RouteNic \<Rightarrow> rmap Some (oe_nic_route env))"

definition bound_route :: "open_env \<Rightarrow> bind_obj \<Rightarrow> bind_obj res" where
  "bound_route env b =
     (if b_resolved b then Ok b else bind_call (oe_gai env) (oe_plat env) (oe_nic_ip env) None None b)"

definition resolved_dest :: "open_env \<Rightarrow> bind_obj \<Rightarrow> (address + dest_tup) option \<Rightarrow> dest_tup option res option" where
  "resolved_dest env route dest =
     (case dest of
        None \<Rightarrow> Some (Ok None)
      | Some (Inr d) \<Rightarrow> Some (Ok (Some d))
      | Some (Inl a) \<Rightarrow>
          map_option (\<lambda>r. rbind r (\<lambda>a. rmap Some (select_ip a (b_af route))))
            (if a_resolved a then Some (Ok a)
             else address_res (oe_plat env) (oe_dns env) (oe_fallback env) (oe_fuel env) (b_nic route) None a))"

section \<open>The pipe\<close>

datatype endpoint = TYPE_UDP_CON | TYPE_UDP_SERVER | TYPE_TCP_CON | TYPE_TCP_SERVER | TYPE_TCP_CLIENT

record 'h open_pipe =
  op_proto :: sock_proto
  op_sock :: py_sock
  op_type :: "endpoint option"
  op_msg_cbs :: "'h list"
  op_up_cbs :: "'h list"
  op_dest :: "(string \<times> int) option"
  op_sub_all :: bool
  op_acks :: bool
  op_port :: int

datatype 'h open_ret = RetNone | RetSock py_sock | RetPipe "'h open_pipe"

text \<open>
  What happened to the socket on the way: it was made, its making was left by an exception, or it was closed again because
  it could not be bound, all three in the factory; it was closed by \<open>pipe_open\<close>, with the pipe.
\<close>

datatype open_act = ActSocket | ActUnfinished | ActFactoryClose | ActCloseSock py_sock | ActClosePipe

definition dest_info_of :: "dest_tup \<Rightarrow> dest_info" where
  "dest_info_of d =
     \<lparr>dest_resolved = True, dest_port = dt_port d, dest_supported = dt_supported d, dest_loopback = dt_is_loopback d\<rparr>"

text \<open>
  The factory makes a socket as soon as the route is bound and the destination fits; making the bare socket is taken to
  succeed, setting its options and binding it may not.
\<close>

definition factory_acts :: "bind_obj \<Rightarrow> dest_info option \<Rightarrow> py_sock option res \<Rightarrow> open_act list" where
  "factory_acts route dest made =
     (if b_resolved route \<and> dest_check (b_af route) dest = Ok ()
      then ActSocket # (case made of Inl e \<Rightarrow> [ActUnfinished] | Inr None \<Rightarrow> [ActFactoryClose] | Inr (Some s) \<Rightarrow> [])
      else [])"

text \<open>
  The socket, made unless one was passed in: None ends the opening, an error still leaves the socket known unless the
  factory raised it.
\<close>

definition open_sock ::
  "open_env \<Rightarrow> net_conf \<Rightarrow> sock_proto \<Rightarrow> dest_tup option \<Rightarrow> bind_obj \<Rightarrow> py_sock option \<Rightarrow>
   unit option res \<times> py_sock option \<times> open_act list" where
  "open_sock env conf prot dest route sock =
     (case sock of
        Some s \<Rightarrow> (Ok (Some ()), Some s, [])
      | None \<Rightarrow>
          (let made = socket_factory (oe_sock env) route (map_option dest_info_of dest) (if prot = RUDP then UDP else prot) conf;
               acts = factory_acts route (map_option dest_info_of dest) made
           in case made of
                Inl e \<Rightarrow> (Err e, None, acts)
              | Inr None \<Rightarrow> (Ok None, None, acts)
              | Inr (Some s) \<Rightarrow>
                  ((case dest of
                      Some d \<Rightarrow> if prot = TCP then rmap Some (oe_connect env d) else Ok (Some ())
                    | None \<Rightarrow> Ok (Some ())), Some s, acts)))"

definition new_pipe :: "int \<Rightarrow> sock_proto \<Rightarrow> py_sock \<Rightarrow> 'h option \<Rightarrow> 'h open_pipe" where
  "new_pipe bind_port prot s msg_cb =
     \<lparr>op_proto = prot, op_sock = s, op_type = None, op_msg_cbs = (case msg_cb of None \<Rightarrow> [] | Some h \<Rightarrow> [h]), op_up_cbs = [],
      op_dest = None, op_sub_all = False, op_acks = False, op_port = bind_port\<rparr>"

text \<open>The transport by protocol, and the endpoint it makes.\<close>

definition start_udp :: "open_env \<Rightarrow> dest_tup option \<Rightarrow> 'h open_pipe \<Rightarrow> 'h open_pipe res" where
  "start_udp env dest p =
     (if op_proto p = TCP then Ok p
      else rmap (\<lambda>_. p\<lparr>op_type := Some (if dest = None then TYPE_UDP_SERVER else TYPE_UDP_CON), op_acks := (op_proto p = RUDP)\<rparr>)
             (oe_datagram env))"

definition start_tcp :: "open_env \<Rightarrow> net_conf \<Rightarrow> dest_tup option \<Rightarrow> 'h option \<Rightarrow> 'h open_pipe \<Rightarrow> 'h open_pipe res" where
  "start_tcp env conf dest up_cb p =
     (if op_proto p \<noteq> TCP then Ok p
      else let p = (case up_cb of None \<Rightarrow> p | Some h \<Rightarrow> p\<lparr>op_up_cbs := op_up_cbs p @ [h]\<rparr>)
           in if dest = None then rmap (\<lambda>_. p\<lparr>op_type := Some TYPE_TCP_SERVER\<rparr>) (oe_serve env)
              else rmap (\<lambda>_. p\<lparr>op_type := Some TYPE_TCP_CON\<rparr>) (oe_connection env (use_ssl conf)))"

definition set_dest :: "dest_tup option \<Rightarrow> 'h option \<Rightarrow> 'h open_pipe \<Rightarrow> 'h open_pipe" where
  "set_dest dest msg_cb p =
     (case dest of None \<Rightarrow> p | Some d \<Rightarrow> p\<lparr>op_dest := Some (dt_tup d), op_sub_all := (msg_cb = None)\<rparr>)"

text \<open>
  The guarded part of \<open>pipe_open\<close>: its result, the socket it knows at the end, whether there is a pipe to close, and what
  the factory did.
\<close>

definition open_guarded ::
  "open_env \<Rightarrow> net_conf \<Rightarrow> sock_proto \<Rightarrow> dest_tup option \<Rightarrow> bind_obj \<Rightarrow> py_sock option \<Rightarrow> 'h option \<Rightarrow> 'h option \<Rightarrow>
   ('h open_ret res \<times> py_sock option \<times> bool) \<times> open_act list" where
  "open_guarded env conf prot dest route sock msg_cb up_cb =
     (case open_sock env conf prot dest route sock of
        (Inl e, s, acts) \<Rightarrow> ((Err e, s, False), acts)
      | (Inr _, None, acts) \<Rightarrow> ((Ok RetNone, None, False), acts)
      | (Inr _, Some s, acts) \<Rightarrow>
          (case oe_sock_port env s of
             Inl e \<Rightarrow> ((Err e, Some s, False), acts)
           | Inr bind_port \<Rightarrow>
               (if sock_only conf then ((Ok (RetSock s), Some s, False), acts)
                else ((rmap (\<lambda>p. RetPipe (set_dest dest msg_cb p))
                        (rbind (start_udp env dest (new_pipe bind_port prot s msg_cb)) (start_tcp env conf dest up_cb)), Some s, True),
                      acts))))"

text \<open>
  The handler of the guarded part: a cancellation goes through it; after any other exception, if the configuration says
  so, the socket's name is asked for the log, which may raise in turn, the socket and the pipe are closed, and None is given.
  Closing them does not raise.
\<close>

definition open_handler ::
  "open_env \<Rightarrow> net_conf \<Rightarrow> 'h open_ret res \<times> py_sock option \<times> bool \<Rightarrow> 'h open_ret res \<times> open_act list" where
  "open_handler env conf out =
     (case out of
        (Inr r, _, _) \<Rightarrow> (Ok r, [])
      | (Inl e, s, piped) \<Rightarrow>
          if e = CancelledError then (Err e, [])
          else if \<not> do_close conf then (Ok RetNone, [])
          else (let close_pipe = (if piped then [ActClosePipe] else [])
                in case s of
                     None \<Rightarrow> (Ok RetNone, close_pipe)
                   | Some s \<Rightarrow>
                       (case oe_sock_name env s of
                          Inl e' \<Rightarrow> (Err e', [])
                        | Inr _ \<Rightarrow> (Ok RetNone, ActCloseSock s # close_pipe))))"

definition pipe_open ::
  "open_env \<Rightarrow> net_conf \<Rightarrow> int \<Rightarrow> open_dest \<Rightarrow> route_arg \<Rightarrow> py_sock option \<Rightarrow> 'h option \<Rightarrow> 'h option \<Rightarrow>
   ('h open_ret res \<times> open_act list) option" where
  "pipe_open env conf n dest route sock msg_cb up_cb =
     (case proto_of n of
        None \<Rightarrow> Some (Err (PyException ''Transport proto for pipe_open not supported.''), [])
      | Some prot \<Rightarrow>
          (case rbind (load_route env route) (\<lambda>route. rbind (load_dest (map_option b_af route) dest) (\<lambda>dest.
                  rbind (case route of Some b \<Rightarrow> Ok b | None \<Rightarrow> oe_default_route env None) (\<lambda>b.
                  rmap (Pair dest) (bound_route env b)))) of
             Inl e \<Rightarrow> Some (Err e, [])
           | Inr (dest, b) \<Rightarrow>
               (case resolved_dest env b dest of
                  None \<Rightarrow> None
                | Some (Inl e) \<Rightarrow> Some (Err e, [])
                | Some (Inr d) \<Rightarrow>
                    (let (out, made) = open_guarded env conf prot d b sock msg_cb up_cb;
                         (r, closed) = open_handler env conf out
                     in Some (r, made @ closed)))))"

section \<open>Clients of a TCP server\<close>

text \<open>
  A server with its table of awaited clients, and the lists of handlers that every client pipe shares with it: a
  handler added through one client is a handler of all.
\<close>

record 'h tcp_events =
  te_accepts :: "nat accepts"
  te_clients :: "nat list"
  te_entries :: "(nat \<times> nat) list"
  te_up_cbs :: "'h list"
  te_msg_cbs :: "'h list"
  te_end_cbs :: "'h list"

definition tcp_connection_made :: "nat \<Rightarrow> 'h tcp_events \<Rightarrow> ('h \<times> nat) list \<times> 'h tcp_events" where
  "tcp_connection_made client t =
     (let runs = map (\<lambda>h. (h, client)) (te_up_cbs t);
          (entry, acc) = add_tcp_client client (te_accepts t)
      in (runs, t\<lparr>te_accepts := acc, te_clients := te_clients t @ [client], te_entries := dict_set client entry (te_entries t)\<rparr>))"

definition tcp_data_received :: "nat \<Rightarrow> 'h tcp_events \<Rightarrow> ('h \<times> nat) list" where
  "tcp_data_received client t = map (\<lambda>h. (h, client)) (te_msg_cbs t)"

definition client_add_end_cb :: "nat \<Rightarrow> 'h \<Rightarrow> 'h tcp_events \<Rightarrow> 'h tcp_events" where
  "client_add_end_cb client h t = t\<lparr>te_end_cbs := te_end_cbs t @ [h]\<rparr>"

definition tcp_client_lost :: "nat \<Rightarrow> 'h tcp_events \<Rightarrow> (('h \<times> nat) list \<times> 'h tcp_events) res" where
  "tcp_client_lost client t =
     rbind (dict_get client (te_entries t)) (\<lambda>entry.
     rmap (\<lambda>acc. (map (\<lambda>h. (h, client)) (te_end_cbs t),
                  t\<lparr>te_accepts := acc, te_clients := remove1 client (te_clients t)\<rparr>))
       (tcp_connection_lost entry (te_accepts t)))"

lemma end_cb_of_another:
  assumes "tcp_client_lost d (client_add_end_cb c h t) = Inr (runs, t')"
  shows "(h, d) \<in> set runs"
  using assms by (auto simp: tcp_client_lost_def client_add_end_cb_def rbind_def rmap_def split: sum.split_asm)

section \<open>What an opening leaves\<close>

lemma guarded_pipe:
  assumes "open_guarded env conf prot dest route sock msg_cb up_cb = ((Inr (RetPipe p), s, made), acts)"
  shows "op_proto p = prot \<and> s = Some (op_sock p) \<and> op_dest p = map_option dt_tup dest \<and> (op_sub_all p \<longleftrightarrow> dest \<noteq> None \<and> msg_cb = None) \<and>
    op_type p = Some (if prot = TCP then (if dest = None then TYPE_TCP_SERVER else TYPE_TCP_CON)
                      else (if dest = None then TYPE_UDP_SERVER else TYPE_UDP_CON)) \<and>
    (op_acks p \<longleftrightarrow> prot = RUDP)"
  using assms
  by (cases dest; cases up_cb; cases prot)
    (auto simp: open_guarded_def start_udp_def start_tcp_def set_dest_def new_pipe_def rmap_def rbind_def Let_def
      split: prod.splits sum.splits option.splits if_splits)

text \<open>What the guarded part leaves when the factory was used and made a socket.\<close>

lemma guarded_cases:
  assumes "open_guarded env conf prot dest route None msg_cb up_cb = ((out, s, piped), acts)" and "ActSocket \<in> set acts"
  obtains (unfinished) e where "out = Inl e" "s = None" "\<not> piped" "acts = [ActSocket, ActUnfinished]"
    | (unbound) "out = Inr RetNone" "s = None" "\<not> piped" "acts = [ActSocket, ActFactoryClose]"
    | (failed) e k where "out = Inl e" "s = Some k" "acts = [ActSocket]"
    | (opened) r k where "out = Inr r" "r \<noteq> RetNone" "s = Some k" "acts = [ActSocket]"
proof -
  obtain r k made where o: "open_sock env conf prot dest route None = (r, k, made)" by (metis surj_pair)
  let ?f = "socket_factory (oe_sock env) route (map_option dest_info_of dest) (if prot = RUDP then UDP else prot) conf"
  have "acts = made" using assms(1) o by (auto simp: open_guarded_def split: sum.splits option.splits if_splits)
  then have made: "made = ActSocket # (case ?f of Inl e \<Rightarrow> [ActUnfinished] | Inr None \<Rightarrow> [ActFactoryClose] | Inr (Some s) \<Rightarrow> [])"
    using assms(2) o by (auto simp: open_sock_def factory_acts_def Let_def split: sum.splits option.splits if_splits)
  consider e where "?f = Inl e" | "?f = Inr None" | k' where "?f = Inr (Some k')" by (metis not_Some_eq sumE)
  then show thesis
  proof cases
    case (1 e)
    then have "out = Inl e" "s = None" "\<not> piped" using assms(1) o by (auto simp: open_guarded_def open_sock_def Let_def)
    then show thesis using unfinished 1 made \<open>acts = made\<close> by simp
  next
    case 2
    then have "out = Inr RetNone" "s = None" "\<not> piped" using assms(1) o by (auto simp: open_guarded_def open_sock_def Let_def)
    then show thesis using unbound 2 made \<open>acts = made\<close> by simp
  next
    case (3 k')
    then have k: "k = Some k'" using o by (auto simp: open_sock_def Let_def)
    then have "s = Some k'" using assms(1) o by (auto simp: open_guarded_def split: sum.splits if_splits)
    moreover have "out \<noteq> Inr RetNone" using assms(1) o k by (auto simp: open_guarded_def rmap_def split: sum.splits if_splits)
    ultimately show thesis using failed opened 3 made \<open>acts = made\<close> by (cases out) auto
  qed
qed

lemma handler_kept: "open_handler env conf out = (r, closed) \<Longrightarrow> \<not> do_close conf \<Longrightarrow> closed = []"
  by (auto simp: open_handler_def split: sum.splits prod.splits if_splits)

definition sock_closed :: "open_act list \<Rightarrow> bool" where
  "sock_closed acts = (ActFactoryClose \<in> set acts \<or> (\<exists>s. ActCloseSock s \<in> set acts))"

lemma handler_closes:
  assumes "open_handler env conf (Inl e, Some k, piped) = (r, closed)"
  shows "sock_closed closed \<longleftrightarrow> r = Ok RetNone \<and> do_close conf" and "ActUnfinished \<notin> set closed \<and> ActFactoryClose \<notin> set closed"
  using assms by (auto simp: open_handler_def sock_closed_def Let_def split: sum.splits if_splits)

section \<open>Properties\<close>

text \<open>C13: what becomes of a socket that \<open>pipe_open\<close> makes: it is closed exactly when None is returned, unless the factory
was left by an exception after it had made the socket, or the configuration forbids closing and the factory has not closed
it itself. So a socket is neither returned nor closed after a cancellation, after an exception in the factory, when its
name cannot be asked in the handler, and when the configuration keeps sockets.\<close>

theorem failed_open_closes:
  assumes "pipe_open env conf n dest route None msg_cb up_cb = Some (r, acts)" and "ActSocket \<in> set acts"
  shows "sock_closed acts \<longleftrightarrow> r = Ok RetNone \<and> ActUnfinished \<notin> set acts \<and> (do_close conf \<or> ActFactoryClose \<in> set acts)"
proof -
  obtain prot where prot: "proto_of n = Some prot" using assms by (auto simp: pipe_open_def split: option.splits)
  obtain dst b where db: "rbind (load_route env route) (\<lambda>route. rbind (load_dest (map_option b_af route) dest) (\<lambda>dest.
      rbind (case route of Some b \<Rightarrow> Ok b | None \<Rightarrow> oe_default_route env None) (\<lambda>b. rmap (Pair dest) (bound_route env b)))) = Inr (dst, b)"
    using assms prot by (cases "rbind (load_route env route) (\<lambda>route. rbind (load_dest (map_option b_af route) dest) (\<lambda>dest.
      rbind (case route of Some b \<Rightarrow> Ok b | None \<Rightarrow> oe_default_route env None) (\<lambda>b. rmap (Pair dest) (bound_route env b))))")
      (auto simp: pipe_open_def)
  obtain d where d: "resolved_dest env b dst = Some (Inr d)"
    using assms prot db by (auto simp: pipe_open_def split: option.splits sum.splits)
  obtain out k piped made where out: "open_guarded env conf prot d b None msg_cb up_cb = ((out, k, piped), made)" by (metis surj_pair)
  obtain h closed where hc: "open_handler env conf (out, k, piped) = (h, closed)" by fastforce
  have r: "h = r" and acts: "acts = made @ closed" using assms(1) prot db d out hc by (auto simp: pipe_open_def)
  have "ActSocket \<notin> set closed" using hc by (auto simp: open_handler_def Let_def split: sum.splits if_splits option.splits)
  then have "ActSocket \<in> set made" using assms(2) acts by simp
  from out this show ?thesis
  proof (cases rule: guarded_cases)
    case (failed e k')
    then show ?thesis using handler_closes [OF hc [unfolded failed]] r acts by (auto simp: sock_closed_def)
  qed (use hc r acts in \<open>auto simp: open_handler_def sock_closed_def split: if_splits\<close>)
qed

definition ex_open_env :: open_env where
  "ex_open_env = \<lparr>oe_plat = ''linux'', oe_gai = (\<lambda>_ _. Ok []), oe_nic_ip = Ok ''10.0.0.1'', oe_dns = (\<lambda>_. Ok []), oe_fallback = (\<lambda>_. Ok []),
     oe_fuel = 1, oe_default_route = (\<lambda>_. Err OSError), oe_nic_route = Err OSError,
     oe_sock = \<lparr>env_setopt = (\<lambda>_. True), env_is_default = (\<lambda>_. Ok True), env_bind = (\<lambda>_. True), env_windows = False\<rparr>,
     oe_sock_port = (\<lambda>_. Ok 5000), oe_sock_name = (\<lambda>_. Ok ()), oe_connect = (\<lambda>_. Err TimeoutError), oe_datagram = Ok (), oe_serve = Ok (), oe_connection = (\<lambda>_. Ok ())\<rparr>"

definition ex_route :: bind_obj where
  "ex_route = \<lparr>b_ips = None, b_nic = None, b_af = IP4, b_resolved = True, b_port = 0, b_tups = [BStr ''10.0.0.1'', BInt 0]\<rparr>"

definition ex_dest_tup :: dest_tup where
  "ex_dest_tup = \<lparr>dt_af = IP4, dt_ip = ''10.0.0.2'', dt_port = 80, dt_is_private = True, dt_is_public = False, dt_is_loopback = False\<rparr>"

definition ex_sock :: py_sock where
  "ex_sock = \<lparr>ps_af = IP4, ps_type = TCP, ps_opts = [], ps_bound = [BStr ''10.0.0.1'', BInt 0]\<rparr>"

lemmas ex_open_simps =
  pipe_open_def proto_of_def load_route_def load_dest_def bound_route_def ex_route_def resolved_dest_def open_guarded_def open_sock_def
  factory_acts_def socket_factory_def dest_check_def dest_info_of_def ex_dest_tup_def dt_supported_def must_set_def may_set_def
  get_bind_tup_def ex_open_env_def ex_sock_def open_handler_def NET_CONF_def

text \<open>A connection that is refused, and an option that cannot be set.\<close>

lemma ex_refused:
  "pipe_open ex_open_env NET_CONF 1 (DestDone ex_dest_tup) (RouteBind ex_route) None None (None :: nat option) =
     Some (Ok RetNone, [ActSocket, ActCloseSock ex_sock])"
  by (simp add: ex_open_simps)

lemma ex_unset:
  "pipe_open (ex_open_env\<lparr>oe_sock := (oe_sock ex_open_env)\<lparr>env_setopt := (\<lambda>_. False)\<rparr>\<rparr>) (NET_CONF\<lparr>reuse_addr := True\<rparr>) 1
     (DestDone ex_dest_tup) (RouteBind ex_route) None None (None :: nat option) = Some (Ok RetNone, [ActSocket, ActUnfinished])"
  by (simp add: ex_open_simps)

theorem failed_open_closes_witness:
  "\<exists>acts. pipe_open ex_open_env NET_CONF 1 (DestDone ex_dest_tup) (RouteBind ex_route) None None (None :: nat option) = Some (Ok RetNone, acts) \<and>
     sock_closed acts"
proof -
  have "sock_closed [ActSocket, ActCloseSock ex_sock]" using failed_open_closes [OF ex_refused] by (simp add: NET_CONF_def)
  then show ?thesis using ex_refused by blast
qed

end
