(* ===== verification/Daemon.thy ===== *)
theory Daemon
  imports Pipe_Open
begin

text \<open>
  \<^verbatim>\<open>net/daemon.py\<close>: servers that listen on several addresses, the table of their pipes, the checks before a new
  listener, and which addresses the three ways of listening choose. Opening the pipe, lock files and trying to connect
  to a port are the environment; pipes are opaque here.
\<close>

section \<open>State\<close>

text \<open>\<open>servers\<close>: for a family and a protocol, the pipes by port and then by address.\<close>

record 'p daemon =
  dm_servers :: "af \<Rightarrow> sock_proto \<Rightarrow> (int \<times> (string \<times> 'p) list) list"
  dm_locks :: "string list"

record 'p daemon_env =
  de_lock :: "(string \<Rightarrow> bool) option"
  de_reach :: "af \<Rightarrow> string \<Rightarrow> int \<Rightarrow> bool res"
  de_open :: "sock_proto \<Rightarrow> bind_obj \<Rightarrow> ('p \<times> int) option res"

definition new_daemon :: "'p daemon" where
  "new_daemon = \<lparr>dm_servers = (\<lambda>_ _. []), dm_locks = []\<rparr>"

definition route_tup :: "bind_obj \<Rightarrow> (string \<times> int) res" where
  "route_tup b =
     rbind (get_bind_tup b None NIC_BIND) (\<lambda>t.
       case t of BStr ip # BInt port # _ \<Rightarrow> Ok (ip, port) | _ \<Rightarrow> Err TypeError)"

section \<open>Checks before listening\<close>

definition is_serv_listening :: "'p daemon_env \<Rightarrow> sock_proto \<Rightarrow> bind_obj \<Rightarrow> bool res" where
  "is_serv_listening env prot listen_route =
     (if prot = UDP then Ok False
      else rbind (route_tup listen_route) (\<lambda>(listen_ip, listen_port).
        if listen_port = 0 then Ok False
        else de_reach env (b_af listen_route) (if listen_ip \<in> set VALID_ANY_ADDR then ''localhost'' else listen_ip) listen_port))"

definition lock_name :: "af \<Rightarrow> sock_proto \<Rightarrow> int \<Rightarrow> string \<Rightarrow> string" where
  "lock_name af prot port ip =
     (if af = IP4 then ''v4'' else ''v6'') @ ''_'' @ (if prot = TCP then ''tcp'' else ''udp'') @ ''_'' @ int_str port @ ''_'' @
     map (\<lambda>c. if c = CHR '':'' \<or> c = CHR ''.'' then CHR ''_'' else c) ip @ ''_pid.txt''"

text \<open>
  A new listener. Only a fixed port is guarded, by the lock of its name and by trying to connect to it; what trying
  raises counts as free.
\<close>

definition add_listener :: "'p daemon_env \<Rightarrow> sock_proto \<Rightarrow> bind_obj \<Rightarrow> 'p daemon \<Rightarrow> (int \<times> 'p) res \<times> 'p daemon" where
  "add_listener env prot route d =
     (case rbind (rassert (b_resolved route)) (\<lambda>_. route_tup route) of
        Inl e \<Rightarrow> (Err e, d)
      | Inr (ip, port) \<Rightarrow>
          (let name = lock_name (b_af route) prot port ip;
               fixed = b_port route \<noteq> 0
           in if fixed \<and> (case de_lock env of None \<Rightarrow> False | Some free \<Rightarrow> \<not> free name) then (Err (PyException ''zombie pid''), d)
              else if fixed \<and> res_opt (is_serv_listening env prot route) = Some True then (Err (PyException ''listen conflict.''), d)
              else case de_open env prot route of
                     Inl e \<Rightarrow> (Err e, d)
                   | Inr None \<Rightarrow> (Err AssertionError, d)
                   | Inr (Some (pipe, sock_port)) \<Rightarrow>
                       (let d = (if fixed \<and> de_lock env \<noteq> None then d\<lparr>dm_locks := dm_locks d @ [name]\<rparr> else d);
                            port = (if fixed then port else sock_port);
                            ips = (case map_of (dm_servers d (b_af route) prot) port of None \<Rightarrow> [] | Some m \<Rightarrow> m);
                            tab = dict_set port (dict_set ip pipe ips) (dm_servers d (b_af route) prot)
                        in if prot = RUDP then (Err KeyError, d)
                           else (Ok (port, pipe),
                                 d\<lparr>dm_servers := (dm_servers d)(b_af route := (dm_servers d (b_af route))(prot := tab))\<rparr>))))"

section \<open>Where to listen\<close>

text \<open>A listener on each family; what a bind raises goes through, what a listener raises is dropped.\<close>

fun listen_each ::
  "'p daemon_env \<Rightarrow> (af \<Rightarrow> bind_obj res) \<Rightarrow> sock_proto \<Rightarrow> af list \<Rightarrow> 'p daemon \<Rightarrow> (int \<times> 'p) list res \<times> 'p daemon" where
  "listen_each env bind prot [] d = (Ok [], d)"
| "listen_each env bind prot (af # afs) d =
     (case bind af of
        Inl e \<Rightarrow> (Err e, d)
      | Inr route \<Rightarrow>
          (let (out, d') = add_listener env prot route d;
               (rest, d'') = listen_each env bind prot afs d'
           in (rmap (\<lambda>xs. strip_none [res_opt out] @ xs) rest, d'')))"

definition listen_all ::
  "'p daemon_env \<Rightarrow> (af \<Rightarrow> string \<Rightarrow> int \<Rightarrow> bind_obj res) \<Rightarrow> sock_proto \<Rightarrow> int \<Rightarrow> af list \<Rightarrow> 'p daemon \<Rightarrow> (int \<times> 'p) list res \<times> 'p daemon" where
  "listen_all env bind prot port supported d = listen_each env (\<lambda>af. bind af ''*'' port) prot supported d"

definition listen_loopback ::
  "'p daemon_env \<Rightarrow> (af \<Rightarrow> string \<Rightarrow> int \<Rightarrow> bind_obj res) \<Rightarrow> sock_proto \<Rightarrow> int \<Rightarrow> af list \<Rightarrow> 'p daemon \<Rightarrow> (int \<times> 'p) list res \<times> 'p daemon" where
  "listen_loopback env bind prot port supported d = listen_each env (\<lambda>af. bind af ''localhost'' port) prot supported d"

text \<open>
  Local addresses. Of IPv4, each address of the route table once; when there are more than the limit, the whole call
  returns at once and gives None. The counter starts anew with each family, and the loop over link-locals never
  moves it.
\<close>

fun listen_nic_ips ::
  "'p daemon_env \<Rightarrow> (af \<Rightarrow> string \<Rightarrow> int \<Rightarrow> bind_obj res) \<Rightarrow> sock_proto \<Rightarrow> int \<Rightarrow> nat option \<Rightarrow> string list \<Rightarrow> string list \<Rightarrow> 'p daemon \<Rightarrow>
   (int \<times> 'p) option list option res \<times> 'p daemon" where
  "listen_nic_ips env bind prot port limit seen [] d = (Ok (Some []), d)"
| "listen_nic_ips env bind prot port limit seen (ip # ips) d =
     (if ip \<in> set seen then listen_nic_ips env bind prot port limit seen ips d
      else let seen = seen @ [ip] in
        if (case limit of None \<Rightarrow> False | Some n \<Rightarrow> n < length seen) then (Ok None, d)
        else case bind IP4 ip port of
               Inl e \<Rightarrow> (Err e, d)
             | Inr route \<Rightarrow>
                 (let (out, d') = add_listener env prot route d;
                      (rest, d'') = listen_nic_ips env bind prot port limit seen ips d'
                  in (rmap (map_option (Cons (res_opt out))) rest, d'')))"

fun listen_link_locals ::
  "'p daemon_env \<Rightarrow> (af \<Rightarrow> string \<Rightarrow> int \<Rightarrow> bind_obj res) \<Rightarrow> bind_obj \<Rightarrow> sock_proto \<Rightarrow> int \<Rightarrow> string list \<Rightarrow> 'p daemon \<Rightarrow>
   (int \<times> 'p) option list \<times> 'p daemon" where
  "listen_link_locals env bind unbound prot port [] d = ([], d)"
| "listen_link_locals env bind unbound prot port (ip # ips) d =
     (let route = (case bind IP6 ip port of Inl e \<Rightarrow> unbound | Inr r \<Rightarrow> r);
          (out, d') = add_listener env prot route d;
          (rest, d'') = listen_link_locals env bind unbound prot port ips d'
      in (res_opt out # rest, d''))"

fun listen_local ::
  "'p daemon_env \<Rightarrow> (af \<Rightarrow> string \<Rightarrow> int \<Rightarrow> bind_obj res) \<Rightarrow> bind_obj \<Rightarrow> string list \<Rightarrow> string list \<Rightarrow> sock_proto \<Rightarrow> int \<Rightarrow> nat option \<Rightarrow>
   af list \<Rightarrow> 'p daemon \<Rightarrow> (int \<times> 'p) list option res \<times> 'p daemon" where
  "listen_local env bind unbound nic_ips link_locals prot port limit [] d = (Ok (Some []), d)"
| "listen_local env bind unbound nic_ips link_locals prot port limit (IP4 # afs) d =
     (case listen_nic_ips env bind prot port limit [] nic_ips d of
        (Inl e, d') \<Rightarrow> (Err e, d')
      | (Inr None, d') \<Rightarrow> (Ok None, d')
      | (Inr (Some outs), d') \<Rightarrow>
          (let (rest, d'') = listen_local env bind unbound nic_ips link_locals prot port limit afs d'
           in (rmap (map_option (\<lambda>xs. strip_none outs @ xs)) rest, d'')))"
| "listen_local env bind unbound nic_ips link_locals prot port limit (IP6 # afs) d =
     (let (outs, d') = listen_link_locals env bind unbound prot port link_locals d;
          (rest, d'') = listen_local env bind unbound nic_ips link_locals prot port limit afs d'
      in (rmap (map_option (\<lambda>xs. strip_none outs @ xs)) rest, d''))"

section \<open>All servers\<close>

definition for_server_in_self :: "'p daemon \<Rightarrow> 'p list" where
  "for_server_in_self d =
     concat (map (\<lambda>af. concat (map (\<lambda>prot. concat (map (\<lambda>(port, ips). map snd ips) (dm_servers d af prot))) [TCP, UDP])) VALID_AFS)"

text \<open>Closing calls the close of each in turn; what one raises does not stop the others.\<close>

definition daemon_close :: "('p \<Rightarrow> unit res) \<Rightarrow> 'p daemon \<Rightarrow> ('p \<times> unit res) list" where
  "daemon_close close d = map (\<lambda>p. (p, close p)) (for_server_in_self d)"


section \<open>What listening leaves\<close>

lemma dict_set_mem: "v \<in> snd ` set (dict_set k v d)"
  by (induction k v d rule: dict_set.induct) auto

lemma dict_set_sub: "snd ` set (dict_set k v d) \<subseteq> insert v (snd ` set d)"
  by (induction k v d rule: dict_set.induct) auto

lemma dict_set_parts: "x \<in> set (dict_set k v d) \<Longrightarrow> x = (k, v) \<or> x \<in> set d"
  by (induction k v d rule: dict_set.induct) (auto split: if_splits)

lemma for_server_iff:
  "p \<in> set (for_server_in_self d) \<longleftrightarrow> (\<exists>af prot port ips ip. prot \<noteq> RUDP \<and> (port, ips) \<in> set (dm_servers d af prot) \<and> (ip, p) \<in> set ips)"
proof -
  have af: "(\<exists>af \<in> set VALID_AFS. Q af) \<longleftrightarrow> (\<exists>af. Q af)" for Q
    unfolding VALID_AFS_def by (simp, metis af.exhaust)
  have prot: "(\<exists>x \<in> set [TCP, UDP]. Q x) \<longleftrightarrow> (\<exists>x. x \<noteq> RUDP \<and> Q x)" for Q
    by (simp, metis sock_proto.distinct sock_proto.exhaust)
  have pairs: "(\<exists>e \<in> set xs. p \<in> snd ` set (snd e)) \<longleftrightarrow> (\<exists>port ips ip. (port, ips) \<in> set xs \<and> (ip, p) \<in> set ips)"
    for xs :: "(int \<times> (string \<times> 'a) list) list" by (auto simp: Bex_def image_iff)
  have "p \<in> set (for_server_in_self d) \<longleftrightarrow>
      (\<exists>af \<in> set VALID_AFS. \<exists>prot \<in> set [TCP, UDP]. \<exists>e \<in> set (dm_servers d af prot). p \<in> snd ` set (snd e))"
    by (simp add: for_server_in_self_def case_prod_beta)
  also have "\<dots> \<longleftrightarrow> (\<exists>af prot. prot \<noteq> RUDP \<and> (\<exists>e \<in> set (dm_servers d af prot). p \<in> snd ` set (snd e)))"
    unfolding af prot by blast
  finally show ?thesis unfolding pairs by blast
qed

lemma add_listener_parts:
  assumes "add_listener env prot route d = (Inr (port, p), d')"
  obtains ip ips where "prot \<noteq> RUDP" "ips = [] \<or> (port, ips) \<in> set (dm_servers d (b_af route) prot)"
    "dm_servers d' = (dm_servers d)(b_af route := (dm_servers d (b_af route))
       (prot := dict_set port (dict_set ip p ips) (dm_servers d (b_af route) prot)))"
proof -
  obtain ip q where ip: "rbind (rassert (b_resolved route)) (\<lambda>_. route_tup route) = Inr (ip, q)"
    using assms by (cases "rbind (rassert (b_resolved route)) (\<lambda>_. route_tup route)") (auto simp: add_listener_def)
  obtain k n where k: "de_open env prot route = Inr (Some (k, n))"
    using assms ip by (auto simp: add_listener_def Let_def split: if_splits sum.splits option.splits)
  let ?port = "if b_port route \<noteq> 0 then q else n"
  let ?ips = "case map_of (dm_servers d (b_af route) prot) ?port of None \<Rightarrow> [] | Some m \<Rightarrow> m"
  have r: "prot \<noteq> RUDP" "port = ?port" "p = k"
    "dm_servers d' = (dm_servers d)(b_af route := (dm_servers d (b_af route))
       (prot := dict_set ?port (dict_set ip k ?ips) (dm_servers d (b_af route) prot)))"
    using assms ip k by (auto simp: add_listener_def Let_def split: if_splits)
  have "?ips = [] \<or> (?port, ?ips) \<in> set (dm_servers d (b_af route) prot)"
    by (cases "map_of (dm_servers d (b_af route) prot) ?port") (auto dest: map_of_SomeD)
  then show thesis using that [of ?ips ip] r by simp
qed

lemma nic_ips_over:
  assumes "b \<in> set ips" and "b \<noteq> a"
  shows "listen_nic_ips env bind prot port (Some 1) [a] ips d = (Inr None, d)"
  using assms(1)
proof (induction ips)
  case (Cons c cs)
  then show ?case using assms(2) by (cases "c = a") auto
qed simp

section \<open>Properties\<close>

text \<open>A listener that was returned is one that closing will close, and adding it brings in no other pipe.\<close>

theorem listener_is_closed:
  assumes "add_listener env prot route d = (Ok (port, p), d')"
  shows "(p, close p) \<in> set (daemon_close close d') \<and> set (for_server_in_self d') \<subseteq> insert p (set (for_server_in_self d))"
proof -
  obtain ip ips where r: "prot \<noteq> RUDP" "ips = [] \<or> (port, ips) \<in> set (dm_servers d (b_af route) prot)"
    "dm_servers d' = (dm_servers d)(b_af route := (dm_servers d (b_af route))
       (prot := dict_set port (dict_set ip p ips) (dm_servers d (b_af route) prot)))"
    using add_listener_parts [OF assms] by blast
  have "(port, dict_set ip p ips) \<in> set (dm_servers d' (b_af route) prot)"
    using map_of_dict_set [of port "dict_set ip p ips" "dm_servers d (b_af route) prot"] r(3)
    by (simp add: map_of_SomeD)
  moreover have "(ip, p) \<in> set (dict_set ip p ips)" using map_of_dict_set [of ip p ips] by (simp add: map_of_SomeD)
  ultimately have "p \<in> set (for_server_in_self d')" unfolding for_server_iff using r(1) by blast
  moreover have "x = p \<or> x \<in> set (for_server_in_self d)" if x: "x \<in> set (for_server_in_self d')" for x
  proof -
    obtain af pr n m i where m: "pr \<noteq> RUDP" "(n, m) \<in> set (dm_servers d' af pr)" "(i, x) \<in> set m"
      using x unfolding for_server_iff by blast
    show ?thesis
    proof (cases "(n, m) \<in> set (dm_servers d af pr)")
      case True
      then show ?thesis using m unfolding for_server_iff by blast
    next
      case False
      then have e: "af = b_af route" "pr = prot" "(n, m) = (port, dict_set ip p ips)"
        using m(2) dict_set_parts [of "(n, m)" port "dict_set ip p ips"] unfolding r(3) by (auto split: if_splits)
      then have "(i, x) = (ip, p) \<or> (i, x) \<in> set ips" using m(3) dict_set_parts [of "(i, x)" ip p ips] by simp
      then show ?thesis using r(1,2) unfolding for_server_iff by force
    qed
  qed
  ultimately show ?thesis by (auto simp: daemon_close_def)
qed

text \<open>With the default limit of one local address, an interface that has two IPv4 addresses is reported as not
listening at all, although the first address is being listened on; IPv6 is not reached.\<close>

theorem limit_hides_listener:
  assumes "\<exists>b \<in> set ips. b \<noteq> a" and "bind IP4 a port = Ok route"
  shows "listen_local env bind unbound (a # ips) link_locals prot port (Some 1) (IP4 # afs) d =
    (Ok None, snd (add_listener env prot route d))"
proof -
  obtain b where "b \<in> set ips" "b \<noteq> a" using assms(1) by blast
  then show ?thesis using nic_ips_over [of b ips a env bind prot port] assms(2) by (simp add: case_prod_beta Let_def)
qed

end
