(* ===== verification/Spec2Isabelle.thy ===== *)
theory Spec2Isabelle
  imports Py_Utils Ip_Net Ip_Range Bind_Rules Addressing Nat_Info Nat_Predict Stun_Msg Async_Tasks
    Ack_Udp Pipe Turn_Process Turn_Client Route_Pool Peer_Addr Pnp_Packet Pnp_Server Ntp_Clock Tcp_Punch Json_Text Signal Connect
    Http_Lib Rest_Api Nat_Test Toxics Toxi_Server Pipe_Open Daemon
begin

text \<open>
  A verification development of p2pd, a Python library for connections between peers behind NATs. All
  source names below are relative to \<^verbatim>\<open>src/src/p2pd\<close>.

  \<^bold>\<open>The program.\<close> A node (\<^verbatim>\<open>node/p2p_node.py\<close>) knows its interfaces, their routes and the NATs in front
  of them. It learns external addresses with STUN, corrects its clock with NTP, publishes an address text
  under a name at the naming servers, and listens to signal servers (MQTT). To reach a peer it fetches the
  peer's address, and tries techniques one after the other over pairs of interfaces: a direct connection,
  a connection the peer opens in reverse, TCP hole punching, a TURN relay. The last three need messages to
  the peer over the signal servers. What a connection delivers is a pipe: sockets, subscriptions with
  queues, and acknowledged datagrams. A node can be driven over a REST interface, and a proxy that disturbs
  traffic on request is there for testing it.

  \<^bold>\<open>Theories and the code they model.\<close>
  \<^item> Prelude: exceptions as values (\<open>'a res\<close> is an error or a value, \<open>rbind\<close> sequences), indexing, slicing
    and ordered dictionaries, byte strings, big- and little-endian fields (locale \<open>int_codec\<close>, interpreted
    for both byte orders).
  \<^item> Py_Utils: ports, ranges, searching and dictionaries of \<^verbatim>\<open>utility/utils.py\<close>.
  \<^item> Ip_Text: what the code uses of Python's text functions and of \<open>ipaddress\<close>; no file of the repository
    is modelled there. Json_Text: the same for \<open>json\<close>, \<open>binascii\<close> and \<open>decimal\<close>, and the byte and
    hexadecimal helpers of \<^verbatim>\<open>utility/utils.py\<close>.
  \<^item> Ip_Net, Ip_Range, Bind_Rules, Addressing: \<^verbatim>\<open>net/net.py\<close>, \<^verbatim>\<open>net/ip_range.py\<close>, \<^verbatim>\<open>net/bind.py\<close>,
    \<^verbatim>\<open>net/address.py\<close>.
  \<^item> Route_Pool: \<^verbatim>\<open>nic/route/route_defs.py\<close>, \<^verbatim>\<open>route_utils.py\<close>, \<^verbatim>\<open>route_table.py\<close>.
  \<^item> Nat_Info, Nat_Predict: \<^verbatim>\<open>nic/nat/nat_utils.py\<close>, \<^verbatim>\<open>nat_predict.py\<close>.
  \<^item> Stun_Msg: \<^verbatim>\<open>protocol/stun\<close>. Turn_Process, Turn_Client: \<^verbatim>\<open>traversal/turn\<close>.
  \<^item> Async_Tasks, Ack_Udp, Pipe: the task helpers, \<^verbatim>\<open>protocol/ack_udp.py\<close>, \<^verbatim>\<open>net/pipe/pipe_client.py\<close> and
    \<^verbatim>\<open>pipe_events.py\<close> (locale \<open>bounded_queue\<close> for the queue of a subscription, interpreted on it).
  \<^item> Peer_Addr: \<^verbatim>\<open>node/p2p_addr.py\<close>.
  \<^item> Pnp_Packet, Pnp_Server: \<^verbatim>\<open>protocol/pnp\<close> and \<^verbatim>\<open>node/nickname.py\<close> (locale \<open>name_store\<close> for the table of
    names, interpreted on the rows the server writes).
  \<^item> Ntp_Clock: \<^verbatim>\<open>protocol/ntp\<close>. Tcp_Punch: \<^verbatim>\<open>traversal/tcp_punch\<close>.
  \<^item> Signal: \<^verbatim>\<open>node/p2p_defs.py\<close>, \<^verbatim>\<open>node/p2p_protocol.py\<close> and the sending half of
    \<^verbatim>\<open>node/p2p_node_extra.py\<close>.
  \<^item> Connect: \<^verbatim>\<open>node/p2p_utils.py\<close>, \<^verbatim>\<open>p2p_pipe.py\<close>, \<^verbatim>\<open>p2p_node.py\<close> and the rest of
    \<^verbatim>\<open>p2p_node_extra.py\<close>: which addresses a technique tries, the techniques in order, how a node
    watches its pipes, and the order of the signal servers.
  \<^item> Nat_Test: \<^verbatim>\<open>nic/nat/nat_test.py\<close>, against the NAT types of RFC 3489 as reference.
  \<^item> Http_Lib, Rest_Api: \<^verbatim>\<open>protocol/http\<close> and \<^verbatim>\<open>node/rest_api.py\<close>: the web client, the server with its
    routes, and the routes of a node.
  \<^item> Toxics, Toxi_Server: \<^verbatim>\<open>protocol/toxiproxy\<close>: the toxics and tunnels, then the server's routes and the client.
  \<^item> Pipe_Open, Daemon: \<^verbatim>\<open>net/pipe/pipe_utils.py\<close> and \<^verbatim>\<open>net/daemon.py\<close>: opening pipes, and servers on several addresses.

  \<^bold>\<open>How the state corresponds.\<close> A class with its attributes is a record whose field names abbreviate the
  attributes; a method takes the record and returns its result with the new record. An exception is an
  \<open>Inl\<close> value; where the code changes state before it raises, the new state is returned beside the error. A
  dictionary whose order matters is an association list, other tables are maps or lists of rows. A future
  is \<open>Pending\<close> or \<open>Done\<close>. Concurrency is modelled as sequences of steps: what arrives, the passing of time and
  what coroutines return are arguments of the definitions or steps of an inductive relation, so that a
  theorem over all runs covers every interleaving of whole handlers. Where a handler reads state, waits and goes on, and a
  property depends on it, the parts are steps of their own: the reply loop of a TURN session checks its state, waits for a
  datagram and handles it in three steps between which the session can be closed; the task that closes idle pipes reads the
  clock before its rounds, between which pipes are watched and heard; the coroutines that share a bandwidth limit poll,
  hold and give back separately.

  \<^bold>\<open>What the lemmas show.\<close> Each theory first proves how its operations compute, then what they keep: well-formed
  ranges, routes and tables; the states a TURN session, a puncher or a node can reach. The numbered properties
  rest on these: round trips of every wire format and text (addresses, netmasks, STUN, NTP, naming packets,
  JSON messages, dictionaries), agreement of the two ends of an exchange (punching, signalling, address
  requests, acknowledged datagrams), safety of the tables and sessions under arbitrary input, bounds of
  predictions, retransmissions and clock corrections, and termination or its failure. Properties that say
  what the code does where that is surprising are stated as such; the manifest lists them as findings.

  \<^bold>\<open>Bounds and fuel.\<close> \<open>partial_function (option)\<close> is used for loops that may not end: not returning is None.
  The JSON reader takes a bound on its recursion; twice the length of the text is always enough
  (\<open>scan_enough\<close>). Iteration over the hosts of a range takes the number of hosts as its bound and is proved to
  reach the end. A bandwidth limit takes a bound on its polls; some bound is enough whenever the rate is positive and the
  other senders leave something of it again and again, and then a message gets through all toxics that only delay
  (\<open>bandwidth_ends\<close>, \<open>router_sends\<close>); no bound is enough when the rate is zero.

  \<^bold>\<open>Idealisations.\<close> Floating-point numbers and decimals are exact rationals; the variance is compared where
  the code compares its root. Texts are ASCII, JSON strings are code points below 256. SQL statements act on
  lists of rows under the column types of the schema. Hash functions, signatures, encryption, socket calls, DNS
  and the network are parameters; theorems name the documented behaviour they need of them, such as
  decryption undoing encryption, as hypotheses. Of \<open>http.server\<close> the parser of a request head is modelled without
  its limits; what \<open>urllib\<close> makes of a target, and regular expressions a route gives, are parameters. The routers of
  one message to several clients run one after the other. The naming server handles a request as one step, while the
  source waits for its database between reading a row and writing it. Making a bare socket and closing sockets and pipes are
  taken to succeed; setting options, binding, connecting and asking for names may fail.

  \<^bold>\<open>Not modelled.\<close> The vendored MQTT and ECIES packages, the probing of interfaces and routes on the
  platforms (\<^verbatim>\<open>nic/interface.py\<close>, \<^verbatim>\<open>nic/netiface_extra.py\<close>, \<^verbatim>\<open>nic/win_*.py\<close>, \<^verbatim>\<open>utility/cmd_tools.py\<close>,
  \<^verbatim>\<open>utility/machine_id.py\<close>), which only runs commands and parses what the system prints; event-loop set-up and patches
  (\<^verbatim>\<open>net/asyncio_patches.py\<close>); the MQTT wrapper \<^verbatim>\<open>node/signaling.py\<close>, whose states are those of the
  vendored client; UPnP (\<^verbatim>\<open>traversal/upnp\<close>), whose content is XML of a third party; the tables of servers
  in \<^verbatim>\<open>settings.py\<close>; demonstrations and tests. The manifest gives the reason for each part.
\<close>

end
